(* ===== verification/Prelude.thy ===== *)
theory Prelude
  imports Main "HOL-Library.AList" "HOL-Library.List_Lexorder" "HOL-Library.Product_Lexorder"
    "HOL-Library.Char_ord"
begin

text \<open>
  What every component shares: Python dictionaries as insertion-ordered association lists,
  Python strings as lists of code points below 256 (\<open>string\<close>), the string methods the
  analysers call, stable \<open>sorted(..., key=...)\<close>, first-occurrence deduplication, and the
  collections of facts the component proofs are driven by.

  \<^item> A \<open>dict\<close> keeps insertion order; assigning to a present key keeps its position.
    \<open>AList.update\<close> behaves exactly so, hence \<open>dict_set = AList.update\<close>.
  \<^item> Strings are compared by code point, lexicographically (\<open>List_Lexorder\<close> over
    \<open>Char_ord\<close>), tuples component by component (\<open>Product_Lexorder\<close>).
  \<^item> \<open>sorted\<close> is stable, and so is \<open>sort_key\<close>.
\<close>

named_theorems dict_simps "lookup after the dictionary operations"
named_theorems str_defs "definitions of the string methods, for evaluation"

section \<open>Loops that fold\<close>

lemma foldl_invariant:
  assumes "P g" "\<And>g x. x \<in> set xs \<Longrightarrow> P g \<Longrightarrow> P (f g x)"
  shows "P (foldl f g xs)"
  using assms by (induction xs arbitrary: g) auto

lemma foldl_preserves:
  assumes "P g" "\<And>g x. P g \<Longrightarrow> P (f g x)"
  shows "P (foldl f g xs)"
  using assms by (rule foldl_invariant)

section \<open>Dictionaries\<close>

type_synonym ('k, 'v) dict = "('k \<times> 'v) list"

definition dict_get :: "('k, 'v) dict \<Rightarrow> 'k \<Rightarrow> 'v option" where
  "dict_get d k = map_of d k"

definition dict_get_or :: "'v \<Rightarrow> ('k, 'v) dict \<Rightarrow> 'k \<Rightarrow> 'v" where
  "dict_get_or dflt d k = (case map_of d k of None \<Rightarrow> dflt | Some v \<Rightarrow> v)"

definition dict_has :: "('k, 'v) dict \<Rightarrow> 'k \<Rightarrow> bool" where
  "dict_has d k = (k \<in> set (map fst d))"

definition dict_set :: "'k \<Rightarrow> 'v \<Rightarrow> ('k, 'v) dict \<Rightarrow> ('k, 'v) dict" where
  "dict_set k v d = AList.update k v d"

text \<open>\<open>d.setdefault(k, v)\<close>: store only when the key is absent.\<close>

definition dict_setdefault :: "'k \<Rightarrow> 'v \<Rightarrow> ('k, 'v) dict \<Rightarrow> ('k, 'v) dict" where
  "dict_setdefault k v d = (if dict_has d k then d else dict_set k v d)"

text \<open>\<open>d[k].append(v)\<close> on a \<open>defaultdict(list)\<close>, also \<open>d.setdefault(k, []).append(v)\<close>.\<close>

definition dict_append :: "'k \<Rightarrow> 'v \<Rightarrow> ('k, 'v list) dict \<Rightarrow> ('k, 'v list) dict" where
  "dict_append k v d = dict_set k (dict_get_or [] d k @ [v]) d"

definition dict_pop :: "'k \<Rightarrow> ('k, 'v) dict \<Rightarrow> ('k, 'v) dict" where
  "dict_pop k d = AList.delete k d"

definition dict_keys :: "('k, 'v) dict \<Rightarrow> 'k list" where
  "dict_keys d = map fst d"

definition dict_values :: "('k, 'v) dict \<Rightarrow> 'v list" where
  "dict_values d = map snd d"

text \<open>\<open>{key(x): val(x) for x in xs}\<close>: later items win, first position kept.\<close>

definition dict_of :: "('a \<Rightarrow> 'k) \<Rightarrow> ('a \<Rightarrow> 'v) \<Rightarrow> 'a list \<Rightarrow> ('k, 'v) dict" where
  "dict_of key val xs = foldl (\<lambda>d x. dict_set (key x) (val x) d) [] xs"

text \<open>\<open>{**a, **b}\<close> and \<open>a.update(b)\<close>.\<close>

definition dict_update :: "('k, 'v) dict \<Rightarrow> ('k, 'v) dict \<Rightarrow> ('k, 'v) dict" where
  "dict_update a b = foldl (\<lambda>d (k, v). dict_set k v d) a b"

lemma dict_get_set [dict_simps, simp]:
  "dict_get (dict_set k v d) k' = (if k' = k then Some v else dict_get d k')"
  by (simp add: dict_get_def dict_set_def update_conv')

lemma dict_get_Nil [dict_simps, simp]: "dict_get [] k = None"
  by (simp add: dict_get_def)

lemma dict_get_or_Nil [dict_simps, simp]: "dict_get_or x [] k = x"
  by (simp add: dict_get_or_def)

lemma dict_get_or_set [dict_simps, simp]:
  "dict_get_or x (dict_set k v d) k' = (if k' = k then v else dict_get_or x d k')"
  by (simp add: dict_get_or_def dict_set_def update_conv')

lemma dict_has_iff [dict_simps]: "dict_has d k \<longleftrightarrow> dict_get d k \<noteq> None"
  by (auto simp: dict_has_def dict_get_def map_of_eq_None_iff)

lemma dict_get_or_append [dict_simps, simp]:
  "dict_get_or [] (dict_append k v d) k' =
     (if k' = k then dict_get_or [] d k @ [v] else dict_get_or [] d k')"
  by (simp add: dict_append_def)

lemma dict_get_setdefault [dict_simps]:
  "dict_get (dict_setdefault k v d) k' =
     (if k' = k \<and> dict_get d k = None then Some v else dict_get d k')"
  by (auto simp: dict_setdefault_def dict_has_iff)

lemma dict_get_pop [dict_simps, simp]:
  "dict_get (dict_pop k d) k' = (if k' = k then None else dict_get d k')"
  by (simp add: dict_get_def dict_pop_def delete_conv')

lemma dict_keys_set [dict_simps]:
  "set (dict_keys (dict_set k v d)) = insert k (set (dict_keys d))"
  by (induction d) (auto simp: dict_keys_def dict_set_def)

lemma distinct_dict_set: "distinct (map fst d) \<Longrightarrow> distinct (map fst (dict_set k v d))"
  by (simp add: dict_set_def distinct_update)

lemma distinct_dict_append: "distinct (map fst d) \<Longrightarrow> distinct (map fst (dict_append k v d))"
  by (simp add: dict_append_def distinct_dict_set)

lemma dict_set_new: "k \<notin> set (map fst d) \<Longrightarrow> dict_set k v d = d @ [(k, v)]"
  unfolding dict_set_def by (induction d) auto

lemma dict_get_or_get: "dict_get_or x d k = (case dict_get d k of None \<Rightarrow> x | Some v \<Rightarrow> v)"
  by (simp add: dict_get_or_def dict_get_def)

lemma dict_get_Cons: "dict_get ((k, v) # d) k' = (if k' = k then Some v else dict_get d k')"
  by (simp add: dict_get_def)

lemma dict_get_or_notin: "k \<notin> set (map fst d) \<Longrightarrow> dict_get_or x d k = x"
  by (auto simp: dict_get_or_def map_of_eq_None_iff[THEN iffD2] split: option.splits)

lemma dict_get_in_values: "dict_get d k = Some v \<Longrightarrow> v \<in> set (dict_values d)"
  by (force simp: dict_get_def dict_values_def dest: map_of_SomeD)

lemma dict_get_foldl_set:
  "dict_get (foldl (\<lambda>d x. dict_set (key x) (val x) d) d0 xs) k =
     (case find (\<lambda>x. key x = k) (rev xs) of None \<Rightarrow> dict_get d0 k | Some x \<Rightarrow> Some (val x))"
  by (induction xs rule: rev_induct) auto

lemma dict_get_dict_of:
  "dict_get (dict_of key val xs) k =
     map_option val (find (\<lambda>x. key x = k) (rev xs))"
  by (simp add: dict_of_def dict_get_foldl_set split: option.splits)

lemma distinct_dict_of: "distinct (map fst (dict_of key val xs))"
proof -
  have "distinct (map fst d) \<Longrightarrow>
      distinct (map fst (foldl (\<lambda>d x. dict_set (key x) (val x) d) d xs))" for d
    by (induction xs arbitrary: d) (auto intro: distinct_dict_set)
  then show ?thesis by (simp add: dict_of_def)
qed

lemma dict_get_dict_of_Some:
  assumes "dict_get (dict_of key val xs) k = Some v"
  shows "\<exists>x \<in> set xs. key x = k \<and> val x = v"
proof -
  from assms obtain x where "find (\<lambda>x. key x = k) (rev xs) = Some x" "val x = v"
    by (auto simp: dict_get_dict_of)
  then have "x \<in> set (rev xs)" "key x = k"
    by (auto simp: find_Some_iff simp del: set_rev)
  with \<open>val x = v\<close> show ?thesis by auto
qed

lemma dict_get_dict_of_None:
  "dict_get (dict_of key val xs) k = None \<longleftrightarrow> (\<forall>x \<in> set xs. key x \<noteq> k)"
  by (auto simp: dict_get_dict_of find_None_iff)

lemma dict_get_dict_of_distinct:
  assumes "distinct (map key xs)" "x \<in> set xs"
  shows "dict_get (dict_of key val xs) (key x) = Some (val x)"
proof -
  from assms(2) have "dict_get (dict_of key val xs) (key x) \<noteq> None"
    by (auto simp: dict_get_dict_of_None)
  then obtain v where v: "dict_get (dict_of key val xs) (key x) = Some v" by auto
  from dict_get_dict_of_Some[OF v] obtain y where "y \<in> set xs" "key y = key x" "val y = v"
    by blast
  with assms have "y = x" by (meson distinct_map inj_onD)
  with v \<open>val y = v\<close> show ?thesis by simp
qed

lemma dict_get_or_in: "x \<in> set (dict_get_or [] d k) \<Longrightarrow> \<exists>xs. (k, xs) \<in> set d \<and> x \<in> set xs"
  by (cases "map_of d k") (auto simp: dict_get_or_def dest: map_of_SomeD)

text \<open>A dictionary of lists filled by a loop with a test.\<close>

lemma group_get:
  "dict_get_or [] (foldl (\<lambda>d p. if Q p then dict_append (key p) p d else d) d ps) s =
     dict_get_or [] d s @ filter (\<lambda>p. Q p \<and> key p = s) ps"
  by (induction ps arbitrary: d) auto

lemma group_distinct:
  "distinct (map fst d) \<Longrightarrow>
   distinct (map fst (foldl (\<lambda>d p. if Q p then dict_append (key p) p d else d) d ps))"
  by (induction ps arbitrary: d) (auto intro: distinct_dict_append)

section \<open>Sorting and deduplication\<close>

text \<open>\<open>sorted(set(xs))\<close>: ascending, no repetition.\<close>

definition sorted_set :: "'a::linorder list \<Rightarrow> 'a list" where
  "sorted_set xs = sort (remdups xs)"

lemma set_sorted_set [simp]: "set (sorted_set xs) = set xs"
  by (simp add: sorted_set_def)

lemma distinct_sorted_set [simp]: "distinct (sorted_set xs)"
  by (simp add: sorted_set_def)

lemma sorted_sorted_set [simp]: "sorted (sorted_set xs)"
  by (simp add: sorted_set_def)

text \<open>\<open>dict.fromkeys(xs)\<close>: first occurrences, in order.\<close>

fun dedup_by :: "('a \<Rightarrow> 'k) \<Rightarrow> 'k list \<Rightarrow> 'a list \<Rightarrow> 'a list" where
  "dedup_by key seen [] = []"
| "dedup_by key seen (x # xs) =
     (if key x \<in> set seen then dedup_by key seen xs
      else x # dedup_by key (key x # seen) xs)"

definition dedup :: "'a list \<Rightarrow> 'a list" where
  "dedup xs = dedup_by (\<lambda>x. x) [] xs"

lemma set_dedup_by_subset: "set (dedup_by key seen xs) \<subseteq> set xs"
  by (induction key seen xs rule: dedup_by.induct) auto

lemma keys_dedup_by:
  "key ` set (dedup_by key seen xs) = key ` set xs - set seen"
  by (induction key seen xs rule: dedup_by.induct) auto

lemma distinct_dedup_by: "distinct (map key (dedup_by key seen xs))"
proof (induction key seen xs rule: dedup_by.induct)
  case (2 key seen x xs)
  then show ?case
    using keys_dedup_by[of key "key x # seen" xs] by auto
qed simp

lemma set_dedup [simp]: "set (dedup xs) = set xs"
  using keys_dedup_by[of "\<lambda>x. x" "[]" xs] by (simp add: dedup_def)

lemma distinct_dedup [simp]: "distinct (dedup xs)"
  using distinct_dedup_by[of "\<lambda>x. x" "[]" xs] by (simp add: dedup_def)

end
