(* ===== verification/PyString.thy ===== *)
theory PyString
  imports Prelude
begin

text \<open>
  The \<open>str\<close> methods and regular expressions the analysers use, on strings whose code points
  are below 256 (HOL \<open>char\<close>): \<open>lower\<close>, \<open>strip\<close>, \<open>split\<close>, \<open>rsplit\<close>, \<open>partition\<close>,
  \<open>replace\<close>, \<open>startswith\<close>, \<open>endswith\<close>, \<open>in\<close>, \<open>join\<close>, the decimal \<open>str(int)\<close>, and
  the identifier patterns \<open>[A-Za-z_][A-Za-z0-9_]*\<close>.
\<close>

section \<open>Character classes\<close>

definition code :: "char \<Rightarrow> nat" where
  "code c = of_char c"

text \<open>\<open>str.isspace\<close> below 256: tab to carriage return, the four separators, space, NEL, NBSP.\<close>

definition is_space :: "char \<Rightarrow> bool" where
  "is_space c = (let n = code c in (9 \<le> n \<and> n \<le> 13) \<or> (28 \<le> n \<and> n \<le> 32) \<or> n = 133 \<or> n = 160)"

definition is_digit :: "char \<Rightarrow> bool" where
  "is_digit c = (let n = code c in 48 \<le> n \<and> n \<le> 57)"

definition is_ident_start :: "char \<Rightarrow> bool" where
  "is_ident_start c =
     (let n = code c in (65 \<le> n \<and> n \<le> 90) \<or> (97 \<le> n \<and> n \<le> 122) \<or> n = 95)"

definition is_ident_char :: "char \<Rightarrow> bool" where
  "is_ident_char c = (is_ident_start c \<or> is_digit c)"

text \<open>\<open>\w\<close> of a \<open>str\<close> pattern: alphanumeric (superscripts and fractions included) or \<open>_\<close>.\<close>

definition is_word :: "char \<Rightarrow> bool" where
  "is_word c = (is_ident_char c \<or>
     (let n = code c in n = 170 \<or> n = 178 \<or> n = 179 \<or> n = 181 \<or> n = 185 \<or> n = 186 \<or>
        (188 \<le> n \<and> n \<le> 190) \<or> (192 \<le> n \<and> n \<noteq> 215 \<and> n \<noteq> 247)))"

definition lower_char :: "char \<Rightarrow> char" where
  "lower_char c =
     (let n = code c
      in if (65 \<le> n \<and> n \<le> 90) \<or> (192 \<le> n \<and> n \<le> 222 \<and> n \<noteq> 215) then char_of (n + 32) else c)"

section \<open>Methods\<close>

definition lower :: "string \<Rightarrow> string" where
  "lower s = map lower_char s"

definition lstrip :: "string \<Rightarrow> string" where
  "lstrip s = dropWhile is_space s"

definition strip_by :: "(char \<Rightarrow> bool) \<Rightarrow> string \<Rightarrow> string" where
  "strip_by p s = rev (dropWhile p (rev (dropWhile p s)))"

definition strip :: "string \<Rightarrow> string" where
  "strip s = strip_by is_space s"

definition starts_with :: "string \<Rightarrow> string \<Rightarrow> bool" where
  "starts_with p s = (take (length p) s = p)"

definition ends_with :: "string \<Rightarrow> string \<Rightarrow> bool" where
  "ends_with p s = starts_with (rev p) (rev s)"

text \<open>\<open>sub in s\<close>.\<close>

fun contains_sub :: "string \<Rightarrow> string \<Rightarrow> bool" where
  "contains_sub p [] = (p = [])"
| "contains_sub p (c # s) = (starts_with p (c # s) \<or> contains_sub p s)"

text \<open>\<open>s.split(c)\<close> for a one-character separator; never empty.\<close>

fun split_on :: "char \<Rightarrow> string \<Rightarrow> string list" where
  "split_on c [] = [[]]"
| "split_on c (x # xs) =
     (if x = c then [] # split_on c xs
      else (case split_on c xs of [] \<Rightarrow> [[x]] | y # ys \<Rightarrow> (x # y) # ys))"

text \<open>\<open>s.split()\<close>: maximal runs of non-space characters.\<close>

fun split_ws_acc :: "string \<Rightarrow> string \<Rightarrow> string list" where
  "split_ws_acc acc [] = (if acc = [] then [] else [rev acc])"
| "split_ws_acc acc (c # s) =
     (if is_space c then (if acc = [] then split_ws_acc [] s else rev acc # split_ws_acc [] s)
      else split_ws_acc (c # acc) s)"

definition split_ws :: "string \<Rightarrow> string list" where
  "split_ws s = split_ws_acc [] s"

text \<open>\<open>sep.join(xs)\<close>.\<close>

fun join :: "string \<Rightarrow> string list \<Rightarrow> string" where
  "join sep [] = []"
| "join sep [x] = x"
| "join sep (x # y # xs) = x @ sep @ join sep (y # xs)"

text \<open>\<open>s.rsplit(c, 1)[-1]\<close>, \<open>s.rsplit(c, 1)[0]\<close>, \<open>s.split(c, 1)[0]\<close>, \<open>s.split(c, 1)[1]\<close>.\<close>

definition after_last :: "char \<Rightarrow> string \<Rightarrow> string" where
  "after_last c s = rev (takeWhile (\<lambda>x. x \<noteq> c) (rev s))"

definition before_last :: "char \<Rightarrow> string \<Rightarrow> string" where
  "before_last c s =
     (if c \<in> set s then rev (tl (dropWhile (\<lambda>x. x \<noteq> c) (rev s))) else s)"

definition before_first :: "char \<Rightarrow> string \<Rightarrow> string" where
  "before_first c s = takeWhile (\<lambda>x. x \<noteq> c) s"

definition after_first :: "char \<Rightarrow> string \<Rightarrow> string" where
  "after_first c s = tl (dropWhile (\<lambda>x. x \<noteq> c) s)"

text \<open>\<open>s.replace("\\", "/")\<close>.\<close>

definition to_slashes :: "string \<Rightarrow> string" where
  "to_slashes s = map (\<lambda>c. if code c = 92 then CHR ''/'' else c) s"

text \<open>\<open>s.lstrip("./")\<close>: every leading dot and slash goes.\<close>

definition lstrip_dots :: "string \<Rightarrow> string" where
  "lstrip_dots s = dropWhile (\<lambda>c. c = CHR ''.'' \<or> c = CHR ''/'') s"

text \<open>\<open>s.replace(old, new)\<close> for a non-empty \<open>old\<close>.\<close>

function replace_sub :: "string \<Rightarrow> string \<Rightarrow> string \<Rightarrow> string" where
  "replace_sub old new [] = []"
| "replace_sub old new (c # s) =
     (if old \<noteq> [] \<and> starts_with old (c # s)
      then new @ replace_sub old new (drop (length old) (c # s))
      else c # replace_sub old new s)"
  by pat_completeness auto
termination
  by (relation "measure (\<lambda>(old, new, s). length s)") (auto simp: neq_Nil_conv)

text \<open>\<open>s.split(sep)\<close> for a separator of two or more characters.\<close>

function split_sub_acc :: "string \<Rightarrow> string \<Rightarrow> string \<Rightarrow> string list" where
  "split_sub_acc sep acc [] = [rev acc]"
| "split_sub_acc sep acc (c # s) =
     (if sep \<noteq> [] \<and> starts_with sep (c # s)
      then rev acc # split_sub_acc sep [] (drop (length sep) (c # s))
      else split_sub_acc sep (c # acc) s)"
  by pat_completeness auto
termination
  by (relation "measure (\<lambda>(sep, acc, s). length s)") (auto simp: neq_Nil_conv)

definition split_sub :: "string \<Rightarrow> string \<Rightarrow> string list" where
  "split_sub sep s = split_sub_acc sep [] s"

text \<open>Decimal \<open>str(n)\<close>.\<close>

fun digits_of :: "nat \<Rightarrow> string" where
  "digits_of n = (if n < 10 then [char_of (48 + n)] else digits_of (n div 10) @ [char_of (48 + n mod 10)])"

declare digits_of.simps [simp del]

definition str_of_int :: "int \<Rightarrow> string" where
  "str_of_int i = (if i < 0 then CHR ''-'' # digits_of (nat (- i)) else digits_of (nat i))"

definition str_of_nat :: "nat \<Rightarrow> string" where
  "str_of_nat n = digits_of n"

text \<open>\<open>s.splitlines()\<close>: line ends are kept out of the lines, a trailing one adds no empty line.\<close>

definition is_line_end :: "char \<Rightarrow> bool" where
  "is_line_end c = (let n = code c in (10 \<le> n \<and> n \<le> 13) \<or> (28 \<le> n \<and> n \<le> 30) \<or> n = 133)"

fun splitlines_acc :: "string \<Rightarrow> string \<Rightarrow> string list" where
  "splitlines_acc acc [] = (if acc = [] then [] else [rev acc])"
| "splitlines_acc acc [c] = (if is_line_end c then [rev acc] else [rev (c # acc)])"
| "splitlines_acc acc (c # d # s) =
     (if code c = 13 \<and> code d = 10 then rev acc # splitlines_acc [] s
      else if is_line_end c then rev acc # splitlines_acc [] (d # s)
      else splitlines_acc (c # acc) (d # s))"

definition splitlines :: "string \<Rightarrow> string list" where
  "splitlines s = splitlines_acc [] s"

text \<open>\<open>int(s)\<close>: surrounding space, a sign, digits with single underscores between them.\<close>

fun digits_val :: "nat \<Rightarrow> bool \<Rightarrow> string \<Rightarrow> nat option" where
  "digits_val acc d [] = (if d then Some acc else None)"
| "digits_val acc d (c # s) =
     (if is_digit c then digits_val (10 * acc + (code c - 48)) True s
      else if c = CHR ''_'' \<and> d then digits_val acc False s else None)"

definition int_of_str :: "string \<Rightarrow> int option" where
  "int_of_str s =
     (case strip s of
        [] \<Rightarrow> None
      | c # t \<Rightarrow>
          if c = CHR ''-'' then map_option (\<lambda>n. - int n) (digits_val 0 False t)
          else if c = CHR ''+'' then map_option int (digits_val 0 False t)
          else map_option int (digits_val 0 False (c # t)))"

section \<open>Identifier patterns\<close>

text \<open>\<open>re.findall(r"[A-Za-z_][A-Za-z0-9_]*", s)\<close>: leftmost, longest, non-overlapping.\<close>

fun ident_tokens_acc :: "string \<Rightarrow> string \<Rightarrow> string list" where
  "ident_tokens_acc acc [] = (if acc = [] then [] else [rev acc])"
| "ident_tokens_acc acc (c # s) =
     (if acc = [] then (if is_ident_start c then ident_tokens_acc [c] s else ident_tokens_acc [] s)
      else if is_ident_char c then ident_tokens_acc (c # acc) s
      else rev acc # ident_tokens_acc [] s)"

definition ident_tokens :: "string \<Rightarrow> string list" where
  "ident_tokens s = ident_tokens_acc [] s"

definition is_identifier :: "string \<Rightarrow> bool" where
  "is_identifier s = (case s of [] \<Rightarrow> False | c # t \<Rightarrow> is_ident_start c \<and> list_all is_ident_char t)"

text \<open>\<open>re.fullmatch(ident(\.ident)*, s)\<close>.\<close>

definition is_dotted_path :: "string \<Rightarrow> bool" where
  "is_dotted_path s = list_all is_identifier (split_on (CHR ''.'') s)"

section \<open>Facts\<close>

lemmas [str_defs] = code_def is_space_def is_digit_def is_ident_start_def is_ident_char_def
  is_word_def lower_char_def lower_def lstrip_def strip_by_def strip_def starts_with_def
  ends_with_def split_ws_def after_last_def before_last_def before_first_def after_first_def
  split_sub_def str_of_int_def str_of_nat_def ident_tokens_def is_identifier_def
  is_dotted_path_def is_line_end_def splitlines_def int_of_str_def

lemma split_on_not_Nil [simp]: "split_on c s \<noteq> []"
  by (induction c s rule: split_on.induct) (auto split: list.splits)

lemma starts_with_iff: "starts_with p s \<longleftrightarrow> (\<exists>t. s = p @ t)"
proof
  assume "starts_with p s"
  then have "s = p @ drop (length p) s" by (metis append_take_drop_id starts_with_def)
  then show "\<exists>t. s = p @ t" by blast
qed (auto simp: starts_with_def)

lemma contains_sub_iff: "contains_sub p s \<longleftrightarrow> (\<exists>a b. s = a @ p @ b)"
proof (induction p s rule: contains_sub.induct)
  case (2 p c s)
  show ?case
  proof
    assume "contains_sub p (c # s)"
    then consider t where "c # s = p @ t" | a b where "s = a @ p @ b"
      using 2 by (auto simp: starts_with_iff)
    then show "\<exists>a b. c # s = a @ p @ b"
      by cases (metis append_Nil, metis append_Cons)
  next
    assume "\<exists>a b. c # s = a @ p @ b"
    then obtain a b where "c # s = a @ p @ b" by blast
    show "contains_sub p (c # s)"
    proof (cases a)
      case Nil
      with \<open>c # s = a @ p @ b\<close> have "starts_with p (c # s)" by (auto simp: starts_with_iff)
      then show ?thesis by simp
    next
      case (Cons x a')
      with \<open>c # s = a @ p @ b\<close> have "s = a' @ p @ b" by simp
      with 2 show ?thesis by auto
    qed
  qed
qed auto

lemma split_ws_acc_concat:
  "concat (split_ws_acc acc s) = rev acc @ filter (\<lambda>c. \<not> is_space c) s"
  by (induction acc s rule: split_ws_acc.induct) auto

text \<open>\<open>"".join(s.split())\<close> removes the white space.\<close>

lemma concat_split_ws: "concat (split_ws s) = filter (\<lambda>c. \<not> is_space c) s"
  by (simp add: split_ws_def split_ws_acc_concat)

lemma join_Nil: "join [] xs = concat xs"
  by (induction "[] :: string" xs rule: join.induct) auto

lemma strip_Nil [simp]: "strip [] = []"
  by (simp add: strip_def strip_by_def)

lemma strip_by_idem: "strip_by p (strip_by p s) = strip_by p s"
proof -
  have *: "dropWhile p (rev (dropWhile p (rev t))) = rev (dropWhile p (rev t))"
    if "dropWhile p t = t" for t
  proof (cases t)
    case (Cons x xs)
    with that have "\<not> p x" by (metis dropWhile_eq_self_iff list.sel(1) list.simps(3))
    have "rev (dropWhile p (rev t)) = x # rev (dropWhile p (rev xs))"
      using Cons \<open>\<not> p x\<close> by (simp add: dropWhile_append)
    with \<open>\<not> p x\<close> show ?thesis by simp
  qed simp
  show ?thesis by (simp add: strip_by_def *)
qed

lemma strip_strip [simp]: "strip (strip s) = strip s"
  by (simp add: strip_def strip_by_idem)

lemma lower_length [simp]: "length (lower s) = length s"
  by (simp add: lower_def)

end
