(* ===== verification/PyValue.thy ===== *)
theory PyValue
  imports Complex_Main PyString
begin

text \<open>
  The Python values that operation and edge attributes hold: \<open>None\<close>, booleans, integers,
  floats (an exact value together with its \<open>repr\<close> text), strings, lists, tuples and
  dictionaries with string keys; with \<open>str\<close>, \<open>repr\<close>, truth, \<open>==\<close> and
  \<open>json.dumps(..., ensure_ascii=False, sort_keys=True, default=str)\<close>.
\<close>

datatype py_error = ValueError string | TypeError string | RuntimeError string | KeyError string
  | OverflowError string

text \<open>A computation that may raise, and the sequencing of two of them.\<close>

type_synonym 'a checked = "py_error + 'a"

definition bind :: "'e + 'a \<Rightarrow> ('a \<Rightarrow> 'e + 'b) \<Rightarrow> 'e + 'b" where
  "bind m f = (case m of Inl e \<Rightarrow> Inl e | Inr x \<Rightarrow> f x)"

lemma bind_Inr [simp]: "bind m f = Inr y \<longleftrightarrow> (\<exists>x. m = Inr x \<and> f x = Inr y)"
  by (auto simp: bind_def split: sum.splits)

lemma bind_simps [simp]: "bind (Inl e) f = Inl e" "bind (Inr x) f = f x"
  by (simp_all add: bind_def)

text \<open>A loop whose body may raise: the results in order, or the first exception.\<close>

fun traverse :: "('a \<Rightarrow> 'e + 'b) \<Rightarrow> 'a list \<Rightarrow> 'e + 'b list" where
  "traverse f [] = Inr []"
| "traverse f (x # xs) = bind (f x) (\<lambda>y. bind (traverse f xs) (\<lambda>ys. Inr (y # ys)))"

fun fold_checked :: "('s \<Rightarrow> 'a \<Rightarrow> 'e + 's) \<Rightarrow> 's \<Rightarrow> 'a list \<Rightarrow> 'e + 's" where
  "fold_checked f s [] = Inr s"
| "fold_checked f s (x # xs) = bind (f s x) (\<lambda>s'. fold_checked f s' xs)"

lemma traverse_Inr: "traverse f xs = Inr ys \<longleftrightarrow> list_all2 (\<lambda>x y. f x = Inr y) xs ys"
proof (induction xs arbitrary: ys)
  case Nil
  then show ?case by auto
next
  case (Cons x xs)
  then show ?case by (cases ys) auto
qed

lemma fold_checked_invariant:
  assumes "fold_checked f s xs = Inr t" "P s" "\<And>s x s'. x \<in> set xs \<Longrightarrow> P s \<Longrightarrow> f s x = Inr s' \<Longrightarrow> P s'"
  shows "P t"
  using assms by (induction xs arbitrary: s) auto

datatype pyval =
    PNone
  | PBool bool
  | PInt int
  | PFloat rat string
  | PStr string
  | PList "pyval list"
  | PTuple "pyval list"
  | PDict "(string \<times> pyval) list"

type_synonym attributes = "(string, pyval) dict"

section \<open>Text of a value\<close>

definition hex_digit :: "nat \<Rightarrow> char" where
  "hex_digit n = (if n < 10 then char_of (48 + n) else char_of (87 + n))"

definition hex2 :: "nat \<Rightarrow> string" where
  "hex2 n = [hex_digit (n div 16), hex_digit (n mod 16)]"

text \<open>\<open>str.isprintable\<close> below 256.\<close>

definition is_printable :: "char \<Rightarrow> bool" where
  "is_printable c = (let n = code c in (32 \<le> n \<and> n \<le> 126) \<or> (161 \<le> n \<and> n \<noteq> 173))"

definition repr_char :: "char \<Rightarrow> char \<Rightarrow> string" where
  "repr_char q c =
     (let n = code c in
      if c = q \<or> n = 92 then [char_of (92::nat), c]
      else if n = 9 then [char_of (92::nat), CHR ''t'']
      else if n = 10 then [char_of (92::nat), CHR ''n'']
      else if n = 13 then [char_of (92::nat), CHR ''r'']
      else if is_printable c then [c]
      else char_of (92::nat) # CHR ''x'' # hex2 n)"

definition repr_str :: "string \<Rightarrow> string" where
  "repr_str s =
     (let sq = char_of (39::nat); dq = char_of (34::nat);
          q = (if sq \<in> set s \<and> dq \<notin> set s then dq else sq)
      in [q] @ concat (map (repr_char q) s) @ [q])"

definition py_tuple_text :: "string list \<Rightarrow> string" where
  "py_tuple_text ts =
     (case ts of [] \<Rightarrow> ''()'' | [t] \<Rightarrow> ''('' @ t @ '',)'' | _ \<Rightarrow> ''('' @ join '', '' ts @ '')'')"

primrec py_repr :: "pyval \<Rightarrow> string" where
  "py_repr PNone = ''None''"
| "py_repr (PBool b) = (if b then ''True'' else ''False'')"
| "py_repr (PInt i) = str_of_int i"
| "py_repr (PFloat q t) = t"
| "py_repr (PStr s) = repr_str s"
| "py_repr (PList xs) = ''['' @ join '', '' (map py_repr xs) @ '']''"
| "py_repr (PTuple xs) = py_tuple_text (map py_repr xs)"
| "py_repr (PDict kvs) =
     ''{'' @ join '', '' (map (\<lambda>(k, t). repr_str k @ '': '' @ t) (map (map_prod id py_repr) kvs)) @ ''}''"

definition py_str :: "pyval \<Rightarrow> string" where
  "py_str v = (case v of PStr s \<Rightarrow> s | _ \<Rightarrow> py_repr v)"

section \<open>JSON\<close>

definition json_char :: "char \<Rightarrow> string" where
  "json_char c =
     (let n = code c; bs = char_of (92::nat) in
      if n = 34 \<or> n = 92 then [bs, c]
      else if n = 10 then [bs, CHR ''n'']
      else if n = 13 then [bs, CHR ''r'']
      else if n = 9 then [bs, CHR ''t'']
      else if n = 12 then [bs, CHR ''f'']
      else if n = 8 then [bs, CHR ''b'']
      else if n < 32 then bs # ''u00'' @ hex2 n
      else [c])"

definition json_str :: "string \<Rightarrow> string" where
  "json_str s = [char_of (34::nat)] @ concat (map json_char s) @ [char_of (34::nat)]"

definition json_items :: "(string \<times> string) list \<Rightarrow> string" where
  "json_items kts =
     ''{'' @ join '', '' (map (\<lambda>(k, t). json_str k @ '': '' @ t) (sort_key fst kts)) @ ''}''"

primrec json_dumps :: "pyval \<Rightarrow> string" where
  "json_dumps PNone = ''null''"
| "json_dumps (PBool b) = (if b then ''true'' else ''false'')"
| "json_dumps (PInt i) = str_of_int i"
| "json_dumps (PFloat q t) = t"
| "json_dumps (PStr s) = json_str s"
| "json_dumps (PList xs) = ''['' @ join '', '' (map json_dumps xs) @ '']''"
| "json_dumps (PTuple xs) = ''['' @ join '', '' (map json_dumps xs) @ '']''"
| "json_dumps (PDict kvs) = json_items (map (map_prod id json_dumps) kvs)"

definition json_attributes :: "attributes \<Rightarrow> string" where
  "json_attributes a = json_dumps (PDict a)"

section \<open>Truth and equality\<close>

fun py_truth :: "pyval \<Rightarrow> bool" where
  "py_truth PNone = False"
| "py_truth (PBool b) = b"
| "py_truth (PInt i) = (i \<noteq> 0)"
| "py_truth (PFloat q t) = (q \<noteq> 0)"
| "py_truth (PStr s) = (s \<noteq> [])"
| "py_truth (PList xs) = (xs \<noteq> [])"
| "py_truth (PTuple xs) = (xs \<noteq> [])"
| "py_truth (PDict kvs) = (kvs \<noteq> [])"

text \<open>The number a value compares as: \<open>True == 1 == 1.0\<close>.\<close>

fun py_number :: "pyval \<Rightarrow> rat option" where
  "py_number (PBool b) = Some (if b then 1 else 0)"
| "py_number (PInt i) = Some (of_int i)"
| "py_number (PFloat q t) = Some q"
| "py_number _ = None"

fun all_match :: "('a \<Rightarrow> bool) list \<Rightarrow> 'a list \<Rightarrow> bool" where
  "all_match [] [] = True"
| "all_match (f # fs) (x # xs) = (f x \<and> all_match fs xs)"
| "all_match _ _ = False"

definition items_match :: "(string \<times> ('a \<Rightarrow> bool)) list \<Rightarrow> (string, 'a) dict \<Rightarrow> bool" where
  "items_match kfs d =
     (length kfs = length d \<and>
      list_all (\<lambda>(k, f). case dict_get d k of None \<Rightarrow> False | Some v \<Rightarrow> f v) kfs)"

primrec py_eq :: "pyval \<Rightarrow> pyval \<Rightarrow> bool" where
  "py_eq PNone w = (w = PNone)"
| "py_eq (PBool b) w = (py_number w = Some (if b then 1 else 0))"
| "py_eq (PInt i) w = (py_number w = Some (of_int i))"
| "py_eq (PFloat q t) w = (py_number w = Some q)"
| "py_eq (PStr s) w = (w = PStr s)"
| "py_eq (PList xs) w = (case w of PList ys \<Rightarrow> all_match (map py_eq xs) ys | _ \<Rightarrow> False)"
| "py_eq (PTuple xs) w = (case w of PTuple ys \<Rightarrow> all_match (map py_eq xs) ys | _ \<Rightarrow> False)"
| "py_eq (PDict kvs) w =
     (case w of PDict kws \<Rightarrow> items_match (map (map_prod id py_eq) kvs) kws | _ \<Rightarrow> False)"

text \<open>Keys of every dictionary inside a value are distinct, as Python guarantees.\<close>

primrec py_wf :: "pyval \<Rightarrow> bool" where
  "py_wf PNone = True"
| "py_wf (PBool b) = True"
| "py_wf (PInt i) = True"
| "py_wf (PFloat q t) = True"
| "py_wf (PStr s) = True"
| "py_wf (PList xs) = list_all (\<lambda>b. b) (map py_wf xs)"
| "py_wf (PTuple xs) = list_all (\<lambda>b. b) (map py_wf xs)"
| "py_wf (PDict kvs) =
     (distinct (map fst kvs) \<and> list_all snd (map (map_prod id py_wf) kvs))"

lemma all_match_map: "(\<And>x. x \<in> set xs \<Longrightarrow> f x x) \<Longrightarrow> all_match (map f xs) xs"
  by (induction xs) auto

lemma items_match_map:
  assumes "distinct (map fst kvs)" "\<And>k v. (k, v) \<in> set kvs \<Longrightarrow> f v v"
  shows "items_match (map (map_prod id f) kvs) kvs"
  using assms by (auto simp: items_match_def list_all_iff dict_get_def)

lemma py_eq_refl: "py_wf v \<Longrightarrow> py_eq v v"
proof (induction v)
  case (PDict kvs)
  then show ?case
    by (auto simp: list_all_iff intro!: items_match_map)
qed (auto simp: list_all_iff intro!: all_match_map)

section \<open>Shapes\<close>

text \<open>\<open>int(v)\<close>; the text of the exceptions is never used.\<close>

fun py_int :: "pyval \<Rightarrow> py_error + int" where
  "py_int (PInt i) = Inr i"
| "py_int (PBool b) = Inr (if b then 1 else 0)"
| "py_int (PFloat q t) = Inr (if 0 \<le> q then \<lfloor>q\<rfloor> else - \<lfloor>- q\<rfloor>)"
| "py_int (PStr s) =
     (case int_of_str s of None \<Rightarrow> Inl (ValueError ''invalid literal for int()'') | Some i \<Rightarrow> Inr i)"
| "py_int _ = Inl (TypeError ''int() argument'')"

definition is_pstr :: "pyval \<Rightarrow> bool" where
  "is_pstr v = (case v of PStr s \<Rightarrow> True | _ \<Rightarrow> False)"

definition is_pbool :: "pyval \<Rightarrow> bool" where
  "is_pbool v = (case v of PBool s \<Rightarrow> True | _ \<Rightarrow> False)"

definition is_plist :: "pyval \<Rightarrow> bool" where
  "is_plist v = (case v of PList s \<Rightarrow> True | _ \<Rightarrow> False)"

text \<open>\<open>str(attributes.get(key, default))\<close>.\<close>

definition attr_str :: "string \<Rightarrow> attributes \<Rightarrow> string \<Rightarrow> string" where
  "attr_str dflt a key = (case dict_get a key of None \<Rightarrow> dflt | Some v \<Rightarrow> py_str v)"

text \<open>The items of a list attribute; any other value (or none) gives nothing.\<close>

definition attr_list :: "attributes \<Rightarrow> string \<Rightarrow> pyval list" where
  "attr_list a key = (case dict_get a key of Some (PList xs) \<Rightarrow> xs | _ \<Rightarrow> [])"

text \<open>The items of a list or tuple attribute.\<close>

definition attr_seq :: "attributes \<Rightarrow> string \<Rightarrow> pyval list option" where
  "attr_seq a key =
     (case dict_get a key of Some (PList xs) \<Rightarrow> Some xs | Some (PTuple xs) \<Rightarrow> Some xs | _ \<Rightarrow> None)"

end
