(* ===== verification/Evidence.thy ===== *)
theory Evidence
  imports Sha256
begin

text \<open>
  \<open>ir/evidence.py\<close>: source references, facts, hypotheses and evidence packs. Facts and
  hypotheses are content-addressed by the SHA-256 of their canonical JSON. A dataclass whose
  \<open>__post_init__\<close> may raise is built by a \<open>make_\<dots>\<close> function into \<open>py_error + 'a\<close>.
\<close>

text \<open>A Python float: its exact value and its \<open>repr\<close>.\<close>

type_synonym pyfloat = "rat \<times> string"

definition float_one :: pyfloat where
  "float_one = (1, ''1.0'')"

definition unit_interval :: "pyfloat \<Rightarrow> bool" where
  "unit_interval f = (0 \<le> fst f \<and> fst f \<le> 1)"

section \<open>Source references\<close>

record evidence_ref =
  er_file :: string
  er_line_start :: int
  er_line_end :: int
  er_col_start :: "int option"
  er_col_end :: "int option"
  er_snippet :: string
  er_source :: string

text \<open>\<open>EvidenceRef(...)\<close>: a missing \<open>line_end\<close> becomes \<open>line_start\<close>.\<close>

definition make_ref ::
  "string \<Rightarrow> int \<Rightarrow> int option \<Rightarrow> int option \<Rightarrow> int option \<Rightarrow> string \<Rightarrow> string \<Rightarrow> evidence_ref" where
  "make_ref file ls le cs ce snip src =
     \<lparr>er_file = file, er_line_start = ls,
      er_line_end = (case le of None \<Rightarrow> ls | Some e \<Rightarrow> e),
      er_col_start = cs, er_col_end = ce, er_snippet = snip, er_source = src\<rparr>"

definition py_opt_int :: "int option \<Rightarrow> pyval" where
  "py_opt_int i = (case i of None \<Rightarrow> PNone | Some n \<Rightarrow> PInt n)"

definition ref_to_dict :: "evidence_ref \<Rightarrow> pyval" where
  "ref_to_dict r = PDict
     [(''file_path'', PStr (er_file r)),
      (''line_start'', PInt (er_line_start r)),
      (''line_end'', PInt (er_line_end r)),
      (''column_start'', py_opt_int (er_col_start r)),
      (''column_end'', py_opt_int (er_col_end r)),
      (''snippet'', PStr (er_snippet r)),
      (''source'', PStr (er_source r))]"

section \<open>Facts\<close>

datatype fact_kind = DEFINES | REFERENCES | CALLS | IMPORTS | READS | WRITES | FLOWS_TO | CONTROLS
  | SANITIZES | SOURCE | SINK | STATE_TRANSITION | TEST_COVERS

fun fact_kind_value :: "fact_kind \<Rightarrow> string" where
  "fact_kind_value DEFINES = ''defines''"
| "fact_kind_value REFERENCES = ''references''"
| "fact_kind_value CALLS = ''calls''"
| "fact_kind_value IMPORTS = ''imports''"
| "fact_kind_value READS = ''reads''"
| "fact_kind_value WRITES = ''writes''"
| "fact_kind_value FLOWS_TO = ''flows_to''"
| "fact_kind_value CONTROLS = ''controls''"
| "fact_kind_value SANITIZES = ''sanitizes''"
| "fact_kind_value SOURCE = ''source''"
| "fact_kind_value SINK = ''sink''"
| "fact_kind_value STATE_TRANSITION = ''state_transition''"
| "fact_kind_value TEST_COVERS = ''test_covers''"

text \<open>A predicate is a \<open>FactKind\<close> or free text.\<close>

datatype predicate = Kind fact_kind | Text string

fun predicate_value :: "predicate \<Rightarrow> string" where
  "predicate_value (Kind k) = fact_kind_value k"
| "predicate_value (Text s) = s"

record semantic_fact =
  sf_subject :: string
  sf_predicate :: predicate
  sf_object :: string
  sf_evidence :: "evidence_ref list"
  sf_confidence :: pyfloat
  sf_attributes :: attributes

definition make_fact :: "semantic_fact \<Rightarrow> py_error + semantic_fact" where
  "make_fact f =
     (if unit_interval (sf_confidence f) then Inr f
      else Inl (ValueError ''fact confidence must be between 0 and 1''))"

definition fact_identity :: "semantic_fact \<Rightarrow> (string \<times> pyval) list" where
  "fact_identity f =
     [(''subject'', PStr (sf_subject f)),
      (''predicate'', PStr (predicate_value (sf_predicate f))),
      (''object'', PStr (sf_object f)),
      (''evidence'', PList (map ref_to_dict (sf_evidence f))),
      (''confidence'', PFloat (fst (sf_confidence f)) (snd (sf_confidence f))),
      (''attributes'', PDict (sf_attributes f))]"

definition fact_id :: "semantic_fact \<Rightarrow> string" where
  "fact_id f = ''fact-'' @ take 16 (sha256_hex (json_dumps (PDict (fact_identity f))))"

definition fact_to_dict :: "semantic_fact \<Rightarrow> pyval" where
  "fact_to_dict f = PDict ((''fact_id'', PStr (fact_id f)) # fact_identity f)"

section \<open>Hypotheses\<close>

record semantic_hypothesis =
  sh_kind :: string
  sh_statement :: string
  sh_source :: string
  sh_confidence :: pyfloat
  sh_attributes :: attributes

definition make_hypothesis :: "semantic_hypothesis \<Rightarrow> py_error + semantic_hypothesis" where
  "make_hypothesis h =
     (if strip (sh_kind h) = [] then Inl (ValueError ''hypothesis kind must not be empty'')
      else if strip (sh_statement h) = [] then Inl (ValueError ''hypothesis statement must not be empty'')
      else if \<not> unit_interval (sh_confidence h)
        then Inl (ValueError ''hypothesis confidence must be between 0 and 1'')
      else Inr h)"

definition hypothesis_identity :: "semantic_hypothesis \<Rightarrow> (string \<times> pyval) list" where
  "hypothesis_identity h =
     [(''kind'', PStr (sh_kind h)),
      (''statement'', PStr (sh_statement h)),
      (''source'', PStr (sh_source h)),
      (''confidence'', PFloat (fst (sh_confidence h)) (snd (sh_confidence h))),
      (''attributes'', PDict (sh_attributes h))]"

definition hypothesis_id :: "semantic_hypothesis \<Rightarrow> string" where
  "hypothesis_id h =
     ''hypothesis-'' @ take 16 (sha256_hex (json_dumps (PDict (hypothesis_identity h))))"

definition hypothesis_to_dict :: "semantic_hypothesis \<Rightarrow> pyval" where
  "hypothesis_to_dict h = PDict ((''hypothesis_id'', PStr (hypothesis_id h)) # hypothesis_identity h)"

section \<open>Evidence packs\<close>

record evidence_pack =
  ep_query :: string
  ep_facts :: "semantic_fact list"
  ep_hypotheses :: "semantic_hypothesis list"
  ep_evidence :: "evidence_ref list"
  ep_trace :: "string list"
  ep_graph_version :: string

text \<open>\<open>(ref.file_path, ref.line_start, ref.line_end or ref.line_start)\<close>: a zero \<open>line_end\<close> counts as missing.\<close>

definition ref_key :: "evidence_ref \<Rightarrow> string \<times> int \<times> int" where
  "ref_key r =
     (er_file r, er_line_start r, if er_line_end r = 0 then er_line_start r else er_line_end r)"

text \<open>The two nested loops of \<open>from_facts\<close> with their \<open>seen\<close> set.\<close>

fun collect_refs ::
  "(string \<times> int \<times> int) list \<Rightarrow> evidence_ref list \<Rightarrow> evidence_ref list
   \<Rightarrow> (string \<times> int \<times> int) list \<times> evidence_ref list" where
  "collect_refs seen refs [] = (seen, refs)"
| "collect_refs seen refs (r # rs) =
     (if ref_key r \<in> set seen then collect_refs seen refs rs
      else collect_refs (ref_key r # seen) (refs @ [r]) rs)"

fun collect_fact_refs ::
  "(string \<times> int \<times> int) list \<Rightarrow> evidence_ref list \<Rightarrow> semantic_fact list
   \<Rightarrow> (string \<times> int \<times> int) list \<times> evidence_ref list" where
  "collect_fact_refs seen refs [] = (seen, refs)"
| "collect_fact_refs seen refs (f # fs) =
     (let (seen', refs') = collect_refs seen refs (sf_evidence f) in collect_fact_refs seen' refs' fs)"

definition pack_from_facts ::
  "string \<Rightarrow> semantic_fact list \<Rightarrow> semantic_hypothesis list \<Rightarrow> string list \<Rightarrow> string \<Rightarrow> evidence_pack" where
  "pack_from_facts query facts hyps trace version =
     \<lparr>ep_query = query, ep_facts = facts, ep_hypotheses = hyps,
      ep_evidence = snd (collect_fact_refs [] [] facts),
      ep_trace = trace, ep_graph_version = version\<rparr>"

definition pack_to_dict :: "evidence_pack \<Rightarrow> pyval" where
  "pack_to_dict p = PDict
     [(''query'', PStr (ep_query p)),
      (''facts'', PList (map fact_to_dict (ep_facts p))),
      (''hypotheses'', PList (map hypothesis_to_dict (ep_hypotheses p))),
      (''evidence'', PList (map ref_to_dict (ep_evidence p))),
      (''retrieval_trace'', PList (map PStr (ep_trace p))),
      (''graph_version'', PStr (ep_graph_version p))]"

section \<open>Facts about packs\<close>

lemma collect_refs_eq:
  "collect_refs seen refs rs =
     (rev (map ref_key (dedup_by ref_key seen rs)) @ seen, refs @ dedup_by ref_key seen rs)"
  by (induction seen refs rs rule: collect_refs.induct) auto

lemma dedup_by_append:
  "dedup_by key seen (xs @ ys) =
     dedup_by key seen xs @ dedup_by key (rev (map key (dedup_by key seen xs)) @ seen) ys"
  by (induction key seen xs rule: dedup_by.induct) auto

lemma collect_fact_refs_eq:
  "collect_fact_refs seen refs fs =
     (rev (map ref_key (dedup_by ref_key seen (concat (map sf_evidence fs)))) @ seen,
      refs @ dedup_by ref_key seen (concat (map sf_evidence fs)))"
  by (induction seen refs fs rule: collect_fact_refs.induct)
    (auto simp: collect_refs_eq dedup_by_append)

lemma pack_evidence_eq:
  "ep_evidence (pack_from_facts q fs hs tr v) = dedup_by ref_key [] (concat (map sf_evidence fs))"
  by (simp add: pack_from_facts_def collect_fact_refs_eq)

lemma length_fact_id: "length (fact_id f) = 21"
  by (simp add: fact_id_def length_sha256_hex)

end
