(* ===== verification/Operations.thy ===== *)
theory Operations
  imports Evidence
begin

text \<open>
  \<open>ir/operations.py\<close>: the finite set of normalised operations and the relations between
  them. An operation's attributes are a dictionary with string keys.
\<close>

datatype op_kind = FUNCTION | PARAMETER | ASSIGN | UPDATE | CALL | BRANCH | LOOP | RETURN | RAISE
  | CONTINUE | BREAK | DEFER | SPAWN | SEND | RECEIVE | SELECT | EMIT | UNKNOWN_OP

fun op_kind_value :: "op_kind \<Rightarrow> string" where
  "op_kind_value FUNCTION = ''function''"
| "op_kind_value PARAMETER = ''parameter''"
| "op_kind_value ASSIGN = ''assign''"
| "op_kind_value UPDATE = ''update''"
| "op_kind_value CALL = ''call''"
| "op_kind_value BRANCH = ''branch''"
| "op_kind_value LOOP = ''loop''"
| "op_kind_value RETURN = ''return''"
| "op_kind_value RAISE = ''raise''"
| "op_kind_value CONTINUE = ''continue''"
| "op_kind_value BREAK = ''break''"
| "op_kind_value DEFER = ''defer''"
| "op_kind_value SPAWN = ''spawn''"
| "op_kind_value SEND = ''send''"
| "op_kind_value RECEIVE = ''receive''"
| "op_kind_value SELECT = ''select''"
| "op_kind_value EMIT = ''emit''"
| "op_kind_value UNKNOWN_OP = ''unknown''"

definition all_op_kinds :: "op_kind list" where
  "all_op_kinds = [FUNCTION, PARAMETER, ASSIGN, UPDATE, CALL, BRANCH, LOOP, RETURN, RAISE, CONTINUE,
     BREAK, DEFER, SPAWN, SEND, RECEIVE, SELECT, EMIT, UNKNOWN_OP]"

text \<open>\<open>OperationKind(text)\<close>; \<open>None\<close> is the \<open>ValueError\<close>.\<close>

definition op_kind_of :: "string \<Rightarrow> op_kind option" where
  "op_kind_of s = find (\<lambda>k. op_kind_value k = s) all_op_kinds"

datatype edge_kind = CONTAINS | NEXT | TRUE_BRANCH | FALSE_BRANCH | BODY | LOOP_BACK | LOOP_EXIT
  | CALLS_EDGE | DATA_DEPENDENCY | SYNCHRONIZES

fun edge_kind_value :: "edge_kind \<Rightarrow> string" where
  "edge_kind_value CONTAINS = ''contains''"
| "edge_kind_value NEXT = ''next''"
| "edge_kind_value TRUE_BRANCH = ''true_branch''"
| "edge_kind_value FALSE_BRANCH = ''false_branch''"
| "edge_kind_value BODY = ''body''"
| "edge_kind_value LOOP_BACK = ''loop_back''"
| "edge_kind_value LOOP_EXIT = ''loop_exit''"
| "edge_kind_value CALLS_EDGE = ''calls''"
| "edge_kind_value DATA_DEPENDENCY = ''data_dependency''"
| "edge_kind_value SYNCHRONIZES = ''synchronizes''"

datatype data_flow_kind = ARGUMENT_TO_PARAMETER | RETURN_TO_CALL

fun data_flow_value :: "data_flow_kind \<Rightarrow> string" where
  "data_flow_value ARGUMENT_TO_PARAMETER = ''argument_to_parameter''"
| "data_flow_value RETURN_TO_CALL = ''return_to_call''"

record operation =
  op_id :: string
  op_kind :: op_kind
  op_language :: string
  op_scope :: string
  op_location :: evidence_ref
  op_target :: string
  op_value :: string
  op_operands :: "string list"
  op_attributes :: attributes

record operation_edge =
  oe_source :: string
  oe_target :: string
  oe_kind :: edge_kind
  oe_attributes :: attributes

text \<open>\<open>SemanticOperation.make_id\<close> with the kind's value.\<close>

definition make_op_id :: "string \<Rightarrow> int \<Rightarrow> string \<Rightarrow> int \<Rightarrow> string" where
  "make_op_id file line kind ordinal =
     take 20 (sha256_hex (join '':'' [file, str_of_int line, kind, str_of_int ordinal]))"

definition op_to_dict :: "operation \<Rightarrow> pyval" where
  "op_to_dict p = PDict
     [(''id'', PStr (op_id p)),
      (''kind'', PStr (op_kind_value (op_kind p))),
      (''language'', PStr (op_language p)),
      (''scope_id'', PStr (op_scope p)),
      (''location'', ref_to_dict (op_location p)),
      (''target'', PStr (op_target p)),
      (''value'', PStr (op_value p)),
      (''operands'', PList (map PStr (op_operands p))),
      (''attributes'', PDict (op_attributes p))]"

definition edge_to_dict :: "operation_edge \<Rightarrow> pyval" where
  "edge_to_dict e = PDict
     [(''source_id'', PStr (oe_source e)),
      (''target_id'', PStr (oe_target e)),
      (''kind'', PStr (edge_kind_value (oe_kind e))),
      (''attributes'', PDict (oe_attributes e))]"

text \<open>The source order every analyser sorts by: \<open>_operation_order\<close>.\<close>

definition op_order :: "operation \<Rightarrow> string \<times> int \<times> int \<times> string" where
  "op_order p =
     (er_file (op_location p), er_line_start (op_location p),
      (case er_col_start (op_location p) of None \<Rightarrow> 0 | Some c \<Rightarrow> c), op_id p)"

text \<open>\<open>{operation.id: operation for operation in operations}\<close>.\<close>

definition ops_by_id :: "operation list \<Rightarrow> (string, operation) dict" where
  "ops_by_id ops = dict_of op_id (\<lambda>p. p) ops"

text \<open>Dataclass equality: field by field, attributes as dictionaries.\<close>

definition op_eq :: "operation \<Rightarrow> operation \<Rightarrow> bool" where
  "op_eq p q = (op_id p = op_id q \<and> op_kind p = op_kind q \<and> op_language p = op_language q \<and>
     op_scope p = op_scope q \<and> op_location p = op_location q \<and> op_target p = op_target q \<and>
     op_value p = op_value q \<and> op_operands p = op_operands q \<and>
     py_eq (PDict (op_attributes p)) (PDict (op_attributes q)))"

text \<open>\<open>operation in collection\<close> tests identity before equality.\<close>

definition op_in :: "operation \<Rightarrow> operation list \<Rightarrow> bool" where
  "op_in p ps = list_ex (\<lambda>q. p = q \<or> op_eq p q) ps"

section \<open>Facts\<close>

lemma op_kind_value_inj: "op_kind_value k = op_kind_value k' \<longleftrightarrow> k = k'"
  by (cases k; cases k') auto

lemma edge_kind_value_inj: "edge_kind_value k = edge_kind_value k' \<longleftrightarrow> k = k'"
  by (cases k; cases k') auto

lemma op_kind_of_value [simp]: "op_kind_of (op_kind_value k) = Some k"
  by (cases k) (simp_all add: op_kind_of_def all_op_kinds_def)

lemma op_kind_of_SomeD: "op_kind_of s = Some k \<Longrightarrow> s = op_kind_value k"
  by (auto simp: op_kind_of_def find_Some_iff)

lemma ops_by_id_Some: "dict_get (ops_by_id ops) i = Some p \<Longrightarrow> p \<in> set ops \<and> op_id p = i"
  by (auto simp: ops_by_id_def dest: dict_get_dict_of_Some)

lemma ops_by_id_distinct:
  "distinct (map op_id ops) \<Longrightarrow> p \<in> set ops \<Longrightarrow> dict_get (ops_by_id ops) (op_id p) = Some p"
  unfolding ops_by_id_def by (rule dict_get_dict_of_distinct)

lemma op_in_set: "p \<in> set ps \<Longrightarrow> op_in p ps"
  by (auto simp: op_in_def list_ex_iff)

lemma op_in_ids: "op_in p ps \<Longrightarrow> op_id p \<in> op_id ` set ps"
  by (auto simp: op_in_def list_ex_iff op_eq_def)

end
