(* ===== verification/Samples.thy ===== *)
theory Samples
  imports Operations
begin

text \<open>
  Small operations and edges the concrete instances of the theorems are built from.
\<close>

definition sample_op :: "string \<Rightarrow> op_kind \<Rightarrow> string \<Rightarrow> int \<Rightarrow> string \<Rightarrow> attributes \<Rightarrow> operation" where
  "sample_op i k scope line target attrs =
     \<lparr>op_id = i, op_kind = k, op_language = ''go'', op_scope = scope,
      op_location = make_ref ''m.go'' line None None None [] [],
      op_target = target, op_value = [], op_operands = [], op_attributes = attrs\<rparr>"

definition sample_edge :: "string \<Rightarrow> string \<Rightarrow> edge_kind \<Rightarrow> operation_edge" where
  "sample_edge s t k = \<lparr>oe_source = s, oe_target = t, oe_kind = k, oe_attributes = []\<rparr>"

text \<open>A call, a branch around it and a joint exit: \<open>e \<rightarrow> b\<close>, \<open>b \<rightarrow> a\<close> (true), \<open>b \<rightarrow> x\<close> (false), \<open>a \<rightarrow> x\<close>.\<close>

definition diamond_ops :: "operation list" where
  "diamond_ops =
     [sample_op ''e'' CALL ''s'' 1 ''open'' [], sample_op ''b'' BRANCH ''s'' 2 ''check'' [],
      sample_op ''a'' CALL ''s'' 3 ''use'' [], sample_op ''x'' RETURN ''s'' 4 [] []]"

definition diamond_edges :: "operation_edge list" where
  "diamond_edges =
     [sample_edge ''e'' ''b'' NEXT, sample_edge ''b'' ''a'' TRUE_BRANCH,
      sample_edge ''b'' ''x'' FALSE_BRANCH, sample_edge ''a'' ''x'' NEXT]"

end
