(* ===== verification/Contracts.thy ===== *)
theory Contracts
  imports Operations
begin

text \<open>
  \<open>ir/contracts.py\<close>: the attribute shapes that interprocedural operations carry, the typed
  views on them, and the structural validator with its exact messages.
\<close>

definition is_call_kind :: "op_kind \<Rightarrow> bool" where
  "is_call_kind k = (k \<in> {CALL, SPAWN, DEFER})"

text \<open>\<open>_string_tuple\<close>.\<close>

definition string_tuple :: "attributes \<Rightarrow> string \<Rightarrow> string list" where
  "string_tuple a key = (case attr_seq a key of None \<Rightarrow> [] | Some xs \<Rightarrow> map py_str xs)"

section \<open>Typed views\<close>

record function_contract =
  fc_symbol :: string
  fc_qualified :: string
  fc_namespace :: string
  fc_receiver_type :: string
  fc_return_types :: "string list"

definition function_contract_of :: "operation \<Rightarrow> function_contract" where
  "function_contract_of p =
     (let a = op_attributes p in
      \<lparr>fc_symbol = attr_str (op_target p) a ''symbol_name'',
       fc_qualified = attr_str (op_target p) a ''qualified_name'',
       fc_namespace = attr_str [] a ''namespace'',
       fc_receiver_type = attr_str [] a ''receiver_type'',
       fc_return_types = string_tuple a ''return_types''\<rparr>)"

record parameter_contract =
  pc_name :: string
  pc_position :: int
  pc_declared_type :: string
  pc_kind :: string
  pc_receiver :: bool

text \<open>A boolean position becomes 0 before \<open>int(position)\<close>, which may raise.\<close>

definition parameter_contract_of :: "operation \<Rightarrow> py_error + parameter_contract" where
  "parameter_contract_of p =
     (let a = op_attributes p;
          position = dict_get_or (PInt 0) a ''position'';
          position' = (case position of PBool b \<Rightarrow> PInt 0 | _ \<Rightarrow> position)
      in case py_int position' of
           Inl e \<Rightarrow> Inl e
         | Inr n \<Rightarrow> Inr
             \<lparr>pc_name = op_target p, pc_position = n,
              pc_declared_type = attr_str (op_value p) a ''declared_type'',
              pc_kind = attr_str ''positional'' a ''parameter_kind'',
              pc_receiver = py_truth (dict_get_or (PBool False) a ''receiver'')\<rparr>)"

record binding_contract =
  bc_target :: string
  bc_declared_type :: string
  bc_inferred_type :: string

definition binding_contract_of :: "pyval \<Rightarrow> py_error + binding_contract" where
  "binding_contract_of v =
     (case v of
        PDict d \<Rightarrow> Inr
          \<lparr>bc_target = attr_str [] d ''target'',
           bc_declared_type = attr_str [] d ''declared_type'',
           bc_inferred_type = attr_str [] d ''inferred_type''\<rparr>
      | _ \<Rightarrow> Inl (ValueError ''binding must be an object''))"

record call_contract =
  cc_target :: string
  cc_receiver :: string
  cc_arguments :: "string list"
  cc_argument_names :: "string list"
  cc_result_targets :: "string list"
  cc_host :: string

definition call_contract_of :: "operation \<Rightarrow> call_contract" where
  "call_contract_of p =
     (let a = op_attributes p in
      \<lparr>cc_target = op_target p,
       cc_receiver = attr_str [] a ''receiver'',
       cc_arguments = string_tuple a ''arguments'',
       cc_argument_names = string_tuple a ''argument_names'',
       cc_result_targets = string_tuple a ''result_targets'',
       cc_host = attr_str [] a ''host_operation''\<rparr>)"

section \<open>Validation\<close>

text \<open>\<open>_require_string_list\<close>: the errors it appends.\<close>

definition require_string_list :: "attributes \<Rightarrow> string \<Rightarrow> string list" where
  "require_string_list a key =
     (case dict_get a key of
        Some (PList xs) \<Rightarrow>
          (if list_ex (\<lambda>x. \<not> is_pstr x) xs then [key @ '' entries must be strings''] else [])
      | _ \<Rightarrow> [key @ '' must be a list''])"

fun binding_errors :: "nat \<Rightarrow> pyval list \<Rightarrow> string list" where
  "binding_errors i [] = []"
| "binding_errors i (b # bs) =
     (case binding_contract_of b of
        Inl (ValueError m) \<Rightarrow> [''bindings['' @ str_of_nat i @ '']: '' @ m]
      | Inl _ \<Rightarrow> []
      | Inr c \<Rightarrow>
          (if bc_target c = [] then [''bindings['' @ str_of_nat i @ ''].target must be non-empty''] else []))
     @ binding_errors (Suc i) bs"

definition position_errors :: "attributes \<Rightarrow> string list" where
  "position_errors a =
     (case dict_get a ''position'' of
        Some (PInt n) \<Rightarrow> (if n < -1 then [''position must be >= -1''] else [])
      | _ \<Rightarrow> [''position must be an integer''])"

definition error_when :: "bool \<Rightarrow> string \<Rightarrow> string list" where
  "error_when b m = (if b then [m] else [])"

definition function_errors :: "operation \<Rightarrow> string list" where
  "function_errors p =
     (let a = op_attributes p in
      require_string_list a ''return_types'' @
      error_when (attr_str (op_target p) a ''symbol_name'' = []) ''symbol_name must be non-empty'' @
      error_when (attr_str (op_target p) a ''qualified_name'' = []) ''qualified_name must be non-empty'')"

definition parameter_errors :: "operation \<Rightarrow> string list" where
  "parameter_errors p =
     (let a = op_attributes p in
      position_errors a @
      error_when (\<not> is_pstr (dict_get_or (PStr (op_value p)) a ''declared_type''))
        ''declared_type must be a string'' @
      error_when (\<not> is_pstr (dict_get_or PNone a ''parameter_kind'')) ''parameter_kind must be a string'' @
      error_when (\<not> is_pbool (dict_get_or PNone a ''receiver'')) ''receiver must be a boolean'')"

definition assign_errors :: "operation \<Rightarrow> string list" where
  "assign_errors p =
     (case dict_get (op_attributes p) ''bindings'' of
        Some (PList bs) \<Rightarrow> binding_errors 0 bs
      | _ \<Rightarrow> [''bindings must be a list''])"

definition call_errors :: "operation \<Rightarrow> string list" where
  "call_errors p =
     (let a = op_attributes p in
      require_string_list a ''arguments'' @
      require_string_list a ''argument_names'' @
      require_string_list a ''result_targets'' @
      (case (dict_get a ''arguments'', dict_get a ''argument_names'') of
         (Some (PList xs), Some (PList ns)) \<Rightarrow>
           error_when (length xs \<noteq> length ns) ''argument_names must align with arguments''
       | _ \<Rightarrow> []) @
      error_when (\<not> is_pstr (dict_get_or (PStr []) a ''receiver'')) ''receiver must be a string'' @
      error_when (\<not> is_pstr (dict_get_or (PStr []) a ''host_operation'')) ''host_operation must be a string'')"

definition validate_operation_contract :: "operation \<Rightarrow> string list" where
  "validate_operation_contract p =
     (if op_kind p = FUNCTION then function_errors p
      else if op_kind p = PARAMETER then parameter_errors p
      else if op_kind p = ASSIGN then assign_errors p
      else if is_call_kind (op_kind p) then call_errors p
      else if op_kind p = RETURN then require_string_list (op_attributes p) ''values''
      else [])"

definition validate_semantic_ir :: "operation list \<Rightarrow> string list" where
  "validate_semantic_ir ops =
     concat (map (\<lambda>p. map (\<lambda>e. op_id p @ '': '' @ e) (validate_operation_contract p))
       (sort_key op_order ops))"

section \<open>What the validator accepts\<close>

text \<open>The contract as the module's documentation states it, without messages.\<close>

definition string_list_attr :: "attributes \<Rightarrow> string \<Rightarrow> bool" where
  "string_list_attr a key = (\<exists>xs. dict_get a key = Some (PList (map PStr xs)))"

definition contract_ok :: "operation \<Rightarrow> bool" where
  "contract_ok p =
     (let a = op_attributes p in
      case op_kind p of
        FUNCTION \<Rightarrow> string_list_attr a ''return_types'' \<and>
          attr_str (op_target p) a ''symbol_name'' \<noteq> [] \<and>
          attr_str (op_target p) a ''qualified_name'' \<noteq> []
      | PARAMETER \<Rightarrow> (\<exists>n \<ge> -1. dict_get a ''position'' = Some (PInt n)) \<and>
          (\<exists>t. dict_get_or (PStr (op_value p)) a ''declared_type'' = PStr t) \<and>
          (\<exists>k. dict_get a ''parameter_kind'' = Some (PStr k)) \<and>
          (\<exists>b. dict_get a ''receiver'' = Some (PBool b))
      | ASSIGN \<Rightarrow> (\<exists>bs. dict_get a ''bindings'' = Some (PList (map PDict bs)) \<and>
          (\<forall>b \<in> set bs. attr_str [] b ''target'' \<noteq> []))
      | RETURN \<Rightarrow> string_list_attr a ''values''
      | k \<Rightarrow> is_call_kind k \<longrightarrow>
          (\<exists>xs ns. dict_get a ''arguments'' = Some (PList (map PStr xs)) \<and>
             dict_get a ''argument_names'' = Some (PList (map PStr ns)) \<and> length xs = length ns) \<and>
          string_list_attr a ''result_targets'' \<and>
          (\<exists>r. dict_get_or (PStr []) a ''receiver'' = PStr r) \<and>
          (\<exists>h. dict_get_or (PStr []) a ''host_operation'' = PStr h))"

lemma map_PStr_eq [simp]: "map PStr xs = map PStr ys \<longleftrightarrow> xs = ys"
  by (simp add: inj_map_eq_map inj_def)

lemma map_PDict_eq [simp]: "map PDict xs = map PDict ys \<longleftrightarrow> xs = ys"
  by (simp add: inj_map_eq_map inj_def)

lemma all_pstr_map: "list_all is_pstr xs \<longleftrightarrow> (\<exists>ss. xs = map PStr ss)"
proof
  show "list_all is_pstr xs \<Longrightarrow> \<exists>ss. xs = map PStr ss"
    by (induction xs) (auto simp: is_pstr_def Cons_eq_map_conv split: pyval.splits)
qed (auto simp: is_pstr_def list_all_iff)

lemma error_when_Nil [simp]: "error_when b m = [] \<longleftrightarrow> \<not> b"
  by (simp add: error_when_def)

lemma is_pstr_iff: "is_pstr v \<longleftrightarrow> (\<exists>s. v = PStr s)"
  by (cases v) (auto simp: is_pstr_def)

lemma require_string_list_Nil: "require_string_list a key = [] \<longleftrightarrow> string_list_attr a key"
  by (auto simp: require_string_list_def string_list_attr_def list_ex_iff is_pstr_iff
      all_pstr_map[symmetric] list_all_iff split: option.splits pyval.splits)

lemma binding_errors_Nil:
  "binding_errors i bs = [] \<longleftrightarrow>
     (\<exists>ds. bs = map PDict ds \<and> (\<forall>d \<in> set ds. attr_str [] d ''target'' \<noteq> []))"
proof (induction i bs rule: binding_errors.induct)
  case (2 i b bs)
  show ?case
    by (cases b) (auto simp: 2 binding_contract_of_def Cons_eq_map_conv)
qed simp

lemma position_errors_Nil:
  "position_errors a = [] \<longleftrightarrow> (\<exists>n \<ge> -1. dict_get a ''position'' = Some (PInt n))"
  by (auto simp: position_errors_def split: option.splits pyval.splits)

lemma dict_get_or_pstr: "is_pstr (dict_get_or PNone a k) \<longleftrightarrow> (\<exists>s. dict_get a k = Some (PStr s))"
  by (auto simp: is_pstr_iff dict_get_or_def dict_get_def split: option.splits)

lemma dict_get_or_PNone_pstr: "dict_get_or PNone a k = PStr t \<longleftrightarrow> dict_get a k = Some (PStr t)"
  by (auto simp: dict_get_or_def dict_get_def split: option.splits)

lemma dict_get_or_pbool: "is_pbool (dict_get_or PNone a k) \<longleftrightarrow> (\<exists>b. dict_get a k = Some (PBool b))"
  by (auto simp: is_pbool_def dict_get_or_def dict_get_def split: option.splits pyval.splits)

lemmas contract_facts = dict_get_or_pbool dict_get_or_PNone_pstr require_string_list_Nil binding_errors_Nil position_errors_Nil
  dict_get_or_pstr is_pstr_iff

lemma function_errors_Nil: "op_kind p = FUNCTION \<Longrightarrow> function_errors p = [] \<longleftrightarrow> contract_ok p"
  by (simp add: function_errors_def contract_ok_def contract_facts Let_def)

lemma parameter_errors_Nil: "op_kind p = PARAMETER \<Longrightarrow> parameter_errors p = [] \<longleftrightarrow> contract_ok p"
  by (simp add: parameter_errors_def contract_ok_def contract_facts Let_def)

lemma assign_errors_Nil: "op_kind p = ASSIGN \<Longrightarrow> assign_errors p = [] \<longleftrightarrow> contract_ok p"
  by (auto simp: assign_errors_def contract_ok_def contract_facts Let_def split: option.splits pyval.splits)

lemma call_errors_Nil:
  assumes "is_call_kind (op_kind p)"
  shows "call_errors p = [] \<longleftrightarrow> contract_ok p"
proof -
  have ok: "contract_ok p \<longleftrightarrow>
      (\<exists>xs ns. dict_get (op_attributes p) ''arguments'' = Some (PList (map PStr xs)) \<and>
         dict_get (op_attributes p) ''argument_names'' = Some (PList (map PStr ns)) \<and>
         length xs = length ns) \<and>
      string_list_attr (op_attributes p) ''result_targets'' \<and>
      (\<exists>r. dict_get_or (PStr []) (op_attributes p) ''receiver'' = PStr r) \<and>
      (\<exists>h. dict_get_or (PStr []) (op_attributes p) ''host_operation'' = PStr h)"
    using assms by (auto simp: contract_ok_def is_call_kind_def Let_def)
  show ?thesis
    by (auto simp: ok call_errors_def contract_facts string_list_attr_def Let_def)
qed

lemma validate_operation_Nil: "validate_operation_contract p = [] \<longleftrightarrow> contract_ok p"
  using function_errors_Nil[of p] parameter_errors_Nil[of p] assign_errors_Nil[of p]
    call_errors_Nil[of p]
  by (auto simp: validate_operation_contract_def contract_ok_def contract_facts is_call_kind_def Let_def
      split: op_kind.splits)

section \<open>Properties\<close>

text \<open>
  C30: The validator accepts an operation exactly when it satisfies the contract stated without
  reference to messages: the shapes of its attributes, kind by kind.
\<close>

theorem validator_equals_contract: "validate_operation_contract p = [] \<longleftrightarrow> contract_ok p"
  by (rule validate_operation_Nil)

end
