(* ===== verification/Capabilities.thy ===== *)
theory Capabilities
  imports PyValue
begin

text \<open>
  \<open>ir/capabilities.py\<close>: what a language frontend can provide, in graded strength, and the
  assessment of a rule's requirements against it. Requirements may name a capability or a
  level by its text; an unknown text raises \<open>ValueError\<close>.
\<close>

datatype capability = STRUCTURE | SOURCE_LOCATIONS | SYMBOLS | CALL_GRAPH | CONTROL_FLOW | DATA_FLOW
  | TYPE_INFO | CONCURRENCY | EVENT_MODEL | TEST_MAPPING

fun capability_value :: "capability \<Rightarrow> string" where
  "capability_value STRUCTURE = ''structure''"
| "capability_value SOURCE_LOCATIONS = ''source_locations''"
| "capability_value SYMBOLS = ''symbols''"
| "capability_value CALL_GRAPH = ''call_graph''"
| "capability_value CONTROL_FLOW = ''control_flow''"
| "capability_value DATA_FLOW = ''data_flow''"
| "capability_value TYPE_INFO = ''type_info''"
| "capability_value CONCURRENCY = ''concurrency''"
| "capability_value EVENT_MODEL = ''event_model''"
| "capability_value TEST_MAPPING = ''test_mapping''"

definition all_capabilities :: "capability list" where
  "all_capabilities = [STRUCTURE, SOURCE_LOCATIONS, SYMBOLS, CALL_GRAPH, CONTROL_FLOW, DATA_FLOW,
     TYPE_INFO, CONCURRENCY, EVENT_MODEL, TEST_MAPPING]"

datatype capability_level = UNKNOWN | UNSUPPORTED | PARTIAL | FULL

fun level_value :: "capability_level \<Rightarrow> string" where
  "level_value UNKNOWN = ''unknown''"
| "level_value UNSUPPORTED = ''unsupported''"
| "level_value PARTIAL = ''partial''"
| "level_value FULL = ''full''"

fun level_rank :: "capability_level \<Rightarrow> int" where
  "level_rank UNKNOWN = -1"
| "level_rank UNSUPPORTED = 0"
| "level_rank PARTIAL = 1"
| "level_rank FULL = 2"

definition all_levels :: "capability_level list" where
  "all_levels = [UNKNOWN, UNSUPPORTED, PARTIAL, FULL]"

instantiation capability_level :: linorder
begin

definition less_eq_capability_level :: "capability_level \<Rightarrow> capability_level \<Rightarrow> bool" where
  "less_eq_capability_level a b = (level_rank a \<le> level_rank b)"

definition less_capability_level :: "capability_level \<Rightarrow> capability_level \<Rightarrow> bool" where
  "less_capability_level a b = (level_rank a < level_rank b)"

instance
proof
  fix a b :: capability_level
  assume "a \<le> b" "b \<le> a"
  then show "a = b" by (cases a; cases b) (auto simp: less_eq_capability_level_def)
qed (auto simp: less_eq_capability_level_def less_capability_level_def)

end

text \<open>Enum arguments that may also be given by value.\<close>

datatype cap_ref = CapEnum capability | CapName string
datatype level_ref = LevelEnum capability_level | LevelName string

definition capability_of :: "string \<Rightarrow> py_error + capability" where
  "capability_of s =
     (case find (\<lambda>c. capability_value c = s) all_capabilities of
        None \<Rightarrow> Inl (ValueError s) | Some c \<Rightarrow> Inr c)"

definition level_of :: "string \<Rightarrow> py_error + capability_level" where
  "level_of s =
     (case find (\<lambda>l. level_value l = s) all_levels of
        None \<Rightarrow> Inl (ValueError s) | Some l \<Rightarrow> Inr l)"

fun resolve_cap :: "cap_ref \<Rightarrow> py_error + capability" where
  "resolve_cap (CapEnum c) = Inr c"
| "resolve_cap (CapName s) = capability_of s"

fun resolve_level :: "level_ref \<Rightarrow> py_error + capability_level" where
  "resolve_level (LevelEnum l) = Inr l"
| "resolve_level (LevelName s) = level_of s"

fun cap_ref_text :: "cap_ref \<Rightarrow> string" where
  "cap_ref_text (CapEnum c) = capability_value c"
| "cap_ref_text (CapName s) = s"

section \<open>Capability sets\<close>

record capability_set =
  cs_language :: string
  cs_supported :: "capability list"
  cs_partial :: "(capability, string) dict"

fun resolve_caps :: "cap_ref list \<Rightarrow> py_error + capability list" where
  "resolve_caps [] = Inr []"
| "resolve_caps (r # rs) =
     (case resolve_cap r of Inl e \<Rightarrow> Inl e
      | Inr c \<Rightarrow> (case resolve_caps rs of Inl e \<Rightarrow> Inl e | Inr cs \<Rightarrow> Inr (c # cs)))"

fun resolve_partial ::
  "(capability, string) dict \<Rightarrow> (cap_ref \<times> string) list \<Rightarrow> py_error + (capability, string) dict" where
  "resolve_partial acc [] = Inr acc"
| "resolve_partial acc ((r, why) # rs) =
     (case resolve_cap r of Inl e \<Rightarrow> Inl e | Inr c \<Rightarrow> resolve_partial (dict_set c why acc) rs)"

definition caps_from_values ::
  "string \<Rightarrow> cap_ref list \<Rightarrow> (cap_ref \<times> string) list \<Rightarrow> py_error + capability_set" where
  "caps_from_values language supported part =
     (case resolve_caps supported of Inl e \<Rightarrow> Inl e
      | Inr cs \<Rightarrow> (case resolve_partial [] part of Inl e \<Rightarrow> Inl e
          | Inr p \<Rightarrow> Inr \<lparr>cs_language = language, cs_supported = dedup cs, cs_partial = p\<rparr>))"

text \<open>\<open>CapabilitySet.from_values(language)\<close>: nothing supported.\<close>

definition empty_caps :: "string \<Rightarrow> capability_set" where
  "empty_caps language = \<lparr>cs_language = language, cs_supported = [], cs_partial = []\<rparr>"

definition caps_supports :: "capability_set \<Rightarrow> cap_ref \<Rightarrow> py_error + bool" where
  "caps_supports s r =
     (case resolve_cap r of Inl e \<Rightarrow> Inl e | Inr c \<Rightarrow> Inr (c \<in> set (cs_supported s)))"

definition caps_level :: "capability_set \<Rightarrow> capability \<Rightarrow> capability_level" where
  "caps_level s c =
     (if c \<in> set (cs_supported s) then FULL
      else if dict_has (cs_partial s) c then PARTIAL
      else UNSUPPORTED)"

definition caps_is_partial :: "capability_set \<Rightarrow> cap_ref \<Rightarrow> py_error + bool" where
  "caps_is_partial s r =
     (case resolve_cap r of Inl e \<Rightarrow> Inl e | Inr c \<Rightarrow> Inr (dict_has (cs_partial s) c))"

fun caps_missing :: "capability_set \<Rightarrow> cap_ref list \<Rightarrow> py_error + string list" where
  "caps_missing s [] = Inr []"
| "caps_missing s (r # rs) =
     (case caps_supports s r of Inl e \<Rightarrow> Inl e
      | Inr ok \<Rightarrow> (case caps_missing s rs of Inl e \<Rightarrow> Inl e
          | Inr ms \<Rightarrow> Inr (if ok then ms else cap_ref_text r # ms)))"

definition caps_to_dict :: "capability_set \<Rightarrow> pyval" where
  "caps_to_dict s = PDict
     [(''language'', PStr (cs_language s)),
      (''supported'', PList (map PStr (sort (map capability_value (cs_supported s))))),
      (''partial'', PDict (map (\<lambda>(c, why). (capability_value c, PStr why))
          (sort_key (\<lambda>(c, why). capability_value c) (cs_partial s))))]"

section \<open>Assessment\<close>

text \<open>The dictionaries \<open>assess\<close> returns; \<open>ca_reason\<close> is empty where the key is absent.\<close>

record cap_detail =
  cd_required :: capability_level
  cd_actual :: capability_level
  cd_status :: capability_level
  cd_reason :: string

record cap_assessment =
  ca_status :: capability_level
  ca_capabilities :: "(string, cap_detail) dict"
  ca_reason :: string

definition requirement_status :: "capability_level \<Rightarrow> capability_level \<Rightarrow> capability_level" where
  "requirement_status actual minimum =
     (if level_rank minimum \<le> level_rank actual \<and> actual = FULL then FULL
      else if level_rank minimum \<le> level_rank actual then PARTIAL
      else UNSUPPORTED)"

text \<open>The loop of \<open>assess\<close>, with the running \<open>overall\<close> and \<open>capabilities\<close>.\<close>

fun assess_loop ::
  "capability_set \<Rightarrow> capability_level \<Rightarrow> (string, cap_detail) dict \<Rightarrow> (cap_ref \<times> level_ref) list
   \<Rightarrow> py_error + cap_assessment" where
  "assess_loop s overall caps [] = Inr \<lparr>ca_status = overall, ca_capabilities = caps, ca_reason = []\<rparr>"
| "assess_loop s overall caps ((requested, minimum) # rest) =
     (case resolve_cap requested of Inl e \<Rightarrow> Inl e
      | Inr c \<Rightarrow> (case resolve_level minimum of Inl e \<Rightarrow> Inl e
          | Inr m \<Rightarrow>
              (let actual = caps_level s c;
                   status = requirement_status actual m
               in assess_loop s
                    (if level_rank status < level_rank overall then status else overall)
                    (dict_set (capability_value c)
                       \<lparr>cd_required = m, cd_actual = actual, cd_status = status,
                        cd_reason = (if actual = PARTIAL then dict_get_or [] (cs_partial s) c else [])\<rparr>
                       caps)
                    rest)))"

definition caps_assess :: "capability_set \<Rightarrow> (cap_ref \<times> level_ref) list \<Rightarrow> py_error + cap_assessment" where
  "caps_assess s required =
     (if required = [] then Inr \<lparr>ca_status = UNKNOWN, ca_capabilities = [],
       ca_reason = ''rule declares no semantic capability requirements''\<rparr>
      else assess_loop s FULL [] required)"

section \<open>Facts\<close>

lemma capability_value_inj: "capability_value c = capability_value d \<longleftrightarrow> c = d"
  by (cases c; cases d) auto

lemma capability_of_value [simp]: "capability_of (capability_value c) = Inr c"
  by (cases c) (simp_all add: capability_of_def all_capabilities_def)

lemma level_of_value [simp]: "level_of (level_value l) = Inr l"
  by (cases l) (simp_all add: level_of_def all_levels_def)

lemma min_level_if:
  "(if level_rank s < level_rank t then s else t) = min s (t :: capability_level)"
  by (auto simp: min_def less_eq_capability_level_def) (metis less_eq_capability_level_def antisym linorder_le_less_linear nless_le)

lemma requirement_status_cases:
  "requirement_status a m = FULL \<longleftrightarrow> a = FULL"
  "requirement_status a m = PARTIAL \<longleftrightarrow> a \<noteq> FULL \<and> m \<le> a"
  "requirement_status a m = UNSUPPORTED \<longleftrightarrow> \<not> m \<le> a"
  by (cases a; cases m; simp add: requirement_status_def less_eq_capability_level_def)+

lemma requirement_status_not_unknown: "requirement_status a m \<noteq> UNKNOWN"
  by (simp add: requirement_status_def)

text \<open>The levels a list of requirements gets, one by one.\<close>

definition requirement_levels :: "capability_set \<Rightarrow> (capability \<times> capability_level) list \<Rightarrow> capability_level list" where
  "requirement_levels s reqs = map (\<lambda>(c, m). requirement_status (caps_level s c) m) reqs"

definition enum_reqs :: "(capability \<times> capability_level) list \<Rightarrow> (cap_ref \<times> level_ref) list" where
  "enum_reqs reqs = map (\<lambda>(c, m). (CapEnum c, LevelEnum m)) reqs"

lemma assess_loop_status:
  "\<exists>a. assess_loop s overall caps (enum_reqs reqs) = Inr a \<and>
       ca_status a = foldl min overall (requirement_levels s reqs)"
proof (induction reqs arbitrary: overall caps)
  case (Cons r reqs)
  obtain c m where r: "r = (c, m)" by (cases r)
  show ?case
    using Cons by (auto simp: r enum_reqs_def requirement_levels_def Let_def min_level_if min.commute)
qed (simp add: enum_reqs_def requirement_levels_def)

lemma foldl_min_le: "foldl min x ys \<le> (x :: 'a::linorder)" "y \<in> set ys \<Longrightarrow> foldl min x ys \<le> y"
proof (induction ys arbitrary: x)
  case Nil
  { case 1 show ?case by simp }
  { case 2 then show ?case by simp }
next
  case (Cons z ys)
  { case 1 show ?case using Cons(1)[of "min x z"] by simp }
  { case 2 then show ?case using Cons(1,2)[of "min x z"] by auto }
qed

lemma foldl_min_in: "foldl min x ys \<in> insert (x :: 'a::linorder) (set ys)"
proof (induction ys arbitrary: x)
  case (Cons z ys)
  from Cons[of "min x z"] show ?case by (auto simp: min_def split: if_splits)
qed simp

end
