(* ===== verification/Provenance.thy ===== *)
theory Provenance
  imports PyString
begin

text \<open>
  \<open>provenance.py\<close>: the role of a source file (production, test, fixture, \<dots>) and its
  ownership zone (first party, legacy, vendored, \<dots>), from path conventions and, for
  generated code, from markers in the first eight lines.
\<close>

datatype source_role = PRODUCTION | TEST | FIXTURE | EXAMPLE | GENERATED | DOCUMENTATION | UNKNOWN_ROLE

fun source_role_value :: "source_role \<Rightarrow> string" where
  "source_role_value PRODUCTION = ''production''"
| "source_role_value TEST = ''test''"
| "source_role_value FIXTURE = ''fixture''"
| "source_role_value EXAMPLE = ''example''"
| "source_role_value GENERATED = ''generated''"
| "source_role_value DOCUMENTATION = ''documentation''"
| "source_role_value UNKNOWN_ROLE = ''unknown''"

datatype repository_zone = FIRST_PARTY | LEGACY | THIRD_PARTY | VENDORED | GENERATED_ZONE | UNKNOWN_ZONE

fun repository_zone_value :: "repository_zone \<Rightarrow> string" where
  "repository_zone_value FIRST_PARTY = ''first_party''"
| "repository_zone_value LEGACY = ''legacy''"
| "repository_zone_value THIRD_PARTY = ''third_party''"
| "repository_zone_value VENDORED = ''vendored''"
| "repository_zone_value GENERATED_ZONE = ''generated''"
| "repository_zone_value UNKNOWN_ZONE = ''unknown''"

definition test_parts :: "string list" where
  "test_parts = [''test'', ''tests'', ''__tests__'', ''testdata'', ''spec'', ''specs'']"

definition fixture_parts :: "string list" where
  "fixture_parts = [''fixture'', ''fixtures'', ''__fixtures__'', ''eval'', ''evals'', ''benchmark'',
     ''benchmarks'', ''snapshots'']"

definition example_parts :: "string list" where
  "example_parts = [''example'', ''examples'', ''sample'', ''samples'', ''demo'', ''demos'']"

definition doc_parts :: "string list" where
  "doc_parts = [''doc'', ''docs'', ''documentation'']"

definition generated_parts :: "string list" where
  "generated_parts = [''generated'', ''gen'', ''dist'', ''build'', ''out'']"

definition legacy_parts :: "string list" where
  "legacy_parts = [''legacy'', ''deprecated'', ''archive'', ''archived'']"

definition third_party_parts :: "string list" where
  "third_party_parts = [''third_party'', ''third-party'', ''external'', ''externals'']"

definition vendored_parts :: "string list" where
  "vendored_parts = [''vendor'', ''vendored'', ''node_modules'', ''site-packages'']"

definition doc_suffixes :: "string list" where
  "doc_suffixes = [''.md'', ''.mdx'', ''.rst'', ''.adoc'', ''.txt'']"

section \<open>\<open>PurePath\<close>\<close>

text \<open>The components of a relative path: empty ones and \<open>.\<close> are dropped.\<close>

definition path_parts :: "string \<Rightarrow> string list" where
  "path_parts s = filter (\<lambda>p. p \<noteq> [] \<and> p \<noteq> ''.'') (split_on (CHR ''/'') s)"

definition path_name :: "string \<Rightarrow> string" where
  "path_name s = (case path_parts s of [] \<Rightarrow> [] | ps \<Rightarrow> last ps)"

text \<open>\<open>PurePath.suffix\<close>: from the last dot, unless it is the first or the last character.\<close>

definition name_suffix :: "string \<Rightarrow> string" where
  "name_suffix n =
     (if CHR ''.'' \<in> set n \<and> before_last (CHR ''.'') n \<noteq> [] \<and> after_last (CHR ''.'') n \<noteq> []
      then CHR ''.'' # after_last (CHR ''.'') n else [])"

definition meets :: "string list \<Rightarrow> string list \<Rightarrow> bool" where
  "meets parts conv = list_ex (\<lambda>p. p \<in> set conv) parts"

text \<open>\<open>file_path.replace("\\", "/").strip("/")\<close>.\<close>

definition normalize_source_path :: "string \<Rightarrow> string" where
  "normalize_source_path s =
     strip_by (\<lambda>c. c = CHR ''/'') (map (\<lambda>c. if code c = 92 then CHR ''/'' else c) s)"

section \<open>Classification\<close>

definition file_stem :: "string \<Rightarrow> string" where
  "file_stem name = before_last (CHR ''.'') name"

definition looks_like_test_file :: "string \<Rightarrow> bool" where
  "looks_like_test_file name =
     (let stem = file_stem name in
      starts_with ''test_'' stem \<or> ends_with ''_test'' stem \<or>
      ends_with ''_spec'' stem \<or> starts_with ''spec_'' stem)"

definition looks_like_example_file :: "string \<Rightarrow> bool" where
  "looks_like_example_file name =
     (let stem = file_stem name in starts_with ''example_'' stem \<or> starts_with ''sample_'' stem)"

definition has_generated_marker :: "string \<Rightarrow> bool" where
  "has_generated_marker content =
     list_ex (\<lambda>line.
        let lowered = strip (lower line) in
        (contains_sub ''code generated'' lowered \<and> contains_sub ''do not edit'' lowered) \<or>
        contains_sub ''automatically generated'' lowered \<or> contains_sub ''generated by'' lowered)
      (take 8 (splitlines content))"

definition classify_source_role :: "string \<Rightarrow> string option \<Rightarrow> source_role \<times> string" where
  "classify_source_role file_path content =
     (let normalized = normalize_source_path file_path in
      if normalized = [] then (UNKNOWN_ROLE, ''empty source path'')
      else
        let parts = map lower (butlast (path_parts normalized));
            name = lower (path_name normalized);
            suffix = lower (name_suffix (path_name normalized))
        in
        if (case content of None \<Rightarrow> False | Some c \<Rightarrow> c \<noteq> [] \<and> has_generated_marker c)
          then (GENERATED, ''generated-file marker'')
        else if meets parts generated_parts \<or> contains_sub ''.generated.'' name \<or>
                ends_with ''_generated.go'' name
          then (GENERATED, ''generated path convention'')
        else if suffix \<in> set doc_suffixes \<or> meets parts doc_parts
          then (DOCUMENTATION, ''documentation path or extension'')
        else if meets parts fixture_parts then (FIXTURE, ''fixture/evaluation path convention'')
        else if meets parts test_parts \<or> looks_like_test_file name
          then (TEST, ''test path convention'')
        else if meets parts example_parts \<or> looks_like_example_file name
          then (EXAMPLE, ''example path convention'')
        else (PRODUCTION, ''default source path''))"

definition classify_repository_zone ::
  "string \<Rightarrow> string option \<Rightarrow> source_role option \<Rightarrow> repository_zone \<times> string" where
  "classify_repository_zone file_path content role =
     (let normalized = normalize_source_path file_path in
      if normalized = [] then (UNKNOWN_ZONE, ''empty source path'')
      else
        let parts = map lower (butlast (path_parts normalized));
            name = lower (path_name normalized)
        in
        if role = Some GENERATED \<or> meets parts generated_parts \<or> contains_sub ''.generated.'' name
          then (GENERATED_ZONE, ''generated path or source role'')
        else if meets parts vendored_parts then (VENDORED, ''vendored dependency path convention'')
        else if meets parts third_party_parts then (THIRD_PARTY, ''third-party path convention'')
        else if meets parts legacy_parts then (LEGACY, ''legacy path convention'')
        else (FIRST_PARTY, ''default repository ownership''))"

section \<open>Facts\<close>

text \<open>A file is production code only when no directory of its path names another role.\<close>

lemma production_role_parts:
  assumes "fst (classify_source_role f c) = PRODUCTION" "normalize_source_path f = n"
    and "p \<in> set (map lower (butlast (path_parts n)))"
  shows "p \<notin> set (generated_parts @ doc_parts @ fixture_parts @ test_parts @ example_parts)"
  using assms
  by (auto simp: classify_source_role_def meets_def list_ex_iff Let_def split: if_splits)

lemma generated_role_gives_generated_zone:
  assumes "fst (classify_source_role f c) = GENERATED"
  shows "fst (classify_repository_zone f c (Some (fst (classify_source_role f c)))) = GENERATED_ZONE"
  using assms
  by (auto simp: classify_source_role_def classify_repository_zone_def Let_def split: if_splits)

section \<open>Properties\<close>

text \<open>
  A file is classified as production code only when no directory on its path names another
  role, and its zone is first party only when none names vendored, third-party or legacy code.
\<close>

theorem production_first_party:
  assumes "fst (classify_source_role f c) = PRODUCTION"
    and "fst (classify_repository_zone f c (Some PRODUCTION)) = FIRST_PARTY"
    and "p \<in> set (map lower (butlast (path_parts (normalize_source_path f))))"
  shows "p \<notin> set (generated_parts @ doc_parts @ fixture_parts @ test_parts @ example_parts @
    vendored_parts @ third_party_parts @ legacy_parts)"
  using production_role_parts[OF assms(1) refl assms(3)] assms(2,3)
  by (auto simp: classify_repository_zone_def meets_def list_ex_iff Let_def split: if_splits)

theorem production_first_party_witness:
  "''src'' \<notin> set (generated_parts @ doc_parts @ fixture_parts @ test_parts @ example_parts @
    vendored_parts @ third_party_parts @ legacy_parts)"
proof (rule production_first_party)
  show "fst (classify_source_role ''src/a.py'' None) = PRODUCTION" by code_simp
  show "fst (classify_repository_zone ''src/a.py'' None (Some PRODUCTION)) = FIRST_PARTY" by code_simp
  show "''src'' \<in> set (map lower (butlast (path_parts (normalize_source_path ''src/a.py''))))" by code_simp
qed

end
