(* ===== verification/TypeEvid.thy ===== *)
theory TypeEvid
  imports Evidence
begin

text \<open>
  \<open>ir/type_evidence.py\<close>: type assertions attached to operations and the index analysers
  query. Types are compared by normalised spelling only.
\<close>

datatype type_role = BINDING | RECEIVER | RESULT

fun type_role_value :: "type_role \<Rightarrow> string" where
  "type_role_value BINDING = ''binding''"
| "type_role_value RECEIVER = ''receiver''"
| "type_role_value RESULT = ''result''"

datatype type_source = SURFACE_DECLARATION | SURFACE_FIELD | LOCAL_PROPAGATION | TYPE_CHECKER
  | LIBRARY_CONTRACT

fun type_source_value :: "type_source \<Rightarrow> string" where
  "type_source_value SURFACE_DECLARATION = ''surface_declaration''"
| "type_source_value SURFACE_FIELD = ''surface_field''"
| "type_source_value LOCAL_PROPAGATION = ''local_propagation''"
| "type_source_value TYPE_CHECKER = ''type_checker''"
| "type_source_value LIBRARY_CONTRACT = ''library_contract''"

fun type_source_rank :: "type_source \<Rightarrow> int" where
  "type_source_rank LOCAL_PROPAGATION = 1"
| "type_source_rank SURFACE_DECLARATION = 2"
| "type_source_rank SURFACE_FIELD = 2"
| "type_source_rank TYPE_CHECKER = 3"
| "type_source_rank LIBRARY_CONTRACT = 3"

text \<open>\<open>normalize_type_name\<close>: no white space, no surrounding quotes, no leading \<open>*\<close> or \<open>&\<close>.\<close>

definition is_quote :: "char \<Rightarrow> bool" where
  "is_quote c = (code c = 39 \<or> code c = 34)"

definition is_pointer_mark :: "char \<Rightarrow> bool" where
  "is_pointer_mark c = (c = CHR ''*'' \<or> c = CHR ''&'')"

definition normalize_type_name :: "string \<Rightarrow> string" where
  "normalize_type_name v =
     dropWhile is_pointer_mark (strip_by is_quote (join [] (split_ws (strip v))))"

definition type_names_compatible :: "string \<Rightarrow> string \<Rightarrow> bool" where
  "type_names_compatible expected actual =
     (let left = normalize_type_name expected; right = normalize_type_name actual
      in left \<noteq> [] \<and> right \<noteq> [] \<and> left = right)"

record type_evidence =
  te_operation :: string
  te_role :: type_role
  te_type_name :: string
  te_source :: type_source
  te_provider :: string
  te_binding :: string
  te_position :: int
  te_canonical :: string
  te_confidence :: pyfloat
  te_evidence :: "evidence_ref list"
  te_attributes :: attributes

definition make_type_evidence :: "type_evidence \<Rightarrow> py_error + type_evidence" where
  "make_type_evidence t =
     (if strip (te_operation t) = [] then Inl (ValueError ''type evidence operation_id must not be empty'')
      else if normalize_type_name (te_type_name t) = []
        then Inl (ValueError ''type evidence type_name must not be empty'')
      else if strip (te_provider t) = [] then Inl (ValueError ''type evidence provider must not be empty'')
      else if te_position t < -1 then Inl (ValueError ''type evidence position must be >= -1'')
      else if \<not> unit_interval (te_confidence t)
        then Inl (ValueError ''type evidence confidence must be between 0 and 1'')
      else Inr t)"

definition te_normalized :: "type_evidence \<Rightarrow> string" where
  "te_normalized t = normalize_type_name (te_type_name t)"

definition te_material :: "type_evidence \<Rightarrow> pyval" where
  "te_material t = PDict
     [(''operation_id'', PStr (te_operation t)),
      (''role'', PStr (type_role_value (te_role t))),
      (''type_name'', PStr (te_normalized t)),
      (''source'', PStr (type_source_value (te_source t))),
      (''provider'', PStr (te_provider t)),
      (''binding'', PStr (te_binding t)),
      (''position'', PInt (te_position t)),
      (''canonical_symbol'', PStr (te_canonical t)),
      (''confidence'', PFloat (fst (te_confidence t)) (snd (te_confidence t))),
      (''evidence'', PList (map ref_to_dict (te_evidence t))),
      (''attributes'', PDict (te_attributes t))]"

definition te_id :: "type_evidence \<Rightarrow> string" where
  "te_id t = ''type-'' @ take 16 (sha256_hex (json_dumps (te_material t)))"

definition te_to_dict :: "type_evidence \<Rightarrow> pyval" where
  "te_to_dict t = PDict
     [(''evidence_id'', PStr (te_id t)),
      (''operation_id'', PStr (te_operation t)),
      (''role'', PStr (type_role_value (te_role t))),
      (''type_name'', PStr (te_type_name t)),
      (''normalized_type'', PStr (te_normalized t)),
      (''source'', PStr (type_source_value (te_source t))),
      (''provider'', PStr (te_provider t)),
      (''binding'', PStr (te_binding t)),
      (''position'', PInt (te_position t)),
      (''canonical_symbol'', PStr (te_canonical t)),
      (''confidence'', PFloat (fst (te_confidence t)) (snd (te_confidence t))),
      (''evidence'', PList (map ref_to_dict (te_evidence t))),
      (''attributes'', PDict (te_attributes t))]"

section \<open>The index\<close>

definition te_order :: "type_evidence \<Rightarrow> string \<times> string \<times> int \<times> string \<times> string" where
  "te_order t =
     (te_operation t, type_role_value (te_role t), te_position t, te_normalized t, te_id t)"

type_synonym type_index = "(string, type_evidence list) dict"

definition make_type_index :: "type_evidence list \<Rightarrow> type_index" where
  "make_type_index ts = foldl (\<lambda>d t. dict_append (te_operation t) t d) [] (sort_key te_order ts)"

definition ti_for_operation :: "type_index \<Rightarrow> string \<Rightarrow> type_role option \<Rightarrow> type_evidence list" where
  "ti_for_operation ix op role =
     filter (\<lambda>t. role = None \<or> role = Some (te_role t)) (dict_get_or [] ix op)"

definition ti_unique_type :: "type_index \<Rightarrow> string \<Rightarrow> type_role \<Rightarrow> string" where
  "ti_unique_type ix op role =
     (case remdups (filter (\<lambda>n. n \<noteq> []) (map te_normalized (ti_for_operation ix op (Some role)))) of
        [v] \<Rightarrow> v
      | _ \<Rightarrow> [])"

definition ti_canonical_symbols :: "type_index \<Rightarrow> string \<Rightarrow> type_role \<Rightarrow> string list" where
  "ti_canonical_symbols ix op role =
     sorted_set (filter (\<lambda>n. n \<noteq> []) (map te_canonical (ti_for_operation ix op (Some role))))"

definition ti_evidence_ids :: "type_index \<Rightarrow> string \<Rightarrow> type_role option \<Rightarrow> string list" where
  "ti_evidence_ids ix op role = map te_id (ti_for_operation ix op role)"

section \<open>Facts\<close>

lemma normalize_type_name_eq:
  "normalize_type_name v =
     dropWhile is_pointer_mark (strip_by is_quote (filter (\<lambda>c. \<not> is_space c) (strip v)))"
  by (simp add: normalize_type_name_def join_Nil concat_split_ws)

lemma foldl_dict_append:
  "dict_get_or [] (foldl (\<lambda>d t. dict_append (key t) t d) d0 ts) k =
     dict_get_or [] d0 k @ filter (\<lambda>t. key t = k) ts"
  by (induction ts arbitrary: d0) auto

lemma ti_for_operation_eq:
  "ti_for_operation (make_type_index ts) op role =
     filter (\<lambda>t. te_operation t = op \<and> (role = None \<or> role = Some (te_role t))) (sort_key te_order ts)"
  by (simp add: ti_for_operation_def make_type_index_def foldl_dict_append conj_commute)

lemma set_ti_for_operation:
  "set (ti_for_operation (make_type_index ts) op role) =
     {t \<in> set ts. te_operation t = op \<and> (role = None \<or> role = Some (te_role t))}"
  by (auto simp: ti_for_operation_eq)

lemma unique_remdups:
  "(case remdups xs of [v] \<Rightarrow> v | _ \<Rightarrow> d) = (if \<exists>v. set xs = {v} then (THE v. set xs = {v}) else d)"
proof (cases "remdups xs")
  case Nil
  then show ?thesis by auto
next
  case (Cons a ys)
  then have s: "set xs = insert a (set ys)" by (metis list.simps(15) set_remdups)
  show ?thesis
  proof (cases ys)
    case Nil
    with s Cons show ?thesis by auto
  next
    case (Cons b zs)
    have "distinct (a # b # zs)" using \<open>remdups xs = a # ys\<close> Cons by (metis distinct_remdups)
    with s Cons have "\<nexists>v. set xs = {v}" by auto
    with Cons \<open>remdups xs = a # ys\<close> show ?thesis by simp
  qed
qed

lemma ti_unique_type_iff:
  assumes "t \<noteq> []"
  shows "ti_unique_type (make_type_index ts) op role = t \<longleftrightarrow>
    {te_normalized e | e. e \<in> set ts \<and> te_operation e = op \<and> te_role e = role \<and> te_normalized e \<noteq> []} = {t}"
proof -
  let ?xs = "filter (\<lambda>n. n \<noteq> []) (map te_normalized (ti_for_operation (make_type_index ts) op (Some role)))"
  have s: "set ?xs =
      {te_normalized e | e. e \<in> set ts \<and> te_operation e = op \<and> te_role e = role \<and> te_normalized e \<noteq> []}"
    by (auto simp: set_ti_for_operation)
  show ?thesis
    unfolding ti_unique_type_def unique_remdups s[symmetric] using assms
    by (cases "\<exists>v. set ?xs = {v}") (force simp del: set_filter set_map, simp del: set_filter set_map)
qed

section \<open>Properties\<close>

text \<open>
  The index answers a (non-empty) unique type exactly when the evidence for that operation
  and role names that type and no other.
\<close>

theorem unique_type_correct:
  assumes "t \<noteq> []"
  shows "ti_unique_type (make_type_index ts) op role = t \<longleftrightarrow>
    {te_normalized e | e. e \<in> set ts \<and> te_operation e = op \<and> te_role e = role \<and> te_normalized e \<noteq> []} = {t}"
  using assms by (rule ti_unique_type_iff)

theorem unique_type_correct_witness:
  "ti_unique_type (make_type_index []) ''o'' RECEIVER \<noteq> ''T''"
  using unique_type_correct[of "''T''" "[]" "''o''" RECEIVER] by simp

end
