(* ===== verification/CodeGraph.thy ===== *)
theory CodeGraph
  imports PyValue
begin

text \<open>
  \<open>graph/schema.py\<close>: the structural code graph that older rules read, its construction and
  its merge. Nodes are kept in insertion order by id, edges in a list, with the two adjacency
  tables the queries use.
\<close>

datatype node_type = FILE | MODULE | CLASS | FUNCTION_NODE | VARIABLE | IMPORT | ANNOTATION

datatype edge_type = CONTAINS_REL | CALLS_REL | IMPORTS_REL | INHERITS | IMPLEMENTS | REFERENCES_REL
  | RETURNS_REL | DECORATES | ANNOTATES

record code_node =
  cn_id :: string
  cn_type :: node_type
  cn_name :: string
  cn_file :: string
  cn_line_start :: int
  cn_line_end :: int
  cn_language :: string
  cn_properties :: attributes

record code_edge =
  ce_source :: string
  ce_target :: string
  ce_type :: edge_type
  ce_properties :: attributes

record code_graph =
  cg_nodes :: "(string, code_node) dict"
  cg_edges :: "code_edge list"
  cg_out :: "(string, code_edge list) dict"
  cg_in :: "(string, code_edge list) dict"
  cg_meta :: attributes

definition empty_graph :: "attributes \<Rightarrow> code_graph" where
  "empty_graph meta = \<lparr>cg_nodes = [], cg_edges = [], cg_out = [], cg_in = [], cg_meta = meta\<rparr>"

definition add_node :: "code_node \<Rightarrow> code_graph \<Rightarrow> code_graph" where
  "add_node n g = g\<lparr>cg_nodes := dict_set (cn_id n) n (cg_nodes g),
     cg_out := dict_setdefault (cn_id n) [] (cg_out g),
     cg_in := dict_setdefault (cn_id n) [] (cg_in g)\<rparr>"

definition add_edge :: "code_edge \<Rightarrow> code_graph \<Rightarrow> code_graph" where
  "add_edge e g = g\<lparr>cg_edges := cg_edges g @ [e],
     cg_out := dict_append (ce_source e) e (cg_out g),
     cg_in := dict_append (ce_target e) e (cg_in g)\<rparr>"

text \<open>The id sets behind \<open>get_callers\<close> and \<open>get_callees\<close> (Python iterates a set: no order).\<close>

definition caller_ids :: "code_graph \<Rightarrow> string \<Rightarrow> string set" where
  "caller_ids g n = {i \<in> set (map ce_source (filter (\<lambda>e. ce_type e = CALLS_REL) (dict_get_or [] (cg_in g) n))).
     dict_has (cg_nodes g) i}"

definition callee_ids :: "code_graph \<Rightarrow> string \<Rightarrow> string set" where
  "callee_ids g n = {i \<in> set (map ce_target (filter (\<lambda>e. ce_type e = CALLS_REL) (dict_get_or [] (cg_out g) n))).
     dict_has (cg_nodes g) i}"

definition find_by_name :: "code_graph \<Rightarrow> string \<Rightarrow> node_type option \<Rightarrow> code_node list" where
  "find_by_name g name ty =
     filter (\<lambda>n. contains_sub (lower name) (lower (cn_name n)) \<and> (ty = None \<or> ty = Some (cn_type n)))
       (dict_values (cg_nodes g))"

definition add_nodes :: "code_node list \<Rightarrow> code_graph \<Rightarrow> code_graph" where
  "add_nodes ns g = foldl (\<lambda>g n. add_node n g) g ns"

definition add_new_nodes :: "(string, code_node) dict \<Rightarrow> code_graph \<Rightarrow> code_graph" where
  "add_new_nodes d g =
     foldl (\<lambda>g (i, n). if dict_has (cg_nodes g) i then g else add_node n g) g d"

definition add_edges :: "code_edge list \<Rightarrow> code_graph \<Rightarrow> code_graph" where
  "add_edges es g = foldl (\<lambda>g e. add_edge e g) g es"

text \<open>\<open>CodeGraph.merge\<close>: nodes of the first graph win, all edges of both are kept.\<close>

definition graph_merge :: "code_graph \<Rightarrow> code_graph \<Rightarrow> code_graph" where
  "graph_merge a b =
     add_edges (cg_edges b)
       (add_new_nodes (cg_nodes b)
         (add_edges (cg_edges a)
           (add_nodes (dict_values (cg_nodes a))
             (empty_graph (dict_set ''merged_languages'' (PBool True) (cg_meta a))))))"

section \<open>The adjacency tables mirror the edge list\<close>

definition adjacency_ok :: "code_graph \<Rightarrow> bool" where
  "adjacency_ok g \<longleftrightarrow>
     (\<forall>i. dict_get_or [] (cg_out g) i = filter (\<lambda>e. ce_source e = i) (cg_edges g)) \<and>
     (\<forall>i. dict_get_or [] (cg_in g) i = filter (\<lambda>e. ce_target e = i) (cg_edges g))"

lemma dict_get_or_setdefault: "dict_get_or [] (dict_setdefault k [] d) i = dict_get_or [] d i"
  by (simp add: dict_get_or_get dict_get_setdefault split: option.splits)

lemma adjacency_empty: "adjacency_ok (empty_graph m)"
  by (simp add: adjacency_ok_def empty_graph_def)

lemma adjacency_add_node: "adjacency_ok g \<Longrightarrow> adjacency_ok (add_node n g)"
  by (simp add: adjacency_ok_def add_node_def dict_get_or_setdefault)

lemma adjacency_add_edge: "adjacency_ok g \<Longrightarrow> adjacency_ok (add_edge e g)"
  by (simp add: adjacency_ok_def add_edge_def)

lemma adjacency_add_nodes: "adjacency_ok g \<Longrightarrow> adjacency_ok (add_nodes ns g)"
  unfolding add_nodes_def by (erule foldl_preserves) (rule adjacency_add_node)

lemma adjacency_add_new_nodes: "adjacency_ok g \<Longrightarrow> adjacency_ok (add_new_nodes d g)"
  unfolding add_new_nodes_def
  by (erule foldl_preserves) (auto split: prod.splits intro: adjacency_add_node)

lemma adjacency_add_edges: "adjacency_ok g \<Longrightarrow> adjacency_ok (add_edges es g)"
  unfolding add_edges_def by (erule foldl_preserves) (rule adjacency_add_edge)

lemmas adjacency_intros = adjacency_empty adjacency_add_node adjacency_add_edge adjacency_add_nodes
  adjacency_add_new_nodes adjacency_add_edges

lemma adjacency_graph_merge: "adjacency_ok (graph_merge a b)"
  by (simp add: graph_merge_def adjacency_intros)

lemma edges_add_nodes [simp]: "cg_edges (add_nodes ns g) = cg_edges g"
  unfolding add_nodes_def by (induction ns arbitrary: g) (auto simp: add_node_def)

lemma edges_add_new_nodes [simp]: "cg_edges (add_new_nodes d g) = cg_edges g"
  unfolding add_new_nodes_def by (induction d arbitrary: g) (auto simp: add_node_def)

lemma edges_add_edges [simp]: "cg_edges (add_edges es g) = cg_edges g @ es"
  unfolding add_edges_def by (induction es arbitrary: g) (auto simp: add_edge_def)

lemma nodes_add_edges [simp]: "cg_nodes (add_edges es g) = cg_nodes g"
  unfolding add_edges_def by (induction es arbitrary: g) (auto simp: add_edge_def)

lemma edges_graph_merge: "cg_edges (graph_merge a b) = cg_edges a @ cg_edges b"
  by (simp add: graph_merge_def empty_graph_def)

definition keyed_by_id :: "code_graph \<Rightarrow> bool" where
  "keyed_by_id g \<longleftrightarrow> distinct (map fst (cg_nodes g)) \<and> (\<forall>(i, n) \<in> set (cg_nodes g). i = cn_id n)"

lemma get_add_nodes:
  "dict_get (cg_nodes (add_nodes ns g)) i =
     (case find (\<lambda>n. cn_id n = i) (rev ns) of None \<Rightarrow> dict_get (cg_nodes g) i | Some n \<Rightarrow> Some n)"
  unfolding add_nodes_def by (induction ns rule: rev_induct) (auto simp: add_node_def)

lemma get_add_new_nodes:
  assumes "\<forall>(i, n) \<in> set d. i = cn_id n"
  shows "dict_get (cg_nodes (add_new_nodes d g)) i =
     (case dict_get (cg_nodes g) i of None \<Rightarrow> dict_get d i | Some n \<Rightarrow> Some n)"
  using assms unfolding add_new_nodes_def
proof (induction d arbitrary: g)
  case (Cons p d)
  then show ?case
    by (cases p) (auto simp: add_node_def dict_has_iff dict_get_Cons split: option.splits)
qed (simp split: option.splits)

lemma find_rev_values:
  assumes "keyed_by_id g"
  shows "find (\<lambda>n. cn_id n = i) (rev (dict_values (cg_nodes g))) = dict_get (cg_nodes g) i"
proof (cases "dict_get (cg_nodes g) i")
  case None
  then have "i \<notin> fst ` set (cg_nodes g)" by (simp add: dict_get_def map_of_eq_None_iff)
  with assms have "find (\<lambda>n. cn_id n = i) (rev (dict_values (cg_nodes g))) = None"
    by (force simp: find_None_iff dict_values_def keyed_by_id_def)
  with None show ?thesis by simp
next
  case (Some n)
  then have n: "(i, n) \<in> set (cg_nodes g)" by (simp add: dict_get_def map_of_SomeD)
  with assms obtain m where m: "find (\<lambda>n. cn_id n = i) (rev (dict_values (cg_nodes g))) = Some m"
    by (cases "find (\<lambda>n. cn_id n = i) (rev (dict_values (cg_nodes g)))")
      (force simp: find_None_iff dict_values_def keyed_by_id_def)+
  then have "m \<in> snd ` set (cg_nodes g)" "cn_id m = i"
    by (auto simp: find_Some_iff dict_values_def simp del: set_rev) (metis length_map length_rev list.set_map nth_mem rev_map set_rev)
  with assms n have "(i, m) \<in> set (cg_nodes g)" by (auto simp: keyed_by_id_def)
  with assms n have "m = n" by (auto simp: keyed_by_id_def dest: eq_key_imp_eq_value)
  with m Some show ?thesis by simp
qed

lemma nodes_graph_merge:
  assumes "keyed_by_id a" "keyed_by_id b"
  shows "dict_get (cg_nodes (graph_merge a b)) i =
     (case dict_get (cg_nodes a) i of None \<Rightarrow> dict_get (cg_nodes b) i | Some n \<Rightarrow> Some n)"
  using assms(2) find_rev_values[OF assms(1)]
  by (auto simp: graph_merge_def get_add_new_nodes keyed_by_id_def get_add_nodes empty_graph_def
      split: option.splits)

section \<open>Properties\<close>

text \<open>
  Merging two graphs whose nodes sit under their ids keeps the first graph's node where both
  have one, keeps every edge of both in order, and leaves adjacency tables that mirror the edges.
\<close>

theorem graph_merge_correct:
  assumes "keyed_by_id a" "keyed_by_id b"
  shows "dict_get (cg_nodes (graph_merge a b)) i =
      (case dict_get (cg_nodes a) i of None \<Rightarrow> dict_get (cg_nodes b) i | Some n \<Rightarrow> Some n) \<and>
    cg_edges (graph_merge a b) = cg_edges a @ cg_edges b \<and> adjacency_ok (graph_merge a b)"
  using assms by (simp add: nodes_graph_merge edges_graph_merge adjacency_graph_merge)

definition sample_node :: "string \<Rightarrow> string \<Rightarrow> code_node" where
  "sample_node i name = \<lparr>cn_id = i, cn_type = FUNCTION_NODE, cn_name = name, cn_file = ''m.go'',
     cn_line_start = 1, cn_line_end = 2, cn_language = ''go'', cn_properties = []\<rparr>"

theorem graph_merge_correct_witness:
  "dict_get (cg_nodes (graph_merge (add_node (sample_node ''a'' ''old'') (empty_graph []))
      (add_nodes [sample_node ''a'' ''new'', sample_node ''b'' ''g''] (empty_graph [])))) ''a'' =
    Some (sample_node ''a'' ''old'')"
proof -
  let ?a = "add_node (sample_node ''a'' ''old'') (empty_graph [])"
  let ?b = "add_nodes [sample_node ''a'' ''new'', sample_node ''b'' ''g''] (empty_graph [])"
  have n: "cg_nodes ?a = [(''a'', sample_node ''a'' ''old'')]"
    "cg_nodes ?b = [(''a'', sample_node ''a'' ''new''), (''b'', sample_node ''b'' ''g'')]"
    by code_simp+
  then have "keyed_by_id ?a" "keyed_by_id ?b" by (simp_all add: keyed_by_id_def sample_node_def)
  from graph_merge_correct[OF this, of "''a''"] n(1) show ?thesis by (simp add: dict_get_def)
qed

end
