(* ===== verification/SemanticIr.thy ===== *)
theory SemanticIr
  imports Samples Contracts Capabilities Provenance TypeEvid CodeGraph
begin

text \<open>
  \<open>ir/schema.py\<close>: the intermediate representation that separates language frontends from
  analysers, its construction from a structural graph, capability queries, the assessment of
  a rule's requirements over several languages, and the merge of two representations. Reading a
  file's first bytes is the argument \<open>prefix\<close> (root directory and path to text).
\<close>

record source_unit =
  su_file :: string
  su_language :: string
  su_line_count :: int
  su_hash :: string
  su_role :: source_role
  su_role_reason :: string
  su_zone :: repository_zone
  su_zone_reason :: string

definition unit_to_dict :: "source_unit \<Rightarrow> pyval" where
  "unit_to_dict u = PDict
     [(''file_path'', PStr (su_file u)),
      (''language'', PStr (su_language u)),
      (''line_count'', PInt (su_line_count u)),
      (''content_hash'', PStr (su_hash u)),
      (''role'', PStr (source_role_value (su_role u))),
      (''role_reason'', PStr (su_role_reason u)),
      (''repository_zone'', PStr (repository_zone_value (su_zone u))),
      (''repository_zone_reason'', PStr (su_zone_reason u))]"

record analysis_assessment =
  as_status :: capability_level
  as_languages :: "string list"
  as_requirements :: "(string, capability_level) dict"
  as_by_language :: "(string, cap_assessment) dict"
  as_reason :: string

record semantic_ir =
  ir_graph :: code_graph
  ir_project :: string
  ir_languages :: "string list"
  ir_capabilities :: "(string, capability_set) dict"
  ir_units :: "(string, source_unit) dict"
  ir_facts :: "semantic_fact list"
  ir_operations :: "operation list"
  ir_edges :: "operation_edge list"
  ir_types :: "type_evidence list"
  ir_version :: string

section \<open>Construction from a graph\<close>

definition unit_of_node ::
  "(string \<Rightarrow> string \<Rightarrow> string option) \<Rightarrow> string \<Rightarrow> string option \<Rightarrow> code_node \<Rightarrow> source_unit" where
  "unit_of_node prefix base language n =
     (let content = (if base = [] then None else prefix base (cn_file n));
          (role, why) = classify_source_role (cn_file n) content;
          (zone, zone_why) = classify_repository_zone (cn_file n) content (Some role)
      in \<lparr>su_file = cn_file n,
          su_language = (if cn_language n \<noteq> [] then cn_language n
             else case language of None \<Rightarrow> ''unknown'' | Some l \<Rightarrow> if l = [] then ''unknown'' else l),
          su_line_count = 0, su_hash = [], su_role = role, su_role_reason = why,
          su_zone = zone, su_zone_reason = zone_why\<rparr>)"

fun units_of_nodes ::
  "(string \<Rightarrow> string \<Rightarrow> string option) \<Rightarrow> string \<Rightarrow> string option
   \<Rightarrow> (string, source_unit) dict \<Rightarrow> code_node list \<Rightarrow> (string, source_unit) dict" where
  "units_of_nodes prefix base language units [] = units"
| "units_of_nodes prefix base language units (n # ns) =
     units_of_nodes prefix base language
       (if cn_file n = [] \<or> dict_has units (cn_file n) then units
        else dict_set (cn_file n) (unit_of_node prefix base language n) units) ns"

text \<open>What a frontend that declares nothing is granted.\<close>

definition default_caps :: "string \<Rightarrow> capability_set" where
  "default_caps language =
     \<lparr>cs_language = language, cs_supported = [STRUCTURE, SOURCE_LOCATIONS, SYMBOLS],
      cs_partial = [(CALL_GRAPH, ''derived from structural graph; resolution may be heuristic'')]\<rparr>"

definition ir_from_graph ::
  "(string \<Rightarrow> string \<Rightarrow> string option) \<Rightarrow> code_graph \<Rightarrow> string option \<Rightarrow> capability_set option
   \<Rightarrow> string option \<Rightarrow> semantic_ir" where
  "ir_from_graph prefix g language caps project =
     (let base = (case project of
            Some p \<Rightarrow> if p \<noteq> [] then p else attr_str [] (cg_meta g) ''project_path''
          | None \<Rightarrow> attr_str [] (cg_meta g) ''project_path'');
          detected = filter (\<lambda>l. l \<noteq> []) (map cn_language (dict_values (cg_nodes g)));
          languages = sorted_set (detected @
            (case language of Some l \<Rightarrow> if l \<noteq> [] then [l] else [] | None \<Rightarrow> []));
          given = (case caps of None \<Rightarrow> [] | Some c \<Rightarrow> [(cs_language c, c)])
      in \<lparr>ir_graph = g, ir_project = base, ir_languages = languages,
          ir_capabilities = foldl (\<lambda>d l. dict_setdefault l (default_caps l) d) given languages,
          ir_units = units_of_nodes prefix base language [] (dict_values (cg_nodes g)),
          ir_facts = [], ir_operations = [], ir_edges = [], ir_types = [],
          ir_version = ''semantic-ir/v1''\<rparr>)"

section \<open>Capability queries\<close>

definition caps_of :: "semantic_ir \<Rightarrow> string \<Rightarrow> capability_set" where
  "caps_of ir l = dict_get_or (empty_caps l) (ir_capabilities ir) l"

definition ir_targets :: "semantic_ir \<Rightarrow> string option \<Rightarrow> string list" where
  "ir_targets ir language =
     (case language of None \<Rightarrow> ir_languages ir | Some l \<Rightarrow> if l = [] then ir_languages ir else [l])"

fun all_support :: "semantic_ir \<Rightarrow> cap_ref \<Rightarrow> string list \<Rightarrow> py_error + bool" where
  "all_support ir c [] = Inr True"
| "all_support ir c (l # ls) =
     (case caps_supports (caps_of ir l) c of Inl e \<Rightarrow> Inl e
      | Inr b \<Rightarrow> if b then all_support ir c ls else Inr False)"

definition ir_supports :: "semantic_ir \<Rightarrow> cap_ref \<Rightarrow> string option \<Rightarrow> py_error + bool" where
  "ir_supports ir c language =
     (let targets = ir_targets ir language
      in if targets = [] then Inr False else all_support ir c targets)"

fun missing_loop ::
  "semantic_ir \<Rightarrow> cap_ref list \<Rightarrow> (string, string list) dict \<Rightarrow> string list
   \<Rightarrow> py_error + (string, string list) dict" where
  "missing_loop ir required acc [] = Inr acc"
| "missing_loop ir required acc (l # ls) =
     (case caps_missing (caps_of ir l) required of Inl e \<Rightarrow> Inl e
      | Inr ms \<Rightarrow> missing_loop ir required (if ms = [] then acc else dict_set l ms acc) ls)"

definition ir_missing ::
  "semantic_ir \<Rightarrow> cap_ref list \<Rightarrow> string option \<Rightarrow> py_error + (string, string list) dict" where
  "ir_missing ir required language = missing_loop ir required [] (ir_targets ir language)"

section \<open>Assessment of a rule's requirements\<close>

fun normalize_requirements ::
  "(string, capability_level) dict \<Rightarrow> (cap_ref \<times> level_ref) list
   \<Rightarrow> py_error + (string, capability_level) dict" where
  "normalize_requirements acc [] = Inr acc"
| "normalize_requirements acc ((c, m) # rest) =
     (case resolve_level m of Inl e \<Rightarrow> Inl e
      | Inr l \<Rightarrow> normalize_requirements (dict_set (cap_ref_text c) l acc) rest)"

definition level_reasons :: "string \<Rightarrow> cap_assessment \<Rightarrow> string list" where
  "level_reasons l a =
     (case ca_status a of
        PARTIAL \<Rightarrow> map (\<lambda>(c, d). l @ ''.'' @ c @ '': '' @ cd_reason d)
          (filter (\<lambda>(c, d). cd_reason d \<noteq> []) (ca_capabilities a))
      | UNSUPPORTED \<Rightarrow> [l @ '': required semantic capability is unavailable'']
      | UNKNOWN \<Rightarrow> [l @ '': rule declares no semantic capability requirements'']
      | FULL \<Rightarrow> [])"

fun assess_languages ::
  "semantic_ir \<Rightarrow> (string, capability_level) dict \<Rightarrow> capability_level
   \<Rightarrow> (string, cap_assessment) dict \<Rightarrow> string list \<Rightarrow> string list
   \<Rightarrow> py_error + (capability_level \<times> (string, cap_assessment) dict \<times> string list)" where
  "assess_languages ir reqs overall by_language reasons [] = Inr (overall, by_language, reasons)"
| "assess_languages ir reqs overall by_language reasons (l # ls) =
     (case caps_assess (caps_of ir l) (map (\<lambda>(c, m). (CapName c, LevelEnum m)) reqs) of
        Inl e \<Rightarrow> Inl e
      | Inr a \<Rightarrow> assess_languages ir reqs
          (if level_rank (ca_status a) < level_rank overall then ca_status a else overall)
          (dict_set l a by_language) (reasons @ level_reasons l a) ls)"

text \<open>\<open>languages or self.languages\<close>: an empty or missing applicability set means every language.\<close>

definition assess_targets :: "semantic_ir \<Rightarrow> string list option \<Rightarrow> string list" where
  "assess_targets ir languages =
     sorted_set (case languages of None \<Rightarrow> ir_languages ir
       | Some ls \<Rightarrow> if ls = [] then ir_languages ir else ls)"

definition assess_requirements ::
  "semantic_ir \<Rightarrow> (cap_ref \<times> level_ref) list \<Rightarrow> string list option \<Rightarrow> py_error + analysis_assessment" where
  "assess_requirements ir required languages =
     (let targets = assess_targets ir languages in
      case normalize_requirements [] required of Inl e \<Rightarrow> Inl e
      | Inr reqs \<Rightarrow>
          (if targets = []
           then Inr \<lparr>as_status = UNSUPPORTED, as_languages = [], as_requirements = reqs,
                  as_by_language = [], as_reason = ''no applicable frontend language''\<rparr>
           else (case assess_languages ir reqs FULL [] [] targets of Inl e \<Rightarrow> Inl e
             | Inr (overall, by_language, reasons) \<Rightarrow>
                 Inr \<lparr>as_status = overall, as_languages = targets, as_requirements = reqs,
                   as_by_language = by_language, as_reason = join ''; '' (dedup reasons)\<rparr>)))"

section \<open>Source units and facts\<close>

definition source_units_for_roles :: "semantic_ir \<Rightarrow> source_role list option \<Rightarrow> source_unit list" where
  "source_units_for_roles ir roles =
     (let units = sort_key su_file (dict_values (ir_units ir)) in
      case roles of None \<Rightarrow> units | Some rs \<Rightarrow> filter (\<lambda>u. su_role u \<in> set rs) units)"

definition add_fact :: "semantic_fact \<Rightarrow> semantic_ir \<Rightarrow> semantic_ir" where
  "add_fact f ir = ir\<lparr>ir_facts := ir_facts ir @ [f]\<rparr>"

section \<open>Merge\<close>

definition edge_key :: "operation_edge \<Rightarrow> string \<times> string \<times> string \<times> string" where
  "edge_key e =
     (oe_source e, oe_target e, edge_kind_value (oe_kind e), json_attributes (oe_attributes e))"

text \<open>The loop over the other side's items with the set of known keys.\<close>

fun merge_loop :: "('a \<Rightarrow> 'k) \<Rightarrow> 'k list \<Rightarrow> 'a list \<Rightarrow> 'a list \<Rightarrow> 'a list" where
  "merge_loop key known acc [] = acc"
| "merge_loop key known acc (y # ys) =
     (if key y \<in> set known then merge_loop key known acc ys
      else merge_loop key (key y # known) (acc @ [y]) ys)"

definition merge_by :: "('a \<Rightarrow> 'k) \<Rightarrow> 'a list \<Rightarrow> 'a list \<Rightarrow> 'a list" where
  "merge_by key xs ys = merge_loop key (map key xs) xs ys"

definition contract_schema_version :: string where
  "contract_schema_version = ''semantic-ir/contracts/v1''"

definition contract_meta :: "operation list \<Rightarrow> pyval" where
  "contract_meta ops =
     (let errors = validate_semantic_ir ops in PDict
        [(''version'', PStr contract_schema_version),
         (''valid'', PBool (errors = [])),
         (''errors'', PList (map PStr errors))])"

definition merged_meta :: "semantic_ir \<Rightarrow> string list \<Rightarrow> operation list \<Rightarrow> attributes \<Rightarrow> attributes" where
  "merged_meta ir languages ops m =
     dict_set ''semantic_contract'' (contract_meta ops)
       (dict_set ''languages'' (PList (map PStr languages))
         (dict_set ''semantic_ir_version'' (PStr (ir_version ir)) m))"

definition ir_merge :: "semantic_ir \<Rightarrow> semantic_ir \<Rightarrow> semantic_ir" where
  "ir_merge a b =
     (let languages = sorted_set (ir_languages a @ ir_languages b);
          operations = merge_by op_id (ir_operations a) (ir_operations b);
          graph = graph_merge (ir_graph a) (ir_graph b)
      in \<lparr>ir_graph = graph\<lparr>cg_meta := merged_meta a languages operations (cg_meta graph)\<rparr>,
          ir_project = (if ir_project a \<noteq> [] then ir_project a else ir_project b),
          ir_languages = languages,
          ir_capabilities = dict_update (ir_capabilities a) (ir_capabilities b),
          ir_units = dict_update (ir_units a) (ir_units b),
          ir_facts = merge_by fact_id (ir_facts a) (ir_facts b),
          ir_operations = operations,
          ir_edges = merge_by edge_key (ir_edges a) (ir_edges b),
          ir_types = merge_by te_id (ir_types a) (ir_types b),
          ir_version = ir_version a\<rparr>)"

section \<open>The keyed merge\<close>

text \<open>What \<open>merge\<close> relies on for facts, operations, edges and type evidence alike.\<close>

locale keyed_merge =
  fixes key :: "'a \<Rightarrow> 'k" and merge :: "'a list \<Rightarrow> 'a list \<Rightarrow> 'a list"
  assumes merge_extends: "\<exists>zs. merge xs ys = xs @ zs \<and> set zs \<subseteq> set ys"
    and merge_keys: "key ` set (merge xs ys) = key ` set xs \<union> key ` set ys"
    and merge_distinct: "distinct (map key xs) \<Longrightarrow> distinct (map key (merge xs ys))"
begin

lemma merge_set: "set xs \<subseteq> set (merge xs ys)" "set (merge xs ys) \<subseteq> set xs \<union> set ys"
  using merge_extends[of xs ys] by auto

lemma merge_absorbs:
  assumes "distinct (map key xs)" "key ` set ys \<subseteq> key ` set xs"
  shows "merge xs ys = xs"
proof -
  obtain zs where zs: "merge xs ys = xs @ zs" "set zs \<subseteq> set ys"
    using merge_extends by blast
  have "key ` set zs \<subseteq> key ` set xs" using zs assms(2) by auto
  moreover have "key ` set zs \<inter> key ` set xs = {}"
    using merge_distinct[OF assms(1), of ys] zs(1) by auto
  ultimately have "key ` set zs = {}"
    using Int_absorb2[of "key ` set zs" "key ` set xs"] by simp
  then have "zs = []" by simp
  with zs show ?thesis by simp
qed

text \<open>The side merged into wins: a key of it keeps its item.\<close>

lemma merge_keeps_left:
  assumes "distinct (map key xs)" "x \<in> set xs" "z \<in> set (merge xs ys)" "key z = key x"
  shows "z = x"
proof -
  have "x \<in> set (merge xs ys)" using assms(2) merge_set(1) by blast
  with assms(3,4) merge_distinct[OF assms(1), of ys] show ?thesis
    by (metis distinct_map inj_onD)
qed

lemma merge_empty: "merge xs [] = xs"
  using merge_extends[of xs "[]"] by auto

end

lemma merge_loop_eq: "merge_loop key known acc ys = acc @ dedup_by key known ys"
  by (induction key known acc ys rule: merge_loop.induct) auto

lemma merge_by_eq: "merge_by key xs ys = xs @ dedup_by key (map key xs) ys"
  by (simp add: merge_by_def merge_loop_eq)

lemma keys_merge_by: "key ` set (merge_by key xs ys) = key ` set xs \<union> key ` set ys"
  using keys_dedup_by[of key "map key xs" ys] by (auto simp: merge_by_eq image_Un)

lemma distinct_merge_by:
  assumes "distinct (map key xs)"
  shows "distinct (map key (merge_by key xs ys))"
  using assms keys_dedup_by[of key "map key xs" ys] distinct_dedup_by[of key "map key xs" ys]
  by (auto simp: merge_by_eq)

lemma keyed_merge_merge_by: "keyed_merge key (merge_by key)"
proof
  show "\<exists>zs. merge_by key xs ys = xs @ zs \<and> set zs \<subseteq> set ys" for xs ys
    by (auto simp: merge_by_eq dest: subsetD[OF set_dedup_by_subset])
qed (rule keys_merge_by, erule distinct_merge_by)

interpretation fact_merge: keyed_merge fact_id "merge_by fact_id"
  by (rule keyed_merge_merge_by)

interpretation op_merge: keyed_merge op_id "merge_by op_id"
  by (rule keyed_merge_merge_by)

interpretation edge_merge: keyed_merge edge_key "merge_by edge_key"
  by (rule keyed_merge_merge_by)

interpretation type_merge: keyed_merge te_id "merge_by te_id"
  by (rule keyed_merge_merge_by)

lemmas ir_merge_fields = ir_merge_def Let_def

lemma validate_semantic_ir_Nil: "validate_semantic_ir ops = [] \<longleftrightarrow> (\<forall>p \<in> set ops. contract_ok p)"
  by (simp add: validate_semantic_ir_def validate_operation_Nil)

section \<open>The assessment is the weakest level\<close>

lemma normalize_requirements_enum:
  "distinct (map fst acc @ map (capability_value \<circ> fst) reqs) \<Longrightarrow>
   normalize_requirements acc (enum_reqs reqs) =
     Inr (acc @ map (\<lambda>(c, m). (capability_value c, m)) reqs)"
proof (induction reqs arbitrary: acc)
  case (Cons r reqs)
  obtain c m where r: "r = (c, m)" by (cases r)
  have "dict_set (capability_value c) m acc = acc @ [(capability_value c, m)]"
    using Cons.prems by (induction acc) (auto simp: r dict_set_def)
  with Cons show ?case by (auto simp: r enum_reqs_def)
qed (simp add: enum_reqs_def)

text \<open>What one language gets: \<open>UNKNOWN\<close> without requirements, else the weakest of them.\<close>

definition language_level :: "capability_set \<Rightarrow> (capability \<times> capability_level) list \<Rightarrow> capability_level" where
  "language_level s reqs =
     (if reqs = [] then UNKNOWN else foldl min FULL (requirement_levels s reqs))"

lemma assess_loop_names:
  "assess_loop s overall caps (map (\<lambda>(c, m). (CapName (capability_value c), LevelEnum m)) reqs) =
   assess_loop s overall caps (enum_reqs reqs)"
  by (induction reqs arbitrary: overall caps) (auto simp: enum_reqs_def Let_def)

lemma caps_assess_level:
  "\<exists>a. caps_assess s (map (\<lambda>(c, m). (CapName (capability_value c), LevelEnum m)) reqs) = Inr a \<and>
       ca_status a = language_level s reqs"
  using assess_loop_status[of s FULL "[]" reqs]
  by (auto simp: caps_assess_def assess_loop_names language_level_def)

lemma assess_languages_level:
  "\<exists>bl rs. assess_languages ir (map (\<lambda>(c, m). (capability_value c, m)) reqs) overall by_language reasons ls =
     Inr (foldl min overall (map (\<lambda>l. language_level (caps_of ir l) reqs) ls), bl, rs)"
proof (induction ls arbitrary: overall by_language reasons)
  case (Cons l ls)
  obtain a where "caps_assess (caps_of ir l)
      (map (\<lambda>(c, m). (CapName (capability_value c), LevelEnum m)) reqs) = Inr a"
    "ca_status a = language_level (caps_of ir l) reqs"
    using caps_assess_level by blast
  moreover have "(if level_rank (language_level (caps_of ir l) reqs) < level_rank overall
      then language_level (caps_of ir l) reqs else overall) = min overall (language_level (caps_of ir l) reqs)"
    using min_level_if by (simp add: min.commute)
  ultimately show ?case
    using Cons[of "min overall (language_level (caps_of ir l) reqs)" "dict_set l a by_language"
        "reasons @ level_reasons l a"]
    by (cases "level_rank (language_level (caps_of ir l) reqs) < level_rank overall")
      (simp_all add: case_prod_unfold o_def)
qed simp

lemma assess_requirements_level:
  assumes "distinct (map fst reqs)" "assess_targets ir languages \<noteq> []"
  shows "\<exists>a. assess_requirements ir (enum_reqs reqs) languages = Inr a \<and>
     as_languages a = assess_targets ir languages \<and>
     as_status a = foldl min FULL
       (map (\<lambda>l. language_level (caps_of ir l) reqs) (assess_targets ir languages))"
proof -
  have "distinct (map (capability_value \<circ> fst) reqs)"
    using assms(1) by (auto simp: distinct_map inj_on_def capability_value_inj)
  then have "normalize_requirements [] (enum_reqs reqs) =
      Inr (map (\<lambda>(c, m). (capability_value c, m)) reqs)"
    using normalize_requirements_enum[of "[]" reqs] by simp
  moreover obtain bl rs where "assess_languages ir (map (\<lambda>(c, m). (capability_value c, m)) reqs)
      FULL [] [] (assess_targets ir languages) =
      Inr (foldl min FULL (map (\<lambda>l. language_level (caps_of ir l) reqs) (assess_targets ir languages)), bl, rs)"
    using assess_languages_level by blast
  ultimately show ?thesis using assms(2) by (simp add: assess_requirements_def Let_def)
qed

lemma foldl_min_FULL_iff: "foldl min FULL ls = FULL \<longleftrightarrow> (\<forall>l \<in> set ls. l = FULL)"
proof
  assume full: "foldl min FULL ls = FULL"
  show "\<forall>l \<in> set ls. l = FULL"
  proof
    fix l assume "l \<in> set ls"
    from foldl_min_le(2)[OF this, of FULL] full have "FULL \<le> l" by simp
    then show "l = FULL" by (cases l) (auto simp: less_eq_capability_level_def)
  qed
next
  assume "\<forall>l \<in> set ls. l = FULL"
  with foldl_min_in[of FULL ls] show "foldl min FULL ls = FULL" by auto
qed

lemma language_level_FULL:
  "language_level s reqs = FULL \<longleftrightarrow> reqs \<noteq> [] \<and> (\<forall>(c, m) \<in> set reqs. c \<in> set (cs_supported s))"
proof -
  have "caps_level s c = FULL \<longleftrightarrow> c \<in> set (cs_supported s)" for c
    by (simp add: caps_level_def)
  then show ?thesis
    by (auto simp: language_level_def foldl_min_FULL_iff requirement_levels_def requirement_status_cases)
qed

section \<open>Properties\<close>

definition sample_ir :: "operation list \<Rightarrow> operation_edge list \<Rightarrow> semantic_ir" where
  "sample_ir ops es =
     \<lparr>ir_graph = empty_graph [], ir_project = [], ir_languages = [''go''],
      ir_capabilities = [(''go'', \<lparr>cs_language = ''go'', cs_supported = [CONTROL_FLOW],
         cs_partial = [(TYPE_INFO, ''local only'')]\<rparr>)],
      ir_units = [], ir_facts = [], ir_operations = ops, ir_edges = es, ir_types = [],
      ir_version = ''semantic-ir/v1''\<rparr>"

text \<open>
  The operations of a merge are the first representation's operations, unchanged and in
  place, followed by those of the second whose id is new: the ids are the union and stay distinct.
\<close>

theorem merge_operations_keyed:
  assumes "distinct (map op_id (ir_operations a))"
  shows "take (length (ir_operations a)) (ir_operations (ir_merge a b)) = ir_operations a \<and>
    op_id ` set (ir_operations (ir_merge a b)) = op_id ` set (ir_operations a) \<union> op_id ` set (ir_operations b) \<and>
    distinct (map op_id (ir_operations (ir_merge a b)))"
proof -
  have ops: "ir_operations (ir_merge a b) = merge_by op_id (ir_operations a) (ir_operations b)"
    by (simp add: ir_merge_fields)
  obtain zs where "merge_by op_id (ir_operations a) (ir_operations b) = ir_operations a @ zs"
    using op_merge.merge_extends[of "ir_operations a" "ir_operations b"] by blast
  then have "take (length (ir_operations a)) (merge_by op_id (ir_operations a) (ir_operations b)) = ir_operations a"
    by simp
  with op_merge.merge_keys[of "ir_operations a" "ir_operations b"]
    op_merge.merge_distinct[OF assms, of "ir_operations b"] show ?thesis
    unfolding ops by blast
qed

theorem merge_operations_keyed_witness:
  "op_id ` set (ir_operations (ir_merge (sample_ir diamond_ops []) (sample_ir diamond_ops []))) =
     op_id ` set diamond_ops \<union> op_id ` set diamond_ops"
  using merge_operations_keyed[of "sample_ir diamond_ops []" "sample_ir diamond_ops []"]
  by (simp add: sample_ir_def diamond_ops_def sample_op_def)

text \<open>
  A merge records the verdict of the contract validator on the merged operations: the flag
  \<open>valid\<close> holds exactly when every merged operation satisfies the declarative contract.
\<close>

theorem merge_reports_contract:
  "dict_get (cg_meta (ir_graph (ir_merge a b))) ''semantic_contract'' = Some (PDict
     [(''version'', PStr contract_schema_version),
      (''valid'', PBool (list_all contract_ok (ir_operations (ir_merge a b)))),
      (''errors'', PList (map PStr (validate_semantic_ir (ir_operations (ir_merge a b)))))])"
  by (simp add: ir_merge_fields merged_meta_def contract_meta_def validate_semantic_ir_Nil list_all_iff)

text \<open>
  The assessment of a rule over several languages is the weakest level any requirement
  reaches in any of them, and it is full exactly when there are requirements and every one is fully
  supported in every language.
\<close>

theorem assess_weakest:
  assumes "distinct (map fst reqs)" "assess_targets ir languages \<noteq> []"
  shows "\<exists>a. assess_requirements ir (enum_reqs reqs) languages = Inr a \<and>
    as_languages a = assess_targets ir languages \<and>
    as_status a = foldl min FULL
      (map (\<lambda>l. language_level (caps_of ir l) reqs) (assess_targets ir languages)) \<and>
    (as_status a = FULL \<longleftrightarrow> (\<forall>l \<in> set (assess_targets ir languages).
       reqs \<noteq> [] \<and> (\<forall>(c, m) \<in> set reqs. c \<in> set (cs_supported (caps_of ir l)))))"
  using assess_requirements_level[OF assms] by (auto simp: foldl_min_FULL_iff language_level_FULL)

theorem assess_weakest_witness:
  "\<exists>a. assess_requirements (sample_ir [] []) (enum_reqs [(TYPE_INFO, PARTIAL)]) None = Inr a \<and>
     as_status a \<noteq> FULL"
proof -
  have t: "assess_targets (sample_ir [] []) None = [''go'']" by code_simp
  have s: "TYPE_INFO \<notin> set (cs_supported (caps_of (sample_ir [] []) ''go''))" by code_simp
  from assess_weakest[of "[(TYPE_INFO, PARTIAL)]" "sample_ir [] []" None] t s show ?thesis by force
qed

text \<open>
  An empty applicability set is not told apart from a missing one: a rule that applies to
  none of the languages is assessed against all of them.
\<close>

theorem assess_empty_applicability:
  "assess_requirements ir required (Some []) = assess_requirements ir required None"
  by (simp add: assess_requirements_def assess_targets_def)

end
