(* ===== verification/Worklist.thy ===== *)
theory Worklist
  imports Prelude
begin

text \<open>
  The breadth-first searches of the analysers share one contract: pop the queue, ignore what was
  visited, report a hit, otherwise enqueue the successors. The locale states that contract and
  proves, once, what such a search answers: whether a hit is reachable from the queue.
\<close>

definition next_rel :: "('a \<Rightarrow> 'a list) \<Rightarrow> ('a \<times> 'a) set" where
  "next_rel nexts = {(x, y). y \<in> set (nexts x)}"

lemma next_rel_iff [simp]: "(x, y) \<in> next_rel nexts \<longleftrightarrow> y \<in> set (nexts x)"
  by (simp add: next_rel_def)

locale worklist_search =
  fixes search :: "'a list \<Rightarrow> 'a list \<Rightarrow> bool"
    and nexts :: "'a \<Rightarrow> 'a list"
    and hit :: "'a \<Rightarrow> bool"
  assumes search_Nil: "\<not> search [] V"
    and search_hit: "hit x \<Longrightarrow> x \<notin> set V \<Longrightarrow> search (x # Q) V"
    and search_seen: "\<not> hit x \<Longrightarrow> x \<in> set V \<Longrightarrow> search (x # Q) V = search Q V"
    and search_step: "\<not> hit x \<Longrightarrow> x \<notin> set V \<Longrightarrow>
      \<exists>R V'. search (x # Q) V = search R V' \<and> set R \<subseteq> set Q \<union> set (nexts x) \<and>
        set Q \<union> (set (nexts x) - set (x # V)) \<subseteq> set R \<and> (nexts x = [] \<longrightarrow> length R \<le> length Q) \<and>
        (V' = x # V \<or> V' = V \<and> nexts x = [])"
    and finite_nexts: "finite {x. nexts x \<noteq> []}"
begin

definition settled :: "'a list \<Rightarrow> 'a list \<Rightarrow> bool" where
  "settled Q V \<longleftrightarrow> (\<forall>v \<in> set V. \<not> hit v \<and>
     (\<forall>y \<in> set (nexts v). y \<in> set V \<or> y \<in> set Q \<or> \<not> hit y \<and> nexts y = []))"

definition can_hit :: "'a \<Rightarrow> bool" where
  "can_hit x \<longleftrightarrow> (\<exists>y. (x, y) \<in> (next_rel nexts)\<^sup>* \<and> hit y)"

lemma can_hit_step: "can_hit x \<longleftrightarrow> hit x \<or> (\<exists>y \<in> set (nexts x). can_hit y)"
  unfolding can_hit_def
  by (auto elim: converse_rtranclE) (meson converse_rtrancl_into_rtrancl next_rel_iff)

text \<open>A settled region without queued hits has none behind it.\<close>

lemma settled_can_hit:
  assumes "settled Q V" "v \<in> set V" "can_hit v"
  shows "\<exists>x \<in> set Q. can_hit x"
proof -
  from assms(3) obtain y where "(v, y) \<in> (next_rel nexts)\<^sup>*" "hit y"
    by (auto simp: can_hit_def)
  then show ?thesis using assms(2)
  proof (induction rule: converse_rtrancl_induct)
    case base
    with assms(1) show ?case by (auto simp: settled_def)
  next
    case (step v z)
    then consider "z \<in> set V" | "z \<in> set Q" | "\<not> hit z" "nexts z = []"
      using assms(1) by (force simp: settled_def)
    then show ?case
    proof cases
      case 2
      with step show ?thesis by (auto simp: can_hit_def)
    next
      case 3
      with step(2) \<open>hit y\<close> show ?thesis by (auto elim: converse_rtranclE)
    qed (use step in blast)
  qed
qed

lemma search_settled:
  "settled Q V \<Longrightarrow> search Q V \<longleftrightarrow> (\<exists>x \<in> set Q. can_hit x)"
proof (induction "(card ({x. nexts x \<noteq> []} - set V), length Q)" arbitrary: Q V
    rule: wf_induct_rule[OF wf_lex_prod[OF wf_less_than wf_less_than]])
  case 1
  show ?case
  proof (cases Q)
    case Nil
    then show ?thesis by (simp add: search_Nil)
  next
    case (Cons x R)
    consider "hit x" | "\<not> hit x" "x \<in> set V" | "\<not> hit x" "x \<notin> set V" by blast
    then show ?thesis
    proof cases
      case 1
      with \<open>settled Q V\<close> have "x \<notin> set V" by (auto simp: settled_def)
      with 1 Cons show ?thesis by (auto simp: search_hit can_hit_def)
    next
      case 2
      from 2 Cons \<open>settled Q V\<close> have s: "settled R V" by (auto simp: settled_def)
      have "search R V \<longleftrightarrow> (\<exists>x \<in> set R. can_hit x)"
        using 1(1) Cons s by simp
      with 2 Cons settled_can_hit[OF s 2(2)] show ?thesis by (auto simp: search_seen)
    next
      case 3
      from search_step[OF 3, of R] obtain R' V' where R': "search (x # R) V = search R' V'"
        "set R' \<subseteq> set R \<union> set (nexts x)" "set R \<union> (set (nexts x) - set (x # V)) \<subseteq> set R'"
        "nexts x = [] \<longrightarrow> length R' \<le> length R" "V' = x # V \<or> V' = V \<and> nexts x = []" by blast
      have s: "settled R' V'"
        using R'(3,5) \<open>settled Q V\<close> 3 Cons unfolding settled_def by auto blast+
      have less: "((card ({x. nexts x \<noteq> []} - set V'), length R'),
          (card ({x. nexts x \<noteq> []} - set V), length Q)) \<in> less_than <*lex*> less_than"
      proof (cases "nexts x = []")
        case True
        then have "{x. nexts x \<noteq> []} - set V' = {x. nexts x \<noteq> []} - set V" using R'(5) by auto
        with True R'(4) Cons show ?thesis by simp
      next
        case False
        then have "{x. nexts x \<noteq> []} - set V' \<subset> {x. nexts x \<noteq> []} - set V" using R'(5) 3 by auto
        then show ?thesis using finite_nexts by (simp add: psubset_card_mono)
      qed
      have "search R' V' \<longleftrightarrow> (\<exists>x \<in> set R'. can_hit x)"
        using 1(1)[OF less] s by blast
      moreover have "(\<exists>x \<in> set R'. can_hit x) \<longleftrightarrow> (\<exists>x \<in> set Q. can_hit x)"
      proof
        assume "\<exists>x \<in> set R'. can_hit x"
        with R'(2) Cons show "\<exists>x \<in> set Q. can_hit x" by (auto simp: can_hit_step[of x])
      next
        assume "\<exists>x \<in> set Q. can_hit x"
        then consider "can_hit x" | "\<exists>x \<in> set R. can_hit x" using Cons by auto
        then show "\<exists>x \<in> set R'. can_hit x"
        proof cases
          case 1
          then obtain y where y: "y \<in> set (nexts x)" "can_hit y" using 3 can_hit_step by blast
          then have "V' = x # V" using R'(5) by auto
          show ?thesis
          proof (cases "y \<in> set (x # V)")
            case True
            with s y(2) \<open>V' = x # V\<close> show ?thesis by (metis settled_can_hit)
          next
            case False
            with y R'(3) show ?thesis by auto
          qed
        qed (use R'(3) in auto)
      qed
      ultimately show ?thesis using R'(1) Cons by simp
    qed
  qed
qed

theorem search_iff: "search Q [] \<longleftrightarrow> (\<exists>x \<in> set Q. can_hit x)"
  by (rule search_settled) (simp add: settled_def)

end

end
