(* ===== verification/ControlFlow.thy ===== *)
theory ControlFlow
  imports SemanticIr Worklist "HOL-Library.While_Combinator"
begin

text \<open>
  \<open>analysis/control_flow.py\<close>: the intraprocedural control-flow graph with its reachability,
  dominance and branch-control queries. The two memo tables are part of the state; each query
  comes as its computation and, where the code caches, as the operation that looks the answer up
  first and returns the graph with the table extended.
\<close>

definition control_flow_kinds :: "edge_kind list" where
  "control_flow_kinds = [NEXT, TRUE_BRANCH, FALSE_BRANCH, BODY, LOOP_BACK, LOOP_EXIT]"

record arc =
  arc_source :: string
  arc_target :: string
  arc_kind :: edge_kind

record cfg =
  cf_ops :: "(string, operation) dict"
  cf_succ :: "(string, arc list) dict"
  cf_pred :: "(string, arc list) dict"
  cf_reach_cache :: "(string \<times> string, bool) dict"
  cf_dom_cache :: "(string, (string, string list) dict) dict"

section \<open>Construction\<close>

definition scope_of :: "(string, operation) dict \<Rightarrow> string \<Rightarrow> string option" where
  "scope_of ops i = map_option op_scope (dict_get ops i)"

definition cfg_accepts :: "(string, operation) dict \<Rightarrow> operation_edge \<Rightarrow> bool" where
  "cfg_accepts ops e =
     (oe_kind e \<in> set control_flow_kinds \<and>
      (case (dict_get ops (oe_source e), dict_get ops (oe_target e)) of
         (Some s, Some t) \<Rightarrow> op_scope s = op_scope t
       | _ \<Rightarrow> False))"

definition arc_of :: "operation_edge \<Rightarrow> arc" where
  "arc_of e = \<lparr>arc_source = oe_source e, arc_target = oe_target e, arc_kind = oe_kind e\<rparr>"

definition arc_order :: "arc \<Rightarrow> string \<times> string \<times> string" where
  "arc_order a = (edge_kind_value (arc_kind a), arc_target a, arc_source a)"

fun add_arcs ::
  "(string, operation) dict \<Rightarrow> (string, arc list) dict \<times> (string, arc list) dict \<Rightarrow> operation_edge list
   \<Rightarrow> (string, arc list) dict \<times> (string, arc list) dict" where
  "add_arcs ops (sc, pd) [] = (sc, pd)"
| "add_arcs ops (sc, pd) (e # es) =
     add_arcs ops
       (if cfg_accepts ops e
        then (dict_append (oe_source e) (arc_of e) sc, dict_append (oe_target e) (arc_of e) pd)
        else (sc, pd)) es"

definition sort_arcs :: "(string, arc list) dict \<Rightarrow> (string, arc list) dict" where
  "sort_arcs d = map (\<lambda>(k, arcs). (k, sort_key arc_order arcs)) d"

definition make_cfg :: "operation list \<Rightarrow> operation_edge list \<Rightarrow> cfg" where
  "make_cfg operations edges =
     (let ops = ops_by_id operations; (sc, pd) = add_arcs ops ([], []) edges
      in \<lparr>cf_ops = ops, cf_succ = sort_arcs sc, cf_pred = sort_arcs pd,
          cf_reach_cache = [], cf_dom_cache = []\<rparr>)"

text \<open>The language filter every analyser applies; no languages means all.\<close>

definition language_allowed :: "string list \<Rightarrow> operation \<Rightarrow> bool" where
  "language_allowed languages p =
     (languages = [] \<or> lower (op_language p) \<in> set (map lower languages))"

definition cfg_from_ir :: "semantic_ir \<Rightarrow> string list \<Rightarrow> cfg" where
  "cfg_from_ir ir languages =
     (let operations = filter (language_allowed languages) (ir_operations ir);
          ids = map op_id operations;
          edges = filter (\<lambda>e. oe_source e \<in> set ids \<and> oe_target e \<in> set ids) (ir_edges ir)
      in make_cfg operations edges)"

section \<open>Arcs\<close>

definition succ_arcs :: "cfg \<Rightarrow> string \<Rightarrow> arc list" where
  "succ_arcs g i = dict_get_or [] (cf_succ g) i"

definition pred_arcs :: "cfg \<Rightarrow> string \<Rightarrow> arc list" where
  "pred_arcs g i = dict_get_or [] (cf_pred g) i"

text \<open>\<open>successors(operation_id, kinds)\<close>; an empty filter admits every kind.\<close>

definition cfg_successors :: "cfg \<Rightarrow> string \<Rightarrow> edge_kind list \<Rightarrow> arc list" where
  "cfg_successors g i kinds = filter (\<lambda>a. kinds = [] \<or> arc_kind a \<in> set kinds) (succ_arcs g i)"

definition succ_ids :: "cfg \<Rightarrow> string \<Rightarrow> string list" where
  "succ_ids g i = map arc_target (succ_arcs g i)"

definition same_scope :: "cfg \<Rightarrow> string \<Rightarrow> string \<Rightarrow> bool" where
  "same_scope g i j =
     (case (dict_get (cf_ops g) i, dict_get (cf_ops g) j) of
        (Some p, Some q) \<Rightarrow> op_scope p = op_scope q | _ \<Rightarrow> False)"

lemma succ_arcs_finite: "finite {x. f (succ_arcs g x) \<noteq> []}" if "f [] = []"
proof (rule finite_subset)
  show "{x. f (succ_arcs g x) \<noteq> []} \<subseteq> set (map fst (cf_succ g))"
    using that by (auto simp: succ_arcs_def intro!: dict_get_or_notin)
       (metis dict_get_or_notin image_set list.set_map)
qed simp

definition unvisited :: "cfg \<Rightarrow> string list \<Rightarrow> nat" where
  "unvisited g V = card ({x. succ_arcs g x \<noteq> []} - set V)"

lemma unvisited_less:
  assumes "succ_arcs g x \<noteq> []" "x \<notin> set V"
  shows "unvisited g (x # V) < unvisited g V"
proof -
  have "finite ({x. succ_arcs g x \<noteq> []} - set V)" using succ_arcs_finite[of "\<lambda>x. x"] by simp
  moreover have "{x. succ_arcs g x \<noteq> []} - set (x # V) \<subset> {x. succ_arcs g x \<noteq> []} - set V"
    using assms by auto
  ultimately show ?thesis unfolding unvisited_def by (rule psubset_card_mono)
qed

lemma unvisited_same: "succ_arcs g x = [] \<Longrightarrow> unvisited g (x # V) = unvisited g V"
  unfolding unvisited_def by (rule arg_cong[where f = card]) auto

section \<open>Reachability\<close>

text \<open>The loop of \<open>reachable\<close>.\<close>

function reach_loop :: "cfg \<Rightarrow> string \<Rightarrow> string list \<Rightarrow> string list \<Rightarrow> bool" where
  "reach_loop g target [] visited = False"
| "reach_loop g target (current # queue) visited =
     (if current = target then True
      else if current \<in> set visited then reach_loop g target queue visited
      else reach_loop g target
        (queue @ filter (\<lambda>t. t \<notin> set (current # visited)) (succ_ids g current)) (current # visited))"
  by pat_completeness auto
termination
proof (relation "inv_image (less_than <*lex*> less_than)
    (\<lambda>(g, t, Q, V). (unvisited g V, length Q))", goal_cases)
  case (3 g t x Q V)
  then show ?case
    by (cases "succ_arcs g x = []") (auto simp: succ_ids_def unvisited_same unvisited_less)
qed auto

definition reachable_compute :: "cfg \<Rightarrow> string \<Rightarrow> string \<Rightarrow> bool" where
  "reachable_compute g source target =
     (if \<not> same_scope g source target then False
      else reach_loop g target (succ_ids g source) [])"

definition cfg_reachable :: "cfg \<Rightarrow> string \<Rightarrow> string \<Rightarrow> bool \<times> cfg" where
  "cfg_reachable g source target =
     (case dict_get (cf_reach_cache g) (source, target) of
        Some b \<Rightarrow> (b, g)
      | None \<Rightarrow>
          (let b = reachable_compute g source target
           in (b, g\<lparr>cf_reach_cache := dict_set (source, target) b (cf_reach_cache g)\<rparr>)))"

text \<open>\<open>_reachable_without\<close>; its inner loop stops at the first arc into the target.\<close>

definition allowed_ids :: "cfg \<Rightarrow> edge_kind list \<Rightarrow> string \<Rightarrow> string list" where
  "allowed_ids g forbidden i =
     map arc_target (filter (\<lambda>a. arc_kind a \<notin> set forbidden) (succ_arcs g i))"

function without_loop ::
  "cfg \<Rightarrow> string \<Rightarrow> edge_kind list \<Rightarrow> string list \<Rightarrow> string list \<Rightarrow> bool" where
  "without_loop g target forbidden [] visited = False"
| "without_loop g target forbidden (current # queue) visited =
     (if current \<in> set visited then without_loop g target forbidden queue visited
      else if target \<in> set (allowed_ids g forbidden current) then True
      else without_loop g target forbidden (queue @ allowed_ids g forbidden current) (current # visited))"
  by pat_completeness auto
termination
proof (relation "inv_image (less_than <*lex*> less_than)
    (\<lambda>(g, t, fb, Q, V). (unvisited g V, length Q))", goal_cases)
  case (3 g t fb x Q V)
  then show ?case
    by (cases "succ_arcs g x = []") (auto simp: allowed_ids_def unvisited_same unvisited_less)
qed auto

definition reachable_without :: "cfg \<Rightarrow> string \<Rightarrow> string \<Rightarrow> edge_kind list \<Rightarrow> bool" where
  "reachable_without g source target forbidden =
     (if source = target then True else without_loop g target forbidden [source] [])"

text \<open>\<open>branch_controls\<close>: the outcomes of the branch kinds that have an arc at all.\<close>

definition branch_outcome :: "cfg \<Rightarrow> string \<Rightarrow> string \<Rightarrow> edge_kind \<Rightarrow> bool list" where
  "branch_outcome g branch operation kind =
     (let targets = map arc_target (cfg_successors g branch [kind])
      in if targets = [] then []
         else [list_ex (\<lambda>t. t = operation \<or> reachable_without g t operation [LOOP_BACK]) targets])"

definition branch_controls :: "cfg \<Rightarrow> string \<Rightarrow> string \<Rightarrow> bool" where
  "branch_controls g branch operation =
     (let outcomes = branch_outcome g branch operation TRUE_BRANCH @
                     branch_outcome g branch operation FALSE_BRANCH
      in length outcomes = 2 \<and> length (filter (\<lambda>b. b) outcomes) = 1)"

text \<open>The counterexample search of \<open>dominates_between\<close>.\<close>

definition avoiding_ids :: "cfg \<Rightarrow> string \<Rightarrow> string \<Rightarrow> string list" where
  "avoiding_ids g dominator i = filter (\<lambda>t. t \<noteq> dominator) (succ_ids g i)"

function bypass_loop :: "cfg \<Rightarrow> string \<Rightarrow> string \<Rightarrow> string list \<Rightarrow> string list \<Rightarrow> bool" where
  "bypass_loop g dominator operation [] visited = False"
| "bypass_loop g dominator operation (current # queue) visited =
     (if current = dominator \<or> current \<in> set visited
      then bypass_loop g dominator operation queue visited
      else if current = operation then True
      else bypass_loop g dominator operation
        (queue @ filter (\<lambda>t. t \<notin> set (current # visited)) (avoiding_ids g dominator current))
        (current # visited))"
  by pat_completeness auto
termination
proof (relation "inv_image (less_than <*lex*> less_than)
    (\<lambda>(g, d, t, Q, V). (unvisited g V, length Q))", goal_cases)
  case (3 g d t x Q V)
  then show ?case
    by (cases "succ_arcs g x = []")
      (auto simp: avoiding_ids_def succ_ids_def unvisited_same unvisited_less)
qed auto

definition dominates_between :: "cfg \<Rightarrow> string \<Rightarrow> string \<Rightarrow> string \<Rightarrow> bool" where
  "dominates_between g start dominator operation =
     (if \<not> (same_scope g start dominator \<and> same_scope g start operation) then False
      else if start = dominator then True
      else if operation = dominator then reachable_compute g start operation
      else \<not> bypass_loop g dominator operation (avoiding_ids g dominator start) [])"


section \<open>The searches answer reachability\<close>

definition arc_rel :: "cfg \<Rightarrow> (string \<times> string) set" where
  "arc_rel g = {(i, j). j \<in> set (succ_ids g i)}"

text \<open>The arcs a restricted search may follow.\<close>

definition allowed_rel :: "cfg \<Rightarrow> edge_kind list \<Rightarrow> (string \<times> string) set" where
  "allowed_rel g forbidden = {(i, j). j \<in> set (allowed_ids g forbidden i)}"

definition avoiding_rel :: "cfg \<Rightarrow> string \<Rightarrow> (string \<times> string) set" where
  "avoiding_rel g d = {(i, j). j \<in> set (succ_ids g i) \<and> i \<noteq> d \<and> j \<noteq> d}"

lemma finite_succ_ids: "finite {x. succ_ids g x \<noteq> []}"
  using succ_arcs_finite[of "map arc_target"] by (simp add: succ_ids_def)

lemma finite_allowed_ids: "finite {x. allowed_ids g fb x \<noteq> []}"
  using succ_arcs_finite[of "\<lambda>as. map arc_target (filter (\<lambda>a. arc_kind a \<notin> set fb) as)"]
  by (simp add: allowed_ids_def)

interpretation reach_search: worklist_search "reach_loop g target" "succ_ids g" "\<lambda>x. x = target"
  for g target
proof unfold_locales
  show "\<exists>R V'. reach_loop g target (x # Q) V = reach_loop g target R V' \<and>
      set R \<subseteq> set Q \<union> set (succ_ids g x) \<and> set Q \<union> (set (succ_ids g x) - set (x # V)) \<subseteq> set R \<and>
      (succ_ids g x = [] \<longrightarrow> length R \<le> length Q) \<and> (V' = x # V \<or> V' = V \<and> succ_ids g x = [])"
    if "x \<noteq> target" "x \<notin> set V" for x Q V
    using that
    by (intro exI[of _ "Q @ filter (\<lambda>t. t \<notin> set (x # V)) (succ_ids g x)"] exI[of _ "x # V"]) auto
qed (auto simp: finite_succ_ids)

interpretation without_search: worklist_search "without_loop g target fb" "allowed_ids g fb"
    "\<lambda>x. target \<in> set (allowed_ids g fb x)"
  for g target fb
proof unfold_locales
  show "\<exists>R V'. without_loop g target fb (x # Q) V = without_loop g target fb R V' \<and>
      set R \<subseteq> set Q \<union> set (allowed_ids g fb x) \<and> set Q \<union> (set (allowed_ids g fb x) - set (x # V)) \<subseteq> set R \<and>
      (allowed_ids g fb x = [] \<longrightarrow> length R \<le> length Q) \<and> (V' = x # V \<or> V' = V \<and> allowed_ids g fb x = [])"
    if "target \<notin> set (allowed_ids g fb x)" "x \<notin> set V" for x Q V
    using that by (intro exI[of _ "Q @ allowed_ids g fb x"] exI[of _ "x # V"]) auto
qed (auto simp: finite_allowed_ids)

definition avoid_next :: "cfg \<Rightarrow> string \<Rightarrow> string \<Rightarrow> string list" where
  "avoid_next g d i = (if i = d then [] else avoiding_ids g d i)"

lemma finite_avoid_next: "finite {x. avoid_next g d x \<noteq> []}"
  by (rule finite_subset[OF _ finite_succ_ids[of g]])
    (auto simp: avoid_next_def avoiding_ids_def split: if_splits)

interpretation bypass_search: worklist_search "bypass_loop g d target" "avoid_next g d"
    "\<lambda>x. x = target \<and> x \<noteq> d"
  for g d target
proof unfold_locales
  show "\<exists>R V'. bypass_loop g d target (x # Q) V = bypass_loop g d target R V' \<and>
      set R \<subseteq> set Q \<union> set (avoid_next g d x) \<and> set Q \<union> (set (avoid_next g d x) - set (x # V)) \<subseteq> set R \<and>
      (avoid_next g d x = [] \<longrightarrow> length R \<le> length Q) \<and> (V' = x # V \<or> V' = V \<and> avoid_next g d x = [])"
    if "\<not> (x = target \<and> x \<noteq> d)" "x \<notin> set V" for x Q V
  proof (cases "x = d")
    case True
    then show ?thesis by (intro exI[of _ Q] exI[of _ V]) (simp add: avoid_next_def)
  next
    case False
    with that show ?thesis
      by (intro exI[of _ "Q @ filter (\<lambda>t. t \<notin> set (x # V)) (avoiding_ids g d x)"] exI[of _ "x # V"])
        (auto simp: avoid_next_def)
  qed
qed (auto simp: finite_avoid_next)

lemma next_rel_succ: "next_rel (succ_ids g) = arc_rel g"
  by (auto simp: next_rel_def arc_rel_def)

lemma next_rel_allowed: "next_rel (allowed_ids g fb) = allowed_rel g fb"
  by (auto simp: next_rel_def allowed_rel_def)

lemma next_rel_avoid: "next_rel (avoid_next g d) = avoiding_rel g d"
  by (auto simp: next_rel_def avoiding_rel_def avoid_next_def avoiding_ids_def split: if_splits)

lemma reach_loop_iff:
  "reach_loop g target Q [] \<longleftrightarrow> (\<exists>x \<in> set Q. (x, target) \<in> (arc_rel g)\<^sup>*)"
  by (simp add: reach_search.search_iff reach_search.can_hit_def next_rel_succ)

lemma reachable_compute_iff:
  "reachable_compute g s t \<longleftrightarrow> same_scope g s t \<and> (s, t) \<in> (arc_rel g)\<^sup>+"
  unfolding reachable_compute_def reach_loop_iff
  by (auto simp: arc_rel_def dest!: tranclD intro: rtrancl_into_trancl2)

lemma without_loop_iff:
  "without_loop g t fb [s] [] \<longleftrightarrow> (s, t) \<in> (allowed_rel g fb)\<^sup>+"
  by (auto simp: without_search.search_iff without_search.can_hit_def next_rel_allowed allowed_rel_def
      dest!: tranclD2 intro: rtrancl_into_trancl1)

lemma reachable_without_iff:
  "reachable_without g s t fb \<longleftrightarrow> (s, t) \<in> (allowed_rel g fb)\<^sup>*"
  by (simp add: reachable_without_def without_loop_iff rtrancl_eq_or_trancl del: without_loop.simps)

lemma bypass_loop_iff:
  assumes "t \<noteq> d" "d \<notin> set Q"
  shows "bypass_loop g d t Q [] \<longleftrightarrow> (\<exists>x \<in> set Q. (x, t) \<in> (avoiding_rel g d)\<^sup>*)"
  using assms by (simp add: bypass_search.search_iff bypass_search.can_hit_def next_rel_avoid)


lemma same_scope_iff:
  "same_scope g i j \<longleftrightarrow> (\<exists>p q. dict_get (cf_ops g) i = Some p \<and> dict_get (cf_ops g) j = Some q \<and>
     op_scope p = op_scope q)"
  by (auto simp: same_scope_def split: option.splits)

section \<open>Paths\<close>

text \<open>A path of the graph as the list of operations it visits.\<close>

fun is_path :: "cfg \<Rightarrow> string list \<Rightarrow> bool" where
  "is_path g [] = False"
| "is_path g [x] = True"
| "is_path g (x # y # zs) = (y \<in> set (succ_ids g x) \<and> is_path g (y # zs))"

definition path_between :: "cfg \<Rightarrow> string \<Rightarrow> string list \<Rightarrow> string \<Rightarrow> bool" where
  "path_between g s p t \<longleftrightarrow> is_path g p \<and> hd p = s \<and> last p = t"

lemma is_path_Cons: "p \<noteq> [] \<Longrightarrow> is_path g (x # p) \<longleftrightarrow> hd p \<in> set (succ_ids g x) \<and> is_path g p"
  by (cases p) auto

lemma is_path_snoc: "p \<noteq> [] \<Longrightarrow> is_path g (p @ [y]) \<longleftrightarrow> is_path g p \<and> y \<in> set (succ_ids g (last p))"
  by (induction g p rule: is_path.induct) auto

lemma path_rtrancl:
  "(s, t) \<in> (arc_rel g \<inter> {(i, j). P i \<and> P j})\<^sup>* \<and> P s \<longleftrightarrow>
     (\<exists>p. path_between g s p t \<and> (\<forall>x \<in> set p. P x))"
proof
  assume "(s, t) \<in> (arc_rel g \<inter> {(i, j). P i \<and> P j})\<^sup>* \<and> P s"
  then have "(s, t) \<in> (arc_rel g \<inter> {(i, j). P i \<and> P j})\<^sup>*" "P s" by auto
  then show "\<exists>p. path_between g s p t \<and> (\<forall>x \<in> set p. P x)"
  proof (induction rule: rtrancl_induct)
    case base
    then show ?case by (intro exI[of _ "[s]"]) (simp add: path_between_def)
  next
    case (step y z)
    then obtain p where "path_between g s p y" "\<forall>x \<in> set p. P x" by blast
    moreover from this have "p \<noteq> []" by (auto simp: path_between_def)
    ultimately show ?case using step(2)
      by (intro exI[of _ "p @ [z]"]) (auto simp: path_between_def is_path_snoc arc_rel_def hd_append)
  qed
next
  assume "\<exists>p. path_between g s p t \<and> (\<forall>x \<in> set p. P x)"
  then obtain p where "is_path g p" "hd p = s" "last p = t" "\<forall>x \<in> set p. P x"
    by (auto simp: path_between_def)
  then show "(s, t) \<in> (arc_rel g \<inter> {(i, j). P i \<and> P j})\<^sup>* \<and> P s"
  proof (induction g p arbitrary: s rule: is_path.induct)
    case (3 g x y zs)
    have "(y, t) \<in> (arc_rel g \<inter> {(i, j). P i \<and> P j})\<^sup>*"
      using 3(1)[of y] 3(2-) by simp
    moreover have "(s, y) \<in> arc_rel g \<inter> {(i, j). P i \<and> P j}" "P s"
      using 3(2-) by (auto simp: arc_rel_def)
    ultimately show ?case by (blast intro: converse_rtrancl_into_rtrancl)
  qed auto
qed

lemma path_rtrancl_all: "(s, t) \<in> (arc_rel g)\<^sup>* \<longleftrightarrow> (\<exists>p. path_between g s p t)"
  using path_rtrancl[of s t g "\<lambda>_. True"] by simp

lemma avoiding_rel_eq: "avoiding_rel g d = arc_rel g \<inter> {(i, j). i \<noteq> d \<and> j \<noteq> d}"
  by (auto simp: avoiding_rel_def arc_rel_def)

lemma dominates_between_paths:
  assumes "same_scope g s d" "same_scope g s t" "s \<noteq> d" "t \<noteq> d"
  shows "dominates_between g s d t \<longleftrightarrow>
     (\<forall>p. path_between g s p t \<and> 2 \<le> length p \<longrightarrow> d \<in> set p)"
proof -
  have "dominates_between g s d t \<longleftrightarrow> \<not> (\<exists>x \<in> set (avoiding_ids g d s). (x, t) \<in> (avoiding_rel g d)\<^sup>*)"
    using assms by (simp add: dominates_between_def bypass_loop_iff avoiding_ids_def)
  also have "(\<exists>x \<in> set (avoiding_ids g d s). (x, t) \<in> (avoiding_rel g d)\<^sup>*) \<longleftrightarrow>
      (\<exists>x p. x \<in> set (succ_ids g s) \<and> path_between g x p t \<and> d \<notin> set p)"
    using path_rtrancl[of _ t g "\<lambda>x. x \<noteq> d"]
    by (auto simp: avoiding_ids_def avoiding_rel_eq) (metis path_between_def hd_in_set is_path.simps(1))+
  also have "\<dots> \<longleftrightarrow> (\<exists>p. path_between g s p t \<and> 2 \<le> length p \<and> d \<notin> set p)"
  proof
    assume "\<exists>x p. x \<in> set (succ_ids g s) \<and> path_between g x p t \<and> d \<notin> set p"
    then obtain x p where p: "x \<in> set (succ_ids g s)" "path_between g x p t" "d \<notin> set p" by blast
    then have "p \<noteq> []" by (auto simp: path_between_def)
    with p assms(3) show "\<exists>p. path_between g s p t \<and> 2 \<le> length p \<and> d \<notin> set p"
      by (intro exI[of _ "s # p"]) (cases p; auto simp: path_between_def is_path_Cons)
  next
    assume "\<exists>p. path_between g s p t \<and> 2 \<le> length p \<and> d \<notin> set p"
    then obtain p where p: "path_between g s p t" "2 \<le> length p" "d \<notin> set p" by blast
    then obtain y zs where "p = s # y # zs"
      by (cases p; cases "tl p") (auto simp: path_between_def)
    with p show "\<exists>x p. x \<in> set (succ_ids g s) \<and> path_between g x p t \<and> d \<notin> set p"
      by (intro exI[of _ y] exI[of _ "y # zs"]) (auto simp: path_between_def)
  qed
  finally show ?thesis by blast
qed

section \<open>The reachability cache is transparent\<close>

definition reach_cache_ok :: "cfg \<Rightarrow> bool" where
  "reach_cache_ok g \<longleftrightarrow>
     (\<forall>s t b. dict_get (cf_reach_cache g) (s, t) = Some b \<longrightarrow> b = reachable_compute g s t)"

lemma succ_ids_cache [simp]:
  "succ_ids (g\<lparr>cf_reach_cache := c\<rparr>) = succ_ids g" "succ_ids (g\<lparr>cf_dom_cache := c'\<rparr>) = succ_ids g"
  by (auto simp: succ_ids_def succ_arcs_def)

lemma reachable_compute_cache [simp]:
  "reachable_compute (g\<lparr>cf_reach_cache := c\<rparr>) s t = reachable_compute g s t"
  "reachable_compute (g\<lparr>cf_dom_cache := c'\<rparr>) s t = reachable_compute g s t"
  by (simp_all add: reachable_compute_iff same_scope_def arc_rel_def)

lemma cfg_reachable_fst: "reach_cache_ok g \<Longrightarrow> fst (cfg_reachable g s t) = reachable_compute g s t"
  by (auto simp: cfg_reachable_def reach_cache_ok_def Let_def split: option.splits)

lemma cfg_reachable_snd: "reach_cache_ok g \<Longrightarrow> reach_cache_ok (snd (cfg_reachable g s t))"
  by (auto simp: cfg_reachable_def reach_cache_ok_def Let_def split: option.splits if_splits)

lemma reach_cache_ok_new: "reach_cache_ok (make_cfg ops es)"
  by (simp add: reach_cache_ok_def make_cfg_def Let_def case_prod_unfold)

section \<open>What the analysers ask of the graph\<close>

text \<open>
  The temporal analysers use the graph through two queries. \<open>path s p t\<close>: the list \<open>p\<close> of
  operations is a path from \<open>s\<close> to \<open>t\<close>; a path of two or more operations takes an arc.
\<close>

locale flow_queries =
  fixes same :: "'i \<Rightarrow> 'i \<Rightarrow> bool" and reach :: "'i \<Rightarrow> 'i \<Rightarrow> bool"
    and between :: "'i \<Rightarrow> 'i \<Rightarrow> 'i \<Rightarrow> bool" and path :: "'i \<Rightarrow> 'i list \<Rightarrow> 'i \<Rightarrow> bool"
  assumes reach_path: "reach s t \<longleftrightarrow> same s t \<and> (\<exists>p. path s p t \<and> 2 \<le> length p)"
    and between_path: "between s d t \<Longrightarrow> path s p t \<Longrightarrow> 2 \<le> length p \<Longrightarrow> d \<in> set p"
    and between_complete: "same s d \<Longrightarrow> same s t \<Longrightarrow> s \<noteq> d \<Longrightarrow> t \<noteq> d \<Longrightarrow>
      (\<And>p. path s p t \<Longrightarrow> 2 \<le> length p \<Longrightarrow> d \<in> set p) \<Longrightarrow> between s d t"
begin

definition protects :: "'i \<Rightarrow> 'i \<Rightarrow> 'i \<Rightarrow> bool" where
  "protects s d t \<longleftrightarrow> reach s d \<and> reach d t \<and> between s d t"

lemma protects_path: "protects s d t \<Longrightarrow> path s p t \<Longrightarrow> 2 \<le> length p \<Longrightarrow> d \<in> set p"
  unfolding protects_def using between_path by blast

lemma not_protects_path:
  assumes "\<not> protects s d t" "reach s d" "reach d t" "reach s t" "s \<noteq> d" "t \<noteq> d"
  shows "\<exists>p. path s p t \<and> 2 \<le> length p \<and> d \<notin> set p"
  using assms between_complete[of s d t] by (auto simp: protects_def reach_path)

end

lemma path_trancl: "(s, t) \<in> (arc_rel g)\<^sup>+ \<longleftrightarrow> (\<exists>p. path_between g s p t \<and> 2 \<le> length p)"
proof
  assume "(s, t) \<in> (arc_rel g)\<^sup>+"
  then obtain x where x: "(s, x) \<in> arc_rel g" "(x, t) \<in> (arc_rel g)\<^sup>*" by (blast dest: tranclD)
  then obtain p where p: "path_between g x p t" by (auto simp: path_rtrancl_all)
  then have "p \<noteq> []" by (auto simp: path_between_def)
  with x p show "\<exists>p. path_between g s p t \<and> 2 \<le> length p"
    by (intro exI[of _ "s # p"]) (cases p; auto simp: path_between_def arc_rel_def)
next
  assume "\<exists>p. path_between g s p t \<and> 2 \<le> length p"
  then obtain p where p: "path_between g s p t" "2 \<le> length p" by blast
  then obtain y zs where "p = s # y # zs" by (cases p; cases "tl p") (auto simp: path_between_def)
  with p have "(s, y) \<in> arc_rel g" "path_between g y (y # zs) t"
    by (auto simp: path_between_def arc_rel_def)
  then show "(s, t) \<in> (arc_rel g)\<^sup>+" by (metis path_rtrancl_all rtrancl_into_trancl2)
qed

interpretation flow: flow_queries "same_scope g" "reachable_compute g" "dominates_between g" "path_between g"
  for g
proof
  show "reachable_compute g s t \<longleftrightarrow> same_scope g s t \<and> (\<exists>p. path_between g s p t \<and> 2 \<le> length p)" for s t
    by (simp add: reachable_compute_iff path_trancl)
next
  fix s d t p
  assume d: "dominates_between g s d t" and p: "path_between g s p t" "2 \<le> length p"
  then have scope: "same_scope g s d" "same_scope g s t" by (auto simp: dominates_between_def split: if_splits)
  have "p \<noteq> []" using p(2) by auto
  then have ends: "s \<in> set p" "t \<in> set p" using p(1) by (auto simp: path_between_def)
  show "d \<in> set p"
    using dominates_between_paths[OF scope] d p ends by blast
next
  show "dominates_between g s d t" if "same_scope g s d" "same_scope g s t" "s \<noteq> d" "t \<noteq> d"
    "\<And>p. path_between g s p t \<Longrightarrow> 2 \<le> length p \<Longrightarrow> d \<in> set p" for s d t
    using dominates_between_paths[of g s d t] that by blast
qed

section \<open>Properties\<close>

text \<open>A client that asks one reachability question after another, each on the graph the last one left.\<close>

fun reachable_all :: "cfg \<Rightarrow> (string \<times> string) list \<Rightarrow> bool list" where
  "reachable_all g [] = []"
| "reachable_all g ((s, t) # qs) = (let (b, g') = cfg_reachable g s t in b # reachable_all g' qs)"

lemma arc_rel_cache [simp]: "arc_rel (g\<lparr>cf_reach_cache := c\<rparr>) = arc_rel g"
  by (simp add: arc_rel_def)

lemma reachable_compute_after [simp]: "reachable_compute (snd (cfg_reachable g s t)) s' t' = reachable_compute g s' t'"
  by (simp add: cfg_reachable_def Let_def split: option.splits)

lemma reachable_all_compute: "reach_cache_ok g \<Longrightarrow> reachable_all g qs = map (\<lambda>(s, t). reachable_compute g s t) qs"
proof (induction qs arbitrary: g)
  case (Cons q qs)
  obtain s t where q: "q = (s, t)" by (cases q)
  from Cons.IH[OF cfg_reachable_snd[OF Cons.prems, of s t]] cfg_reachable_fst[OF Cons.prems, of s t]
  show ?case by (simp add: q case_prod_unfold)
qed simp

text \<open>
  C23: On a graph the constructor built, every answer of a sequence of reachability queries is
  that of the graph, whatever the cache has collected: the two operations share a scope and some
  path of at least one arc leads from one to the other. A cycle is needed to reach oneself.
\<close>

theorem reachable_queries_correct:
  "reachable_all (make_cfg ops es) qs =
     map (\<lambda>(s, t). same_scope (make_cfg ops es) s t \<and>
       (\<exists>p. path_between (make_cfg ops es) s p t \<and> 2 \<le> length p)) qs"
  by (simp add: reachable_all_compute reach_cache_ok_new flow.reach_path)

text \<open>
  \<open>dominates_between\<close> says that an operation cannot be bypassed: for three operations of one
  scope, the middle one different from both ends, it holds exactly when every path from the start
  to the operation that takes at least one arc passes the dominator, cycles included.
\<close>

theorem dominates_between_no_bypass:
  assumes "same_scope g s d" "same_scope g s t" "s \<noteq> d" "t \<noteq> d"
  shows "dominates_between g s d t \<longleftrightarrow>
    \<not> (\<exists>p. path_between g s p t \<and> 2 \<le> length p \<and> d \<notin> set p)"
  using dominates_between_paths[OF assms] by blast

theorem dominates_between_no_bypass_witness:
  "\<not> dominates_between (make_cfg diamond_ops diamond_edges) ''e'' ''a'' ''x'' \<and>
   (\<exists>p. path_between (make_cfg diamond_ops diamond_edges) ''e'' p ''x'' \<and> ''a'' \<notin> set p) \<and>
   dominates_between (make_cfg diamond_ops diamond_edges) ''e'' ''b'' ''x''"
proof -
  let ?g = "make_cfg diamond_ops diamond_edges"
  have "same_scope ?g ''e'' ''a''" "same_scope ?g ''e'' ''x''" by code_simp+
  moreover have "\<not> dominates_between ?g ''e'' ''a'' ''x''" "dominates_between ?g ''e'' ''b'' ''x''" by code_simp+
  ultimately show ?thesis using dominates_between_no_bypass[of ?g "''e''" "''a''" "''x''"] by auto
qed

definition branch_targets :: "cfg \<Rightarrow> string \<Rightarrow> edge_kind \<Rightarrow> string set" where
  "branch_targets g b k = {arc_target a | a. a \<in> set (succ_arcs g b) \<and> arc_kind a = k}"

definition branch_leads :: "cfg \<Rightarrow> string \<Rightarrow> edge_kind \<Rightarrow> string \<Rightarrow> bool" where
  "branch_leads g b k x \<longleftrightarrow> (\<exists>t \<in> branch_targets g b k. (t, x) \<in> (allowed_rel g [LOOP_BACK])\<^sup>*)"

lemma branch_outcome_leads:
  "branch_outcome g b x k = (if branch_targets g b k = {} then [] else [branch_leads g b k x])"
proof -
  have t: "set (map arc_target (cfg_successors g b [k])) = branch_targets g b k"
    by (auto simp: cfg_successors_def branch_targets_def)
  then have "(map arc_target (cfg_successors g b [k]) = []) = (branch_targets g b k = {})"
    by (metis set_empty)
  moreover have "list_ex (\<lambda>t. t = x \<or> reachable_without g t x [LOOP_BACK]) (map arc_target (cfg_successors g b [k])) =
      branch_leads g b k x"
    unfolding list_ex_iff t reachable_without_iff branch_leads_def by blast
  ultimately show ?thesis by (simp add: branch_outcome_def Let_def)
qed

text \<open>
  A branch controls an operation exactly when it has arcs of both outcomes and the operation
  can be reached, by arcs other than loop-backs, from the targets of exactly one of them.
\<close>

theorem branch_controls_one_outcome:
  "branch_controls g b x \<longleftrightarrow>
     branch_targets g b TRUE_BRANCH \<noteq> {} \<and> branch_targets g b FALSE_BRANCH \<noteq> {} \<and>
     branch_leads g b TRUE_BRANCH x \<noteq> branch_leads g b FALSE_BRANCH x"
  by (simp add: branch_controls_def branch_outcome_leads)

end
