(* ===== verification/Dominators.thy ===== *)
theory Dominators
  imports ControlFlow
begin

text \<open>
  The dominator computation of \<open>analysis/control_flow.py\<close> (\<open>_dominators\<close>, \<open>dominates\<close>):
  an iteration that removes operations from over-full sets until nothing changes. Python sets of
  operation ids are sublists of the sorted scope, so equal sets are equal lists. The iteration is
  a \<open>while_option\<close>; that it ends, and that it ends with dominance over every entry path, is
  proved below.
\<close>

definition scope_nodes :: "cfg \<Rightarrow> string \<Rightarrow> string list" where
  "scope_nodes g sc =
     sorted_set (map op_id (filter (\<lambda>p. op_scope p = sc) (dict_values (cf_ops g))))"

definition scope_preds :: "cfg \<Rightarrow> string list \<Rightarrow> string \<Rightarrow> string list" where
  "scope_preds g nodes n = filter (\<lambda>s. s \<in> set nodes) (map arc_source (pred_arcs g n))"

text \<open>The nodes nothing in the scope leads to; the least node when every one has a predecessor.\<close>

definition scope_entries :: "cfg \<Rightarrow> string list \<Rightarrow> string list" where
  "scope_entries g nodes =
     (case filter (\<lambda>n. scope_preds g nodes n = []) nodes of
        [] \<Rightarrow> (case nodes of [] \<Rightarrow> [] | n # _ \<Rightarrow> [n])
      | e # es \<Rightarrow> e # es)"

definition dom_init :: "string list \<Rightarrow> string list \<Rightarrow> (string, string list) dict" where
  "dom_init nodes entries = map (\<lambda>n. (n, if n \<in> set entries then [n] else nodes)) nodes"

definition dom_update :: "cfg \<Rightarrow> string list \<Rightarrow> (string, string list) dict \<Rightarrow> string \<Rightarrow> string list" where
  "dom_update g nodes D n =
     (let preds = scope_preds g nodes n
      in if preds = [] then [n]
         else filter (\<lambda>x. x = n \<or> list_all (\<lambda>p. x \<in> set (dict_get_or [] D p)) preds) nodes)"

text \<open>One round of the \<open>for\<close> loop, with the \<open>changed\<close> flag.\<close>

fun dom_pass ::
  "cfg \<Rightarrow> string list \<Rightarrow> string list \<Rightarrow> (string, string list) dict \<times> bool
   \<Rightarrow> (string, string list) dict \<times> bool" where
  "dom_pass g nodes [] (D, changed) = (D, changed)"
| "dom_pass g nodes (n # ns) (D, changed) =
     (let updated = dom_update g nodes D n
      in dom_pass g nodes ns
           (if updated \<noteq> dict_get_or [] D n then (dict_set n updated D, True) else (D, changed)))"

definition dom_rounds ::
  "cfg \<Rightarrow> string list \<Rightarrow> string list \<Rightarrow> ((string, string list) dict \<times> bool) option" where
  "dom_rounds g nodes entries =
     while_option (\<lambda>(D, changed). changed)
       (\<lambda>(D, changed). dom_pass g nodes (filter (\<lambda>n. n \<notin> set entries) nodes) (D, False))
       (dom_init nodes entries, True)"

definition dominators_compute :: "cfg \<Rightarrow> string \<Rightarrow> (string, string list) dict option" where
  "dominators_compute g sc =
     (let nodes = scope_nodes g sc
      in if nodes = [] then Some []
         else map_option fst (dom_rounds g nodes (scope_entries g nodes)))"

definition cfg_dominators :: "cfg \<Rightarrow> string \<Rightarrow> ((string, string list) dict \<times> cfg) option" where
  "cfg_dominators g sc =
     (case dict_get (cf_dom_cache g) sc of
        Some D \<Rightarrow> Some (D, g)
      | None \<Rightarrow> (case dominators_compute g sc of None \<Rightarrow> None
          | Some D \<Rightarrow> Some (D, g\<lparr>cf_dom_cache := dict_set sc D (cf_dom_cache g)\<rparr>)))"

text \<open>\<open>dominates\<close>; \<open>None\<close> would be a computation that does not return.\<close>

definition cfg_dominates :: "cfg \<Rightarrow> string \<Rightarrow> string \<Rightarrow> (bool \<times> cfg) option" where
  "cfg_dominates g dominator operation =
     (case (dict_get (cf_ops g) operation, dict_get (cf_ops g) dominator) of
        (Some p, Some q) \<Rightarrow>
          (if op_scope p \<noteq> op_scope q then Some (False, g)
           else (case cfg_dominators g (op_scope p) of None \<Rightarrow> None
             | Some (D, g') \<Rightarrow> Some (dominator \<in> set (dict_get_or [] D operation), g')))
      | _ \<Rightarrow> Some (False, g))"

section \<open>Graphs the constructor builds\<close>

definition cfg_wf :: "cfg \<Rightarrow> bool" where
  "cfg_wf g \<longleftrightarrow> distinct (map fst (cf_ops g)) \<and>
     (\<forall>i p. dict_get (cf_ops g) i = Some p \<longrightarrow> op_id p = i) \<and>
     (\<forall>i j. j \<in> set (succ_ids g i) \<longrightarrow> same_scope g i j) \<and>
     (\<forall>i j. j \<in> set (succ_ids g i) \<longleftrightarrow> i \<in> set (map arc_source (pred_arcs g j)))"

lemma add_arcs_fst:
  "dict_get_or [] (fst (add_arcs ops d es)) i =
     dict_get_or [] (fst d) i @ map arc_of (filter (\<lambda>e. cfg_accepts ops e \<and> oe_source e = i) es)"
  by (induction ops d es rule: add_arcs.induct) auto

lemma add_arcs_snd:
  "dict_get_or [] (snd (add_arcs ops d es)) i =
     dict_get_or [] (snd d) i @ map arc_of (filter (\<lambda>e. cfg_accepts ops e \<and> oe_target e = i) es)"
  by (induction ops d es rule: add_arcs.induct) auto

lemma sort_arcs_get: "dict_get_or [] (sort_arcs d) i = sort_key arc_order (dict_get_or [] d i)"
  by (induction d) (auto simp: sort_arcs_def dict_get_or_def)

lemma succ_arcs_make_cfg:
  "succ_arcs (make_cfg ops es) i =
     sort_key arc_order (map arc_of (filter (\<lambda>e. cfg_accepts (ops_by_id ops) e \<and> oe_source e = i) es))"
  by (simp add: succ_arcs_def make_cfg_def Let_def case_prod_unfold sort_arcs_get add_arcs_fst)

lemma pred_arcs_make_cfg:
  "pred_arcs (make_cfg ops es) i =
     sort_key arc_order (map arc_of (filter (\<lambda>e. cfg_accepts (ops_by_id ops) e \<and> oe_target e = i) es))"
  by (simp add: pred_arcs_def make_cfg_def Let_def case_prod_unfold sort_arcs_get add_arcs_snd)

lemma cf_ops_make_cfg [simp]: "cf_ops (make_cfg ops es) = ops_by_id ops"
  by (simp add: make_cfg_def Let_def case_prod_unfold)

lemma cfg_accepts_same_scope:
  "cfg_accepts (ops_by_id ops) e \<Longrightarrow> same_scope (make_cfg ops es) (oe_source e) (oe_target e)"
  by (auto simp: cfg_accepts_def same_scope_def split: option.splits)

lemma cfg_wf_make_cfg: "cfg_wf (make_cfg ops es)"
  unfolding cfg_wf_def succ_ids_def succ_arcs_make_cfg pred_arcs_make_cfg
  using distinct_dict_of[of op_id "\<lambda>p. p" ops]
  by (auto simp: arc_of_def image_iff ops_by_id_def[symmetric]
      dest: ops_by_id_Some intro: cfg_accepts_same_scope)

lemma cfg_wf_from_ir: "cfg_wf (cfg_from_ir ir languages)"
  by (simp add: cfg_from_ir_def Let_def cfg_wf_make_cfg)

section \<open>The iteration\<close>

lemma scope_nodes_iff:
  assumes "cfg_wf g"
  shows "n \<in> set (scope_nodes g sc) \<longleftrightarrow> (\<exists>p. dict_get (cf_ops g) n = Some p \<and> op_scope p = sc)"
proof -
  have "(n, p) \<in> set (cf_ops g) \<longleftrightarrow> dict_get (cf_ops g) n = Some p" for n p
    using assms by (simp add: dict_get_def cfg_wf_def)
  with assms show ?thesis
    by (auto simp: scope_nodes_def dict_values_def cfg_wf_def image_iff) (metis snd_conv)+
qed

lemma scope_preds_iff:
  assumes "cfg_wf g" "n \<in> set (scope_nodes g sc)"
  shows "p \<in> set (scope_preds g (scope_nodes g sc) n) \<longleftrightarrow> n \<in> set (succ_ids g p)"
proof -
  have "n \<in> set (succ_ids g p) \<Longrightarrow> same_scope g p n" using assms(1) by (auto simp: cfg_wf_def)
  then have "n \<in> set (succ_ids g p) \<Longrightarrow> p \<in> set (scope_nodes g sc)"
    using assms by (auto simp: scope_nodes_iff same_scope_iff)
  with assms(1) show ?thesis by (auto simp: scope_preds_def cfg_wf_def)
qed

lemma succ_in_scope:
  "cfg_wf g \<Longrightarrow> p \<in> set (scope_nodes g sc) \<Longrightarrow> n \<in> set (succ_ids g p) \<Longrightarrow> n \<in> set (scope_nodes g sc)"
  using scope_nodes_iff[of g p sc] scope_nodes_iff[of g n sc] same_scope_iff[of g p n]
  unfolding cfg_wf_def by auto

text \<open>Dominance over every path from an entry of the scope.\<close>

definition on_all_paths :: "cfg \<Rightarrow> string list \<Rightarrow> string \<Rightarrow> string \<Rightarrow> bool" where
  "on_all_paths g entries d n \<longleftrightarrow>
     (\<forall>e p. e \<in> set entries \<and> path_between g e p n \<longrightarrow> d \<in> set p)"

lemma on_all_paths_pred:
  assumes "on_all_paths g entries d n" "d \<noteq> n" "n \<in> set (succ_ids g p)"
  shows "on_all_paths g entries d p"
  unfolding on_all_paths_def
proof (intro allI impI)
  fix e q assume q: "e \<in> set entries \<and> path_between g e q p"
  then have "q \<noteq> []" by (auto simp: path_between_def)
  with q assms(3) have "path_between g e (q @ [n]) n"
    by (auto simp: path_between_def is_path_snoc)
  with assms(1) q have "d \<in> set (q @ [n])" unfolding on_all_paths_def by blast
  with assms(2) show "d \<in> set q" by simp
qed

definition dom_of :: "(string, string list) dict \<Rightarrow> string \<Rightarrow> string list" where
  "dom_of D n = dict_get_or [] D n"

lemma dom_of_set [simp]: "dom_of (dict_set n u D) m = (if m = n then u else dom_of D m)"
  by (simp add: dom_of_def)

text \<open>The loop invariant of the rounds.\<close>

definition dom_inv :: "cfg \<Rightarrow> string list \<Rightarrow> string list \<Rightarrow> (string, string list) dict \<Rightarrow> bool" where
  "dom_inv g nodes entries D \<longleftrightarrow>
     (\<forall>n \<in> set nodes. \<exists>P. dom_of D n = filter P nodes) \<and>
     (\<forall>e \<in> set entries. dom_of D e = [e]) \<and>
     (\<forall>n \<in> set nodes - set entries. set (dom_update g nodes D n) \<subseteq> set (dom_of D n)) \<and>
     (\<forall>n \<in> set nodes. \<forall>d \<in> set nodes. on_all_paths g entries d n \<longrightarrow> d \<in> set (dom_of D n))"

lemma dom_inv_filter: "dom_inv g nodes entries D \<Longrightarrow> n \<in> set nodes \<Longrightarrow> \<exists>P. dom_of D n = filter P nodes"
  and dom_inv_entry: "dom_inv g nodes entries D \<Longrightarrow> e \<in> set entries \<Longrightarrow> dom_of D e = [e]"
  and dom_inv_update: "dom_inv g nodes entries D \<Longrightarrow> n \<in> set nodes \<Longrightarrow> n \<notin> set entries \<Longrightarrow>
     set (dom_update g nodes D n) \<subseteq> set (dom_of D n)"
  and dom_inv_paths: "dom_inv g nodes entries D \<Longrightarrow> n \<in> set nodes \<Longrightarrow> d \<in> set nodes \<Longrightarrow>
     on_all_paths g entries d n \<Longrightarrow> d \<in> set (dom_of D n)"
  unfolding dom_inv_def by blast+

definition dom_measure :: "string list \<Rightarrow> (string, string list) dict \<Rightarrow> nat" where
  "dom_measure nodes D = sum_list (map (\<lambda>n. length (dom_of D n)) nodes)"

lemma dom_update_mono:
  assumes "\<And>m. set (dom_of D' m) \<subseteq> set (dom_of D m)"
  shows "set (dom_update g nodes D' n) \<subseteq> set (dom_update g nodes D n)"
  using assms by (auto simp: dom_update_def Let_def list_all_iff dom_of_def)

lemma sum_list_less:
  "x \<in> set xs \<Longrightarrow> (\<And>y. f y \<le> (g y :: nat)) \<Longrightarrow> f x < g x \<Longrightarrow> sum_list (map f xs) < sum_list (map g xs)"
proof (induction xs)
  case (Cons a xs)
  have "sum_list (map f xs) \<le> sum_list (map g xs)" using Cons(3) by (intro sum_list_mono) auto
  then show ?case using Cons by (cases "a = x") (auto intro: add_less_le_mono add_le_less_mono)
qed simp

lemma sublist_length_less:
  assumes "xs = filter P nodes" "ys = filter Q nodes" "set ys \<subseteq> set xs" "ys \<noteq> xs" "distinct nodes"
  shows "length ys < length xs"
proof -
  have "distinct xs" "distinct ys" using assms by simp_all
  moreover have "set ys \<noteq> set xs"
  proof
    assume "set ys = set xs"
    then have "\<forall>x \<in> set nodes. P x = Q x" using assms(1,2) by auto
    then have "ys = xs" using assms(1,2) by (auto intro: filter_cong)
    with assms(4) show False by simp
  qed
  ultimately show ?thesis
    using assms(3) by (metis List.finite_set distinct_card psubsetI psubset_card_mono)
qed

lemma dom_pass_True: "dom_pass g nodes ns (D, True) = (D', ch') \<Longrightarrow> ch'"
  by (induction ns arbitrary: D) (auto simp: Let_def split: if_splits)

locale dom_scope =
  fixes g :: cfg and nodes entries :: "string list"
  assumes nodes_distinct: "distinct nodes"
    and entries_nodes: "set entries \<subseteq> set nodes"
    and preds_succ: "n \<in> set nodes \<Longrightarrow> p \<in> set (scope_preds g nodes n) \<longleftrightarrow> n \<in> set (succ_ids g p)"
    and inner_preds: "n \<in> set nodes \<Longrightarrow> n \<notin> set entries \<Longrightarrow> scope_preds g nodes n \<noteq> []"
    and succ_nodes: "p \<in> set nodes \<Longrightarrow> n \<in> set (succ_ids g p) \<Longrightarrow> n \<in> set nodes"
begin

abbreviation inv where "inv \<equiv> dom_inv g nodes entries"

lemma path_in_nodes:
  "path_between g e p n \<Longrightarrow> e \<in> set nodes \<Longrightarrow> n \<in> set nodes"
proof (induction p arbitrary: e)
  case (Cons x p)
  then show ?case
    using succ_nodes by (cases p) (auto simp: path_between_def)
qed (simp add: path_between_def)

lemma update_canonical:
  assumes "n \<in> set nodes"
  shows "\<exists>P. dom_update g nodes D n = filter P nodes"
proof (cases "scope_preds g nodes n = []")
  case True
  have "filter (\<lambda>x. x = n) nodes = [n]"
    using assms nodes_distinct by (induction nodes) (auto simp: filter_empty_conv)
  moreover from True have "dom_update g nodes D n = [n]" by (simp add: dom_update_def)
  ultimately show ?thesis by metis
qed (auto simp: dom_update_def Let_def)

lemma inv_update:
  assumes I: "inv D" and n: "n \<in> set nodes" "n \<notin> set entries"
  defines "D' \<equiv> dict_set n (dom_update g nodes D n) D"
  shows "inv D'"
    and "dom_update g nodes D n \<noteq> dom_of D n \<Longrightarrow> dom_measure nodes D' < dom_measure nodes D"
proof -
  have sub: "set (dom_of D' m) \<subseteq> set (dom_of D m)" for m
    using dom_inv_update[OF I n] by (simp add: D'_def)
  have upd: "set (dom_update g nodes D' m) \<subseteq> set (dom_update g nodes D m)" for m
    by (rule dom_update_mono) (rule sub)
  obtain P where P: "dom_update g nodes D n = filter P nodes" using update_canonical n by blast
  show "inv D'"
    unfolding dom_inv_def
  proof (intro conjI ballI impI)
    fix m assume "m \<in> set nodes"
    then show "\<exists>P. dom_of D' m = filter P nodes"
      using dom_inv_filter[OF I] P by (auto simp: D'_def)
  next
    fix e assume "e \<in> set entries"
    then show "dom_of D' e = [e]" using dom_inv_entry[OF I] n by (auto simp: D'_def)
  next
    fix m assume "m \<in> set nodes - set entries"
    then show "set (dom_update g nodes D' m) \<subseteq> set (dom_of D' m)"
      using upd[of m] dom_inv_update[OF I, of m] by (simp add: D'_def) blast
  next
    fix m d assume m: "m \<in> set nodes" "d \<in> set nodes" and "on_all_paths g entries d m"
    then have old: "d \<in> set (dom_of D m)" using dom_inv_paths[OF I] by blast
    show "d \<in> set (dom_of D' m)"
    proof (cases "m = n")
      case True
      have "d = n \<or> (\<forall>p \<in> set (scope_preds g nodes n). d \<in> set (dom_of D p))"
      proof (cases "d = n")
        case False
        have "on_all_paths g entries d p" if "p \<in> set (scope_preds g nodes n)" for p
          using on_all_paths_pred \<open>on_all_paths g entries d m\<close> True False that preds_succ n by blast
        moreover have "p \<in> set nodes" if "p \<in> set (scope_preds g nodes n)" for p
          using that by (auto simp: scope_preds_def)
        ultimately show ?thesis using dom_inv_paths[OF I] m by blast
      qed simp
      with True inner_preds[OF n] m show ?thesis
        by (auto simp: D'_def dom_update_def Let_def list_all_iff dom_of_def)
    qed (use old in \<open>simp add: D'_def\<close>)
  qed
  assume ne: "dom_update g nodes D n \<noteq> dom_of D n"
  have "length (dom_update g nodes D n) < length (dom_of D n)"
    using ne P nodes_distinct dom_inv_filter[OF I n(1)] dom_inv_update[OF I n] by (metis sublist_length_less)
  moreover have "length (dom_of D' m) \<le> length (dom_of D m)" for m
    using calculation by (simp add: D'_def)
  ultimately show "dom_measure nodes D' < dom_measure nodes D"
    using n(1) unfolding dom_measure_def by (intro sum_list_less[of n]) (auto simp: D'_def)
qed

lemma pass_inv:
  assumes "inv D" "set ns \<subseteq> set nodes - set entries"
    and "dom_pass g nodes ns (D, ch) = (D', ch')"
  shows "inv D' \<and> dom_measure nodes D' \<le> dom_measure nodes D \<and>
     (ch' \<longrightarrow> ch \<or> dom_measure nodes D' < dom_measure nodes D) \<and>
     (\<not> ch' \<longrightarrow> D' = D \<and> (\<forall>n \<in> set ns. dom_update g nodes D n = dom_of D n))"
  using assms
proof (induction ns arbitrary: D ch)
  case (Cons n ns)
  let ?u = "dom_update g nodes D n"
  have n: "n \<in> set nodes" "n \<notin> set entries" using Cons.prems(2) by auto
  show ?case
  proof (cases "?u = dom_of D n")
    case True
    with Cons show ?thesis by (auto simp: Let_def dom_of_def)
  next
    case False
    note I = inv_update(1)[OF Cons.prems(1) n] inv_update(2)[OF Cons.prems(1) n False]
    have "dom_pass g nodes ns (dict_set n ?u D, True) = (D', ch')"
      using Cons.prems(3) False by (simp add: Let_def dom_of_def)
    from Cons.IH[OF I(1) _ this] Cons.prems(2)
    have "inv D'" "dom_measure nodes D' \<le> dom_measure nodes (dict_set n ?u D)" by auto
    moreover have "ch'"
      using \<open>dom_pass g nodes ns (dict_set n ?u D, True) = (D', ch')\<close> dom_pass_True by blast
    ultimately show ?thesis using I(2) by auto
  qed
qed auto

text \<open>The rounds end, in a state that is closed under the update.\<close>

lemma rounds_end:
  assumes "inv D0"
  shows "\<exists>D. while_option (\<lambda>(D, ch). ch)
      (\<lambda>(D, ch). dom_pass g nodes (filter (\<lambda>n. n \<notin> set entries) nodes) (D, False)) (D0, True) = Some (D, False) \<and>
    inv D \<and> (\<forall>n \<in> set nodes - set entries. dom_update g nodes D n = dom_of D n)"
proof -
  let ?inner = "filter (\<lambda>n. n \<notin> set entries) nodes"
  let ?b = "\<lambda>(D, ch :: bool). ch"
  let ?c = "\<lambda>(D, ch :: bool). dom_pass g nodes ?inner (D, False)"
  let ?P = "\<lambda>(D, ch). inv D \<and>
      (\<not> ch \<longrightarrow> (\<forall>n \<in> set nodes - set entries. dom_update g nodes D n = dom_of D n))"
  let ?f = "\<lambda>(D, ch). 2 * dom_measure nodes D + (if ch then 1 else 0)"
  have inner: "set ?inner \<subseteq> set nodes - set entries" "set ?inner = set nodes - set entries" by auto
  have step: "?P (?c s) \<and> ?f (?c s) < ?f s" if P: "?P s" and b: "?b s" for s
  proof -
    obtain D where s: "s = (D, True)" using b by (cases s) auto
    obtain D' ch' where r: "dom_pass g nodes ?inner (D, False) = (D', ch')" by (cases "dom_pass g nodes ?inner (D, False)")
    from pass_inv[OF _ inner(1) r] P s have "inv D' \<and> dom_measure nodes D' \<le> dom_measure nodes D \<and>
     (ch' \<longrightarrow> dom_measure nodes D' < dom_measure nodes D) \<and>
     (\<not> ch' \<longrightarrow> D' = D \<and> (\<forall>n \<in> set ?inner. dom_update g nodes D n = dom_of D n))" by simp
    with s r inner(2) show ?thesis by auto
  qed
  have "?P (D0, True)" using assms by simp
  from measure_while_option_Some[of ?P ?b ?c ?f, OF step this]
  obtain t where t: "while_option ?b ?c (D0, True) = Some t" by auto
  have "?P t" by (rule while_option_rule[of ?P, OF _ t]) (use step assms in auto)
  with while_option_stop[OF t] t show ?thesis by (cases t) auto
qed

lemma closed_on_paths:
  assumes "inv D" "\<forall>n \<in> set nodes - set entries. dom_update g nodes D n = dom_of D n"
    and "path_between g e p n" "e \<in> set entries" "d \<in> set (dom_of D n)"
  shows "n \<in> set nodes \<and> d \<in> set p"
  using assms(3-)
proof (induction p arbitrary: n d rule: rev_induct)
  case (snoc y q)
  have y: "y = n" using snoc.prems by (simp add: path_between_def)
  show ?case
  proof (cases q)
    case Nil
    with snoc y show ?thesis using dom_inv_entry[OF assms(1)] entries_nodes by (auto simp: path_between_def)
  next
    case (Cons z zs)
    have q: "path_between g e q (last q)" and n: "n \<in> set (succ_ids g (last q))"
      using snoc.prems y Cons is_path_snoc[of q g n] by (auto simp: path_between_def)
    have last: "last q \<in> set nodes"
      using q \<open>e \<in> set entries\<close> entries_nodes path_in_nodes by blast
    then have "n \<in> set nodes" using n succ_nodes by blast
    show ?thesis
    proof (cases "n \<in> set entries")
      case True
      then show ?thesis using dom_inv_entry[OF assms(1) True] snoc.prems y \<open>n \<in> set nodes\<close> by auto
    next
      case False
      then have "dom_update g nodes D n = dom_of D n" using assms(2) \<open>n \<in> set nodes\<close> by blast
      with snoc.prems(3) have "d \<in> set (dom_update g nodes D n)" by simp
      moreover have "last q \<in> set (scope_preds g nodes n)" using n preds_succ \<open>n \<in> set nodes\<close> by blast
      ultimately have "d = n \<or> d \<in> set (dom_of D (last q))"
        by (auto simp: dom_update_def Let_def list_all_iff dom_of_def split: if_splits)
      then show ?thesis using snoc.IH[OF q \<open>e \<in> set entries\<close>] y \<open>n \<in> set nodes\<close> by auto
    qed
  qed
qed (simp add: path_between_def)

end

section \<open>What the iteration computes\<close>

lemma scope_entries_subset: "set (scope_entries g nodes) \<subseteq> set nodes"
proof (cases "filter (\<lambda>n. scope_preds g nodes n = []) nodes")
  case (Cons e es)
  then have "set (e # es) \<subseteq> set nodes" by (metis filter_is_subset)
  with Cons show ?thesis by (simp add: scope_entries_def)
qed (auto simp: scope_entries_def split: list.splits)

lemma scope_entries_inner:
  assumes "n \<in> set nodes" "n \<notin> set (scope_entries g nodes)"
  shows "scope_preds g nodes n \<noteq> []"
proof
  assume "scope_preds g nodes n = []"
  with assms(1) have n: "n \<in> set (filter (\<lambda>n. scope_preds g nodes n = []) nodes)" by simp
  then obtain e es where es: "filter (\<lambda>n. scope_preds g nodes n = []) nodes = e # es"
    by (cases "filter (\<lambda>n. scope_preds g nodes n = []) nodes") auto
  then have "scope_entries g nodes = e # es" by (simp add: scope_entries_def)
  with n es assms(2) show False by metis
qed

lemma distinct_scope_nodes: "distinct (scope_nodes g sc)"
  by (simp add: scope_nodes_def)

lemma dom_scope_wf: "cfg_wf g \<Longrightarrow> dom_scope g (scope_nodes g sc) (scope_entries g (scope_nodes g sc))"
  by (rule dom_scope.intro[OF distinct_scope_nodes scope_entries_subset scope_preds_iff
        scope_entries_inner succ_in_scope])

interpretation dom: dom_scope "make_cfg ops es" "scope_nodes (make_cfg ops es) sc"
    "scope_entries (make_cfg ops es) (scope_nodes (make_cfg ops es) sc)"
  for ops es sc
  by (rule dom_scope_wf) (rule cfg_wf_make_cfg)

lemma dom_of_init:
  "n \<in> set nodes \<Longrightarrow> dom_of (dom_init nodes entries) n = (if n \<in> set entries then [n] else nodes)"
  by (simp add: dom_of_def dom_init_def dict_get_or_def map_of_map_restrict)

lemma dom_inv_init:
  assumes "distinct nodes" "set entries \<subseteq> set nodes"
  shows "dom_inv g nodes entries (dom_init nodes entries)"
  unfolding dom_inv_def
proof (intro conjI ballI impI)
  fix n assume n: "n \<in> set nodes"
  have "filter (\<lambda>x. x = n) nodes = [n]"
    using assms(1) n by (induction nodes) (auto simp: filter_empty_conv)
  moreover have "filter (\<lambda>x. True) nodes = nodes" by simp
  ultimately show "\<exists>P. dom_of (dom_init nodes entries) n = filter P nodes"
    unfolding dom_of_init[OF n] by metis
next
  fix e assume "e \<in> set entries"
  with assms(2) show "dom_of (dom_init nodes entries) e = [e]" by (auto simp: dom_of_init)
next
  fix n assume "n \<in> set nodes - set entries"
  then show "set (dom_update g nodes (dom_init nodes entries) n) \<subseteq> set (dom_of (dom_init nodes entries) n)"
    by (auto simp: dom_of_init dom_update_def Let_def)
next
  fix n d assume "n \<in> set nodes" "d \<in> set nodes" "on_all_paths g entries d n"
  moreover have "path_between g n [n] n" by (simp add: path_between_def)
  ultimately show "d \<in> set (dom_of (dom_init nodes entries) n)"
    by (auto simp: dom_of_init on_all_paths_def) fastforce
qed

lemma dominators_compute_iff:
  assumes "cfg_wf g"
  shows "\<exists>D. dominators_compute g sc = Some D \<and>
    (\<forall>n \<in> set (scope_nodes g sc). \<forall>d \<in> set (scope_nodes g sc).
       d \<in> set (dom_of D n) \<longleftrightarrow> on_all_paths g (scope_entries g (scope_nodes g sc)) d n)"
proof (cases "scope_nodes g sc = []")
  case False
  let ?nodes = "scope_nodes g sc"
  let ?entries = "scope_entries g ?nodes"
  note scope = dom_scope_wf[OF assms, of sc]
  have "dom_inv g ?nodes ?entries (dom_init ?nodes ?entries)"
    by (rule dom_inv_init) (rule distinct_scope_nodes, rule scope_entries_subset)
  from dom_scope.rounds_end[OF scope this] obtain D where
    D: "dom_rounds g ?nodes ?entries = Some (D, False)" "dom_inv g ?nodes ?entries D"
      "\<forall>n \<in> set ?nodes - set ?entries. dom_update g ?nodes D n = dom_of D n"
    unfolding dom_rounds_def by blast
  have "d \<in> set (dom_of D n) \<longleftrightarrow> on_all_paths g ?entries d n" if "n \<in> set ?nodes" "d \<in> set ?nodes" for n d
    using dom_inv_paths[OF D(2) that] dom_scope.closed_on_paths[OF scope D(2,3)]
    unfolding on_all_paths_def by blast
  with D(1) False show ?thesis by (auto simp: dominators_compute_def Let_def)
qed (simp add: dominators_compute_def)

text \<open>The dominator cache holds what the computation returns.\<close>

definition dom_cache_ok :: "cfg \<Rightarrow> bool" where
  "dom_cache_ok g \<longleftrightarrow>
     (\<forall>sc D. dict_get (cf_dom_cache g) sc = Some D \<longrightarrow> dominators_compute g sc = Some D)"

lemma dom_cache_irrelevant [simp]:
  "scope_nodes (g\<lparr>cf_dom_cache := c\<rparr>) sc = scope_nodes g sc"
  "pred_arcs (g\<lparr>cf_dom_cache := c\<rparr>) i = pred_arcs g i"
  "scope_preds (g\<lparr>cf_dom_cache := c\<rparr>) nodes = scope_preds g nodes"
  "scope_entries (g\<lparr>cf_dom_cache := c\<rparr>) nodes = scope_entries g nodes"
  by (simp_all add: scope_nodes_def pred_arcs_def scope_preds_def scope_entries_def fun_eq_iff)

lemma dom_pass_cache [simp]:
  "dom_pass (g\<lparr>cf_dom_cache := c\<rparr>) nodes ns s = dom_pass g nodes ns s"
  by (induction g nodes ns s rule: dom_pass.induct) (auto simp: dom_update_def Let_def)

lemma dominators_compute_cache [simp]:
  "dominators_compute (g\<lparr>cf_dom_cache := c\<rparr>) sc = dominators_compute g sc"
  by (simp add: dominators_compute_def dom_rounds_def Let_def)

lemma cfg_dominators_ok:
  assumes "cfg_wf g" "dom_cache_ok g"
  shows "\<exists>D g'. cfg_dominators g sc = Some (D, g') \<and> dominators_compute g sc = Some D \<and> dom_cache_ok g' \<and>
     cf_ops g' = cf_ops g \<and> cf_succ g' = cf_succ g \<and> cf_pred g' = cf_pred g"
proof -
  obtain D where "dominators_compute g sc = Some D" using dominators_compute_iff[OF assms(1)] by blast
  with assms(2) show ?thesis
    by (auto simp: cfg_dominators_def dom_cache_ok_def split: option.splits)
qed

lemma cfg_dominates_iff:
  assumes "cfg_wf g" "dom_cache_ok g"
  shows "\<exists>g'. cfg_dominates g d n = Some
      (same_scope g n d \<and>
        on_all_paths g (scope_entries g (scope_nodes g (op_scope (the (dict_get (cf_ops g) n))))) d n, g') \<and>
    dom_cache_ok g'"
proof (cases "same_scope g n d")
  case True
  then obtain p q where pq: "dict_get (cf_ops g) n = Some p" "dict_get (cf_ops g) d = Some q"
    "op_scope p = op_scope q" by (auto simp: same_scope_iff)
  obtain D g' where D: "cfg_dominators g (op_scope p) = Some (D, g')"
    "dominators_compute g (op_scope p) = Some D" "dom_cache_ok g'"
    using cfg_dominators_ok[OF assms] by blast
  have "n \<in> set (scope_nodes g (op_scope p))" "d \<in> set (scope_nodes g (op_scope p))"
    using pq by (auto simp: scope_nodes_iff[OF assms(1)])
  with D(2) dominators_compute_iff[OF assms(1), of "op_scope p"] have
    "d \<in> set (dom_of D n) \<longleftrightarrow> on_all_paths g (scope_entries g (scope_nodes g (op_scope p))) d n"
    by auto
  with D pq True show ?thesis by (simp add: cfg_dominates_def dom_of_def)
next
  case False
  with assms(2) show ?thesis
    by (auto simp: cfg_dominates_def same_scope_def split: option.splits)
qed

lemma dom_cache_ok_new: "dom_cache_ok (make_cfg ops es)"
  by (simp add: dom_cache_ok_def make_cfg_def Let_def case_prod_unfold)

section \<open>Properties\<close>

text \<open>
  C22: \<open>dominates\<close> returns, and says that the dominator lies on every path from an entry of the
  scope to the operation; a cached table changes nothing. The entries are the operations nothing in
  the scope leads to, or the least operation where every one has a predecessor.
\<close>

theorem dominates_every_entry_path:
  assumes "cfg_wf g" "dom_cache_ok g"
  shows "\<exists>g'. dom_cache_ok g' \<and> cfg_dominates g d n = Some
    (same_scope g n d \<and>
      (\<forall>e \<in> set (scope_entries g (scope_nodes g (op_scope (the (dict_get (cf_ops g) n))))).
         \<forall>p. path_between g e p n \<longrightarrow> d \<in> set p), g')"
proof -
  have "on_all_paths g entries d n \<longleftrightarrow> (\<forall>e \<in> set entries. \<forall>p. path_between g e p n \<longrightarrow> d \<in> set p)" for entries
    by (auto simp: on_all_paths_def)
  with cfg_dominates_iff[OF assms, of d n] show ?thesis by auto
qed

theorem dominates_every_entry_path_witness:
  "\<exists>g'. cfg_dominates (make_cfg diamond_ops diamond_edges) ''a'' ''x'' = Some (False, g')"
proof -
  let ?g = "make_cfg diamond_ops diamond_edges"
  have e: "scope_entries ?g (scope_nodes ?g (op_scope (the (dict_get (cf_ops ?g) ''x'')))) = [''e'']"
    by code_simp
  have "path_between ?g ''e'' [''e'', ''b'', ''x''] ''x''" unfolding path_between_def by code_simp
  then have "\<not> (\<forall>p. path_between ?g ''e'' p ''x'' \<longrightarrow> ''a'' \<in> set p)" by fastforce
  with e dominates_every_entry_path[OF cfg_wf_make_cfg dom_cache_ok_new, of diamond_ops diamond_edges "''a''" "''x''"]
  show ?thesis by auto
qed

end
