(* ===== verification/Icfg.thy ===== *)
theory Icfg
  imports ControlFlow
begin

text \<open>
  \<open>analysis/icfg.py\<close>: the context-sensitive, depth-bounded interprocedural graph: its
  construction from linked calls and the breadth-first search for a stack-consistent path.
  \<open>realizable\<close> says what a returned path is, by the nesting of its calls and returns and without a
  stack; \<open>icfg_run\<close> is the step relation the search is complete for.
\<close>

datatype icfg_kind = CONTROL_FLOW_ARC | EMBEDDED_CALL | CALL_ENTER | CALL_RETURN | FUNCTION_ENTRY

fun icfg_kind_value :: "icfg_kind \<Rightarrow> string" where
  "icfg_kind_value CONTROL_FLOW_ARC = ''control_flow''"
| "icfg_kind_value EMBEDDED_CALL = ''embedded_call''"
| "icfg_kind_value CALL_ENTER = ''call_enter''"
| "icfg_kind_value CALL_RETURN = ''call_return''"
| "icfg_kind_value FUNCTION_ENTRY = ''function_entry''"

record icfg_arc =
  ia_source :: string
  ia_target :: string
  ia_kind :: icfg_kind
  ia_call :: string

record icfg_path =
  ip_operations :: "string list"
  ip_arcs :: "icfg_kind list"
  ip_depth :: nat

definition icfg_path_to_dict :: "icfg_path \<Rightarrow> pyval" where
  "icfg_path_to_dict p = PDict
     [(''operation_ids'', PList (map PStr (ip_operations p))),
      (''arc_kinds'', PList (map (\<lambda>k. PStr (icfg_kind_value k)) (ip_arcs p))),
      (''call_depth'', PInt (int (ip_depth p)))]"

record call_frame =
  fr_call :: string
  fr_scope :: string
  fr_conts :: "string list"

record icfg =
  ic_ops :: "(string, operation) dict"
  ic_succ :: "(string, icfg_arc list) dict"
  ic_entries :: "(string, string) dict"
  ic_conts :: "(string, string list) dict"
  ic_targets :: "(string, string list) dict"
  ic_hosts :: "(string, string) dict"
  ic_raw :: "(string \<times> string) list"

definition max_call_depth_limit :: int where "max_call_depth_limit = 16"
definition max_steps_limit :: int where "max_steps_limit = 100000"

section \<open>Construction\<close>

definition is_stack_call :: "bool \<Rightarrow> operation \<Rightarrow> bool" where
  "is_stack_call include_async p =
     (op_kind p = CALL \<or> (include_async \<and> op_kind p \<in> {SPAWN, DEFER}))"

definition record_host :: "bool \<Rightarrow> icfg \<Rightarrow> operation \<Rightarrow> icfg" where
  "record_host include_async g p =
     (if is_stack_call include_async p
      then g\<lparr>ic_hosts := dict_set (op_id p) (attr_str [] (op_attributes p) ''host_operation'') (ic_hosts g)\<rparr>
      else g)"

text \<open>The three tests of the edge loop, in order; a call that is not on the stack ends the iteration.\<close>

definition record_control :: "operation \<Rightarrow> operation \<Rightarrow> edge_kind \<Rightarrow> icfg \<Rightarrow> icfg" where
  "record_control source target kind g =
     (if kind \<in> set control_flow_kinds \<and> op_scope source = op_scope target
      then g\<lparr>ic_conts := dict_append (op_id source) (op_id target) (ic_conts g),
             ic_raw := ic_raw g @ [(op_id source, op_id target)]\<rparr>
      else g)"

definition record_entry :: "operation \<Rightarrow> operation \<Rightarrow> edge_kind \<Rightarrow> icfg \<Rightarrow> icfg" where
  "record_entry source target kind g =
     (if kind = CONTAINS \<and> op_kind source = FUNCTION \<and> op_kind target \<noteq> PARAMETER
      then g\<lparr>ic_entries := dict_setdefault (op_id source) (op_id target) (ic_entries g)\<rparr>
      else g)"

definition record_call :: "bool \<Rightarrow> operation \<Rightarrow> operation \<Rightarrow> edge_kind \<Rightarrow> icfg \<Rightarrow> icfg" where
  "record_call include_async source target kind g =
     (let current = dict_get_or [] (ic_targets g) (op_id source) in
      if kind = CALLS_EDGE \<and> is_stack_call include_async source \<and>
         op_kind target = FUNCTION \<and> op_id target \<notin> set current
      then g\<lparr>ic_targets := dict_set (op_id source) (sort (current @ [op_id target])) (ic_targets g)\<rparr>
      else g)"

definition record_edge :: "bool \<Rightarrow> icfg \<Rightarrow> operation_edge \<Rightarrow> icfg" where
  "record_edge include_async g e =
     (case (dict_get (ic_ops g) (oe_source e), dict_get (ic_ops g) (oe_target e)) of
        (Some source, Some target) \<Rightarrow>
          record_call include_async source target (oe_kind e)
            (record_entry source target (oe_kind e)
              (record_control source target (oe_kind e) g))
      | _ \<Rightarrow> g)"

definition add_icfg_arc :: "icfg \<Rightarrow> icfg_arc \<Rightarrow> icfg" where
  "add_icfg_arc g a = g\<lparr>ic_succ := dict_append (ia_source a) a (ic_succ g)\<rparr>"

definition mk_arc :: "string \<Rightarrow> string \<Rightarrow> icfg_kind \<Rightarrow> string \<Rightarrow> icfg_arc" where
  "mk_arc s t k c = \<lparr>ia_source = s, ia_target = t, ia_kind = k, ia_call = c\<rparr>"

definition record_function :: "icfg \<Rightarrow> operation \<Rightarrow> icfg" where
  "record_function g p =
     (if op_kind p = FUNCTION
      then let entries = dict_setdefault (op_id p) (op_id p) (ic_entries g)
           in add_icfg_arc (g\<lparr>ic_entries := entries\<rparr>)
                (mk_arc (op_id p) (dict_get_or [] entries (op_id p)) FUNCTION_ENTRY [])
      else g)"

definition resolved_hosts :: "icfg \<Rightarrow> string list" where
  "resolved_hosts g =
     map snd (filter (\<lambda>(c, h). h \<noteq> [] \<and> dict_has (ic_targets g) c) (ic_hosts g))"

definition continuations :: "icfg \<Rightarrow> string \<Rightarrow> string list" where
  "continuations g c =
     (let h = dict_get_or [] (ic_hosts g) c
      in sorted_set (dict_get_or [] (ic_conts g) (if h = [] then c else h)))"

definition control_arcs :: "icfg \<Rightarrow> icfg_arc list" where
  "control_arcs g =
     map (\<lambda>(s, t). mk_arc s t CONTROL_FLOW_ARC [])
       (filter (\<lambda>(s, t). s \<notin> set (resolved_hosts g)) (ic_raw g))"

definition embedded_arcs :: "icfg \<Rightarrow> icfg_arc list" where
  "embedded_arcs g =
     map (\<lambda>(c, h). mk_arc h c EMBEDDED_CALL c)
       (filter (\<lambda>(c, h). h \<noteq> [] \<and> dict_has (ic_ops g) h) (sort (ic_hosts g)))"

definition enter_arcs :: "icfg \<Rightarrow> icfg_arc list" where
  "enter_arcs g =
     concat (map (\<lambda>(c, ts). map (\<lambda>t. mk_arc c t CALL_ENTER c)
         (filter (dict_has (ic_entries g)) ts))
       (sort (ic_targets g)))"

definition return_arcs :: "icfg \<Rightarrow> icfg_arc list" where
  "return_arcs g =
     concat (map (\<lambda>c. concat (map (\<lambda>(r, p).
         if op_kind p = RETURN \<and> op_scope p \<in> set (dict_get_or [] (ic_targets g) c)
         then map (\<lambda>k. mk_arc r k CALL_RETURN c) (continuations g c) else [])
         (ic_ops g))) (sort (dict_keys (ic_targets g))))"

definition icfg_arc_order :: "icfg_arc \<Rightarrow> string \<times> string \<times> string" where
  "icfg_arc_order a = (ia_target a, icfg_kind_value (ia_kind a), ia_call a)"

definition empty_icfg :: "operation list \<Rightarrow> icfg" where
  "empty_icfg ops = \<lparr>ic_ops = ops_by_id ops, ic_succ = [], ic_entries = [], ic_conts = [],
     ic_targets = [], ic_hosts = [], ic_raw = []\<rparr>"

text \<open>The tables before any control, call or return arc is added.\<close>

definition icfg_tables :: "bool \<Rightarrow> operation list \<Rightarrow> operation_edge list \<Rightarrow> icfg" where
  "icfg_tables include_async operations edges =
     (let ops = sort_key op_order operations
      in foldl record_function
           (foldl (record_edge include_async)
             (foldl (record_host include_async) (empty_icfg operations) ops) edges) ops)"

definition make_icfg :: "bool \<Rightarrow> semantic_ir \<Rightarrow> icfg" where
  "make_icfg include_async ir =
     (let t = icfg_tables include_async (ir_operations ir) (ir_edges ir);
          g = foldl add_icfg_arc t (control_arcs t @ embedded_arcs t @ enter_arcs t @ return_arcs t)
      in g\<lparr>ic_succ := map (\<lambda>(k, arcs). (k, sort_key icfg_arc_order arcs)) (ic_succ g)\<rparr>)"

definition icfg_successors :: "icfg \<Rightarrow> string \<Rightarrow> icfg_arc list" where
  "icfg_successors g i = dict_get_or [] (ic_succ g) i"

definition function_entry :: "icfg \<Rightarrow> string \<Rightarrow> string option" where
  "function_entry g f = dict_get (ic_entries g) f"

definition calls_to :: "icfg \<Rightarrow> string \<Rightarrow> string list" where
  "calls_to g f = sort (map fst (filter (\<lambda>(c, ts). f \<in> set ts) (ic_targets g)))"

section \<open>The path search\<close>

text \<open>The stack after an arc; \<open>None\<close> where the code continues with the next arc.\<close>

definition icfg_step :: "icfg \<Rightarrow> nat \<Rightarrow> string \<Rightarrow> call_frame list \<Rightarrow> icfg_arc \<Rightarrow> call_frame list option" where
  "icfg_step g depth current stack a =
     (if ia_kind a = CALL_ENTER then
        (if depth \<le> length stack then None
         else if ia_target a \<notin> set (dict_get_or [] (ic_targets g) (ia_call a)) then None
         else Some (stack @ [\<lparr>fr_call = ia_call a, fr_scope = ia_target a,
                              fr_conts = continuations g (ia_call a)\<rparr>]))
      else if ia_kind a = CALL_RETURN then
        (if stack = [] \<or> ia_call a \<noteq> fr_call (last stack) \<or>
            Some (fr_scope (last stack)) \<noteq> scope_of (ic_ops g) current \<or>
            ia_target a \<notin> set (fr_conts (last stack))
         then None else Some (butlast stack))
      else Some stack)"

type_synonym search_item = "string \<times> call_frame list \<times> string list \<times> icfg_kind list"

fun expand_arcs ::
  "icfg \<Rightarrow> nat \<Rightarrow> string \<Rightarrow> search_item \<Rightarrow> nat \<Rightarrow> search_item list \<Rightarrow> icfg_arc list
   \<Rightarrow> icfg_path + nat \<times> search_item list" where
  "expand_arcs g depth target item steps queue [] = Inr (steps, queue)"
| "expand_arcs g depth target (current, stack, ops, kinds) steps queue (a # as) =
     (case icfg_step g depth current stack a of
        None \<Rightarrow> expand_arcs g depth target (current, stack, ops, kinds) steps queue as
      | Some stack' \<Rightarrow>
          (if ia_target a = target
           then Inl \<lparr>ip_operations = ops @ [ia_target a], ip_arcs = kinds @ [ia_kind a],
                     ip_depth = length stack'\<rparr>
           else expand_arcs g depth target (current, stack, ops, kinds) (Suc steps)
                  (queue @ [(ia_target a, stack', ops @ [ia_target a], kinds @ [ia_kind a])]) as))"

lemma expand_arcs_grows:
  "expand_arcs g depth target item steps queue as = Inr (steps', queue') \<Longrightarrow>
   steps \<le> steps' \<and> (steps' = steps \<longrightarrow> queue' = queue)"
  by (induction g depth target item steps queue as arbitrary: rule: expand_arcs.induct)
    (auto split: option.splits if_splits)

function search_paths ::
  "icfg \<Rightarrow> nat \<Rightarrow> nat \<Rightarrow> string \<Rightarrow> search_item list \<Rightarrow> (string \<times> call_frame list) list \<Rightarrow> nat
   \<Rightarrow> icfg_path option" where
  "search_paths g depth max_steps target queue visited steps =
     (if queue = [] \<or> max_steps \<le> steps then None
      else (case hd queue of (current, stack, ops, kinds) \<Rightarrow>
        if (current, stack) \<in> set visited
        then search_paths g depth max_steps target (tl queue) visited steps
        else (case expand_arcs g depth target (current, stack, ops, kinds) steps (tl queue)
                     (icfg_successors g current) of
                Inl path \<Rightarrow> Some path
              | Inr (steps', queue') \<Rightarrow>
                  search_paths g depth max_steps target queue' ((current, stack) # visited) steps')))"
  by pat_completeness auto
termination
proof (relation "inv_image (less_than <*lex*> less_than)
    (\<lambda>(g, d, m, t, Q, V, n). (m - n, length Q))", goal_cases)
  case (3 g d m t Q V n x y z a b c p q r)
  then have "n \<le> q" "q = n \<Longrightarrow> r = tl Q" by (auto dest: expand_arcs_grows)
  with 3 show ?case by (cases "q = n") auto
qed auto

declare search_paths.simps [simp del]

definition icfg_path_query ::
  "icfg \<Rightarrow> string \<Rightarrow> string \<Rightarrow> int \<Rightarrow> int \<Rightarrow> py_error + icfg_path option" where
  "icfg_path_query g source target depth max_steps =
     (if \<not> (0 \<le> depth \<and> depth \<le> max_call_depth_limit)
      then Inl (ValueError ''max_call_depth must be between 0 and 16'')
      else if \<not> (1 \<le> max_steps \<and> max_steps \<le> max_steps_limit)
      then Inl (ValueError ''max_steps must be between 1 and 100000'')
      else if \<not> dict_has (ic_ops g) source \<or> \<not> dict_has (ic_ops g) target then Inr None
      else if source = target
      then Inr (Some \<lparr>ip_operations = [source], ip_arcs = [], ip_depth = 0\<rparr>)
      else Inr (search_paths g (nat depth) (nat max_steps) target [(source, [], [source], [])] [] 0))"

definition icfg_reachable :: "icfg \<Rightarrow> string \<Rightarrow> string \<Rightarrow> int \<Rightarrow> int \<Rightarrow> py_error + bool" where
  "icfg_reachable g source target depth max_steps =
     map_sum id (\<lambda>p. p \<noteq> None) (icfg_path_query g source target depth max_steps)"

section \<open>Runs\<close>

text \<open>Stack-consistent runs from \<open>source\<close>: the arcs taken, the operation and the stack reached.\<close>

inductive icfg_run :: "icfg \<Rightarrow> nat \<Rightarrow> string \<Rightarrow> icfg_arc list \<Rightarrow> string \<Rightarrow> call_frame list \<Rightarrow> bool"
  for g depth source where
  run_start: "icfg_run g depth source [] source []"
| run_step: "icfg_run g depth source arcs current stack \<Longrightarrow> a \<in> set (icfg_successors g current) \<Longrightarrow>
    icfg_step g depth current stack a = Some stack' \<Longrightarrow>
    icfg_run g depth source (arcs @ [a]) (ia_target a) stack'"

inductive_cases icfg_run_snocE: "icfg_run g depth source (arcs @ [a]) t stack"

definition item_ok :: "icfg \<Rightarrow> nat \<Rightarrow> string \<Rightarrow> search_item \<Rightarrow> bool" where
  "item_ok g depth source item \<longleftrightarrow> (case item of (current, stack, ops, kinds) \<Rightarrow>
     \<exists>arcs. icfg_run g depth source arcs current stack \<and> ops = source # map ia_target arcs \<and>
       kinds = map ia_kind arcs)"

definition path_ok :: "icfg \<Rightarrow> nat \<Rightarrow> string \<Rightarrow> string \<Rightarrow> icfg_path \<Rightarrow> bool" where
  "path_ok g depth source target p \<longleftrightarrow>
     (\<exists>arcs stack. icfg_run g depth source arcs target stack \<and>
        ip_operations p = source # map ia_target arcs \<and> ip_arcs p = map ia_kind arcs \<and>
        ip_depth p = length stack)"

lemma item_ok_step:
  assumes "item_ok g depth source (current, stack, ops, kinds)"
    and "a \<in> set (icfg_successors g current)" "icfg_step g depth current stack a = Some stack'"
  shows "item_ok g depth source (ia_target a, stack', ops @ [ia_target a], kinds @ [ia_kind a])"
  using assms unfolding item_ok_def
  by clarsimp (metis (no_types, lifting) run_step list.simps(8,9) map_append)

lemma expand_arcs_ok:
  assumes "item_ok g depth source item" "\<forall>q \<in> set queue. item_ok g depth source q"
    and "set as \<subseteq> set (icfg_successors g (fst item))"
  shows "(case expand_arcs g depth target item steps queue as of
      Inl p \<Rightarrow> path_ok g depth source target p
    | Inr (steps', queue') \<Rightarrow> \<forall>q \<in> set queue'. item_ok g depth source q)"
  using assms
proof (induction g depth target item steps queue as rule: expand_arcs.induct)
  case (2 g depth target current stack ops kinds steps queue a as)
  show ?case
  proof (cases "icfg_step g depth current stack a")
    case None
    with 2 show ?thesis by simp
  next
    case (Some stack')
    have ok: "item_ok g depth source (ia_target a, stack', ops @ [ia_target a], kinds @ [ia_kind a])"
      using item_ok_step 2(3,5) Some by simp
    show ?thesis
    proof (cases "ia_target a = target")
      case True
      with ok Some show ?thesis by (auto simp: item_ok_def path_ok_def)
    next
      case False
      then show ?thesis using 2(2)[OF Some False] 2(3-) ok Some by simp
    qed
  qed
qed simp

lemma search_paths_Cons:
  "search_paths g depth m target ((current, stack, ops, kinds) # rest) visited steps =
     (if m \<le> steps then None
      else if (current, stack) \<in> set visited then search_paths g depth m target rest visited steps
      else (case expand_arcs g depth target (current, stack, ops, kinds) steps rest
                   (icfg_successors g current) of
              Inl path \<Rightarrow> Some path
            | Inr (steps', queue') \<Rightarrow>
                search_paths g depth m target queue' ((current, stack) # visited) steps'))"
  by (subst search_paths.simps) simp

lemma search_paths_ok:
  "search_paths g depth max_steps target queue visited steps = Some p \<Longrightarrow>
   \<forall>q \<in> set queue. item_ok g depth source q \<Longrightarrow> path_ok g depth source target p"
proof (induction g depth max_steps target queue visited steps rule: search_paths.induct)
  case (1 g depth max_steps target queue visited steps)
  from 1(3) obtain item rest where q: "queue = item # rest" "steps < max_steps"
    by (cases queue) (auto simp: search_paths.simps split: if_splits)
  obtain current stack ops kinds where item: "item = (current, stack, ops, kinds)" by (cases item)
  have rest: "\<forall>q \<in> set rest. item_ok g depth source q" and ok: "item_ok g depth source item"
    using 1(4) q by auto
  show ?case
  proof (cases "(current, stack) \<in> set visited")
    case True
    with 1(1) 1(3) rest q item show ?thesis by (simp add: search_paths_Cons)
  next
    case False
    note e = expand_arcs_ok[OF ok rest, of "icfg_successors g current" target steps]
    show ?thesis
    proof (cases "expand_arcs g depth target item steps rest (icfg_successors g current)")
      case (Inl path)
      with 1(3) False q item e show ?thesis by (simp add: search_paths_Cons)
    next
      case (Inr r)
      with 1(2) 1(3) False q item e show ?thesis
        by (cases r) (simp add: search_paths_Cons)
    qed
  qed
qed

lemma icfg_path_query_ok:
  assumes "icfg_path_query g source target depth max_steps = Inr (Some p)"
  shows "path_ok g (nat depth) source target p"
proof (cases "source = target")
  case True
  with assms run_start[of g "nat depth" source] show ?thesis
    by (auto simp: icfg_path_query_def path_ok_def split: if_splits)
next
  case False
  with assms have "search_paths g (nat depth) (nat max_steps) target [(source, [], [source], [])] [] 0 = Some p"
    by (auto simp: icfg_path_query_def split: if_splits)
  moreover have "item_ok g (nat depth) source (source, [], [source], [])"
    using run_start by (force simp: item_ok_def)
  ultimately show ?thesis by (auto intro: search_paths_ok)
qed

section \<open>The call stack along a run\<close>

lemma run_depth: "icfg_run g depth source arcs t stack \<Longrightarrow> length stack \<le> depth"
  by (induction rule: icfg_run.induct) (auto simp: icfg_step_def split: if_splits)

text \<open>Enters and returns balance: the stack holds the calls entered and not yet returned from.\<close>

lemma run_balanced:
  "icfg_run g depth source arcs t stack \<Longrightarrow>
   count_list (map ia_kind arcs) CALL_ENTER = count_list (map ia_kind arcs) CALL_RETURN + length stack"
proof (induction rule: icfg_run.induct)
  case (run_step arcs current stack a stack')
  then show ?case
    by (cases "ia_kind a") (auto simp: icfg_step_def count_list_append split: if_splits)
qed simp

lemma run_frames:
  "icfg_run g depth source arcs t stack \<Longrightarrow> f \<in> set stack \<Longrightarrow>
   fr_scope f \<in> set (dict_get_or [] (ic_targets g) (fr_call f)) \<and>
   fr_conts f = continuations g (fr_call f)"
proof (induction rule: icfg_run.induct)
  case (run_step arcs current stack a stack')
  then show ?case
    by (auto simp: icfg_step_def split: if_splits dest: in_set_butlastD)
qed simp

lemma run_arcs: "icfg_run g depth source arcs t stack \<Longrightarrow> a \<in> set arcs \<Longrightarrow>
   \<exists>i. a \<in> set (icfg_successors g i)"
  by (induction rule: icfg_run.induct) auto

section \<open>Every arc comes from the program\<close>

lemma icfg_tables_fields [simp]:
  "ic_succ (record_host b g p) = ic_succ g" "ic_ops (record_host b g p) = ic_ops g"
  "ic_raw (record_host b g p) = ic_raw g" "ic_targets (record_host b g p) = ic_targets g"
  "ic_succ (record_edge b g e) = ic_succ g" "ic_ops (record_edge b g e) = ic_ops g"
  "ic_ops (record_function g p) = ic_ops g" "ic_raw (record_function g p) = ic_raw g"
  "ic_targets (record_function g p) = ic_targets g" "ic_hosts (record_function g p) = ic_hosts g"
  by (simp_all add: record_host_def record_edge_def record_call_def record_entry_def record_control_def
      record_function_def add_icfg_arc_def Let_def split: option.splits)

lemma add_icfg_arcs_get:
  "dict_get_or [] (ic_succ (foldl add_icfg_arc g as)) i =
     dict_get_or [] (ic_succ g) i @ filter (\<lambda>a. ia_source a = i) as"
  by (induction as arbitrary: g) (auto simp: add_icfg_arc_def)

lemma add_icfg_arcs_fields [simp]:
  "ic_ops (foldl add_icfg_arc g as) = ic_ops g" "ic_targets (foldl add_icfg_arc g as) = ic_targets g"
  "ic_hosts (foldl add_icfg_arc g as) = ic_hosts g" "ic_conts (foldl add_icfg_arc g as) = ic_conts g"
  by (induction as arbitrary: g) (auto simp: add_icfg_arc_def)

text \<open>Before the control arcs, only functions have arcs: the ones to their entries.\<close>

definition entry_arcs_only :: "icfg \<Rightarrow> bool" where
  "entry_arcs_only g \<longleftrightarrow> (\<forall>i. \<forall>a \<in> set (dict_get_or [] (ic_succ g) i). ia_kind a = FUNCTION_ENTRY \<and> ia_source a = i)"

lemma icfg_tables_succ: "entry_arcs_only (icfg_tables b ops es)"
proof -
  have "entry_arcs_only (foldl (record_host b) (empty_icfg ops) ps)" for ps
    by (rule foldl_preserves) (auto simp: entry_arcs_only_def empty_icfg_def)
  then have "entry_arcs_only (foldl (record_edge b) (foldl (record_host b) (empty_icfg ops) ps) es)" for ps
    by (rule foldl_preserves) (auto simp: entry_arcs_only_def)
  then show ?thesis
    unfolding icfg_tables_def Let_def
    by (rule foldl_preserves)
      (auto simp: entry_arcs_only_def record_function_def add_icfg_arc_def mk_arc_def Let_def)
qed

lemma map_sort_get:
  "dict_get_or [] (map (\<lambda>(k, arcs). (k, sort_key f arcs)) d) i = sort_key f (dict_get_or [] d i)"
  by (induction d) (auto simp: dict_get_or_def)

lemma make_icfg_arcs:
  assumes "a \<in> set (icfg_successors (make_icfg b ir) i)"
  defines "t \<equiv> icfg_tables b (ir_operations ir) (ir_edges ir)"
  shows "ia_source a = i \<and> (ia_kind a = FUNCTION_ENTRY \<or> a \<in> set (control_arcs t) \<or>
    a \<in> set (embedded_arcs t) \<or> a \<in> set (enter_arcs t) \<or> a \<in> set (return_arcs t))"
  using assms icfg_tables_succ[of b "ir_operations ir" "ir_edges ir"]
  by (auto simp: icfg_successors_def make_icfg_def Let_def map_sort_get add_icfg_arcs_get
      entry_arcs_only_def)

lemma make_icfg_tables [simp]:
  "ic_targets (make_icfg b ir) = ic_targets (icfg_tables b (ir_operations ir) (ir_edges ir))"
  "ic_hosts (make_icfg b ir) = ic_hosts (icfg_tables b (ir_operations ir) (ir_edges ir))"
  "ic_conts (make_icfg b ir) = ic_conts (icfg_tables b (ir_operations ir) (ir_edges ir))"
  "ic_ops (make_icfg b ir) = ic_ops (icfg_tables b (ir_operations ir) (ir_edges ir))"
  by (simp_all add: make_icfg_def Let_def)

lemma resolved_hosts_make [simp]:
  "resolved_hosts (make_icfg b ir) = resolved_hosts (icfg_tables b (ir_operations ir) (ir_edges ir))"
  by (simp add: resolved_hosts_def)

lemmas arc_defs = control_arcs_def embedded_arcs_def enter_arcs_def return_arcs_def mk_arc_def

lemma control_arc_cases:
  assumes "a \<in> set (icfg_successors (make_icfg b ir) i)" "ia_kind a = CONTROL_FLOW_ARC"
  shows "a \<in> set (control_arcs (icfg_tables b (ir_operations ir) (ir_edges ir))) \<and> ia_source a = i"
  using make_icfg_arcs[OF assms(1)] assms(2) by (auto simp: arc_defs split: if_splits)

lemma host_not_bypassed:
  assumes "a \<in> set (icfg_successors (make_icfg b ir) i)" "i \<in> set (resolved_hosts (make_icfg b ir))"
  shows "ia_kind a \<noteq> CONTROL_FLOW_ARC"
proof
  assume "ia_kind a = CONTROL_FLOW_ARC"
  from control_arc_cases[OF assms(1) this] assms(2) show False
    by (auto simp: control_arcs_def mk_arc_def)
qed

text \<open>What the tables may hold, relative to the edges of the program.\<close>

definition grounded :: "operation_edge list \<Rightarrow> icfg \<Rightarrow> bool" where
  "grounded es g \<longleftrightarrow>
     (\<forall>(s, t) \<in> set (ic_raw g). \<exists>e \<in> set es. oe_source e = s \<and> oe_target e = t \<and>
        oe_kind e \<in> set control_flow_kinds) \<and>
     (\<forall>c t. t \<in> set (dict_get_or [] (ic_targets g) c) \<longrightarrow>
        (\<exists>e \<in> set es. oe_source e = c \<and> oe_target e = t \<and> oe_kind e = CALLS_EDGE))"

definition keyed_ops :: "icfg \<Rightarrow> bool" where
  "keyed_ops g \<longleftrightarrow> (\<forall>i p. dict_get (ic_ops g) i = Some p \<longrightarrow> op_id p = i)"

lemma grounded_edge:
  assumes "e \<in> set es" "keyed_ops g \<and> grounded es g"
  shows "keyed_ops (record_edge b g e) \<and> grounded es (record_edge b g e)"
proof (cases "dict_get (ic_ops g) (oe_source e)"; cases "dict_get (ic_ops g) (oe_target e)")
  fix p q assume pq: "dict_get (ic_ops g) (oe_source e) = Some p" "dict_get (ic_ops g) (oe_target e) = Some q"
  with assms(2) have ids: "op_id p = oe_source e" "op_id q = oe_target e" by (auto simp: keyed_ops_def)
  have "grounded es (record_control p q (oe_kind e) g)"
    using assms ids by (auto simp: record_control_def grounded_def)
  then have "grounded es (record_entry p q (oe_kind e) (record_control p q (oe_kind e) g))"
    by (auto simp: record_entry_def grounded_def)
  then have "grounded es (record_call b p q (oe_kind e)
      (record_entry p q (oe_kind e) (record_control p q (oe_kind e) g)))"
    using assms(1) ids by (auto simp: record_call_def grounded_def Let_def)
  with assms(2) pq show ?thesis by (simp add: record_edge_def keyed_ops_def record_call_def record_entry_def
      record_control_def Let_def)
qed (use assms in \<open>auto simp: record_edge_def\<close>)

lemma grounded_tables: "keyed_ops (icfg_tables b ops es) \<and> grounded es (icfg_tables b ops es)"
proof -
  have "keyed_ops (foldl (record_host b) (empty_icfg ops) ps) \<and>
      grounded es (foldl (record_host b) (empty_icfg ops) ps)" for ps
    by (rule foldl_preserves) (auto simp: keyed_ops_def grounded_def empty_icfg_def dest: ops_by_id_Some)
  then have "keyed_ops (foldl (record_edge b) (foldl (record_host b) (empty_icfg ops) ps) es) \<and>
      grounded es (foldl (record_edge b) (foldl (record_host b) (empty_icfg ops) ps) es)" for ps
    by (rule foldl_invariant) (rule grounded_edge)
  then show ?thesis
    unfolding icfg_tables_def Let_def
    by (rule foldl_preserves) (auto simp: keyed_ops_def grounded_def)
qed

lemma control_arc_grounded:
  assumes "a \<in> set (icfg_successors (make_icfg b ir) i)" "ia_kind a = CONTROL_FLOW_ARC"
  shows "\<exists>e \<in> set (ir_edges ir). oe_source e = i \<and> oe_target e = ia_target a \<and>
    oe_kind e \<in> set control_flow_kinds"
  using control_arc_cases[OF assms] grounded_tables[of b "ir_operations ir" "ir_edges ir"]
  by (auto simp: control_arcs_def mk_arc_def grounded_def)

lemma call_target_grounded:
  assumes "t \<in> set (dict_get_or [] (ic_targets (make_icfg b ir)) c)"
  shows "\<exists>e \<in> set (ir_edges ir). oe_source e = c \<and> oe_target e = t \<and> oe_kind e = CALLS_EDGE"
  using assms grounded_tables[of b "ir_operations ir" "ir_edges ir"] by (simp add: grounded_def)

section \<open>Enough steps find a path\<close>

type_synonym icfg_state = "string \<times> call_frame list"

text \<open>One move between search states.\<close>

definition icfg_moves :: "icfg \<Rightarrow> nat \<Rightarrow> (icfg_state \<times> icfg_state) set" where
  "icfg_moves g depth = {((i, st), (j, st')). \<exists>a \<in> set (icfg_successors g i).
     ia_target a = j \<and> icfg_step g depth i st a = Some st'}"

definition state_of :: "search_item \<Rightarrow> icfg_state" where
  "state_of item = (fst item, fst (snd item))"

lemma run_moves:
  "icfg_run g depth source arcs t stack \<Longrightarrow> ((source, []), (t, stack)) \<in> (icfg_moves g depth)\<^sup>*"
proof (induction rule: icfg_run.induct)
  case (run_step arcs current stack a stack')
  then have "((current, stack), (ia_target a, stack')) \<in> icfg_moves g depth"
    by (auto simp: icfg_moves_def)
  with run_step show ?case by (meson rtrancl.rtrancl_into_rtrancl)
qed simp

text \<open>What an expansion without a hit leaves: at most one step per arc, every move queued.\<close>

lemma expand_arcs_Inr:
  "expand_arcs g depth target item steps queue as = Inr (steps', queue') \<Longrightarrow>
   steps' \<le> steps + length as \<and>
   (\<forall>a \<in> set as. \<forall>st'. icfg_step g depth (fst item) (fst (snd item)) a = Some st' \<longrightarrow>
      ia_target a \<noteq> target \<and> (ia_target a, st') \<in> state_of ` set queue') \<and>
   set queue \<subseteq> set queue' \<and>
   state_of ` set queue' \<subseteq> state_of ` set queue \<union>
     {t. \<exists>a \<in> set as. \<exists>st'. icfg_step g depth (fst item) (fst (snd item)) a = Some st' \<and> t = (ia_target a, st')}"
proof (induction g depth target item steps queue as rule: expand_arcs.induct)
  case (2 g depth target current stack ops kinds steps queue a as)
  show ?case
  proof (cases "icfg_step g depth current stack a")
    case None
    have "expand_arcs g depth target (current, stack, ops, kinds) steps queue as = Inr (steps', queue')"
      using 2(3) None by simp
    from 2(1)[OF None this] None show ?thesis by auto
  next
    case (Some st)
    then have ne: "ia_target a \<noteq> target" using 2(3) by (auto split: if_splits)
    let ?q = "queue @ [(ia_target a, st, ops @ [ia_target a], kinds @ [ia_kind a])]"
    have r: "expand_arcs g depth target (current, stack, ops, kinds) (Suc steps) ?q as = Inr (steps', queue')"
      using 2(3) Some ne by simp
    note IH = 2(2)[OF Some ne r]
    have sub: "set ?q \<subseteq> set queue'" using IH by blast
    have "state_of (ia_target a, st, ops @ [ia_target a], kinds @ [ia_kind a]) \<in> state_of ` set queue'"
      by (rule imageI) (rule subsetD[OF sub], simp)
    then have "(ia_target a, st) \<in> state_of ` set queue'" by (simp add: state_of_def)
    moreover have "state_of ` set ?q = insert (ia_target a, st) (state_of ` set queue)"
      by (simp add: state_of_def)
    ultimately show ?thesis using IH Some ne by auto
  qed
qed auto

definition search_inv :: "icfg \<Rightarrow> nat \<Rightarrow> string \<Rightarrow> search_item list \<Rightarrow> icfg_state list \<Rightarrow> bool" where
  "search_inv g depth target queue visited \<longleftrightarrow>
     (\<forall>s \<in> set visited. \<forall>t. (s, t) \<in> icfg_moves g depth \<longrightarrow>
        fst t \<noteq> target \<and> (t \<in> set visited \<or> t \<in> state_of ` set queue))"

definition expansion_cost :: "icfg \<Rightarrow> icfg_state \<Rightarrow> nat" where
  "expansion_cost g s = length (icfg_successors g (fst s))"

text \<open>A finite set of states closed under the moves bounds the steps of the whole search.\<close>

lemma search_paths_finds:
  assumes fin: "finite S" and closed: "icfg_moves g depth `` S \<subseteq> S"
    and bound: "sum (expansion_cost g) S < max_steps"
  shows "search_inv g depth target queue visited \<Longrightarrow> distinct visited \<Longrightarrow> set visited \<subseteq> S \<Longrightarrow>
    state_of ` set queue \<subseteq> S \<Longrightarrow> steps \<le> sum (expansion_cost g) (set visited) \<Longrightarrow>
    search_paths g depth max_steps target queue visited steps = None \<Longrightarrow>
    \<exists>V. set visited \<subseteq> V \<and> state_of ` set queue \<subseteq> V \<and>
      (\<forall>s \<in> V. \<forall>t. (s, t) \<in> icfg_moves g depth \<longrightarrow> fst t \<noteq> target \<and> t \<in> V)"
proof (induction "(max_steps - steps, length queue)" arbitrary: queue visited steps
    rule: wf_induct_rule[OF wf_lex_prod[OF wf_less_than wf_less_than]])
  case (1 queue steps visited)
  note IH = 1(1) and inv = 1(2) and dist = 1(3) and vis = 1(4) and que = 1(5) and cost = 1(6) and none = 1(7)
  have "sum (expansion_cost g) (set visited) \<le> sum (expansion_cost g) S"
    using vis fin by (intro sum_mono2) auto
  with cost bound have lt: "steps < max_steps" by linarith
  show ?case
  proof (cases queue)
    case Nil
    with inv show ?thesis by (intro exI[of _ "set visited"]) (auto simp: search_inv_def)
  next
    case (Cons item rest)
    obtain i st ops kinds where item: "item = (i, st, ops, kinds)" by (cases item)
    have i: "(i, st) \<in> S" using que Cons item by (simp add: state_of_def)
    have rest: "state_of ` set rest \<subseteq> S" using que Cons by simp
    show ?thesis
    proof (cases "(i, st) \<in> set visited")
      case True
      have r1: "search_inv g depth target rest visited"
        using inv True Cons item by (auto simp: search_inv_def state_of_def)
      have r2: "search_paths g depth max_steps target rest visited steps = None"
        using none lt True Cons item by (simp add: search_paths_Cons)
      have "((max_steps - steps, length rest), (max_steps - steps, length queue)) \<in> less_than <*lex*> less_than"
        using Cons by simp
      from IH[OF this r1 dist vis rest cost r2] obtain V where
        "set visited \<subseteq> V" "state_of ` set rest \<subseteq> V"
        "\<forall>s \<in> V. \<forall>t. (s, t) \<in> icfg_moves g depth \<longrightarrow> fst t \<noteq> target \<and> t \<in> V" by blast
      with True Cons item show ?thesis by (intro exI[of _ V]) (auto simp: state_of_def)
    next
      case False
      then obtain steps' queue' where
        e: "expand_arcs g depth target item steps rest (icfg_successors g i) = Inr (steps', queue')"
        using none lt Cons item by (auto simp: search_paths_Cons split: sum.splits)
      note x = expand_arcs_Inr[OF e]
      have moves: "\<And>t. ((i, st), t) \<in> icfg_moves g depth \<longleftrightarrow>
          (\<exists>a \<in> set (icfg_successors g i). icfg_step g depth i st a = Some (snd t) \<and> ia_target a = fst t)"
        by (auto simp: icfg_moves_def)
      have old: "state_of ` set queue \<subseteq> insert (i, st) (state_of ` set queue')"
        using x Cons item by (auto simp: state_of_def)
      have r1: "search_inv g depth target queue' ((i, st) # visited)"
        unfolding search_inv_def
      proof (intro ballI allI impI)
        fix s t assume s: "s \<in> set ((i, st) # visited)" "(s, t) \<in> icfg_moves g depth"
        show "fst t \<noteq> target \<and> (t \<in> set ((i, st) # visited) \<or> t \<in> state_of ` set queue')"
        proof (cases "s = (i, st)")
          case True
          with s(2) moves[of t] obtain a where "a \<in> set (icfg_successors g i)"
            "icfg_step g depth i st a = Some (snd t)" "ia_target a = fst t" by blast
          with x item have "fst t \<noteq> target \<and> (fst t, snd t) \<in> state_of ` set queue'" by fastforce
          then show ?thesis by simp
        next
          case False
          then have "s \<in> set visited" using s(1) by simp
          with s(2) inv have "fst t \<noteq> target" "t \<in> set visited \<or> t \<in> state_of ` set queue"
            unfolding search_inv_def by blast+
          with old show ?thesis by auto
        qed
      qed
      have new: "state_of ` set queue' \<subseteq> state_of ` set rest \<union> icfg_moves g depth `` {(i, st)}"
      proof -
        have "{t. \<exists>a \<in> set (icfg_successors g i). \<exists>st'. icfg_step g depth i st a = Some st' \<and>
            t = (ia_target a, st')} \<subseteq> icfg_moves g depth `` {(i, st)}"
          by (auto simp: icfg_moves_def)
        with x item show ?thesis by (simp add: le_supI2 subset_trans) blast
      qed
      have r2: "state_of ` set queue' \<subseteq> S" using new rest closed i by blast
      have r3: "steps' \<le> sum (expansion_cost g) (set ((i, st) # visited))"
        using x cost False by (simp add: expansion_cost_def)
      have r4: "search_paths g depth max_steps target queue' ((i, st) # visited) steps' = None"
        using none lt False e Cons item by (simp add: search_paths_Cons)
      have less: "((max_steps - steps', length queue'), (max_steps - steps, length queue)) \<in> less_than <*lex*> less_than"
        using expand_arcs_grows[OF e] lt Cons by auto
      have "distinct ((i, st) # visited)" "set ((i, st) # visited) \<subseteq> S" using dist False vis i by auto
      from IH[OF less r1 this r2 r3 r4] obtain V where "set ((i, st) # visited) \<subseteq> V" "state_of ` set queue' \<subseteq> V"
        "\<forall>s \<in> V. \<forall>t. (s, t) \<in> icfg_moves g depth \<longrightarrow> fst t \<noteq> target \<and> t \<in> V" by blast
      with old show ?thesis by (intro exI[of _ V]) auto
    qed
  qed
qed

text \<open>The states a bounded run can be in are finitely many.\<close>

definition arc_universe :: "icfg \<Rightarrow> icfg_arc set" where
  "arc_universe g = (\<Union>as \<in> snd ` set (ic_succ g). set as)"

definition frame_universe :: "icfg \<Rightarrow> call_frame set" where
  "frame_universe g =
     (\<lambda>a. \<lparr>fr_call = ia_call a, fr_scope = ia_target a, fr_conts = continuations g (ia_call a)\<rparr>) ` arc_universe g"

definition state_universe :: "icfg \<Rightarrow> nat \<Rightarrow> string \<Rightarrow> icfg_state set" where
  "state_universe g depth source =
     insert source (ia_target ` arc_universe g) \<times> {st. set st \<subseteq> frame_universe g \<and> length st \<le> depth}"

lemma finite_state_universe: "finite (state_universe g depth source)"
  by (auto simp: state_universe_def frame_universe_def arc_universe_def intro!: finite_lists_length_le)

lemma successors_universe: "a \<in> set (icfg_successors g i) \<Longrightarrow> a \<in> arc_universe g"
  by (cases "map_of (ic_succ g) i")
    (auto simp: icfg_successors_def arc_universe_def dict_get_or_def dest!: map_of_SomeD intro: bexI[rotated])

lemma moves_universe: "icfg_moves g depth `` state_universe g depth source \<subseteq> state_universe g depth source"
proof
  fix t assume "t \<in> icfg_moves g depth `` state_universe g depth source"
  then obtain i st a where st: "set st \<subseteq> frame_universe g" "length st \<le> depth"
    and a: "a \<in> set (icfg_successors g i)" "icfg_step g depth i st a = Some (snd t)" "fst t = ia_target a"
    by (auto simp: icfg_moves_def state_universe_def)
  note u = successors_universe[OF a(1)]
  consider "ia_kind a = CALL_ENTER" | "ia_kind a = CALL_RETURN" | "snd t = st"
    using a(2) by (auto simp: icfg_step_def split: if_splits)
  then have "set (snd t) \<subseteq> frame_universe g \<and> length (snd t) \<le> depth"
  proof cases
    case 1
    let ?f = "\<lparr>fr_call = ia_call a, fr_scope = ia_target a, fr_conts = continuations g (ia_call a)\<rparr>"
    have "snd t = st @ [?f]" "length st < depth" using 1 a(2) by (auto simp: icfg_step_def split: if_splits)
    moreover have "?f \<in> frame_universe g" using u by (simp add: frame_universe_def)
    ultimately show ?thesis using st by simp
  next
    case 2
    then have "snd t = butlast st" using a(2) by (auto simp: icfg_step_def split: if_splits)
    with st show ?thesis by (auto dest: in_set_butlastD)
  qed (use st in simp)
  with u a(3) show "t \<in> state_universe g depth source" by (cases t) (auto simp: state_universe_def)
qed

lemma search_complete:
  assumes run: "icfg_run g depth source arcs target stack" and ne: "source \<noteq> target"
    and bound: "sum (expansion_cost g) (state_universe g depth source) < max_steps"
  shows "search_paths g depth max_steps target [(source, [], [source], [])] [] 0 \<noteq> None"
proof
  assume "search_paths g depth max_steps target [(source, [], [source], [])] [] 0 = None"
  from search_paths_finds[OF finite_state_universe moves_universe bound _ _ _ _ _ this]
  obtain V where V: "(source, []) \<in> V"
    "\<And>s t. s \<in> V \<Longrightarrow> (s, t) \<in> icfg_moves g depth \<Longrightarrow> fst t \<noteq> target \<and> t \<in> V"
    by (auto simp: search_inv_def state_of_def state_universe_def)
  have "s \<in> V \<and> (fst s = source \<or> fst s \<noteq> target)" if "((source, []), s) \<in> (icfg_moves g depth)\<^sup>*" for s
    using that by (induction rule: rtrancl_induct) (use V in auto)
  with run_moves[OF run] ne show False by fastforce
qed

section \<open>Matched calls and returns\<close>

text \<open>
  What the search is to guarantee, said of the arcs alone and without a stack: an arc enters a call
  when a CALLS edge of the program leads from the call it starts at to its target, another arc
  answers it when it goes from a RETURN operation of that target to a continuation of that very
  call, and calls and answers nest like brackets.
\<close>

definition enters_call :: "semantic_ir \<Rightarrow> icfg_arc \<Rightarrow> bool" where
  "enters_call ir e \<longleftrightarrow> ia_kind e = CALL_ENTER \<and> ia_source e = ia_call e \<and>
     (\<exists>c \<in> set (ir_edges ir). oe_kind c = CALLS_EDGE \<and> oe_source c = ia_call e \<and> oe_target c = ia_target e)"

definition answers_call :: "bool \<Rightarrow> semantic_ir \<Rightarrow> icfg_arc \<Rightarrow> icfg_arc \<Rightarrow> bool" where
  "answers_call b ir e r \<longleftrightarrow> ia_kind r = CALL_RETURN \<and> ia_call r = ia_call e \<and>
     (\<exists>p \<in> set (ir_operations ir). op_id p = ia_source r \<and> op_kind p = RETURN \<and> op_scope p = ia_target e) \<and>
     ia_target r \<in> set (continuations (make_icfg b ir) (ia_call e))"

inductive closed_arcs :: "bool \<Rightarrow> semantic_ir \<Rightarrow> icfg_arc list \<Rightarrow> bool" for b ir where
  closed_nil: "closed_arcs b ir []"
| closed_plain: "ia_kind a \<notin> {CALL_ENTER, CALL_RETURN} \<Longrightarrow> closed_arcs b ir as \<Longrightarrow> closed_arcs b ir (a # as)"
| closed_call: "enters_call ir e \<Longrightarrow> answers_call b ir e r \<Longrightarrow> closed_arcs b ir body \<Longrightarrow> closed_arcs b ir as \<Longrightarrow>
    closed_arcs b ir (e # body @ r # as)"

inductive open_arcs :: "bool \<Rightarrow> semantic_ir \<Rightarrow> icfg_arc list \<Rightarrow> icfg_arc list \<Rightarrow> bool" for b ir where
  open_none: "closed_arcs b ir as \<Longrightarrow> open_arcs b ir [] as"
| open_call: "open_arcs b ir es as \<Longrightarrow> enters_call ir e \<Longrightarrow> closed_arcs b ir bs \<Longrightarrow>
    open_arcs b ir (es @ [e]) (as @ e # bs)"

inductive_cases open_arcs_snocE: "open_arcs b ir (es @ [e]) as"

fun arc_walk :: "icfg \<Rightarrow> string \<Rightarrow> icfg_arc list \<Rightarrow> string \<Rightarrow> bool" where
  "arc_walk g s [] t = (s = t)"
| "arc_walk g s (a # as) t = (a \<in> set (icfg_successors g s) \<and> arc_walk g (ia_target a) as t)"

text \<open>
  A path is realizable: it walks the graph from the source to the target, its calls and returns
  nest with the reported number of calls left open, and nowhere are more than \<open>depth\<close> open.
\<close>

definition realizable :: "bool \<Rightarrow> semantic_ir \<Rightarrow> nat \<Rightarrow> string \<Rightarrow> string \<Rightarrow> icfg_path \<Rightarrow> bool" where
  "realizable b ir depth source target p \<longleftrightarrow>
     (\<exists>arcs es. arc_walk (make_icfg b ir) source arcs target \<and>
        ip_operations p = source # map ia_target arcs \<and> ip_arcs p = map ia_kind arcs \<and>
        open_arcs b ir es arcs \<and> ip_depth p = length es \<and>
        (\<forall>n. count_list (take n (ip_arcs p)) CALL_ENTER \<le> count_list (take n (ip_arcs p)) CALL_RETURN + depth))"

lemma closed_arcs_append: "closed_arcs b ir as \<Longrightarrow> closed_arcs b ir bs \<Longrightarrow> closed_arcs b ir (as @ bs)"
  by (induction rule: closed_arcs.induct) (auto intro: closed_arcs.intros)

lemma open_arcs_append: "open_arcs b ir es as \<Longrightarrow> closed_arcs b ir bs \<Longrightarrow> open_arcs b ir es (as @ bs)"
proof (induction rule: open_arcs.induct)
  case (open_call es as e cs)
  then have "open_arcs b ir (es @ [e]) (as @ e # cs @ bs)"
    by (intro open_arcs.open_call closed_arcs_append)
  then show ?case by simp
qed (auto intro: open_none closed_arcs_append)

lemma arc_walk_snoc: "arc_walk g s as t \<Longrightarrow> a \<in> set (icfg_successors g t) \<Longrightarrow> arc_walk g s (as @ [a]) (ia_target a)"
  by (induction as arbitrary: s) auto

lemma run_walk: "icfg_run g depth source arcs t stack \<Longrightarrow> arc_walk g source arcs t"
  by (induction rule: icfg_run.induct) (auto intro: arc_walk_snoc)

lemma run_take: "icfg_run g depth source arcs t stack \<Longrightarrow> \<exists>t' stack'. icfg_run g depth source (take n arcs) t' stack'"
proof (induction rule: icfg_run.induct)
  case (run_step arcs current stack a stack')
  then show ?case
    using icfg_run.run_step[OF run_step(1-3)] by (cases "n \<le> length arcs") auto
qed (auto intro: run_start)

definition frame_of :: "icfg \<Rightarrow> call_frame \<Rightarrow> icfg_arc \<Rightarrow> bool" where
  "frame_of g f e \<longleftrightarrow> fr_call f = ia_call e \<and> fr_scope f = ia_target e \<and> fr_conts f = continuations g (ia_call e)"

lemma enter_arc_grounded:
  assumes "a \<in> set (icfg_successors (make_icfg b ir) i)" "ia_kind a = CALL_ENTER"
    and "ia_target a \<in> set (dict_get_or [] (ic_targets (make_icfg b ir)) (ia_call a))"
  shows "enters_call ir a"
  using make_icfg_arcs[OF assms(1)] assms(2) call_target_grounded[OF assms(3)]
  by (auto simp: enters_call_def arc_defs split: if_splits)

lemma icfg_tables_ops: "ic_ops (icfg_tables b ops es) = ops_by_id ops"
proof -
  have a: "ic_ops (foldl (record_host b) g ps) = ic_ops g" for g ps
    by (induction ps arbitrary: g) simp_all
  have e: "ic_ops (foldl (record_edge b) g xs) = ic_ops g" for g xs
    by (induction xs arbitrary: g) simp_all
  have f: "ic_ops (foldl record_function g ps) = ic_ops g" for g ps
    by (induction ps arbitrary: g) simp_all
  show ?thesis by (simp add: icfg_tables_def Let_def a e f empty_icfg_def)
qed

lemma return_arc_grounded:
  assumes "a \<in> set (icfg_successors (make_icfg b ir) i)" "ia_kind a = CALL_RETURN"
  shows "\<exists>p \<in> set (ir_operations ir). op_id p = ia_source a \<and> op_kind p = RETURN \<and>
    scope_of (ic_ops (make_icfg b ir)) i = Some (op_scope p)"
proof -
  let ?t = "icfg_tables b (ir_operations ir) (ir_edges ir)"
  have ops: "ic_ops ?t = ops_by_id (ir_operations ir)" by (rule icfg_tables_ops)
  from make_icfg_arcs[OF assms(1)] assms(2) have a: "ia_source a = i" "a \<in> set (return_arcs ?t)"
    by (auto simp: arc_defs split: if_splits)
  then obtain p where p: "(i, p) \<in> set (ic_ops ?t)" "op_kind p = RETURN"
    by (auto simp: return_arcs_def mk_arc_def split: if_splits)
  have "dict_get (ic_ops ?t) i = Some p"
    using p(1) distinct_dict_of unfolding ops ops_by_id_def dict_get_def by (rule map_of_is_SomeI[rotated])
  moreover from this have "p \<in> set (ir_operations ir)" "op_id p = i" unfolding ops by (auto dest: ops_by_id_Some)
  ultimately show ?thesis using p(2) a(1) by (intro bexI[of _ p]) (simp_all add: scope_of_def)
qed

lemma run_open:
  "icfg_run (make_icfg b ir) depth source arcs t stack \<Longrightarrow>
   \<exists>es. open_arcs b ir es arcs \<and> list_all2 (frame_of (make_icfg b ir)) stack es"
proof (induction rule: icfg_run.induct)
  case run_start
  then show ?case by (auto intro!: exI[of _ "[]"] open_none closed_nil)
next
  case (run_step arcs current stack a stack')
  let ?g = "make_icfg b ir"
  obtain es where es: "open_arcs b ir es arcs" "list_all2 (frame_of ?g) stack es" using run_step.IH by blast
  consider "ia_kind a = CALL_ENTER" | "ia_kind a = CALL_RETURN" | "ia_kind a \<notin> {CALL_ENTER, CALL_RETURN}" by blast
  then show ?case
  proof cases
    case 1
    let ?f = "\<lparr>fr_call = ia_call a, fr_scope = ia_target a, fr_conts = continuations ?g (ia_call a)\<rparr>"
    have "stack' = stack @ [?f]" "enters_call ir a"
      using run_step(2,3) 1 by (auto simp: icfg_step_def split: if_splits intro: enter_arc_grounded)
    moreover have "frame_of ?g ?f a" by (simp add: frame_of_def)
    ultimately show ?thesis
      using open_call[OF es(1) _ closed_nil] es(2)
      by (intro exI[of _ "es @ [a]"]) (simp add: list_all2_appendI)
  next
    case 2
    then obtain st f where f: "stack = st @ [f]" "stack' = st" "ia_call a = fr_call f"
      "scope_of (ic_ops ?g) current = Some (fr_scope f)" "ia_target a \<in> set (fr_conts f)"
      using run_step(3) by (cases stack rule: rev_cases) (auto simp: icfg_step_def split: if_splits)
    with es(2) obtain es' e where e: "es = es' @ [e]" "list_all2 (frame_of ?g) st es'" "frame_of ?g f e"
      by (auto simp: list_all2_append1 list_all2_Cons1)
    obtain as bs where as: "arcs = as @ e # bs" "open_arcs b ir es' as" "enters_call ir e" "closed_arcs b ir bs"
      using es(1) unfolding e(1) by (rule open_arcs_snocE) auto
    have "answers_call b ir e a"
      using return_arc_grounded[OF run_step(2) 2] f e(3) 2 by (auto simp: answers_call_def frame_of_def)
    then have "closed_arcs b ir (e # bs @ [a])" using closed_call[OF as(3) _ as(4) closed_nil] by simp
    from open_arcs_append[OF as(2) this] e(2) as(1) f(2) show ?thesis by auto
  next
    case 3
    then have "stack' = stack" using run_step(3) by (auto simp: icfg_step_def)
    with 3 es show ?thesis using open_arcs_append[OF es(1) closed_plain[OF 3 closed_nil]] by auto
  qed
qed

lemma path_query_realizable:
  assumes "icfg_path_query (make_icfg b ir) source target depth max_steps = Inr (Some p)"
  shows "realizable b ir (nat depth) source target p"
proof -
  let ?g = "make_icfg b ir"
  from icfg_path_query_ok[OF assms] obtain arcs stack where
    run: "icfg_run ?g (nat depth) source arcs target stack" and
    p: "ip_operations p = source # map ia_target arcs" "ip_arcs p = map ia_kind arcs" "ip_depth p = length stack"
    unfolding path_ok_def by blast
  from run_open[OF run] obtain es where es: "open_arcs b ir es arcs" "length stack = length es"
    by (auto dest: list_all2_lengthD)
  have "count_list (take n (ip_arcs p)) CALL_ENTER \<le> count_list (take n (ip_arcs p)) CALL_RETURN + nat depth" for n
    using run_take[OF run, of n] run_balanced run_depth p(2) by (fastforce simp: take_map)
  with run_walk[OF run] p es show ?thesis unfolding realizable_def by auto
qed

section \<open>Properties\<close>

text \<open>
  Two functions: \<open>f\<close> calls \<open>g\<close> inside the statement \<open>h\<close>, \<open>g\<close> runs \<open>k\<close> and returns.
\<close>

definition call_ops :: "operation list" where
  "call_ops =
     [sample_op ''f'' FUNCTION ''f'' 1 ''f'' [], sample_op ''h'' ASSIGN ''f'' 2 ''x'' [],
      sample_op ''c'' CALL ''f'' 2 ''g'' [(''host_operation'', PStr ''h'')],
      sample_op ''n'' CALL ''f'' 3 ''done'' [], sample_op ''g'' FUNCTION ''g'' 5 ''g'' [],
      sample_op ''k'' CALL ''g'' 6 ''work'' [], sample_op ''r'' RETURN ''g'' 7 [] []]"

definition call_edges :: "operation_edge list" where
  "call_edges =
     [sample_edge ''f'' ''h'' CONTAINS, sample_edge ''h'' ''n'' NEXT, sample_edge ''c'' ''g'' CALLS_EDGE,
      sample_edge ''g'' ''k'' CONTAINS, sample_edge ''k'' ''r'' NEXT]"

abbreviation call_icfg :: icfg where
  "call_icfg \<equiv> make_icfg False (sample_ir call_ops call_edges)"

text \<open>
  C24: A path the interprocedural search returns is a walk in the graph from the source to the target
  whose calls and returns nest: every return leaves a RETURN operation of the function that the
  innermost open call enters by a CALLS edge of the program, and leads to a continuation of that same
  call. Its reported depth is the number of calls left open at its end, and at no point of it are more
  calls open than the bound.
\<close>

theorem icfg_path_sound:
  assumes "icfg_path_query (make_icfg b ir) source target depth max_steps = Inr (Some p)"
  shows "realizable b ir (nat depth) source target p \<and> int (ip_depth p) \<le> depth \<and>
    hd (ip_operations p) = source \<and> last (ip_operations p) = target \<and>
    length (ip_operations p) = Suc (length (ip_arcs p)) \<and>
    count_list (ip_arcs p) CALL_ENTER = count_list (ip_arcs p) CALL_RETURN + ip_depth p"
proof -
  let ?g = "make_icfg b ir"
  from icfg_path_query_ok[OF assms] obtain arcs stack where
    run: "icfg_run ?g (nat depth) source arcs target stack" and
    p: "ip_operations p = source # map ia_target arcs" "ip_arcs p = map ia_kind arcs" "ip_depth p = length stack"
    unfolding path_ok_def by blast
  from run have "last (source # map ia_target arcs) = target" by (cases rule: icfg_run.cases) auto
  moreover have "0 \<le> depth" using assms by (auto simp: icfg_path_query_def split: if_splits)
  ultimately show ?thesis
    using path_query_realizable[OF assms] run_depth[OF run] run_balanced[OF run] p by auto
qed

theorem icfg_path_sound_witness:
  "\<exists>p. icfg_path_query call_icfg ''f'' ''n'' 1 100 = Inr (Some p) \<and>
     realizable False (sample_ir call_ops call_edges) 1 ''f'' ''n'' p \<and> count_list (ip_arcs p) CALL_RETURN = 1"
proof -
  let ?p = "\<lparr>ip_operations = [''f'', ''h'', ''c'', ''g'', ''k'', ''r'', ''n''],
    ip_arcs = [FUNCTION_ENTRY, EMBEDDED_CALL, CALL_ENTER, FUNCTION_ENTRY, CONTROL_FLOW_ARC, CALL_RETURN],
    ip_depth = 0\<rparr>"
  have "icfg_path_query call_icfg ''f'' ''n'' 1 100 = Inr (Some ?p)" by code_simp
  with icfg_path_sound[OF this] show ?thesis by auto
qed

text \<open>
  C25: With more steps than the arcs of all states a bounded run can be in, the search finds a
  path whenever the target can be reached by a stack-consistent run of that depth; the answer
  \<open>None\<close> is then a proof that there is none.
\<close>

theorem icfg_search_complete:
  assumes "dict_has (ic_ops g) source" "dict_has (ic_ops g) target"
    and "0 \<le> depth" "depth \<le> 16" "max_steps \<le> 100000"
    and "sum (expansion_cost g) (state_universe g (nat depth) source) < nat max_steps"
  shows "icfg_path_query g source target depth max_steps = Inr None \<longleftrightarrow>
    source \<noteq> target \<and> (\<nexists>arcs stack. icfg_run g (nat depth) source arcs target stack)"
proof (cases "source = target")
  case False
  have q: "icfg_path_query g source target depth max_steps =
      Inr (search_paths g (nat depth) (nat max_steps) target [(source, [], [source], [])] [] 0)"
    using assms False by (simp add: icfg_path_query_def max_call_depth_limit_def max_steps_limit_def)
  show ?thesis
  proof (cases "search_paths g (nat depth) (nat max_steps) target [(source, [], [source], [])] [] 0")
    case None
    with False q search_complete[OF _ False assms(6)] show ?thesis by auto
  next
    case (Some p)
    with q have "icfg_path_query g source target depth max_steps = Inr (Some p)" by simp
    from icfg_path_query_ok[OF this] q Some show ?thesis unfolding path_ok_def by auto
  qed
qed (use assms in \<open>auto simp: icfg_path_query_def\<close>)

lemma diamond_icfg_universe:
  "state_universe (make_icfg False (sample_ir diamond_ops diamond_edges)) 0 ''x'' =
     {(''x'', []), (''b'', []), (''a'', [])}"
proof -
  have "ic_succ (make_icfg False (sample_ir diamond_ops diamond_edges)) =
      [(''e'', [mk_arc ''e'' ''b'' CONTROL_FLOW_ARC []]),
       (''b'', [mk_arc ''b'' ''a'' CONTROL_FLOW_ARC [], mk_arc ''b'' ''x'' CONTROL_FLOW_ARC []]),
       (''a'', [mk_arc ''a'' ''x'' CONTROL_FLOW_ARC []])]"
    by code_simp
  then show ?thesis by (auto simp: state_universe_def arc_universe_def mk_arc_def)
qed

theorem icfg_search_complete_witness:
  "\<nexists>arcs stack. icfg_run (make_icfg False (sample_ir diamond_ops diamond_edges)) 0 ''x'' arcs ''e'' stack"
proof -
  let ?g = "make_icfg False (sample_ir diamond_ops diamond_edges)"
  have c: "icfg_successors ?g ''x'' = []"
    "map ia_target (icfg_successors ?g ''b'') = [''a'', ''x'']" "map ia_target (icfg_successors ?g ''a'') = [''x'']"
    by code_simp+
  have "length (icfg_successors ?g ''b'') = 2" "length (icfg_successors ?g ''a'') = 1"
    using c(2,3)[THEN arg_cong[where f = length]] by simp_all
  with c(1) have "sum (expansion_cost ?g) (state_universe ?g (nat 0) ''x'') < nat 10"
    by (simp add: diamond_icfg_universe expansion_cost_def)
  moreover have "icfg_path_query ?g ''x'' ''e'' 0 10 = Inr None" by code_simp
  moreover have "dict_has (ic_ops ?g) ''x''" "dict_has (ic_ops ?g) ''e''" by code_simp+
  ultimately show ?thesis using icfg_search_complete[of ?g "''x''" "''e''" 0 10] by simp
qed

text \<open>
  The bounds are enforced: a depth outside 0 to 16 or a step budget outside 1 to 100000 raises,
  and inside the bounds the query returns.
\<close>

theorem icfg_bounds_enforced:
  "(\<exists>r. icfg_path_query g source target depth max_steps = Inr r) \<longleftrightarrow>
     0 \<le> depth \<and> depth \<le> 16 \<and> 1 \<le> max_steps \<and> max_steps \<le> 100000"
  by (auto simp: icfg_path_query_def max_call_depth_limit_def max_steps_limit_def)

text \<open>
  A statement that hosts a resolved call cannot be stepped over: no arc out of it is an ordinary
  control-flow arc, so a run leaves it only through the call.
\<close>

theorem icfg_host_enters_call:
  assumes "a \<in> set (icfg_successors (make_icfg b ir) i)" "i \<in> set (resolved_hosts (make_icfg b ir))"
  shows "ia_kind a \<noteq> CONTROL_FLOW_ARC"
  by (rule host_not_bypassed[OF assms])

theorem icfg_host_enters_call_witness:
  "map ia_kind (icfg_successors call_icfg ''h'') = [EMBEDDED_CALL]"
proof -
  have s: "icfg_successors call_icfg ''h'' = [mk_arc ''h'' ''c'' EMBEDDED_CALL ''c'']" by code_simp
  moreover have "''h'' \<in> set (resolved_hosts call_icfg)" by code_simp
  ultimately have "ia_kind (mk_arc ''h'' ''c'' EMBEDDED_CALL ''c'') \<noteq> CONTROL_FLOW_ARC"
    by (intro icfg_host_enters_call) auto
  with s show ?thesis by (simp add: mk_arc_def)
qed

text \<open>
  Every control-flow arc of the graph comes from a control-flow edge of the program, and every
  call target from a CALLS edge: the construction invents no flow.
\<close>

theorem icfg_arcs_grounded:
  "(a \<in> set (icfg_successors (make_icfg b ir) i) \<and> ia_kind a = CONTROL_FLOW_ARC \<longrightarrow>
     (\<exists>e \<in> set (ir_edges ir). oe_source e = i \<and> oe_target e = ia_target a \<and>
        oe_kind e \<in> set control_flow_kinds)) \<and>
   (t \<in> set (dict_get_or [] (ic_targets (make_icfg b ir)) c) \<longrightarrow>
     (\<exists>e \<in> set (ir_edges ir). oe_source e = c \<and> oe_target e = t \<and> oe_kind e = CALLS_EDGE))"
  using control_arc_grounded call_target_grounded by blast

theorem icfg_arcs_grounded_witness:
  "\<exists>e \<in> set call_edges. oe_source e = ''k'' \<and> oe_target e = ''r'' \<and> oe_kind e \<in> set control_flow_kinds"
proof -
  have "mk_arc ''k'' ''r'' CONTROL_FLOW_ARC [] \<in> set (icfg_successors call_icfg ''k'')" by code_simp
  with icfg_arcs_grounded[of "mk_arc ''k'' ''r'' CONTROL_FLOW_ARC []" False "sample_ir call_ops call_edges" "''k''" "[]" "[]"]
  show ?thesis by (auto simp: mk_arc_def sample_ir_def)
qed

end
