(* ===== verification/StateMachine.thy ===== *)
theory StateMachine
  imports Dominators Icfg
begin

text \<open>
  \<open>analysis/state_machine.py\<close>: declarative state-machine invariants evaluated inside one scope
  over the control-flow graph and across scopes over the bounded interprocedural graph. Queries
  that the graph memoises are used through their computation (the caches are transparent, see
  \<open>ControlFlow\<close> and \<open>Dominators\<close>).
\<close>

text \<open>Values a selector may ask for: what a rule file can write.\<close>

datatype yaml =
    YNull
  | YBool bool
  | YInt int
  | YFloat rat string
  | YStr string
  | YSeq "yaml list"
  | YMap "(yaml \<times> yaml) list"

definition yaml_items_match :: "(yaml \<times> (pyval \<Rightarrow> bool)) list \<Rightarrow> attributes \<Rightarrow> bool" where
  "yaml_items_match kfs d =
     (length kfs = length d \<and>
      list_all (\<lambda>(k, f). case k of
          YStr s \<Rightarrow> (case dict_get d s of None \<Rightarrow> False | Some v \<Rightarrow> f v)
        | _ \<Rightarrow> False) kfs)"

text \<open>Python's \<open>==\<close> between a rule file's value and an attribute.\<close>

primrec yaml_eq :: "yaml \<Rightarrow> pyval \<Rightarrow> bool" where
  "yaml_eq YNull w = (w = PNone)"
| "yaml_eq (YBool b) w = (py_number w = Some (if b then 1 else 0))"
| "yaml_eq (YInt i) w = (py_number w = Some (of_int i))"
| "yaml_eq (YFloat q t) w = (py_number w = Some q)"
| "yaml_eq (YStr s) w = (w = PStr s)"
| "yaml_eq (YSeq ys) w = (case w of PList xs \<Rightarrow> all_match (map yaml_eq ys) xs | _ \<Rightarrow> False)"
| "yaml_eq (YMap kvs) w =
     (case w of PDict d \<Rightarrow> yaml_items_match (map (map_prod id yaml_eq) kvs) d | _ \<Rightarrow> False)"

datatype invariant_kind = REQUIRE_GUARD | FORBID_ACTION | REQUIRE_EXIT

fun invariant_kind_value :: "invariant_kind \<Rightarrow> string" where
  "invariant_kind_value REQUIRE_GUARD = ''require_guard_before_action''"
| "invariant_kind_value FORBID_ACTION = ''forbid_action_after_event''"
| "invariant_kind_value REQUIRE_EXIT = ''require_exit_after_event''"

datatype state_scope = INTRAPROCEDURAL | INTERPROCEDURAL

fun state_scope_value :: "state_scope \<Rightarrow> string" where
  "state_scope_value INTRAPROCEDURAL = ''intraprocedural''"
| "state_scope_value INTERPROCEDURAL = ''interprocedural''"

record selector =
  sel_kinds :: "op_kind list"
  sel_all :: "string list"
  sel_any :: "string list"
  sel_attributes :: "(yaml \<times> yaml) list"

definition searchable :: "operation \<Rightarrow> string" where
  "searchable p = lower (join '' ''
     [op_target p, op_value p, join '' '' (op_operands p), json_attributes (op_attributes p)])"

text \<open>\<open>operation.attributes.get(key)\<close> for any key a rule file can write.\<close>

definition attribute_at :: "attributes \<Rightarrow> yaml \<Rightarrow> pyval" where
  "attribute_at a k = (case k of YStr s \<Rightarrow> dict_get_or PNone a s | _ \<Rightarrow> PNone)"

definition selector_matches :: "selector \<Rightarrow> operation \<Rightarrow> bool" where
  "selector_matches s p =
     (if sel_kinds s \<noteq> [] \<and> op_kind p \<notin> set (sel_kinds s) then False
      else if list_ex (\<lambda>t. \<not> contains_sub (lower t) (searchable p)) (sel_all s) then False
      else if sel_any s \<noteq> [] \<and> \<not> list_ex (\<lambda>t. contains_sub (lower t) (searchable p)) (sel_any s) then False
      else list_all (\<lambda>(k, v). yaml_eq v (attribute_at (op_attributes p) k)) (sel_attributes s))"

record state_invariant =
  si_id :: string
  si_kind :: invariant_kind
  si_event :: selector
  si_action :: selector
  si_guard :: "selector option"
  si_exits :: selector
  si_message :: string
  si_scope :: state_scope
  si_depth :: int

definition make_invariant :: "state_invariant \<Rightarrow> py_error + state_invariant" where
  "make_invariant i =
     (if si_kind i = REQUIRE_GUARD \<and> si_guard i = None
      then Inl (ValueError ''guard is required for require_guard_before_action'')
      else if \<not> (0 \<le> si_depth i \<and> si_depth i \<le> 16)
      then Inl (ValueError ''max_call_depth must be between 0 and 16'')
      else Inr i)"

record state_violation =
  sv_invariant :: string
  sv_message :: string
  sv_scope :: string
  sv_event :: operation
  sv_action :: operation
  sv_missing :: string
  sv_path :: "icfg_path option"
  sv_path_ops :: "operation list"

text \<open>The evidence loop of \<open>to_fact\<close>: at most eight references, each source range once.\<close>

definition range_key :: "evidence_ref \<Rightarrow> string \<times> int \<times> int" where
  "range_key r = (er_file r, er_line_start r, er_line_end r)"

fun violation_evidence ::
  "(string \<times> int \<times> int) list \<Rightarrow> evidence_ref list \<Rightarrow> operation list \<Rightarrow> evidence_ref list" where
  "violation_evidence seen evidence [] = evidence"
| "violation_evidence seen evidence (p # ps) =
     (let r = op_location p;
          fresh = range_key r \<notin> set seen;
          evidence' = (if fresh then evidence @ [r] else evidence);
          seen' = (if fresh then range_key r # seen else seen)
      in if 8 \<le> length evidence' then evidence' else violation_evidence seen' evidence' ps)"

definition violation_to_fact :: "state_violation \<Rightarrow> semantic_fact" where
  "violation_to_fact v =
     (let first = [op_location (sv_event v), op_location (sv_action v)];
          base = [(''invariant_id'', PStr (sv_invariant v)),
                  (''event_operation'', PStr (op_id (sv_event v))),
                  (''action_operation'', PStr (op_id (sv_action v))),
                  (''missing'', PStr (sv_missing v))];
          extra = (case sv_path v of None \<Rightarrow> []
            | Some p \<Rightarrow> [(''proof_scope'', PStr (state_scope_value INTERPROCEDURAL)),
                (''path_operations'', PList (map PStr (ip_operations p))),
                (''path_arcs'', PList (map (\<lambda>k. PStr (icfg_kind_value k)) (ip_arcs p))),
                (''call_depth'', PInt (int (ip_depth p)))])
      in \<lparr>sf_subject = sv_scope v, sf_predicate = Kind STATE_TRANSITION, sf_object = sv_message v,
          sf_evidence = violation_evidence (map range_key first) first (sv_path_ops v),
          sf_confidence = float_one, sf_attributes = base @ extra\<rparr>)"

record state_result =
  sr_violations :: "state_violation list"
  sr_invariants :: nat
  sr_scopes :: nat
  sr_paths :: nat
  sr_unknowns :: nat

definition state_evidence_pack :: "state_result \<Rightarrow> string \<Rightarrow> string \<Rightarrow> evidence_pack" where
  "state_evidence_pack r query version =
     pack_from_facts query (map violation_to_fact (sr_violations r)) []
       [''state-invariants:'' @ str_of_nat (sr_invariants r),
        ''state-scopes:'' @ str_of_nat (sr_scopes r),
        ''state-interprocedural-paths:'' @ str_of_nat (sr_paths r),
        ''state-interprocedural-unknowns:'' @ str_of_nat (sr_unknowns r)] version"

section \<open>Inside one scope\<close>

definition guard_proves_action :: "cfg \<Rightarrow> operation \<Rightarrow> operation \<Rightarrow> operation \<Rightarrow> bool" where
  "guard_proves_action g event guard action =
     (if op_kind guard = BRANCH then branch_controls g (op_id guard) (op_id action)
      else dominates_between g (op_id event) (op_id guard) (op_id action))"

definition scope_guards ::
  "cfg \<Rightarrow> operation list \<Rightarrow> selector \<Rightarrow> operation \<Rightarrow> operation \<Rightarrow> operation list" where
  "scope_guards g operations sel event action =
     filter (\<lambda>p. op_id p \<noteq> op_id event \<and> op_id p \<noteq> op_id action \<and> selector_matches sel p \<and>
         reachable_compute g (op_id event) (op_id p) \<and> reachable_compute g (op_id p) (op_id action) \<and>
         dominates_between g (op_id event) (op_id p) (op_id action) \<and>
         guard_proves_action g event p action) operations"

definition scope_violation ::
  "state_invariant \<Rightarrow> string \<Rightarrow> operation \<Rightarrow> operation \<Rightarrow> string \<Rightarrow> state_violation" where
  "scope_violation i scope event action missing =
     \<lparr>sv_invariant = si_id i, sv_message = si_message i, sv_scope = scope, sv_event = event,
      sv_action = action, sv_missing = missing, sv_path = None, sv_path_ops = []\<rparr>"

text \<open>What one reachable (event, action) pair adds.\<close>

definition pair_violations ::
  "cfg \<Rightarrow> operation list \<Rightarrow> state_invariant \<Rightarrow> string \<Rightarrow> operation \<Rightarrow> operation \<Rightarrow> state_violation list" where
  "pair_violations g operations i scope event action =
     (case si_kind i of
        REQUIRE_GUARD \<Rightarrow>
          (case si_guard i of None \<Rightarrow> []
           | Some sel \<Rightarrow> if scope_guards g operations sel event action \<noteq> [] then []
               else [scope_violation i scope event action ''guard''])
      | FORBID_ACTION \<Rightarrow> [scope_violation i scope event action ''forbidden_action'']
      | REQUIRE_EXIT \<Rightarrow> [scope_violation i scope event action ''exit''])"

definition evaluate_scope ::
  "cfg \<Rightarrow> string \<Rightarrow> operation list \<Rightarrow> state_invariant \<Rightarrow> state_violation list" where
  "evaluate_scope g scope operations i =
     (let events = filter (selector_matches (si_event i)) operations;
          actions = filter (selector_matches (si_action i)) operations
      in concat (map (\<lambda>event.
           concat (map (pair_violations g operations i scope event)
             (filter (\<lambda>a. op_id a \<noteq> op_id event \<and> reachable_compute g (op_id event) (op_id a)) actions)))
           events))"

section \<open>Across scopes\<close>

definition dominates :: "cfg \<Rightarrow> string \<Rightarrow> string \<Rightarrow> bool" where
  "dominates g d n = (case cfg_dominates g d n of None \<Rightarrow> False | Some (b, g') \<Rightarrow> b)"

definition host_of :: "operation \<Rightarrow> string" where
  "host_of p = attr_str [] (op_attributes p) ''host_operation''"

definition cross_scope_guard :: "cfg \<Rightarrow> operation \<Rightarrow> operation \<Rightarrow> bool" where
  "cross_scope_guard g guard action =
     (if op_scope guard \<noteq> op_scope action then False
      else (let point = (if host_of action \<noteq> [] then host_of action else op_id action)
        in reachable_compute g (op_id guard) point \<and> dominates g (op_id guard) point \<and>
           branch_controls g (op_id guard) point))"

definition path_operations :: "operation list \<Rightarrow> icfg_path \<Rightarrow> (string, operation) dict" where
  "path_operations operations path =
     dict_of op_id (\<lambda>p. p) (filter (\<lambda>p. op_id p \<in> set (ip_operations path)) operations)"

definition on_path :: "operation list \<Rightarrow> icfg_path \<Rightarrow> operation list" where
  "on_path operations path =
     List.map_filter (dict_get (path_operations operations path)) (ip_operations path)"

definition path_guards ::
  "operation list \<Rightarrow> state_invariant \<Rightarrow> operation \<Rightarrow> operation \<Rightarrow> icfg_path \<Rightarrow> operation list" where
  "path_guards operations i event action path =
     filter (\<lambda>p. op_id p \<noteq> op_id event \<and> op_id p \<noteq> op_id action \<and>
         (case si_guard i of None \<Rightarrow> False | Some sel \<Rightarrow> selector_matches sel p))
       (on_path operations path)"

definition path_violation ::
  "operation list \<Rightarrow> state_invariant \<Rightarrow> operation \<Rightarrow> operation \<Rightarrow> icfg_path \<Rightarrow> string \<Rightarrow> state_violation" where
  "path_violation operations i event action path missing =
     \<lparr>sv_invariant = si_id i, sv_message = si_message i, sv_scope = op_scope event, sv_event = event,
      sv_action = action, sv_missing = missing, sv_path = Some path,
      sv_path_ops = on_path operations path\<rparr>"

text \<open>Violations, paths and unknowns of one (event, action) pair.\<close>

definition evaluate_path ::
  "cfg \<Rightarrow> operation list \<Rightarrow> state_invariant \<Rightarrow> operation \<Rightarrow> operation \<Rightarrow> icfg_path
   \<Rightarrow> state_violation list \<times> nat" where
  "evaluate_path g operations i event action path =
     (case si_kind i of
        REQUIRE_GUARD \<Rightarrow>
          (let guards = path_guards operations i event action path in
           if guards = [] then ([path_violation operations i event action path ''guard''], 0)
           else if \<not> list_ex (\<lambda>p. cross_scope_guard g p action) guards then ([], 1)
           else ([], 0))
      | FORBID_ACTION \<Rightarrow> ([path_violation operations i event action path ''forbidden_action''], 0)
      | REQUIRE_EXIT \<Rightarrow> ([path_violation operations i event action path ''exit''], 0))"

definition default_max_steps :: int where "default_max_steps = 10000"

fun evaluate_pairs ::
  "cfg \<Rightarrow> icfg \<Rightarrow> operation list \<Rightarrow> state_invariant \<Rightarrow> state_violation list \<times> nat \<times> nat
   \<Rightarrow> (operation \<times> operation) list \<Rightarrow> py_error + state_violation list \<times> nat \<times> nat" where
  "evaluate_pairs g ic operations i acc [] = Inr acc"
| "evaluate_pairs g ic operations i (vs, paths, unknowns) ((event, action) # rest) =
     (if op_scope event = op_scope action \<or> op_id event = op_id action
      then evaluate_pairs g ic operations i (vs, paths, unknowns) rest
      else (case icfg_path_query ic (op_id event) (op_id action) (si_depth i) default_max_steps of
          Inl e \<Rightarrow> Inl e
        | Inr None \<Rightarrow> evaluate_pairs g ic operations i (vs, paths, unknowns) rest
        | Inr (Some path) \<Rightarrow>
            (let (new, u) = evaluate_path g operations i event action path
             in evaluate_pairs g ic operations i (vs @ new, Suc paths, unknowns + u) rest)))"

definition evaluate_interprocedural ::
  "cfg \<Rightarrow> icfg \<Rightarrow> operation list \<Rightarrow> state_invariant \<Rightarrow> py_error + state_violation list \<times> nat \<times> nat" where
  "evaluate_interprocedural g ic operations i =
     evaluate_pairs g ic operations i ([], 0, 0)
       (List.product (filter (selector_matches (si_event i)) operations)
                     (filter (selector_matches (si_action i)) operations))"

section \<open>The analyser\<close>

definition ops_by_scope :: "semantic_ir \<Rightarrow> string list \<Rightarrow> (string, operation list) dict" where
  "ops_by_scope ir languages =
     map (\<lambda>(s, ps). (s, sort_key op_order ps))
       (foldl (\<lambda>d p. if language_allowed languages p \<and> op_scope p \<noteq> []
                     then dict_append (op_scope p) p d else d) [] (ir_operations ir))"

definition intra_violations ::
  "cfg \<Rightarrow> (string, operation list) dict \<Rightarrow> state_invariant list \<Rightarrow> state_violation list" where
  "intra_violations g scopes invariants =
     concat (map (\<lambda>(s, ps). concat (map (evaluate_scope g s ps)
         (filter (\<lambda>i. si_scope i \<noteq> INTERPROCEDURAL) invariants)))
       (sort_key fst scopes))"

fun inter_loop ::
  "cfg \<Rightarrow> icfg \<Rightarrow> operation list \<Rightarrow> state_result \<Rightarrow> state_invariant list \<Rightarrow> py_error + state_result" where
  "inter_loop g ic operations r [] = Inr r"
| "inter_loop g ic operations r (i # is) =
     (if si_scope i \<noteq> INTERPROCEDURAL then inter_loop g ic operations r is
      else (case evaluate_interprocedural g ic operations i of Inl e \<Rightarrow> Inl e
        | Inr (vs, paths, unknowns) \<Rightarrow>
            inter_loop g ic operations
              (r\<lparr>sr_violations := sr_violations r @ vs, sr_paths := sr_paths r + paths,
                 sr_unknowns := sr_unknowns r + unknowns\<rparr>) is))"

definition analyze_states ::
  "semantic_ir \<Rightarrow> state_invariant list \<Rightarrow> string list \<Rightarrow> py_error + state_result" where
  "analyze_states ir invariants languages =
     (let g = cfg_from_ir ir languages;
          scopes = ops_by_scope ir languages;
          r = \<lparr>sr_violations = intra_violations g scopes invariants,
               sr_invariants = length invariants, sr_scopes = length scopes,
               sr_paths = 0, sr_unknowns = 0\<rparr>
      in if list_ex (\<lambda>i. si_scope i = INTERPROCEDURAL) invariants
         then inter_loop g (make_icfg False ir)
                (sort_key op_order (concat (dict_values scopes))) r invariants
         else Inr r)"

section \<open>Facts inside a scope\<close>

lemma evaluate_scope_iff:
  "v \<in> set (evaluate_scope g s ps i) \<longleftrightarrow>
     (\<exists>event action. event \<in> set ps \<and> action \<in> set ps \<and> selector_matches (si_event i) event \<and>
        selector_matches (si_action i) action \<and> op_id action \<noteq> op_id event \<and>
        reachable_compute g (op_id event) (op_id action) \<and> v \<in> set (pair_violations g ps i s event action))"
  by (auto simp: evaluate_scope_def Let_def)

lemma scope_guards_iff:
  "q \<in> set (scope_guards g ps sel event action) \<longleftrightarrow>
     q \<in> set ps \<and> op_id q \<noteq> op_id event \<and> op_id q \<noteq> op_id action \<and> selector_matches sel q \<and>
     flow_queries.protects (reachable_compute g) (dominates_between g) (op_id event) (op_id q) (op_id action) \<and>
     (op_kind q = BRANCH \<longrightarrow> branch_controls g (op_id q) (op_id action))"
  by (auto simp: scope_guards_def flow.protects_def guard_proves_action_def)

text \<open>No violation: every path from an event to an action visits a guard.\<close>

lemma guarded_paths:
  assumes "evaluate_scope g s ps i = []" "si_kind i = REQUIRE_GUARD" "si_guard i = Some sel"
    and "event \<in> set ps" "action \<in> set ps" "selector_matches (si_event i) event"
    and "selector_matches (si_action i) action" "op_id action \<noteq> op_id event"
    and "same_scope g (op_id event) (op_id action)"
    and p: "path_between g (op_id event) p (op_id action)" "2 \<le> length p"
  shows "\<exists>q \<in> set ps. selector_matches sel q \<and> op_id q \<in> set p"
proof -
  have "reachable_compute g (op_id event) (op_id action)"
    using assms(9) p by (auto simp: flow.reach_path)
  then have "pair_violations g ps i s event action = []"
    using assms(1,4-8) evaluate_scope_iff[of _ g s ps i] by (metis ex_in_conv set_empty)
  then have "scope_guards g ps sel event action \<noteq> []"
    using assms(2,3) by (auto simp: pair_violations_def split: if_splits)
  then obtain q where "q \<in> set (scope_guards g ps sel event action)"
    by (cases "scope_guards g ps sel event action") auto
  then show ?thesis using p flow.protects_path by (auto simp: scope_guards_iff)
qed

lemma scope_violation_path:
  assumes "v \<in> set (evaluate_scope g s ps i)"
  shows "sv_event v \<in> set ps \<and> sv_action v \<in> set ps \<and> selector_matches (si_event i) (sv_event v) \<and>
    selector_matches (si_action i) (sv_action v) \<and>
    (\<exists>p. path_between g (op_id (sv_event v)) p (op_id (sv_action v)) \<and> 2 \<le> length p)"
proof -
  obtain event action where ea: "event \<in> set ps" "action \<in> set ps" "selector_matches (si_event i) event"
    "selector_matches (si_action i) action" "reachable_compute g (op_id event) (op_id action)"
    "v \<in> set (pair_violations g ps i s event action)"
    using assms by (auto simp: evaluate_scope_iff)
  then have "sv_event v = event" "sv_action v = action"
    by (auto simp: pair_violations_def scope_violation_def split: invariant_kind.splits option.splits if_splits)
  with ea show ?thesis by (auto simp: flow.reach_path)
qed

section \<open>Facts across scopes\<close>

lemma evaluate_pairs_violation:
  "evaluate_pairs g ic ps i (vs, n, m) pairs = Inr (vs', n', m') \<Longrightarrow> v \<in> set vs' \<Longrightarrow> v \<notin> set vs \<Longrightarrow>
   \<exists>event action path. (event, action) \<in> set pairs \<and> op_scope event \<noteq> op_scope action \<and>
     icfg_path_query ic (op_id event) (op_id action) (si_depth i) default_max_steps = Inr (Some path) \<and>
     v \<in> set (fst (evaluate_path g ps i event action path))"
proof (induction g ic ps i "(vs, n, m)" pairs arbitrary: vs n m rule: evaluate_pairs.induct)
  case (2 g ic ps i vs n m event action rest)
  show ?case
  proof (cases "op_scope event = op_scope action \<or> op_id event = op_id action")
    case True
    with 2 show ?thesis by auto
  next
    case False
    then obtain r where r: "icfg_path_query ic (op_id event) (op_id action) (si_depth i) default_max_steps = Inr r"
      using 2(4) by (auto split: sum.splits)
    show ?thesis
    proof (cases r)
      case None
      with 2 False r show ?thesis by auto
    next
      case (Some path)
      obtain new u where e: "evaluate_path g ps i event action path = (new, u)"
        by (cases "evaluate_path g ps i event action path")
      have rest: "evaluate_pairs g ic ps i (vs @ new, Suc n, m + u) rest = Inr (vs', n', m')"
        using 2(4) False r Some e by simp
      show ?thesis
      proof (cases "v \<in> set new")
        case True
        with False r Some e show ?thesis
          by (intro exI[of _ event] exI[of _ action] exI[of _ path]) simp
      next
        case F: False
        with 2(6) have "v \<notin> set (vs @ new)" by simp
        from 2(3)[OF False r Some e[symmetric] refl rest 2(5) this] show ?thesis by auto
      qed
    qed
  qed
qed simp

lemma on_path_iff:
  assumes "distinct (map op_id ps)"
  shows "q \<in> set (on_path ps path) \<longleftrightarrow> q \<in> set ps \<and> op_id q \<in> set (ip_operations path)"
proof -
  let ?f = "filter (\<lambda>p. op_id p \<in> set (ip_operations path)) ps"
  have d: "distinct (map op_id ?f)" using assms by (induction ps) auto
  have "dict_get (path_operations ps path) j = Some q \<longleftrightarrow> q \<in> set ?f \<and> op_id q = j" for j
    unfolding path_operations_def
    using dict_get_dict_of_distinct[OF d, of q "\<lambda>p. p"] dict_get_dict_of_Some[of op_id "\<lambda>p. p" ?f j q] by auto
  then show ?thesis
    by (auto simp: on_path_def List.map_filter_def image_iff) (metis option.sel option.simps(3))+
qed

lemma interprocedural_violation:
  assumes "evaluate_interprocedural g (make_icfg b ir) ps i = Inr (vs, n, m)" "v \<in> set vs" "distinct (map op_id ps)"
  shows "\<exists>path. sv_path v = Some path \<and> sv_event v \<in> set ps \<and> sv_action v \<in> set ps \<and>
    selector_matches (si_event i) (sv_event v) \<and> selector_matches (si_action i) (sv_action v) \<and>
    op_scope (sv_event v) \<noteq> op_scope (sv_action v) \<and>
    realizable b ir (nat (si_depth i)) (op_id (sv_event v)) (op_id (sv_action v)) path \<and>
    (\<forall>sel q. si_kind i = REQUIRE_GUARD \<and> si_guard i = Some sel \<and> q \<in> set ps \<and>
       op_id q \<in> set (ip_operations path) \<and> op_id q \<noteq> op_id (sv_event v) \<and> op_id q \<noteq> op_id (sv_action v)
       \<longrightarrow> \<not> selector_matches sel q)"
proof -
  obtain event action path where e: "event \<in> set ps" "action \<in> set ps"
    "selector_matches (si_event i) event" "selector_matches (si_action i) action"
    "op_scope event \<noteq> op_scope action"
    "icfg_path_query (make_icfg b ir) (op_id event) (op_id action) (si_depth i) default_max_steps = Inr (Some path)"
    "v \<in> set (fst (evaluate_path g ps i event action path))"
    using evaluate_pairs_violation[OF assms(1)[unfolded evaluate_interprocedural_def] assms(2)] by auto
  have v: "sv_path v = Some path \<and> sv_event v = event \<and> sv_action v = action"
    using e(7) by (auto simp: evaluate_path_def path_violation_def Let_def split: invariant_kind.splits if_splits)
  have "si_kind i = REQUIRE_GUARD \<Longrightarrow> path_guards ps i event action path = []"
    using e(7) by (auto simp: evaluate_path_def Let_def split: if_splits)
  then have "\<not> selector_matches sel q" if "si_kind i = REQUIRE_GUARD" "si_guard i = Some sel" "q \<in> set ps"
    "op_id q \<in> set (ip_operations path)" "op_id q \<noteq> op_id event" "op_id q \<noteq> op_id action" for sel q
    using that on_path_iff[OF assms(3)] by (auto simp: path_guards_def filter_empty_conv)
  with v e path_query_realizable[OF e(6)] show ?thesis by auto
qed

section \<open>Totality and what the result ignores\<close>

definition valid_depth :: "state_invariant \<Rightarrow> bool" where
  "valid_depth i \<longleftrightarrow> 0 \<le> si_depth i \<and> si_depth i \<le> 16"

lemma make_invariant_valid: "make_invariant i = Inr j \<Longrightarrow> j = i \<and> valid_depth i"
  by (auto simp: make_invariant_def valid_depth_def split: if_splits)

lemma path_query_total:
  assumes "valid_depth i"
  shows "\<exists>r. icfg_path_query ic s t (si_depth i) default_max_steps = Inr r"
  using assms by (auto simp: icfg_path_query_def valid_depth_def max_call_depth_limit_def max_steps_limit_def
      default_max_steps_def)

lemma evaluate_pairs_total:
  "valid_depth i \<Longrightarrow> \<exists>vs' n' m'. evaluate_pairs g ic ps i (vs, n, m) pairs = Inr (vs', n', m') \<and>
     n \<le> n' \<and> length vs' + m' + n \<le> length vs + m + n'"
proof (induction pairs arbitrary: vs n m)
  case (Cons pair pairs)
  obtain event action where pair: "pair = (event, action)" by (cases pair)
  obtain r where r: "icfg_path_query ic (op_id event) (op_id action) (si_depth i) default_max_steps = Inr r"
    using path_query_total[OF Cons.prems] by blast
  show ?case
  proof (cases r)
    case None
    with Cons r pair show ?thesis by auto
  next
    case (Some path)
    obtain new u where e: "evaluate_path g ps i event action path = (new, u)"
      by (cases "evaluate_path g ps i event action path")
    then have "length new + u \<le> 1"
      by (auto simp: evaluate_path_def Let_def split: invariant_kind.splits if_splits)
    moreover note Cons.IH[OF Cons.prems, of "vs @ new" "Suc n" "m + u"] Cons.IH[OF Cons.prems, of vs n m]
    ultimately show ?thesis using r pair Some e by fastforce
  qed
qed simp

lemma inter_loop_total:
  "\<forall>i \<in> set is. valid_depth i \<Longrightarrow> \<exists>r'. inter_loop g ic ps r is = Inr r' \<and> sr_scopes r' = sr_scopes r \<and>
     sr_invariants r' = sr_invariants r"
proof (induction "is" arbitrary: r)
  case (Cons i "is")
  obtain vs n m where "evaluate_interprocedural g ic ps i = Inr (vs, n, m)"
    using Cons.prems evaluate_pairs_total[of i g ic ps "[]" 0 0] unfolding evaluate_interprocedural_def
    by (meson list.set_intros(1))
  moreover note Cons.IH[of r] Cons.IH[of "r\<lparr>sr_violations := sr_violations r @ vs,
      sr_paths := sr_paths r + n, sr_unknowns := sr_unknowns r + m\<rparr>"]
  ultimately show ?case using Cons.prems by simp
qed simp

lemma analyze_states_total:
  "\<forall>i \<in> set invs. valid_depth i \<Longrightarrow> \<exists>r. analyze_states ir invs languages = Inr r \<and>
     sr_invariants r = length invs"
  using inter_loop_total[of invs] by (simp add: analyze_states_def Let_def) (metis state_result.select_convs(2))

abbreviation with_exits :: "selector \<Rightarrow> state_invariant \<Rightarrow> state_invariant" where
  "with_exits s i \<equiv> i\<lparr>si_exits := s\<rparr>"

lemma pair_violations_exits [simp]: "pair_violations g ps (with_exits s i) sc = pair_violations g ps i sc"
  by (intro ext) (simp add: pair_violations_def scope_violation_def
      split: invariant_kind.splits option.splits)

lemma evaluate_scope_exits [simp]: "evaluate_scope g sc ps (with_exits s i) = evaluate_scope g sc ps i"
  by (simp add: evaluate_scope_def)

lemma evaluate_path_exits [simp]: "evaluate_path g ps (with_exits s i) = evaluate_path g ps i"
  by (intro ext) (simp add: evaluate_path_def path_guards_def path_violation_def Let_def
      cong: invariant_kind.case_cong)

lemma evaluate_pairs_exits [simp]:
  "evaluate_pairs g ic ps (with_exits s i) acc pairs = evaluate_pairs g ic ps i acc pairs"
proof (induction pairs arbitrary: acc)
  case (Cons pair pairs)
  then show ?case by (cases acc; cases pair) (simp split: sum.splits option.splits prod.splits)
qed simp

lemma inter_loop_exits:
  "inter_loop g ic ps r (map (with_exits s) is) = inter_loop g ic ps r is"
  by (induction g ic ps r "is" rule: inter_loop.induct)
    (auto simp: evaluate_interprocedural_def split: sum.splits prod.splits)

lemma analyze_states_exits: "analyze_states ir (map (with_exits s) invs) languages = analyze_states ir invs languages"
proof -
  have "intra_violations g sc (map (with_exits s) invs) = intra_violations g sc invs" for g sc
    by (simp add: intra_violations_def filter_map o_def case_prod_unfold)
  then show ?thesis
    by (simp add: analyze_states_def Let_def inter_loop_exits list_ex_iff)
qed

lemma violation_evidence_length:
  "length evidence \<le> 7 \<Longrightarrow> length (violation_evidence seen evidence ps) \<le> 8"
  by (induction seen evidence ps rule: violation_evidence.induct) (auto simp: Let_def)

section \<open>Properties\<close>

text \<open>Which operations the analyser groups under a scope.\<close>

abbreviation analysed :: "string list \<Rightarrow> operation \<Rightarrow> bool" where
  "analysed languages p \<equiv> language_allowed languages p \<and> op_scope p \<noteq> []"

lemma ops_by_scope_iff:
  assumes "p \<in> set (ir_operations ir)" "analysed languages p"
  shows "\<exists>ps. (op_scope p, ps) \<in> set (ops_by_scope ir languages) \<and>
    set ps = {q \<in> set (ir_operations ir). analysed languages q \<and> op_scope q = op_scope p}"
proof -
  let ?d = "foldl (\<lambda>d p. if analysed languages p then dict_append (op_scope p) p d else d) [] (ir_operations ir)"
  have g: "dict_get_or [] ?d (op_scope p) = filter (\<lambda>q. analysed languages q \<and> op_scope q = op_scope p) (ir_operations ir)"
    by (simp add: group_get)
  with assms have "dict_get_or [] ?d (op_scope p) \<noteq> []" by (auto simp: filter_empty_conv)
  then obtain qs where qs: "dict_get ?d (op_scope p) = Some qs"
    by (cases "dict_get ?d (op_scope p)") (auto simp: dict_get_or_def dict_get_def)
  then have "qs = dict_get_or [] ?d (op_scope p)" by (simp add: dict_get_or_def dict_get_def)
  with g have "set qs = {q \<in> set (ir_operations ir). analysed languages q \<and> op_scope q = op_scope p}" by auto
  moreover from qs have "(op_scope p, qs) \<in> set ?d" by (auto simp: dict_get_def dest: map_of_SomeD)
  ultimately show ?thesis
    by (intro exI[of _ "sort_key op_order qs"]) (auto simp: ops_by_scope_def image_iff intro!: bexI)
qed

lemma ops_by_scope_sound:
  assumes "(s, ps) \<in> set (ops_by_scope ir languages)"
  shows "set ps \<subseteq> {q \<in> set (ir_operations ir). analysed languages q \<and> op_scope q = s}"
proof -
  let ?d = "foldl (\<lambda>d p. if analysed languages p then dict_append (op_scope p) p d else d) [] (ir_operations ir)"
  obtain qs where qs: "(s, qs) \<in> set ?d" "ps = sort_key op_order qs"
    using assms by (auto simp: ops_by_scope_def)
  then have "dict_get_or [] ?d s = qs"
    using group_distinct[of "[]" "analysed languages" op_scope] by (simp add: dict_get_or_def)
  with qs show ?thesis by (auto simp: group_get)
qed

lemma inter_loop_keeps: "inter_loop g ic ps r is = Inr r' \<Longrightarrow> set (sr_violations r) \<subseteq> set (sr_violations r')"
proof (induction g ic ps r "is" rule: inter_loop.induct)
  case (2 g ic operations r i "is")
  then show ?case by (fastforce split: if_splits sum.splits)
qed simp

lemma analyze_states_intra:
  assumes "analyze_states ir invs languages = Inr r" "(s, ps) \<in> set (ops_by_scope ir languages)"
    and "i \<in> set invs" "si_scope i \<noteq> INTERPROCEDURAL"
  shows "set (evaluate_scope (cfg_from_ir ir languages) s ps i) \<subseteq> set (sr_violations r)"
proof -
  have "set (evaluate_scope (cfg_from_ir ir languages) s ps i) \<subseteq>
      set (intra_violations (cfg_from_ir ir languages) (ops_by_scope ir languages) invs)"
    using assms(2-4) by (force simp: intra_violations_def)
  also have "\<dots> \<subseteq> set (sr_violations r)"
    using assms(1) inter_loop_keeps by (force simp: analyze_states_def Let_def split: if_splits)
  finally show ?thesis .
qed

lemma same_scope_from_ir:
  assumes "distinct (map op_id (ir_operations ir))" "p \<in> set (ir_operations ir)" "q \<in> set (ir_operations ir)"
    and "language_allowed languages p" "language_allowed languages q" "op_scope p = op_scope q"
  shows "same_scope (cfg_from_ir ir languages) (op_id p) (op_id q)"
proof -
  have "distinct (map op_id (filter (language_allowed languages) (ir_operations ir)))"
    using assms(1) by (simp add: distinct_map_filter)
  from ops_by_id_distinct[OF this] assms show ?thesis
    by (simp add: same_scope_iff cfg_from_ir_def Let_def)
qed

text \<open>
  C1: When the analyser reports nothing, every intraprocedural guard invariant holds on paths:
  along each control-flow path from an event to an action of the same scope, an operation the guard
  selector matches is executed.
\<close>

theorem silent_analysis_guards_paths:
  assumes "analyze_states ir invs languages = Inr r" "sr_violations r = []"
    and "i \<in> set invs" "si_scope i = INTRAPROCEDURAL" "si_kind i = REQUIRE_GUARD" "si_guard i = Some sel"
    and "distinct (map op_id (ir_operations ir))"
    and "event \<in> set (ir_operations ir)" "action \<in> set (ir_operations ir)"
    and "analysed languages event" "analysed languages action"
    and "op_scope action = op_scope event" "op_id action \<noteq> op_id event"
    and "selector_matches (si_event i) event" "selector_matches (si_action i) action"
    and "path_between (cfg_from_ir ir languages) (op_id event) p (op_id action)"
  shows "\<exists>q \<in> set (ir_operations ir). selector_matches sel q \<and> op_id q \<in> set p"
proof -
  obtain ps where ps: "(op_scope event, ps) \<in> set (ops_by_scope ir languages)"
    "set ps = {q \<in> set (ir_operations ir). analysed languages q \<and> op_scope q = op_scope event}"
    using ops_by_scope_iff[OF assms(8,10)] by blast
  have none: "evaluate_scope (cfg_from_ir ir languages) (op_scope event) ps i = []"
    using analyze_states_intra[OF assms(1) ps(1) assms(3)] assms(2,4) by simp
  have "2 \<le> length p"
    using assms(13,16) by (cases p; cases "tl p") (auto simp: path_between_def)
  have m: "event \<in> set ps" "action \<in> set ps" unfolding ps(2) using assms(8-12) by auto
  have scope: "same_scope (cfg_from_ir ir languages) (op_id event) (op_id action)"
    by (rule same_scope_from_ir) (use assms(7-12) in auto)
  from guarded_paths[OF none assms(5,6) m assms(14,15,13) scope assms(16) \<open>2 \<le> length p\<close>]
  show ?thesis unfolding ps(2) by blast
qed

text \<open>
  Every violation reported inside a scope is about two operations of the program in that scope
  that the event and action selectors match, joined by a control-flow path.
\<close>

theorem scope_violations_grounded:
  assumes "(s, ps) \<in> set (ops_by_scope ir languages)"
    and "v \<in> set (evaluate_scope (cfg_from_ir ir languages) s ps i)"
  shows "sv_event v \<in> set (ir_operations ir) \<and> sv_action v \<in> set (ir_operations ir) \<and>
    op_scope (sv_event v) = s \<and> op_scope (sv_action v) = s \<and>
    selector_matches (si_event i) (sv_event v) \<and> selector_matches (si_action i) (sv_action v) \<and>
    (\<exists>p. path_between (cfg_from_ir ir languages) (op_id (sv_event v)) p (op_id (sv_action v)) \<and> 2 \<le> length p)"
  using scope_violation_path[OF assms(2)] ops_by_scope_sound[OF assms(1)] by auto

text \<open>
  C2: An interprocedural violation carries a realizable path of at most the configured depth from an
  event to an action of another scope: consecutive arcs of the graph of the program in which every
  return answers the innermost open call. For a guard invariant no operation on that path matches the
  guard selector, the event and the action themselves excepted, which the analyser never takes for
  their own guard.
\<close>

theorem interprocedural_violation_path:
  assumes "evaluate_interprocedural g (make_icfg b ir) ps i = Inr (vs, n, m)" "v \<in> set vs" "distinct (map op_id ps)"
  shows "\<exists>path. sv_path v = Some path \<and> sv_event v \<in> set ps \<and> sv_action v \<in> set ps \<and>
    selector_matches (si_event i) (sv_event v) \<and> selector_matches (si_action i) (sv_action v) \<and>
    op_scope (sv_event v) \<noteq> op_scope (sv_action v) \<and>
    realizable b ir (nat (si_depth i)) (op_id (sv_event v)) (op_id (sv_action v)) path \<and>
    (\<forall>sel q. si_kind i = REQUIRE_GUARD \<and> si_guard i = Some sel \<and> q \<in> set ps \<and>
       op_id q \<in> set (ip_operations path) \<and> op_id q \<noteq> op_id (sv_event v) \<and> op_id q \<noteq> op_id (sv_action v)
       \<longrightarrow> \<not> selector_matches sel q)"
  by (rule interprocedural_violation[OF assms])

text \<open>
  The analyser always returns for invariants the constructor accepts, and never loses one:
  the result counts every invariant it was given.
\<close>

theorem analysis_total:
  assumes "\<forall>i \<in> set invs. make_invariant i = Inr i"
  shows "\<exists>r. analyze_states ir invs languages = Inr r \<and> sr_invariants r = length invs"
  using assms make_invariant_valid by (intro analyze_states_total) blast

text \<open>
  The exit selector of an invariant is never consulted: replacing it in every invariant
  changes no result, so an exit declared for \<open>require_exit_after_event\<close> discharges nothing.
\<close>

theorem exits_never_consulted:
  "analyze_states ir (map (with_exits s) invs) languages = analyze_states ir invs languages"
  by (rule analyze_states_exits)

section \<open>Instances\<close>

definition call_selector :: "string \<Rightarrow> selector" where
  "call_selector t = \<lparr>sel_kinds = [], sel_all = [t], sel_any = [], sel_attributes = []\<rparr>"

definition guard_invariant :: "string \<Rightarrow> string \<Rightarrow> string \<Rightarrow> state_scope \<Rightarrow> state_invariant" where
  "guard_invariant event action guard scope =
     \<lparr>si_id = ''order'', si_kind = REQUIRE_GUARD, si_event = call_selector event,
      si_action = call_selector action, si_guard = Some (call_selector guard),
      si_exits = call_selector [], si_message = ''unguarded'', si_scope = scope, si_depth = 4\<rparr>"

abbreviation diamond_ir :: semantic_ir where "diamond_ir \<equiv> sample_ir diamond_ops diamond_edges"

theorem silent_analysis_guards_paths_witness:
  "\<exists>q \<in> set diamond_ops. selector_matches (call_selector ''check'') q \<and> op_id q \<in> set [''e'', ''b'', ''a'']"
proof -
  let ?p = "[''e'', ''b'', ''a'']"
  have p: "path_between (cfg_from_ir diamond_ir []) ''e'' ?p ''a''" unfolding path_between_def by code_simp
  let ?i = "guard_invariant ''open'' ''use'' ''check'' INTRAPROCEDURAL"
  let ?e = "diamond_ops ! 0" and ?a = "diamond_ops ! 2"
  have r: "map_sum id sr_violations (analyze_states diamond_ir [?i] []) = Inr []" by code_simp
  then obtain r where "analyze_states diamond_ir [?i] [] = Inr r" "sr_violations r = []"
    by (cases "analyze_states diamond_ir [?i] []") auto
  moreover have "selector_matches (si_event ?i) ?e" "selector_matches (si_action ?i) ?a" by code_simp+
  moreover have "op_id ?e = ''e''" "op_id ?a = ''a''" by code_simp+
  moreover have "distinct (map op_id (ir_operations diamond_ir))" by code_simp
  moreover have "analysed [] ?e" "analysed [] ?a" "op_scope ?a = op_scope ?e" by code_simp+
  moreover have "?e \<in> set (ir_operations diamond_ir)" "?a \<in> set (ir_operations diamond_ir)" by code_simp+
  moreover have "si_scope ?i = INTRAPROCEDURAL" "si_kind ?i = REQUIRE_GUARD" "si_guard ?i = Some (call_selector ''check'')"
    by (simp_all add: guard_invariant_def)
  ultimately show ?thesis
    using silent_analysis_guards_paths[of diamond_ir "[?i]" "[]" r ?i "call_selector ''check''" ?e ?a ?p] p
    by (simp add: sample_ir_def)
qed

theorem scope_violations_grounded_witness:
  "\<exists>p. path_between (cfg_from_ir diamond_ir []) ''e'' p ''a'' \<and> 2 \<le> length p"
proof -
  let ?i = "guard_invariant ''open'' ''use'' ''absent'' INTRAPROCEDURAL"
  have m: "(''s'', diamond_ops) \<in> set (ops_by_scope diamond_ir [])" by code_simp
  have v: "map (\<lambda>v. (op_id (sv_event v), op_id (sv_action v)))
      (evaluate_scope (cfg_from_ir diamond_ir []) ''s'' diamond_ops ?i) = [(''e'', ''a'')]" by code_simp
  then obtain v where "v \<in> set (evaluate_scope (cfg_from_ir diamond_ir []) ''s'' diamond_ops ?i)"
    "op_id (sv_event v) = ''e''" "op_id (sv_action v) = ''a''"
    by (auto simp: map_eq_Cons_conv)
  with scope_violations_grounded[OF m this(1)] show ?thesis by simp
qed

theorem interprocedural_violation_path_witness:
  "\<exists>path. realizable False (sample_ir call_ops call_edges) 4 ''h'' ''k'' path"
proof -
  let ?i = "guard_invariant ''x'' ''work'' ''absent'' INTERPROCEDURAL"
  let ?g = "cfg_from_ir (sample_ir call_ops call_edges) []"
  have d: "distinct (map op_id call_ops)" by code_simp
  have "map_sum id (\<lambda>(vs, n, m). map (\<lambda>v. (op_id (sv_event v), op_id (sv_action v))) vs)
      (evaluate_interprocedural ?g call_icfg call_ops ?i) = Inr [(''h'', ''k'')]" by code_simp
  then obtain vs n m v where "evaluate_interprocedural ?g call_icfg call_ops ?i = Inr (vs, n, m)" "v \<in> set vs"
    "op_id (sv_event v) = ''h''" "op_id (sv_action v) = ''k''"
    by (cases "evaluate_interprocedural ?g call_icfg call_ops ?i") (auto simp: map_eq_Cons_conv)
  from interprocedural_violation_path[OF this(1,2) d] this(3,4) show ?thesis
    by (auto simp: guard_invariant_def)
qed

theorem analysis_total_witness:
  "\<exists>r. analyze_states diamond_ir [guard_invariant ''open'' ''use'' ''check'' INTERPROCEDURAL] [] = Inr r \<and>
     sr_invariants r = 1"
proof -
  have "make_invariant (guard_invariant ''open'' ''use'' ''check'' INTERPROCEDURAL) =
      Inr (guard_invariant ''open'' ''use'' ''check'' INTERPROCEDURAL)"
    by (simp add: make_invariant_def guard_invariant_def)
  with analysis_total[of "[guard_invariant ''open'' ''use'' ''check'' INTERPROCEDURAL]" diamond_ir "[]"]
  show ?thesis by simp
qed

end
