(* ===== verification/StateSpec.thy ===== *)
theory StateSpec
  imports StateMachine
begin

text \<open>
  \<open>analysis/spec.py\<close>: the loader of declarative state rules from a versioned YAML document.
  \<open>StateRuleConfigError\<close> is a \<open>ValueError\<close> whose text is modelled exactly, including where a
  handler rewraps it. The file reader and the YAML parser are arguments; a parsed document is a
  \<open>yaml\<close> value with finite floats.
\<close>

definition state_rule_version :: string where
  "state_rule_version = ''smartbench.state-rules/v1''"

record state_rule =
  sd_id :: string
  sd_name :: string
  sd_description :: string
  sd_severity :: string
  sd_confidence :: pyfloat
  sd_languages :: "string list"
  sd_invariant :: state_invariant

definition fail :: "string \<Rightarrow> 'a checked" where
  "fail m = Inl (ValueError m)"

definition require :: "bool \<Rightarrow> string \<Rightarrow> unit checked" where
  "require ok m = (if ok then Inr () else fail m)"

text \<open>\<open>except ValueError\<close>: other exceptions pass.\<close>

definition on_value_error :: "'a checked \<Rightarrow> (string \<Rightarrow> 'a checked) \<Rightarrow> 'a checked" where
  "on_value_error m handler = (case m of Inl (ValueError t) \<Rightarrow> handler t | _ \<Rightarrow> m)"

primrec yaml_repr :: "yaml \<Rightarrow> string" where
  "yaml_repr YNull = ''None''"
| "yaml_repr (YBool b) = (if b then ''True'' else ''False'')"
| "yaml_repr (YInt i) = str_of_int i"
| "yaml_repr (YFloat q t) = t"
| "yaml_repr (YStr s) = repr_str s"
| "yaml_repr (YSeq xs) = ''['' @ join '', '' (map yaml_repr xs) @ '']''"
| "yaml_repr (YMap kvs) =
     ''{'' @ join '', '' (map (\<lambda>(k, t). k @ '': '' @ t) (map (map_prod yaml_repr yaml_repr) kvs)) @ ''}''"

section \<open>Shapes\<close>

fun string_keys :: "(yaml \<times> yaml) list \<Rightarrow> (string, yaml) dict option" where
  "string_keys [] = Some []"
| "string_keys ((YStr k, v) # kvs) = map_option ((#) (k, v)) (string_keys kvs)"
| "string_keys (_ # kvs) = None"

definition as_mapping :: "yaml \<Rightarrow> string \<Rightarrow> (string, yaml) dict checked" where
  "as_mapping v path =
     (case v of
        YMap kvs \<Rightarrow> (case string_keys kvs of None \<Rightarrow> fail (path @ '' keys must be strings'') | Some d \<Rightarrow> Inr d)
      | _ \<Rightarrow> fail (path @ '' must be a mapping''))"

definition reject_unknown :: "(string, yaml) dict \<Rightarrow> string list \<Rightarrow> string \<Rightarrow> unit checked" where
  "reject_unknown d allowed path =
     (let unknown = sorted_set (filter (\<lambda>k. k \<notin> set allowed) (dict_keys d))
      in require (unknown = []) (path @ '' contains unknown fields: '' @ join '', '' unknown))"

definition as_string :: "yaml \<Rightarrow> string \<Rightarrow> string checked" where
  "as_string v path = (case v of YStr s \<Rightarrow> Inr s | _ \<Rightarrow> fail (path @ '' must be a string''))"

definition non_empty_string :: "yaml \<Rightarrow> string \<Rightarrow> string checked" where
  "non_empty_string v path =
     bind (as_string v path) (\<lambda>s. if strip s = [] then fail (path @ '' must not be empty'') else Inr (strip s))"

definition string_items :: "yaml list \<Rightarrow> string \<Rightarrow> string list checked" where
  "string_items vs path =
     (if list_all (\<lambda>v. case v of YStr s \<Rightarrow> strip s \<noteq> [] | _ \<Rightarrow> False) vs
      then Inr (map (\<lambda>v. case v of YStr s \<Rightarrow> strip s | _ \<Rightarrow> []) vs)
      else fail (path @ '' must contain only non-empty strings''))"

definition string_list :: "yaml \<Rightarrow> string \<Rightarrow> string list checked" where
  "string_list v path =
     (case v of
        YStr s \<Rightarrow> string_items [YStr s] path
      | YSeq vs \<Rightarrow> string_items vs path
      | _ \<Rightarrow> fail (path @ '' must be a string or list of strings''))"

section \<open>Selectors\<close>

fun op_kinds_of :: "string list \<Rightarrow> op_kind list option" where
  "op_kinds_of [] = Some []"
| "op_kinds_of (s # ss) =
     (case op_kind_of s of None \<Rightarrow> None | Some k \<Rightarrow> map_option ((#) k) (op_kinds_of ss))"

definition parse_kinds :: "string list \<Rightarrow> string \<Rightarrow> op_kind list checked" where
  "parse_kinds raw path =
     (case op_kinds_of raw of
        None \<Rightarrow> fail (path @ ''.kinds contains an unknown kind; allowed: '' @
          join '', '' (map op_kind_value all_op_kinds))
      | Some ks \<Rightarrow> Inr ks)"

definition selector_attributes :: "yaml \<Rightarrow> string \<Rightarrow> (yaml \<times> yaml) list checked" where
  "selector_attributes v path =
     (case v of YMap kvs \<Rightarrow> Inr kvs | _ \<Rightarrow> fail (path @ ''.attributes must be a mapping''))"

definition parse_selector :: "yaml \<Rightarrow> string \<Rightarrow> selector checked" where
  "parse_selector v path =
     bind (as_mapping v path) (\<lambda>d.
     bind (reject_unknown d [''kinds'', ''contains_all'', ''contains_any'', ''attributes''] path) (\<lambda>_.
     bind (string_list (dict_get_or (YSeq []) d ''kinds'') (path @ ''.kinds'')) (\<lambda>raw.
     bind (parse_kinds raw path) (\<lambda>kinds.
     bind (string_list (dict_get_or (YSeq []) d ''contains_all'') (path @ ''.contains_all'')) (\<lambda>ca.
     bind (string_list (dict_get_or (YSeq []) d ''contains_any'') (path @ ''.contains_any'')) (\<lambda>cy.
     bind (selector_attributes (dict_get_or (YMap []) d ''attributes'') path) (\<lambda>attrs.
     bind (require (kinds \<noteq> [] \<or> ca \<noteq> [] \<or> cy \<noteq> [] \<or> attrs \<noteq> [])
         (path @ '' must contain at least one matching criterion'')) (\<lambda>_.
     Inr \<lparr>sel_kinds = kinds, sel_all = ca, sel_any = cy, sel_attributes = attrs\<rparr>))))))))"

section \<open>Rules\<close>

definition all_invariant_kinds :: "invariant_kind list" where
  "all_invariant_kinds = [REQUIRE_GUARD, FORBID_ACTION, REQUIRE_EXIT]"

definition all_state_scopes :: "state_scope list" where
  "all_state_scopes = [INTRAPROCEDURAL, INTERPROCEDURAL]"

definition parse_kind :: "yaml \<Rightarrow> string \<Rightarrow> invariant_kind checked" where
  "parse_kind v path =
     on_value_error
       (bind (non_empty_string v (path @ ''.invariant.kind'')) (\<lambda>s.
          case find (\<lambda>k. invariant_kind_value k = s) all_invariant_kinds of
            None \<Rightarrow> fail s | Some k \<Rightarrow> Inr k))
       (\<lambda>_. fail (path @ ''.invariant.kind must be one of: '' @
          join '', '' (map invariant_kind_value all_invariant_kinds)))"

definition parse_scope :: "yaml \<Rightarrow> string \<Rightarrow> state_scope checked" where
  "parse_scope v path =
     on_value_error
       (bind (non_empty_string v (path @ ''.invariant.scope'')) (\<lambda>s.
          case find (\<lambda>k. state_scope_value k = s) all_state_scopes of
            None \<Rightarrow> fail s | Some k \<Rightarrow> Inr k))
       (\<lambda>_. fail (path @ ''.invariant.scope must be one of: '' @
          join '', '' (map state_scope_value all_state_scopes)))"

text \<open>\<open>float(n)\<close> overflows from the midpoint above the largest double on.\<close>

definition parse_confidence :: "yaml \<Rightarrow> string \<Rightarrow> pyfloat checked" where
  "parse_confidence v path =
     (let bad = fail (path @ ''.confidence must be between 0 and 1'') in
      case v of
        YInt n \<Rightarrow>
          (if 2 ^ 1024 - 2 ^ 970 \<le> \<bar>n\<bar> then Inl (OverflowError ''int too large to convert to float'')
           else if n = 0 then Inr (0, ''0.0'') else if n = 1 then Inr float_one else bad)
      | YFloat q t \<Rightarrow> if unit_interval (q, t) then Inr (q, t) else bad
      | _ \<Rightarrow> fail (path @ ''.confidence must be a number''))"

definition parse_depth :: "yaml \<Rightarrow> string \<Rightarrow> int checked" where
  "parse_depth v path =
     (case v of
        YInt n \<Rightarrow> if 0 \<le> n \<and> n \<le> 16 then Inr n
          else fail (path @ ''.invariant.max_call_depth must be between 0 and 16'')
      | _ \<Rightarrow> fail (path @ ''.invariant.max_call_depth must be an integer''))"

definition parse_optional :: "yaml \<Rightarrow> string \<Rightarrow> selector option checked" where
  "parse_optional v path =
     (if v = YNull then Inr None else bind (parse_selector v path) (\<lambda>s. Inr (Some s)))"

definition default_exits :: selector where
  "default_exits = \<lparr>sel_kinds = [RETURN, BREAK], sel_all = [], sel_any = [], sel_attributes = []\<rparr>"

definition parse_invariant ::
  "(string, yaml) dict \<Rightarrow> string \<Rightarrow> string \<Rightarrow> string \<Rightarrow> state_invariant checked" where
  "parse_invariant d path rule_id message =
     (let get = dict_get_or YNull d; inv = path @ ''.invariant'' in
      bind (parse_kind (get ''kind'') path) (\<lambda>kind.
      bind (parse_optional (get ''guard'') (inv @ ''.guard'')) (\<lambda>guard.
      bind (parse_optional (get ''exits'') (inv @ ''.exits'')) (\<lambda>exits.
      bind (parse_scope (dict_get_or (YStr (state_scope_value INTRAPROCEDURAL)) d ''scope'') path) (\<lambda>scope.
      bind (parse_depth (dict_get_or (YInt 4) d ''max_call_depth'') path) (\<lambda>depth.
      on_value_error
        (bind (parse_selector (get ''event'') (inv @ ''.event'')) (\<lambda>event.
         bind (parse_selector (get ''action'') (inv @ ''.action'')) (\<lambda>action.
         make_invariant
           \<lparr>si_id = rule_id, si_kind = kind, si_event = event, si_action = action, si_guard = guard,
            si_exits = (case exits of None \<Rightarrow> default_exits | Some s \<Rightarrow> s),
            si_message = message, si_scope = scope, si_depth = depth\<rparr>)))
        (\<lambda>m. fail (inv @ '': '' @ m))))))))"

definition rule_fields :: "string list" where
  "rule_fields = [''id'', ''name'', ''description'', ''severity'', ''confidence'', ''languages'',
     ''message'', ''invariant'']"

definition invariant_fields :: "string list" where
  "invariant_fields = [''kind'', ''event'', ''guard'', ''action'', ''exits'', ''scope'', ''max_call_depth'']"

definition parse_rule :: "yaml \<Rightarrow> nat \<Rightarrow> state_rule checked" where
  "parse_rule v index =
     (let path = ''rules['' @ str_of_nat index @ '']'' in
      bind (as_mapping v path) (\<lambda>d.
      bind (reject_unknown d rule_fields path) (\<lambda>_.
      bind (non_empty_string (dict_get_or YNull d ''id'') (path @ ''.id'')) (\<lambda>rule_id.
      bind (non_empty_string (dict_get_or (YStr rule_id) d ''name'') (path @ ''.name'')) (\<lambda>name.
      bind (as_string (dict_get_or (YStr []) d ''description'') (path @ ''.description'')) (\<lambda>description.
      bind (non_empty_string
          (dict_get_or (YStr (if description \<noteq> [] then description else name)) d ''message'')
          (path @ ''.message'')) (\<lambda>message.
      bind (non_empty_string (dict_get_or (YStr ''warning'') d ''severity'') (path @ ''.severity'')) (\<lambda>severity.
      bind (require (severity \<in> set [''error'', ''warning'', ''info''])
          (path @ ''.severity must be error, warning, or info'')) (\<lambda>_.
      bind (parse_confidence (dict_get_or (YFloat 1 ''1.0'') d ''confidence'') path) (\<lambda>confidence.
      bind (string_list (dict_get_or (YSeq []) d ''languages'') (path @ ''.languages'')) (\<lambda>languages.
      bind (as_mapping (dict_get_or YNull d ''invariant'') (path @ ''.invariant'')) (\<lambda>inv.
      bind (reject_unknown inv invariant_fields (path @ ''.invariant'')) (\<lambda>_.
      bind (parse_invariant inv path rule_id message) (\<lambda>invariant.
      Inr \<lparr>sd_id = rule_id, sd_name = name, sd_description = description, sd_severity = severity,
           sd_confidence = confidence, sd_languages = dedup (map lower languages),
           sd_invariant = invariant\<rparr>))))))))))))))"

fun parse_rules :: "nat \<Rightarrow> yaml list \<Rightarrow> state_rule list checked" where
  "parse_rules n [] = Inr []"
| "parse_rules n (v # vs) =
     bind (parse_rule v n) (\<lambda>r. bind (parse_rules (Suc n) vs) (\<lambda>rs. Inr (r # rs)))"

fun check_duplicates :: "string list \<Rightarrow> state_rule list \<Rightarrow> unit checked" where
  "check_duplicates seen [] = Inr ()"
| "check_duplicates seen (r # rs) =
     (if sd_id r \<in> set seen then fail (''duplicate rule id: '' @ sd_id r)
      else check_duplicates (sd_id r # seen) rs)"

definition parse_rule_list :: "yaml \<Rightarrow> state_rule list checked" where
  "parse_rule_list v =
     (case v of
        YSeq vs \<Rightarrow>
          (if vs = [] then fail ''document.rules must be a non-empty list''
           else bind (parse_rules 0 vs) (\<lambda>rs. bind (check_duplicates [] rs) (\<lambda>_. Inr rs)))
      | _ \<Rightarrow> fail ''document.rules must be a non-empty list'')"

definition parse_document :: "yaml \<Rightarrow> state_rule list checked" where
  "parse_document doc =
     bind (as_mapping doc ''document'') (\<lambda>base.
     bind (reject_unknown base [''version'', ''rules''] ''document'') (\<lambda>_.
     bind (require (dict_get_or YNull base ''version'' = YStr state_rule_version)
         (''unsupported state-rule version '' @ yaml_repr (dict_get_or YNull base ''version'') @
          ''; expected '' @ repr_str state_rule_version)) (\<lambda>_.
     parse_rule_list (dict_get_or YNull base ''rules''))))"

text \<open>\<open>load_state_rule_file\<close>, with the bounded reader and \<open>yaml.safe_load\<close> as arguments.\<close>

definition load_state_rules ::
  "(string \<Rightarrow> string option) \<Rightarrow> (string \<Rightarrow> string + yaml) \<Rightarrow> string \<Rightarrow> state_rule list checked" where
  "load_state_rules read_text safe_load file =
     (case read_text file of
        None \<Rightarrow> fail (''cannot read state-rule file: '' @ file)
      | Some source \<Rightarrow> (case safe_load source of
            Inl m \<Rightarrow> fail (''invalid YAML in '' @ file @ '': '' @ m)
          | Inr doc \<Rightarrow> parse_document doc))"

section \<open>What an accepted document guarantees\<close>

lemma fail_Inr [simp]: "fail m \<noteq> Inr x"
  by (simp add: fail_def)

lemma require_Inr [simp]: "require ok m = Inr u \<longleftrightarrow> ok"
  by (simp add: require_def)

lemma on_value_error_Inr: "on_value_error m (\<lambda>t. fail (h t)) = Inr x \<longleftrightarrow> m = Inr x"
  by (auto simp: on_value_error_def split: sum.splits py_error.splits)

text \<open>A selector that constrains something: it names a kind, a text or an attribute. One that does not matches every operation.\<close>

definition selective :: "selector \<Rightarrow> bool" where
  "selective s \<longleftrightarrow> sel_kinds s \<noteq> [] \<or> sel_all s \<noteq> [] \<or> sel_any s \<noteq> [] \<or> sel_attributes s \<noteq> []"

definition rule_ok :: "state_rule \<Rightarrow> bool" where
  "rule_ok r \<longleftrightarrow> sd_id r \<noteq> [] \<and> sd_name r \<noteq> [] \<and>
     sd_severity r \<in> set [''error'', ''warning'', ''info''] \<and> unit_interval (sd_confidence r) \<and>
     si_id (sd_invariant r) = sd_id r \<and> si_message (sd_invariant r) \<noteq> [] \<and>
     make_invariant (sd_invariant r) = Inr (sd_invariant r) \<and>
     selective (si_event (sd_invariant r)) \<and> selective (si_action (sd_invariant r)) \<and>
     selective (si_exits (sd_invariant r)) \<and> pred_option selective (si_guard (sd_invariant r))"

lemma parse_selector_selective: "parse_selector v path = Inr s \<Longrightarrow> selective s"
  by (auto simp: parse_selector_def selective_def)

lemma parse_optional_selective: "parse_optional v path = Inr s \<Longrightarrow> pred_option selective s"
  by (auto simp: parse_optional_def split: if_splits dest: parse_selector_selective)

lemma non_empty_string_Inr: "non_empty_string v path = Inr s \<Longrightarrow> s \<noteq> []"
  by (auto simp: non_empty_string_def split: if_splits)

lemma parse_confidence_Inr: "parse_confidence v path = Inr c \<Longrightarrow> unit_interval c"
  by (auto simp: parse_confidence_def unit_interval_def float_one_def Let_def split: yaml.splits if_splits)

lemma parse_invariant_Inr:
  assumes "parse_invariant d path rule_id message = Inr i"
  shows "si_id i = rule_id \<and> si_message i = message \<and> make_invariant i = Inr i \<and>
    selective (si_event i) \<and> selective (si_action i) \<and> selective (si_exits i) \<and> pred_option selective (si_guard i)"
proof -
  obtain j event action exits where "make_invariant j = Inr i" "si_id j = rule_id" "si_message j = message"
    "si_event j = event" "si_action j = action" "selective event" "selective action" "pred_option selective (si_guard j)"
    "si_exits j = (case exits of None \<Rightarrow> default_exits | Some s \<Rightarrow> s)" "pred_option selective exits"
    using assms parse_selector_selective parse_optional_selective
    by (auto simp: parse_invariant_def Let_def on_value_error_Inr)
  moreover from this have "j = i" "make_invariant i = Inr i" using make_invariant_valid by blast+
  moreover have "selective default_exits" by (simp add: selective_def default_exits_def)
  ultimately show ?thesis by (cases exits) auto
qed

lemma parse_rule_ok: "parse_rule v n = Inr r \<Longrightarrow> rule_ok r"
  by (auto simp: parse_rule_def Let_def rule_ok_def dest!: parse_invariant_Inr non_empty_string_Inr
      parse_confidence_Inr)

lemma parse_rules_ok: "parse_rules n vs = Inr rs \<Longrightarrow> length rs = length vs \<and> (\<forall>r \<in> set rs. rule_ok r)"
  by (induction n vs arbitrary: rs rule: parse_rules.induct) (auto dest: parse_rule_ok)

lemma check_duplicates_Inr:
  "check_duplicates seen rs = Inr u \<longleftrightarrow> distinct (map sd_id rs) \<and> sd_id ` set rs \<inter> set seen = {}"
  by (induction seen rs rule: check_duplicates.induct) auto

lemma parse_rule_list_ok:
  "parse_rule_list v = Inr rs \<Longrightarrow> rs \<noteq> [] \<and> distinct (map sd_id rs) \<and> (\<forall>r \<in> set rs. rule_ok r)"
  by (cases v) (auto simp: parse_rule_list_def check_duplicates_Inr split: if_splits dest: parse_rules_ok)

lemma parse_document_ok:
  assumes "parse_document doc = Inr rs"
  shows "rs \<noteq> [] \<and> distinct (map sd_id rs) \<and> (\<forall>r \<in> set rs. rule_ok r)"
  using assms
  by (auto simp: parse_document_def dest!: parse_rule_list_ok)

lemma rule_ok_valid: "rule_ok r \<Longrightarrow> valid_depth (sd_invariant r)"
  by (auto simp: rule_ok_def dest: make_invariant_valid)

section \<open>Properties\<close>

text \<open>
  C29: A rule document the parser accepts is well formed: at least one rule, ids present and
  pairwise different, a known severity, a confidence between 0 and 1, an invariant its constructor
  accepts (a guard where the kind needs one, a call depth the path search admits), and event, action and
  exit selectors, and a guard selector if there is one, each of which constrains something. Everything else is an error value.
\<close>

theorem accepted_document_valid:
  assumes "parse_document doc = Inr rules"
  shows "rules \<noteq> [] \<and> distinct (map sd_id rules) \<and>
    (\<forall>r \<in> set rules. rule_ok r \<and> valid_depth (sd_invariant r) \<and>
       (si_kind (sd_invariant r) = REQUIRE_GUARD \<longrightarrow> si_guard (sd_invariant r) \<noteq> None) \<and>
       (\<forall>g. si_guard (sd_invariant r) = Some g \<longrightarrow> selective g) \<and> selective (si_exits (sd_invariant r)))"
proof -
  have "rule_ok r \<Longrightarrow> si_kind (sd_invariant r) = REQUIRE_GUARD \<Longrightarrow> si_guard (sd_invariant r) \<noteq> None" for r
    by (cases "si_guard (sd_invariant r)") (auto simp: rule_ok_def make_invariant_def)
  moreover have "rule_ok r \<Longrightarrow> selective (si_exits (sd_invariant r)) \<and>
      (\<forall>g. si_guard (sd_invariant r) = Some g \<longrightarrow> selective g)" for r
    by (auto simp: rule_ok_def)
  ultimately show ?thesis using parse_document_ok[OF assms] rule_ok_valid by blast
qed

definition sample_rule :: "yaml \<Rightarrow> yaml" where
  "sample_rule confidence = YMap
     [(YStr ''id'', YStr ''r1''), (YStr ''confidence'', confidence), (YStr ''languages'', YStr ''Go''),
      (YStr ''invariant'', YMap
        [(YStr ''kind'', YStr ''forbid_action_after_event''),
         (YStr ''event'', YMap [(YStr ''contains_all'', YStr ''open'')]),
         (YStr ''action'', YMap [(YStr ''kinds'', YSeq [YStr ''call''])])])]"

definition sample_document :: "yaml list \<Rightarrow> yaml" where
  "sample_document rules = YMap
     [(YStr ''version'', YStr state_rule_version), (YStr ''rules'', YSeq rules)]"

theorem accepted_document_valid_witness:
  "\<exists>r. parse_document (sample_document [sample_rule (YInt 1)]) = Inr [r] \<and> rule_ok r \<and>
     sd_id r = ''r1'' \<and> sd_languages r = [''go'']"
proof -
  let ?d = "sample_document [sample_rule (YInt 1)]"
  have "map_sum id (map (\<lambda>r. (sd_id r, sd_languages r))) (parse_document ?d) = Inr [(''r1'', [''go''])]"
    by code_simp
  then obtain r where r: "parse_document ?d = Inr [r]" "sd_id r = ''r1''" "sd_languages r = [''go'']"
    by (cases "parse_document ?d") (auto simp: map_eq_Cons_conv)
  with accepted_document_valid[OF r(1)] show ?thesis by auto
qed

text \<open>
  Rules of an accepted document can be run: the analyser returns a result on every program.
\<close>

theorem accepted_rules_run:
  assumes "load_state_rules read_text safe_load file = Inr rules"
  shows "\<exists>r. analyze_states ir (map sd_invariant rules) languages = Inr r \<and> sr_invariants r = length rules"
proof -
  obtain doc where "parse_document doc = Inr rules"
    using assms by (auto simp: load_state_rules_def split: option.splits sum.splits)
  with parse_document_ok have "\<forall>i \<in> set (map sd_invariant rules). valid_depth i"
    using rule_ok_valid by auto
  from analyze_states_total[OF this, of ir languages] show ?thesis by simp
qed

theorem accepted_rules_run_witness:
  "\<exists>rules r. load_state_rules (\<lambda>_. Some ''text'') (\<lambda>_. Inr (sample_document [sample_rule (YInt 1)])) ''rules.yml'' = Inr rules \<and>
     analyze_states diamond_ir (map sd_invariant rules) [] = Inr r"
proof -
  have "map_sum id length (load_state_rules (\<lambda>_. Some ''text'')
      (\<lambda>_. Inr (sample_document [sample_rule (YInt 1)])) ''rules.yml'') = Inr 1"
    by code_simp
  then obtain rules where l: "load_state_rules (\<lambda>_. Some ''text'')
      (\<lambda>_. Inr (sample_document [sample_rule (YInt 1)])) ''rules.yml'' = Inr rules"
    by (cases "load_state_rules (\<lambda>_. Some ''text'') (\<lambda>_. Inr (sample_document [sample_rule (YInt 1)])) ''rules.yml''") auto
  from accepted_rules_run[OF l, of diamond_ir "[]"] l show ?thesis by blast
qed

text \<open>
  An integer confidence too large for a float is no configuration error: the conversion raises
  \<open>OverflowError\<close>, which the loader lets through.
\<close>

theorem huge_confidence_overflows:
  "parse_document (sample_document [sample_rule (YInt (10 ^ 400))]) =
     Inl (OverflowError ''int too large to convert to float'')"
  by code_simp

end
