(* ===== verification/StatePaths.thy ===== *)
theory StatePaths
  imports StateMachine
begin

text \<open>
  \<open>analysis/state_paths.py\<close>: the query for bounded event-to-action paths that cross a function
  scope, with its error for a negative limit and its early return.
\<close>

record state_path =
  sp_event :: operation
  sp_action :: operation
  sp_path :: icfg_path
  sp_operations :: "operation list"

definition state_path_to_fact :: "state_path \<Rightarrow> semantic_fact" where
  "state_path_to_fact s =
     (let a = sp_action s in
      \<lparr>sf_subject = op_scope (sp_event s), sf_predicate = Kind STATE_TRANSITION,
       sf_object = (if op_target a \<noteq> [] then op_target a
          else if op_value a \<noteq> [] then op_value a else op_kind_value (op_kind a)),
       sf_evidence = map op_location (take 8 (sp_operations s)), sf_confidence = float_one,
       sf_attributes =
         [(''link_kind'', PStr ''interprocedural_state_path''),
          (''event_operation'', PStr (op_id (sp_event s))),
          (''action_operation'', PStr (op_id a)),
          (''path_operations'', PList (map PStr (ip_operations (sp_path s)))),
          (''path_arcs'', PList (map (\<lambda>k. PStr (icfg_kind_value k)) (ip_arcs (sp_path s)))),
          (''call_depth'', PInt (int (ip_depth (sp_path s))))]\<rparr>)"

text \<open>The nested loops over events and actions, flattened; the limit is tested after each append.\<close>

fun find_paths ::
  "icfg \<Rightarrow> (string, operation) dict \<Rightarrow> int \<Rightarrow> int \<Rightarrow> state_path list \<Rightarrow> (operation \<times> operation) list
   \<Rightarrow> py_error + state_path list" where
  "find_paths ic by_id depth max_paths acc [] = Inr acc"
| "find_paths ic by_id depth max_paths acc ((event, action) # rest) =
     (if op_scope event = op_scope action then find_paths ic by_id depth max_paths acc rest
      else (case icfg_path_query ic (op_id event) (op_id action) depth default_max_steps of
          Inl e \<Rightarrow> Inl e
        | Inr None \<Rightarrow> find_paths ic by_id depth max_paths acc rest
        | Inr (Some path) \<Rightarrow>
            (let acc' = acc @ [\<lparr>sp_event = event, sp_action = action, sp_path = path,
                   sp_operations = List.map_filter (dict_get by_id) (ip_operations path)\<rparr>]
             in if max_paths \<le> int (length acc') then Inr acc'
                else find_paths ic by_id depth max_paths acc' rest)))"

definition find_state_paths ::
  "semantic_ir \<Rightarrow> selector \<Rightarrow> selector \<Rightarrow> string list \<Rightarrow> int \<Rightarrow> int \<Rightarrow> py_error + state_path list" where
  "find_state_paths ir event action languages depth max_paths =
     (if max_paths < 0 then Inl (ValueError ''max_paths must be non-negative'')
      else (let ops = filter (language_allowed languages) (ir_operations ir)
        in find_paths (make_icfg False ir) (ops_by_id ops) depth max_paths []
             (List.product (sort_key op_order (filter (selector_matches event) ops))
                           (sort_key op_order (filter (selector_matches action) ops)))))"

section \<open>Facts\<close>

definition state_path_ok :: "icfg \<Rightarrow> int \<Rightarrow> selector \<Rightarrow> selector \<Rightarrow> state_path \<Rightarrow> bool" where
  "state_path_ok ic depth event action s \<longleftrightarrow>
     selector_matches event (sp_event s) \<and> selector_matches action (sp_action s) \<and>
     op_scope (sp_event s) \<noteq> op_scope (sp_action s) \<and>
     path_ok ic (nat depth) (op_id (sp_event s)) (op_id (sp_action s)) (sp_path s)"

lemma find_paths_ok:
  "find_paths ic by_id depth max_paths acc pairs = Inr ss \<Longrightarrow>
   \<forall>s \<in> set acc. state_path_ok ic depth event action s \<Longrightarrow>
   \<forall>(e, a) \<in> set pairs. selector_matches event e \<and> selector_matches action a \<Longrightarrow>
   \<forall>s \<in> set ss. state_path_ok ic depth event action s"
proof (induction ic by_id depth max_paths acc pairs arbitrary: ss rule: find_paths.induct)
  case (2 ic by_id depth max_paths acc e a rest)
  show ?case
  proof (cases "op_scope e = op_scope a")
    case True
    have "find_paths ic by_id depth max_paths acc rest = Inr ss" using 2(4) True by simp
    from 2(1)[OF True this 2(5)] 2(6) show ?thesis by simp
  next
    case F: False
    then obtain r where r: "icfg_path_query ic (op_id e) (op_id a) depth default_max_steps = Inr r"
      using 2(4) by (auto split: sum.splits)
    show ?thesis
    proof (cases r)
      case None
      have "find_paths ic by_id depth max_paths acc rest = Inr ss" using 2(4) F r None by simp
      from 2(2)[OF F r None this 2(5)] 2(6) show ?thesis by simp
    next
      case (Some path)
      let ?s = "\<lparr>sp_event = e, sp_action = a, sp_path = path,
        sp_operations = List.map_filter (dict_get by_id) (ip_operations path)\<rparr>"
      have ok: "\<forall>s \<in> set (acc @ [?s]). state_path_ok ic depth event action s"
        using 2(5,6) F icfg_path_query_ok[OF r[unfolded Some]] by (auto simp: state_path_ok_def)
      show ?thesis
      proof (cases "max_paths \<le> int (length (acc @ [?s]))")
        case True
        with 2(4) F r Some have "ss = acc @ [?s]" by (simp add: Let_def)
        with ok show ?thesis by simp
      next
        case False
        with 2(4) F r Some have "find_paths ic by_id depth max_paths (acc @ [?s]) rest = Inr ss"
          by (simp add: Let_def)
        from 2(3)[OF F r Some refl False this ok] 2(6) show ?thesis by simp
      qed
    qed
  qed
qed simp

lemma find_paths_length:
  "find_paths ic by_id depth max_paths acc pairs = Inr ss \<Longrightarrow>
   acc = [] \<or> int (length acc) < max_paths \<Longrightarrow> 0 \<le> max_paths \<Longrightarrow> int (length ss) \<le> max 1 max_paths"
proof (induction pairs arbitrary: acc)
  case (Cons pair rest)
  obtain e a where pair: "pair = (e, a)" by (cases pair)
  consider "find_paths ic by_id depth max_paths acc rest = Inr ss"
    | "int (length ss) = int (length acc) + 1"
    | s where "int (length acc) + 1 < max_paths" "find_paths ic by_id depth max_paths (acc @ [s]) rest = Inr ss"
    using Cons.prems(1) by (auto simp: pair Let_def not_le split: if_splits sum.splits option.splits)
  then show ?case
  proof cases
    case 1
    with Cons show ?thesis by blast
  next
    case 2
    with Cons.prems(2) show ?thesis by auto
  next
    case 3
    with Cons.IH[of "acc @ [s]"] Cons.prems(3) show ?thesis by simp
  qed
qed auto

section \<open>Properties\<close>

text \<open>
  Every path the query returns goes from an operation the event selector matches to one of
  another scope the action selector matches, along a run of the interprocedural graph of the
  requested depth; a negative limit is an error, and a limit of 1 or more is respected.
\<close>

theorem state_paths_correct:
  assumes "find_state_paths ir event action languages depth max_paths = Inr ss"
  shows "0 \<le> max_paths \<and> int (length ss) \<le> max 1 max_paths \<and>
    (\<forall>s \<in> set ss. state_path_ok (make_icfg False ir) depth event action s)"
proof -
  have nonneg: "0 \<le> max_paths" using assms by (auto simp: find_state_paths_def split: if_splits)
  then have f: "find_paths (make_icfg False ir)
      (ops_by_id (filter (language_allowed languages) (ir_operations ir))) depth max_paths []
      (List.product (sort_key op_order (filter (selector_matches event) (filter (language_allowed languages) (ir_operations ir))))
        (sort_key op_order (filter (selector_matches action) (filter (language_allowed languages) (ir_operations ir))))) = Inr ss"
    using assms by (simp add: find_state_paths_def Let_def)
  have "\<forall>s \<in> set ss. state_path_ok (make_icfg False ir) depth event action s"
    by (rule find_paths_ok[OF f]) auto
  with nonneg find_paths_length[OF f] show ?thesis by simp
qed

theorem state_paths_correct_witness:
  "\<exists>s. find_state_paths (sample_ir call_ops call_edges) (call_selector ''x'') (call_selector ''work'') [] 4 10 = Inr [s] \<and>
     state_path_ok call_icfg 4 (call_selector ''x'') (call_selector ''work'') s"
proof -
  have "map_sum id length (find_state_paths (sample_ir call_ops call_edges) (call_selector ''x'')
      (call_selector ''work'') [] 4 10) = Inr 1"
    by code_simp
  then obtain s where "find_state_paths (sample_ir call_ops call_edges) (call_selector ''x'')
      (call_selector ''work'') [] 4 10 = Inr [s]"
    by (cases "find_state_paths (sample_ir call_ops call_edges) (call_selector ''x'') (call_selector ''work'') [] 4 10")
      (auto simp: length_Suc_conv)
  with state_paths_correct[OF this] show ?thesis by auto
qed

text \<open>
  A limit of zero is accepted and still returns a path: the limit is only tested after one was
  appended.
\<close>

theorem zero_limit_returns_path:
  "\<exists>s. find_state_paths (sample_ir call_ops call_edges) (call_selector ''x'') (call_selector ''work'') [] 4 0 = Inr [s]"
proof -
  have "map_sum id (map (\<lambda>s. ())) (find_state_paths (sample_ir call_ops call_edges) (call_selector ''x'')
      (call_selector ''work'') [] 4 0) = Inr [()]"
    by code_simp
  then show ?thesis
    by (cases "find_state_paths (sample_ir call_ops call_edges) (call_selector ''x'') (call_selector ''work'') [] 4 0")
      (auto simp: map_eq_Cons_conv)
qed

end
