(* ===== verification/ResourceLifecycle.thy ===== *)
theory ResourceLifecycle
  imports Dominators Samples
begin

text \<open>
  \<open>analysis/resource_lifecycle.py\<close>: resource protocols (which call acquires, which deferred
  method releases), the miner that learns them from source, and the analyser that decides whether
  a cleanup registration protects every use of an acquired resource.
\<close>

datatype protocol_origin = REFERENCE_USAGE | PROJECT_READER

fun protocol_origin_value :: "protocol_origin \<Rightarrow> string" where
  "protocol_origin_value REFERENCE_USAGE = ''reference_usage''"
| "protocol_origin_value PROJECT_READER = ''project_reader''"

datatype match_mode = EXACT | METHOD_SHAPE | TYPED_METHOD

fun match_mode_value :: "match_mode \<Rightarrow> string" where
  "match_mode_value EXACT = ''exact''"
| "match_mode_value METHOD_SHAPE = ''method_shape''"
| "match_mode_value TYPED_METHOD = ''typed_method''"

record resource_protocol =
  rp_acquire :: string
  rp_index :: int
  rp_cleanup :: "string list"
  rp_mode :: match_mode
  rp_member :: string
  rp_receiver_type :: string
  rp_canonical :: string
  rp_type_ids :: "string list"
  rp_origin :: protocol_origin
  rp_confidence :: pyfloat
  rp_fact_ids :: "string list"

definition make_protocol :: "resource_protocol \<Rightarrow> py_error + resource_protocol" where
  "make_protocol p =
     (let err = \<lambda>m. Inl (ValueError m) in
      if strip (rp_acquire p) = [] then err ''acquire_symbol must not be empty''
      else if rp_index p < 0 then err ''resource_result_index must be non-negative''
      else if rp_cleanup p = [] \<or> list_ex (\<lambda>m. strip m = []) (rp_cleanup p)
        then err ''cleanup_methods must contain non-empty method names''
      else if rp_member p \<noteq> [] \<and> \<not> is_dotted_path (rp_member p)
        then err ''resource_member_path must be a dotted identifier path''
      else if rp_mode p \<in> {METHOD_SHAPE, TYPED_METHOD} \<and> rp_member p = []
        then err ''generalized matching requires a resource member path''
      else if rp_mode p = TYPED_METHOD \<and> (rp_receiver_type p = [] \<or> rp_canonical p = [])
        then err ''typed_method matching requires receiver type and canonical acquire''
      else if rp_mode p = TYPED_METHOD \<and> rp_type_ids p = []
        then err ''typed_method matching requires source type evidence''
      else if rp_mode p \<noteq> TYPED_METHOD \<and> (rp_receiver_type p \<noteq> [] \<or> rp_canonical p \<noteq> [] \<or> rp_type_ids p \<noteq> [])
        then err ''type evidence fields are reserved for typed_method matching''
      else if \<not> unit_interval (rp_confidence p) then err ''protocol confidence must be between 0 and 1''
      else Inr p)"

definition protocol_id :: "resource_protocol \<Rightarrow> string" where
  "protocol_id p = ''protocol-'' @ take 16 (sha256_hex (join ''|''
     ([rp_acquire p, str_of_int (rp_index p), match_mode_value (rp_mode p), rp_member p,
       rp_receiver_type p, rp_canonical p] @ sort (rp_type_ids p) @ sort (rp_cleanup p))))"

section \<open>What operations say about resources\<close>

definition result_targets :: "operation \<Rightarrow> string list" where
  "result_targets p =
     (case attr_seq (op_attributes p) ''result_targets'' of None \<Rightarrow> []
      | Some xs \<Rightarrow> map (\<lambda>v. strip (py_str v)) xs)"

definition host_id :: "operation \<Rightarrow> string" where
  "host_id p = attr_str [] (op_attributes p) ''host_operation''"

definition is_primary_result_call :: "operation \<Rightarrow> (string, operation) dict \<Rightarrow> bool" where
  "is_primary_result_call p ops =
     (if op_kind p \<noteq> CALL \<or> result_targets p = [] then False
      else (case dict_get ops (host_id p) of
          None \<Rightarrow> False
        | Some host \<Rightarrow>
            (if op_kind host \<noteq> ASSIGN then False
             else (case attr_seq (op_attributes host) ''calls'' of
                 Some (c # cs) \<Rightarrow> py_eq c (PStr (op_target p)) | _ \<Rightarrow> False))))"

definition is_embedded_call :: "operation \<Rightarrow> bool" where
  "is_embedded_call p = (op_kind p = CALL \<and> host_id p \<noteq> [])"

definition usable_binding :: "string \<Rightarrow> bool" where
  "usable_binding b = (b \<noteq> [] \<and> b \<noteq> ''_'')"

definition is_receiver_mark :: "char \<Rightarrow> bool" where
  "is_receiver_mark c = (c = CHR ''&'' \<or> c = CHR ''*'' \<or> c = CHR ''('')"

text \<open>The \<open>while receiver.startswith(("&", "*", "("))\<close> loop.\<close>

function strip_marks :: "string \<Rightarrow> string" where
  "strip_marks [] = []"
| "strip_marks (c # s) = (if is_receiver_mark c then strip_marks (lstrip s) else c # s)"
  by pat_completeness auto
termination
  by (relation "measure length") (auto simp: lstrip_def less_Suc_eq_le length_dropWhile_le)

definition normalized_receiver :: "operation \<Rightarrow> string" where
  "normalized_receiver p =
     (let r = strip (attr_str [] (op_attributes p) ''receiver'')
      in strip_marks (if r = [] \<and> CHR ''.'' \<in> set (op_target p)
           then before_last (CHR ''.'') (op_target p) else r))"

definition receiver_root :: "operation \<Rightarrow> string" where
  "receiver_root p =
     strip (before_first (CHR ''('') (before_first (CHR ''.'') (normalized_receiver p)))"

definition receiver_member_path :: "operation \<Rightarrow> string \<Rightarrow> string option" where
  "receiver_member_path p binding =
     (let r = normalized_receiver p; prefix = binding @ ''.''
      in if r = binding then Some []
         else if starts_with prefix r \<and> is_dotted_path (drop (length prefix) r)
         then Some (drop (length prefix) r) else None)"

definition method_name :: "operation \<Rightarrow> string" where
  "method_name p = (if op_target p \<noteq> [] then strip (after_last (CHR ''.'') (op_target p)) else [])"

text \<open>\<open>re.search\<close> of a literal with identifier boundaries on both sides; \<open>prev\<close> is the character before.\<close>

fun search_bounded :: "bool \<Rightarrow> string \<Rightarrow> string \<Rightarrow> bool" where
  "search_bounded inside p [] = (\<not> inside \<and> p = [])"
| "search_bounded inside p (c # s) =
     ((\<not> inside \<and> starts_with p (c # s) \<and>
        (case drop (length p) (c # s) of [] \<Rightarrow> True | d # _ \<Rightarrow> \<not> is_ident_char d)) \<or>
      search_bounded (is_ident_char c) p s)"

definition names_resource :: "string \<Rightarrow> string \<Rightarrow> bool" where
  "names_resource resource text = (text = resource \<or> starts_with (resource @ ''.'') text)"

definition returned_items :: "operation \<Rightarrow> string list" where
  "returned_items p = map strip (split_on (CHR '','') (op_value p))"

definition uses_resource :: "operation \<Rightarrow> string \<Rightarrow> string \<Rightarrow> bool" where
  "uses_resource p binding member =
     (let resource = (if member \<noteq> [] then binding @ ''.'' @ member else binding) in
      if names_resource resource (normalized_receiver p) then True
      else if list_ex (names_resource resource) (op_operands p) then True
      else if member \<noteq> [] \<and> search_bounded False resource (op_value p) then True
      else if list_ex (\<lambda>a. names_resource resource (py_str a))
          (case attr_seq (op_attributes p) ''arguments'' of None \<Rightarrow> [] | Some xs \<Rightarrow> xs) then True
      else if op_kind p = RETURN then
        (if binding \<in> set (returned_items p) then False
         else if member \<noteq> [] then contains_sub resource (op_value p)
         else binding \<in> set (ident_tokens (op_value p)))
      else False)"

definition transfers_ownership :: "operation \<Rightarrow> string \<Rightarrow> bool" where
  "transfers_ownership p binding = (op_kind p = RETURN \<and> binding \<in> set (returned_items p))"

definition matches_acquire :: "operation \<Rightarrow> resource_protocol \<Rightarrow> type_index \<Rightarrow> bool" where
  "matches_acquire p proto ix =
     (if rp_mode proto = EXACT then op_target p = rp_acquire proto
      else if CHR ''.'' \<notin> set (op_target p) \<or> CHR ''.'' \<notin> set (rp_acquire proto) then False
      else if method_name p \<noteq> after_last (CHR ''.'') (rp_acquire proto) then False
      else if rp_mode proto = METHOD_SHAPE then ti_for_operation ix (op_id p) (Some RECEIVER) = []
      else (let symbols = ti_canonical_symbols ix (op_id p) RECEIVER in
        type_names_compatible (rp_receiver_type proto) (ti_unique_type ix (op_id p) RECEIVER) \<and>
        length symbols = 1 \<and> hd symbols = rp_canonical proto))"

definition missing_acquire_reason :: "resource_protocol \<Rightarrow> string" where
  "missing_acquire_reason p =
     (case rp_mode p of
        TYPED_METHOD \<Rightarrow> protocol_id p @ '': no call has compatible receiver type '' @
          rp_receiver_type p @ '' and canonical symbol '' @ rp_canonical p
      | METHOD_SHAPE \<Rightarrow> protocol_id p @ '': untyped method shape is absent or cannot '' @
          ''bypass available receiver type evidence''
      | EXACT \<Rightarrow> protocol_id p @ '': acquire symbol not present'')"

section \<open>The analyser\<close>

record lifecycle_finding =
  lf_protocol :: resource_protocol
  lf_binding :: string
  lf_acquire :: operation
  lf_use :: operation
  lf_cleanups :: "operation list"
  lf_type_ids :: "string list"

definition lifecycle_to_fact :: "lifecycle_finding \<Rightarrow> semantic_fact" where
  "lifecycle_to_fact f =
     (let p = lf_protocol f in
      \<lparr>sf_subject = op_scope (lf_acquire f), sf_predicate = Kind STATE_TRANSITION,
       sf_object = ''resource use is not dominated by cleanup registration'',
       sf_evidence = [op_location (lf_acquire f), op_location (lf_use f)] @
         map op_location (take 3 (lf_cleanups f)),
       sf_confidence = rp_confidence p,
       sf_attributes =
         [(''protocol_id'', PStr (protocol_id p)),
          (''protocol_origin'', PStr (protocol_origin_value (rp_origin p))),
          (''acquire_symbol'', PStr (rp_acquire p)),
          (''matched_acquire_symbol'', PStr (op_target (lf_acquire f))),
          (''acquire_match_mode'', PStr (match_mode_value (rp_mode p))),
          (''resource_binding'', PStr (lf_binding f)),
          (''resource_member_path'', PStr (rp_member p)),
          (''cleanup_methods'', PList (map PStr (rp_cleanup p))),
          (''receiver_type'', PStr (rp_receiver_type p)),
          (''canonical_acquire'', PStr (rp_canonical p)),
          (''reference_type_evidence_ids'', PList (map PStr (rp_type_ids p))),
          (''matched_type_evidence_ids'', PList (map PStr (lf_type_ids f))),
          (''acquire_operation'', PStr (op_id (lf_acquire f))),
          (''use_operation'', PStr (op_id (lf_use f))),
          (''cleanup_operations'', PList (map (\<lambda>c. PStr (op_id c)) (lf_cleanups f))),
          (''proof'', PStr ''cfg_dominance_between_acquire_and_use''),
          (''mapping_fact_ids'', PList (map PStr (rp_fact_ids p)))]\<rparr>)"

record lifecycle_result =
  lr_findings :: "lifecycle_finding list"
  lr_protocols :: nat
  lr_acquisitions :: nat
  lr_abstentions :: nat
  lr_reasons :: "string list"

text \<open>What one acquisition ends in: a reason to abstain, a finding, or nothing to report.\<close>

datatype acquire_outcome = Abstained string | Unprotected lifecycle_finding | Protected

definition acquire_cleanups ::
  "cfg \<Rightarrow> operation list \<Rightarrow> resource_protocol \<Rightarrow> operation \<Rightarrow> string \<Rightarrow> operation list" where
  "acquire_cleanups g ordered proto acquire binding =
     filter (\<lambda>p. op_scope p = op_scope acquire \<and> op_kind p = DEFER \<and>
         receiver_member_path p binding = Some (rp_member proto) \<and>
         method_name p \<in> set (rp_cleanup proto) \<and>
         reachable_compute g (op_id acquire) (op_id p)) ordered"

definition acquire_transfers :: "cfg \<Rightarrow> operation list \<Rightarrow> operation \<Rightarrow> string \<Rightarrow> operation list" where
  "acquire_transfers g ordered acquire binding =
     filter (\<lambda>p. op_scope p = op_scope acquire \<and> transfers_ownership p binding \<and>
         reachable_compute g (op_id acquire) (op_id p)) ordered"

definition acquire_uses ::
  "cfg \<Rightarrow> operation list \<Rightarrow> resource_protocol \<Rightarrow> operation \<Rightarrow> string \<Rightarrow> operation list \<Rightarrow> operation list" where
  "acquire_uses g ordered proto acquire binding cleanups =
     filter (\<lambda>p. op_scope p = op_scope acquire \<and> op_id p \<noteq> op_id acquire \<and> op_id p \<noteq> host_id acquire \<and>
         \<not> is_embedded_call p \<and> \<not> op_in p cleanups \<and> uses_resource p binding (rp_member proto) \<and>
         reachable_compute g (op_id acquire) (op_id p)) ordered"

definition use_protected :: "cfg \<Rightarrow> operation \<Rightarrow> operation list \<Rightarrow> operation \<Rightarrow> bool" where
  "use_protected g acquire cleanups use =
     list_ex (\<lambda>c. reachable_compute g (op_id acquire) (op_id c) \<and> reachable_compute g (op_id c) (op_id use) \<and>
         dominates_between g (op_id acquire) (op_id c) (op_id use)) cleanups"

definition evaluate_acquire ::
  "cfg \<Rightarrow> type_index \<Rightarrow> operation list \<Rightarrow> resource_protocol \<Rightarrow> operation \<Rightarrow> acquire_outcome" where
  "evaluate_acquire g ix ordered proto acquire =
     (let targets = result_targets acquire; pid = protocol_id proto in
      if int (length targets) \<le> rp_index proto
      then Abstained (pid @ '': result index is unavailable at '' @ op_id acquire)
      else let binding = targets ! nat (rp_index proto) in
        if \<not> usable_binding binding
        then Abstained (pid @ '': result binding is not usable at '' @ op_id acquire)
        else let cleanups = acquire_cleanups g ordered proto acquire binding in
          if acquire_transfers g ordered acquire binding \<noteq> []
          then Abstained (pid @ '': ownership of '' @ binding @ '' is transferred '' @ ''to the caller'')
          else let uses = acquire_uses g ordered proto acquire binding cleanups in
            if uses = [] then Abstained (pid @ '': no reachable resource use for '' @ binding)
            else (case find (\<lambda>u. \<not> use_protected g acquire cleanups u) uses of
                None \<Rightarrow> Protected
              | Some u \<Rightarrow> Unprotected
                  \<lparr>lf_protocol = proto, lf_binding = binding, lf_acquire = acquire, lf_use = u,
                   lf_cleanups = cleanups, lf_type_ids = ti_evidence_ids ix (op_id acquire) (Some RECEIVER)\<rparr>))"

definition abstain :: "string \<Rightarrow> lifecycle_result \<Rightarrow> lifecycle_result" where
  "abstain why r = r\<lparr>lr_abstentions := Suc (lr_abstentions r), lr_reasons := lr_reasons r @ [why]\<rparr>"

definition add_outcome :: "lifecycle_result \<Rightarrow> acquire_outcome \<Rightarrow> lifecycle_result" where
  "add_outcome r out =
     (let r' = r\<lparr>lr_acquisitions := Suc (lr_acquisitions r)\<rparr> in
      case out of
        Abstained why \<Rightarrow> abstain why r'
      | Unprotected f \<Rightarrow> r'\<lparr>lr_findings := lr_findings r' @ [f]\<rparr>
      | Protected \<Rightarrow> r')"

definition protocol_acquisitions ::
  "semantic_ir \<Rightarrow> type_index \<Rightarrow> operation list \<Rightarrow> resource_protocol \<Rightarrow> operation list" where
  "protocol_acquisitions ir ix ordered proto =
     filter (\<lambda>p. op_kind p = CALL \<and> matches_acquire p proto ix \<and>
         is_primary_result_call p (ops_by_id (ir_operations ir))) ordered"

definition evaluate_protocol ::
  "semantic_ir \<Rightarrow> cfg \<Rightarrow> type_index \<Rightarrow> operation list \<Rightarrow> lifecycle_result \<Rightarrow> resource_protocol \<Rightarrow> lifecycle_result" where
  "evaluate_protocol ir g ix ordered r proto =
     (let acquisitions = protocol_acquisitions ir ix ordered proto in
      if acquisitions = [] then abstain (missing_acquire_reason proto) r
      else foldl add_outcome r (map (evaluate_acquire g ix ordered proto) acquisitions))"

definition analyze_resources :: "semantic_ir \<Rightarrow> resource_protocol list \<Rightarrow> lifecycle_result" where
  "analyze_resources ir protocols =
     foldl (evaluate_protocol ir (cfg_from_ir ir []) (make_type_index (ir_types ir))
         (sort_key op_order (ir_operations ir)))
       \<lparr>lr_findings = [], lr_protocols = length protocols, lr_acquisitions = 0, lr_abstentions = 0,
        lr_reasons = []\<rparr> protocols"

section \<open>The miner\<close>

definition member_paths :: "operation list \<Rightarrow> string \<Rightarrow> string list" where
  "member_paths cleanups binding =
     sorted_set (List.map_filter (\<lambda>p. receiver_member_path p binding) cleanups)"

definition cleanup_methods :: "operation list \<Rightarrow> string \<Rightarrow> string \<Rightarrow> string list" where
  "cleanup_methods cleanups binding member =
     sorted_set (filter (\<lambda>m. m \<noteq> []) (map method_name
       (filter (\<lambda>p. receiver_member_path p binding = Some member) cleanups)))"

definition reference_cleanups :: "cfg \<Rightarrow> operation list \<Rightarrow> operation \<Rightarrow> string \<Rightarrow> operation list" where
  "reference_cleanups g ops call binding =
     filter (\<lambda>p. op_scope p = op_scope call \<and> op_kind p = DEFER \<and>
         reachable_compute g (op_id call) (op_id p) \<and> receiver_root p = binding) ops"

fun mode_confidence :: "match_mode \<Rightarrow> pyfloat" where
  "mode_confidence EXACT = (1, ''1.0'')"
| "mode_confidence TYPED_METHOD = (4278419646001971 / 4503599627370496, ''0.95'')"
| "mode_confidence METHOD_SHAPE = (3602879701896397 / 4503599627370496, ''0.8'')"

text \<open>The protocol one (call, result, member path) suggests, before it is built.\<close>

definition learn_draft ::
  "type_index \<Rightarrow> bool \<Rightarrow> operation \<Rightarrow> nat \<Rightarrow> string \<Rightarrow> string list \<Rightarrow> resource_protocol" where
  "learn_draft ix generalize call index member methods =
     (let wide = generalize \<and> member \<noteq> [];
          rtype = (if wide then ti_unique_type ix (op_id call) RECEIVER else []);
          symbols = ti_canonical_symbols ix (op_id call) RECEIVER;
          ids = (if wide then ti_evidence_ids ix (op_id call) (Some RECEIVER) else []);
          typed = rtype \<noteq> [] \<and> length symbols = 1 \<and> ids \<noteq> [];
          mode = (if wide then (if typed then TYPED_METHOD else METHOD_SHAPE) else EXACT)
      in \<lparr>rp_acquire = op_target call, rp_index = int index, rp_cleanup = methods, rp_mode = mode,
          rp_member = member, rp_receiver_type = rtype,
          rp_canonical = (if wide \<and> typed then hd symbols else []),
          rp_type_ids = ids, rp_origin = REFERENCE_USAGE, rp_confidence = mode_confidence mode,
          rp_fact_ids = []\<rparr>)"

definition binding_drafts ::
  "cfg \<Rightarrow> type_index \<Rightarrow> bool \<Rightarrow> operation list \<Rightarrow> operation \<Rightarrow> nat \<times> string \<Rightarrow> resource_protocol list" where
  "binding_drafts g ix generalize ops call ib =
     (let (index, binding) = ib in
      if \<not> usable_binding binding then []
      else let cleanups = reference_cleanups g ops call binding in
        List.map_filter (\<lambda>member.
            let methods = cleanup_methods cleanups binding member
            in if methods = [] then None else Some (learn_draft ix generalize call index member methods))
          (member_paths cleanups binding))"

definition protocol_drafts :: "semantic_ir \<Rightarrow> bool \<Rightarrow> resource_protocol list" where
  "protocol_drafts ir generalize =
     (let g = cfg_from_ir ir []; ix = make_type_index (ir_types ir); ops = ir_operations ir
      in concat (map (\<lambda>call.
           if \<not> is_primary_result_call call (ops_by_id ops) then []
           else concat (map (binding_drafts g ix generalize ops call)
                  (enumerate 0 (result_targets call))))
         (sort_key op_order ops)))"

type_synonym proto_key = "string \<times> int \<times> string \<times> string \<times> string \<times> string \<times> string list"

definition protocol_key :: "resource_protocol \<Rightarrow> proto_key" where
  "protocol_key p = (rp_acquire p, rp_index p, match_mode_value (rp_mode p), rp_member p,
     rp_receiver_type p, rp_canonical p, rp_cleanup p)"

fun learn_loop ::
  "(proto_key, resource_protocol) dict \<Rightarrow> resource_protocol list
   \<Rightarrow> py_error + (proto_key, resource_protocol) dict" where
  "learn_loop protocols [] = Inr protocols"
| "learn_loop protocols (d # ds) =
     (let ids = (case dict_get protocols (protocol_key d) of
            None \<Rightarrow> rp_type_ids d
          | Some old \<Rightarrow> sorted_set (rp_type_ids old @ rp_type_ids d))
      in case make_protocol (d\<lparr>rp_type_ids := ids\<rparr>) of
           Inl e \<Rightarrow> Inl e
         | Inr p \<Rightarrow> learn_loop (dict_set (protocol_key d) p protocols) ds)"

definition learn_protocols :: "semantic_ir \<Rightarrow> bool \<Rightarrow> py_error + resource_protocol list" where
  "learn_protocols ir generalize =
     map_sum id (\<lambda>d. map snd (sort_key fst d)) (learn_loop [] (protocol_drafts ir generalize))"

section \<open>Facts\<close>

lemma make_protocol_Inr: "make_protocol p = Inr q \<Longrightarrow> q = p"
  by (auto simp: make_protocol_def Let_def split: if_splits)

text \<open>A generalised draft whose receiver type is known without one canonical symbol cannot be built.\<close>

lemma untyped_draft_rejected:
  assumes "strip (op_target call) \<noteq> []" "is_dotted_path member" "member \<noteq> []" "methods \<noteq> []"
    and "\<forall>m \<in> set methods. strip m \<noteq> []"
    and "ti_unique_type ix (op_id call) RECEIVER \<noteq> []"
    and "length (ti_canonical_symbols ix (op_id call) RECEIVER) \<noteq> 1"
  shows "make_protocol (learn_draft ix True call n member methods) =
    Inl (ValueError ''type evidence fields are reserved for typed_method matching'')"
  using assms by (auto simp: make_protocol_def learn_draft_def Let_def list_ex_iff)

lemma exact_draft_accepted:
  assumes "strip (op_target call) \<noteq> []" "member = [] \<or> is_dotted_path member" "methods \<noteq> []"
    and "\<forall>m \<in> set methods. strip m \<noteq> []"
  shows "\<exists>p. make_protocol (learn_draft ix False call n member methods) = Inr p \<and> rp_mode p = EXACT"
  using assms by (auto simp: make_protocol_def learn_draft_def Let_def list_ex_iff unit_interval_def)

lemma lr_add_outcome:
  "lr_acquisitions (add_outcome r out) = Suc (lr_acquisitions r)"
  "lr_protocols (add_outcome r out) = lr_protocols r"
  "set (lr_findings (add_outcome r out)) =
     set (lr_findings r) \<union> (case out of Unprotected f \<Rightarrow> {f} | _ \<Rightarrow> {})"
  "length (lr_reasons (add_outcome r out)) + lr_abstentions r = length (lr_reasons r) + lr_abstentions (add_outcome r out)"
  by (cases out; simp add: add_outcome_def abstain_def Let_def)+

lemma findings_fold:
  "set (lr_findings (foldl add_outcome r outs)) = set (lr_findings r) \<union> {f. Unprotected f \<in> set outs}"
proof (induction outs arbitrary: r)
  case (Cons out outs)
  then show ?case by (cases out) (auto simp: lr_add_outcome)
qed simp

lemma findings_protocol:
  "set (lr_findings (evaluate_protocol ir g ix ordered r proto)) = set (lr_findings r) \<union>
     {f. \<exists>a \<in> set (protocol_acquisitions ir ix ordered proto). evaluate_acquire g ix ordered proto a = Unprotected f}"
  by (auto simp: evaluate_protocol_def Let_def findings_fold abstain_def image_iff) (metis empty_iff list.set(1))

lemma findings_protocols:
  "set (lr_findings (foldl (evaluate_protocol ir g ix ordered) r protocols)) = set (lr_findings r) \<union>
     {f. \<exists>proto \<in> set protocols. \<exists>a \<in> set (protocol_acquisitions ir ix ordered proto).
        evaluate_acquire g ix ordered proto a = Unprotected f}"
  by (induction protocols arbitrary: r) (auto simp: findings_protocol)

lemma unprotected_use:
  assumes "evaluate_acquire g ix ordered proto a = Unprotected f" "0 \<le> rp_index proto"
  shows "lf_acquire f = a \<and> lf_protocol f = proto \<and> lf_use f \<in> set ordered \<and> op_scope (lf_use f) = op_scope a \<and>
    lf_binding f \<in> set (result_targets a) \<and> lf_binding f = result_targets a ! nat (rp_index proto) \<and>
    usable_binding (lf_binding f) \<and> uses_resource (lf_use f) (lf_binding f) (rp_member proto) \<and>
    reachable_compute g (op_id a) (op_id (lf_use f)) \<and>
    lf_cleanups f = acquire_cleanups g ordered proto a (lf_binding f) \<and>
    acquire_transfers g ordered a (lf_binding f) = [] \<and>
    \<not> use_protected g a (lf_cleanups f) (lf_use f)"
proof -
  let ?b = "result_targets a ! nat (rp_index proto)"
  have i: "\<not> int (length (result_targets a)) \<le> rp_index proto"
    using assms by (auto simp: evaluate_acquire_def Let_def split: if_splits)
  have len: "0 < length (result_targets a)" "nat (rp_index proto) < length (result_targets a)"
    using i assms(2) by (auto simp: not_le)
  let ?c = "acquire_cleanups g ordered proto a ?b"
  obtain u where u: "find (\<lambda>u. \<not> use_protected g a ?c u) (acquire_uses g ordered proto a ?b ?c) = Some u"
    "f = \<lparr>lf_protocol = proto, lf_binding = ?b, lf_acquire = a, lf_use = u, lf_cleanups = ?c,
      lf_type_ids = ti_evidence_ids ix (op_id a) (Some RECEIVER)\<rparr>"
    "usable_binding ?b" "acquire_transfers g ordered a ?b = []"
    using assms by (auto simp: evaluate_acquire_def Let_def split: if_splits option.splits)
  from u(1) have "u \<in> set (acquire_uses g ordered proto a ?b ?c)" "\<not> use_protected g a ?c u"
    by (auto simp: find_Some_iff)
  with u len show ?thesis by (auto simp: acquire_uses_def)
qed

lemma use_protected_iff:
  "use_protected g a cs u \<longleftrightarrow>
     (\<exists>c \<in> set cs. flow_queries.protects (reachable_compute g) (dominates_between g) (op_id a) (op_id c) (op_id u))"
  by (auto simp: use_protected_def list_ex_iff flow.protects_def)

text \<open>An unprotected use: for every cleanup on the way there is a path that misses it.\<close>

lemma unprotected_path:
  assumes "evaluate_acquire g ix ordered proto a = Unprotected f" "0 \<le> rp_index proto"
    and "c \<in> set (lf_cleanups f)" "reachable_compute g (op_id c) (op_id (lf_use f))"
    and "op_id c \<noteq> op_id a" "op_id c \<noteq> op_id (lf_use f)"
  shows "\<exists>p. path_between g (op_id a) p (op_id (lf_use f)) \<and> 2 \<le> length p \<and> op_id c \<notin> set p"
proof (rule flow.not_protects_path)
  note u = unprotected_use[OF assms(1,2)]
  show "\<not> flow_queries.protects (reachable_compute g) (dominates_between g) (op_id a) (op_id c) (op_id (lf_use f))"
    using u assms(3) use_protected_iff by blast
  show "reachable_compute g (op_id a) (op_id c)" using u assms(3) by (auto simp: acquire_cleanups_def)
qed (use assms unprotected_use[OF assms(1,2)] in auto)

text \<open>Verified: every use is protected by one cleanup on all its paths.\<close>

lemma protected_uses:
  assumes "evaluate_acquire g ix ordered proto a = Protected" "0 \<le> rp_index proto"
  defines "binding \<equiv> result_targets a ! nat (rp_index proto)"
  defines "cleanups \<equiv> acquire_cleanups g ordered proto a binding"
  shows "nat (rp_index proto) < length (result_targets a) \<and> usable_binding binding \<and>
    acquire_transfers g ordered a binding = [] \<and> acquire_uses g ordered proto a binding cleanups \<noteq> [] \<and>
    (\<forall>u \<in> set (acquire_uses g ordered proto a binding cleanups). \<exists>c \<in> set cleanups.
      \<forall>p. path_between g (op_id a) p (op_id u) \<and> 2 \<le> length p \<longrightarrow> op_id c \<in> set p)"
proof -
  have i: "\<not> int (length (result_targets a)) \<le> rp_index proto"
    using assms(1) by (auto simp: evaluate_acquire_def Let_def split: if_splits)
  note ev = assms(1)[unfolded evaluate_acquire_def Let_def, folded binding_def, folded cleanups_def]
  have rest: "usable_binding binding" "acquire_transfers g ordered a binding = []"
    "acquire_uses g ordered proto a binding cleanups \<noteq> []"
    "find (\<lambda>u. \<not> use_protected g a cleanups u) (acquire_uses g ordered proto a binding cleanups) = None"
    using ev by (auto split: if_splits option.splits)
  have "\<exists>c \<in> set cleanups. \<forall>p. path_between g (op_id a) p (op_id u) \<and> 2 \<le> length p \<longrightarrow> op_id c \<in> set p"
    if "u \<in> set (acquire_uses g ordered proto a binding cleanups)" for u
  proof -
    have "use_protected g a cleanups u" using rest(4) that by (auto simp: find_None_iff)
    then show ?thesis unfolding use_protected_iff using flow.protects_path by blast
  qed
  with rest i assms(2) show ?thesis by auto
qed

section \<open>Properties\<close>

lemma path_suffix:
  "path_between g s p t \<Longrightarrow> c \<in> set p \<Longrightarrow> \<exists>q. path_between g c q t \<and> set q \<subseteq> set p"
proof (induction g p arbitrary: s rule: is_path.induct)
  case (3 g x y zs)
  show ?case
  proof (cases "c = x")
    case True
    with 3(2) show ?thesis by (intro exI[of _ "x # y # zs"]) (auto simp: path_between_def)
  next
    case False
    with 3(1)[of y] 3(2,3) show ?thesis by (fastforce simp: path_between_def)
  qed
next
  case (2 g x)
  then show ?case by (intro exI[of _ "[x]"]) (auto simp: path_between_def)
qed (simp add: path_between_def)

text \<open>An unprotected use can be reached around each registered cleanup.\<close>

lemma unprotected_avoids:
  assumes "evaluate_acquire g ix ordered proto a = Unprotected f" "0 \<le> rp_index proto"
    and "c \<in> set (lf_cleanups f)" "op_id c \<noteq> op_id a" "op_id c \<noteq> op_id (lf_use f)"
  shows "\<exists>p. path_between g (op_id a) p (op_id (lf_use f)) \<and> 2 \<le> length p \<and> op_id c \<notin> set p"
proof (cases "reachable_compute g (op_id c) (op_id (lf_use f))")
  case True
  with unprotected_path[OF assms(1-3)] assms(4,5) show ?thesis by blast
next
  case False
  have reach: "reachable_compute g (op_id a) (op_id (lf_use f))" "reachable_compute g (op_id a) (op_id c)"
    using unprotected_use[OF assms(1,2)] assms(3) by (auto simp: acquire_cleanups_def)
  then have scope: "same_scope g (op_id c) (op_id (lf_use f))" by (auto simp: reachable_compute_iff same_scope_iff)
  from reach(1) obtain p where p: "path_between g (op_id a) p (op_id (lf_use f))" "2 \<le> length p"
    by (auto simp: flow.reach_path)
  have "op_id c \<notin> set p"
  proof
    assume "op_id c \<in> set p"
    with path_suffix[OF p(1)] obtain q where q: "path_between g (op_id c) q (op_id (lf_use f))" by blast
    then have "2 \<le> length q" using assms(5) by (cases q; cases "tl q") (auto simp: path_between_def)
    with q scope False show False by (auto simp: flow.reach_path)
  qed
  with p show ?thesis by blast
qed

text \<open>What it is to be a registered cleanup of an acquisition, in terms of the program.\<close>

definition registers_cleanup :: "semantic_ir \<Rightarrow> resource_protocol \<Rightarrow> operation \<Rightarrow> string \<Rightarrow> operation \<Rightarrow> bool" where
  "registers_cleanup ir proto acquire binding d \<longleftrightarrow>
     d \<in> set (ir_operations ir) \<and> op_kind d = DEFER \<and> op_scope d = op_scope acquire \<and>
     receiver_member_path d binding = Some (rp_member proto) \<and> method_name d \<in> set (rp_cleanup proto) \<and>
     same_scope (cfg_from_ir ir []) (op_id acquire) (op_id d) \<and>
     (\<exists>p. path_between (cfg_from_ir ir []) (op_id acquire) p (op_id d) \<and> 2 \<le> length p)"

lemma acquire_cleanups_registered:
  "set (acquire_cleanups (cfg_from_ir ir []) (sort_key op_order (ir_operations ir)) proto a binding) =
     {d. registers_cleanup ir proto a binding d}"
  by (auto simp: acquire_cleanups_def registers_cleanup_def flow.reach_path)

text \<open>
  C26: Every finding is justified: a call of the program acquires the resource for one of the given
  protocols, a later operation of the same scope uses its result, the result is not handed to the
  caller, and the cleanups it lists are all the deferred calls of a cleanup method of the protocol on that
  result which the call reaches. Around each of them, unless it is the call or the use itself, there is a
  control-flow path from the call to the use.
\<close>

theorem resource_finding_justified:
  assumes "f \<in> set (lr_findings (analyze_resources ir protocols))" "\<forall>p \<in> set protocols. make_protocol p = Inr p"
  defines "registered \<equiv> registers_cleanup ir (lf_protocol f) (lf_acquire f) (lf_binding f)"
  shows "lf_protocol f \<in> set protocols \<and>
    lf_acquire f \<in> set (ir_operations ir) \<and> op_kind (lf_acquire f) = CALL \<and>
    matches_acquire (lf_acquire f) (lf_protocol f) (make_type_index (ir_types ir)) \<and>
    nat (rp_index (lf_protocol f)) < length (result_targets (lf_acquire f)) \<and>
    lf_binding f = result_targets (lf_acquire f) ! nat (rp_index (lf_protocol f)) \<and>
    lf_use f \<in> set (ir_operations ir) \<and> op_scope (lf_use f) = op_scope (lf_acquire f) \<and>
    uses_resource (lf_use f) (lf_binding f) (rp_member (lf_protocol f)) \<and>
    acquire_transfers (cfg_from_ir ir []) (sort_key op_order (ir_operations ir)) (lf_acquire f) (lf_binding f) = [] \<and>
    (\<exists>p. path_between (cfg_from_ir ir []) (op_id (lf_acquire f)) p (op_id (lf_use f)) \<and> 2 \<le> length p) \<and>
    set (lf_cleanups f) = {d. registered d} \<and>
    (\<forall>d. registered d \<and> op_id d \<noteq> op_id (lf_acquire f) \<and> op_id d \<noteq> op_id (lf_use f) \<longrightarrow>
       (\<exists>p. path_between (cfg_from_ir ir []) (op_id (lf_acquire f)) p (op_id (lf_use f)) \<and>
          2 \<le> length p \<and> op_id d \<notin> set p))"
proof -
  let ?g = "cfg_from_ir ir []" and ?ix = "make_type_index (ir_types ir)"
  let ?ops = "sort_key op_order (ir_operations ir)"
  obtain proto a where a: "proto \<in> set protocols" "a \<in> set (protocol_acquisitions ir ?ix ?ops proto)"
    "evaluate_acquire ?g ?ix ?ops proto a = Unprotected f"
    using assms(1) by (auto simp: analyze_resources_def findings_protocols)
  have "make_protocol proto = Inr proto" using assms(2) a(1) by blast
  then have i: "0 \<le> rp_index proto" by (auto simp: make_protocol_def Let_def split: if_splits)
  note u = unprotected_use[OF a(3) i]
  have "a \<in> set (ir_operations ir)" "op_kind a = CALL" "matches_acquire a proto ?ix"
    using a(2) by (auto simp: protocol_acquisitions_def)
  moreover have "\<exists>p. path_between ?g (op_id a) p (op_id (lf_use f)) \<and> 2 \<le> length p"
    using u by (auto simp: flow.reach_path)
  moreover have all: "set (lf_cleanups f) = {d. registered d}"
    using u by (simp add: registered_def acquire_cleanups_registered)
  moreover have "\<exists>p. path_between ?g (op_id a) p (op_id (lf_use f)) \<and> 2 \<le> length p \<and> op_id d \<notin> set p"
    if "registered d" "op_id d \<noteq> op_id a" "op_id d \<noteq> op_id (lf_use f)" for d
    using unprotected_avoids[OF a(3) i _ that(2,3)] all that(1) by blast
  moreover have "nat (rp_index proto) < length (result_targets a)"
    using a(3) i by (auto simp: evaluate_acquire_def Let_def split: if_splits)
  ultimately show ?thesis using u a(1) by auto
qed

text \<open>
  C27: An acquisition the analyser passes is protected: it is used and not handed to the caller, and
  for each use there is one registered cleanup that lies on every control-flow path from the
  acquiring call to that use.
\<close>

theorem passed_acquisition_protected:
  assumes "evaluate_acquire g ix ordered proto a = Protected" "0 \<le> rp_index proto"
  shows "let binding = result_targets a ! nat (rp_index proto);
             cleanups = acquire_cleanups g ordered proto a binding;
             uses = acquire_uses g ordered proto a binding cleanups
    in usable_binding binding \<and> acquire_transfers g ordered a binding = [] \<and> uses \<noteq> [] \<and>
       (\<forall>u \<in> set uses. \<exists>c \<in> set cleanups.
          \<forall>p. path_between g (op_id a) p (op_id u) \<and> 2 \<le> length p \<longrightarrow> op_id c \<in> set p)"
  using protected_uses[OF assms] by (simp add: Let_def)

text \<open>
  Generalised mining fails where the receiver's type is known but no single canonical symbol is:
  the protocol is drafted in the untyped mode with the type still set, which the constructor rejects.
\<close>

theorem generalised_mining_rejects_known_type:
  assumes "strip (op_target call) \<noteq> []" "is_dotted_path member" "member \<noteq> []" "methods \<noteq> []"
    and "\<forall>m \<in> set methods. strip m \<noteq> []"
    and "ti_unique_type ix (op_id call) RECEIVER \<noteq> []"
    and "length (ti_canonical_symbols ix (op_id call) RECEIVER) \<noteq> 1"
  shows "make_protocol (learn_draft ix True call n member methods) =
    Inl (ValueError ''type evidence fields are reserved for typed_method matching'')"
  by (rule untyped_draft_rejected[OF assms])

section \<open>Instances\<close>

text \<open>A file is opened, closed by a deferred call (or not on one branch) and read.\<close>

definition file_ops :: "operation list" where
  "file_ops =
     [(sample_op ''h'' ASSIGN ''s'' 1 ''f'' [(''calls'', PList [PStr ''os.Open''])]),
      sample_op ''c'' CALL ''s'' 1 ''os.Open''
        [(''result_targets'', PList [PStr ''f'', PStr ''err'']), (''host_operation'', PStr ''h'')],
      sample_op ''d'' DEFER ''s'' 2 ''f.Close'' [(''receiver'', PStr ''f'')],
      sample_op ''u'' CALL ''s'' 3 ''f.Read'' [(''receiver'', PStr ''f'')]]"

definition close_first :: "operation_edge list" where
  "close_first = [sample_edge ''c'' ''d'' NEXT, sample_edge ''d'' ''u'' NEXT]"

definition close_sometimes :: "operation_edge list" where
  "close_sometimes =
     [sample_edge ''c'' ''d'' TRUE_BRANCH, sample_edge ''c'' ''u'' FALSE_BRANCH, sample_edge ''d'' ''u'' NEXT]"

definition file_protocol :: resource_protocol where
  "file_protocol = \<lparr>rp_acquire = ''os.Open'', rp_index = 0, rp_cleanup = [''Close''], rp_mode = EXACT,
     rp_member = [], rp_receiver_type = [], rp_canonical = [], rp_type_ids = [], rp_origin = REFERENCE_USAGE,
     rp_confidence = (1, ''1.0''), rp_fact_ids = []\<rparr>"

theorem resource_finding_justified_witness:
  "\<exists>p. path_between (cfg_from_ir (sample_ir file_ops close_sometimes) []) ''c'' p ''u'' \<and> ''d'' \<notin> set p"
proof -
  let ?ir = "sample_ir file_ops close_sometimes"
  have ok: "\<forall>p \<in> set [file_protocol]. make_protocol p = Inr p" by code_simp
  let ?g = "cfg_from_ir ?ir []" and ?ix = "make_type_index (ir_types ?ir)"
  let ?ps = "sort_key op_order (ir_operations ?ir)" and ?a = "file_ops ! 1" and ?d = "file_ops ! 2" and ?u = "file_ops ! 3"
  have ev: "result_targets ?a = [''f'', ''err'']" "usable_binding ''f''"
    "acquire_cleanups ?g ?ps file_protocol ?a ''f'' = [?d]" "acquire_transfers ?g ?ps ?a ''f'' = []"
    "acquire_uses ?g ?ps file_protocol ?a ''f'' [?d] = [?u]" "\<not> use_protected ?g ?a [?d] ?u"
    "rp_index file_protocol = 0"
    by code_simp+
  have "?a \<in> set (protocol_acquisitions ?ir ?ix ?ps file_protocol)" by code_simp
  moreover obtain f where f: "evaluate_acquire ?g ?ix ?ps file_protocol ?a = Unprotected f" "lf_acquire f = ?a"
    "lf_use f = ?u" "lf_cleanups f = [?d]"
    using ev by (simp add: evaluate_acquire_def Let_def)
  ultimately have "f \<in> set (lr_findings (analyze_resources ?ir [file_protocol]))"
    unfolding analyze_resources_def findings_protocols by auto
  note r = resource_finding_justified[OF this ok]
  have "set (lf_cleanups f) = {d. registers_cleanup ?ir (lf_protocol f) (lf_acquire f) (lf_binding f) d}" using r by blast
  then have "registers_cleanup ?ir (lf_protocol f) (lf_acquire f) (lf_binding f) ?d" unfolding f(4) by auto
  moreover have "op_id ?d \<noteq> op_id (lf_acquire f)" "op_id ?d \<noteq> op_id (lf_use f)" unfolding f(2,3) by code_simp+
  ultimately have "\<exists>p. path_between ?g (op_id (lf_acquire f)) p (op_id (lf_use f)) \<and> 2 \<le> length p \<and> op_id ?d \<notin> set p"
    using r by blast
  then show ?thesis unfolding f(2,3) by (auto simp: file_ops_def sample_op_def)
qed

theorem passed_acquisition_protected_witness:
  "\<exists>c \<in> set (acquire_cleanups (cfg_from_ir (sample_ir file_ops close_first) []) file_ops file_protocol (file_ops ! 1) ''f'').
     op_id c \<in> set [''c'', ''d'', ''u'']"
proof -
  let ?g = "cfg_from_ir (sample_ir file_ops close_first) []"
  let ?a = "file_ops ! 1" and ?d = "file_ops ! 2" and ?u = "file_ops ! 3"
  have ev: "result_targets ?a = [''f'', ''err'']" "usable_binding ''f''"
    "acquire_cleanups ?g file_ops file_protocol ?a ''f'' = [?d]" "acquire_transfers ?g file_ops ?a ''f'' = []"
    "acquire_uses ?g file_ops file_protocol ?a ''f'' [?d] = [?u]" "use_protected ?g ?a [?d] ?u"
    "rp_index file_protocol = 0"
    by code_simp+
  then have "evaluate_acquire ?g (make_type_index []) file_ops file_protocol ?a = Protected"
    by (simp add: evaluate_acquire_def Let_def)
  moreover have "path_between ?g (op_id ?a) [''c'', ''d'', ''u''] (op_id ?u)"
    unfolding path_between_def by code_simp
  ultimately show ?thesis
    using passed_acquisition_protected[of ?g "make_type_index []" file_ops file_protocol ?a] ev
    by (fastforce simp: Let_def)
qed

definition repo_type :: type_evidence where
  "repo_type = \<lparr>te_operation = ''c'', te_role = RECEIVER, te_type_name = ''Repo'',
     te_source = SURFACE_DECLARATION, te_provider = ''go'', te_binding = [], te_position = 0,
     te_canonical = [], te_confidence = (1, ''1.0''), te_evidence = [], te_attributes = []\<rparr>"

theorem generalised_mining_rejects_known_type_witness:
  "make_protocol (learn_draft (make_type_index [repo_type]) True (sample_op ''c'' CALL ''s'' 1 ''repo.Find'' [])
     0 ''rows'' [''Close'']) =
   Inl (ValueError ''type evidence fields are reserved for typed_method matching'')"
proof (rule generalised_mining_rejects_known_type)
  have "ti_for_operation (make_type_index [repo_type]) ''c'' (Some RECEIVER) = [repo_type]"
    by (simp add: ti_for_operation_eq repo_type_def)
  moreover have "te_normalized repo_type = ''Repo''" by code_simp
  ultimately have "ti_unique_type (make_type_index [repo_type]) ''c'' RECEIVER = ''Repo''"
    "ti_canonical_symbols (make_type_index [repo_type]) ''c'' RECEIVER = []"
    by (simp_all add: ti_unique_type_def ti_canonical_symbols_def repo_type_def sorted_set_def)
  then show "ti_unique_type (make_type_index [repo_type]) (op_id (sample_op ''c'' CALL ''s'' 1 ''repo.Find'' [])) RECEIVER \<noteq> []"
    "length (ti_canonical_symbols (make_type_index [repo_type]) (op_id (sample_op ''c'' CALL ''s'' 1 ''repo.Find'' [])) RECEIVER) \<noteq> 1"
    by (simp_all add: sample_op_def)
qed code_simp+

end
