(* ===== verification/RetryLoops.thy ===== *)
theory RetryLoops
  imports StateMachine Samples
begin

text \<open>
  \<open>analysis/retry_loops.py\<close>: loops that retry a failing operation at once. The regular
  expressions are the word and substring tests they amount to; the search for a way back to the
  loop head is a depth-first one over (operation, mitigated, blocked) states.
\<close>

definition persistent_risk_operations :: "string list" where
  "persistent_risk_operations =
     [''accept'', ''accepttcp'', ''acceptunix'', ''listen'', ''dial'', ''dialcontext'', ''dialtimeout'',
      ''connect'', ''open'', ''openfile'', ''openat'', ''fopen'', ''create'', ''createfile'', ''createtemp'',
      ''mkdir'', ''mkdirall'', ''read'', ''readall'', ''readfile'', ''readdir'', ''readat'', ''recv'',
      ''receive'', ''readmessage'', ''write'', ''writefile'', ''writeat'', ''writestring'', ''send'',
      ''sendmessage'', ''query'', ''queryrow'', ''querycontext'', ''exec'', ''execcontext'', ''stat'',
      ''lstat'', ''fstat'', ''statfs'', ''walk'', ''walkdir'', ''remove'', ''removeall'', ''unlink'',
      ''rename'', ''lock'', ''trylock'', ''flush'', ''sync'']"

definition mitigation_words :: "string list" where
  "mitigation_words = [''sleep'', ''after'', ''ticker'', ''newticker'', ''timer'', ''newtimer'', ''throttle'',
     ''backoff'', ''jitter'', ''delay'', ''pause'', ''wait'', ''yield'', ''ratelimit'', ''rate_limit'']"

definition limit_guard_words :: "string list" where
  "limit_guard_words = [''attempt'', ''attempts'', ''retry'', ''retries'', ''backoff'', ''count'', ''limit'',
     ''max'', ''budget'', ''deadline'', ''timeout'']"

definition nil_literals :: "string list" where
  "nil_literals = [''nil'', ''none'', ''null'']"

definition comparison_operators :: "string list" where
  "comparison_operators = [''=='', ''!='', ''<='', ''>='', ''<'', ''>'']"

definition passthrough_words :: "string list" where
  "passthrough_words = [''log'', ''print'', ''sprintf'', ''errorf'', ''warn'', ''debug'', ''info'', ''trace'',
     ''slog'', ''fmt.'']"

text \<open>An unanchored, case-insensitive alternation of literals.\<close>

definition mentions :: "string list \<Rightarrow> string \<Rightarrow> bool" where
  "mentions ws text = list_ex (\<lambda>w. contains_sub w (lower text)) ws"

text \<open>The maximal runs of word characters: \<open>\bw\b\<close> matches where one of them is \<open>w\<close>.\<close>

fun word_tokens_acc :: "string \<Rightarrow> string \<Rightarrow> string list" where
  "word_tokens_acc acc [] = (if acc = [] then [] else [rev acc])"
| "word_tokens_acc acc (c # s) =
     (if is_word c then word_tokens_acc (c # acc) s
      else if acc = [] then word_tokens_acc [] s
      else rev acc # word_tokens_acc [] s)"

definition mentions_word :: "string list \<Rightarrow> string \<Rightarrow> bool" where
  "mentions_word ws text = list_ex (\<lambda>t. lower t \<in> set ws) (word_tokens_acc [] text)"

text \<open>\<open>^(err|error|errno)$\<close>; the dollar also stands before a final line feed.\<close>

definition is_error_name :: "string \<Rightarrow> bool" where
  "is_error_name s =
     (let t = lower s; names = [''err'', ''error'', ''errno'']
      in t \<in> set names \<or> (t \<noteq> [] \<and> code (last t) = 10 \<and> butlast t \<in> set names))"

definition operation_leaf :: "string \<Rightarrow> string" where
  "operation_leaf target =
     lower (filter is_ident_char
       (last (split_on (CHR ''.'') (last (split_sub ''->'' (last (split_sub ''::'' target)))))))"

definition is_unbounded_loop :: "operation \<Rightarrow> bool" where
  "is_unbounded_loop p =
     (let v = dict_get_or PNone (op_attributes p) ''infinite''
      in v = PBool True \<or> lower (py_str v) = ''true'')"

record retry_violation =
  rv_loop :: operation
  rv_call :: operation
  rv_branch :: operation
  rv_back :: operation
  rv_error :: string

definition retry_to_fact :: "retry_violation \<Rightarrow> semantic_fact" where
  "retry_to_fact v =
     \<lparr>sf_subject = (if op_target (rv_call v) \<noteq> [] then op_target (rv_call v) else op_value (rv_call v)),
      sf_predicate = Kind CONTROLS, sf_object = ''retry_without_backoff'',
      sf_evidence = map op_location [rv_loop v, rv_call v, rv_branch v, rv_back v],
      sf_confidence = float_one, sf_attributes = []\<rparr>"

record retry_result =
  rr_violations :: "retry_violation list"
  rr_loops :: nat
  rr_branches :: nat
  rr_mitigated :: nat
  rr_trace :: "string list"

section \<open>The loop body\<close>

fun body_arcs ::
  "cfg \<Rightarrow> string \<Rightarrow> string list \<times> string list \<Rightarrow> arc list \<Rightarrow> string list \<times> string list" where
  "body_arcs g sc (body, stack) [] = (body, stack)"
| "body_arcs g sc (body, stack) (a # as) =
     body_arcs g sc
       (if arc_kind a = LOOP_EXIT \<or> scope_of (cf_ops g) (arc_target a) \<noteq> Some sc \<or> arc_target a \<in> set body
        then (body, stack) else (arc_target a # body, arc_target a # stack)) as"

definition scope_ids :: "cfg \<Rightarrow> string \<Rightarrow> string set" where
  "scope_ids g sc = {i. scope_of (cf_ops g) i = Some sc}"

lemma finite_scope_ids: "finite (scope_ids g sc)"
proof (rule finite_subset)
  show "scope_ids g sc \<subseteq> set (map fst (cf_ops g))"
    by (auto simp: scope_ids_def scope_of_def dict_get_def dest!: map_of_SomeD) force
qed simp

lemma body_arcs_measure:
  "body_arcs g sc (body, stack) as = (body', stack') \<Longrightarrow>
   (body' = body \<and> stack' = stack) \<or>
   card (scope_ids g sc - set body') < card (scope_ids g sc - set body)"
proof (induction as arbitrary: body stack)
  case (Cons a as)
  let ?skip = "arc_kind a = LOOP_EXIT \<or> scope_of (cf_ops g) (arc_target a) \<noteq> Some sc \<or> arc_target a \<in> set body"
  show ?case
  proof (cases ?skip)
    case True
    with Cons show ?thesis by auto
  next
    case False
    then have "scope_ids g sc - set (arc_target a # body) \<subset> scope_ids g sc - set body"
      by (auto simp: scope_ids_def)
    then have "card (scope_ids g sc - set (arc_target a # body)) < card (scope_ids g sc - set body)"
      using finite_scope_ids by (simp add: psubset_card_mono)
    moreover have "body_arcs g sc (arc_target a # body, arc_target a # stack) as = (body', stack')"
      using Cons.prems False by simp
    ultimately show ?thesis using Cons.IH by fastforce
  qed
qed simp

text \<open>The stack's top is the head of the list.\<close>

function body_loop :: "cfg \<Rightarrow> string \<Rightarrow> string list \<Rightarrow> string list \<Rightarrow> string list" where
  "body_loop g sc [] body = body"
| "body_loop g sc (current # stack) body =
     (case body_arcs g sc (body, stack) (succ_arcs g current) of
        (body', stack') \<Rightarrow> body_loop g sc stack' body')"
  by pat_completeness auto
termination
proof (relation "inv_image (less_than <*lex*> less_than)
    (\<lambda>(g, sc, S, B). (card (scope_ids g sc - set B), length S))", goal_cases)
  case (2 g sc x S B B' S')
  then show ?case using body_arcs_measure[of g sc B S "succ_arcs g x" B' S'] by auto
qed auto

definition loop_body :: "cfg \<Rightarrow> operation \<Rightarrow> string list" where
  "loop_body g loop =
     (let body = body_loop g (op_scope loop) [op_id loop] []
      in body @ filter (\<lambda>i. scope_of (cf_ops g) i = Some (op_scope loop))
           (concat (map (\<lambda>n. map arc_source (pred_arcs g n)) body)))"

section \<open>Error results and error branches\<close>

definition result_names :: "operation \<Rightarrow> string list" where
  "result_names p =
     (case attr_seq (op_attributes p) ''result_targets'' of None \<Rightarrow> []
      | Some xs \<Rightarrow> filter is_error_name (filter (\<lambda>s. s \<noteq> []) (map py_str xs)))"

fun error_outcome_loop :: "string \<Rightarrow> string list \<Rightarrow> (string \<times> edge_kind) option" where
  "error_outcome_loop condition [] = None"
| "error_outcome_loop condition (name # names) =
     (let words = ident_tokens condition; lowered = lower condition;
          has_nil = list_ex (\<lambda>l. l \<in> set words) nil_literals
      in if name \<notin> set words then error_outcome_loop condition names
         else if CHR ''('' \<in> set condition then None
         else if has_nil \<and> (contains_sub ''!='' condition \<or> contains_sub '' is not '' lowered)
         then Some (name, TRUE_BRANCH)
         else if has_nil \<and> (contains_sub ''=='' condition \<or> contains_sub '' is '' lowered)
         then Some (name, FALSE_BRANCH)
         else if \<not> has_nil \<and> \<not> list_ex (\<lambda>c. contains_sub c condition) comparison_operators
         then Some (name, TRUE_BRANCH)
         else error_outcome_loop condition names)"

definition error_outcome :: "operation \<Rightarrow> string list \<Rightarrow> (string \<times> edge_kind) option" where
  "error_outcome branch names =
     (let condition = strip (op_value branch)
      in if condition = [] then None else error_outcome_loop condition names)"

text \<open>\<open>re.split(r"[,\s]+", target)\<close> without the empty pieces.\<close>

definition target_names :: "string \<Rightarrow> string list" where
  "target_names s = split_ws (map (\<lambda>c. if c = CHR '','' then CHR '' '' else c) s)"

definition bound_names :: "operation \<Rightarrow> string list" where
  "bound_names p =
     (case attr_seq (op_attributes p) ''bindings'' of None \<Rightarrow> []
      | Some bs \<Rightarrow> List.map_filter (\<lambda>b. case b of
            PDict d \<Rightarrow> (let t = dict_get_or PNone d ''target'' in if py_truth t then Some (py_str t) else None)
          | _ \<Rightarrow> None) bs)"

definition assigned_names :: "operation list \<Rightarrow> string list \<Rightarrow> string list" where
  "assigned_names ops body =
     concat (map (\<lambda>p. target_names (op_target p) @ bound_names p)
       (filter (\<lambda>p. op_id p \<in> set body \<and> op_kind p \<in> {ASSIGN, UPDATE}) ops))"

definition call_text :: "operation \<Rightarrow> string" where
  "call_text p = (if op_target p \<noteq> [] then op_target p else op_value p)"

definition blocks_immediate_retry :: "operation \<Rightarrow> bool" where
  "blocks_immediate_retry p =
     (op_kind p \<in> {CALL, SPAWN, SEND, EMIT} \<and> \<not> mentions passthrough_words (call_text p))"

definition is_mitigation :: "operation \<Rightarrow> string list \<Rightarrow> string \<Rightarrow> bool" where
  "is_mitigation p guards error =
     (if op_kind p = BRANCH then
        (mentions_word limit_guard_words (op_value p) \<or>
         list_ex (\<lambda>t. t \<in> set guards \<and> t \<noteq> error) (ident_tokens (op_value p)))
      else op_kind p \<in> {CALL, SPAWN} \<and> mentions mitigation_words (call_text p))"

section \<open>The search for an immediate retry\<close>

type_synonym retry_state = "string \<times> bool \<times> bool"

definition retry_live :: "cfg \<Rightarrow> string list \<Rightarrow> string \<Rightarrow> bool" where
  "retry_live g body n \<longleftrightarrow> dict_has (cf_ops g) n \<and> n \<in> set body"

text \<open>A live state with no mark and an arc back to the loop head is the witness.\<close>

definition retry_hit :: "cfg \<Rightarrow> string \<Rightarrow> string list \<Rightarrow> retry_state \<Rightarrow> bool" where
  "retry_hit g loop body s =
     (case s of (n, mitigated, blocked) \<Rightarrow>
        retry_live g body n \<and> \<not> mitigated \<and> \<not> blocked \<and>
        list_ex (\<lambda>a. arc_kind a = LOOP_BACK \<and> arc_target a = loop) (succ_arcs g n))"

definition retry_next ::
  "cfg \<Rightarrow> string list \<Rightarrow> string list \<Rightarrow> string \<Rightarrow> retry_state \<Rightarrow> retry_state list" where
  "retry_next g body guards error s =
     (case s of (n, mitigated, blocked) \<Rightarrow>
        if \<not> retry_live g body n then []
        else List.map_filter (\<lambda>a.
            if arc_kind a = LOOP_BACK then None
            else (case dict_get (cf_ops g) (arc_target a) of None \<Rightarrow> None
              | Some t \<Rightarrow> Some (arc_target a, mitigated \<or> is_mitigation t guards error,
                  blocked \<or> blocks_immediate_retry t)))
          (succ_arcs g n))"

lemma finite_retry_next: "finite {s. retry_next g body guards error s \<noteq> []}"
proof (rule finite_subset)
  show "{s. retry_next g body guards error s \<noteq> []} \<subseteq> {x. succ_arcs g x \<noteq> []} \<times> UNIV"
    by (auto simp: retry_next_def List.map_filter_simps split: if_splits)
qed (use succ_arcs_finite[of "\<lambda>x. x"] in simp)

text \<open>Later pushes are popped first, so the next states are put in front in reverse.\<close>

function retry_search ::
  "cfg \<Rightarrow> string \<Rightarrow> string list \<Rightarrow> string list \<Rightarrow> string \<Rightarrow> retry_state list \<Rightarrow> retry_state list \<Rightarrow> string option" where
  "retry_search g loop body guards error [] visited = None"
| "retry_search g loop body guards error (s # stack) visited =
     (if s \<in> set visited then retry_search g loop body guards error stack visited
      else if retry_hit g loop body s then Some (fst s)
      else retry_search g loop body guards error
        (rev (retry_next g body guards error s) @ stack) (s # visited))"
  by pat_completeness auto
termination
proof (relation "inv_image (less_than <*lex*> less_than)
    (\<lambda>(g, l, b, gs, e, Q, V). (card ({s. retry_next g b gs e s \<noteq> []} - set V), length Q))", goal_cases)
  case (3 g l b gs e s Q V)
  let ?N = "{s. retry_next g b gs e s \<noteq> []}"
  show ?case
  proof (cases "retry_next g b gs e s = []")
    case True
    then have "?N - set (s # V) = ?N - set V" by auto
    with True show ?thesis by simp
  next
    case False
    with 3 have "?N - set (s # V) \<subset> ?N - set V" by auto
    then show ?thesis using finite_retry_next by (simp add: psubset_card_mono)
  qed
qed auto

definition unmitigated_loopback ::
  "cfg \<Rightarrow> string list \<Rightarrow> string \<Rightarrow> string list \<Rightarrow> string list \<Rightarrow> string \<Rightarrow> operation option" where
  "unmitigated_loopback g starts loop body guards error =
     Option.bind (retry_search g loop body guards error (rev (map (\<lambda>s. (s, False, False)) starts)) [])
       (dict_get (cf_ops g))"

section \<open>The analyser\<close>

definition line_order :: "operation \<Rightarrow> int \<times> string" where
  "line_order p = (er_line_start (op_location p), op_id p)"

definition note_branch ::
  "cfg \<Rightarrow> operation \<Rightarrow> string list \<Rightarrow> string list \<Rightarrow> operation \<Rightarrow> string list \<Rightarrow> retry_result \<Rightarrow> operation \<Rightarrow> retry_result" where
  "note_branch g loop body guards call names r branch =
     (if op_id branch \<notin> set body then r
      else (case error_outcome branch names of None \<Rightarrow> r
        | Some (error, outcome) \<Rightarrow>
            (let r' = r\<lparr>rr_branches := Suc (rr_branches r)\<rparr>;
                 starts = map arc_target (cfg_successors g (op_id branch) [outcome])
             in case unmitigated_loopback g starts (op_id loop) body guards error of
                  None \<Rightarrow> r'\<lparr>rr_mitigated := Suc (rr_mitigated r')\<rparr>
                | Some w \<Rightarrow>
                    (if list_ex (\<lambda>v. op_id (rv_loop v) = op_id loop \<and> op_id (rv_call v) = op_id call \<and>
                          op_id (rv_branch v) = op_id branch) (rr_violations r') then r'
                     else r'\<lparr>rr_violations := rr_violations r' @
                       [\<lparr>rv_loop = loop, rv_call = call, rv_branch = branch, rv_back = w, rv_error = error\<rparr>]\<rparr>))))"

definition note_call ::
  "cfg \<Rightarrow> operation list \<Rightarrow> operation \<Rightarrow> string list \<Rightarrow> string list \<Rightarrow> retry_result \<Rightarrow> operation \<Rightarrow> retry_result" where
  "note_call g ops loop body guards r call =
     (if operation_leaf (call_text call) \<notin> set persistent_risk_operations \<or> result_names call = [] then r
      else foldl (note_branch g loop body guards call (result_names call)) r
        (filter (\<lambda>p. op_kind p = BRANCH) ops))"

definition note_loop :: "cfg \<Rightarrow> operation list \<Rightarrow> retry_result \<Rightarrow> operation \<Rightarrow> retry_result" where
  "note_loop g ops r loop =
     (if \<not> is_unbounded_loop loop then r
      else (let body = loop_body g loop
        in foldl (note_call g ops loop body (assigned_names ops body)) (r\<lparr>rr_loops := Suc (rr_loops r)\<rparr>)
             (sort_key line_order (filter (\<lambda>p. op_id p \<in> set body \<and> op_kind p = CALL) ops))))"

definition note_scope :: "cfg \<Rightarrow> retry_result \<Rightarrow> string \<times> operation list \<Rightarrow> retry_result" where
  "note_scope g r so =
     foldl (note_loop g (snd so)) r (sort_key line_order (filter (\<lambda>p. op_kind p = LOOP) (snd so)))"

definition retry_scopes :: "semantic_ir \<Rightarrow> string list \<Rightarrow> (string, operation list) dict" where
  "retry_scopes ir languages =
     foldl (\<lambda>d p. if language_allowed languages p \<and> op_scope p \<noteq> []
                   then dict_append (op_scope p) p d else d) [] (ir_operations ir)"

definition analyze_retries :: "semantic_ir \<Rightarrow> string list \<Rightarrow> retry_result" where
  "analyze_retries ir languages =
     (let r = foldl (note_scope (cfg_from_ir ir languages))
           \<lparr>rr_violations = [], rr_loops = 0, rr_branches = 0, rr_mitigated = 0, rr_trace = []\<rparr>
           (sort_key fst (retry_scopes ir languages))
      in r\<lparr>rr_trace := [''retry-loops:'' @ str_of_nat (rr_loops r),
           ''retry-error-branches:'' @ str_of_nat (rr_branches r),
           ''retry-mitigated:'' @ str_of_nat (rr_mitigated r)]\<rparr>)"

section \<open>What the search decides\<close>

interpretation retry: worklist_search "\<lambda>Q V. retry_search g loop body guards error Q V \<noteq> None"
    "retry_next g body guards error" "retry_hit g loop body"
  for g loop body guards error
proof unfold_locales
  show "\<exists>R V'. (retry_search g loop body guards error (s # Q) V \<noteq> None) =
        (retry_search g loop body guards error R V' \<noteq> None) \<and>
      set R \<subseteq> set Q \<union> set (retry_next g body guards error s) \<and>
      set Q \<union> (set (retry_next g body guards error s) - set (s # V)) \<subseteq> set R \<and>
      (retry_next g body guards error s = [] \<longrightarrow> length R \<le> length Q) \<and>
      (V' = s # V \<or> V' = V \<and> retry_next g body guards error s = [])"
    if "\<not> retry_hit g loop body s" "s \<notin> set V" for s Q V
    using that
    by (intro exI[of _ "rev (retry_next g body guards error s) @ Q"] exI[of _ "s # V"]) auto
qed (auto simp: finite_retry_next)

text \<open>Moves that neither wait nor do other work, inside the loop body.\<close>

definition quiet_rel :: "cfg \<Rightarrow> string list \<Rightarrow> string list \<Rightarrow> string \<Rightarrow> (string \<times> string) set" where
  "quiet_rel g body guards error = {(i, j). retry_live g body i \<and>
     (\<exists>a \<in> set (succ_arcs g i). arc_target a = j \<and> arc_kind a \<noteq> LOOP_BACK) \<and>
     (\<exists>t. dict_get (cf_ops g) j = Some t \<and> \<not> is_mitigation t guards error \<and> \<not> blocks_immediate_retry t)}"

definition loops_back :: "cfg \<Rightarrow> string \<Rightarrow> string list \<Rightarrow> string \<Rightarrow> bool" where
  "loops_back g loop body n \<longleftrightarrow> retry_live g body n \<and>
     (\<exists>a \<in> set (succ_arcs g n). arc_kind a = LOOP_BACK \<and> arc_target a = loop)"

lemma retry_next_iff:
  "(j, m', b') \<in> set (retry_next g body guards error (i, m, b)) \<longleftrightarrow>
     retry_live g body i \<and> (\<exists>a \<in> set (succ_arcs g i). arc_target a = j \<and> arc_kind a \<noteq> LOOP_BACK) \<and>
     (\<exists>t. dict_get (cf_ops g) j = Some t \<and> m' = (m \<or> is_mitigation t guards error) \<and>
        b' = (b \<or> blocks_immediate_retry t))"
  by (auto simp: retry_next_def List.map_filter_def image_iff split: option.splits if_splits)

lemma retry_marks_stay:
  "(s, t) \<in> (next_rel (retry_next g body guards error))\<^sup>* \<Longrightarrow>
   (fst (snd s) \<longrightarrow> fst (snd t)) \<and> (snd (snd s) \<longrightarrow> snd (snd t))"
  by (induction rule: rtrancl_induct) (auto simp: retry_next_iff)

lemma retry_quiet:
  "((i, False, False), (j, False, False)) \<in> (next_rel (retry_next g body guards error))\<^sup>* \<longleftrightarrow>
   (i, j) \<in> (quiet_rel g body guards error)\<^sup>*"
proof
  have "t = (fst t, False, False) \<Longrightarrow> (i, fst t) \<in> (quiet_rel g body guards error)\<^sup>*"
    if "((i, False, False), t) \<in> (next_rel (retry_next g body guards error))\<^sup>*" for t
    using that
  proof (induction rule: rtrancl_induct)
    case (step y z)
    obtain k m b where y: "y = (k, m, b)" by (cases y)
    obtain l where z: "z = (l, False, False)" using step.prems by (cases z) auto
    have "\<not> m" "\<not> b" using step.hyps(2) y z by (auto simp: retry_next_iff)
    then have "(i, k) \<in> (quiet_rel g body guards error)\<^sup>*" using step.IH y by simp
    moreover have "(k, l) \<in> quiet_rel g body guards error"
      using step.hyps(2) y z by (auto simp: retry_next_iff quiet_rel_def)
    ultimately show ?case using z by (simp add: rtrancl_into_rtrancl)
  qed simp
  then show "((i, False, False), (j, False, False)) \<in> (next_rel (retry_next g body guards error))\<^sup>* \<Longrightarrow>
      (i, j) \<in> (quiet_rel g body guards error)\<^sup>*" by fastforce
next
  assume "(i, j) \<in> (quiet_rel g body guards error)\<^sup>*"
  then show "((i, False, False), (j, False, False)) \<in> (next_rel (retry_next g body guards error))\<^sup>*"
  proof (induction rule: rtrancl_induct)
    case (step k l)
    then have "((k, False, False), (l, False, False)) \<in> next_rel (retry_next g body guards error)"
      by (auto simp: retry_next_iff quiet_rel_def)
    with step show ?case by (meson rtrancl.rtrancl_into_rtrancl)
  qed simp
qed

lemma retry_search_iff:
  "retry_search g loop body guards error (rev (map (\<lambda>s. (s, False, False)) starts)) [] \<noteq> None \<longleftrightarrow>
   (\<exists>s \<in> set starts. \<exists>n. (s, n) \<in> (quiet_rel g body guards error)\<^sup>* \<and> loops_back g loop body n)"
proof -
  have "retry.can_hit g body guards error loop (s, False, False) \<longleftrightarrow>
      (\<exists>n. (s, n) \<in> (quiet_rel g body guards error)\<^sup>* \<and> loops_back g loop body n)" for s
    unfolding retry.can_hit_def
    by (auto simp: retry_hit_def loops_back_def list_ex_iff retry_quiet[symmetric])
  then show ?thesis unfolding retry.search_iff by auto
qed

lemma retry_search_live:
  "retry_search g loop body guards error Q V = Some n \<Longrightarrow> loops_back g loop body n"
  by (induction g loop body guards error Q V rule: retry_search.induct)
    (auto simp: retry_hit_def loops_back_def list_ex_iff split: if_splits)

lemma unmitigated_loopback_iff:
  "unmitigated_loopback g starts loop body guards error \<noteq> None \<longleftrightarrow>
   (\<exists>s \<in> set starts. \<exists>n. (s, n) \<in> (quiet_rel g body guards error)\<^sup>* \<and> loops_back g loop body n)"
  using retry_search_live[of g loop body guards error "rev (map (\<lambda>s. (s, False, False)) starts)" "[]"]
  unfolding retry_search_iff[symmetric] unmitigated_loopback_def
  by (cases "retry_search g loop body guards error (rev (map (\<lambda>s. (s, False, False)) starts)) []")
    (auto simp: loops_back_def retry_live_def dict_has_iff)





section \<open>Properties\<close>











section \<open>Instances\<close>

text \<open>An accept loop that sleeps before it tries again: the sleep is the first operation of the branch.\<close>

definition spin_ops :: "operation list" where
  "spin_ops =
     [sample_op ''L'' LOOP ''s'' 1 [] [(''infinite'', PBool True)],
      sample_op ''c'' CALL ''s'' 2 ''l.Accept'' [(''result_targets'', PList [PStr ''c'', PStr ''err''])],
      (sample_op ''b'' BRANCH ''s'' 3 [] [])\<lparr>op_value := ''err != nil''\<rparr>,
      sample_op ''z'' CALL ''s'' 4 ''time.Sleep'' [],
      sample_op ''k'' CONTINUE ''s'' 5 [] []]"

definition spin_edges :: "operation_edge list" where
  "spin_edges =
     [sample_edge ''L'' ''c'' BODY, sample_edge ''c'' ''b'' NEXT, sample_edge ''b'' ''z'' TRUE_BRANCH,
      sample_edge ''z'' ''k'' NEXT, sample_edge ''k'' ''L'' LOOP_BACK]"


text \<open>
  The search for an immediate retry is exact: it finds a way back to the loop head exactly when
  one exists whose operations after the start neither mitigate nor do other work. The start, the
  first operation of the error branch, is not examined.
\<close>

theorem immediate_retry_exact:
  "unmitigated_loopback g starts loop body guards error \<noteq> None \<longleftrightarrow>
   (\<exists>s \<in> set starts. \<exists>n. (s, n) \<in> (quiet_rel g body guards error)\<^sup>* \<and> loops_back g loop body n)"
  by (rule unmitigated_loopback_iff)

text \<open>
  A loop that sleeps before the next attempt is reported when the sleep is the first operation
  of the error branch, although the very same sleep one operation later silences the report.
\<close>

theorem leading_sleep_ignored:
  "is_mitigation (spin_ops ! 3) [] ''err'' \<and>
   map (op_id \<circ> rv_back) (rr_violations (analyze_retries (sample_ir spin_ops spin_edges) [])) = [''k''] \<and>
   rr_violations (analyze_retries (sample_ir
     (spin_ops @ [sample_op ''p'' CALL ''s'' 4 ''log.Print'' []])
     [sample_edge ''L'' ''c'' BODY, sample_edge ''c'' ''b'' NEXT, sample_edge ''b'' ''p'' TRUE_BRANCH,
      sample_edge ''p'' ''z'' NEXT, sample_edge ''z'' ''k'' NEXT, sample_edge ''k'' ''L'' LOOP_BACK]) []) = []"
  by code_simp

text \<open>
  Python's spelling of the nil literal is not recognised: \<open>err is None\<close> is read as a test that
  the error is set, while \<open>err is none\<close> is read as a test that it is not.
\<close>

theorem python_none_misread:
  "error_outcome_loop ''err is None'' [''err''] = Some (''err'', TRUE_BRANCH) \<and>
   error_outcome_loop ''err is none'' [''err''] = Some (''err'', FALSE_BRANCH)"
  by code_simp

end
