(* ===== verification/Linker.thy ===== *)
theory Linker
  imports SemanticIr
begin

text \<open>
  \<open>SemanticLinker\<close> of \<open>analysis/interprocedural.py\<close>: conservative resolution of calls to
  functions, the fixpoint loop that lets a resolved call's return types resolve further calls, the
  argument, return and synchronisation edges, and the merge of a link result into a representation.
\<close>

record link_result =
  lk_edges :: "operation_edge list"
  lk_facts :: "semantic_fact list"
  lk_resolved :: nat
  lk_unresolved :: nat
  lk_ambiguous :: nat
  lk_typed :: nat
  lk_arguments :: nat
  lk_returns :: nat
  lk_syncs :: nat

definition empty_link :: link_result where
  "empty_link = \<lparr>lk_edges = [], lk_facts = [], lk_resolved = 0, lk_unresolved = 0, lk_ambiguous = 0,
     lk_typed = 0, lk_arguments = 0, lk_returns = 0, lk_syncs = 0\<rparr>"

definition link_to_dict :: "link_result \<Rightarrow> pyval" where
  "link_to_dict r = PDict
     [(''resolved_calls'', PInt (int (lk_resolved r))),
      (''unresolved_calls'', PInt (int (lk_unresolved r))),
      (''ambiguous_calls'', PInt (int (lk_ambiguous r))),
      (''typed_receiver_calls'', PInt (int (lk_typed r))),
      (''call_edges'', PInt (int (length (filter (\<lambda>e. oe_kind e = CALLS_EDGE) (lk_edges r))))),
      (''argument_edges'', PInt (int (lk_arguments r))),
      (''return_edges'', PInt (int (lk_returns r))),
      (''synchronization_edges'', PInt (int (lk_syncs r)))]"

section \<open>Symbols and types\<close>

definition normalize_symbol :: "string \<Rightarrow> string" where
  "normalize_symbol v = replace_sub ''::'' ''.'' (join [] (split_ws (strip v)))"

definition is_star_amp :: "char \<Rightarrow> bool" where
  "is_star_amp c = (c = CHR ''*'' \<or> c = CHR ''&'')"

definition is_quote_char :: "char \<Rightarrow> bool" where
  "is_quote_char c = (code c = 39 \<or> code c = 34)"

definition normalize_type :: "string \<Rightarrow> string" where
  "normalize_type v =
     (let bare = dropWhile is_star_amp (strip_by is_quote_char (join [] (split_ws (strip v))));
          inner = (if starts_with ''Optional['' bare \<and> ends_with '']'' bare then butlast (drop 9 bare) else bare)
      in if contains_sub ''|'' inner \<or> contains_sub ''Union['' inner then [] else inner)"

section \<open>Indices\<close>

type_synonym 'k op_index = "('k, operation list) dict"

record function_indices =
  fx_exact :: "(string \<times> string) op_index"
  fx_namespace :: "(string \<times> string) op_index"
  fx_simple :: "(string \<times> string) op_index"
  fx_methods :: "(string \<times> string \<times> string \<times> string) op_index"
  fx_methods_global :: "(string \<times> string \<times> string) op_index"

definition last_part :: "string \<Rightarrow> string" where
  "last_part s = last (split_on (CHR ''.'') s)"

definition namespace_key :: "string \<Rightarrow> string \<Rightarrow> string" where
  "namespace_key namespace simple = namespace @ ''::'' @ simple"

definition index_function :: "function_indices \<Rightarrow> operation \<Rightarrow> function_indices" where
  "index_function ix f =
     (let attrs = op_attributes f; language = lower (op_language f);
          qualified = attr_str (op_target f) attrs ''qualified_name'';
          namespace = normalize_symbol (attr_str [] attrs ''namespace'');
          simple = last_part (attr_str (op_target f) attrs ''symbol_name'');
          receiver = normalize_type (attr_str [] attrs ''receiver_type'');
          type_name = after_last (CHR ''.'') receiver;
          ix1 = ix\<lparr>fx_exact := dict_append (language, normalize_symbol qualified) f (fx_exact ix)\<rparr>;
          ix2 = (if namespace \<noteq> []
            then ix1\<lparr>fx_namespace := dict_append (language, namespace_key namespace simple) f (fx_namespace ix1)\<rparr>
            else ix1);
          ix3 = ix2\<lparr>fx_simple := dict_append (language, simple) f (fx_simple ix2)\<rparr>
      in if receiver \<noteq> []
         then ix3\<lparr>fx_methods := dict_append (language, namespace, type_name, simple) f (fx_methods ix3),
                  fx_methods_global := dict_append (language, type_name, simple) f (fx_methods_global ix3)\<rparr>
         else ix3)"

definition function_indices_of :: "operation list \<Rightarrow> function_indices" where
  "function_indices_of functions =
     foldl index_function
       \<lparr>fx_exact = [], fx_namespace = [], fx_simple = [], fx_methods = [], fx_methods_global = []\<rparr> functions"

text \<open>\<open>local_types[scope][variable]\<close>: the declared types of a variable, without repetition.\<close>

type_synonym local_types = "(string \<times> string, string list) dict"

definition known_types :: "local_types \<Rightarrow> string \<Rightarrow> string \<Rightarrow> string list" where
  "known_types lt scope v = dict_get_or [] lt (scope, v)"

definition add_type :: "string \<Rightarrow> string \<Rightarrow> string \<Rightarrow> local_types \<Rightarrow> local_types" where
  "add_type scope v t lt =
     (if t \<in> set (known_types lt scope v) then lt
      else dict_set (scope, v) (known_types lt scope v @ [t]) lt)"

definition binding_types :: "string \<Rightarrow> pyval \<Rightarrow> local_types \<Rightarrow> local_types" where
  "binding_types scope b lt =
     (case b of
        PDict d \<Rightarrow>
          (let target = attr_str [] d ''target'' in
           foldl (\<lambda>l key. let value = attr_str [] d key
               in if target \<noteq> [] \<and> value \<noteq> [] then add_type scope target value l else l)
             lt [''declared_type'', ''inferred_type''])
      | _ \<Rightarrow> lt)"

definition operation_types :: "local_types \<Rightarrow> operation \<Rightarrow> local_types" where
  "operation_types lt p =
     (if op_kind p = PARAMETER
      then (let declared = attr_str [] (op_attributes p) ''declared_type''
            in if declared \<noteq> [] \<and> op_target p \<noteq> [] then add_type (op_scope p) (op_target p) declared lt else lt)
      else if op_kind p = ASSIGN
      then foldl (\<lambda>l b. binding_types (op_scope p) b l) lt (attr_list (op_attributes p) ''bindings'')
      else lt)"

definition local_types_of :: "operation list \<Rightarrow> local_types" where
  "local_types_of operations = foldl operation_types [] operations"

section \<open>Resolution\<close>

definition contextual_method_target :: "string \<Rightarrow> operation option \<Rightarrow> string" where
  "contextual_method_target target caller =
     (case caller of None \<Rightarrow> []
      | Some c \<Rightarrow>
          (if \<not> (starts_with ''self.'' target \<or> starts_with ''cls.'' target) then []
           else (let qualified = normalize_symbol (attr_str [] (op_attributes c) ''qualified_name'')
             in if count_list qualified (CHR ''.'') < 2 then []
                else before_last (CHR ''.'') qualified @ ''.'' @ after_first (CHR ''.'') target)))"

definition typed_method_candidates ::
  "operation \<Rightarrow> string \<Rightarrow> string \<Rightarrow> function_indices \<Rightarrow> local_types \<Rightarrow> operation list" where
  "typed_method_candidates call method namespace ix lt =
     (let language = lower (op_language call);
          stated = normalize_symbol (attr_str [] (op_attributes call) ''receiver'');
          receiver = (if stated \<noteq> [] then stated else before_last (CHR ''.'') (normalize_symbol (op_target call)));
          types = remdups (filter (\<lambda>t. t \<noteq> []) (map normalize_type (known_types lt (op_scope call) receiver)))
      in case types of
           [t] \<Rightarrow>
             (let type_name = after_last (CHR ''.'') t;
                  scoped = dict_get_or [] (fx_methods ix) (language, namespace, type_name, method);
                  candidates = dict_get_or [] (fx_exact ix) (language, t @ ''.'' @ method) @ scoped @
                    (if scoped = [] then dict_get_or [] (fx_methods_global ix) (language, type_name, method) else [])
              in sort_key op_order (dict_values (dict_of op_id (\<lambda>p. p) candidates)))
         | _ \<Rightarrow> [])"

definition call_namespace :: "operation option \<Rightarrow> string" where
  "call_namespace caller =
     (case caller of None \<Rightarrow> [] | Some c \<Rightarrow> normalize_symbol (attr_str [] (op_attributes c) ''namespace''))"

definition resolve_call ::
  "operation \<Rightarrow> operation option \<Rightarrow> function_indices \<Rightarrow> local_types \<Rightarrow> operation list \<times> string" where
  "resolve_call call caller ix lt =
     (let language = lower (op_language call); target = normalize_symbol (op_target call) in
      if target = [] then ([], ''empty'')
      else (let exact = dict_get_or [] (fx_exact ix) (language, target) in
      if exact \<noteq> [] then (exact, ''qualified'')
      else (let namespace = call_namespace caller; simple = last_part target;
                local_candidates = dict_get_or [] (fx_namespace ix) (language, namespace_key namespace simple) in
      if namespace \<noteq> [] \<and> length local_candidates = 1 \<and> CHR ''.'' \<notin> set target
      then (local_candidates, ''namespace'')
      else (let contextual = contextual_method_target target caller;
                lexical = dict_get_or [] (fx_exact ix) (language, contextual) in
      if contextual \<noteq> [] \<and> lexical \<noteq> [] then (lexical, ''lexical_receiver'')
      else if CHR ''.'' \<in> set target
      then (let typed = typed_method_candidates call simple namespace ix lt
            in if typed \<noteq> [] then (typed, ''typed_receiver'') else ([], ''unresolved_receiver''))
      else (dict_get_or [] (fx_simple ix) (language, simple), ''unique_simple'')))))"

section \<open>The resolution loop\<close>

text \<open>The result variables of a call take the return types of its target; the flag says that a type is new.\<close>

fun propagate_pairs :: "string \<Rightarrow> local_types \<times> bool \<Rightarrow> (pyval \<times> pyval) list \<Rightarrow> local_types \<times> bool" where
  "propagate_pairs scope s [] = s"
| "propagate_pairs scope (lt, progress) ((v, t) # rest) =
     (let name = py_str v; type_name = py_str t in
      if name = [] \<or> normalize_type type_name = [] then propagate_pairs scope (lt, progress) rest
      else propagate_pairs scope
        (add_type scope name type_name lt, progress \<or> type_name \<notin> set (known_types lt scope name)) rest)"

definition is_list_or_absent :: "attributes \<Rightarrow> string \<Rightarrow> bool" where
  "is_list_or_absent a key = (case dict_get a key of None \<Rightarrow> True | Some v \<Rightarrow> is_plist v)"

definition propagate_return_types :: "operation \<Rightarrow> operation \<Rightarrow> local_types \<Rightarrow> local_types \<times> bool" where
  "propagate_return_types call target lt =
     (let results = attr_list (op_attributes call) ''result_targets'';
          returns = attr_list (op_attributes target) ''return_types'' in
      if \<not> is_list_or_absent (op_attributes call) ''result_targets'' \<or>
         \<not> is_list_or_absent (op_attributes target) ''return_types'' then (lt, False)
      else if results = [] \<or> returns = [] then (lt, False)
      else if length returns = 1 \<and> length results \<noteq> 1 then (lt, False)
      else propagate_pairs (op_scope call) (lt, False) (zip results returns))"

type_synonym resolutions = "(string, operation \<times> string) dict"

text \<open>One round: the calls still pending, the resolutions, the types and the progress flag.\<close>

fun link_round ::
  "(string, operation) dict \<Rightarrow> function_indices \<Rightarrow> operation list \<Rightarrow> resolutions \<Rightarrow> local_types \<Rightarrow> bool
   \<Rightarrow> operation list \<Rightarrow> operation list \<times> resolutions \<times> local_types \<times> bool" where
  "link_round by_id ix kept res lt progress [] = (kept, res, lt, progress)"
| "link_round by_id ix kept res lt progress (call # calls) =
     (case resolve_call call (dict_get by_id (op_scope call)) ix lt of (candidates, resolution) \<Rightarrow>
        (case candidates of
           [target] \<Rightarrow>
             (let (lt', new) = propagate_return_types call target lt
              in link_round by_id ix kept (dict_set (op_id call) (target, resolution) res) lt' (progress \<or> new) calls)
         | _ \<Rightarrow> link_round by_id ix (kept @ [call]) res lt progress calls))"

lemma link_round_length:
  "link_round by_id ix kept res lt progress calls = (kept', res', lt', progress') \<Longrightarrow>
   length kept' \<le> length kept + length calls \<and>
   (progress' \<and> \<not> progress \<longrightarrow> length kept' < length kept + length calls)"
proof (induction calls arbitrary: kept res lt progress)
  case (Cons call calls)
  obtain cs r where c: "resolve_call call (dict_get by_id (op_scope call)) ix lt = (cs, r)" by fastforce
  show ?case
  proof (cases "\<exists>t. cs = [t]")
    case True
    then obtain t where t: "cs = [t]" by blast
    obtain lt2 new where p: "propagate_return_types call t lt = (lt2, new)" by fastforce
    have "link_round by_id ix kept (dict_set (op_id call) (t, r) res) lt2 (progress \<or> new) calls =
        (kept', res', lt', progress')" using Cons.prems c t p by simp
    from Cons.IH[OF this] show ?thesis by auto
  next
    case False
    then have "link_round by_id ix (kept @ [call]) res lt progress calls = (kept', res', lt', progress')"
      using Cons.prems c by (auto split: list.splits)
    from Cons.IH[OF this] show ?thesis by simp
  qed
qed simp

function link_loop ::
  "(string, operation) dict \<Rightarrow> function_indices \<Rightarrow> resolutions \<Rightarrow> local_types \<Rightarrow> operation list
   \<Rightarrow> resolutions \<times> local_types" where
  "link_loop by_id ix res lt pending =
     (if pending = [] then (res, lt)
      else (case link_round by_id ix [] res lt False pending of (kept, res', lt', progress) \<Rightarrow>
        if length kept = length pending \<and> \<not> progress then (res', lt')
        else link_loop by_id ix res' lt' kept))"
  by pat_completeness auto
termination
proof (relation "measure (\<lambda>(by_id, ix, res, lt, pending). length pending)", goal_cases)
  case (2 by_id ix res lt pending kept p res' q lt' progress)
  then show ?case using link_round_length[of by_id ix "[]" res lt False pending kept res' lt' progress]
    by fastforce
qed simp

declare link_loop.simps [simp del]

section \<open>Edges of a resolved call\<close>

definition position_of :: "operation \<Rightarrow> int checked" where
  "position_of p = (case dict_get (op_attributes p) ''position'' of None \<Rightarrow> Inr 0 | Some v \<Rightarrow> py_int v)"

definition sort_by_position :: "operation list \<Rightarrow> operation list checked" where
  "sort_by_position ps =
     bind (traverse position_of ps)
       (\<lambda>is. Inr (map snd (sort_key (\<lambda>(i, p). (i, op_order p)) (zip is ps))))"

definition operations_by_scope :: "operation list \<Rightarrow> op_kind \<Rightarrow> (string, operation list) dict checked" where
  "operations_by_scope operations kind =
     traverse (\<lambda>(scope, ps). bind (sort_by_position ps) (\<lambda>qs. Inr (scope, qs)))
       (foldl (\<lambda>d p. if op_kind p = kind then dict_append (op_scope p) p d else d) [] operations)"

text \<open>\<open>list(value)\<close>.\<close>

definition py_list_of :: "pyval \<Rightarrow> pyval list checked" where
  "py_list_of v =
     (case v of
        PList xs \<Rightarrow> Inr xs
      | PTuple xs \<Rightarrow> Inr xs
      | PStr s \<Rightarrow> Inr (map (\<lambda>c. PStr [c]) s)
      | PDict d \<Rightarrow> Inr (map (\<lambda>(k, x). PStr k) d)
      | _ \<Rightarrow> Inl (TypeError ''object is not iterable''))"

fun py_hashable :: "pyval \<Rightarrow> bool" where
  "py_hashable (PList xs) = False"
| "py_hashable (PDict d) = False"
| "py_hashable (PTuple xs) = list_all py_hashable xs"
| "py_hashable v = True"

definition add_link :: "operation_edge \<Rightarrow> semantic_fact \<Rightarrow> link_result \<Rightarrow> link_result" where
  "add_link e f r = r\<lparr>lk_edges := lk_edges r @ [e], lk_facts := lk_facts r @ [f]\<rparr>"

definition call_fact :: "operation \<Rightarrow> operation \<Rightarrow> string \<Rightarrow> semantic_fact" where
  "call_fact call target resolution =
     \<lparr>sf_subject = op_scope call, sf_predicate = Kind CALLS,
      sf_object = attr_str (op_target target) (op_attributes target) ''qualified_name'',
      sf_evidence = [op_location call, op_location target], sf_confidence = float_one,
      sf_attributes =
        [(''link_kind'', PStr ''interprocedural_call''),
         (''call_operation'', PStr (op_id call)),
         (''target_operation'', PStr (op_id target)),
         (''call_kind'', PStr (op_kind_value (op_kind call))),
         (''resolution'', PStr resolution)]\<rparr>"

definition flow_fact :: "operation \<Rightarrow> operation \<Rightarrow> data_flow_kind \<Rightarrow> attributes \<Rightarrow> semantic_fact" where
  "flow_fact source target flow attrs =
     \<lparr>sf_subject = op_id source, sf_predicate = Kind FLOWS_TO, sf_object = op_id target,
      sf_evidence = [op_location source, op_location target], sf_confidence = float_one,
      sf_attributes = dict_update [(''link_kind'', PStr (data_flow_value flow))] attrs\<rparr>"

text \<open>\<open>parameter_kind in {...}\<close> hashes the value first.\<close>

definition parameter_kind_in :: "operation \<Rightarrow> string list \<Rightarrow> bool checked" where
  "parameter_kind_in p names =
     (let v = dict_get_or PNone (op_attributes p) ''parameter_kind'' in
      if py_hashable v then Inr (list_ex (\<lambda>n. v = PStr n) names)
      else Inl (TypeError ''unhashable type''))"

definition fixed_parameters :: "operation list \<Rightarrow> operation list checked" where
  "fixed_parameters ps =
     bind (traverse (\<lambda>p. parameter_kind_in p [''keyword_only'', ''vararg'', ''variadic'', ''kwarg'']) ps)
       (\<lambda>bs. Inr (map snd (filter (\<lambda>(b, p). \<not> b) (zip bs ps))))"

definition has_parameter_kind :: "string list \<Rightarrow> operation \<Rightarrow> bool" where
  "has_parameter_kind names p =
     list_ex (\<lambda>n. dict_get_or PNone (op_attributes p) ''parameter_kind'' = PStr n) names"

text \<open>The parameter an argument binds to, and how many positional parameters are used up.\<close>

definition choose_parameter ::
  "operation list \<Rightarrow> operation list \<Rightarrow> string \<Rightarrow> nat \<Rightarrow> operation option \<times> nat" where
  "choose_parameter parameters fixed name used =
     (if name \<noteq> []
      then ((case find (\<lambda>p. op_target p = name) parameters of
               Some p \<Rightarrow> Some p
             | None \<Rightarrow> find (has_parameter_kind [''kwarg'']) parameters), used)
      else if used < length fixed then (Some (fixed ! used), Suc used)
      else (find (has_parameter_kind [''vararg'', ''variadic'']) parameters, used))"

definition argument_attributes :: "operation \<Rightarrow> operation \<Rightarrow> nat \<Rightarrow> string \<Rightarrow> pyval \<Rightarrow> attributes" where
  "argument_attributes target parameter index name expression =
     [(''flow'', PStr (data_flow_value ARGUMENT_TO_PARAMETER)),
      (''argument_index'', PInt (int index)),
      (''argument_name'', PStr name),
      (''expression'', PStr (py_str expression)),
      (''parameter'', PStr (op_target parameter)),
      (''target_function'', PStr (op_id target))]"

fun bind_arguments ::
  "operation \<Rightarrow> operation \<Rightarrow> operation list \<Rightarrow> operation list \<Rightarrow> pyval list \<Rightarrow> nat \<Rightarrow> nat \<Rightarrow> pyval list
   \<Rightarrow> link_result \<Rightarrow> link_result" where
  "bind_arguments call target parameters fixed names index used [] r = r"
| "bind_arguments call target parameters fixed names index used (e # es) r =
     (let name = (if index < length names then py_str (names ! index) else []) in
      case choose_parameter parameters fixed name used of
        (None, used') \<Rightarrow> bind_arguments call target parameters fixed names (Suc index) used' es r
      | (Some p, used') \<Rightarrow>
          (let attrs = argument_attributes target p index name e;
               edge = \<lparr>oe_source = op_id call, oe_target = op_id p, oe_kind = DATA_DEPENDENCY, oe_attributes = attrs\<rparr>;
               r' = add_link edge (flow_fact call p ARGUMENT_TO_PARAMETER attrs) r
           in bind_arguments call target parameters fixed names (Suc index) used' es
                (r'\<lparr>lk_arguments := Suc (lk_arguments r')\<rparr>)))"

definition link_arguments ::
  "operation \<Rightarrow> operation \<Rightarrow> operation list \<Rightarrow> link_result \<Rightarrow> link_result checked" where
  "link_arguments call target parameters r =
     (let attrs = op_attributes call in
      if \<not> is_list_or_absent attrs ''arguments'' \<or> \<not> is_list_or_absent attrs ''argument_names'' then Inr r
      else (let ps = filter (\<lambda>p. \<not> py_truth (dict_get_or (PBool False) (op_attributes p) ''receiver'')) parameters
        in bind (fixed_parameters ps) (\<lambda>fixed.
             Inr (bind_arguments call target ps fixed (attr_list attrs ''argument_names'') 0 0
                    (attr_list attrs ''arguments'') r))))"

definition list_attribute :: "attributes \<Rightarrow> string \<Rightarrow> pyval checked" where
  "list_attribute a key = bind (py_list_of (dict_get_or (PList []) a key)) (\<lambda>xs. Inr (PList xs))"

definition add_return :: "operation \<Rightarrow> operation \<Rightarrow> link_result \<Rightarrow> operation \<Rightarrow> link_result checked" where
  "add_return call target r ret =
     bind (list_attribute (op_attributes call) ''result_targets'') (\<lambda>results.
     bind (list_attribute (op_attributes target) ''return_types'') (\<lambda>types.
       let attrs = [(''flow'', PStr (data_flow_value RETURN_TO_CALL)),
                    (''result_targets'', results), (''return_types'', types)];
           edge = \<lparr>oe_source = op_id ret, oe_target = op_id call, oe_kind = DATA_DEPENDENCY, oe_attributes = attrs\<rparr>;
           r' = add_link edge (flow_fact ret call RETURN_TO_CALL attrs) r
       in Inr (r'\<lparr>lk_returns := Suc (lk_returns r')\<rparr>)))"

definition add_call_link ::
  "operation \<Rightarrow> operation \<Rightarrow> string \<Rightarrow> operation list \<Rightarrow> operation list \<Rightarrow> link_result \<Rightarrow> link_result checked" where
  "add_call_link call target resolution parameters returns r =
     (let edge = \<lparr>oe_source = op_id call, oe_target = op_id target, oe_kind = CALLS_EDGE,
            oe_attributes = [(''resolution'', PStr resolution),
              (''call_kind'', PStr (op_kind_value (op_kind call)))]\<rparr>;
          r1 = add_link edge (call_fact call target resolution) r;
          r2 = r1\<lparr>lk_resolved := Suc (lk_resolved r1),
                  lk_typed := (if resolution = ''typed_receiver'' then Suc (lk_typed r1) else lk_typed r1)\<rparr>
      in bind (link_arguments call target parameters r2) (\<lambda>r3. fold_checked (add_return call target) r3 returns))"

section \<open>Synchronisation\<close>

definition channel_of :: "operation \<Rightarrow> string" where
  "channel_of p = normalize_symbol (attr_str [] (op_attributes p) ''channel'')"

type_synonym channel_key = "string \<times> string \<times> string"

definition channel_key :: "operation \<Rightarrow> channel_key" where
  "channel_key p = (lower (op_language p), op_scope p, channel_of p)"

definition by_channel :: "operation list \<Rightarrow> op_kind \<Rightarrow> (channel_key, operation list) dict" where
  "by_channel operations kind =
     foldl (\<lambda>d p. if channel_of p \<noteq> [] \<and> op_kind p = kind then dict_append (channel_key p) p d else d) [] operations"

definition sync_pairs :: "operation list \<Rightarrow> (channel_key \<times> operation \<times> operation) list" where
  "sync_pairs operations =
     (let sends = by_channel operations SEND; receives = by_channel operations RECEIVE in
      concat (map (\<lambda>key. map (\<lambda>(s, r). (key, s, r))
          (List.product (sort_key op_order (dict_get_or [] sends key))
                        (sort_key op_order (dict_get_or [] receives key))))
        (sorted_set (filter (dict_has receives) (dict_keys sends)))))"

definition add_sync :: "link_result \<Rightarrow> channel_key \<times> operation \<times> operation \<Rightarrow> link_result" where
  "add_sync r ksr =
     (case ksr of ((language, scope, channel), send, receive) \<Rightarrow>
        let edge = \<lparr>oe_source = op_id send, oe_target = op_id receive, oe_kind = SYNCHRONIZES,
              oe_attributes = [(''channel'', PStr channel), (''scope'', PStr ''intraprocedural'')]\<rparr>;
            fact = \<lparr>sf_subject = op_scope send, sf_predicate = Kind FLOWS_TO, sf_object = channel,
              sf_evidence = [op_location send, op_location receive], sf_confidence = float_one,
              sf_attributes =
                [(''link_kind'', PStr ''channel_synchronization''),
                 (''send_operation'', PStr (op_id send)),
                 (''receive_operation'', PStr (op_id receive))]\<rparr>;
            r' = add_link edge fact r
        in r'\<lparr>lk_syncs := Suc (lk_syncs r')\<rparr>)"

section \<open>The linker\<close>

definition is_call_kind_of :: "operation \<Rightarrow> bool" where
  "is_call_kind_of p = (op_kind p \<in> {CALL, SPAWN, DEFER})"

text \<open>What one call adds once the loop has settled.\<close>

definition settle_call ::
  "(string, operation) dict \<Rightarrow> function_indices \<Rightarrow> resolutions \<Rightarrow> local_types
   \<Rightarrow> (string, operation list) dict \<Rightarrow> (string, operation list) dict
   \<Rightarrow> link_result \<Rightarrow> operation \<Rightarrow> link_result checked" where
  "settle_call by_id ix res lt parameters returns r call =
     (case dict_get res (op_id call) of
        Some (target, resolution) \<Rightarrow>
          add_call_link call target resolution (dict_get_or [] parameters (op_id target))
            (dict_get_or [] returns (op_id target)) r
      | None \<Rightarrow>
          (if fst (resolve_call call (dict_get by_id (op_scope call)) ix lt) \<noteq> []
           then Inr (r\<lparr>lk_ambiguous := Suc (lk_ambiguous r)\<rparr>)
           else Inr (r\<lparr>lk_unresolved := Suc (lk_unresolved r)\<rparr>)))"

definition link_ir :: "semantic_ir \<Rightarrow> link_result checked" where
  "link_ir ir =
     (let operations = sort_key op_order (ir_operations ir);
          by_id = ops_by_id operations;
          ix = function_indices_of (filter (\<lambda>p. op_kind p = FUNCTION) operations);
          calls = filter is_call_kind_of operations
      in bind (operations_by_scope operations PARAMETER) (\<lambda>parameters.
         bind (operations_by_scope operations RETURN) (\<lambda>returns.
         case link_loop by_id ix [] (local_types_of operations) calls of (res, lt) \<Rightarrow>
           bind (fold_checked (settle_call by_id ix res lt parameters returns) empty_link calls) (\<lambda>r.
           Inr (foldl add_sync r (sync_pairs operations))))))"

text \<open>\<open>apply\<close>: the two loops with their sets of known keys are the keyed merge of \<open>ir/schema.py\<close>.\<close>

definition apply_link :: "semantic_ir \<Rightarrow> link_result \<Rightarrow> semantic_ir" where
  "apply_link ir r =
     ir\<lparr>ir_edges := merge_loop edge_key (map edge_key (ir_edges ir)) (ir_edges ir) (lk_edges r),
        ir_facts := merge_loop fact_id (map fact_id (ir_facts ir)) (ir_facts ir) (lk_facts r),
        ir_graph := (ir_graph ir)\<lparr>cg_meta := dict_set ''semantic_linker'' (link_to_dict r) (cg_meta (ir_graph ir))\<rparr>\<rparr>"

section \<open>Indices hold functions of the program\<close>

definition index_ok :: "operation set \<Rightarrow> ('k \<Rightarrow> string) \<Rightarrow> 'k op_index \<Rightarrow> bool" where
  "index_ok F lang d \<longleftrightarrow> (\<forall>k f. f \<in> set (dict_get_or [] d k) \<longrightarrow> f \<in> F \<and> lower (op_language f) = lang k)"

lemma index_okD: "index_ok F lang d \<Longrightarrow> f \<in> set (dict_get_or [] d k) \<Longrightarrow> f \<in> F \<and> lower (op_language f) = lang k"
  by (auto simp: index_ok_def)

lemma index_ok_append:
  "index_ok F lang d \<Longrightarrow> f \<in> F \<Longrightarrow> lang k = lower (op_language f) \<Longrightarrow> index_ok F lang (dict_append k f d)"
  by (auto simp: index_ok_def)

lemma index_ok_Nil: "index_ok F lang []"
  by (simp add: index_ok_def)

definition indices_ok :: "operation set \<Rightarrow> function_indices \<Rightarrow> bool" where
  "indices_ok F ix \<longleftrightarrow> index_ok F fst (fx_exact ix) \<and> index_ok F fst (fx_namespace ix) \<and>
     index_ok F fst (fx_simple ix) \<and> index_ok F fst (fx_methods ix) \<and> index_ok F fst (fx_methods_global ix)"

lemma indices_ok_step: "indices_ok F ix \<Longrightarrow> f \<in> F \<Longrightarrow> indices_ok F (index_function ix f)"
  by (auto simp: indices_ok_def index_function_def Let_def intro!: index_ok_append)

lemma indices_ok_of: "indices_ok (set fs) (function_indices_of fs)"
  unfolding function_indices_of_def
  by (rule foldl_invariant) (auto simp: index_ok_Nil intro: indices_ok_step simp: indices_ok_def[of _ "\<lparr>fx_exact = [], fx_namespace = _, fx_simple = _, fx_methods = _, fx_methods_global = _\<rparr>"])

lemma dict_values_of: "set (dict_values (dict_of op_id (\<lambda>p. p) ps)) \<subseteq> set ps"
proof
  fix p assume "p \<in> set (dict_values (dict_of op_id (\<lambda>p. p) ps))"
  then obtain i where "(i, p) \<in> set (dict_of op_id (\<lambda>p. p) ps)" by (auto simp: dict_values_def)
  then have "dict_get (dict_of op_id (\<lambda>p. p) ps) i = Some p"
    using distinct_dict_of[of op_id "\<lambda>p. p" ps] by (simp add: dict_get_def)
  then show "p \<in> set ps" by (auto dest: dict_get_dict_of_Some)
qed

lemma typed_candidates_ok:
  assumes "indices_ok F ix" "t \<in> set (typed_method_candidates call m ns ix lt)"
  shows "t \<in> F \<and> lower (op_language t) = lower (op_language call)"
proof -
  let ?l = "lower (op_language call)"
  obtain ty n where "t \<in> set (dict_values (dict_of op_id (\<lambda>p. p)
      (dict_get_or [] (fx_exact ix) (?l, ty @ ''.'' @ m) @ dict_get_or [] (fx_methods ix) (?l, ns, n, m) @
       (if dict_get_or [] (fx_methods ix) (?l, ns, n, m) = []
        then dict_get_or [] (fx_methods_global ix) (?l, n, m) else []))))"
    using assms(2) by (auto simp: typed_method_candidates_def Let_def split: list.splits)
  from subsetD[OF dict_values_of this] assms(1) show ?thesis
    by (auto simp: indices_ok_def split: if_splits dest: index_okD)
qed

lemma resolve_call_ok:
  assumes "indices_ok F ix" "t \<in> set (fst (resolve_call call caller ix lt))"
  shows "t \<in> F \<and> lower (op_language t) = lower (op_language call)"
proof -
  consider k where "t \<in> set (dict_get_or [] (fx_exact ix) (lower (op_language call), k))"
    | k where "t \<in> set (dict_get_or [] (fx_namespace ix) (lower (op_language call), k))"
    | m ns where "t \<in> set (typed_method_candidates call m ns ix lt)"
    | k where "t \<in> set (dict_get_or [] (fx_simple ix) (lower (op_language call), k))"
    using assms(2) by (auto simp: resolve_call_def Let_def split: if_splits)
  then show ?thesis
    using assms(1) typed_candidates_ok[OF assms(1)] by cases (auto simp: indices_ok_def dest: index_okD)
qed

section \<open>The edges are grounded and counted\<close>

definition resolved_uniquely :: "operation list \<Rightarrow> operation \<Rightarrow> operation \<Rightarrow> bool" where
  "resolved_uniquely ops c t \<longleftrightarrow>
     (\<exists>lt r. resolve_call c (dict_get (ops_by_id ops) (op_scope c))
        (function_indices_of (filter (\<lambda>p. op_kind p = FUNCTION) ops)) lt = ([t], r))"

definition calls_in :: "operation_edge set \<Rightarrow> string \<Rightarrow> string \<Rightarrow> bool" where
  "calls_in E i j \<longleftrightarrow> (\<exists>e \<in> E. oe_kind e = CALLS_EDGE \<and> oe_source e = i \<and> oe_target e = j)"

definition call_edge_ok :: "operation list \<Rightarrow> operation_edge \<Rightarrow> bool" where
  "call_edge_ok ops e \<longleftrightarrow> (\<exists>c \<in> set ops. \<exists>t \<in> set ops. is_call_kind_of c \<and> op_kind t = FUNCTION \<and>
     lower (op_language t) = lower (op_language c) \<and> oe_source e = op_id c \<and> oe_target e = op_id t \<and>
     resolved_uniquely ops c t)"

definition data_edge_ok :: "operation list \<Rightarrow> operation_edge set \<Rightarrow> operation_edge \<Rightarrow> bool" where
  "data_edge_ok ops E e \<longleftrightarrow> (\<exists>c \<in> set ops. \<exists>q \<in> set ops. is_call_kind_of c \<and> calls_in E (op_id c) (op_scope q) \<and>
     (op_kind q = PARAMETER \<and> oe_source e = op_id c \<and> oe_target e = op_id q \<or>
      op_kind q = RETURN \<and> oe_source e = op_id q \<and> oe_target e = op_id c))"

definition sync_edge_ok :: "operation list \<Rightarrow> operation_edge \<Rightarrow> bool" where
  "sync_edge_ok ops e \<longleftrightarrow> (\<exists>s \<in> set ops. \<exists>r \<in> set ops. op_kind s = SEND \<and> op_kind r = RECEIVE \<and>
     channel_of s \<noteq> [] \<and> channel_key s = channel_key r \<and> oe_source e = op_id s \<and> oe_target e = op_id r)"

definition link_edge_ok :: "operation list \<Rightarrow> operation_edge set \<Rightarrow> operation_edge \<Rightarrow> bool" where
  "link_edge_ok ops E e \<longleftrightarrow>
     (oe_kind e = CALLS_EDGE \<and> call_edge_ok ops e) \<or> (oe_kind e = DATA_DEPENDENCY \<and> data_edge_ok ops E e) \<or>
     (oe_kind e = SYNCHRONIZES \<and> sync_edge_ok ops e)"

lemma link_edge_ok_mono: "link_edge_ok ops E e \<Longrightarrow> E \<subseteq> E' \<Longrightarrow> link_edge_ok ops E' e"
  unfolding link_edge_ok_def data_edge_ok_def calls_in_def by blast

definition kind_count :: "edge_kind \<Rightarrow> link_result \<Rightarrow> nat" where
  "kind_count k r = length (filter (\<lambda>e. oe_kind e = k) (lk_edges r))"

text \<open>Edges grounded, one fact per edge, and the counters equal to what they count.\<close>

definition links_ok :: "operation list \<Rightarrow> link_result \<Rightarrow> bool" where
  "links_ok ops r \<longleftrightarrow> (\<forall>e \<in> set (lk_edges r). link_edge_ok ops (set (lk_edges r)) e) \<and>
     length (lk_facts r) = length (lk_edges r) \<and> kind_count CALLS_EDGE r = lk_resolved r \<and>
     kind_count DATA_DEPENDENCY r = lk_arguments r + lk_returns r \<and> kind_count SYNCHRONIZES r = lk_syncs r"

lemma links_ok_edges:
  "links_ok ops r \<Longrightarrow> link_edge_ok ops (insert e (set (lk_edges r))) e \<Longrightarrow>
   \<forall>x \<in> set (lk_edges (add_link e f r)). link_edge_ok ops (set (lk_edges (add_link e f r))) x"
  unfolding links_ok_def by (auto simp: add_link_def intro: link_edge_ok_mono)

lemma links_ok_empty: "links_ok ops empty_link"
  by (simp add: links_ok_def empty_link_def kind_count_def)

lemma links_ok_counters [simp]:
  "links_ok ops (r\<lparr>lk_ambiguous := n\<rparr>) = links_ok ops r" "links_ok ops (r\<lparr>lk_unresolved := n\<rparr>) = links_ok ops r"
  by (simp_all add: links_ok_def kind_count_def)

definition scope_index_ok :: "operation list \<Rightarrow> op_kind \<Rightarrow> (string, operation list) dict \<Rightarrow> bool" where
  "scope_index_ok ops k d \<longleftrightarrow>
     (\<forall>s. \<forall>p \<in> set (dict_get_or [] d s). p \<in> set ops \<and> op_kind p = k \<and> op_scope p = s)"

lemma sort_by_position_set:
  assumes "sort_by_position ps = Inr qs"
  shows "set qs = set ps"
proof -
  obtain xs where xs: "traverse position_of ps = Inr xs"
    "qs = map snd (sort_key (\<lambda>(i, p). (i, op_order p)) (zip xs ps))"
    using assms by (auto simp: sort_by_position_def)
  from xs(1) have "length xs = length ps" by (auto simp: traverse_Inr dest: list_all2_lengthD)
  then have m: "map snd (zip xs ps) = ps" by simp
  have "set qs = set (map snd (zip xs ps))" unfolding xs(2) by (simp only: list.set_map set_sort)
  with m show ?thesis by (simp only:)
qed

lemma operations_by_scope_ok:
  assumes "operations_by_scope ops k = Inr d"
  shows "scope_index_ok ops k d"
  unfolding scope_index_ok_def
proof (intro allI ballI)
  fix s p assume p: "p \<in> set (dict_get_or [] d s)"
  define g where "g = foldl (\<lambda>d p. if op_kind p = k then dict_append (op_scope p) p d else d) [] ops"
  have dist: "distinct (map fst g)" unfolding g_def by (rule group_distinct) simp
  have get: "dict_get_or [] g s = filter (\<lambda>p. op_kind p = k \<and> op_scope p = s) ops"
    unfolding g_def by (simp add: group_get)
  obtain qs where qs: "(s, qs) \<in> set d" "p \<in> set qs"
    using p dict_get_or_in by metis
  from assms have all2: "list_all2 (\<lambda>(scope, ps) y. bind (sort_by_position ps) (\<lambda>qs. Inr (scope, qs)) = Inr y) g d"
    unfolding operations_by_scope_def traverse_Inr g_def[symmetric] by (simp add: case_prod_unfold)
  from qs(1) obtain i where i: "i < length d" "d ! i = (s, qs)" by (auto simp: in_set_conv_nth)
  with all2 have gi: "i < length g" by (simp add: list_all2_lengthD)
  obtain s' ps where ps: "g ! i = (s', ps)" by (cases "g ! i")
  from list_all2_nthD[OF all2 gi] i ps have eq: "s' = s" "sort_by_position ps = Inr qs"
    by (cases "sort_by_position ps"; simp)+
  from gi ps eq(1) have "(s, ps) \<in> set g" by (metis nth_mem)
  with dist have "dict_get_or [] g s = ps" by (simp add: dict_get_or_def dict_get_def)
  with get sort_by_position_set[OF eq(2)] qs(2)
  show "p \<in> set ops \<and> op_kind p = k \<and> op_scope p = s" by auto
qed

end
