(* ===== verification/LinkerSound.thy ===== *)
theory LinkerSound
  imports Linker Samples
begin

text \<open>
  What the linker of \<open>Linker.thy\<close> guarantees: every edge it adds is grounded in operations of the
  program and in a unique resolution, the counters equal what they count, every call is accounted
  for, and applying a link result twice changes nothing.
\<close>

section \<open>Resolutions\<close>

definition resolution_ok :: "operation list \<Rightarrow> string \<Rightarrow> operation \<Rightarrow> bool" where
  "resolution_ok ops i t \<longleftrightarrow> (\<exists>c \<in> set ops. op_id c = i \<and> is_call_kind_of c \<and> t \<in> set ops \<and> op_kind t = FUNCTION \<and>
     lower (op_language t) = lower (op_language c) \<and> resolved_uniquely ops c t)"

definition resolutions_ok :: "operation list \<Rightarrow> resolutions \<Rightarrow> bool" where
  "resolutions_ok ops res \<longleftrightarrow> (\<forall>i t r. dict_get res i = Some (t, r) \<longrightarrow> resolution_ok ops i t)"

lemma resolutions_okD: "resolutions_ok ops res \<Longrightarrow> dict_get res i = Some (t, r) \<Longrightarrow> resolution_ok ops i t"
  by (auto simp: resolutions_ok_def)

abbreviation linker_index :: "operation list \<Rightarrow> function_indices" where
  "linker_index ops \<equiv> function_indices_of (filter (\<lambda>p. op_kind p = FUNCTION) ops)"

lemma unique_resolution_ok:
  assumes "c \<in> set ops" "is_call_kind_of c"
    "resolve_call c (dict_get (ops_by_id ops) (op_scope c)) (linker_index ops) lt = ([t], r)"
  shows "resolution_ok ops (op_id c) t"
proof -
  have "t \<in> set (filter (\<lambda>p. op_kind p = FUNCTION) ops) \<and> lower (op_language t) = lower (op_language c)"
    using resolve_call_ok[OF indices_ok_of, where t = t and call = c and lt = lt and
      caller = "dict_get (ops_by_id ops) (op_scope c)" and fs1 = "filter (\<lambda>p. op_kind p = FUNCTION) ops"] assms(3) by simp
  with assms show ?thesis by (auto simp: resolution_ok_def resolved_uniquely_def)
qed

lemma link_round_ok:
  assumes "link_round (ops_by_id ops) (linker_index ops) kept res lt progress calls = (kept', res', lt', progress')"
    "set calls \<subseteq> {c \<in> set ops. is_call_kind_of c}" "set kept \<subseteq> {c \<in> set ops. is_call_kind_of c}"
    "resolutions_ok ops res"
  shows "set kept' \<subseteq> {c \<in> set ops. is_call_kind_of c} \<and> resolutions_ok ops res'"
  using assms
proof (induction calls arbitrary: kept res lt progress)
  case (Cons c calls)
  obtain cs r where c: "resolve_call c (dict_get (ops_by_id ops) (op_scope c)) (linker_index ops) lt = (cs, r)"
    by fastforce
  show ?case
  proof (cases "\<exists>t. cs = [t]")
    case True
    then obtain t where t: "cs = [t]" by blast
    obtain lt2 new where p: "propagate_return_types c t lt = (lt2, new)" by fastforce
    have rec: "link_round (ops_by_id ops) (linker_index ops) kept (dict_set (op_id c) (t, r) res) lt2
        (progress \<or> new) calls = (kept', res', lt', progress')" using Cons.prems(1) c t p by simp
    have "resolution_ok ops (op_id c) t"
      using Cons.prems(2) c unfolding t by (intro unique_resolution_ok) auto
    with Cons.prems(4) have "resolutions_ok ops (dict_set (op_id c) (t, r) res)"
      by (auto simp: resolutions_ok_def)
    with Cons.IH[OF rec] Cons.prems(2,3) show ?thesis by simp
  next
    case False
    then have rec: "link_round (ops_by_id ops) (linker_index ops) (kept @ [c]) res lt progress calls =
        (kept', res', lt', progress')"
      using Cons.prems(1) c by (auto split: list.splits)
    from Cons.IH[OF rec] Cons.prems(2-4) show ?thesis by simp
  qed
qed simp

lemma link_loop_ok:
  assumes "link_loop (ops_by_id ops) (linker_index ops) res lt pending = (res', lt')"
    "set pending \<subseteq> {c \<in> set ops. is_call_kind_of c}" "resolutions_ok ops res"
  shows "resolutions_ok ops res'"
  using assms
proof (induction "length pending" arbitrary: pending res lt rule: less_induct)
  case less
  obtain kept res1 lt1 progress
    where round: "link_round (ops_by_id ops) (linker_index ops) [] res lt False pending = (kept, res1, lt1, progress)"
    by (metis surj_pair)
  from link_round_ok[OF round less.prems(2) _ less.prems(3)]
  have ok: "set kept \<subseteq> {c \<in> set ops. is_call_kind_of c}" "resolutions_ok ops res1" by simp_all
  from link_round_length[OF round] have len: "length kept \<le> length pending"
    "progress \<Longrightarrow> length kept < length pending" by auto
  show ?case
  proof (cases "pending = [] \<or> length kept = length pending \<and> \<not> progress")
    case True
    with less.prems(1,3) ok round show ?thesis
      by (subst (asm) link_loop.simps) (auto split: if_splits)
  next
    case False
    with less.prems(1) round have "link_loop (ops_by_id ops) (linker_index ops) res1 lt1 kept = (res', lt')"
      by (subst (asm) link_loop.simps) (auto split: if_splits)
    moreover from False len have "length kept < length pending" by auto
    ultimately show ?thesis using less.hyps ok by blast
  qed
qed

section \<open>Edges\<close>

lemma kind_count_add [simp]:
  "kind_count k (add_link e f r) = kind_count k r + (if oe_kind e = k then 1 else 0)"
  by (simp add: kind_count_def add_link_def)

lemma add_link_sel [simp]:
  "lk_edges (add_link e f r) = lk_edges r @ [e]" "lk_facts (add_link e f r) = lk_facts r @ [f]"
  "lk_resolved (add_link e f r) = lk_resolved r" "lk_unresolved (add_link e f r) = lk_unresolved r"
  "lk_ambiguous (add_link e f r) = lk_ambiguous r" "lk_arguments (add_link e f r) = lk_arguments r"
  "lk_returns (add_link e f r) = lk_returns r" "lk_syncs (add_link e f r) = lk_syncs r"
  "lk_typed (add_link e f r) = lk_typed r"
  by (simp_all add: add_link_def)

text \<open>What linking one thing leaves of the result: the edges so far and the accounts of calls.\<close>

definition extends :: "link_result \<Rightarrow> link_result \<Rightarrow> bool" where
  "extends r r' \<longleftrightarrow> set (lk_edges r) \<subseteq> set (lk_edges r') \<and> lk_resolved r' = lk_resolved r \<and>
     lk_unresolved r' = lk_unresolved r \<and> lk_ambiguous r' = lk_ambiguous r"

lemma extends_refl: "extends r r" by (simp add: extends_def)

lemma extends_trans: "extends r r' \<Longrightarrow> extends r' r'' \<Longrightarrow> extends r r''"
  by (auto simp: extends_def)

lemma links_ok_update:
  assumes "links_ok ops r" "link_edge_ok ops (insert e (set (lk_edges r))) e"
    "lk_edges r' = lk_edges r @ [e]" "lk_facts r' = lk_facts r @ [f]"
    "lk_resolved r' = lk_resolved r + (if oe_kind e = CALLS_EDGE then 1 else 0)"
    "lk_arguments r' + lk_returns r' = lk_arguments r + lk_returns r + (if oe_kind e = DATA_DEPENDENCY then 1 else 0)"
    "lk_syncs r' = lk_syncs r + (if oe_kind e = SYNCHRONIZES then 1 else 0)"
  shows "links_ok ops r'"
  using assms links_ok_edges[OF assms(1,2)] unfolding links_ok_def kind_count_def by simp

definition called_by :: "operation list \<Rightarrow> operation \<Rightarrow> operation \<Rightarrow> link_result \<Rightarrow> bool" where
  "called_by ops c t r \<longleftrightarrow> calls_in (set (lk_edges r)) (op_id c) (op_id t) \<and>
     (\<exists>c' \<in> set ops. op_id c' = op_id c \<and> is_call_kind_of c')"

lemma called_by_extends: "called_by ops c t r \<Longrightarrow> extends r r' \<Longrightarrow> called_by ops c t r'"
  by (auto simp: called_by_def calls_in_def extends_def)

lemma data_edge:
  assumes "called_by ops c t r" "q \<in> set ops" "op_scope q = op_id t" "oe_kind e = DATA_DEPENDENCY"
    "op_kind q = PARAMETER \<and> oe_source e = op_id c \<and> oe_target e = op_id q \<or>
     op_kind q = RETURN \<and> oe_source e = op_id q \<and> oe_target e = op_id c"
  shows "link_edge_ok ops (insert e (set (lk_edges r))) e"
proof -
  obtain c' where "c' \<in> set ops" "op_id c' = op_id c" "is_call_kind_of c'"
    "calls_in (insert e (set (lk_edges r))) (op_id c') (op_scope q)"
    using assms(1,3) by (auto simp: called_by_def calls_in_def)
  with assms(2,4,5) have "data_edge_ok ops (insert e (set (lk_edges r))) e"
    unfolding data_edge_ok_def by (metis (no_types, lifting))
  with assms(4) show ?thesis by (simp add: link_edge_ok_def)
qed

definition own :: "operation list \<Rightarrow> op_kind \<Rightarrow> operation \<Rightarrow> operation list \<Rightarrow> bool" where
  "own ops k t ps \<longleftrightarrow> (\<forall>p \<in> set ps. p \<in> set ops \<and> op_kind p = k \<and> op_scope p = op_id t)"

lemma own_subset: "own ops k t ps \<Longrightarrow> set qs \<subseteq> set ps \<Longrightarrow> own ops k t qs"
  by (auto simp: own_def)

lemma choose_parameter_in:
  assumes "choose_parameter ps fixed name used = (Some p, used')" "set fixed \<subseteq> set ps"
  shows "p \<in> set ps"
  using assms by (auto simp: choose_parameter_def find_Some_iff split: if_splits option.splits)

lemma bind_arguments_ok:
  assumes "links_ok ops r" "called_by ops c t r" "own ops PARAMETER t ps" "set fixed \<subseteq> set ps"
  shows "links_ok ops (bind_arguments c t ps fixed names i used es r) \<and>
    extends r (bind_arguments c t ps fixed names i used es r)"
  using assms(1,2)
proof (induction es arbitrary: i used r)
  case Nil
  then show ?case by (simp add: extends_refl)
next
  case (Cons e es)
  let ?name = "if i < length names then py_str (names ! i) else []"
  obtain po used' where ch: "choose_parameter ps fixed ?name used = (po, used')" by fastforce
  show ?case
  proof (cases po)
    case None
    with Cons ch show ?thesis by (simp add: Let_def)
  next
    case (Some p)
    let ?attrs = "argument_attributes t p i ?name e"
    let ?edge = "\<lparr>oe_source = op_id c, oe_target = op_id p, oe_kind = DATA_DEPENDENCY, oe_attributes = ?attrs\<rparr>"
    let ?r0 = "add_link ?edge (flow_fact c p ARGUMENT_TO_PARAMETER ?attrs) r"
    let ?r = "?r0\<lparr>lk_arguments := Suc (lk_arguments ?r0)\<rparr>"
    have p: "p \<in> set ops" "op_kind p = PARAMETER" "op_scope p = op_id t"
      using choose_parameter_in[OF ch[unfolded Some] assms(4)] assms(3) by (auto simp: own_def)
    have "link_edge_ok ops (insert ?edge (set (lk_edges r))) ?edge"
      by (rule data_edge[OF Cons.prems(2) p(1,3)]) (simp_all add: p(2))
    from links_ok_update[OF Cons.prems(1) this, of ?r] have ok: "links_ok ops ?r" by simp
    have ext: "extends r ?r" by (auto simp: extends_def)
    from Cons.IH[OF ok called_by_extends[OF Cons.prems(2) ext]] extends_trans[OF ext] show ?thesis
      by (simp add: ch Some Let_def del: add_link_sel)
  qed
qed

lemma link_arguments_ok:
  assumes "link_arguments c t ps r = Inr r'" "links_ok ops r" "called_by ops c t r" "own ops PARAMETER t ps"
  shows "links_ok ops r' \<and> extends r r'"
proof -
  let ?ps = "filter (\<lambda>p. \<not> py_truth (dict_get_or (PBool False) (op_attributes p) ''receiver'')) ps"
  have sub: "set fixed \<subseteq> set ?ps" if fixed: "fixed_parameters ?ps = Inr fixed" for fixed
  proof -
    obtain bs where "fixed = map snd (filter (\<lambda>(b, p). \<not> b) (zip bs ?ps))"
      using fixed unfolding fixed_parameters_def bind_Inr by auto
    then show ?thesis by (auto dest: set_zip_rightD)
  qed
  have "own ops PARAMETER t ?ps" by (rule own_subset[OF assms(4)]) auto
  from bind_arguments_ok[OF assms(2,3) this sub] assms(1,2) show ?thesis
    by (auto simp: link_arguments_def Let_def bind_Inr extends_refl split: if_splits)
qed

lemma add_return_ok:
  assumes "add_return c t r q = Inr r'" "links_ok ops r" "called_by ops c t r" "own ops RETURN t [q]"
  shows "links_ok ops r' \<and> extends r r'"
proof -
  obtain results types where rt: "list_attribute (op_attributes c) ''result_targets'' = Inr results"
    "list_attribute (op_attributes t) ''return_types'' = Inr types"
    using assms(1) unfolding add_return_def bind_Inr by blast
  define attrs where "attrs = [(''flow'', PStr (data_flow_value RETURN_TO_CALL)),
    (''result_targets'', results), (''return_types'', types)]"
  define edge where "edge = \<lparr>oe_source = op_id q, oe_target = op_id c, oe_kind = DATA_DEPENDENCY, oe_attributes = attrs\<rparr>"
  define r0 where "r0 = add_link edge (flow_fact q c RETURN_TO_CALL attrs) r"
  have r': "r' = r0\<lparr>lk_returns := Suc (lk_returns r0)\<rparr>"
    using assms(1) by (simp add: add_return_def rt Let_def r0_def edge_def attrs_def)
  have "link_edge_ok ops (insert edge (set (lk_edges r))) edge"
    using assms(4) by (intro data_edge[OF assms(3), of q]) (auto simp: own_def edge_def)
  from links_ok_update[OF assms(2) this, of r'] have "links_ok ops r'"
    by (simp add: r' r0_def) (simp add: edge_def)
  moreover have "extends r r'" by (auto simp: extends_def r' r0_def)
  ultimately show ?thesis by blast
qed

lemma call_edge:
  assumes "resolution_ok ops i t" "oe_kind e = CALLS_EDGE" "oe_source e = i" "oe_target e = op_id t"
  shows "link_edge_ok ops E e"
  using assms unfolding link_edge_ok_def call_edge_ok_def resolution_ok_def by metis

lemma add_call_link_ok:
  assumes "add_call_link c t reso ps qs r = Inr r'" "links_ok ops r" "resolution_ok ops (op_id c) t"
    "own ops PARAMETER t ps" "own ops RETURN t qs"
  shows "links_ok ops r' \<and> lk_resolved r' = Suc (lk_resolved r) \<and> lk_unresolved r' = lk_unresolved r \<and>
    lk_ambiguous r' = lk_ambiguous r"
proof -
  define edge where "edge = \<lparr>oe_source = op_id c, oe_target = op_id t, oe_kind = CALLS_EDGE,
      oe_attributes = [(''resolution'', PStr reso), (''call_kind'', PStr (op_kind_value (op_kind c)))]\<rparr>"
  define r1 where "r1 = add_link edge (call_fact c t reso) r"
  define r2 where "r2 = r1\<lparr>lk_resolved := Suc (lk_resolved r1),
      lk_typed := (if reso = ''typed_receiver'' then Suc (lk_typed r1) else lk_typed r1)\<rparr>"
  have sel: "lk_edges r2 = lk_edges r @ [edge]" "lk_facts r2 = lk_facts r @ [call_fact c t reso]"
    "lk_resolved r2 = Suc (lk_resolved r)" "lk_unresolved r2 = lk_unresolved r" "lk_ambiguous r2 = lk_ambiguous r"
    "lk_arguments r2 = lk_arguments r" "lk_returns r2 = lk_returns r" "lk_syncs r2 = lk_syncs r"
    by (simp_all add: r2_def r1_def)
  have kind: "oe_kind edge = CALLS_EDGE" by (simp add: edge_def)
  have e: "link_edge_ok ops (insert edge (set (lk_edges r))) edge"
    by (rule call_edge[OF assms(3)]) (simp_all add: edge_def)
  have ok2: "links_ok ops r2" by (rule links_ok_update[OF assms(2) e sel(1,2)]) (simp_all add: sel kind)
  have "calls_in (set (lk_edges r2)) (op_id c) (op_id t)"
    unfolding calls_in_def sel by (intro bexI[of _ edge]) (simp_all add: edge_def)
  with assms(3) have called: "called_by ops c t r2" by (auto simp: called_by_def resolution_ok_def)
  obtain r3 where r3: "link_arguments c t ps r2 = Inr r3" "fold_checked (add_return c t) r3 qs = Inr r'"
    using assms(1) unfolding add_call_link_def Let_def r1_def[symmetric, unfolded edge_def] r2_def[symmetric]
      bind_Inr by blast
  from link_arguments_ok[OF r3(1) ok2 called assms(4)]
  have ok3: "links_ok ops r3 \<and> extends r2 r3" .
  have "links_ok ops r' \<and> extends r2 r'"
  proof (rule fold_checked_invariant[OF r3(2), of "\<lambda>r. links_ok ops r \<and> extends r2 r"])
    show "links_ok ops r3 \<and> extends r2 r3" by (rule ok3)
  next
    fix x s s' assume "x \<in> set qs" "links_ok ops s \<and> extends r2 s" "add_return c t s x = Inr s'"
    with add_return_ok[of c t s x s' ops] called_by_extends[OF called, of s] own_subset[OF assms(5), of "[x]"]
      extends_trans[of r2 s s']
    show "links_ok ops s' \<and> extends r2 s'" by simp
  qed
  then show ?thesis by (auto simp: extends_def sel)
qed

section \<open>The whole link\<close>

definition calls_seen :: "link_result \<Rightarrow> nat" where
  "calls_seen r = lk_resolved r + lk_unresolved r + lk_ambiguous r"

lemma settle_calls_ok:
  assumes "fold_checked (settle_call by_id ix res lt params rets) r calls = Inr r'"
    "links_ok ops r" "resolutions_ok ops res" "scope_index_ok ops PARAMETER params" "scope_index_ok ops RETURN rets"
  shows "links_ok ops r' \<and> calls_seen r' = calls_seen r + length calls"
  using assms(1,2)
proof (induction calls arbitrary: r)
  case (Cons c calls)
  obtain r1 where r1: "settle_call by_id ix res lt params rets r c = Inr r1"
    "fold_checked (settle_call by_id ix res lt params rets) r1 calls = Inr r'"
    using Cons.prems(1) by (auto simp: bind_Inr)
  have "links_ok ops r1 \<and> calls_seen r1 = Suc (calls_seen r)"
  proof (cases "dict_get res (op_id c)")
    case None
    with r1(1) Cons.prems(2) show ?thesis by (auto simp: settle_call_def calls_seen_def split: if_splits)
  next
    case (Some tr)
    obtain t reso where tr: "tr = (t, reso)" by fastforce
    have own: "own ops PARAMETER t (dict_get_or [] params (op_id t))" "own ops RETURN t (dict_get_or [] rets (op_id t))"
      using assms(4,5) by (simp_all add: own_def scope_index_ok_def)
    have "add_call_link c t reso (dict_get_or [] params (op_id t)) (dict_get_or [] rets (op_id t)) r = Inr r1"
      using r1(1) by (simp add: settle_call_def Some tr)
    from add_call_link_ok[OF this Cons.prems(2) resolutions_okD[OF assms(3) Some[unfolded tr]] own]
    show ?thesis by (simp add: calls_seen_def)
  qed
  with Cons.IH[OF r1(2)] show ?case by simp
qed simp

lemma by_channel_ok: "s \<in> set (dict_get_or [] (by_channel ops k) key) \<Longrightarrow>
    s \<in> set ops \<and> op_kind s = k \<and> channel_of s \<noteq> [] \<and> channel_key s = key"
  unfolding by_channel_def group_get by auto

lemma sync_pairs_ok:
  assumes "(key, s, r) \<in> set (sync_pairs ops)"
  shows "s \<in> set ops \<and> r \<in> set ops \<and> op_kind s = SEND \<and> op_kind r = RECEIVE \<and> channel_of s \<noteq> [] \<and>
    channel_key s = key \<and> channel_key r = key"
  using assms by (auto simp: sync_pairs_def Let_def dest!: by_channel_ok)

lemma add_sync_ok:
  assumes "links_ok ops r" "ksr \<in> set (sync_pairs ops)"
  shows "links_ok ops (add_sync r ksr)" "calls_seen (add_sync r ksr) = calls_seen r"
proof -
  obtain key s q where ksr: "ksr = (key, s, q)" by (cases ksr)
  obtain l sc ch where key: "key = (l, sc, ch)" by (cases key)
  let ?edge = "\<lparr>oe_source = op_id s, oe_target = op_id q, oe_kind = SYNCHRONIZES,
      oe_attributes = [(''channel'', PStr ch), (''scope'', PStr ''intraprocedural'')]\<rparr>"
  from sync_pairs_ok[OF assms(2)[unfolded ksr]] have "sync_edge_ok ops ?edge"
    unfolding sync_edge_ok_def by (intro bexI[of _ s] bexI[of _ q]) simp_all
  then have "link_edge_ok ops (insert ?edge (set (lk_edges r))) ?edge" by (simp add: link_edge_ok_def)
  from links_ok_update[OF assms(1) this, of "add_sync r ksr"]
  show "links_ok ops (add_sync r ksr)" by (simp add: add_sync_def ksr key Let_def)
  show "calls_seen (add_sync r ksr) = calls_seen r" by (simp add: add_sync_def ksr key Let_def calls_seen_def)
qed

lemma add_syncs_ok:
  "links_ok ops r \<Longrightarrow> set ks \<subseteq> set (sync_pairs ops) \<Longrightarrow>
   links_ok ops (foldl add_sync r ks) \<and> calls_seen (foldl add_sync r ks) = calls_seen r"
  by (induction ks arbitrary: r) (auto simp: add_sync_ok)

lemma link_ir_ok:
  assumes "link_ir ir = Inr r"
  shows "links_ok (sort_key op_order (ir_operations ir)) r \<and>
    calls_seen r = length (filter is_call_kind_of (sort_key op_order (ir_operations ir)))"
proof -
  define ops where "ops = sort_key op_order (ir_operations ir)"
  define calls where "calls = filter is_call_kind_of ops"
  obtain res lt where loop: "link_loop (ops_by_id ops) (linker_index ops) [] (local_types_of ops) calls = (res, lt)"
    by fastforce
  obtain params rets r0 where pr: "operations_by_scope ops PARAMETER = Inr params" "operations_by_scope ops RETURN = Inr rets"
    "fold_checked (settle_call (ops_by_id ops) (linker_index ops) res lt params rets) empty_link calls = Inr r0"
    "r = foldl add_sync r0 (sync_pairs ops)"
    using assms unfolding link_ir_def Let_def ops_def[symmetric] calls_def[symmetric] loop bind_Inr by auto
  have "resolutions_ok ops res"
    by (rule link_loop_ok[OF loop]) (auto simp: calls_def resolutions_ok_def)
  from settle_calls_ok[OF pr(3) links_ok_empty this operations_by_scope_ok[OF pr(1)] operations_by_scope_ok[OF pr(2)]]
  have "links_ok ops r0" "calls_seen r0 = length calls" by (simp_all add: calls_seen_def empty_link_def)
  with add_syncs_ok[of ops r0 "sync_pairs ops"] pr(4) show ?thesis
    unfolding calls_def[symmetric] ops_def[symmetric] by simp
qed

lemma merge_by_again: "merge_by key (merge_by key xs ys) ys = merge_by key xs ys"
proof -
  have "dedup_by key seen ys = []" if "key ` set ys \<subseteq> set seen" for seen
    using that by (induction ys) auto
  moreover have "key ` set ys \<subseteq> set (map key (merge_by key xs ys))"
    using keys_merge_by[of key xs ys] by auto
  ultimately show ?thesis by (simp add: merge_by_eq[of key "merge_by key xs ys"])
qed

lemma dict_set_again: "dict_set k v (dict_set k v d) = dict_set k v d"
  by (induction d) (auto simp: dict_set_def)

text \<open>Two functions named \<open>f\<close> in two languages, a call to each, and a call nobody defines.\<close>

definition link_sample :: semantic_ir where
  "link_sample = sample_ir
     [sample_op ''f1'' FUNCTION ''f1'' 1 ''f'' [(''return_types'', PList [PStr ''T''])],
      sample_op ''p1'' PARAMETER ''f1'' 2 ''x'' [],
      sample_op ''r1'' RETURN ''f1'' 3 [] [],
      sample_op ''c1'' CALL ''g'' 5 ''f'' [(''arguments'', PList [PStr ''a'']), (''result_targets'', PList [PStr ''v''])],
      sample_op ''c2'' CALL ''g'' 6 ''v.m'' [(''receiver'', PStr ''v'')],
      sample_op ''m1'' FUNCTION ''m1'' 8 ''T.m'' [(''receiver_type'', PStr ''T''), (''symbol_name'', PStr ''m'')],
      sample_op ''c3'' CALL ''g'' 9 ''h'' [],
      sample_op ''s1'' SEND ''g'' 10 [] [(''channel'', PStr ''ch'')],
      sample_op ''q1'' RECEIVE ''g'' 11 [] [(''channel'', PStr ''ch'')]] []"

section \<open>Properties\<close>

text \<open>
  C31: Every edge the linker adds is grounded. A CALLS edge joins a call, spawn or defer of the
  program to a function of the same language that was the only candidate of that call's
  resolution; an argument edge goes from such a call to a parameter of the function it is linked
  to, a return edge from a return of that function back to the call; a synchronisation edge joins
  a send and a receive on the same named channel of one scope.
\<close>

theorem link_edges_grounded:
  assumes "link_ir ir = Inr r" "e \<in> set (lk_edges r)"
  shows "link_edge_ok (sort_key op_order (ir_operations ir)) (set (lk_edges r)) e"
  using link_ir_ok[OF assms(1)] assms(2) by (simp add: links_ok_def)

theorem link_edges_grounded_witness:
  "\<exists>r. link_ir link_sample = Inr r \<and>
     link_edge_ok (sort_key op_order (ir_operations link_sample)) (set (lk_edges r)) (hd (lk_edges r))"
proof -
  have "case link_ir link_sample of Inr r \<Rightarrow> lk_edges r \<noteq> [] | Inl _ \<Rightarrow> False" by code_simp
  then obtain r where "link_ir link_sample = Inr r" "lk_edges r \<noteq> []" by (auto split: sum.splits)
  with link_edges_grounded[of link_sample r "hd (lk_edges r)"] show ?thesis by auto
qed

text \<open>
  The linker's counters are exact: every call of the program is counted once, as resolved,
  unresolved or ambiguous; there is one CALLS edge per resolved call, one data edge per bound
  argument or return, one synchronisation edge per pair, and one fact per edge.
\<close>

theorem link_counters_exact:
  assumes "link_ir ir = Inr r"
  shows "lk_resolved r + lk_unresolved r + lk_ambiguous r = length (filter is_call_kind_of (ir_operations ir)) \<and>
    kind_count CALLS_EDGE r = lk_resolved r \<and> kind_count DATA_DEPENDENCY r = lk_arguments r + lk_returns r \<and>
    kind_count SYNCHRONIZES r = lk_syncs r \<and> length (lk_facts r) = length (lk_edges r)"
proof -
  have "length (filter is_call_kind_of (sort_key op_order (ir_operations ir))) = length (filter is_call_kind_of (ir_operations ir))"
    by (simp add: filter_sort)
  with link_ir_ok[OF assms] show ?thesis
    by (simp add: links_ok_def calls_seen_def)
qed

theorem link_counters_exact_witness:
  "\<exists>r. link_ir link_sample = Inr r \<and> lk_resolved r = 2 \<and> lk_unresolved r = 1 \<and> lk_syncs r = 1 \<and>
     kind_count CALLS_EDGE r = 2 \<and> kind_count DATA_DEPENDENCY r = 2"
proof -
  have "case link_ir link_sample of Inr r \<Rightarrow> lk_resolved r = 2 \<and> lk_unresolved r = 1 \<and> lk_syncs r = 1 \<and>
      lk_arguments r = 1 \<and> lk_returns r = 1 | Inl _ \<Rightarrow> False" by code_simp
  then obtain r where "link_ir link_sample = Inr r" "lk_resolved r = 2 \<and> lk_unresolved r = 1 \<and> lk_syncs r = 1 \<and>
      lk_arguments r = 1 \<and> lk_returns r = 1" by (auto split: sum.splits)
  with link_counters_exact[OF this(1)] show ?thesis by auto
qed

text \<open>
  Applying a link result is idempotent: a second application adds no edge and no fact and
  leaves the representation as it is.
\<close>

theorem apply_link_idempotent: "apply_link (apply_link ir r) r = apply_link ir r"
  by (simp add: apply_link_def merge_by_def[symmetric] merge_by_again dict_set_again)

end
