(* ===== verification/CallGraph.thy ===== *)
theory CallGraph
  imports SemanticIr Samples
begin

text \<open>
  \<open>InterproceduralGraph\<close> of \<open>analysis/interprocedural.py\<close>: the read-only queries over a linked
  representation, and the breadth-first search for a call path, which is proved to return a
  shortest path within the depth bound and nothing only when there is none.
\<close>

record call_graph =
  kg_operations :: "(string, operation) dict"
  kg_calls :: "operation_edge list"
  kg_data :: "operation_edge list"

definition edge_order :: "operation_edge \<Rightarrow> string \<times> string \<times> string \<times> string" where
  "edge_order e = (oe_source e, oe_target e, edge_kind_value (oe_kind e), json_attributes (oe_attributes e))"

definition edges_of_kind :: "edge_kind \<Rightarrow> semantic_ir \<Rightarrow> operation_edge list" where
  "edges_of_kind k ir = sort_key edge_order (filter (\<lambda>e. oe_kind e = k) (ir_edges ir))"

definition make_call_graph :: "semantic_ir \<Rightarrow> call_graph" where
  "make_call_graph ir = \<lparr>kg_operations = ops_by_id (ir_operations ir),
     kg_calls = edges_of_kind CALLS_EDGE ir, kg_data = edges_of_kind DATA_DEPENDENCY ir\<rparr>"

text \<open>The operations of a list of ids, the unknown ones left out.\<close>

definition known_ops :: "call_graph \<Rightarrow> string list \<Rightarrow> operation list" where
  "known_ops g ids = List.map_filter (dict_get (kg_operations g)) ids"

definition callees :: "call_graph \<Rightarrow> string \<Rightarrow> operation list" where
  "callees g call = known_ops g (map oe_target (filter (\<lambda>e. oe_source e = call) (kg_calls g)))"

definition callers :: "call_graph \<Rightarrow> string \<Rightarrow> operation list" where
  "callers g fn = known_ops g (map oe_source (filter (\<lambda>e. oe_target e = fn) (kg_calls g)))"

definition has_flow :: "data_flow_kind \<Rightarrow> operation_edge \<Rightarrow> bool" where
  "has_flow k e = (dict_get (oe_attributes e) ''flow'' = Some (PStr (data_flow_value k)))"

definition argument_bindings :: "call_graph \<Rightarrow> string \<Rightarrow> operation_edge list" where
  "argument_bindings g call =
     filter (\<lambda>e. oe_source e = call \<and> has_flow ARGUMENT_TO_PARAMETER e) (kg_data g)"

definition return_sources :: "call_graph \<Rightarrow> string \<Rightarrow> operation list" where
  "return_sources g call =
     known_ops g (map oe_source (filter (\<lambda>e. oe_target e = call \<and> has_flow RETURN_TO_CALL e) (kg_data g)))"

section \<open>The path search\<close>

type_synonym adjacency = "(string, string list) dict"

definition call_adjacency :: "call_graph \<Rightarrow> adjacency" where
  "call_adjacency g =
     foldl (\<lambda>d e. case dict_get (kg_operations g) (oe_source e) of None \<Rightarrow> d
                  | Some c \<Rightarrow> dict_append (op_scope c) (oe_target e) d) [] (kg_calls g)"

text \<open>\<open>sorted(adjacency.get(id, set()))\<close>: the dictionary holds sets.\<close>

definition adjacent :: "adjacency \<Rightarrow> string \<Rightarrow> string list" where
  "adjacent adj i = sorted_set (dict_get_or [] adj i)"

text \<open>The inner loop: the path that reaches the target, or the queue and the visited ids.\<close>

fun expand_calls ::
  "string \<Rightarrow> string list \<Rightarrow> string list \<Rightarrow> string list list \<Rightarrow> string list
   \<Rightarrow> string list + string list list \<times> string list" where
  "expand_calls target path [] queue visited = Inr (queue, visited)"
| "expand_calls target path (n # ns) queue visited =
     (if n = target then Inl (path @ [n])
      else if n \<notin> set visited then expand_calls target path ns (queue @ [path @ [n]]) (n # visited)
      else expand_calls target path ns queue visited)"

lemma expand_calls_Inl: "expand_calls t p ns Q V = Inl q \<Longrightarrow> q = p @ [t] \<and> t \<in> set ns"
  by (induction t p ns Q V rule: expand_calls.induct) (auto split: if_splits)

lemma expand_calls_Inr:
  "expand_calls t p ns Q V = Inr (Q', V') \<Longrightarrow>
   t \<notin> set ns \<and> set V' = set V \<union> set ns \<and>
   (\<exists>news. Q' = Q @ map (\<lambda>n. p @ [n]) news \<and> set news = set ns - set V)"
proof (induction t p ns Q V rule: expand_calls.induct)
  case (2 target path n ns queue visited)
  show ?case
  proof (cases "n \<in> set visited")
    case True
    with 2 show ?thesis by (auto split: if_splits)
  next
    case False
    with 2 have "n \<noteq> target" "expand_calls target path ns (queue @ [path @ [n]]) (n # visited) = Inr (Q', V')"
      by (auto split: if_splits)
    with 2(1) False obtain news where "target \<notin> set ns" "set V' = insert n (set visited) \<union> set ns"
      "Q' = queue @ [path @ [n]] @ map (\<lambda>n. path @ [n]) news" "set news = set ns - set (n # visited)"
      by auto
    with \<open>n \<noteq> target\<close> False show ?thesis by (auto intro!: exI[of _ "n # news"])
  qed
qed simp

definition adj_targets :: "adjacency \<Rightarrow> string set" where
  "adj_targets adj = set (concat (map snd adj))"

lemma adjacent_targets: "set (adjacent adj i) \<subseteq> adj_targets adj"
  by (auto simp: adjacent_def adj_targets_def dest!: dict_get_or_in)

lemma finite_adj_targets: "finite (adj_targets adj)"
  by (simp add: adj_targets_def)

function call_search ::
  "adjacency \<Rightarrow> string \<Rightarrow> int \<Rightarrow> string list list \<Rightarrow> string list \<Rightarrow> string list option" where
  "call_search adj target depth [] visited = None"
| "call_search adj target depth (path # queue) visited =
     (if depth \<le> int (length path) - 1 then call_search adj target depth queue visited
      else (case expand_calls target path (adjacent adj (last path)) queue visited of
              Inl found \<Rightarrow> Some found
            | Inr (queue', visited') \<Rightarrow> call_search adj target depth queue' visited'))"
  by pat_completeness auto

lemma expand_calls_measure:
  assumes "expand_calls t p (adjacent adj (last p)) Q V = Inr (Q', V')"
  shows "card (adj_targets adj - set V') < card (adj_targets adj - set V) \<or>
    card (adj_targets adj - set V') = card (adj_targets adj - set V) \<and> length Q' \<le> length Q"
proof -
  obtain news where n: "set V' = set V \<union> set (adjacent adj (last p))" "Q' = Q @ map (\<lambda>n. p @ [n]) news"
    "set news = set (adjacent adj (last p)) - set V"
    using expand_calls_Inr[OF assms] by blast
  show ?thesis
  proof (cases "news = []")
    case True
    with n have "set V' = set V" by auto
    with n(2) True show ?thesis by simp
  next
    case False
    then obtain y where "y \<in> set (adjacent adj (last p)) - set V" using n(3) by (cases news) auto
    with n(1) adjacent_targets[of adj "last p"] have "adj_targets adj - set V' \<subset> adj_targets adj - set V"
      by blast
    then show ?thesis by (simp add: psubset_card_mono finite_adj_targets)
  qed
qed

termination call_search
proof (relation "inv_image (less_than <*lex*> less_than)
    (\<lambda>(adj, t, d, Q, V). (card (adj_targets adj - set V), length Q))", goal_cases)
  case (3 adj target depth path queue visited x queue' visited')
  then show ?case using expand_calls_measure[of target path adj queue visited queue' visited'] by auto
qed auto

definition call_path :: "call_graph \<Rightarrow> string \<Rightarrow> string \<Rightarrow> int \<Rightarrow> operation list checked" where
  "call_path g source target depth =
     (if \<not> (0 \<le> depth \<and> depth \<le> 32) then Inl (ValueError ''max_depth must be between 0 and 32'')
      else (case dict_get (kg_operations g) source of None \<Rightarrow> Inr []
        | Some s \<Rightarrow>
            (case dict_get (kg_operations g) target of None \<Rightarrow> Inr []
             | Some t \<Rightarrow>
                 (if source = target then Inr [s]
                  else (case call_search (call_adjacency g) target depth [[source]] [source] of
                          None \<Rightarrow> Inr []
                        | Some ids \<Rightarrow>
                            traverse (\<lambda>i. case dict_get (kg_operations g) i of
                                None \<Rightarrow> Inl (KeyError i) | Some p \<Rightarrow> Inr p) ids)))))"

section \<open>Walks\<close>

definition walk :: "adjacency \<Rightarrow> string list \<Rightarrow> bool" where
  "walk adj p \<longleftrightarrow> p \<noteq> [] \<and> successively (\<lambda>x y. y \<in> set (adjacent adj x)) p"

lemma walk_single [simp]: "walk adj [x]" by (simp add: walk_def)

lemma walk_snoc: "walk adj (p @ [x]) \<longleftrightarrow> p = [] \<or> walk adj p \<and> x \<in> set (adjacent adj (last p))"
  by (auto simp: walk_def successively_append_iff)

text \<open>What the search keeps true of its queue and visited ids.\<close>

definition search_inv :: "adjacency \<Rightarrow> string \<Rightarrow> string \<Rightarrow> string list list \<Rightarrow> string list \<Rightarrow> bool" where
  "search_inv adj s t Q V \<longleftrightarrow> t \<notin> set V \<and> s \<in> set V \<and>
     (\<forall>p \<in> set Q. walk adj p \<and> hd p = s \<and> last p \<in> set V \<and>
        (\<forall>q. walk adj q \<and> hd q = s \<and> last q = last p \<longrightarrow> length p \<le> length q)) \<and>
     sorted (map length Q) \<and> (\<forall>p \<in> set Q. length p \<le> Suc (length (hd Q))) \<and>
     (\<forall>x \<in> set V. (\<exists>p \<in> set Q. last p = x) \<or> set (adjacent adj x) \<subseteq> set V) \<and>
     (Q \<noteq> [] \<longrightarrow> (\<forall>q. walk adj q \<and> hd q = s \<and> length q \<le> length (hd Q) \<longrightarrow> last q \<in> set V))"

text \<open>Once everything visited is settled, walks stay inside.\<close>

lemma closed_walk:
  assumes "walk adj q" "hd q \<in> V" "\<forall>x \<in> V. set (adjacent adj x) \<subseteq> V"
  shows "last q \<in> V"
  using assms(1,2)
proof (induction q rule: rev_induct)
  case (snoc x q)
  with assms(3) show ?case by (cases "q = []") (auto simp: walk_snoc)
qed (simp add: walk_def)

lemma search_inv_start: "s \<noteq> t \<Longrightarrow> search_inv adj s t [[s]] [s]"
  by (auto simp: search_inv_def Suc_le_eq walk_def) (metis hd_Cons_tl last.simps le_Suc_eq length_Suc_conv length_0_conv
      le_zero_eq list.sel(1))

text \<open>Nothing that is visited lies nearer than the queue says, so a new node extends a shortest walk.\<close>

lemma search_inv_shortest:
  assumes inv: "search_inv adj s t (p # Q) V" and q: "walk adj q" "hd q = s" "last q \<notin> set V"
  shows "length p < length q"
proof (rule ccontr)
  assume "\<not> length p < length q"
  with inv q(1,2) have "last q \<in> set V" by (auto simp: search_inv_def)
  with q(3) show False ..
qed

lemma search_inv_step:
  assumes inv: "search_inv adj s t (p # Q) V"
    and t: "t \<notin> set (adjacent adj (last p))" and V': "set V' = set V \<union> set (adjacent adj (last p))"
    and Q': "Q' = Q @ map (\<lambda>n. p @ [n]) news" and news: "set news = set (adjacent adj (last p)) - set V"
  shows "search_inv adj s t Q' V'"
proof -
  have p: "walk adj p" "hd p = s" "last p \<in> set V" "p \<noteq> []" using inv by (auto simp: search_inv_def walk_def)
  have len: "length r = length p \<or> length r = Suc (length p)" if "r \<in> set Q" for r
  proof -
    have "length p \<le> length r" "length r \<le> Suc (length p)" using inv that by (auto simp: search_inv_def)
    then show ?thesis by linarith
  qed
  have paths: "walk adj r \<and> hd r = s \<and> last r \<in> set V' \<and> (\<forall>q. walk adj q \<and> hd q = s \<and> last q = last r \<longrightarrow> length r \<le> length q)"
    if r: "r \<in> set Q'" for r
  proof (cases "r \<in> set Q")
    case True
    with inv V' show ?thesis by (auto simp: search_inv_def)
  next
    case False
    with r Q' news obtain n where n: "r = p @ [n]" "n \<in> set (adjacent adj (last p))" "n \<notin> set V" by auto
    have "length r \<le> length q" if "walk adj q" "hd q = s" "last q = last r" for q
      using search_inv_shortest[OF inv that(1,2)] that(3) n by simp
    with n p V' show ?thesis by (auto simp: walk_snoc)
  qed
  have "sorted (map length Q)" using inv by (simp add: search_inv_def)
  moreover have "sorted (map (\<lambda>x. Suc (length p)) news)" by (induction news) auto
  moreover have "length r \<le> Suc (length p)" if "r \<in> set Q" for r using len[OF that] by auto
  ultimately have sorted: "sorted (map length Q')" by (auto simp: Q' sorted_append o_def)
  have len': "length p \<le> length r \<and> length r \<le> Suc (length p)" if "r \<in> set Q'" for r
    using that len[of r] by (auto simp: Q')
  have short: "length r \<le> Suc (length (hd Q'))" if "r \<in> set Q'" for r
  proof -
    from that have "hd Q' \<in> set Q'" by (intro hd_in_set) auto
    from len'[OF this] len'[OF that] show ?thesis by simp
  qed
  have settled: "(\<exists>r \<in> set Q'. last r = x) \<or> set (adjacent adj x) \<subseteq> set V'" if "x \<in> set V'" for x
  proof (cases "x \<in> set V")
    case True
    with inv consider "x = last p" | r where "r \<in> set Q" "last r = x" | "set (adjacent adj x) \<subseteq> set V"
      by (auto simp: search_inv_def)
    then show ?thesis by cases (use V' Q' in auto)
  next
    case False
    with that V' news have "x \<in> set news" by auto
    then have "p @ [x] \<in> set Q'" by (simp add: Q')
    then show ?thesis by (metis last_snoc)
  qed
  have near: "last q \<in> set V'" 
    if ne: "Q' \<noteq> []" and q: "walk adj q" "hd q = s" and le: "length q \<le> length (hd Q')" for q
  proof (rule ccontr)
    assume out: "last q \<notin> set V'"
    then have "last q \<notin> set V" using V' by auto
    with inv q have "length p < length q" using search_inv_shortest by blast
    obtain q' x where q': "q = q' @ [x]" using q(1) by (cases q rule: rev_cases) (auto simp: walk_def)
    from \<open>length p < length q\<close> q' p(4) have "q' \<noteq> []" by auto
    with q' q have w: "walk adj q'" "x \<in> set (adjacent adj (last q'))" "hd q' = s" by (auto simp: walk_snoc)
    have "length (hd Q') \<le> Suc (length p)" using len'[OF hd_in_set[OF ne]] by simp
    with le q' have "length q' \<le> length p" by simp
    with inv w(1,3) have "last q' \<in> set V" by (auto simp: search_inv_def)
    then have "last q' \<in> set V'" using V' by auto
    from settled[OF this] out q' w(2) obtain r where r: "r \<in> set Q'" "last r = last q'" by auto
    with paths[OF r(1)] w have "length r \<le> length q'" by auto
    moreover have "length (hd Q') \<le> length r" using sorted r(1) by (cases Q') auto
    ultimately show False using le q' by simp
  qed
  from inv t V' have "t \<notin> set V'" "s \<in> set V'" by (auto simp: search_inv_def)
  with paths sorted short settled near show ?thesis unfolding search_inv_def by blast
qed

definition shortest_call_walk :: "adjacency \<Rightarrow> string \<Rightarrow> string \<Rightarrow> int \<Rightarrow> string list option \<Rightarrow> bool" where
  "shortest_call_walk adj s t depth res \<longleftrightarrow>
     (case res of
        Some p \<Rightarrow> walk adj p \<and> hd p = s \<and> last p = t \<and> int (length p) - 1 \<le> depth \<and>
          (\<forall>q. walk adj q \<and> hd q = s \<and> last q = t \<longrightarrow> length p \<le> length q)
      | None \<Rightarrow> (\<nexists>q. walk adj q \<and> hd q = s \<and> last q = t \<and> int (length q) - 1 \<le> depth))"

text \<open>Paths at the depth bound are dropped one by one.\<close>

lemma call_search_deep:
  "\<forall>p \<in> set Q. depth \<le> int (length p) - 1 \<Longrightarrow> call_search adj t depth Q V = None"
  by (induction Q) auto

lemma call_search_correct:
  assumes "search_inv adj s t Q V"
  shows "shortest_call_walk adj s t depth (call_search adj t depth Q V)"
  using assms
proof (induction adj t depth Q V rule: call_search.induct)
  case (1 adj t depth V)
  then have "last q \<in> set V" if "walk adj q" "hd q = s" for q
    using closed_walk[OF that(1), of "set V"] that(2) by (auto simp: search_inv_def)
  with 1 show ?case by (auto simp: shortest_call_walk_def search_inv_def)
next
  case (2 adj t depth p Q V)
  have p: "walk adj p" "hd p = s" "p \<noteq> []" using 2(3) by (auto simp: search_inv_def walk_def)
  show ?case
  proof (cases "depth \<le> int (length p) - 1")
    case True
    have "\<forall>r \<in> set (p # Q). length p \<le> length r" using 2(3) by (auto simp: search_inv_def)
    with True have "call_search adj t depth (p # Q) V = None" by (intro call_search_deep) fastforce
    moreover have "last q \<noteq> t" if "walk adj q" "hd q = s" "int (length q) - 1 \<le> depth" for q
      using 2(3) that True by (force simp: search_inv_def)
    ultimately show ?thesis by (auto simp: shortest_call_walk_def)
  next
    case False
    show ?thesis
    proof (cases "expand_calls t p (adjacent adj (last p)) Q V")
      case (Inl found)
      from expand_calls_Inl[OF this] have f: "found = p @ [t]" "t \<in> set (adjacent adj (last p))" by auto
      have "length found \<le> length q" if "walk adj q" "hd q = s" "last q = t" for q
        using search_inv_shortest[OF 2(3) that(1,2)] that(3) f 2(3) by (auto simp: search_inv_def)
      with False Inl f p show ?thesis by (auto simp: shortest_call_walk_def walk_snoc)
    next
      case (Inr QV)
      obtain Q' V' where QV: "QV = (Q', V')" by fastforce
      from expand_calls_Inr[OF Inr[unfolded QV]] search_inv_step[OF 2(3)] have "search_inv adj s t Q' V'" by blast
      from 2(2)[OF False Inr QV[symmetric] this] False Inr QV show ?thesis by simp
    qed
  qed
qed

section \<open>What a walk is in the program\<close>

lemma call_adjacency_get:
  "dict_get_or [] (call_adjacency g) i =
     map oe_target (filter (\<lambda>e. map_option op_scope (dict_get (kg_operations g) (oe_source e)) = Some i) (kg_calls g))"
proof -
  have *: "dict_get_or [] (foldl (\<lambda>d e. case dict_get (kg_operations g) (oe_source e) of None \<Rightarrow> d
      | Some c \<Rightarrow> dict_append (op_scope c) (oe_target e) d) d es) i =
     dict_get_or [] d i @ map oe_target
       (filter (\<lambda>e. map_option op_scope (dict_get (kg_operations g) (oe_source e)) = Some i) es)" for d es
    by (induction es arbitrary: d) (auto split: option.splits)
  show ?thesis unfolding call_adjacency_def * by simp
qed

lemma call_adjacency_iff:
  "j \<in> set (adjacent (call_adjacency (make_call_graph ir)) i) \<longleftrightarrow>
     (\<exists>e \<in> set (ir_edges ir). oe_kind e = CALLS_EDGE \<and> oe_target e = j \<and>
        (\<exists>c. dict_get (ops_by_id (ir_operations ir)) (oe_source e) = Some c \<and> op_scope c = i))"
  by (auto simp: adjacent_def call_adjacency_get make_call_graph_def edges_of_kind_def)

definition call_step :: "semantic_ir \<Rightarrow> string \<Rightarrow> string \<Rightarrow> bool" where
  "call_step ir i j \<longleftrightarrow> (\<exists>e \<in> set (ir_edges ir). oe_kind e = CALLS_EDGE \<and> oe_target e = j \<and>
     (\<exists>c. dict_get (ops_by_id (ir_operations ir)) (oe_source e) = Some c \<and> op_scope c = i))"

definition call_walk :: "semantic_ir \<Rightarrow> string \<Rightarrow> string \<Rightarrow> string list \<Rightarrow> bool" where
  "call_walk ir s t p \<longleftrightarrow> p \<noteq> [] \<and> hd p = s \<and> last p = t \<and> successively (call_step ir) p"

lemma walk_call_walk: "walk (call_adjacency (make_call_graph ir)) p \<and> hd p = s \<and> last p = t \<longleftrightarrow> call_walk ir s t p"
proof -
  have eq: "(\<lambda>x y. y \<in> set (adjacent (call_adjacency (make_call_graph ir)) x)) = call_step ir"
    by (intro ext) (simp only: call_adjacency_iff call_step_def)
  show ?thesis unfolding walk_def call_walk_def eq by blast
qed

lemma traverse_get:
  "traverse (\<lambda>i. case dict_get d i of None \<Rightarrow> Inl (KeyError i) | Some p \<Rightarrow> Inr p) ids = Inr ps \<longleftrightarrow>
     map Some ps = map (dict_get d) ids"
proof (induction ids arbitrary: ps)
  case (Cons i ids)
  show ?case by (cases ps; cases "dict_get d i") (auto simp: Cons bind_simps bind_Inr)
qed (auto simp: bind_simps)

lemma operation_ids:
  assumes "map Some ps = map (dict_get (ops_by_id ops)) ids"
  shows "map op_id ps = ids" "set ps \<subseteq> set ops"
proof -
  have len: "length ps = length ids" using assms by (metis length_map)
  have "op_id (ps ! i) = ids ! i \<and> ps ! i \<in> set ops" if "i < length ids" for i
    using assms that len by (auto simp: list_eq_iff_nth_eq dest!: ops_by_id_Some[OF sym])
  with len show "map op_id ps = ids" "set ps \<subseteq> set ops"
    by (auto simp: list_eq_iff_nth_eq in_set_conv_nth[of _ ps])
qed

section \<open>Properties\<close>

text \<open>
  The call path between two different operations, when the query answers with one, is a
  shortest chain of linked calls from the source function to the target function, within the
  depth bound, made of operations of the program.
\<close>

theorem call_path_shortest:
  assumes "call_path (make_call_graph ir) s t depth = Inr ps" "ps \<noteq> []" "s \<noteq> t"
  shows "call_walk ir s t (map op_id ps) \<and> int (length ps) - 1 \<le> depth \<and> set ps \<subseteq> set (ir_operations ir) \<and>
    (\<nexists>q. call_walk ir s t q \<and> length q < length ps)"
proof -
  obtain ids where ids: "call_search (call_adjacency (make_call_graph ir)) t depth [[s]] [s] = Some ids"
    "map Some ps = map (dict_get (ops_by_id (ir_operations ir))) ids"
    using assms by (auto simp: call_path_def traverse_get make_call_graph_def split: if_splits option.splits)
  from operation_ids[OF ids(2)] have ps: "map op_id ps = ids" "set ps \<subseteq> set (ir_operations ir)" by auto
  from call_search_correct[OF search_inv_start[OF assms(3)], of "call_adjacency (make_call_graph ir)" depth]
  have "call_walk ir s t ids" "int (length ids) - 1 \<le> depth" "\<nexists>q. call_walk ir s t q \<and> length q < length ids"
    unfolding ids(1) shortest_call_walk_def walk_call_walk[symmetric] by (auto simp: not_less)
  with ps show ?thesis by auto
qed

definition chain_ir :: semantic_ir where
  "chain_ir = sample_ir
     [sample_op ''f'' FUNCTION ''f'' 1 ''f'' [], sample_op ''c'' CALL ''f'' 2 ''g'' [],
      sample_op ''g'' FUNCTION ''g'' 3 ''g'' [], sample_op ''d'' CALL ''g'' 4 ''h'' [],
      sample_op ''h'' FUNCTION ''h'' 5 ''h'' []]
     [sample_edge ''c'' ''g'' CALLS_EDGE, sample_edge ''d'' ''h'' CALLS_EDGE]"

theorem call_path_shortest_witness:
  "\<exists>ps. call_path (make_call_graph chain_ir) ''f'' ''h'' 2 = Inr ps \<and> length ps = 3 \<and>
     call_walk chain_ir ''f'' ''h'' (map op_id ps)"
proof -
  have "case call_path (make_call_graph chain_ir) ''f'' ''h'' 2 of Inr ps \<Rightarrow> length ps = 3 | Inl _ \<Rightarrow> False"
    by code_simp
  then obtain ps where "call_path (make_call_graph chain_ir) ''f'' ''h'' 2 = Inr ps" "length ps = 3"
    by (auto split: sum.splits)
  moreover from this(2) have "ps \<noteq> []" by auto
  ultimately show ?thesis using call_path_shortest[of chain_ir "''f''" "''h''" 2 ps] by simp
qed

text \<open>
  The call path query is complete: between known, different operations and with a legal depth
  it answers the empty path only when no chain of linked calls of at most that many calls exists.
\<close>

theorem call_path_complete:
  assumes "call_path (make_call_graph ir) s t depth = Inr []" "s \<noteq> t"
    "s \<in> op_id ` set (ir_operations ir)" "t \<in> op_id ` set (ir_operations ir)"
  shows "\<nexists>q. call_walk ir s t q \<and> int (length q) - 1 \<le> depth"
proof -
  let ?adj = "call_adjacency (make_call_graph ir)"
  have "dict_get (ops_by_id (ir_operations ir)) i \<noteq> None" if "i \<in> op_id ` set (ir_operations ir)" for i
    using that unfolding ops_by_id_def dict_get_dict_of_None by auto
  with assms obtain a b where "dict_get (ops_by_id (ir_operations ir)) s = Some a"
    "dict_get (ops_by_id (ir_operations ir)) t = Some b" by blast
  with assms(1,2) have "call_search ?adj t depth [[s]] [s] = None \<or> call_search ?adj t depth [[s]] [s] = Some []"
    by (auto simp: call_path_def traverse_get make_call_graph_def split: if_splits option.splits)
  with call_search_correct[OF search_inv_start[OF assms(2)], of ?adj depth]
  have "call_search ?adj t depth [[s]] [s] = None" by (auto simp: shortest_call_walk_def walk_def)
  with call_search_correct[OF search_inv_start[OF assms(2)], of ?adj depth]
  show ?thesis unfolding walk_call_walk[symmetric] by (auto simp: shortest_call_walk_def)
qed

theorem call_path_complete_witness:
  "call_path (make_call_graph chain_ir) ''f'' ''h'' 1 = Inr [] \<and>
   (\<nexists>q. call_walk chain_ir ''f'' ''h'' q \<and> int (length q) - 1 \<le> 1)"
proof -
  have none: "call_path (make_call_graph chain_ir) ''f'' ''h'' 1 = Inr []" by code_simp
  moreover have "''f'' \<in> op_id ` set (ir_operations chain_ir)" "''h'' \<in> op_id ` set (ir_operations chain_ir)"
    by (simp_all add: chain_ir_def sample_ir_def sample_op_def)
  ultimately show ?thesis using call_path_complete[OF none] by simp
qed

end
