(* ===== verification/Decode.thy ===== *)
theory Decode
  imports PyValue
begin

text \<open>
  Decoding dictionaries into records. A decoder of the program stores what it finds without looking
  at its type: \<open>Untyped\<close> stands for a document with a value outside the declared types, where the
  model does not follow the code; \<open>Raised\<close> is an exception of the code.
\<close>

datatype decode_error = Raised py_error | Untyped string

type_synonym 'a decoded = "decode_error + 'a"

definition need :: "(pyval \<Rightarrow> 'a decoded) \<Rightarrow> attributes \<Rightarrow> string \<Rightarrow> 'a decoded" where
  "need f d k = (case dict_get d k of None \<Rightarrow> Inl (Raised (KeyError k)) | Some v \<Rightarrow> f v)"

definition optional :: "(pyval \<Rightarrow> 'a decoded) \<Rightarrow> 'a \<Rightarrow> attributes \<Rightarrow> string \<Rightarrow> 'a decoded" where
  "optional f dflt d k = (case dict_get d k of None \<Rightarrow> Inr dflt | Some v \<Rightarrow> f v)"

definition as_str :: "pyval \<Rightarrow> string decoded" where
  "as_str v = (case v of PStr s \<Rightarrow> Inr s | _ \<Rightarrow> Inl (Untyped ''str''))"

definition as_int :: "pyval \<Rightarrow> int decoded" where
  "as_int v = (case v of PInt i \<Rightarrow> Inr i | _ \<Rightarrow> Inl (Untyped ''int''))"

definition as_dict :: "pyval \<Rightarrow> attributes decoded" where
  "as_dict v = (case v of PDict d \<Rightarrow> Inr d | _ \<Rightarrow> Inl (Untyped ''dict''))"

definition as_list :: "pyval \<Rightarrow> pyval list decoded" where
  "as_list v = (case v of PList xs \<Rightarrow> Inr xs | _ \<Rightarrow> Inl (Untyped ''list''))"

definition as_opt_int :: "pyval \<Rightarrow> int option decoded" where
  "as_opt_int v = (case v of PNone \<Rightarrow> Inr None | PInt i \<Rightarrow> Inr (Some i) | _ \<Rightarrow> Inl (Untyped ''int or None''))"

definition as_float :: "pyval \<Rightarrow> (rat \<times> string) decoded" where
  "as_float v = (case v of PFloat q t \<Rightarrow> Inr (q, t) | _ \<Rightarrow> Inl (Untyped ''float''))"

lemmas decode_simps = need_def optional_def as_str_def as_int_def as_dict_def as_list_def as_opt_int_def as_float_def

end
