(* ===== verification/GraphStore.thy ===== *)
theory GraphStore
  imports CodeGraph Sha256 Decode
begin

text \<open>
  The rest of \<open>graph/schema.py\<close>: node identities, the dictionary form of a code graph and its
  decoder, the neighbourhood expansion and the one-line summary. The text form (\<open>to_json\<close>) is
  the standard library's \<open>json\<close> on the dictionary form and is left out.
\<close>

section \<open>Values of the enumerations\<close>

fun node_type_value :: "node_type \<Rightarrow> string" where
  "node_type_value FILE = ''file''"
| "node_type_value MODULE = ''module''"
| "node_type_value CLASS = ''class''"
| "node_type_value FUNCTION_NODE = ''function''"
| "node_type_value VARIABLE = ''variable''"
| "node_type_value IMPORT = ''import''"
| "node_type_value ANNOTATION = ''annotation''"

definition all_node_types :: "node_type list" where
  "all_node_types = [FILE, MODULE, CLASS, FUNCTION_NODE, VARIABLE, IMPORT, ANNOTATION]"

definition node_type_of :: "string \<Rightarrow> node_type option" where
  "node_type_of s = find (\<lambda>t. node_type_value t = s) all_node_types"

fun edge_type_value :: "edge_type \<Rightarrow> string" where
  "edge_type_value CONTAINS_REL = ''contains''"
| "edge_type_value CALLS_REL = ''calls''"
| "edge_type_value IMPORTS_REL = ''imports''"
| "edge_type_value INHERITS = ''inherits''"
| "edge_type_value IMPLEMENTS = ''implements''"
| "edge_type_value REFERENCES_REL = ''references''"
| "edge_type_value RETURNS_REL = ''returns''"
| "edge_type_value DECORATES = ''decorates''"
| "edge_type_value ANNOTATES = ''annotates''"

definition all_edge_types :: "edge_type list" where
  "all_edge_types = [CONTAINS_REL, CALLS_REL, IMPORTS_REL, INHERITS, IMPLEMENTS, REFERENCES_REL, RETURNS_REL,
     DECORATES, ANNOTATES]"

definition edge_type_of :: "string \<Rightarrow> edge_type option" where
  "edge_type_of s = find (\<lambda>t. edge_type_value t = s) all_edge_types"

lemma node_type_of_value [simp]: "node_type_of (node_type_value t) = Some t"
  by (cases t) (simp_all add: node_type_of_def all_node_types_def)

lemma edge_type_of_value [simp]: "edge_type_of (edge_type_value t) = Some t"
  by (cases t) (simp_all add: edge_type_of_def all_edge_types_def)

definition make_node_id :: "string \<Rightarrow> string \<Rightarrow> node_type \<Rightarrow> int \<Rightarrow> string" where
  "make_node_id file name ty line =
     take 16 (sha256_hex (join '':'' [file, node_type_value ty, name, str_of_int line]))"

section \<open>Encoding\<close>

definition node_to_dict :: "code_node \<Rightarrow> pyval" where
  "node_to_dict n = PDict
     [(''id'', PStr (cn_id n)), (''node_type'', PStr (node_type_value (cn_type n))),
      (''name'', PStr (cn_name n)), (''file_path'', PStr (cn_file n)),
      (''line_start'', PInt (cn_line_start n)), (''line_end'', PInt (cn_line_end n)),
      (''language'', PStr (cn_language n)), (''properties'', PDict (cn_properties n))]"

definition code_edge_to_dict :: "code_edge \<Rightarrow> pyval" where
  "code_edge_to_dict e = PDict
     [(''source_id'', PStr (ce_source e)), (''target_id'', PStr (ce_target e)),
      (''edge_type'', PStr (edge_type_value (ce_type e))), (''properties'', PDict (ce_properties e))]"

definition graph_to_dict :: "code_graph \<Rightarrow> attributes" where
  "graph_to_dict g =
     [(''nodes'', PDict (map (\<lambda>(i, n). (i, node_to_dict n)) (cg_nodes g))),
      (''edges'', PList (map code_edge_to_dict (cg_edges g))), (''meta'', PDict (cg_meta g))]"

section \<open>Decoding\<close>

text \<open>\<open>NodeType(value)\<close>: a value that is no member raises, whatever its type.\<close>

definition as_node_type :: "pyval \<Rightarrow> node_type decoded" where
  "as_node_type v = (case v of PStr s \<Rightarrow> (case node_type_of s of Some t \<Rightarrow> Inr t
       | None \<Rightarrow> Inl (Raised (ValueError ''is not a valid NodeType'')))
     | _ \<Rightarrow> Inl (Raised (ValueError ''is not a valid NodeType'')))"

definition as_edge_type :: "pyval \<Rightarrow> edge_type decoded" where
  "as_edge_type v = (case v of PStr s \<Rightarrow> (case edge_type_of s of Some t \<Rightarrow> Inr t
       | None \<Rightarrow> Inl (Raised (ValueError ''is not a valid EdgeType'')))
     | _ \<Rightarrow> Inl (Raised (ValueError ''is not a valid EdgeType'')))"

definition node_from_dict :: "pyval \<Rightarrow> code_node decoded" where
  "node_from_dict v =
     bind (as_dict v) (\<lambda>d. bind (need as_str d ''id'') (\<lambda>i. bind (need as_node_type d ''node_type'') (\<lambda>ty.
     bind (need as_str d ''name'') (\<lambda>name. bind (need as_str d ''file_path'') (\<lambda>file.
     bind (optional as_int 0 d ''line_start'') (\<lambda>line_start. bind (optional as_int 0 d ''line_end'') (\<lambda>line_end.
     bind (optional as_str [] d ''language'') (\<lambda>language. bind (optional as_dict [] d ''properties'') (\<lambda>properties.
       Inr \<lparr>cn_id = i, cn_type = ty, cn_name = name, cn_file = file, cn_line_start = line_start,
         cn_line_end = line_end, cn_language = language, cn_properties = properties\<rparr>)))))))))"

definition edge_from_dict :: "pyval \<Rightarrow> code_edge decoded" where
  "edge_from_dict v =
     bind (as_dict v) (\<lambda>d. bind (need as_str d ''source_id'') (\<lambda>source. bind (need as_str d ''target_id'') (\<lambda>target.
     bind (need as_edge_type d ''edge_type'') (\<lambda>ty. bind (optional as_dict [] d ''properties'') (\<lambda>properties.
       Inr \<lparr>ce_source = source, ce_target = target, ce_type = ty, ce_properties = properties\<rparr>)))))"

text \<open>The node is stored under the key of the document, not under its own id.\<close>

definition decode_node :: "code_graph \<Rightarrow> string \<times> pyval \<Rightarrow> code_graph decoded" where
  "decode_node g iv = (case iv of (i, v) \<Rightarrow> bind (node_from_dict v) (\<lambda>n.
     Inr (g\<lparr>cg_nodes := dict_set i n (cg_nodes g), cg_out := dict_setdefault i [] (cg_out g),
            cg_in := dict_setdefault i [] (cg_in g)\<rparr>)))"

definition decode_edge :: "code_graph \<Rightarrow> pyval \<Rightarrow> code_graph decoded" where
  "decode_edge g v = bind (edge_from_dict v) (\<lambda>e. Inr (add_edge e g))"

definition graph_from_dict :: "attributes \<Rightarrow> code_graph decoded" where
  "graph_from_dict d =
     bind (optional as_dict [] d ''meta'') (\<lambda>meta.
     bind (optional as_dict [] d ''nodes'') (\<lambda>nodes.
     bind (fold_checked decode_node (empty_graph meta) nodes) (\<lambda>g.
     bind (optional as_list [] d ''edges'') (\<lambda>edges.
     fold_checked decode_edge g edges))))"

section \<open>Round trip\<close>

lemmas graph_decode_simps = decode_simps as_node_type_def as_edge_type_def

lemma node_roundtrip [simp]: "node_from_dict (node_to_dict n) = Inr n"
  by (simp add: node_from_dict_def node_to_dict_def graph_decode_simps dict_get_def)

lemma edge_roundtrip [simp]: "edge_from_dict (code_edge_to_dict e) = Inr e"
  by (simp add: edge_from_dict_def code_edge_to_dict_def graph_decode_simps dict_get_def)

definition place_node :: "string \<times> code_node \<Rightarrow> code_graph \<Rightarrow> code_graph" where
  "place_node x g = (case x of (i, n) \<Rightarrow> g\<lparr>cg_nodes := dict_set i n (cg_nodes g),
     cg_out := dict_setdefault i [] (cg_out g), cg_in := dict_setdefault i [] (cg_in g)\<rparr>)"

lemma decode_nodes_encoded:
  "fold_checked decode_node g (map (\<lambda>(i, n). (i, node_to_dict n)) ns) = Inr (foldl (\<lambda>g x. place_node x g) g ns)"
  by (induction ns arbitrary: g) (auto simp: decode_node_def place_node_def)

lemma decode_edges_encoded: "fold_checked decode_edge g (map code_edge_to_dict es) = Inr (add_edges es g)"
  unfolding add_edges_def by (induction es arbitrary: g) (simp_all add: decode_edge_def)

lemma place_nodes:
  assumes "distinct (map fst (cg_nodes g @ ns))" "adjacency_ok g"
  shows "cg_nodes (foldl (\<lambda>g x. place_node x g) g ns) = cg_nodes g @ ns \<and>
    cg_edges (foldl (\<lambda>g x. place_node x g) g ns) = cg_edges g \<and>
    cg_meta (foldl (\<lambda>g x. place_node x g) g ns) = cg_meta g \<and> adjacency_ok (foldl (\<lambda>g x. place_node x g) g ns)"
  using assms
proof (induction ns arbitrary: g)
  case (Cons x ns)
  obtain i n where x: "x = (i, n)" by fastforce
  from Cons.prems(1) x have "cg_nodes (place_node x g) = cg_nodes g @ [x]"
    by (auto simp: place_node_def intro!: dict_set_new)
  moreover have "cg_edges (place_node x g) = cg_edges g" "cg_meta (place_node x g) = cg_meta g"
    by (simp_all add: place_node_def x)
  moreover from Cons.prems(2) have "adjacency_ok (place_node x g)"
    by (simp add: adjacency_ok_def place_node_def x dict_get_or_setdefault)
  ultimately show ?case using Cons.IH[of "place_node x g"] Cons.prems(1) by simp
qed simp

lemma meta_add_edges [simp]: "cg_meta (add_edges es g) = cg_meta g"
  unfolding add_edges_def by (induction es arbitrary: g) (auto simp: add_edge_def)

section \<open>Expansion\<close>

text \<open>A set of edge types restricts only when it is not empty.\<close>

definition follows :: "edge_type list option \<Rightarrow> code_edge \<Rightarrow> bool" where
  "follows types e = (case types of None \<Rightarrow> True | Some ts \<Rightarrow> ts = [] \<or> ce_type e \<in> set ts)"

definition rel_key :: "code_edge \<Rightarrow> string \<times> string \<times> edge_type" where
  "rel_key e = (ce_source e, ce_target e, ce_type e)"

record expansion =
  xp_visited :: "string list"
  xp_next :: "string list"
  xp_graph :: code_graph
  xp_added :: "(string \<times> string \<times> edge_type) list"

definition add_edge_once :: "code_edge \<Rightarrow> expansion \<Rightarrow> expansion" where
  "add_edge_once e x =
     (if rel_key e \<in> set (xp_added x) then x
      else x\<lparr>xp_graph := add_edge e (xp_graph x), xp_added := rel_key e # xp_added x\<rparr>)"

definition follow_edge :: "(code_edge \<Rightarrow> string) \<Rightarrow> edge_type list option \<Rightarrow> expansion \<Rightarrow> code_edge \<Rightarrow> expansion" where
  "follow_edge far types x e =
     (if \<not> follows types e then x
      else (let x' = add_edge_once e x in x'\<lparr>xp_next := far e # xp_next x'\<rparr>))"

definition visit_node :: "code_graph \<Rightarrow> edge_type list option \<Rightarrow> string \<Rightarrow> expansion \<Rightarrow> string \<Rightarrow> expansion" where
  "visit_node g types dir x i =
     (if i \<in> set (xp_visited x) then x
      else (let x1 = x\<lparr>xp_visited := i # xp_visited x\<rparr>;
                x2 = (case dict_get (cg_nodes g) i of None \<Rightarrow> x1 | Some n \<Rightarrow> x1\<lparr>xp_graph := add_node n (xp_graph x1)\<rparr>);
                x3 = (if dir = ''out'' \<or> dir = ''both''
                      then foldl (follow_edge ce_target types) x2 (dict_get_or [] (cg_out g) i) else x2)
            in if dir = ''in'' \<or> dir = ''both''
               then foldl (follow_edge ce_source types) x3 (dict_get_or [] (cg_in g) i) else x3))"

text \<open>
  One hop per step. The frontier is a Python set; \<open>ord\<close> is the order in which it is walked, an
  arbitrary enumeration without repetition.
\<close>

fun expand_hops ::
  "(string list \<Rightarrow> string list) \<Rightarrow> code_graph \<Rightarrow> edge_type list option \<Rightarrow> string \<Rightarrow> nat
   \<Rightarrow> string list \<Rightarrow> expansion \<Rightarrow> expansion" where
  "expand_hops ord g types dir 0 frontier x = x"
| "expand_hops ord g types dir (Suc hops) frontier x =
     (let x' = foldl (visit_node g types dir) (x\<lparr>xp_next := []\<rparr>) (ord frontier)
      in expand_hops ord g types dir hops
           (filter (\<lambda>i. i \<notin> set (xp_visited x')) (xp_next x')) x')"

definition add_endpoints :: "code_graph \<Rightarrow> code_graph \<Rightarrow> code_graph" where
  "add_endpoints g sub =
     foldl (\<lambda>s i. if dict_has (cg_nodes s) i then s
                  else (case dict_get (cg_nodes g) i of None \<Rightarrow> s | Some n \<Rightarrow> add_node n s))
       sub (concat (map (\<lambda>e. [ce_source e, ce_target e]) (cg_edges sub)))"

definition expand ::
  "(string list \<Rightarrow> string list) \<Rightarrow> code_graph \<Rightarrow> string list \<Rightarrow> nat \<Rightarrow> edge_type list option \<Rightarrow> string
   \<Rightarrow> code_graph" where
  "expand ord g seeds hops types dir =
     add_endpoints g (xp_graph (expand_hops ord g types dir hops seeds
       \<lparr>xp_visited = [], xp_next = [], xp_graph = empty_graph [], xp_added = []\<rparr>))"

definition summary :: "code_graph \<Rightarrow> string" where
  "summary g =
     (let count = \<lambda>t. str_of_nat (length (filter (\<lambda>n. cn_type n = t) (dict_values (cg_nodes g)))) in
      ''Graph: '' @ str_of_nat (length (cg_nodes g)) @ '' nodes ('' @ count FILE @ '' files, '' @
      count FUNCTION_NODE @ '' funcs, '' @ count CLASS @ '' classes), '' @ str_of_nat (length (cg_edges g)) @
      '' edges ('' @ str_of_nat (length (filter (\<lambda>e. ce_type e = CALLS_REL) (cg_edges g))) @ '' calls)'')"

section \<open>What an expansion contains\<close>

definition incident :: "code_graph \<Rightarrow> edge_type list option \<Rightarrow> string \<Rightarrow> string \<Rightarrow> code_edge \<Rightarrow> bool" where
  "incident g types dir i e \<longleftrightarrow> e \<in> set (cg_edges g) \<and> follows types e \<and>
     ((dir = ''out'' \<or> dir = ''both'') \<and> ce_source e = i \<or> (dir = ''in'' \<or> dir = ''both'') \<and> ce_target e = i)"

definition neighbours :: "code_graph \<Rightarrow> edge_type list option \<Rightarrow> string \<Rightarrow> string \<Rightarrow> string set" where
  "neighbours g types dir i =
     {ce_target e | e. e \<in> set (cg_edges g) \<and> follows types e \<and> (dir = ''out'' \<or> dir = ''both'') \<and> ce_source e = i} \<union>
     {ce_source e | e. e \<in> set (cg_edges g) \<and> follows types e \<and> (dir = ''in'' \<or> dir = ''both'') \<and> ce_target e = i}"

text \<open>The ids at distance below \<open>n\<close> of a set of seeds.\<close>

primrec near :: "code_graph \<Rightarrow> edge_type list option \<Rightarrow> string \<Rightarrow> string set \<Rightarrow> nat \<Rightarrow> string set" where
  "near g types dir S 0 = {}"
| "near g types dir S (Suc n) = S \<union> near g types dir S n \<union> \<Union> (neighbours g types dir ` near g types dir S n)"

definition once_ok :: "code_graph \<Rightarrow> expansion \<Rightarrow> bool" where
  "once_ok g x \<longleftrightarrow> set (map rel_key (cg_edges (xp_graph x))) = set (xp_added x) \<and>
     distinct (map rel_key (cg_edges (xp_graph x))) \<and> set (cg_edges (xp_graph x)) \<subseteq> set (cg_edges g)"

lemma once_ok_simps [simp]:
  "once_ok g (x\<lparr>xp_visited := v\<rparr>) = once_ok g x" "once_ok g (x\<lparr>xp_next := v\<rparr>) = once_ok g x"
  "once_ok g (x\<lparr>xp_graph := add_node n (xp_graph x)\<rparr>) = once_ok g x"
  by (simp_all add: once_ok_def add_node_def)

lemma once_ok_add: "once_ok g x \<Longrightarrow> e \<in> set (cg_edges g) \<Longrightarrow> once_ok g (add_edge_once e x)"
  by (auto simp: once_ok_def add_edge_once_def add_edge_def)

lemma add_edge_once_sel [simp]:
  "xp_visited (add_edge_once e x) = xp_visited x" "xp_next (add_edge_once e x) = xp_next x"
  "set (xp_added (add_edge_once e x)) = insert (rel_key e) (set (xp_added x))"
  "cg_nodes (xp_graph (add_edge_once e x)) = cg_nodes (xp_graph x)"
  by (auto simp: add_edge_once_def add_edge_def)

lemma follow_edges:
  fixes far :: "code_edge \<Rightarrow> string" and types :: "edge_type list option"
  assumes "once_ok g x" "set es \<subseteq> set (cg_edges g)"
  defines "y \<equiv> foldl (follow_edge far types) x es"
  shows "once_ok g y \<and> xp_visited y = xp_visited x \<and> cg_nodes (xp_graph y) = cg_nodes (xp_graph x) \<and>
    set (xp_added y) = set (xp_added x) \<union> rel_key ` {e \<in> set es. follows types e} \<and>
    set (xp_next y) = set (xp_next x) \<union> far ` {e \<in> set es. follows types e}"
  using assms(1,2) unfolding y_def
proof (induction es arbitrary: x)
  case (Cons e es)
  show ?case
  proof (cases "follows types e")
    case False
    with Cons show ?thesis by (auto simp: follow_edge_def)
  next
    case True
    let ?x = "(add_edge_once e x)\<lparr>xp_next := far e # xp_next x\<rparr>"
    have "once_ok g ?x" using Cons.prems by (simp add: once_ok_add)
    from Cons.IH[OF this] Cons.prems True show ?thesis by (auto simp: follow_edge_def Let_def)
  qed
qed simp

lemma visit_node_effect:
  fixes types :: "edge_type list option" and dir :: string
  assumes "once_ok g x" "adjacency_ok g" "keyed_by_id g" "i \<notin> set (xp_visited x)"
  defines "y \<equiv> visit_node g types dir x i"
  shows "once_ok g y \<and> set (xp_visited y) = insert i (set (xp_visited x)) \<and>
    set (xp_added y) = set (xp_added x) \<union> rel_key ` {e. incident g types dir i e} \<and>
    set (xp_next y) = set (xp_next x) \<union> neighbours g types dir i \<and>
    (\<forall>j. dict_get (cg_nodes (xp_graph y)) j =
       (if j = i \<and> dict_get (cg_nodes g) i \<noteq> None then dict_get (cg_nodes g) i else dict_get (cg_nodes (xp_graph x)) j))"
proof -
  define x1 where "x1 = x\<lparr>xp_visited := i # xp_visited x\<rparr>"
  define x2 where "x2 = (case dict_get (cg_nodes g) i of None \<Rightarrow> x1 | Some n \<Rightarrow> x1\<lparr>xp_graph := add_node n (xp_graph x1)\<rparr>)"
  define x3 where "x3 = (if dir = ''out'' \<or> dir = ''both''
    then foldl (follow_edge ce_target types) x2 (dict_get_or [] (cg_out g) i) else x2)"
  have y: "y = (if dir = ''in'' \<or> dir = ''both''
    then foldl (follow_edge ce_source types) x3 (dict_get_or [] (cg_in g) i) else x3)"
    unfolding y_def visit_node_def x3_def x2_def x1_def Let_def by (simp only: assms(4) if_False)
  have out: "set (dict_get_or [] (cg_out g) i) = {e \<in> set (cg_edges g). ce_source e = i}"
    "set (dict_get_or [] (cg_in g) i) = {e \<in> set (cg_edges g). ce_target e = i}"
    using assms(2) by (auto simp: adjacency_ok_def)
  have "dict_get (cg_nodes g) i = Some n \<Longrightarrow> cn_id n = i" for n
    using assms(3) by (auto simp: keyed_by_id_def dict_get_def dest: map_of_SomeD)
  then have x2: "once_ok g x2 \<and> set (xp_visited x2) = insert i (set (xp_visited x)) \<and> set (xp_added x2) = set (xp_added x) \<and>
      xp_next x2 = xp_next x \<and> (\<forall>j. dict_get (cg_nodes (xp_graph x2)) j =
       (if j = i \<and> dict_get (cg_nodes g) i \<noteq> None then dict_get (cg_nodes g) i else dict_get (cg_nodes (xp_graph x)) j))"
    using assms(1) unfolding x2_def x1_def by (auto split: option.splits) (auto simp: add_node_def once_ok_def)
  have x3: "once_ok g x3 \<and> xp_visited x3 = xp_visited x2 \<and> cg_nodes (xp_graph x3) = cg_nodes (xp_graph x2) \<and>
      set (xp_added x3) = set (xp_added x2) \<union>
        rel_key ` {e \<in> set (cg_edges g). (dir = ''out'' \<or> dir = ''both'') \<and> ce_source e = i \<and> follows types e} \<and>
      set (xp_next x3) = set (xp_next x2) \<union>
        ce_target ` {e \<in> set (cg_edges g). (dir = ''out'' \<or> dir = ''both'') \<and> ce_source e = i \<and> follows types e}"
    using follow_edges[of g x2 "dict_get_or [] (cg_out g) i" ce_target types] x2 by (auto simp: x3_def out)
  have "once_ok g y \<and> xp_visited y = xp_visited x3 \<and> cg_nodes (xp_graph y) = cg_nodes (xp_graph x3) \<and>
      set (xp_added y) = set (xp_added x3) \<union>
        rel_key ` {e \<in> set (cg_edges g). (dir = ''in'' \<or> dir = ''both'') \<and> ce_target e = i \<and> follows types e} \<and>
      set (xp_next y) = set (xp_next x3) \<union>
        ce_source ` {e \<in> set (cg_edges g). (dir = ''in'' \<or> dir = ''both'') \<and> ce_target e = i \<and> follows types e}"
    using follow_edges[of g x3 "dict_get_or [] (cg_in g) i" ce_source types] x3 by (auto simp: y out)
  with x2 x3 show ?thesis
    by (auto simp: incident_def neighbours_def)
qed

definition expansion_ok :: "code_graph \<Rightarrow> edge_type list option \<Rightarrow> string \<Rightarrow> expansion \<Rightarrow> bool" where
  "expansion_ok g types dir x \<longleftrightarrow> once_ok g x \<and>
     set (xp_added x) = rel_key ` {e. \<exists>i \<in> set (xp_visited x). incident g types dir i e} \<and>
     (\<forall>j. dict_get (cg_nodes (xp_graph x)) j = (if j \<in> set (xp_visited x) then dict_get (cg_nodes g) j else None))"

lemma visit_nodes:
  fixes "is" :: "string list"
  assumes "expansion_ok g types dir x" "adjacency_ok g" "keyed_by_id g"
  defines "y \<equiv> foldl (visit_node g types dir) x is"
  shows "expansion_ok g types dir y \<and> set (xp_visited y) = set (xp_visited x) \<union> set is \<and>
    set (xp_next y) = set (xp_next x) \<union> \<Union> (neighbours g types dir ` (set is - set (xp_visited x)))"
  using assms(1) unfolding y_def
proof (induction "is" arbitrary: x)
  case (Cons i "is")
  show ?case
  proof (cases "i \<in> set (xp_visited x)")
    case True
    then have "visit_node g types dir x i = x" by (simp add: visit_node_def)
    with Cons True show ?thesis by auto
  next
    case False
    let ?x = "visit_node g types dir x i"
    from Cons.prems have "once_ok g x" by (simp add: expansion_ok_def)
    note eff = visit_node_effect[OF this assms(2,3) False, of types dir]
    have "expansion_ok g types dir ?x"
      unfolding expansion_ok_def
    proof (intro conjI allI)
      show "once_ok g ?x" using eff by blast
      show "set (xp_added ?x) = rel_key ` {e. \<exists>i \<in> set (xp_visited ?x). incident g types dir i e}"
        using eff Cons.prems by (auto simp: expansion_ok_def)
      fix j
      show "dict_get (cg_nodes (xp_graph ?x)) j = (if j \<in> set (xp_visited ?x) then dict_get (cg_nodes g) j else None)"
        using eff Cons.prems False by (auto simp: expansion_ok_def)
    qed
    moreover have "set (i # is) - set (xp_visited x) = insert i (set is - insert i (set (xp_visited x)))"
      using False by auto
    ultimately show ?thesis using Cons.IH[of ?x] eff by (simp add: Un_assoc)
  qed
qed simp

lemma near_Suc_mono: "near g types dir S n \<subseteq> near g types dir S (Suc n)"
  by auto

lemma expand_hops_near:
  assumes "expansion_ok g types dir x" "adjacency_ok g" "keyed_by_id g" "\<And>xs. set (ord xs) = set xs"
    "set (xp_visited x) = near g types dir S k" "set frontier \<union> set (xp_visited x) = near g types dir S (Suc k)"
  shows "expansion_ok g types dir (expand_hops ord g types dir hops frontier x) \<and>
    set (xp_visited (expand_hops ord g types dir hops frontier x)) = near g types dir S (k + hops)"
  using assms(1,5,6)
proof (induction hops arbitrary: frontier x k)
  case (Suc hops)
  define y where "y = foldl (visit_node g types dir) (x\<lparr>xp_next := []\<rparr>) (ord frontier)"
  have "expansion_ok g types dir (x\<lparr>xp_next := []\<rparr>)" using Suc.prems(1) by (simp add: expansion_ok_def)
  from visit_nodes[OF this assms(2,3), of "ord frontier"]
  have y: "expansion_ok g types dir y" "set (xp_visited y) = near g types dir S (Suc k)"
    "set (xp_next y) = \<Union> (neighbours g types dir ` (set frontier - set (xp_visited x)))"
    using Suc.prems(3) assms(4)[of frontier] by (auto simp: y_def)
  have old: "\<Union> (neighbours g types dir ` near g types dir S k) \<subseteq> near g types dir S (Suc k)" by auto
  have "near g types dir S (Suc (Suc k)) = S \<union> near g types dir S (Suc k) \<union> \<Union> (neighbours g types dir ` near g types dir S (Suc k))"
    by simp
  also have "\<dots> = near g types dir S (Suc k) \<union> \<Union> (neighbours g types dir ` near g types dir S (Suc k))" by auto
  also have "\<dots> = near g types dir S (Suc k) \<union> set (xp_next y)"
  proof -
    have "near g types dir S (Suc k) = near g types dir S k \<union> (set frontier - set (xp_visited x))"
      using Suc.prems(2,3) by blast
    then have "\<Union> (neighbours g types dir ` near g types dir S (Suc k)) =
        \<Union> (neighbours g types dir ` near g types dir S k) \<union> set (xp_next y)" using y(3) by (simp only: image_Un Union_Un_distrib)
    with old show ?thesis by blast
  qed
  finally have "set (filter (\<lambda>i. i \<notin> set (xp_visited y)) (xp_next y)) \<union> set (xp_visited y) = near g types dir S (Suc (Suc k))"
    using y(2) by auto
  from Suc.IH[OF y(1,2) this] show ?case by (simp add: y_def Let_def)
qed simp

lemma add_endpoints_nodes:
  assumes "keyed_by_id g"
  shows "cg_edges (add_endpoints g sub) = cg_edges sub"
    "dict_get (cg_nodes (add_endpoints g sub)) j =
       (case dict_get (cg_nodes sub) j of Some n \<Rightarrow> Some n
        | None \<Rightarrow> if \<exists>e \<in> set (cg_edges sub). j = ce_source e \<or> j = ce_target e then dict_get (cg_nodes g) j else None)"
proof -
  let ?f = "\<lambda>s i. if dict_has (cg_nodes s) i then s
    else (case dict_get (cg_nodes g) i of None \<Rightarrow> s | Some n \<Rightarrow> add_node n s)"
  have id: "dict_get (cg_nodes g) i = Some n \<Longrightarrow> cn_id n = i" for i n
    using assms by (auto simp: keyed_by_id_def dict_get_def dest: map_of_SomeD)
  have fold: "cg_edges (foldl ?f s is) = cg_edges s \<and>
      dict_get (cg_nodes (foldl ?f s is)) j = (case dict_get (cg_nodes s) j of Some n \<Rightarrow> Some n
        | None \<Rightarrow> if j \<in> set is then dict_get (cg_nodes g) j else None)" for s "is"
  proof (induction "is" arbitrary: s)
    case (Cons i "is")
    show ?case
      using Cons[of "?f s i"] id[of i]
      by (auto simp: dict_has_iff add_node_def split: option.splits if_splits)
  qed (simp split: option.splits)
  show "cg_edges (add_endpoints g sub) = cg_edges sub"
    using fold unfolding add_endpoints_def by blast
  show "dict_get (cg_nodes (add_endpoints g sub)) j =
       (case dict_get (cg_nodes sub) j of Some n \<Rightarrow> Some n
        | None \<Rightarrow> if \<exists>e \<in> set (cg_edges sub). j = ce_source e \<or> j = ce_target e then dict_get (cg_nodes g) j else None)"
    using fold[of sub "concat (map (\<lambda>e. [ce_source e, ce_target e]) (cg_edges sub))"]
    unfolding add_endpoints_def by (auto split: option.splits)
qed

lemma expand_contents:
  fixes seeds :: "string list" and types :: "edge_type list option" and dir :: string and hops :: nat
  assumes "adjacency_ok g" "keyed_by_id g" "\<And>xs. set (ord xs) = set xs"
  defines "sub \<equiv> expand ord g seeds hops types dir" and "N \<equiv> near g types dir (set seeds) hops"
  shows "set (map rel_key (cg_edges sub)) = rel_key ` {e. \<exists>i \<in> N. incident g types dir i e} \<and>
    distinct (map rel_key (cg_edges sub)) \<and> set (cg_edges sub) \<subseteq> set (cg_edges g) \<and>
    (\<forall>j. dict_get (cg_nodes sub) j =
       (if j \<in> N \<or> (\<exists>e \<in> set (cg_edges sub). j = ce_source e \<or> j = ce_target e) then dict_get (cg_nodes g) j else None))"
proof -
  define x where "x = expand_hops ord g types dir hops seeds
       \<lparr>xp_visited = [], xp_next = [], xp_graph = empty_graph [], xp_added = []\<rparr>"
  have "expansion_ok g types dir \<lparr>xp_visited = [], xp_next = [], xp_graph = empty_graph [], xp_added = []\<rparr>"
    by (simp add: expansion_ok_def once_ok_def empty_graph_def)
  from expand_hops_near[OF this assms(1,2,3), of "set seeds" 0 seeds hops]
  have x: "expansion_ok g types dir x" "set (xp_visited x) = N" by (simp_all add: x_def N_def)
  have sub: "sub = add_endpoints g (xp_graph x)" by (simp add: sub_def expand_def x_def)
  have edges: "cg_edges sub = cg_edges (xp_graph x)" by (simp add: sub add_endpoints_nodes(1)[OF assms(2)])
  have nodes: "dict_get (cg_nodes sub) j = (case dict_get (cg_nodes (xp_graph x)) j of Some n \<Rightarrow> Some n
      | None \<Rightarrow> if \<exists>e \<in> set (cg_edges sub). j = ce_source e \<or> j = ce_target e then dict_get (cg_nodes g) j else None)" for j
    unfolding edges unfolding sub by (rule add_endpoints_nodes(2)[OF assms(2)])
  from x show ?thesis unfolding nodes unfolding edges expansion_ok_def once_ok_def
    by (auto split: option.splits)
qed

section \<open>Properties\<close>

text \<open>
  Decoding the dictionary form of a code graph whose node keys are distinct gives back its
  nodes, edges and metadata, in order, with adjacency tables that mirror the edges.
\<close>

theorem graph_dict_roundtrip:
  assumes "distinct (map fst (cg_nodes g))"
  shows "\<exists>h. graph_from_dict (graph_to_dict g) = Inr h \<and> cg_nodes h = cg_nodes g \<and> cg_edges h = cg_edges g \<and>
    cg_meta h = cg_meta g \<and> adjacency_ok h"
proof -
  let ?h = "foldl (\<lambda>g x. place_node x g) (empty_graph (cg_meta g)) (cg_nodes g)"
  have "graph_from_dict (graph_to_dict g) = Inr (add_edges (cg_edges g) ?h)"
    by (simp add: graph_from_dict_def graph_to_dict_def graph_decode_simps dict_get_def decode_nodes_encoded decode_edges_encoded)
  moreover have "cg_nodes ?h = cg_nodes g \<and> cg_edges ?h = [] \<and> cg_meta ?h = cg_meta g \<and> adjacency_ok ?h"
    using place_nodes[of "empty_graph (cg_meta g)" "cg_nodes g"] assms adjacency_empty by (simp add: empty_graph_def)
  ultimately show ?thesis by (simp add: adjacency_add_edges)
qed

definition pair_graph :: code_graph where
  "pair_graph = add_edge \<lparr>ce_source = ''a'', ce_target = ''b'', ce_type = CALLS_REL, ce_properties = []\<rparr>
     (add_nodes [sample_node ''a'' ''f'', sample_node ''b'' ''g''] (empty_graph [(''k'', PInt 1)]))"

lemma pair_graph_keyed: "keyed_by_id pair_graph"
proof -
  have "cg_nodes pair_graph = [(''a'', sample_node ''a'' ''f''), (''b'', sample_node ''b'' ''g'')]" by code_simp
  then show ?thesis by (simp add: keyed_by_id_def sample_node_def)
qed

theorem graph_dict_roundtrip_witness:
  "\<exists>h. graph_from_dict (graph_to_dict pair_graph) = Inr h \<and> cg_nodes h = cg_nodes pair_graph \<and>
     cg_edges h = cg_edges pair_graph \<and> cg_meta h = [(''k'', PInt 1)]"
proof -
  have "cg_meta pair_graph = [(''k'', PInt 1)]" by code_simp
  with graph_dict_roundtrip[of pair_graph] pair_graph_keyed show ?thesis by (auto simp: keyed_by_id_def)
qed

text \<open>
  An expansion by some hops contains, once each, exactly the relations of the allowed types and
  directions that touch a node fewer hops away from the seeds, and exactly the graph's nodes at
  those distances together with the ends of these relations - whatever the order in which the
  frontier sets are walked.
\<close>

theorem expand_exact:
  fixes seeds :: "string list" and types :: "edge_type list option" and dir :: string and hops :: nat
  assumes "adjacency_ok g" "keyed_by_id g" "\<And>xs. set (ord xs) = set xs"
  defines "sub \<equiv> expand ord g seeds hops types dir" and "N \<equiv> near g types dir (set seeds) hops"
  shows "set (map rel_key (cg_edges sub)) = rel_key ` {e. \<exists>i \<in> N. incident g types dir i e} \<and>
    distinct (map rel_key (cg_edges sub)) \<and> set (cg_edges sub) \<subseteq> set (cg_edges g) \<and>
    (\<forall>j. dict_get (cg_nodes sub) j =
       (if j \<in> N \<or> (\<exists>e \<in> set (cg_edges sub). j = ce_source e \<or> j = ce_target e) then dict_get (cg_nodes g) j else None))"
  using expand_contents[where types = types and dir = dir and seeds = seeds and hops = hops, OF assms(1-3)] unfolding sub_def N_def .

theorem expand_exact_witness:
  "dict_get (cg_nodes (expand rev pair_graph [''a''] 1 None ''out'')) ''b'' = dict_get (cg_nodes pair_graph) ''b'' \<and>
   distinct (map rel_key (cg_edges (expand rev pair_graph [''a''] 1 None ''out''))) \<and>
   set (cg_edges (expand rev pair_graph [''a''] 1 None ''out'')) \<subseteq> set (cg_edges pair_graph)"
proof -
  have adj: "adjacency_ok pair_graph" unfolding pair_graph_def by (intro adjacency_intros)
  have "list_ex (\<lambda>e. ''b'' = ce_source e \<or> ''b'' = ce_target e) (cg_edges (expand rev pair_graph [''a''] 1 None ''out''))"
    by code_simp
  then have "\<exists>e \<in> set (cg_edges (expand rev pair_graph [''a''] 1 None ''out'')). ''b'' = ce_source e \<or> ''b'' = ce_target e"
    by (simp add: list_ex_iff)
  with expand_exact[OF adj pair_graph_keyed, of rev "[''a'']" 1 None "''out''"] show ?thesis by simp
qed

end
