(* ===== verification/PyRegex.thy ===== *)
theory PyRegex
  imports PyString
begin

text \<open>
  The regular expressions of the standard library's \<open>re\<close> that the program writes: character
  sets, sequences, ordered alternatives, greedy repetition and the zero-width tests. \<open>ends\<close> lists
  where a match that starts at a position may end, in the order in which backtracking finds them,
  so its first element is the match Python returns. \<open>matches\<close> is the declarative reading.
\<close>

datatype regex =
    Chars "char \<Rightarrow> bool"
  | Empty
  | Seq regex regex
  | Alt regex regex
  | Rep regex
  | Boundary
  | At_End
  | Test "string \<Rightarrow> nat \<Rightarrow> bool"

primrec bounded_star :: "nat \<Rightarrow> (nat \<Rightarrow> nat list) \<Rightarrow> nat \<Rightarrow> nat list" where
  "bounded_star 0 f i = [i]"
| "bounded_star (Suc n) f i = concat (map (\<lambda>j. if i < j then bounded_star n f j else []) (f i)) @ [i]"

text \<open>\<open>\b\<close>: exactly one side is a word character.\<close>

definition at_boundary :: "string \<Rightarrow> nat \<Rightarrow> bool" where
  "at_boundary s i =
     ((0 < i \<and> i \<le> length s \<and> is_word (s ! (i - 1))) \<noteq> (i < length s \<and> is_word (s ! i)))"

primrec ends :: "string \<Rightarrow> regex \<Rightarrow> nat \<Rightarrow> nat list" where
  "ends s (Chars p) = (\<lambda>i. if i < length s \<and> p (s ! i) then [Suc i] else [])"
| "ends s Empty = (\<lambda>i. [i])"
| "ends s (Seq r q) = (\<lambda>i. concat (map (ends s q) (ends s r i)))"
| "ends s (Alt r q) = (\<lambda>i. ends s r i @ ends s q i)"
| "ends s (Rep r) = (\<lambda>i. bounded_star (length s - i) (ends s r) i)"
| "ends s Boundary = (\<lambda>i. if at_boundary s i then [i] else [])"
| "ends s At_End = (\<lambda>i. if i = length s \<or> (Suc i = length s \<and> code (s ! i) = 10) then [i] else [])"
| "ends s (Test p) = (\<lambda>i. if p s i then [i] else [])"

definition match_at :: "regex \<Rightarrow> string \<Rightarrow> nat \<Rightarrow> nat option" where
  "match_at r s i = (case ends s r i of [] \<Rightarrow> None | j # _ \<Rightarrow> Some j)"

text \<open>\<open>pattern.match(s)\<close> and \<open>pattern.search(s)\<close>.\<close>

definition re_match :: "regex \<Rightarrow> string \<Rightarrow> bool" where
  "re_match r s = (ends s r 0 \<noteq> [])"

definition re_search :: "regex \<Rightarrow> string \<Rightarrow> bool" where
  "re_search r s = list_ex (\<lambda>i. ends s r i \<noteq> []) [0..<Suc (length s)]"

text \<open>\<open>pattern.sub(replacement, s)\<close> for a pattern that never matches the empty text.\<close>

function re_sub_from :: "regex \<Rightarrow> string \<Rightarrow> string \<Rightarrow> nat \<Rightarrow> string" where
  "re_sub_from r new s i =
     (if length s \<le> i then []
      else (case match_at r s i of
              Some j \<Rightarrow> (if i < j then new @ re_sub_from r new s j else s ! i # re_sub_from r new s (Suc i))
            | None \<Rightarrow> s ! i # re_sub_from r new s (Suc i)))"
  by pat_completeness auto
termination by (relation "measure (\<lambda>(r, new, s, i). length s - i)") auto

declare re_sub_from.simps [simp del]

definition re_sub :: "regex \<Rightarrow> string \<Rightarrow> string \<Rightarrow> string" where
  "re_sub r new s = re_sub_from r new s 0"

text \<open>
  A pattern written as a list of parts, so that the ends of its groups can be read off: the ends of
  the parts in the order of backtracking, and the matches of \<open>re.finditer\<close> as the start and the ends
  of the parts, for a pattern that never matches the empty text.
\<close>

fun part_ends :: "string \<Rightarrow> regex list \<Rightarrow> nat \<Rightarrow> nat list list" where
  "part_ends s [] i = [[]]"
| "part_ends s (r # rs) i = concat (map (\<lambda>j. map ((#) j) (part_ends s rs j)) (ends s r i))"

definition parts_at :: "regex list \<Rightarrow> string \<Rightarrow> nat \<Rightarrow> nat list option" where
  "parts_at rs s i = (case part_ends s rs i of [] \<Rightarrow> None | js # _ \<Rightarrow> Some js)"

function find_parts :: "regex list \<Rightarrow> string \<Rightarrow> nat \<Rightarrow> (nat \<times> nat list) list" where
  "find_parts rs s i =
     (if length s < i then []
      else (case parts_at rs s i of
              None \<Rightarrow> find_parts rs s (Suc i)
            | Some js \<Rightarrow> (i, js) # find_parts rs s (max (Suc i) (last js))))"
  by pat_completeness auto
termination by (relation "measure (\<lambda>(rs, s, i). Suc (length s) - i)") auto

declare find_parts.simps [simp del]

definition finditer :: "regex list \<Rightarrow> string \<Rightarrow> (nat \<times> nat list) list" where
  "finditer rs s = find_parts rs s 0"

definition slice :: "string \<Rightarrow> nat \<Rightarrow> nat \<Rightarrow> string" where
  "slice s i j = drop i (take j s)"

text \<open>Under \<open>re.MULTILINE\<close>, \<open>^\<close> and \<open>$\<close>; and the test \<open>(?!r)\<close>.\<close>

definition line_start :: regex where
  "line_start = Test (\<lambda>s i. i = 0 \<or> (i \<le> length s \<and> code (s ! (i - 1)) = 10))"

definition line_end :: regex where
  "line_end = Test (\<lambda>s i. i = length s \<or> (i < length s \<and> code (s ! i) = 10))"

definition not_ahead :: "regex \<Rightarrow> regex" where
  "not_ahead r = Test (\<lambda>s i. ends s r i = [])"

section \<open>Writing patterns\<close>

definition one_of :: "string \<Rightarrow> regex" where
  "one_of cs = Chars (\<lambda>c. c \<in> set cs)"

definition opt :: "regex \<Rightarrow> regex" where
  "opt r = Alt r Empty"

primrec times :: "nat \<Rightarrow> regex \<Rightarrow> regex" where
  "times 0 r = Empty"
| "times (Suc n) r = Seq r (times n r)"

text \<open>\<open>r{n,}\<close>.\<close>

definition at_least :: "nat \<Rightarrow> regex \<Rightarrow> regex" where
  "at_least n r = Seq (times n r) (Rep r)"

fun word :: "string \<Rightarrow> regex" where
  "word [] = Empty"
| "word [c] = Chars (\<lambda>x. x = c)"
| "word (c # cs) = Seq (Chars (\<lambda>x. x = c)) (word cs)"

text \<open>Under \<open>(?i)\<close>, below 256: equal after \<open>lower\<close>.\<close>

fun word_i :: "string \<Rightarrow> regex" where
  "word_i [] = Empty"
| "word_i [c] = Chars (\<lambda>x. lower_char x = lower_char c)"
| "word_i (c # cs) = Seq (Chars (\<lambda>x. lower_char x = lower_char c)) (word_i cs)"

fun alts :: "regex list \<Rightarrow> regex" where
  "alts [] = Chars (\<lambda>_. False)"
| "alts [r] = r"
| "alts (r # rs) = Alt r (alts rs)"

fun seqs :: "regex list \<Rightarrow> regex" where
  "seqs [] = Empty"
| "seqs [r] = r"
| "seqs (r # rs) = Seq r (seqs rs)"

section \<open>The declarative reading\<close>

inductive matches :: "string \<Rightarrow> regex \<Rightarrow> nat \<Rightarrow> nat \<Rightarrow> bool" for s where
  chars: "i < length s \<Longrightarrow> p (s ! i) \<Longrightarrow> matches s (Chars p) i (Suc i)"
| empty: "matches s Empty i i"
| seq: "matches s r i j \<Longrightarrow> matches s q j k \<Longrightarrow> matches s (Seq r q) i k"
| alt1: "matches s r i j \<Longrightarrow> matches s (Alt r q) i j"
| alt2: "matches s q i j \<Longrightarrow> matches s (Alt r q) i j"
| rep0: "matches s (Rep r) i i"
| rep: "matches s r i j \<Longrightarrow> i < j \<Longrightarrow> matches s (Rep r) j k \<Longrightarrow> matches s (Rep r) i k"
| boundary: "at_boundary s i \<Longrightarrow> matches s Boundary i i"
| at_end: "i = length s \<or> (Suc i = length s \<and> code (s ! i) = 10) \<Longrightarrow> matches s At_End i i"
| test: "p s i \<Longrightarrow> matches s (Test p) i i"

inductive_simps matches_simps [simp]:
  "matches s (Chars p) i j" "matches s Empty i j" "matches s (Seq r q) i j" "matches s (Alt r q) i j"
  "matches s Boundary i j" "matches s At_End i j" "matches s (Test p) i j"

lemma ends_bounds: "j \<in> set (ends s r i) \<Longrightarrow> i \<le> j \<and> (i \<le> length s \<longrightarrow> j \<le> length s)"
proof (induction r arbitrary: i j)
  case (Seq r q)
  then obtain k where k: "k \<in> set (ends s r i)" "j \<in> set (ends s q k)" by auto
  from Seq.IH(1)[OF k(1)] Seq.IH(2)[OF k(2)] show ?case by auto
next
  case (Rep r)
  have "j \<in> set (bounded_star n (ends s r) i) \<Longrightarrow> i \<le> j \<and> (i \<le> length s \<longrightarrow> j \<le> length s)" for n
  proof (induction n arbitrary: i)
    case (Suc n)
    from Suc.prems consider "j = i" | k where "k \<in> set (ends s r i)" "j \<in> set (bounded_star n (ends s r) k)"
      by (auto split: if_splits)
    then show ?case
    proof cases
      case (2 k)
      from Rep.IH[OF 2(1)] Suc.IH[OF 2(2)] show ?thesis by auto
    qed simp
  qed simp
  with Rep.prems show ?case by simp
qed (auto split: if_splits)

lemma star_matches:
  assumes IH: "\<And>i j. i \<le> length s \<Longrightarrow> j \<in> set (ends s r i) \<longleftrightarrow> matches s r i j" and "i \<le> length s" "length s - i \<le> n"
  shows "j \<in> set (bounded_star n (ends s r) i) \<longleftrightarrow> matches s (Rep r) i j"
  using assms(2,3)
proof (induction n arbitrary: i)
  case 0
  have "\<not> matches s r i k \<or> \<not> i < k" for k
    using IH[OF 0(1), of k] ends_bounds[of k s r i] 0 by auto
  then have "matches s (Rep r) i j \<longleftrightarrow> j = i" by (auto elim: matches.cases intro: matches.rep0)
  then show ?case by simp
next
  case (Suc n)
  have step: "k \<in> set (ends s r i) \<Longrightarrow> i < k \<Longrightarrow> j \<in> set (bounded_star n (ends s r) k) \<longleftrightarrow> matches s (Rep r) k j" for k
    using Suc ends_bounds[of k s r i] by (intro Suc.IH) auto
  have "matches s (Rep r) i j \<longleftrightarrow> j = i \<or> (\<exists>k. matches s r i k \<and> i < k \<and> matches s (Rep r) k j)"
    by (auto elim: matches.cases intro: matches.rep0 matches.rep)
  also have "\<dots> \<longleftrightarrow> j = i \<or> (\<exists>k \<in> set (ends s r i). i < k \<and> j \<in> set (bounded_star n (ends s r) k))"
    using IH[OF Suc.prems(1)] step by blast
  also have "\<dots> \<longleftrightarrow> j \<in> set (bounded_star (Suc n) (ends s r) i)" by auto
  finally show ?case by simp
qed

text \<open>The matcher finds exactly the matches.\<close>

lemma ends_matches: "i \<le> length s \<Longrightarrow> j \<in> set (ends s r i) \<longleftrightarrow> matches s r i j"
proof (induction r arbitrary: i j)
  case (Seq r q)
  have "j \<in> set (ends s (Seq r q) i) \<longleftrightarrow> (\<exists>k \<in> set (ends s r i). j \<in> set (ends s q k))" by auto
  also have "\<dots> \<longleftrightarrow> (\<exists>k. matches s r i k \<and> matches s q k j)"
    using Seq.IH Seq.prems ends_bounds[of _ s r i] by metis
  finally show ?case by simp
next
  case (Rep r)
  then show ?case using star_matches[of s r i "length s - i" j] by simp
qed auto

lemma re_search_iff: "re_search r s \<longleftrightarrow> (\<exists>i j. i \<le> length s \<and> matches s r i j)"
proof -
  have "ends s r i \<noteq> [] \<longleftrightarrow> (\<exists>j. matches s r i j)" if "i \<le> length s" for i
    using ends_matches[OF that, of _ r] by (cases "ends s r i") auto
  then show ?thesis by (auto simp: re_search_def list_ex_iff less_Suc_eq_le simp del: upt_Suc)
qed

lemma part_ends_lengths: "js \<in> set (part_ends s rs i) \<Longrightarrow> length js = length rs"
  by (induction rs arbitrary: i js) auto

text \<open>The end of the last part is the end of a match of the whole sequence.\<close>

lemma part_ends_seqs: "rs \<noteq> [] \<Longrightarrow> map last (part_ends s rs i) = ends s (seqs rs) i"
proof (induction rs arbitrary: i rule: seqs.induct)
  case (3 r q rs)
  have "last (j # js) = last js" if "js \<in> set (part_ends s (q # rs) k)" for j k and js :: "nat list"
    using part_ends_lengths[OF that] by (cases js) auto
  then have "map last (map ((#) j) (part_ends s (q # rs) j)) = ends s (seqs (q # rs)) j" for j
    unfolding map_map using 3 by (metis (mono_tags, lifting) comp_apply list.distinct(1) map_eq_conv)
  then show ?case by (simp add: map_concat comp_def del: part_ends.simps(2)) (simp add: map_concat comp_def)
qed (auto simp: map_concat comp_def)

lemma ends_search: "j \<in> set (ends s r i) \<Longrightarrow> i \<le> length s \<Longrightarrow> re_search r s"
  using ends_matches[of i s j r] re_search_iff by blast

end
