(* ===== verification/Intent.thy ===== *)
theory Intent
  imports Evidence Provenance PyRegex
begin

text \<open>
  \<open>analysis/intent.py\<close>: the scan of a repository's comments and documents for statements of design
  intent. The directory walk and the bounded reader are input and output: the scan takes the walked
  entries in order, each with its path and the text the reader returned. The patterns are regular
  expressions of \<open>PyRegex\<close>.
\<close>

definition skipped_directories :: "string list" where
  "skipped_directories = [''.git'', ''.hg'', ''.svn'', ''.venv'', ''venv'', ''node_modules'', ''vendor'', ''dist'',
     ''build'', ''target'', ''__pycache__'', ''.mypy_cache'', ''.pytest_cache'']"

definition document_suffixes :: "string list" where
  "document_suffixes = [''.md'', ''.rst'', ''.txt'', ''.adoc'']"

definition test_suffixes :: "string list" where
  "test_suffixes = [''_test.go'', ''_test.py'', ''_test.js'', ''_test.ts'']"

definition comment_line :: regex where
  "comment_line = Seq (Rep (Chars is_space))
     (alts (map word [''#'', ''//'', ''/*'', ''*'', ''<!--'', ''--'', '';'', ''!'']))"

datatype intent_kind = FAIL_STOP | INTENTIONAL | TRADE_OFF | OUT_OF_SCOPE | BOUNDED_RETRY

fun intent_kind_value :: "intent_kind \<Rightarrow> string" where
  "intent_kind_value FAIL_STOP = ''fail_stop''"
| "intent_kind_value INTENTIONAL = ''intentional''"
| "intent_kind_value TRADE_OFF = ''trade_off''"
| "intent_kind_value OUT_OF_SCOPE = ''out_of_scope''"
| "intent_kind_value BOUNDED_RETRY = ''bounded_retry''"

section \<open>Patterns\<close>

text \<open>A case-insensitive alternation between word boundaries.\<close>

definition phrases :: "regex list \<Rightarrow> regex" where
  "phrases rs = Seq Boundary (Seq (alts rs) Boundary)"

definition any_word :: "string list \<Rightarrow> regex" where
  "any_word ws = alts (map word_i ws)"

definition dash :: regex where
  "dash = opt (one_of ''- '')"

definition apostrophe :: regex where
  "apostrophe = opt (Chars (\<lambda>c. code c = 39))"

definition intent_patterns :: "(intent_kind \<times> regex) list" where
  "intent_patterns =
     [(FAIL_STOP, phrases
        [seqs [word_i ''fail'', dash, word_i ''stop''],
         seqs [word_i ''fail'', dash, word_i ''fast''],
         seqs [word_i ''crash'', opt (word_i ''ing''), word '' '', any_word [''is'', ''are''], word '' '',
           any_word [''acceptable'', ''preferred'', ''preferable'']],
         seqs [word_i ''prefer'', opt (any_word [''s'', ''red'']), word '' '', opt (word_i ''to ''),
           any_word [''crash'', ''exit'', ''panic'']],
         seqs [word_i ''must '', any_word [''exit'', ''crash'', ''panic'', ''abort'']],
         seqs [word_i ''should '', any_word [''exit'', ''crash'', ''abort''], word_i '' rather than'']]),
      (INTENTIONAL, phrases
        [word_i ''by design'', Seq (word_i ''intentional'') (opt (word_i ''ly'')), word_i ''on purpose'',
         word_i ''deliberately'', word_i ''not a bug'',
         seqs [word_i ''won'', apostrophe, word_i ''t'', opt (word '' ''), word_i ''fix''],
         word_i ''we intentionally'']),
      (TRADE_OFF, phrases
        [seqs [word_i ''trade'', dash, word_i ''off'', opt (word_i ''s'')], word_i ''known limitation'',
         word_i ''acceptable'', word_i ''for now'', word_i ''we accept'']),
      (OUT_OF_SCOPE, phrases
        [word_i ''out of scope'', word_i ''not supported'', word_i ''unsupported'',
         seqs [word_i ''won'', apostrophe, word_i ''t support''],
         seqs [word_i ''no plan'', opt (word_i ''s''), word_i '' to'']]),
      (BOUNDED_RETRY, phrases
        [seqs [word_i ''back'', dash, word_i ''off''], word_i ''retry limit'',
         seqs [word_i ''max'', opt (word_i ''imum''), word '' '', any_word [''retries'', ''attempts'']],
         word_i ''bounded'', word_i ''exponential backoff''])]"

section \<open>Facts and packs\<close>

record intent_fact =
  if_kind :: intent_kind
  if_statement :: string
  if_location :: evidence_ref

definition intent_id :: "intent_fact \<Rightarrow> string" where
  "intent_id f = ''intent-'' @ take 16 (sha256_hex (join '':''
     [er_file (if_location f), str_of_int (er_line_start (if_location f)), intent_kind_value (if_kind f)]))"

definition intent_to_dict :: "intent_fact \<Rightarrow> pyval" where
  "intent_to_dict f = PDict
     [(''id'', PStr (intent_id f)), (''kind'', PStr (intent_kind_value (if_kind f))),
      (''statement'', PStr (if_statement f)), (''location'', ref_to_dict (if_location f))]"

record intent_pack =
  ip_facts :: "intent_fact list"
  ip_files :: nat

definition empty_pack :: intent_pack where
  "empty_pack = \<lparr>ip_facts = [], ip_files = 0\<rparr>"

definition intent_path :: "string \<Rightarrow> string" where
  "intent_path p = lstrip_dots (to_slashes p)"

definition facts_for_file :: "intent_pack \<Rightarrow> string \<Rightarrow> intent_fact list" where
  "facts_for_file pack file =
     filter (\<lambda>f. intent_path (er_file (if_location f)) = intent_path file) (ip_facts pack)"

definition intent_pack_to_dict :: "intent_pack \<Rightarrow> pyval" where
  "intent_pack_to_dict p = PDict
     [(''files_scanned'', PInt (int (ip_files p))), (''facts'', PList (map intent_to_dict (ip_facts p)))]"

section \<open>The scanner\<close>

record intent_scanner =
  sc_max_files :: nat
  sc_max_bytes :: nat
  sc_max_facts :: nat

definition make_scanner :: "int \<Rightarrow> int \<Rightarrow> int \<Rightarrow> intent_scanner" where
  "make_scanner files bytes facts =
     \<lparr>sc_max_files = nat (max 1 files), sc_max_bytes = nat (max 1 bytes), sc_max_facts = nat (max 1 facts)\<rparr>"

text \<open>An entry of the walk: the components of its absolute path, its path below the root, and its text.\<close>

record walked =
  wk_parts :: "string list"
  wk_is_file :: bool
  wk_relative :: string
  wk_text :: "string option"

definition wk_name :: "walked \<Rightarrow> string" where
  "wk_name w = (case wk_parts w of [] \<Rightarrow> [] | ps \<Rightarrow> last ps)"

definition is_document :: "walked \<Rightarrow> bool" where
  "is_document w = (lower (name_suffix (wk_name w)) \<in> set document_suffixes)"

definition is_scanned :: "walked \<Rightarrow> bool" where
  "is_scanned w =
     (wk_is_file w \<and> \<not> meets (wk_parts w) skipped_directories \<and>
      (is_document w \<or> \<not> list_ex (\<lambda>t. ends_with t (wk_name w)) test_suffixes \<and> name_suffix (wk_name w) \<noteq> []))"

definition line_facts :: "string \<Rightarrow> int \<Rightarrow> string \<Rightarrow> intent_fact list" where
  "line_facts relative number line =
     map (\<lambda>(kind, pattern). \<lparr>if_kind = kind, if_statement = take 300 (strip line),
         if_location = make_ref relative number None None None (take 300 (strip line)) ''deterministic-intent''\<rparr>)
       (filter (\<lambda>(kind, pattern). re_search pattern line) intent_patterns)"

definition scan_text :: "string \<Rightarrow> string \<Rightarrow> bool \<Rightarrow> intent_fact list" where
  "scan_text source relative document =
     concat (map (\<lambda>(number, line).
         if strip line = [] \<or> (\<not> document \<and> \<not> re_match comment_line line) then []
         else line_facts relative (int number) line)
       (zip [1..<Suc (length (splitlines source))] (splitlines source)))"

fun add_facts :: "nat \<Rightarrow> intent_fact list \<Rightarrow> intent_fact list \<Rightarrow> intent_fact list" where
  "add_facts limit facts [] = facts"
| "add_facts limit facts (f # fs) =
     (if limit \<le> length (facts @ [f]) then facts @ [f] else add_facts limit (facts @ [f]) fs)"

fun scan_entries :: "intent_scanner \<Rightarrow> intent_fact list \<Rightarrow> nat \<Rightarrow> walked list \<Rightarrow> intent_pack" where
  "scan_entries sc facts files [] = \<lparr>ip_facts = facts, ip_files = files\<rparr>"
| "scan_entries sc facts files (w # ws) =
     (if sc_max_facts sc \<le> length facts \<or> sc_max_files sc \<le> files
      then \<lparr>ip_facts = facts, ip_files = files\<rparr>
      else if \<not> is_scanned w then scan_entries sc facts files ws
      else (case wk_text w of
              None \<Rightarrow> scan_entries sc facts files ws
            | Some source \<Rightarrow>
                scan_entries sc
                  (add_facts (sc_max_facts sc) facts (scan_text source (to_slashes (wk_relative w)) (is_document w)))
                  (Suc files) ws))"

definition scan_intent :: "intent_scanner \<Rightarrow> walked list option \<Rightarrow> intent_pack" where
  "scan_intent sc entries = (case entries of None \<Rightarrow> empty_pack | Some ws \<Rightarrow> scan_entries sc [] 0 ws)"

section \<open>Facts about scans\<close>

text \<open>A fact quotes a line of a scanned entry that a pattern of its kind matches.\<close>

definition quoted :: "walked \<Rightarrow> intent_fact \<Rightarrow> bool" where
  "quoted w f \<longleftrightarrow> is_scanned w \<and> er_file (if_location f) = to_slashes (wk_relative w) \<and>
     (\<exists>source n. wk_text w = Some source \<and> n < length (splitlines source) \<and>
        er_line_start (if_location f) = int (Suc n) \<and> if_statement f = take 300 (strip (splitlines source ! n)) \<and>
        (is_document w \<or> re_match comment_line (splitlines source ! n)) \<and>
        (\<exists>r. (if_kind f, r) \<in> set intent_patterns \<and>
           (\<exists>i j. i \<le> length (splitlines source ! n) \<and> matches (splitlines source ! n) r i j)))"

lemma zip_upt_Suc: "(k, x) \<in> set (zip [1..<Suc (length xs)] xs) \<Longrightarrow> \<exists>n. k = Suc n \<and> n < length xs \<and> x = xs ! n"
  by (auto simp: set_zip simp del: upt_Suc)

lemma scan_text_quoted:
  assumes "f \<in> set (scan_text source (to_slashes (wk_relative w)) (is_document w))" "is_scanned w" "wk_text w = Some source"
  shows "quoted w f"
proof -
  obtain k line where k: "(k, line) \<in> set (zip [1..<Suc (length (splitlines source))] (splitlines source))"
    "is_document w \<or> re_match comment_line line" "f \<in> set (line_facts (to_slashes (wk_relative w)) (int k) line)"
    using assms(1) by (force simp: scan_text_def simp del: upt_Suc split: if_splits)
  from zip_upt_Suc[OF k(1)] obtain n where n: "k = Suc n" "n < length (splitlines source)" "line = splitlines source ! n"
    by blast
  from k(3) obtain r where "(if_kind f, r) \<in> set intent_patterns" "re_search r line"
    "if_statement f = take 300 (strip line)" "er_file (if_location f) = to_slashes (wk_relative w)"
    "er_line_start (if_location f) = int k"
    by (auto simp: line_facts_def make_ref_def)
  with k(2) n assms(2,3) show ?thesis unfolding quoted_def re_search_iff by blast
qed

lemma add_facts_set: "set (add_facts limit facts fs) \<subseteq> set facts \<union> set fs"
  by (induction limit facts fs rule: add_facts.induct) (auto split: if_splits)

lemma add_facts_length: "length facts < limit \<Longrightarrow> length (add_facts limit facts fs) \<le> limit"
  by (induction limit facts fs rule: add_facts.induct) auto

definition pack_ok :: "intent_scanner \<Rightarrow> walked set \<Rightarrow> intent_pack \<Rightarrow> bool" where
  "pack_ok sc W p \<longleftrightarrow> (\<forall>f \<in> set (ip_facts p). \<exists>w \<in> W. quoted w f) \<and>
     length (ip_facts p) \<le> sc_max_facts sc \<and> ip_files p \<le> sc_max_files sc"

lemma pack_ok_step:
  assumes "pack_ok sc W \<lparr>ip_facts = facts, ip_files = files\<rparr>" "w \<in> W" "is_scanned w" "wk_text w = Some source"
    "\<not> sc_max_facts sc \<le> length facts" "\<not> sc_max_files sc \<le> files"
  shows "pack_ok sc W \<lparr>ip_facts = add_facts (sc_max_facts sc) facts
     (scan_text source (to_slashes (wk_relative w)) (is_document w)), ip_files = Suc files\<rparr>"
  using assms add_facts_set[of "sc_max_facts sc" facts] add_facts_length[of facts "sc_max_facts sc"]
    scan_text_quoted[of _ source w]
  unfolding pack_ok_def by fastforce

lemma scan_entries_ok:
  "pack_ok sc W \<lparr>ip_facts = facts, ip_files = files\<rparr> \<Longrightarrow> set ws \<subseteq> W \<Longrightarrow> pack_ok sc W (scan_entries sc facts files ws)"
proof (induction ws arbitrary: facts files)
  case (Cons w ws)
  then show ?case using pack_ok_step[of sc W facts files w] by (simp split: option.splits)
qed simp

section \<open>Properties\<close>

text \<open>
  The intent scan is bounded and grounded: it keeps to its limits on files and facts, and every
  fact quotes a line of a scanned file - a comment line unless the file is a document - on which a
  pattern of the fact's kind matches.
\<close>

theorem intent_scan_grounded:
  "(\<forall>f \<in> set (ip_facts (scan_intent sc (Some ws))). \<exists>w \<in> set ws. quoted w f) \<and>
   length (ip_facts (scan_intent sc (Some ws))) \<le> sc_max_facts sc \<and>
   ip_files (scan_intent sc (Some ws)) \<le> sc_max_files sc"
  using scan_entries_ok[of sc "set ws" "[]" 0 ws] by (simp add: scan_intent_def pack_ok_def)

definition design_note :: walked where
  "design_note = \<lparr>wk_parts = [''/'', ''home'', ''p'', ''DESIGN.md''], wk_is_file = True, wk_relative = ''DESIGN.md'',
     wk_text = Some ''by design''\<rparr>"

lemma add_facts_all: "length facts + length fs \<le> limit \<Longrightarrow> add_facts limit facts fs = facts @ fs"
proof (induction limit facts fs rule: add_facts.induct)
  case (2 limit facts f fs)
  then show ?case by (cases fs) auto
qed simp

lemma ends_phrases:
  "j \<in> set (ends s r i) \<Longrightarrow> at_boundary s i \<Longrightarrow> at_boundary s j \<Longrightarrow> j \<in> set (ends s (phrases (r # rs)) i)"
  by (cases rs) (auto simp: phrases_def)

theorem intent_scan_grounded_witness:
  "\<exists>f \<in> set (ip_facts (scan_intent (make_scanner 4 9 5) (Some [design_note]))). if_kind f = INTENTIONAL \<and>
     quoted design_note f"
proof -
  let ?by = "''by design''" and ?facts = "line_facts ''DESIGN.md'' 1 ''by design''"
  have lines: "splitlines ?by = [?by]" "strip ?by = ?by" by code_simp+
  have scanned: "is_scanned design_note" "is_document design_note" by code_simp+
  have path: "to_slashes ''DESIGN.md'' = ''DESIGN.md''" by code_simp
  have wk: "wk_text design_note = Some ?by" "wk_relative design_note = ''DESIGN.md''" by (simp_all add: design_note_def)
  have "?facts = scan_text ?by ''DESIGN.md'' True" by (simp add: scan_text_def lines)
  moreover have "length ?facts \<le> 5"
    unfolding line_facts_def length_map by (rule order_trans[OF length_filter_le]) (simp add: intent_patterns_def)
  ultimately have facts: "ip_facts (scan_intent (make_scanner 4 9 5) (Some [design_note])) = ?facts"
    using scanned by (simp add: scan_intent_def make_scanner_def wk path add_facts_all)
  obtain r where r: "(INTENTIONAL, r) \<in> set intent_patterns" "r = phrases [word_i ''by design'',
      Seq (word_i ''intentional'') (opt (word_i ''ly'')), word_i ''on purpose'', word_i ''deliberately'',
      word_i ''not a bug'', seqs [word_i ''won'', apostrophe, word_i ''t'', opt (word '' ''), word_i ''fix''],
      word_i ''we intentionally'']" by (simp add: intent_patterns_def)
  have "9 \<in> set (ends ?by (word_i ''by design'') 0)" "at_boundary ?by 0" "at_boundary ?by 9" by code_simp+
  then have "9 \<in> set (ends ?by r 0)" unfolding r(2) by (rule ends_phrases)
  from ends_search[OF this] have "re_search r ?by" by simp
  with r(1) have "(INTENTIONAL, r) \<in> set (filter (\<lambda>(k, p). re_search p ?by) intent_patterns)" by simp
  from imageI[OF this] have "\<exists>f \<in> set ?facts. if_kind f = INTENTIONAL"
    unfolding line_facts_def set_map by (rule bexI[rotated]) simp
  with intent_scan_grounded[of "make_scanner 4 9 5" "[design_note]"] show ?thesis by (auto simp: facts)
qed

text \<open>
  The directories to skip are looked for in the absolute path of an entry, the part above the
  project included: of a project that lies below a directory of such a name (\<open>build\<close>, \<open>vendor\<close>,
  \<open>target\<close>, ...) nothing is scanned.
\<close>

theorem scan_below_skipped_directory:
  assumes "meets base skipped_directories" "\<And>w. w \<in> set ws \<Longrightarrow> take (length base) (wk_parts w) = base"
  shows "scan_intent sc (Some ws) = empty_pack"
proof -
  have "\<not> is_scanned w" if "w \<in> set ws" for w
    using assms(1) arg_cong[OF assms(2)[OF that], of set] set_take_subset[of "length base" "wk_parts w"]
    by (auto simp: is_scanned_def meets_def list_ex_iff)
  then have "scan_entries sc [] 0 ws = empty_pack" by (induction ws) (auto simp: empty_pack_def)
  then show ?thesis by (simp add: scan_intent_def)
qed

theorem scan_below_skipped_directory_witness:
  "scan_intent (make_scanner 4 9 5)
     (Some [design_note\<lparr>wk_parts := [''/'', ''srv'', ''build'', ''p'', ''DESIGN.md'']\<rparr>]) = empty_pack"
  by (rule scan_below_skipped_directory[of "[''/'', ''srv'', ''build'']"])
    (auto simp: meets_def skipped_directories_def)

end
