(* ===== verification/Fnmatch.thy ===== *)
theory Fnmatch
  imports PyString
begin

text \<open>
  \<open>fnmatch.fnmatch\<close> of the standard library on a POSIX system (\<open>normcase\<close> is the identity): stars,
  question marks and character classes, with the treatment of hyphens and empty ranges that
  \<open>fnmatch.translate\<close> gives classes.
\<close>

datatype glob = Star | Any_One | Lit char | Class bool "(char \<times> char) list"

section \<open>Classes\<close>

text \<open>The text between the brackets and what follows; \<open>None\<close> when the bracket is not closed.\<close>

definition class_span :: "string \<Rightarrow> (string \<times> string) option" where
  "class_span s =
     (let (bang, s1) = (case s of c # t \<Rightarrow> if c = CHR ''!'' then ([c], t) else ([], s) | [] \<Rightarrow> ([], s));
          (pre, s2) = (case s1 of c # t \<Rightarrow> if c = CHR '']'' then (bang @ [c], t) else (bang, s1) | [] \<Rightarrow> (bang, s1));
          rest = dropWhile (\<lambda>c. c \<noteq> CHR '']'') s2
      in if rest = [] then None else Some (pre @ takeWhile (\<lambda>c. c \<noteq> CHR '']'') s2, tl rest))"

definition dash_from :: "nat \<Rightarrow> string \<Rightarrow> nat option" where
  "dash_from m t =
     (let u = dropWhile (\<lambda>c. c \<noteq> CHR ''-'') (drop m t) in if u = [] then None else Some (length t - length u))"

lemma dash_from_less: "dash_from m t = Some k \<Longrightarrow> k < length t"
proof -
  assume k: "dash_from m t = Some k"
  let ?u = "dropWhile (\<lambda>c. c \<noteq> CHR ''-'') (drop m t)"
  from k have "?u \<noteq> []" "k = length t - length ?u" by (auto simp: dash_from_def Let_def split: if_splits)
  moreover have "length ?u \<le> length t" using length_dropWhile_le[of _ "drop m t"] by (rule order_trans) simp
  ultimately show ?thesis by (cases ?u) auto
qed

text \<open>The pieces between the hyphens that make ranges; the last piece may be empty.\<close>

function class_chunks :: "nat \<Rightarrow> string \<Rightarrow> string list" where
  "class_chunks m t =
     (case dash_from m t of None \<Rightarrow> [t] | Some k \<Rightarrow> take k t # class_chunks 2 (drop (Suc k) t))"
  by pat_completeness auto
termination by (relation "measure (\<lambda>(m, t). length t)") (auto dest: dash_from_less)

declare class_chunks.simps [simp del]

definition close_chunks :: "string list \<Rightarrow> string list" where
  "close_chunks cs =
     (if last cs \<noteq> [] then cs
      else butlast (butlast cs) @ [last (butlast cs) @ [CHR ''-'']])"

text \<open>Empty ranges are removed, from the right.\<close>

fun prune_chunks :: "string list \<Rightarrow> string list" where
  "prune_chunks [] = []"
| "prune_chunks (c # cs) =
     (case prune_chunks cs of
        [] \<Rightarrow> [c]
      | d # ds \<Rightarrow> (if hd d < last c then (butlast c @ tl d) # ds else c # d # ds))"

fun chunk_ranges :: "string list \<Rightarrow> (char \<times> char) list" where
  "chunk_ranges [] = []"
| "chunk_ranges [c] = map (\<lambda>x. (x, x)) c"
| "chunk_ranges (c # d # cs) = map (\<lambda>x. (x, x)) (butlast c) @ (last c, hd d) # chunk_ranges (tl d # cs)"

definition parse_class :: "string \<Rightarrow> glob" where
  "parse_class stuff =
     (let chunks = (if CHR ''-'' \<notin> set stuff then [stuff]
            else prune_chunks (close_chunks (class_chunks (if hd stuff = CHR ''!'' then 2 else 1) stuff)))
      in case chunks of
           (CHR ''!'' # c) # cs \<Rightarrow> Class True (chunk_ranges (c # cs))
         | _ \<Rightarrow> Class False (chunk_ranges chunks))"

section \<open>Patterns\<close>

lemma class_span_shorter: "class_span s = Some (stuff, rest) \<Longrightarrow> length rest < length s"
proof -
  have "length (dropWhile P x) - Suc 0 < Suc (length x)" "length (dropWhile P x) - Suc 0 < Suc (Suc (length x))"
    for P and x :: string using length_dropWhile_le[of P x] by linarith+
  then show "class_span s = Some (stuff, rest) \<Longrightarrow> length rest < length s"
    by (auto simp: class_span_def Let_def split: if_splits list.splits)
qed

function parse_glob :: "string \<Rightarrow> glob list" where
  "parse_glob [] = []"
| "parse_glob (c # s) =
     (if c = CHR ''*'' then Star # parse_glob s
      else if c = CHR ''?'' then Any_One # parse_glob s
      else if c = CHR ''['' then
        (case class_span s of None \<Rightarrow> Lit c # parse_glob s
         | Some (stuff, rest) \<Rightarrow> parse_class stuff # parse_glob rest)
      else Lit c # parse_glob s)"
  by pat_completeness auto
termination by (relation "measure length") (auto dest: class_span_shorter)

definition in_class :: "(char \<times> char) list \<Rightarrow> char \<Rightarrow> bool" where
  "in_class rs c = list_ex (\<lambda>(a, b). a \<le> c \<and> c \<le> b) rs"

fun glob_match :: "glob list \<Rightarrow> string \<Rightarrow> bool" where
  "glob_match [] s = (s = [])"
| "glob_match (Star # gs) [] = glob_match gs []"
| "glob_match (Star # gs) (c # s) = (glob_match gs (c # s) \<or> glob_match (Star # gs) s)"
| "glob_match (Any_One # gs) s = (case s of [] \<Rightarrow> False | c # t \<Rightarrow> glob_match gs t)"
| "glob_match (Lit x # gs) s = (case s of [] \<Rightarrow> False | c # t \<Rightarrow> c = x \<and> glob_match gs t)"
| "glob_match (Class neg rs # gs) s =
     (case s of [] \<Rightarrow> False | c # t \<Rightarrow> in_class rs c \<noteq> neg \<and> glob_match gs t)"

definition fnmatch :: "string \<Rightarrow> string \<Rightarrow> bool" where
  "fnmatch name pattern = glob_match (parse_glob pattern) name"

section \<open>Facts\<close>

lemma fnmatch_literal_first:
  assumes "c \<notin> {CHR ''*'', CHR ''?'', CHR ''[''}" "fnmatch name (c # pattern)"
  shows "\<exists>t. name = c # t"
  using assms by (cases name) (auto simp: fnmatch_def)

lemma fnmatch_plain:
  assumes "set p \<inter> {CHR ''*'', CHR ''?'', CHR ''[''} = {}"
  shows "fnmatch name p \<longleftrightarrow> name = p"
proof -
  have "parse_glob p = map Lit p" using assms by (induction p) auto
  moreover have "glob_match (map Lit p) name \<longleftrightarrow> name = p" for name
    by (induction p arbitrary: name) (auto split: list.splits)
  ultimately show ?thesis by (simp add: fnmatch_def)
qed

lemma fnmatch_star: "fnmatch name ''*''"
proof -
  have "glob_match [Star] s" for s by (induction s) auto
  then show ?thesis by (simp add: fnmatch_def)
qed

end
