(* ===== verification/Adjudication.thy ===== *)
theory Adjudication
  imports Intent Fnmatch
begin

text \<open>
  \<open>analysis/adjudication.py\<close>: the handling labels of findings, the user's intent memory with its
  document form, and the two entry points that attach labels to findings and to suggestions. A YAML
  document is the value \<open>yaml.safe_load\<close> returned (mappings with string keys); files and the
  environment stay outside.
\<close>

datatype adjudication = ACTIONABLE | DESIGN_TRADE_OFF | INTENTIONAL_LABEL | OUT_OF_SCOPE_LABEL | THEORETICAL | UNKNOWN

fun adjudication_value :: "adjudication \<Rightarrow> string" where
  "adjudication_value ACTIONABLE = ''actionable''"
| "adjudication_value DESIGN_TRADE_OFF = ''design_trade_off''"
| "adjudication_value INTENTIONAL_LABEL = ''intentional''"
| "adjudication_value OUT_OF_SCOPE_LABEL = ''out_of_scope''"
| "adjudication_value THEORETICAL = ''theoretical''"
| "adjudication_value UNKNOWN = ''unknown''"

definition all_adjudications :: "adjudication list" where
  "all_adjudications = [ACTIONABLE, DESIGN_TRADE_OFF, INTENTIONAL_LABEL, OUT_OF_SCOPE_LABEL, THEORETICAL, UNKNOWN]"

definition adjudication_of :: "string \<Rightarrow> adjudication option" where
  "adjudication_of s = find (\<lambda>a. adjudication_value a = s) all_adjudications"

fun intent_label :: "intent_kind \<Rightarrow> adjudication" where
  "intent_label FAIL_STOP = INTENTIONAL_LABEL"
| "intent_label INTENTIONAL = INTENTIONAL_LABEL"
| "intent_label TRADE_OFF = DESIGN_TRADE_OFF"
| "intent_label BOUNDED_RETRY = DESIGN_TRADE_OFF"
| "intent_label OUT_OF_SCOPE = OUT_OF_SCOPE_LABEL"

fun label_priority :: "adjudication \<Rightarrow> nat" where
  "label_priority INTENTIONAL_LABEL = 0"
| "label_priority OUT_OF_SCOPE_LABEL = 1"
| "label_priority DESIGN_TRADE_OFF = 2"
| "label_priority _ = 99"

definition patch_risk_label :: string where
  "patch_risk_label = ''regression_under_persistent_error''"

definition unreachable_values :: "string list" where
  "unreachable_values = [''low'', ''unreachable'', ''rare'', ''unknown-trigger'']"

text \<open>What adjudication reads of a finding, also \<open>_SuggestionView\<close>.\<close>

record finding_view =
  fv_rule :: string
  fv_file :: string
  fv_line :: int
  fv_metadata :: attributes

section \<open>The intent memory\<close>

record memory_entry =
  me_label :: adjudication
  me_reason :: string
  me_source :: string
  me_path :: string
  me_rule :: string

type_synonym memory_store = "memory_entry list"

definition entry_matches :: "finding_view \<Rightarrow> memory_entry \<Rightarrow> bool" where
  "entry_matches f e =
     (if me_rule e \<noteq> [] \<and> fv_rule f \<noteq> me_rule e then False
      else if me_path e \<noteq> [] then fnmatch (intent_path (fv_file f)) (me_path e) else True)"

definition memory_match :: "memory_store \<Rightarrow> finding_view \<Rightarrow> memory_entry option" where
  "memory_match m f = find (entry_matches f) m"

definition same_entry :: "memory_entry \<Rightarrow> memory_entry \<Rightarrow> bool" where
  "same_entry a b = (me_label a = me_label b \<and> me_path a = me_path b \<and> me_rule a = me_rule b \<and> me_source a = me_source b)"

definition with_entry :: "memory_entry \<Rightarrow> memory_store \<Rightarrow> memory_store" where
  "with_entry e m = (if list_ex (\<lambda>x. same_entry x e) m then m else m @ [e])"

definition memory_version :: string where
  "memory_version = ''smartbench.intent/v1''"

definition text_item :: "string \<Rightarrow> string \<Rightarrow> attributes" where
  "text_item key v = (if v \<noteq> [] then [(key, PStr v)] else [])"

definition entry_to_dict :: "memory_entry \<Rightarrow> pyval" where
  "entry_to_dict e = PDict ((''label'', PStr (adjudication_value (me_label e))) #
     text_item ''path'' (me_path e) @ text_item ''rule_id'' (me_rule e) @
     text_item ''reason'' (me_reason e) @ text_item ''source'' (me_source e))"

definition memory_to_document :: "memory_store \<Rightarrow> pyval" where
  "memory_to_document m =
     PDict [(''version'', PStr memory_version), (''entries'', PList (map entry_to_dict m))]"

definition entry_of_dict :: "pyval \<Rightarrow> memory_entry option" where
  "entry_of_dict v =
     (case v of
        PDict d \<Rightarrow>
          (case adjudication_of (strip (attr_str [] d ''label'')) of
             None \<Rightarrow> None
           | Some label \<Rightarrow> Some \<lparr>me_label = label, me_reason = strip (attr_str [] d ''reason''),
               me_source = strip (attr_str [] d ''source''), me_path = strip (attr_str [] d ''path''),
               me_rule = strip (attr_str [] d ''rule_id'')\<rparr>)
      | _ \<Rightarrow> None)"

definition memory_from_document :: "pyval \<Rightarrow> memory_store" where
  "memory_from_document v =
     (case v of
        PDict d \<Rightarrow>
          (if dict_get d ''version'' \<noteq> Some (PStr memory_version) then []
           else (case dict_get d ''entries'' of Some (PList raw) \<Rightarrow> List.map_filter entry_of_dict raw | _ \<Rightarrow> []))
      | _ \<Rightarrow> [])"

definition memory_entry_for :: "memory_store \<Rightarrow> string \<Rightarrow> string \<Rightarrow> memory_entry option" where
  "memory_entry_for m rule file =
     find (\<lambda>e. \<not> (me_rule e \<noteq> [] \<and> me_rule e \<noteq> rule) \<and>
               \<not> (me_path e \<noteq> [] \<and> \<not> fnmatch (intent_path file) (me_path e))) m"

definition entry_fields :: "string list" where
  "entry_fields = [''label'', ''path'', ''rule_id'', ''reason'', ''source'']"

definition entry_errors :: "nat \<Rightarrow> pyval \<Rightarrow> string list" where
  "entry_errors index v =
     (let prefix = ''entries['' @ str_of_nat index @ '']'' in
      case v of
        PDict d \<Rightarrow>
          (let unknown = sorted_set (filter (\<lambda>k. k \<notin> set entry_fields) (dict_keys d)) in
           (if unknown \<noteq> [] then [prefix @ '' has unknown fields: '' @ join '', '' unknown] else []) @
           (if adjudication_of (attr_str [] d ''label'') = None
            then [prefix @ ''.label must be one of '' @ join '', '' (map adjudication_value all_adjudications)] else []))
      | _ \<Rightarrow> [prefix @ '' must be a mapping''])"

definition validate_memory :: "pyval \<Rightarrow> string list" where
  "validate_memory v =
     (case v of
        PDict d \<Rightarrow>
          (if dict_get d ''version'' \<noteq> Some (PStr memory_version)
           then [''version must be '' @ repr_str memory_version @ '', got '' @
             py_repr (dict_get_or PNone d ''version'')] else []) @
          (case dict_get d ''entries'' of
             Some (PList entries) \<Rightarrow> concat (map (\<lambda>(i, e). entry_errors i e) (enumerate 0 entries))
           | _ \<Rightarrow> [''entries must be a list''])
      | _ \<Rightarrow> [''document must be a mapping''])"

section \<open>Decisions\<close>

record decision =
  dn_index :: nat
  dn_rule :: string
  dn_file :: string
  dn_line :: int
  dn_label :: adjudication
  dn_reasons :: "string list"
  dn_basis :: "evidence_ref list"

definition decision_to_dict :: "decision \<Rightarrow> pyval" where
  "decision_to_dict d = PDict
     [(''index'', PInt (int (dn_index d))), (''rule_id'', PStr (dn_rule d)), (''file_path'', PStr (dn_file d)),
      (''line_start'', PInt (dn_line d)), (''adjudication'', PStr (adjudication_value (dn_label d))),
      (''reasons'', PList (map PStr (dn_reasons d))), (''basis'', PList (map ref_to_dict (dn_basis d)))]"

definition decide :: "nat \<Rightarrow> finding_view \<Rightarrow> adjudication \<Rightarrow> string list \<Rightarrow> evidence_ref list \<Rightarrow> decision" where
  "decide index f label reasons basis =
     \<lparr>dn_index = index, dn_rule = fv_rule f, dn_file = fv_file f, dn_line = fv_line f, dn_label = label,
      dn_reasons = reasons, dn_basis = basis\<rparr>"

definition strongest_intent :: "intent_fact list \<Rightarrow> intent_fact" where
  "strongest_intent facts =
     hd (sort_key (\<lambda>f. (label_priority (intent_label (if_kind f)), er_line_start (if_location f))) facts)"

definition label_from_intent :: "intent_fact list \<Rightarrow> adjudication \<times> intent_fact \<times> string" where
  "label_from_intent facts =
     (let f = strongest_intent facts in
      (intent_label (if_kind f), f,
       ''repository text documents intent ``'' @ intent_kind_value (if_kind f) @ ''``: '' @ if_statement f))"

definition adjudicate_one :: "intent_pack \<Rightarrow> memory_store \<Rightarrow> nat \<Rightarrow> finding_view \<Rightarrow> decision" where
  "adjudicate_one pack memory index f =
     (case memory_match memory f of
        Some e \<Rightarrow> decide index f (me_label e)
          ((''declared in user intent memory'' @ (if me_reason e \<noteq> [] then '': '' @ me_reason e else [])) #
           (if me_source e \<noteq> [] then [''source: '' @ me_source e] else [])) []
      | None \<Rightarrow>
          (let facts = facts_for_file pack (fv_file f) in
           if facts \<noteq> []
           then (case label_from_intent facts of (label, chosen, reason) \<Rightarrow>
             decide index f label [reason] [if_location chosen])
           else if attr_str [] (fv_metadata f) ''patch_risk'' = patch_risk_label
           then decide index f DESIGN_TRADE_OFF
             [''the proposed change retries under the same failure that triggers the defect''] []
           else (let reachability = lower (attr_str [] (fv_metadata f) ''reachability'') in
             if reachability \<in> set unreachable_values
             then decide index f THEORETICAL
               [''trigger reachability is '' @ reachability @ ''; confirm it is reachable in normal operation''] []
             else decide index f ACTIONABLE [] [])))"

definition adjudicate :: "intent_pack \<Rightarrow> memory_store \<Rightarrow> finding_view list \<Rightarrow> decision list" where
  "adjudicate pack memory fs = map (\<lambda>(i, f). adjudicate_one pack memory i f) (enumerate 0 fs)"

section \<open>Attaching labels\<close>

definition annotate :: "decision \<Rightarrow> attributes \<Rightarrow> attributes" where
  "annotate d a =
     (let a1 = dict_set ''adjudication'' (PStr (adjudication_value (dn_label d))) a;
          a2 = (if dn_reasons d \<noteq> [] then dict_set ''adjudication_reasons'' (PList (map PStr (dn_reasons d))) a1 else a1)
      in if dn_basis d \<noteq> [] then dict_set ''adjudication_basis'' (PList (map ref_to_dict (dn_basis d))) a2 else a2)"

text \<open>The findings after the loop that writes their metadata, and the decisions returned.\<close>

definition apply_adjudications ::
  "intent_pack \<Rightarrow> memory_store \<Rightarrow> finding_view list \<Rightarrow> finding_view list \<times> decision list" where
  "apply_adjudications pack memory fs =
     (let ds = adjudicate pack memory fs in
      (map (\<lambda>(f, d). f\<lparr>fv_metadata := annotate d (fv_metadata f)\<rparr>) (zip fs ds), ds))"

fun adjudication_counts :: "(string, nat) dict \<Rightarrow> decision list \<Rightarrow> (string, nat) dict" where
  "adjudication_counts counts [] = counts"
| "adjudication_counts counts (d # ds) =
     (let v = adjudication_value (dn_label d)
      in adjudication_counts (dict_set v (dict_get_or 0 counts v + 1) counts) ds)"

section \<open>Suggestions\<close>

text \<open>\<open>d.get(k) or rest\<close>.\<close>

definition get_or_else :: "attributes \<Rightarrow> string \<Rightarrow> pyval \<Rightarrow> pyval" where
  "get_or_else d k rest = (case dict_get d k of None \<Rightarrow> rest | Some v \<Rightarrow> if py_truth v then v else rest)"

text \<open>\<open>int(v)\<close> with a type or value error caught.\<close>

definition int_or_zero :: "pyval \<Rightarrow> int" where
  "int_or_zero v = (case py_int v of Inl _ \<Rightarrow> 0 | Inr i \<Rightarrow> i)"

definition suggestion_view :: "attributes \<Rightarrow> finding_view" where
  "suggestion_view s =
     (let place = (case dict_get s ''location'' of
            Some (PDict l) \<Rightarrow>
              (py_str (get_or_else l ''file_path'' (get_or_else l ''file'' (PStr []))),
               int_or_zero (get_or_else l ''line_start'' (get_or_else l ''line'' (PInt 0))))
          | Some (PStr t) \<Rightarrow>
              (if CHR '':'' \<in> set t
               then (before_last (CHR '':'') t, int_or_zero (PStr (after_last (CHR '':'') t))) else ([], 0))
          | _ \<Rightarrow> ([], 0))
      in \<lparr>fv_rule = py_str (get_or_else s ''rule_id'' (PStr [])), fv_file = fst place, fv_line = snd place,
          fv_metadata = []\<rparr>)"

definition mapping_of :: "pyval \<Rightarrow> attributes option" where
  "mapping_of v = (case v of PDict d \<Rightarrow> Some d | _ \<Rightarrow> None)"

text \<open>
  The decisions belong to the mappings among the suggestions, but they are paired with the
  suggestions themselves.
\<close>

definition adjudicate_suggestions ::
  "intent_pack \<Rightarrow> memory_store \<Rightarrow> pyval list \<Rightarrow> pyval list \<times> decision list" where
  "adjudicate_suggestions pack memory ss =
     (let ds = adjudicate pack memory (map suggestion_view (List.map_filter mapping_of ss)) in
      (map (\<lambda>(s, d). case s of PDict a \<Rightarrow> PDict (annotate d a) | _ \<Rightarrow> s) (zip ss ds) @ drop (length ds) ss, ds))"

section \<open>Facts about the memory\<close>

lemma adjudication_of_value [simp]: "adjudication_of (adjudication_value a) = Some a"
  by (cases a) (simp_all add: adjudication_of_def all_adjudications_def)

lemma adjudication_of_SomeD: "adjudication_of s = Some a \<Longrightarrow> s = adjudication_value a"
  by (auto simp: adjudication_of_def find_Some_iff)

lemma strip_adjudication_value [simp]: "strip (adjudication_value a) = adjudication_value a"
  by (cases a; simp only: adjudication_value.simps; code_simp)

definition trimmed :: "memory_entry \<Rightarrow> bool" where
  "trimmed e \<longleftrightarrow> strip (me_reason e) = me_reason e \<and> strip (me_source e) = me_source e \<and>
     strip (me_path e) = me_path e \<and> strip (me_rule e) = me_rule e"

lemma text_item_get:
  "dict_get (text_item k v @ d) k' = (if k' = k \<and> v \<noteq> [] then Some (PStr v) else dict_get d k')"
  by (auto simp: text_item_def dict_get_Cons)

lemma dict_get_text_item: "dict_get (text_item k v) k' = (if k' = k \<and> v \<noteq> [] then Some (PStr v) else None)"
  using text_item_get[of k v "[]" k'] by simp

text \<open>What loading makes of the texts of an entry.\<close>

definition trim_entry :: "memory_entry \<Rightarrow> memory_entry" where
  "trim_entry e = e\<lparr>me_reason := strip (me_reason e), me_source := strip (me_source e),
     me_path := strip (me_path e), me_rule := strip (me_rule e)\<rparr>"

lemma trim_entry_trimmed: "trim_entry e = e \<longleftrightarrow> trimmed e"
  by (cases e) (auto simp: trim_entry_def trimmed_def)

lemma entry_roundtrip: "entry_of_dict (entry_to_dict e) = Some (trim_entry e)"
  by (cases e) (auto simp: entry_of_dict_def entry_to_dict_def attr_str_def dict_get_Cons text_item_get dict_get_text_item
      py_str_def trim_entry_def)

lemma map_filter_all: "(\<And>x. f (g x) = Some (h x)) \<Longrightarrow> List.map_filter f (map g xs) = map h xs"
  by (induction xs) (simp_all add: List.map_filter_simps)

lemma entry_errors_encoded: "entry_errors i (entry_to_dict e) = []"
proof -
  have "adjudication_of (attr_str [] ((''label'', PStr (adjudication_value (me_label e))) # d) ''label'') = Some (me_label e)" for d
    by (simp add: attr_str_def dict_get_Cons py_str_def)
  moreover have "filter (\<lambda>k. k \<notin> set entry_fields) (dict_keys ((''label'', PStr (adjudication_value (me_label e))) #
     text_item ''path'' (me_path e) @ text_item ''rule_id'' (me_rule e) @
     text_item ''reason'' (me_reason e) @ text_item ''source'' (me_source e))) = []"
    by (auto simp: dict_keys_def text_item_def entry_fields_def)
  ultimately show ?thesis by (simp add: entry_errors_def entry_to_dict_def sorted_set_def Let_def)
qed

lemma entry_valid_loaded: "entry_errors i v = [] \<Longrightarrow> entry_of_dict v \<noteq> None"
  by (auto simp: entry_errors_def entry_of_dict_def Let_def split: pyval.splits if_splits option.splits
      dest!: adjudication_of_SomeD)

lemma length_map_filter: "(\<And>x. x \<in> set xs \<Longrightarrow> f x \<noteq> None) \<Longrightarrow> length (List.map_filter f xs) = length xs"
proof (induction xs)
  case (Cons x xs)
  then obtain y where "f x = Some y" by force
  with Cons show ?case by (simp add: List.map_filter_simps)
qed (simp add: List.map_filter_simps)

text \<open>The lookup by location is the lookup of a finding at that location.\<close>

lemma memory_lookups_agree:
  "memory_entry_for m rule file =
     memory_match m \<lparr>fv_rule = rule, fv_file = file, fv_line = line, fv_metadata = meta\<rparr>"
proof -
  have "entry_matches \<lparr>fv_rule = rule, fv_file = file, fv_line = line, fv_metadata = meta\<rparr> =
      (\<lambda>e. \<not> (me_rule e \<noteq> [] \<and> me_rule e \<noteq> rule) \<and> \<not> (me_path e \<noteq> [] \<and> \<not> fnmatch (intent_path file) (me_path e)))"
    by (intro ext) (auto simp: entry_matches_def)
  then show ?thesis by (simp add: memory_entry_for_def memory_match_def)
qed

text \<open>Paths lose their leading dots before they are matched, patterns do not: such a pattern matches nothing.\<close>

lemma dotted_pattern_never_matches:
  assumes "me_path e = c # p" "c = CHR ''.'' \<or> c = CHR ''/''"
  shows "\<not> entry_matches f e"
proof
  assume "entry_matches f e"
  with assms(1) have "fnmatch (intent_path (fv_file f)) (c # p)" by (auto simp: entry_matches_def split: if_splits)
  from fnmatch_literal_first[OF _ this] assms(2) obtain t where "intent_path (fv_file f) = c # t" by auto
  with assms(2) show False
    using hd_dropWhile[of "\<lambda>c. c = CHR ''.'' \<or> c = CHR ''/''" "to_slashes (fv_file f)"]
    by (auto simp: intent_path_def lstrip_dots_def)
qed

section \<open>Facts about decisions\<close>

lemma strongest_intent_in: "facts \<noteq> [] \<Longrightarrow> strongest_intent facts \<in> set facts"
  unfolding strongest_intent_def by (metis hd_in_set set_sort set_empty)

lemma strongest_intent_least:
  assumes "g \<in> set facts"
  shows "label_priority (intent_label (if_kind (strongest_intent facts))) \<le> label_priority (intent_label (if_kind g))"
proof -
  let ?k = "\<lambda>f. (label_priority (intent_label (if_kind f)), er_line_start (if_location f))"
  have s: "sorted (map ?k (sort_key ?k facts))" by simp
  from assms have "g \<in> set (sort_key ?k facts)" by simp
  then obtain x xs where xs: "sort_key ?k facts = x # xs" by (cases "sort_key ?k facts") auto
  with s \<open>g \<in> set (sort_key ?k facts)\<close> have "?k x \<le> ?k g" by auto
  with xs show ?thesis by (auto simp: strongest_intent_def)
qed

text \<open>
  What a label cites: the reasons given with it and the places they stand at. A memory entry is cited with
  its reason and source, an intent fact with its statement and place, a patch risk and a reachability by
  name; the default gives no reason.
\<close>

definition documented_label :: "intent_pack \<Rightarrow> finding_view \<Rightarrow> decision \<Rightarrow> bool" where
  "documented_label pack f d \<longleftrightarrow>
     (\<exists>g \<in> set (facts_for_file pack (fv_file f)). dn_label d = intent_label (if_kind g) \<and> dn_basis d = [if_location g] \<and>
        dn_reasons d = [''repository text documents intent ``'' @ intent_kind_value (if_kind g) @ ''``: '' @ if_statement g] \<and>
        (\<forall>h \<in> set (facts_for_file pack (fv_file f)). label_priority (dn_label d) \<le> label_priority (intent_label (if_kind h))))"

definition declared_label :: "memory_store \<Rightarrow> finding_view \<Rightarrow> decision \<Rightarrow> bool" where
  "declared_label memory f d \<longleftrightarrow>
     (\<exists>e \<in> set memory. entry_matches f e \<and> dn_label d = me_label e \<and> dn_basis d = [] \<and>
        dn_reasons d = (''declared in user intent memory'' @ (if me_reason e = [] then [] else '': '' @ me_reason e)) #
          (if me_source e = [] then [] else [''source: '' @ me_source e]))"

definition undocumented_label :: "finding_view \<Rightarrow> decision \<Rightarrow> bool" where
  "undocumented_label f d \<longleftrightarrow> dn_basis d = [] \<and>
     (let risk = attr_str [] (fv_metadata f) ''patch_risk''; reachability = lower (attr_str [] (fv_metadata f) ''reachability'') in
      if risk = patch_risk_label
      then dn_label d = DESIGN_TRADE_OFF \<and>
        dn_reasons d = [''the proposed change retries under the same failure that triggers the defect'']
      else if reachability \<in> set unreachable_values
      then dn_label d = THEORETICAL \<and>
        dn_reasons d = [''trigger reachability is '' @ reachability @ ''; confirm it is reachable in normal operation'']
      else dn_label d = ACTIONABLE \<and> dn_reasons d = [])"

definition label_cited :: "intent_pack \<Rightarrow> memory_store \<Rightarrow> finding_view \<Rightarrow> decision \<Rightarrow> bool" where
  "label_cited pack memory f d \<longleftrightarrow>
     (if list_ex (entry_matches f) memory then declared_label memory f d
      else if facts_for_file pack (fv_file f) \<noteq> [] then documented_label pack f d
      else undocumented_label f d)"

lemma adjudicate_one_cited: "label_cited pack memory f (adjudicate_one pack memory i f)"
proof (cases "memory_match memory f")
  case (Some e)
  then have e: "e \<in> set memory" "entry_matches f e" by (auto simp: memory_match_def find_Some_iff)
  then have "declared_label memory f (adjudicate_one pack memory i f)"
    using Some by (auto simp: declared_label_def adjudicate_one_def decide_def)
  with e show ?thesis by (auto simp: label_cited_def list_ex_iff)
next
  case None
  then have none: "\<not> list_ex (entry_matches f) memory" by (auto simp: memory_match_def find_None_iff list_ex_iff)
  show ?thesis
  proof (cases "facts_for_file pack (fv_file f) = []")
    case True
    with None none show ?thesis by (simp add: label_cited_def undocumented_label_def adjudicate_one_def decide_def Let_def)
  next
    case False
    then have "documented_label pack f (adjudicate_one pack memory i f)"
      using None strongest_intent_in strongest_intent_least
      by (auto simp: documented_label_def adjudicate_one_def label_from_intent_def decide_def Let_def)
    with none False show ?thesis by (simp add: label_cited_def)
  qed
qed

section \<open>Properties\<close>

text \<open>
  C32: Adjudication drops no finding and invents no intent: there is one decision per finding, in
  order and with its rule and location. A finding that a memory entry matches has the label of such an
  entry and cites its reason and source; else one in a file with documented intent has the label of the
  highest rank documented there and cites the statement and its place; else a declared patch risk or a
  declared reachability decides, and is named in the reason. Without any of these the finding is
  actionable and no reason is given, where the docstrings of both modules promise the label unknown
  (\<open>unknown_only_from_memory\<close>).
\<close>

theorem adjudication_cited:
  assumes "i < length fs"
  shows "length (adjudicate pack memory fs) = length fs \<and> dn_index (adjudicate pack memory fs ! i) = i \<and>
    dn_rule (adjudicate pack memory fs ! i) = fv_rule (fs ! i) \<and> dn_file (adjudicate pack memory fs ! i) = fv_file (fs ! i) \<and>
    dn_line (adjudicate pack memory fs ! i) = fv_line (fs ! i) \<and>
    label_cited pack memory (fs ! i) (adjudicate pack memory fs ! i)"
proof -
  have "adjudicate pack memory fs ! i = adjudicate_one pack memory i (fs ! i)"
    using assms by (simp add: adjudicate_def nth_enumerate_eq)
  moreover have "dn_index (adjudicate_one pack memory i f) = i \<and> dn_rule (adjudicate_one pack memory i f) = fv_rule f \<and>
      dn_file (adjudicate_one pack memory i f) = fv_file f \<and> dn_line (adjudicate_one pack memory i f) = fv_line f" for f
    by (simp add: adjudicate_one_def decide_def label_from_intent_def Let_def split: option.splits)
  ultimately show ?thesis by (simp add: adjudicate_one_cited adjudicate_def)
qed

definition retry_view :: finding_view where
  "retry_view = \<lparr>fv_rule = ''retry'', fv_file = ''./a.go'', fv_line = 3,
     fv_metadata = [(''patch_risk'', PStr patch_risk_label)]\<rparr>"

theorem adjudication_cited_witness:
  "dn_label (adjudicate empty_pack [] [retry_view] ! 0) = DESIGN_TRADE_OFF \<and>
   label_cited empty_pack [] retry_view (adjudicate empty_pack [] [retry_view] ! 0)"
proof -
  have "dn_label (adjudicate empty_pack [] [retry_view] ! 0) = DESIGN_TRADE_OFF" by code_simp
  with adjudication_cited[of 0 "[retry_view]" empty_pack "[]"] show ?thesis by simp
qed

text \<open>
  The label unknown is never given for lack of a basis, only when a memory entry declares it.
\<close>

theorem unknown_only_from_memory:
  "(dn_label (adjudicate_one pack memory i f) = UNKNOWN \<longrightarrow> (\<exists>e \<in> set memory. me_label e = UNKNOWN)) \<and>
   dn_label (adjudicate_one empty_pack [] i \<lparr>fv_rule = r, fv_file = p, fv_line = n, fv_metadata = []\<rparr>) = ACTIONABLE"
proof -
  have "intent_label k \<noteq> UNKNOWN" for k by (cases k) simp_all
  then have "documented_label pack f d \<Longrightarrow> dn_label d \<noteq> UNKNOWN" for d by (metis documented_label_def)
  moreover have "undocumented_label f d \<Longrightarrow> dn_label d \<noteq> UNKNOWN" for d
    by (auto simp: undocumented_label_def Let_def split: if_splits)
  ultimately have others: "documented_label pack f d \<Longrightarrow> dn_label d \<noteq> UNKNOWN" "undocumented_label f d \<Longrightarrow> dn_label d \<noteq> UNKNOWN" for d
    by blast+
  have "declared_label memory f d \<Longrightarrow> \<exists>e \<in> set memory. me_label e = dn_label d" for d
    unfolding declared_label_def by (elim bexE conjE) (rule bexI, rule sym)
  then have "dn_label (adjudicate_one pack memory i f) = UNKNOWN \<Longrightarrow> (\<exists>e \<in> set memory. me_label e = UNKNOWN)"
    using adjudicate_one_cited[of pack memory f i] others unfolding label_cited_def by metis
  moreover have "undocumented_label v (adjudicate_one empty_pack [] i v)" for v
    using adjudicate_one_cited[of empty_pack "[]" v i] by (simp add: label_cited_def facts_for_file_def empty_pack_def)
  moreover have "lower [] \<notin> set unreachable_values" "patch_risk_label \<noteq> []" by code_simp+
  ultimately show ?thesis by (auto simp: undocumented_label_def attr_str_def Let_def)
qed

text \<open>
  C33: The intent memory survives its document form but for surrounding space: written and read back, it
  has the same entries in the same order with their reason, source, path and rule trimmed, so that it is
  the same memory exactly when they were trimmed before. The written document passes its own validator.
\<close>

theorem memory_roundtrip:
  "memory_from_document (memory_to_document m) = map trim_entry m \<and>
   (memory_from_document (memory_to_document m) = m \<longleftrightarrow> list_all trimmed m) \<and>
   validate_memory (memory_to_document m) = []"
proof -
  have read: "memory_from_document (memory_to_document m) = map trim_entry m"
    by (simp add: memory_from_document_def memory_to_document_def dict_get_Cons map_filter_all entry_roundtrip)
  have "map trim_entry m = m \<longleftrightarrow> list_all trimmed m"
    by (induction m) (simp_all add: trim_entry_trimmed)
  moreover have "entry_errors i x = []" if "(i, x) \<in> set (enumerate 0 (map entry_to_dict m))" for i x
  proof -
    from that have "x \<in> entry_to_dict ` set m" by (auto simp: in_set_enumerate_eq)
    then show ?thesis by (auto simp: entry_errors_encoded)
  qed
  then have "validate_memory (memory_to_document m) = []"
    by (auto simp: validate_memory_def memory_to_document_def dict_get_Cons)
  ultimately show ?thesis unfolding read by simp
qed

definition vendor_entry :: memory_entry where
  "vendor_entry = \<lparr>me_label = OUT_OF_SCOPE_LABEL, me_reason = ''generated'', me_source = [], me_path = ''gen/*'', me_rule = []\<rparr>"

text \<open>
  The command line adds an entry with its texts as typed. One with surrounding space is another entry after
  the next load, so that adding it again is not recognised as a duplicate.
\<close>

theorem untrimmed_entry_added_again:
  "length (with_entry (vendor_entry\<lparr>me_source := '' note''\<rparr>)
      (memory_from_document (memory_to_document [vendor_entry\<lparr>me_source := '' note''\<rparr>]))) = 2 \<and>
   length (with_entry (vendor_entry\<lparr>me_source := ''note''\<rparr>)
      (memory_from_document (memory_to_document [vendor_entry\<lparr>me_source := ''note''\<rparr>]))) = 1"
  by code_simp

text \<open>
  A memory document that the validator accepts is loaded in full: every entry of the document
  becomes an entry of the store.
\<close>

theorem valid_memory_loaded:
  assumes "validate_memory doc = []"
  shows "\<exists>d entries. doc = PDict d \<and> dict_get d ''entries'' = Some (PList entries) \<and>
    length (memory_from_document doc) = length entries"
proof -
  from assms obtain d where doc: "doc = PDict d" by (auto simp: validate_memory_def split: pyval.splits)
  from assms[unfolded doc] obtain entries where entries: "dict_get d ''entries'' = Some (PList entries)"
    by (auto simp: validate_memory_def split: pyval.splits option.splits)
  from assms[unfolded doc] entries have d: "doc = PDict d" "dict_get d ''entries'' = Some (PList entries)"
    "dict_get d ''version'' = Some (PStr memory_version)"
    "\<And>i x. (i, x) \<in> set (enumerate 0 entries) \<Longrightarrow> entry_errors i x = []"
    by (auto simp: validate_memory_def doc split: if_splits)
  have "entry_of_dict x \<noteq> None" if "x \<in> set entries" for x
  proof -
    from that obtain n where "n < length entries" "x = entries ! n" by (auto simp: in_set_conv_nth)
    then have "(n, x) \<in> set (enumerate 0 entries)" by (auto simp: in_set_enumerate_eq)
    from entry_valid_loaded[OF d(4)[OF this]] show ?thesis .
  qed
  with d(1-3) show ?thesis by (auto simp: memory_from_document_def length_map_filter)
qed

theorem valid_memory_loaded_witness:
  "\<exists>d entries. memory_to_document [vendor_entry] = PDict d \<and> dict_get d ''entries'' = Some (PList entries) \<and>
     length (memory_from_document (memory_to_document [vendor_entry])) = length entries"
proof (rule valid_memory_loaded)
  show "validate_memory (memory_to_document [vendor_entry]) = []" by code_simp
qed

text \<open>
  When a suggestion that is no mapping comes first, every mapping after it is labelled with the
  decision made for the mapping that follows it, and the last one is left without a label.
\<close>

theorem suggestion_labels_shift:
  fixes pack :: intent_pack and memory :: memory_store
  assumes "mapping_of s = None" "as \<noteq> []"
  defines "ds \<equiv> adjudicate pack memory (map suggestion_view as)"
  shows "fst (adjudicate_suggestions pack memory (s # map PDict as)) =
    s # map (\<lambda>(a, d). PDict (annotate d a)) (zip as (tl ds)) @ [PDict (last as)]"
proof -
  have f: "List.map_filter mapping_of (s # map PDict as) = as"
    using assms(1) by (simp add: List.map_filter_simps map_filter_all[where h = "\<lambda>x. x"] mapping_of_def)
  have len: "length ds = length as" by (simp add: ds_def adjudicate_def)
  with assms(2) obtain d es where ds: "ds = d # es" by (cases ds) auto
  have es: "length es = length as - 1" using ds len by simp
  have keep: "(case s of PDict a \<Rightarrow> PDict (annotate d a) | _ \<Rightarrow> s) = s"
    using assms(1) by (auto simp: mapping_of_def split: pyval.splits)
  have zip: "map (\<lambda>(s, d). case s of PDict a \<Rightarrow> PDict (annotate d a) | _ \<Rightarrow> s) (zip (map PDict as) es) =
      map (\<lambda>(a, d). PDict (annotate d a)) (zip as es)"
    by (simp add: zip_map1 case_prod_unfold)
  have "drop (length as) (s # map PDict as) = [PDict (last as)]"
    using assms(2) by (induction as arbitrary: s) auto
  with f keep zip len show ?thesis
    by (simp add: adjudicate_suggestions_def Let_def ds_def[symmetric]) (simp add: ds)
qed

theorem suggestion_labels_shift_witness:
  "fst (adjudicate_suggestions empty_pack [vendor_entry]
      [PStr ''note'', PDict [(''location'', PStr ''gen/x.go:3'')], PDict [(''location'', PStr ''a.go:4'')]]) =
   [PStr ''note'', PDict [(''location'', PStr ''gen/x.go:3''), (''adjudication'', PStr ''actionable'')],
    PDict [(''location'', PStr ''a.go:4'')]]"
proof -
  let ?a = "[(''location'', PStr ''gen/x.go:3'')]" and ?b = "[(''location'', PStr ''a.go:4'')]"
  have "adjudicate empty_pack [vendor_entry] (map suggestion_view [?a, ?b]) =
      [adjudicate_one empty_pack [vendor_entry] 0 (suggestion_view ?a),
       adjudicate_one empty_pack [vendor_entry] 1 (suggestion_view ?b)]" by (simp add: adjudicate_def)
  moreover have "annotate (adjudicate_one empty_pack [vendor_entry] 1 (suggestion_view ?b)) ?a =
      [(''location'', PStr ''gen/x.go:3''), (''adjudication'', PStr ''actionable'')]" by code_simp
  ultimately show ?thesis
    using suggestion_labels_shift[of "PStr ''note''" "[?a, ?b]" empty_pack "[vendor_entry]"] by (simp add: mapping_of_def)
qed

end
