(* ===== verification/ShardPlan.thy ===== *)
theory ShardPlan
  imports Evidence "HOL-Library.While_Combinator" "HOL-Library.Multiset"
begin

text \<open>
  \<open>sharding/plan.py\<close>: the partition of a repository's files into review shards, by top-level
  directory and with a cap on the number of shards. Small groups are merged into \<open>misc\<close> by a
  \<open>while\<close> loop that need not end: it is a \<open>while_option\<close>, \<open>None\<close> where the code hangs.
\<close>

definition skip_parts :: "string list" where
  "skip_parts = [''.git'', ''.smartbench'', ''.venv'', ''venv'', ''node_modules'', ''__pycache__'',
     ''target'', ''build'', ''dist'']"

record shard =
  sh_id :: string
  sh_files :: "string list"
  sh_reason :: string

definition shard_to_dict :: "shard \<Rightarrow> pyval" where
  "shard_to_dict s = PDict
     [(''shard_id'', PStr (sh_id s)),
      (''files'', PList (map PStr (sh_files s))),
      (''reason'', PStr (sh_reason s))]"

record shard_plan =
  pl_shards :: "shard list"
  pl_total :: nat
  pl_max_files :: nat

definition plan_to_dict :: "shard_plan \<Rightarrow> pyval" where
  "plan_to_dict p = PDict
     [(''shards'', PList (map shard_to_dict (pl_shards p))),
      (''total_files'', PInt (int (pl_total p))),
      (''max_files_per_shard'', PInt (int (pl_max_files p)))]"

section \<open>Files and groups\<close>

text \<open>The \<open>while text.startswith("./")\<close> loop.\<close>

fun strip_dot_slash :: "string \<Rightarrow> string" where
  "strip_dot_slash (a # b # s) =
     (if a = CHR ''.'' \<and> b = CHR ''/'' then strip_dot_slash s else a # b # s)"
| "strip_dot_slash s = s"

definition shard_path :: "string \<Rightarrow> string" where
  "shard_path p = strip_dot_slash (strip (map (\<lambda>c. if code c = 92 then CHR ''/'' else c) p))"

definition path_skipped :: "string \<Rightarrow> bool" where
  "path_skipped p = list_ex (\<lambda>part. part \<in> set skip_parts) (split_on (CHR ''/'') (shard_path p))"

definition group_key :: "string \<Rightarrow> string" where
  "group_key p = (if CHR ''/'' \<in> set p then before_first (CHR ''/'') p else ''root'')"

definition planned_files :: "string list \<Rightarrow> string list" where
  "planned_files files =
     sorted_set (map shard_path (filter (\<lambda>p. shard_path p \<noteq> [] \<and> \<not> path_skipped p) files))"

type_synonym groups = "(string, string list) dict"

definition group_files :: "string list \<Rightarrow> groups" where
  "group_files paths = foldl (\<lambda>d p. dict_append (group_key p) p d) [] paths"

section \<open>Merging small groups\<close>

definition ceil_div :: "nat \<Rightarrow> nat \<Rightarrow> nat" where
  "ceil_div n m = (n + m - 1) div m"

definition chunk_count :: "nat \<Rightarrow> groups \<Rightarrow> nat" where
  "chunk_count m groups = sum_list (map (\<lambda>(name, fs). ceil_div (length fs) m) groups)"

text \<open>\<open>min(merged, key=lambda name: (len(merged[name]), name))\<close>.\<close>

definition smallest_group :: "groups \<Rightarrow> string \<times> string list" where
  "smallest_group groups = hd (sort_key (\<lambda>(name, fs). (length fs, name)) groups)"

definition merge_step :: "groups \<Rightarrow> groups" where
  "merge_step groups =
     (let (name, carried) = smallest_group groups; rest = dict_pop name groups
      in dict_set ''misc'' (dict_get_or [] rest ''misc'' @ carried) rest)"

definition too_many :: "nat \<Rightarrow> nat \<Rightarrow> groups \<Rightarrow> bool" where
  "too_many m cap groups = (cap < chunk_count m groups \<and> 1 < length groups)"

definition merge_groups :: "nat \<Rightarrow> nat \<Rightarrow> groups \<Rightarrow> groups option" where
  "merge_groups m cap groups = while_option (too_many m cap) merge_step groups"

section \<open>The plan\<close>

function chunks_of :: "nat \<Rightarrow> 'a list \<Rightarrow> 'a list list" where
  "chunks_of m xs = (if m = 0 \<or> xs = [] then [] else take m xs # chunks_of m (drop m xs))"
  by pat_completeness auto
termination by (relation "measure (length \<circ> snd)") auto

declare chunks_of.simps [simp del]

definition group_shards :: "nat \<Rightarrow> string \<times> string list \<Rightarrow> shard list" where
  "group_shards m g =
     (let (name, fs) = g; chunks = chunks_of m (sort fs)
      in map (\<lambda>(i, chunk).
           \<lparr>sh_id = (if length chunks = 1 then name else name @ '':'' @ str_of_nat (i + 1)),
            sh_files = chunk,
            sh_reason = (if name = ''misc'' then ''merged-directory'' else ''directory'')\<rparr>)
         (enumerate 0 chunks))"

definition build_shard_plan :: "string list \<Rightarrow> int \<Rightarrow> int \<Rightarrow> shard_plan option" where
  "build_shard_plan files max_files_per_shard max_shards =
     (let m = nat (max 1 max_files_per_shard); cap = nat (max 1 max_shards);
          paths = planned_files files
      in map_option (\<lambda>groups.
           \<lparr>pl_shards = concat (map (group_shards m) (sort_key fst groups)),
            pl_total = length paths, pl_max_files = m\<rparr>)
         (merge_groups m cap (group_files paths)))"

section \<open>Chunks\<close>






section \<open>The groups hold every file once\<close>

definition all_files :: "groups \<Rightarrow> string multiset" where
  "all_files groups = mset (concat (map snd groups))"

lemma all_files_set:
  "all_files (dict_set k (dict_get_or [] d k @ fs) d) = all_files d + mset fs"
  by (induction d) (auto simp: all_files_def dict_set_def dict_get_or_def)

lemma all_files_pop:
  "(k, fs) \<in> set d \<Longrightarrow> distinct (map fst d) \<Longrightarrow> all_files (dict_pop k d) + mset fs = all_files d"
proof (induction d)
  case (Cons x d)
  then show ?case
    by (cases x) (force simp: all_files_def dict_pop_def image_iff add.commute)
qed simp

lemma smallest_group_in: "groups \<noteq> [] \<Longrightarrow> smallest_group groups \<in> set groups"
  unfolding smallest_group_def by (metis hd_in_set set_sort set_empty)

lemma smallest_group_least:
  assumes "(n, fs) \<in> set groups"
  shows "(length (snd (smallest_group groups)), fst (smallest_group groups)) \<le> (length fs, n)"
proof -
  let ?f = "\<lambda>(name, fs). (length (fs :: string list), name :: string)"
  let ?xs = "sort_key ?f groups"
  have "(n, fs) \<in> set ?xs" using assms by simp
  then obtain x xs where xs: "?xs = x # xs" by (cases ?xs) auto
  have "sorted (map ?f ?xs)" by (rule sorted_sort_key)
  then have "?f x \<le> ?f (n, fs)" using \<open>(n, fs) \<in> set ?xs\<close> xs by auto
  with xs show ?thesis by (simp add: smallest_group_def case_prod_unfold)
qed

text \<open>What every step keeps: distinct names, no empty group, the files with their multiplicity.\<close>

definition groups_ok :: "string multiset \<Rightarrow> groups \<Rightarrow> bool" where
  "groups_ok F groups \<longleftrightarrow> distinct (map fst groups) \<and> (\<forall>(n, fs) \<in> set groups. fs \<noteq> []) \<and> all_files groups = F"

lemma set_dict_set: "set (dict_set k v d) \<subseteq> insert (k, v) (set d)"
  by (induction d) (auto simp: dict_set_def)

lemma merge_step_ok:
  assumes "groups_ok F groups" "groups \<noteq> []"
  shows "groups_ok F (merge_step groups)"
proof -
  obtain n fs where s: "smallest_group groups = (n, fs)" by (cases "smallest_group groups")
  then have "(n, fs) \<in> set groups" using smallest_group_in[OF assms(2)] by simp
  moreover define rest where "rest = dict_pop n groups"
  moreover have "distinct (map fst rest)"
    using assms(1) by (simp add: groups_ok_def rest_def dict_pop_def distinct_delete)
  moreover have "set rest \<subseteq> set groups" by (auto simp: rest_def dict_pop_def AList.delete_eq)
  moreover have "merge_step groups = dict_set ''misc'' (dict_get_or [] rest ''misc'' @ fs) rest"
    by (simp add: merge_step_def s rest_def Let_def)
  moreover have "all_files rest + mset fs = all_files groups"
    unfolding rest_def by (rule all_files_pop) (use calculation assms(1) in \<open>auto simp: groups_ok_def\<close>)
  moreover have "fs' \<noteq> []" if "(n', fs') \<in> set (merge_step groups)" for n' fs'
  proof -
    have "(n', fs') \<in> insert (''misc'', dict_get_or [] rest ''misc'' @ fs) (set groups)"
      using that set_dict_set calculation(4,5) by fastforce
    moreover have "fs \<noteq> []" using \<open>(n, fs) \<in> set groups\<close> assms(1) by (auto simp: groups_ok_def)
    ultimately show ?thesis using assms(1) by (auto simp: groups_ok_def)
  qed
  ultimately show ?thesis
    using assms(1) by (auto simp: groups_ok_def all_files_set intro!: distinct_dict_set)
qed

lemma group_files_ok: "groups_ok (mset paths) (group_files paths)"
proof -
  have "groups_ok (all_files d + mset paths) (foldl (\<lambda>d p. dict_append (group_key p) p d) d paths)"
    if "groups_ok (all_files d) d" for d
    using that
  proof (induction paths arbitrary: d)
    case (Cons p paths)
    let ?d = "dict_append (group_key p) p d"
    have f: "all_files ?d = all_files d + {#p#}" by (simp add: dict_append_def all_files_set)
    have "groups_ok (all_files ?d) ?d"
      using Cons.prems set_dict_set[of "group_key p" "dict_get_or [] d (group_key p) @ [p]" d]
      by (auto simp: groups_ok_def dict_append_def intro!: distinct_dict_set)
    from Cons.IH[OF this] f show ?case by (simp add: add.assoc)
  qed simp
  from this[of "[]"] show ?thesis by (simp add: group_files_def groups_ok_def all_files_def)
qed


lemma sum_list_permuted: "mset xs = mset ys \<Longrightarrow> sum_list (map f xs) = sum_list (map f ys)" for f :: "'a \<Rightarrow> nat"
  by (metis mset_map sum_mset_sum_list)



section \<open>Names of groups and ids of shards\<close>







fun decimal_value :: "string \<Rightarrow> nat" where
  "decimal_value [] = 0"
| "decimal_value (c # s) = (code c - 48) * 10 ^ length s + decimal_value s"

lemma decimal_value_snoc: "decimal_value (s @ [c]) = 10 * decimal_value s + (code c - 48)"
  by (induction s) (simp_all add: algebra_simps)

lemma decimal_value_digits: "decimal_value (digits_of n) = n"
proof (induction n rule: digits_of.induct)
  case (1 n)
  then show ?case
    by (subst digits_of.simps) (auto simp: decimal_value_snoc code_def)
qed

lemma str_of_nat_inject [simp]: "str_of_nat a = str_of_nat b \<longleftrightarrow> a = b"
  unfolding str_of_nat_def by (metis decimal_value_digits)







section \<open>When the merging never ends\<close>

lemma while_option_None:
  assumes "P s" "\<And>s. P s \<Longrightarrow> b s \<and> P (c s)"
  shows "while_option b c s = None"
proof (cases "while_option b c s")
  case (Some t)
  have "P t" by (rule while_option_rule[where P = P, OF _ Some assms(1)]) (use assms(2) in blast)
  with assms(2) while_option_stop[OF Some] show ?thesis by blast
qed

lemma while_option_after:
  "(\<And>j. j < k \<Longrightarrow> b ((c ^^ j) s)) \<Longrightarrow> while_option b c s = while_option b c ((c ^^ k) s)"
proof (induction k)
  case (Suc k)
  then have "while_option b c s = while_option b c ((c ^^ k) s)" by simp
  also have "\<dots> = while_option b c ((c ^^ Suc k) s)" using Suc.prems[of k] by (subst while_option_unfold) simp
  finally show ?case .
qed simp

lemma dict_pop_split:
  assumes "distinct (map fst d)" "(k, v) \<in> set d"
  shows "mset d = mset (dict_pop k d @ [(k, v)])"
  using assms
proof (induction d)
  case (Cons x d)
  then show ?case by (cases "x = (k, v)") (force simp: dict_pop_def image_iff)+
qed simp

text \<open>The smallest group is the one pair of least size and name.\<close>

lemma smallest_group_cong:
  assumes "set g = set h" "distinct (map fst g)" "g \<noteq> []"
  shows "smallest_group g = smallest_group h"
proof -
  obtain n fs where g: "smallest_group g = (n, fs)" by (cases "smallest_group g")
  obtain k ks where h: "smallest_group h = (k, ks)" by (cases "smallest_group h")
  have "h \<noteq> []" using assms(1,3) by auto
  then have "(n, fs) \<in> set g" "(k, ks) \<in> set g"
    using smallest_group_in[OF assms(3)] smallest_group_in[of h] g h assms(1) by auto
  moreover from this have "(length fs, n) \<le> (length ks, k)" "(length ks, k) \<le> (length fs, n)"
    using smallest_group_least[of k ks g] smallest_group_least[of n fs h] g h assms(1) by auto
  then have "n = k" by (metis antisym prod.inject)
  ultimately show ?thesis using g h assms(2) by (metis eq_key_imp_eq_value)
qed

text \<open>A step that takes \<open>misc\<close> out puts it back: nothing but the order of the groups changes.\<close>

lemma merge_step_misc:
  assumes "distinct (map fst g)" "g \<noteq> []" "fst (smallest_group g) = ''misc''"
  shows "mset (merge_step g) = mset g \<and> fst (smallest_group (merge_step g)) = ''misc''"
proof -
  obtain fs where s: "smallest_group g = (''misc'', fs)" using assms(3) by (cases "smallest_group g") auto
  have "''misc'' \<notin> set (map fst (dict_pop ''misc'' g))" by (auto simp: dict_pop_def AList.delete_eq)
  then have step: "merge_step g = dict_pop ''misc'' g @ [(''misc'', fs)]"
    by (simp add: merge_step_def s Let_def dict_get_or_notin dict_set_new)
  have perm: "mset g = mset (dict_pop ''misc'' g @ [(''misc'', fs)])"
    using smallest_group_in[OF assms(2)] s by (intro dict_pop_split[OF assms(1)]) simp
  have "set g = set (merge_step g)" unfolding step by (rule mset_eq_setD[OF perm])
  from smallest_group_cong[OF this assms(1,2)] perm s show ?thesis unfolding step by simp
qed

lemma too_many_perm:
  assumes "mset g = mset h"
  shows "too_many m cap g = too_many m cap h"
  using mset_eq_length[OF assms] sum_list_permuted[OF assms, of "\<lambda>(name, fs). ceil_div (length fs) m"]
  by (simp add: too_many_def chunk_count_def)

lemma merge_groups_stuck:
  assumes "groups_ok F g" "too_many m cap g" "fst (smallest_group g) = ''misc''"
  shows "merge_groups m cap g = None"
  unfolding merge_groups_def
proof (rule while_option_None[where P = "\<lambda>g. groups_ok F g \<and> too_many m cap g \<and> fst (smallest_group g) = ''misc''"])
  fix h assume h: "groups_ok F h \<and> too_many m cap h \<and> fst (smallest_group h) = ''misc''"
  then have ne: "h \<noteq> []" by (auto simp: too_many_def)
  have d: "distinct (map fst h)" using h by (simp add: groups_ok_def)
  note step = merge_step_misc[OF d ne]
  show "too_many m cap h \<and> groups_ok F (merge_step h) \<and> too_many m cap (merge_step h) \<and> fst (smallest_group (merge_step h)) = ''misc''"
    using h step too_many_perm[of "merge_step h" h m cap] merge_step_ok[of F h] ne by blast
qed (use assms in blast)

text \<open>Any other step has fewer groups afterwards, or is the one that makes \<open>misc\<close>.\<close>

definition merges_left :: "groups \<Rightarrow> nat" where
  "merges_left g = 2 * length g + (if ''misc'' \<in> set (map fst g) then 0 else 1)"

lemma merge_step_progress:
  assumes "groups_ok F g" "g \<noteq> []" "fst (smallest_group g) \<noteq> ''misc''"
  shows "merges_left (merge_step g) < merges_left g"
proof -
  obtain n fs where s: "smallest_group g = (n, fs)" by (cases "smallest_group g")
  have d: "distinct (map fst g)" using assms(1) by (simp add: groups_ok_def)
  have n: "n \<noteq> ''misc''" "(n, fs) \<in> set g" using assms(3) s smallest_group_in[OF assms(2)] by auto
  let ?rest = "dict_pop n g"
  have rest: "length g = Suc (length ?rest)" "''misc'' \<in> set (map fst ?rest) \<longleftrightarrow> ''misc'' \<in> set (map fst g)"
    using mset_eq_length[OF dict_pop_split[OF d n(2)]] n(1) by (auto simp: dict_pop_def AList.delete_eq)
  have step: "merge_step g = dict_set ''misc'' (dict_get_or [] ?rest ''misc'' @ fs) ?rest"
    by (simp add: merge_step_def s Let_def)
  have old: "length (dict_set k v r) = length r" if "k \<in> set (map fst r)" for k v and r :: groups
    using that by (induction r) (auto simp: dict_set_def)
  have "''misc'' \<in> set (map fst (merge_step g))"
    using dict_keys_set[of "''misc''" "dict_get_or [] ?rest ''misc'' @ fs" ?rest] unfolding step by (simp add: dict_keys_def)
  moreover have "length (merge_step g) = (if ''misc'' \<in> set (map fst g) then length ?rest else Suc (length ?rest))"
    unfolding step using old rest(2) dict_set_new[of "''misc''" ?rest] by auto
  ultimately show ?thesis unfolding merges_left_def using rest(1) by simp
qed

lemma merge_groups_returns:
  assumes "groups_ok F g" "\<not> (\<exists>k. (\<forall>j \<le> k. too_many m cap ((merge_step ^^ j) g)) \<and> fst (smallest_group ((merge_step ^^ k) g)) = ''misc'')"
  shows "\<exists>h. merge_groups m cap g = Some h"
  unfolding merge_groups_def
proof (rule measure_while_option_Some[where f = merges_left and P = "\<lambda>g. groups_ok F g \<and>
      \<not> (\<exists>k. (\<forall>j \<le> k. too_many m cap ((merge_step ^^ j) g)) \<and> fst (smallest_group ((merge_step ^^ k) g)) = ''misc'')"])
  fix h assume h: "groups_ok F h \<and>
      \<not> (\<exists>k. (\<forall>j \<le> k. too_many m cap ((merge_step ^^ j) h)) \<and> fst (smallest_group ((merge_step ^^ k) h)) = ''misc'')"
    and t: "too_many m cap h"
  from t have ne: "h \<noteq> []" by (auto simp: too_many_def)
  have "fst (smallest_group h) \<noteq> ''misc''"
  proof
    assume "fst (smallest_group h) = ''misc''"
    with t have "(\<forall>j \<le> (0 :: nat). too_many m cap ((merge_step ^^ j) h)) \<and> fst (smallest_group ((merge_step ^^ 0) h)) = ''misc''" by simp
    with h show False by blast
  qed
  then have less: "merges_left (merge_step h) < merges_left h" using h ne merge_step_progress by blast
  have "\<not> (\<exists>k. (\<forall>j \<le> k. too_many m cap ((merge_step ^^ j) (merge_step h))) \<and>
      fst (smallest_group ((merge_step ^^ k) (merge_step h))) = ''misc'')"
  proof
    assume "\<exists>k. (\<forall>j \<le> k. too_many m cap ((merge_step ^^ j) (merge_step h))) \<and>
      fst (smallest_group ((merge_step ^^ k) (merge_step h))) = ''misc''"
    then obtain k where k: "\<And>j. j \<le> k \<Longrightarrow> too_many m cap ((merge_step ^^ Suc j) h)" "fst (smallest_group ((merge_step ^^ Suc k) h)) = ''misc''"
      by (auto simp only: funpow_Suc_right o_apply)
    have "too_many m cap ((merge_step ^^ j) h)" if "j \<le> Suc k" for j
      using that t k(1)[of "j - 1"] by (cases j) auto
    with k(2) h show False by blast
  qed
  with h ne less merge_step_ok show "(groups_ok F (merge_step h) \<and>
      \<not> (\<exists>k. (\<forall>j \<le> k. too_many m cap ((merge_step ^^ j) (merge_step h))) \<and> fst (smallest_group ((merge_step ^^ k) (merge_step h))) = ''misc'')) \<and>
      merges_left (merge_step h) < merges_left h" by blast
qed (use assms in blast)

lemma merge_groups_None_iff:
  assumes "groups_ok F g"
  shows "merge_groups m cap g = None \<longleftrightarrow>
    (\<exists>k. (\<forall>j \<le> k. too_many m cap ((merge_step ^^ j) g)) \<and> fst (smallest_group ((merge_step ^^ k) g)) = ''misc'')"
proof
  assume "\<exists>k. (\<forall>j \<le> k. too_many m cap ((merge_step ^^ j) g)) \<and> fst (smallest_group ((merge_step ^^ k) g)) = ''misc''"
  then obtain k where k: "\<And>j. j \<le> k \<Longrightarrow> too_many m cap ((merge_step ^^ j) g)" "fst (smallest_group ((merge_step ^^ k) g)) = ''misc''"
    by blast
  have ok: "j \<le> k \<Longrightarrow> groups_ok F ((merge_step ^^ j) g)" for j
  proof (induction j)
    case (Suc j)
    then have "too_many m cap ((merge_step ^^ j) g)" using k(1) by simp
    with Suc show ?case by (auto simp: too_many_def intro: merge_step_ok)
  qed (use assms in simp)
  have "merge_groups m cap g = merge_groups m cap ((merge_step ^^ k) g)"
    unfolding merge_groups_def by (rule while_option_after) (use k(1) in simp)
  with merge_groups_stuck[OF ok[OF order_refl] k(1)[OF order_refl] k(2)] show "merge_groups m cap g = None" by simp
next
  assume "merge_groups m cap g = None"
  with merge_groups_returns[OF assms, of m cap]
  show "\<exists>k. (\<forall>j \<le> k. too_many m cap ((merge_step ^^ j) g)) \<and> fst (smallest_group ((merge_step ^^ k) g)) = ''misc''" by auto
qed


section \<open>Properties\<close>


lemma planned_without_merge:
  assumes "planned_files files = paths" "\<not> too_many (nat (max 1 m)) (nat (max 1 cap)) (group_files paths)"
  shows "build_shard_plan files m cap = Some \<lparr>pl_shards = concat (map (group_shards (nat (max 1 m))) (sort_key fst (group_files paths))),
    pl_total = length paths, pl_max_files = nat (max 1 m)\<rparr>"
  using assms by (simp add: build_shard_plan_def merge_groups_def while_option_unfold Let_def)


text \<open>
  A directory may be called like a chunk of another one: a file below \<open>a:1\<close> and the first chunk of \<open>a\<close> get
  the same shard id.
\<close>

theorem shard_ids_collide:
  "map_option (map sh_id \<circ> pl_shards) (build_shard_plan [''a/x.py'', ''a/y.py'', ''a:1/z.py''] 1 5) =
     Some [''a:1'', ''a:2'', ''a:1'']"
proof -
  let ?paths = "[''a/x.py'', ''a/y.py'', ''a:1/z.py'']"
  have "planned_files ?paths = ?paths" by code_simp
  moreover have "\<not> too_many (nat (max 1 1)) (nat (max 1 5)) (group_files ?paths)" by code_simp
  moreover have "map sh_id (concat (map (group_shards (nat (max 1 1))) (sort_key fst (group_files ?paths)))) = [''a:1'', ''a:2'', ''a:1'']"
    by code_simp
  ultimately show ?thesis by (simp add: planned_without_merge)
qed

text \<open>
  C37: Planning hangs exactly when, after some number of merges, there are still more chunks than the shard
  cap and more than one group, and \<open>misc\<close> is the smallest group, by size and then by name: it is taken out
  and put back for ever. In every other case planning returns.
\<close>

theorem shard_plan_hangs:
  "build_shard_plan files max_files max_shards = None \<longleftrightarrow>
     (\<exists>k. (\<forall>j \<le> k. too_many (nat (max 1 max_files)) (nat (max 1 max_shards)) ((merge_step ^^ j) (group_files (planned_files files)))) \<and>
        fst (smallest_group ((merge_step ^^ k) (group_files (planned_files files)))) = ''misc'')"
  unfolding merge_groups_None_iff[OF group_files_ok, symmetric] by (simp add: build_shard_plan_def Let_def)

theorem shard_plan_hangs_witness:
  "build_shard_plan [''main.py'', ''a/x.py'', ''a/y.py''] 40 1 = None"
proof -
  have g: "group_files (planned_files [''main.py'', ''a/x.py'', ''a/y.py'']) =
      [(''a'', [''a/x.py'', ''a/y.py'']), (''root'', [''main.py''])]"
    by code_simp
  have one: "merge_step [(''a'', [''a/x.py'', ''a/y.py'']), (''root'', [''main.py''])] =
      [(''a'', [''a/x.py'', ''a/y.py'']), (''misc'', [''main.py''])]" by code_simp
  have "too_many 40 1 [(''a'', [''a/x.py'', ''a/y.py'']), (n, [''main.py''])]" for n
    by (simp add: too_many_def chunk_count_def ceil_div_def)
  then have "\<forall>j \<le> Suc 0. too_many 40 1 ((merge_step ^^ j) [(''a'', [''a/x.py'', ''a/y.py'']), (''root'', [''main.py''])])"
    by (auto simp: le_Suc_eq one)
  moreover have "fst (smallest_group [(''a'', [''a/x.py'', ''a/y.py'']), (''misc'', [''main.py''])]) = ''misc''" by code_simp
  ultimately show ?thesis
    unfolding shard_plan_hangs g by (intro exI[of _ "Suc 0"]) (simp add: one)
qed

end
