(* ===== verification/PyFloat.thy ===== *)
theory PyFloat
  imports PyValue
begin

text \<open>
  Python floats as IEEE doubles: the rounding of a rational number to a double, \<open>float(v)\<close> of the
  values a document holds, comparison, and \<open>round(x, digits)\<close>, which rounds the exact value of a
  double half to even and then to a double again.
\<close>

datatype pyfl = Finite rat | Infinite bool | Not_A_Number

section \<open>Rounding\<close>

definition half_even :: "rat \<Rightarrow> int" where
  "half_even x =
     (let f = \<lfloor>x\<rfloor>; d = x - of_int f
      in if d < 1 / 2 then f else if 1 / 2 < d then f + 1 else if even f then f else f + 1)"

function bit_length :: "int \<Rightarrow> nat" where
  "bit_length n = (if n \<le> 0 then 0 else Suc (bit_length (n div 2)))"
  by pat_completeness auto
termination by (relation "measure nat") auto

declare bit_length.simps [simp del]

text \<open>The exponent of the leading bit of a positive number.\<close>

definition leading_exponent :: "rat \<Rightarrow> int" where
  "leading_exponent a =
     (if 1 \<le> a then int (bit_length \<lfloor>a\<rfloor>) - 1 else - int (bit_length (\<lceil>1 / a\<rceil> - 1)))"

definition power_two :: "int \<Rightarrow> rat" where
  "power_two e = (if 0 \<le> e then 2 ^ nat e else 1 / 2 ^ nat (- e))"

definition max_double_bound :: rat where
  "max_double_bound = 2 ^ 1024 - 2 ^ 970"

definition round_magnitude :: "rat \<Rightarrow> rat" where
  "round_magnitude a =
     (let unit = power_two (max (leading_exponent a - 52) (- 1074)) in of_int (half_even (a / unit)) * unit)"

definition to_double :: "rat \<Rightarrow> pyfl" where
  "to_double q =
     (if q = 0 then Finite 0
      else if max_double_bound \<le> \<bar>q\<bar> then Infinite (q < 0)
      else Finite (if q < 0 then - round_magnitude (- q) else round_magnitude q))"

section \<open>\<open>float(s)\<close>\<close>

text \<open>An underscore must stand between two digits.\<close>

fun drop_underscores :: "bool \<Rightarrow> string \<Rightarrow> string option" where
  "drop_underscores d [] = Some []"
| "drop_underscores d (c # s) =
     (if c = CHR ''_''
      then (if d \<and> (case s of [] \<Rightarrow> False | x # _ \<Rightarrow> is_digit x) then drop_underscores False s else None)
      else map_option ((#) c) (drop_underscores (is_digit c) s))"

definition digits_int :: "string \<Rightarrow> int" where
  "digits_int s = foldl (\<lambda>n c. 10 * n + int (code c - 48)) 0 s"

definition power_ten :: "int \<Rightarrow> rat" where
  "power_ten e = (if 0 \<le> e then 10 ^ nat e else 1 / 10 ^ nat (- e))"

definition exponent_of :: "string \<Rightarrow> int option" where
  "exponent_of s =
     (case s of
        [] \<Rightarrow> Some 0
      | c # t \<Rightarrow>
          (if c = CHR ''e'' \<or> c = CHR ''E''
           then (let (neg, ds) = (case t of [] \<Rightarrow> (False, t) | x # u \<Rightarrow>
                   if x = CHR ''-'' then (True, u) else if x = CHR ''+'' then (False, u) else (False, t))
                 in if ds \<noteq> [] \<and> list_all is_digit ds
                    then Some (if neg then - digits_int ds else digits_int ds) else None)
           else None))"

definition decimal_value :: "string \<Rightarrow> rat option" where
  "decimal_value s =
     (let whole = takeWhile is_digit s; r1 = dropWhile is_digit s;
          (frac, r2) = (case r1 of c # t \<Rightarrow> if c = CHR ''.'' then (takeWhile is_digit t, dropWhile is_digit t) else ([], r1)
                        | [] \<Rightarrow> ([], r1))
      in if whole = [] \<and> frac = [] then None
         else map_option (\<lambda>e. of_int (digits_int (whole @ frac)) * power_ten (e - int (length frac))) (exponent_of r2))"

definition unsigned_float :: "string \<Rightarrow> pyfl option" where
  "unsigned_float s =
     (if lower s = ''inf'' \<or> lower s = ''infinity'' then Some (Infinite False)
      else if lower s = ''nan'' then Some Not_A_Number
      else map_option to_double (decimal_value s))"

definition negate_float :: "pyfl \<Rightarrow> pyfl" where
  "negate_float x = (case x of Finite q \<Rightarrow> Finite (- q) | Infinite n \<Rightarrow> Infinite (\<not> n) | Not_A_Number \<Rightarrow> x)"

definition float_of_str :: "string \<Rightarrow> pyfl option" where
  "float_of_str s =
     (case drop_underscores False (strip s) of
        None \<Rightarrow> None
      | Some [] \<Rightarrow> None
      | Some (c # t) \<Rightarrow>
          (if c = CHR ''-'' then map_option negate_float (unsigned_float t)
           else if c = CHR ''+'' then unsigned_float t else unsigned_float (c # t)))"

fun py_float :: "pyval \<Rightarrow> pyfl checked" where
  "py_float (PFloat q t) = Inr (Finite q)"
| "py_float (PBool b) = Inr (Finite (if b then 1 else 0))"
| "py_float (PInt i) =
     (case to_double (of_int i) of
        Infinite _ \<Rightarrow> Inl (OverflowError ''int too large to convert to float'') | x \<Rightarrow> Inr x)"
| "py_float (PStr s) =
     (case float_of_str s of None \<Rightarrow> Inl (ValueError ''could not convert string to float'') | Some x \<Rightarrow> Inr x)"
| "py_float _ = Inl (TypeError ''float() argument'')"

section \<open>Comparison\<close>

fun float_less :: "pyfl \<Rightarrow> pyfl \<Rightarrow> bool" where
  "float_less Not_A_Number y = False"
| "float_less x Not_A_Number = False"
| "float_less (Finite a) (Finite b) = (a < b)"
| "float_less (Finite a) (Infinite n) = (\<not> n)"
| "float_less (Infinite n) (Finite b) = n"
| "float_less (Infinite n) (Infinite m) = (n \<and> \<not> m)"

fun float_equal :: "pyfl \<Rightarrow> pyfl \<Rightarrow> bool" where
  "float_equal Not_A_Number y = False"
| "float_equal x y = (x = y)"

text \<open>An order for the numbers: what comparison sees of them.\<close>

definition float_rank :: "pyfl \<Rightarrow> int \<times> rat" where
  "float_rank x = (case x of Finite q \<Rightarrow> (0, q) | Infinite n \<Rightarrow> (if n then (- 1, 0) else (1, 0)) | Not_A_Number \<Rightarrow> (0, 0))"

lemma float_less_rank:
  "x \<noteq> Not_A_Number \<Longrightarrow> y \<noteq> Not_A_Number \<Longrightarrow> float_less x y \<longleftrightarrow> float_rank x < float_rank y"
  by (cases x; cases y) (auto simp: float_rank_def)

lemma float_equal_rank:
  "x \<noteq> Not_A_Number \<Longrightarrow> y \<noteq> Not_A_Number \<Longrightarrow> float_equal x y \<longleftrightarrow> float_rank x = float_rank y"
  by (cases x; cases y) (auto simp: float_rank_def)

section \<open>\<open>round(x, digits)\<close>\<close>

text \<open>The result of a double operation that stays finite.\<close>

definition rounded :: "rat \<Rightarrow> rat" where
  "rounded q = (case to_double q of Finite x \<Rightarrow> x | _ \<Rightarrow> 0)"

definition round_digits :: "nat \<Rightarrow> rat \<Rightarrow> pyfl" where
  "round_digits n x = to_double (of_int (half_even (x * 10 ^ n)) / 10 ^ n)"

text \<open>The quotient of two integers, as a double.\<close>

definition true_divide :: "int \<Rightarrow> int \<Rightarrow> pyfl" where
  "true_divide a b = to_double (of_int a / of_int b)"

section \<open>Facts about rounding\<close>

lemma half_even_mono: "x \<le> y \<Longrightarrow> half_even x \<le> half_even y"
proof -
  assume le: "x \<le> y"
  have lo: "of_int (half_even z) \<le> z + 1 / 2" and hi: "z - 1 / 2 \<le> of_int (half_even z)" for z :: rat
    unfolding half_even_def Let_def by (auto simp: floor_le_iff le_floor_iff) linarith+
  show ?thesis
  proof (rule ccontr)
    assume "\<not> half_even x \<le> half_even y"
    then have "half_even y + 1 \<le> half_even x" by simp
    then have "of_int (half_even y) + 1 \<le> (of_int (half_even x) :: rat)" by linarith
    with lo[of x] hi[of y] le have "x = y" by linarith
    with \<open>\<not> half_even x \<le> half_even y\<close> show False by simp
  qed
qed

lemma half_even_int [simp]: "half_even (of_int i) = i"
  by (simp add: half_even_def)

lemma half_even_bounds: "of_int i \<le> x \<Longrightarrow> x \<le> of_int j \<Longrightarrow> i \<le> half_even x \<and> half_even x \<le> j"
  using half_even_mono[of "of_int i" x] half_even_mono[of x "of_int j"] by simp

end
