(* ===== verification/ShardMerge.thy ===== *)
theory ShardMerge
  imports ShardPlan PyFloat
begin

text \<open>
  \<open>sharding/merge.py\<close> and \<open>sharding/runner.py\<close>: the evidence pack a shard sees, the execution of
  the shards one after the other or in a pool whose completion order is an argument, and the merge
  of their debate results. \<open>getattr\<close> defaults never apply: a result is the record of
  \<open>engine/debate.py\<close>.
\<close>

record debate_result =
  dr_suggestions :: "attributes list"
  dr_unreviewed :: "attributes list"
  dr_unreviewed_source :: string
  dr_log :: "pyval list"
  dr_consensus :: bool
  dr_status :: string
  dr_stages :: "(string, string) dict"
  dr_iterations :: int
  dr_tokens :: int
  dr_duration :: int
  dr_report :: attributes

record shard_outcome =
  so_shard :: string
  so_status :: string
  so_result :: "debate_result option"
  so_error :: string

definition outcome_to_dict :: "shard_outcome \<Rightarrow> pyval" where
  "outcome_to_dict o1 = PDict
     [(''shard_id'', PStr (so_shard o1)), (''status'', PStr (so_status o1)), (''error'', PStr (so_error o1)),
      (''suggestions'', PInt (case so_result o1 of None \<Rightarrow> 0 | Some r \<Rightarrow> int (length (dr_suggestions r))))]"

section \<open>The evidence of a shard\<close>

definition in_files :: "string list \<Rightarrow> string \<Rightarrow> bool" where
  "in_files files v =
     (let path = shard_path v in
      if path = [] then False
      else path \<in> set files \<or>
        list_ex (\<lambda>name. ends_with (CHR ''/'' # name) path \<or> ends_with (CHR ''/'' # path) name) files)"

definition hypothesis_path :: "semantic_hypothesis \<Rightarrow> string" where
  "hypothesis_path h =
     (case dict_get (sh_attributes h) ''file_path'' of None \<Rightarrow> [] | Some v \<Rightarrow> if py_truth v then py_str v else [])"

definition scope_evidence_pack :: "evidence_pack \<Rightarrow> shard \<Rightarrow> evidence_pack" where
  "scope_evidence_pack pack s =
     (let files = map shard_path (sh_files s) in
      pack_from_facts (ep_query pack)
        (filter (\<lambda>f. list_ex (\<lambda>r. in_files files (er_file r)) (sf_evidence f)) (ep_facts pack))
        (filter (\<lambda>h. in_files files (hypothesis_path h)) (ep_hypotheses pack))
        (ep_trace pack @ [''shard:'' @ sh_id s]) (ep_graph_version pack))"

section \<open>Identity and strength of a suggestion\<close>

type_synonym suggestion_key = "string \<times> string \<times> int"

definition as_int_or :: "int \<Rightarrow> pyval \<Rightarrow> int" where
  "as_int_or dflt v = (case py_int v of Inl _ \<Rightarrow> dflt | Inr i \<Rightarrow> i)"

text \<open>\<open>str(d.get(k) or dflt)\<close>.\<close>

definition str_or :: "string \<Rightarrow> attributes \<Rightarrow> string \<Rightarrow> string" where
  "str_or dflt d k = (case dict_get d k of None \<Rightarrow> dflt | Some v \<Rightarrow> if py_truth v then py_str v else dflt)"

definition suggestion_key :: "attributes \<Rightarrow> suggestion_key" where
  "suggestion_key s =
     (let file = str_or [] s ''file_path''; line = as_int_or 0 (dict_get_or PNone s ''line_start'')
      in case dict_get_or PNone s ''location'' of
           PDict l \<Rightarrow> (str_or [] s ''rule_id'', str_or file l ''file_path'', as_int_or line (dict_get_or PNone l ''line_start''))
         | PStr t \<Rightarrow>
             (let path = before_first (CHR '':'') t; rest = after_first (CHR '':'') t
              in (str_or [] s ''rule_id'', if path \<noteq> [] then path else file,
                  as_int_or line (PStr (before_first (CHR ''-'') rest))))
         | _ \<Rightarrow> (str_or [] s ''rule_id'', file, line))"

definition suggestion_order :: "attributes \<Rightarrow> string \<times> int \<times> string \<times> string" where
  "suggestion_order s =
     (case suggestion_key s of (rule, file, line) \<Rightarrow> (file, line, rule, str_or [] s ''title''))"

text \<open>Type and value errors count as confidence zero; an overflow escapes.\<close>

definition strength :: "attributes \<Rightarrow> (pyfl \<times> nat) checked" where
  "strength s =
     (let n = length (attr_list s ''evidence'');
          v = (case dict_get s ''confidence'' of Some v \<Rightarrow> if py_truth v then v else PFloat 0 ''0.0'' | None \<Rightarrow> PFloat 0 ''0.0'')
      in case py_float v of
           Inr x \<Rightarrow> Inr (x, n)
         | Inl (TypeError m) \<Rightarrow> Inr (Finite 0, n)
         | Inl (ValueError m) \<Rightarrow> Inr (Finite 0, n)
         | Inl e \<Rightarrow> Inl e)"

definition stronger :: "pyfl \<times> nat \<Rightarrow> pyfl \<times> nat \<Rightarrow> bool" where
  "stronger a b = (if float_equal (fst a) (fst b) then snd b < snd a else float_less (fst b) (fst a))"

section \<open>The merge\<close>

record merge_state =
  ms_best :: "(suggestion_key, attributes) dict"
  ms_duplicates :: nat
  ms_conflicts :: nat

definition merge_suggestion :: "merge_state \<Rightarrow> attributes \<Rightarrow> merge_state checked" where
  "merge_suggestion m s =
     (let key = suggestion_key s in
      case dict_get (ms_best m) key of
        None \<Rightarrow> Inr (m\<lparr>ms_best := dict_set key s (ms_best m)\<rparr>)
      | Some existing \<Rightarrow>
          bind (strength s) (\<lambda>a. bind (strength existing) (\<lambda>b.
            let m' = m\<lparr>ms_duplicates := Suc (ms_duplicates m)\<rparr>
            in Inr (if stronger a b
                    then m'\<lparr>ms_best := dict_set key s (ms_best m'), ms_conflicts := Suc (ms_conflicts m')\<rparr> else m'))))"

definition outcome_suggestions :: "shard_outcome \<Rightarrow> attributes list" where
  "outcome_suggestions o1 = (case so_result o1 of None \<Rightarrow> [] | Some r \<Rightarrow> dr_suggestions r)"

definition outcome_results :: "shard_outcome list \<Rightarrow> (string \<times> debate_result) list" where
  "outcome_results os = List.map_filter (\<lambda>o1. map_option (\<lambda>r. (so_shard o1, r)) (so_result o1)) os"

definition shard_log :: "string \<times> debate_result \<Rightarrow> attributes list" where
  "shard_log sr = (case sr of (s, r) \<Rightarrow>
     List.map_filter (\<lambda>e. case e of PDict d \<Rightarrow> Some (dict_update [(''shard'', PStr s)] d) | _ \<Rightarrow> None) (dr_log r))"

definition consensus_of :: "shard_outcome \<Rightarrow> bool" where
  "consensus_of o1 = (case so_result o1 of None \<Rightarrow> False | Some r \<Rightarrow> dr_consensus r)"

definition merge_shard_results :: "shard_outcome list \<Rightarrow> shard_plan option \<Rightarrow> debate_result checked" where
  "merge_shard_results outcomes plan =
     (let ordered = sort_key so_shard outcomes;
          completed = filter (\<lambda>o1. so_status o1 = ''completed'') ordered;
          consensus = (completed \<noteq> [] \<and> list_all consensus_of completed);
          results = outcome_results ordered;
          status = (if ordered \<noteq> [] \<and> list_all (\<lambda>o1. so_status o1 = ''completed'') ordered
                    then ''completed'' else ''partial'')
      in bind (fold_checked merge_suggestion \<lparr>ms_best = [], ms_duplicates = 0, ms_conflicts = 0\<rparr>
            (concat (map outcome_suggestions ordered))) (\<lambda>m.
         let suggestions = sort_key suggestion_order (dict_values (ms_best m)) in
         Inr \<lparr>dr_suggestions = suggestions,
              dr_unreviewed = concat (map (dr_unreviewed \<circ> snd) results),
              dr_unreviewed_source = [],
              dr_log = map PDict (concat (map shard_log results)),
              dr_consensus = (consensus \<and> status = ''completed''),
              dr_status = status,
              dr_stages = dict_of so_shard so_status ordered,
              dr_iterations = sum_list (map (dr_iterations \<circ> snd) results),
              dr_tokens = sum_list (map (dr_tokens \<circ> snd) results),
              dr_duration = fold max (map (dr_duration \<circ> snd) results) 0,
              dr_report =
                [(''review_strategy'', PStr ''sharded''),
                 (''shard_plan'', case plan of None \<Rightarrow> PDict [] | Some p \<Rightarrow> plan_to_dict p),
                 (''shards'', PList (map outcome_to_dict ordered)),
                 (''merge'', PDict
                   [(''suggestions'', PInt (int (length suggestions))),
                    (''cross_shard_duplicates'', PInt (int (ms_duplicates m))),
                    (''conflicts_resolved'', PInt (int (ms_conflicts m)))])]\<rparr>))"

section \<open>The runner\<close>

text \<open>What running a shard's debate gives: a result, none, or an exception's text.\<close>

datatype shard_run = Returned "debate_result option" | Raised string

definition run_one :: "(shard \<Rightarrow> shard_run) \<Rightarrow> shard \<Rightarrow> shard_outcome" where
  "run_one run s =
     (case run s of
        Raised m \<Rightarrow> \<lparr>so_shard = sh_id s, so_status = ''error'', so_result = None, so_error = take 300 m\<rparr>
      | Returned None \<Rightarrow>
          \<lparr>so_shard = sh_id s, so_status = ''error'', so_result = None, so_error = ''shard returned no debate result''\<rparr>
      | Returned (Some r) \<Rightarrow> \<lparr>so_shard = sh_id s, so_status = ''completed'', so_result = Some r, so_error = []\<rparr>)"

definition skipped :: "shard \<Rightarrow> shard_outcome" where
  "skipped s = \<lparr>so_shard = sh_id s, so_status = ''skipped_budget'', so_result = None, so_error = []\<rparr>"

text \<open>\<open>_past_deadline\<close>, for a reading of \<open>time.monotonic()\<close>.\<close>

definition past_deadline :: "rat option \<Rightarrow> rat \<Rightarrow> bool" where
  "past_deadline deadline now = (case deadline of None \<Rightarrow> False | Some d \<Rightarrow> d < now)"

text \<open>
  \<open>clock i waited\<close>: the reading before the \<open>i\<close>-th shard is dispatched, when the debates of the shards
  \<open>waited\<close> have been run to their end before. One worker runs each debate before it reads the clock again;
  with a pool every shard is submitted before any debate is waited for.
\<close>

type_synonym monotonic = "nat \<Rightarrow> shard list \<Rightarrow> rat"

fun run_sequential ::
  "(shard \<Rightarrow> shard_run) \<Rightarrow> monotonic \<Rightarrow> rat option \<Rightarrow> nat \<Rightarrow> shard list \<Rightarrow> shard list \<Rightarrow> shard_outcome list" where
  "run_sequential run clock deadline i waited [] = []"
| "run_sequential run clock deadline i waited (s # ss) =
     (if past_deadline deadline (clock i waited)
      then skipped s # run_sequential run clock deadline (Suc i) waited ss
      else run_one run s # run_sequential run clock deadline (Suc i) (waited @ [s]) ss)"

fun dispatch :: "monotonic \<Rightarrow> rat option \<Rightarrow> nat \<Rightarrow> shard list \<Rightarrow> shard_outcome list \<times> shard list" where
  "dispatch clock deadline i [] = ([], [])"
| "dispatch clock deadline i (s # ss) =
     (case dispatch clock deadline (Suc i) ss of (out, futures) \<Rightarrow>
        if past_deadline deadline (clock i []) then (skipped s # out, futures) else (out, s # futures))"

text \<open>\<open>order\<close>: the order in which the futures complete.\<close>

definition run_pool ::
  "(shard \<Rightarrow> shard_run) \<Rightarrow> monotonic \<Rightarrow> rat option \<Rightarrow> (shard list \<Rightarrow> shard list) \<Rightarrow> shard list \<Rightarrow> shard_outcome list" where
  "run_pool run clock deadline order ss =
     (case dispatch clock deadline 0 ss of (out, futures) \<Rightarrow> out @ map (run_one run) (order futures))"

definition worker_count :: "int \<Rightarrow> shard list \<Rightarrow> int" where
  "worker_count max_workers ss = max 1 (min max_workers (if ss = [] then 1 else int (length ss)))"

definition run_sharded_review ::
  "(shard \<Rightarrow> shard_run) \<Rightarrow> monotonic \<Rightarrow> rat option \<Rightarrow> (shard list \<Rightarrow> shard list) \<Rightarrow> int \<Rightarrow> shard_plan
   \<Rightarrow> shard_outcome list" where
  "run_sharded_review run clock deadline order max_workers plan =
     (let ss = pl_shards plan in
      sort_key so_shard
        (if worker_count max_workers ss = 1 then run_sequential run clock deadline 0 [] ss
         else run_pool run clock deadline order ss))"

section \<open>Facts about the runner\<close>

text \<open>
  The outcomes of a run in the order of the plan, given which shards are skipped, and when a shard is: the
  clock had passed the deadline before its dispatch, after the debates that came before it with one worker.
\<close>

definition outcomes_of :: "(shard \<Rightarrow> shard_run) \<Rightarrow> shard list \<Rightarrow> bool list \<Rightarrow> shard_outcome list" where
  "outcomes_of run ss skips = map (\<lambda>(s, b). if b then skipped s else run_one run s) (zip ss skips)"

definition skips_at :: "bool \<Rightarrow> monotonic \<Rightarrow> rat option \<Rightarrow> shard list \<Rightarrow> bool list \<Rightarrow> nat \<Rightarrow> bool" where
  "skips_at alone clock deadline ss skips i \<longleftrightarrow>
     past_deadline deadline
       (clock i (if alone then map fst (filter (\<lambda>(s, b). \<not> b) (take i (zip ss skips))) else []))"

lemma run_sequential_skips:
  "\<exists>skips. length skips = length ss \<and> run_sequential run clock deadline i waited ss = outcomes_of run ss skips \<and>
     (\<forall>j < length ss. skips ! j \<longleftrightarrow>
        past_deadline deadline (clock (i + j) (waited @ map fst (filter (\<lambda>(s, b). \<not> b) (take j (zip ss skips))))))"
proof (induction ss arbitrary: i waited)
  case (Cons s ss)
  let ?late = "past_deadline deadline (clock i waited)"
  obtain skips where skips: "length skips = length ss"
    "run_sequential run clock deadline (Suc i) (if ?late then waited else waited @ [s]) ss = outcomes_of run ss skips"
    "\<forall>j < length ss. skips ! j \<longleftrightarrow> past_deadline deadline (clock (Suc i + j)
       ((if ?late then waited else waited @ [s]) @ map fst (filter (\<lambda>(s, b). \<not> b) (take j (zip ss skips)))))"
    using Cons.IH by blast
  show ?case
  proof (intro exI[of _ "?late # skips"] conjI allI impI)
    fix j assume "j < length (s # ss)"
    then show "(?late # skips) ! j \<longleftrightarrow> past_deadline deadline (clock (i + j)
        (waited @ map fst (filter (\<lambda>(s, b). \<not> b) (take j (zip (s # ss) (?late # skips))))))"
      using skips(3) by (cases j) auto
  qed (use skips in \<open>auto simp: outcomes_of_def\<close>)
qed (simp add: outcomes_of_def)

definition pool_skips :: "monotonic \<Rightarrow> rat option \<Rightarrow> nat \<Rightarrow> shard list \<Rightarrow> bool list" where
  "pool_skips clock deadline i ss = map (\<lambda>j. past_deadline deadline (clock (i + j) [])) [0..<length ss]"

lemma pool_skips_Cons:
  "pool_skips clock deadline i (s # ss) = past_deadline deadline (clock i []) # pool_skips clock deadline (Suc i) ss"
  by (simp add: pool_skips_def map_upt_Suc del: upt_Suc)

lemma dispatch_mset:
  "dispatch clock deadline i ss = (out, futures) \<Longrightarrow>
   mset (outcomes_of run ss (pool_skips clock deadline i ss)) = mset out + image_mset (run_one run) (mset futures)"
proof (induction ss arbitrary: i out futures)
  case (Cons s ss)
  obtain out' futures' where "dispatch clock deadline (Suc i) ss = (out', futures')" by fastforce
  with Cons show ?case
    by (cases "past_deadline deadline (clock i [])") (auto simp: outcomes_of_def pool_skips_Cons)
qed (simp add: outcomes_of_def)

lemma run_pool_mset:
  assumes "\<And>xs. mset (order xs) = mset xs"
  shows "mset (run_pool run clock deadline order ss) = mset (outcomes_of run ss (pool_skips clock deadline 0 ss))"
proof -
  obtain out futures where d: "dispatch clock deadline 0 ss = (out, futures)" by fastforce
  with assms[of futures] show ?thesis
    by (simp add: run_pool_def dispatch_mset[OF d])
qed

lemma sort_key_unique:
  assumes "mset xs = mset ys" "distinct (map k xs)"
  shows "sort_key k xs = sort_key k ys"
  using assms by (intro sort_key_inj_key_eq) (simp_all add: distinct_map)

lemma outcomes_ids: "length skips = length ss \<Longrightarrow> map so_shard (outcomes_of run ss skips) = map sh_id ss"
  by (induction skips ss rule: list_induct2)
    (auto simp: outcomes_of_def skipped_def run_one_def split: shard_run.splits option.splits)

lemma unskipped_outcomes:
  assumes "length skips = length ss" "\<And>i. i < length ss \<Longrightarrow> \<not> skips ! i"
  shows "outcomes_of run ss skips = map (run_one run) ss"
  using assms by (intro nth_equalityI) (simp_all add: outcomes_of_def)

section \<open>Facts about the merge\<close>

definition comparable :: "attributes \<Rightarrow> bool" where
  "comparable s \<longleftrightarrow> (\<exists>x n. strength s = Inr (x, n) \<and> x \<noteq> Not_A_Number)"

definition strength_rank :: "attributes \<Rightarrow> (int \<times> rat) \<times> nat" where
  "strength_rank s = (case strength s of Inr (x, n) \<Rightarrow> (float_rank x, n) | Inl _ \<Rightarrow> ((0, 0), 0))"

lemma stronger_rank:
  assumes "strength s = Inr a" "strength t = Inr b" "comparable s" "comparable t"
  shows "stronger a b \<longleftrightarrow> strength_rank t < strength_rank s"
proof -
  obtain x n y m where "a = (x, n)" "b = (y, m)" "x \<noteq> Not_A_Number" "y \<noteq> Not_A_Number"
    using assms by (auto simp: comparable_def)
  with assms(1,2) float_less_rank[of y x] float_equal_rank[of x y] show ?thesis
    by (auto simp: stronger_def strength_rank_def)
qed

definition all_suggestions :: "shard_outcome list \<Rightarrow> attributes list" where
  "all_suggestions os = concat (map outcome_suggestions os)"

definition merge_ok :: "attributes list \<Rightarrow> merge_state \<Rightarrow> bool" where
  "merge_ok P m \<longleftrightarrow> distinct (map fst (ms_best m)) \<and>
     (\<forall>k b. dict_get (ms_best m) k = Some b \<longrightarrow> b \<in> set P \<and> suggestion_key b = k \<and>
        (\<forall>s \<in> set P. suggestion_key s = k \<longrightarrow> strength_rank s \<le> strength_rank b)) \<and>
     (\<forall>s \<in> set P. dict_get (ms_best m) (suggestion_key s) \<noteq> None) \<and>
     length P = length (ms_best m) + ms_duplicates m"

lemma merge_okD:
  "merge_ok P m \<Longrightarrow> dict_get (ms_best m) k = Some b \<Longrightarrow> b \<in> set P \<and> suggestion_key b = k \<and>
     (\<forall>s \<in> set P. suggestion_key s = k \<longrightarrow> strength_rank s \<le> strength_rank b)"
  unfolding merge_ok_def by blast

declare split_paired_All [simp del] split_paired_Ex [simp del]

lemma length_dict_set:
  "length (dict_set k v d) = (if dict_get d k = None then Suc (length d) else length d)"
  unfolding dict_set_def dict_get_def by (induction d) auto

lemma merge_suggestion_ok:
  assumes "merge_ok P m" "\<forall>t \<in> set (P @ [s]). comparable t"
  shows "\<exists>m'. merge_suggestion m s = Inr m' \<and> merge_ok (P @ [s]) m'"
proof (cases "dict_get (ms_best m) (suggestion_key s)")
  case None
  let ?m = "m\<lparr>ms_best := dict_set (suggestion_key s) s (ms_best m)\<rparr>"
  have "merge_suggestion m s = Inr ?m" by (simp add: merge_suggestion_def None)
  moreover have "merge_ok (P @ [s]) ?m"
    using assms(1) None unfolding merge_ok_def
    by (auto simp: distinct_dict_set length_dict_set split: if_splits)
  ultimately show ?thesis by blast
next
  case (Some b)
  have b: "b \<in> set P" "suggestion_key b = suggestion_key s" "\<forall>t \<in> set P. suggestion_key t = suggestion_key s \<longrightarrow> strength_rank t \<le> strength_rank b"
    using merge_okD[OF assms(1) Some] by auto
  obtain x y where xy: "strength s = Inr x" "strength b = Inr y" "comparable s" "comparable b"
    using assms(2) b(1) by (auto simp: comparable_def)
  let ?d = "m\<lparr>ms_duplicates := Suc (ms_duplicates m)\<rparr>"
  let ?c = "?d\<lparr>ms_best := dict_set (suggestion_key s) s (ms_best ?d), ms_conflicts := Suc (ms_conflicts ?d)\<rparr>"
  have step: "merge_suggestion m s = Inr (if stronger x y then ?c else ?d)"
    by (simp add: merge_suggestion_def Some xy Let_def)
  have "merge_ok (P @ [s]) (if stronger x y then ?c else ?d)"
  proof (cases "stronger x y")
    case True
    then have less: "strength_rank b < strength_rank s" using stronger_rank[OF xy(1,2) xy(3,4)] by simp
    have "strength_rank t \<le> strength_rank s" if "t \<in> set P" "suggestion_key t = suggestion_key s" for t
      using b(3) that less by (meson less_imp_le order_trans)
    with True assms(1) Some b show ?thesis unfolding merge_ok_def
      by (auto simp: distinct_dict_set length_dict_set split: if_splits)
  next
    case False
    then have le: "strength_rank s \<le> strength_rank b" using stronger_rank[OF xy(1,2) xy(3,4)] by simp
    with False assms(1) Some b show ?thesis unfolding merge_ok_def by auto
  qed
  with step show ?thesis by blast
qed

lemma merge_suggestions_ok:
  "merge_ok P m \<Longrightarrow> \<forall>t \<in> set (P @ ss). comparable t \<Longrightarrow> \<exists>m'. fold_checked merge_suggestion m ss = Inr m' \<and> merge_ok (P @ ss) m'"
proof (induction ss arbitrary: P m)
  case (Cons s ss)
  then obtain m1 where "merge_suggestion m s = Inr m1" "merge_ok (P @ [s]) m1"
    using merge_suggestion_ok[of P m s] by auto
  with Cons.IH[of "P @ [s]" m1] Cons.prems(2) show ?case by simp
qed simp

lemma merge_ok_values:
  assumes "merge_ok P m"
  shows "set (dict_values (ms_best m)) \<subseteq> set P" "distinct (map suggestion_key (dict_values (ms_best m)))"
    "suggestion_key ` set (dict_values (ms_best m)) = suggestion_key ` set P"
    "\<And>b s. b \<in> set (dict_values (ms_best m)) \<Longrightarrow> s \<in> set P \<Longrightarrow> suggestion_key s = suggestion_key b \<Longrightarrow> strength_rank s \<le> strength_rank b"
proof -
  have get: "(k, b) \<in> set (ms_best m) \<Longrightarrow> dict_get (ms_best m) k = Some b" for k b
    using assms by (simp add: merge_ok_def dict_get_def)
  then have keys: "map suggestion_key (dict_values (ms_best m)) = map fst (ms_best m)"
    using merge_okD[OF assms] unfolding dict_values_def map_map by (intro map_cong refl) auto
  show "set (dict_values (ms_best m)) \<subseteq> set P" using get merge_okD[OF assms] by (fastforce simp: dict_values_def)
  show "distinct (map suggestion_key (dict_values (ms_best m)))" unfolding keys using assms by (simp add: merge_ok_def)
  show "suggestion_key ` set (dict_values (ms_best m)) = suggestion_key ` set P"
  proof
    show "suggestion_key ` set (dict_values (ms_best m)) \<subseteq> suggestion_key ` set P"
      using \<open>set (dict_values (ms_best m)) \<subseteq> set P\<close> by blast
    show "suggestion_key ` set P \<subseteq> suggestion_key ` set (dict_values (ms_best m))"
    proof
      fix k assume "k \<in> suggestion_key ` set P"
      then obtain b where "dict_get (ms_best m) k = Some b" "suggestion_key b = k"
        using assms merge_okD[OF assms] by (fastforce simp: merge_ok_def)
      then show "k \<in> suggestion_key ` set (dict_values (ms_best m))" by (auto dest: dict_get_in_values)
    qed
  qed
  show "\<And>b s. b \<in> set (dict_values (ms_best m)) \<Longrightarrow> s \<in> set P \<Longrightarrow> suggestion_key s = suggestion_key b \<Longrightarrow> strength_rank s \<le> strength_rank b"
    using get merge_okD[OF assms] by (fastforce simp: dict_values_def)
qed

section \<open>Properties\<close>

text \<open>
  C39: The outcomes of a sharded review are one per shard, sorted by id, and which they are does not depend
  on the order in which the debates finish. A shard is skipped exactly when the deadline had passed before
  its own dispatch: with one worker that is after the debates run before it, with more before any debate is
  waited for. Without a deadline no shard is skipped, and the outcomes do not depend on the number of workers
  either. Where shards share an id (\<open>shard_ids_collide\<close>) only the order of their outcomes among themselves
  is left open, and that only with several workers: with distinct ids or one worker the list is determined.
\<close>

theorem review_deterministic:
  fixes run :: "shard \<Rightarrow> shard_run" and clock :: monotonic and deadline :: "rat option" and workers :: int
    and plan :: shard_plan and order :: "shard list \<Rightarrow> shard list"
  assumes "\<And>xs. mset (order xs) = mset xs"
  defines "review \<equiv> run_sharded_review run clock deadline order workers plan"
    and "alone \<equiv> worker_count workers (pl_shards plan) = 1"
  shows "map so_shard review = sort (map sh_id (pl_shards plan)) \<and>
    (\<exists>skips. length skips = length (pl_shards plan) \<and>
       mset review = mset (outcomes_of run (pl_shards plan) skips) \<and>
       (alone \<or> distinct (map sh_id (pl_shards plan)) \<longrightarrow>
          review = sort_key so_shard (outcomes_of run (pl_shards plan) skips)) \<and>
       (\<forall>i < length (pl_shards plan). skips ! i \<longleftrightarrow> skips_at alone clock deadline (pl_shards plan) skips i) \<and>
       (deadline = None \<longrightarrow> outcomes_of run (pl_shards plan) skips = map (run_one run) (pl_shards plan)))"
proof -
  let ?ss = "pl_shards plan"
  obtain skips where skips: "length skips = length ?ss"
    "\<forall>i < length ?ss. skips ! i \<longleftrightarrow> skips_at alone clock deadline ?ss skips i"
    and review: "\<exists>xs. review = sort_key so_shard xs \<and> mset xs = mset (outcomes_of run ?ss skips) \<and>
      (alone \<longrightarrow> xs = outcomes_of run ?ss skips)"
  proof (cases alone)
    case True
    obtain skips where "length skips = length ?ss" "run_sequential run clock deadline 0 [] ?ss = outcomes_of run ?ss skips"
      "\<forall>i < length ?ss. skips ! i \<longleftrightarrow> skips_at alone clock deadline ?ss skips i"
      using run_sequential_skips[of ?ss run clock deadline 0 "[]"] True by (auto simp: skips_at_def)
    with True that[of skips] show ?thesis by (simp add: review_def alone_def run_sharded_review_def Let_def)
  next
    case False
    then have "review = sort_key so_shard (run_pool run clock deadline order ?ss)"
      by (simp add: review_def alone_def run_sharded_review_def Let_def)
    with run_pool_mset[OF assms(1), of run clock deadline ?ss] False that[of "pool_skips clock deadline 0 ?ss"]
    show ?thesis by (auto simp: pool_skips_def skips_at_def)
  qed
  then obtain xs where xs: "review = sort_key so_shard xs" "mset xs = mset (outcomes_of run ?ss skips)"
    "alone \<longrightarrow> xs = outcomes_of run ?ss skips" by blast
  have ids: "mset (map so_shard xs) = mset (map sh_id ?ss)"
    by (metis mset_map outcomes_ids skips(1) xs(2))
  have "map so_shard review = sort (map so_shard xs)"
    unfolding xs(1) by (rule properties_for_sort[symmetric]) simp_all
  also have "\<dots> = sort (map sh_id ?ss)" using ids by (metis properties_for_sort mset_sort sorted_sort)
  finally have "map so_shard review = sort (map sh_id ?ss)" .
  moreover have "review = sort_key so_shard (outcomes_of run ?ss skips)" if "distinct (map sh_id ?ss)"
    unfolding xs(1) using ids that by (intro sort_key_unique[OF xs(2)]) (metis mset_eq_imp_distinct_iff)
  moreover have "outcomes_of run ?ss skips = map (run_one run) ?ss" if "deadline = None"
    using skips that by (intro unskipped_outcomes) (auto simp: skips_at_def past_deadline_def)
  ultimately show ?thesis using skips xs by (intro conjI exI[of _ skips]) auto
qed

definition two_shards :: shard_plan where
  "two_shards = \<lparr>pl_shards = [\<lparr>sh_id = ''b'', sh_files = [''b/x.py''], sh_reason = []\<rparr>,
     \<lparr>sh_id = ''a'', sh_files = [''a/x.py''], sh_reason = []\<rparr>], pl_total = 2, pl_max_files = 1\<rparr>"

text \<open>A debate takes three units of time.\<close>

definition slow_clock :: monotonic where
  "slow_clock i waited = of_nat (3 * length waited)"

theorem review_deterministic_witness:
  "map so_shard (run_sharded_review (\<lambda>s. Raised (sh_id s)) slow_clock (Some 2) rev 2 two_shards) = [''a'', ''b''] \<and>
   run_sharded_review (\<lambda>s. Raised (sh_id s)) slow_clock None rev 2 two_shards =
     sort_key so_shard (map (run_one (\<lambda>s. Raised (sh_id s))) (pl_shards two_shards))"
proof -
  have "distinct (map sh_id (pl_shards two_shards))" "sort (map sh_id (pl_shards two_shards)) = [''a'', ''b'']"
    by (simp add: two_shards_def) code_simp
  then show ?thesis
    using review_deterministic[where plan = two_shards and order = rev and run = "\<lambda>s. Raised (sh_id s)" and clock = slow_clock and deadline = "Some 2" and workers = 2]
      review_deterministic[where plan = two_shards and order = rev and run = "\<lambda>s. Raised (sh_id s)" and clock = slow_clock
        and deadline = None and workers = 2] by auto
qed

text \<open>
  With a deadline the number of workers does show: one worker skips the shard that it comes to after the
  deadline, a pool has submitted every shard by then and runs all of them.
\<close>

theorem pool_outruns_deadline:
  "map so_status (run_sharded_review (\<lambda>s. Raised (sh_id s)) slow_clock (Some 2) id 1 two_shards) = [''skipped_budget'', ''error''] \<and>
   map so_status (run_sharded_review (\<lambda>s. Raised (sh_id s)) slow_clock (Some 2) id 2 two_shards) = [''error'', ''error'']"
  by code_simp

text \<open>
  When every confidence is a number, merging shard results succeeds and returns each finding -
  a rule, file and line - exactly once, in the stated order, as one of the reported suggestions of
  that finding and one that no other exceeds in confidence and evidence.
\<close>

theorem merge_keeps_strongest:
  assumes "\<And>s. s \<in> set (all_suggestions outcomes) \<Longrightarrow> comparable s"
  shows "\<exists>r. merge_shard_results outcomes plan = Inr r \<and>
    distinct (map suggestion_key (dr_suggestions r)) \<and> sorted (map suggestion_order (dr_suggestions r)) \<and>
    set (dr_suggestions r) \<subseteq> set (all_suggestions outcomes) \<and>
    suggestion_key ` set (dr_suggestions r) = suggestion_key ` set (all_suggestions outcomes) \<and>
    (\<forall>b \<in> set (dr_suggestions r). \<forall>s \<in> set (all_suggestions outcomes).
       suggestion_key s = suggestion_key b \<longrightarrow> strength_rank s \<le> strength_rank b)"
proof -
  let ?P = "concat (map outcome_suggestions (sort_key so_shard outcomes))"
  have P: "set ?P = set (all_suggestions outcomes)" by (simp add: all_suggestions_def)
  have "merge_ok [] \<lparr>ms_best = [], ms_duplicates = 0, ms_conflicts = 0\<rparr>" by (simp add: merge_ok_def)
  from merge_suggestions_ok[OF this, of ?P] obtain m where
    m: "fold_checked merge_suggestion \<lparr>ms_best = [], ms_duplicates = 0, ms_conflicts = 0\<rparr> ?P = Inr m" "merge_ok ?P m"
    using assms P by auto
  have "distinct (map suggestion_key (sort_key suggestion_order (dict_values (ms_best m))))"
    using merge_ok_values(2)[OF m(2)] by (simp add: distinct_map)
  with m(1) merge_ok_values[OF m(2)] show ?thesis
    unfolding P by (simp add: merge_shard_results_def Let_def)
qed

definition found :: "pyval \<Rightarrow> shard_outcome" where
  "found c = \<lparr>so_shard = ''s'' , so_status = ''completed'', so_result = Some \<lparr>dr_suggestions =
       [[(''rule_id'', PStr ''r''), (''location'', PStr ''a.py:3''), (''confidence'', c)]],
     dr_unreviewed = [], dr_unreviewed_source = [], dr_log = [], dr_consensus = True, dr_status = ''completed'',
     dr_stages = [], dr_iterations = 1, dr_tokens = 2, dr_duration = 3, dr_report = []\<rparr>, so_error = []\<rparr>"

theorem merge_keeps_strongest_witness:
  "\<exists>r. merge_shard_results [found (PInt 0), found (PFloat (1 / 2) ''0.5'')] None = Inr r \<and> length (dr_suggestions r) = 1 \<and>
     distinct (map suggestion_key (dr_suggestions r))"
proof -
  have s: "case strength (hd (outcome_suggestions (found (PInt 0)))) of Inr (Finite q, n) \<Rightarrow> True | _ \<Rightarrow> False"
    "case strength (hd (outcome_suggestions (found (PFloat (1 / 2) ''0.5'')))) of Inr (Finite q, n) \<Rightarrow> True | _ \<Rightarrow> False"
    by code_simp+
  then have "comparable s" if "s \<in> set (all_suggestions [found (PInt 0), found (PFloat (1 / 2) ''0.5'')])" for s
    using that by (auto simp: all_suggestions_def comparable_def found_def outcome_suggestions_def split: sum.splits prod.splits pyfl.splits)
  from merge_keeps_strongest[of "[found (PInt 0), found (PFloat (1 / 2) ''0.5'')]" None, OF this]
  obtain r where r: "merge_shard_results [found (PInt 0), found (PFloat (1 / 2) ''0.5'')] None = Inr r"
    "distinct (map suggestion_key (dr_suggestions r))" by blast
  have "case merge_shard_results [found (PInt 0), found (PFloat (1 / 2) ''0.5'')] None of Inr r \<Rightarrow> length (dr_suggestions r) = 1 | _ \<Rightarrow> False"
    by code_simp
  with r show ?thesis by auto
qed

text \<open>
  The merged result of shards with distinct ids does not depend on the order in which their
  outcomes are given.
\<close>

theorem merge_order_independent:
  assumes "mset outcomes = mset outcomes'" "distinct (map so_shard outcomes)"
  shows "merge_shard_results outcomes plan = merge_shard_results outcomes' plan"
  unfolding merge_shard_results_def sort_key_unique[OF assms] ..

end
