(* ===== verification/Findings.thy ===== *)
theory Findings
  imports Evidence Decode Provenance "HOL-Library.Multiset"
begin

text \<open>
  \<open>core/rules/base.py\<close> and the pure part of \<open>core/sarif.py\<close>: severities, locations and findings with
  their dictionary form, the rule registry, and the SARIF log of a list of findings. Writing the log
  to a file and reading the clock are left out: the times are arguments.
\<close>

section \<open>Severity\<close>

datatype severity = ERROR | WARNING | INFO

fun severity_value :: "severity \<Rightarrow> string" where
  "severity_value ERROR = ''error''"
| "severity_value WARNING = ''warning''"
| "severity_value INFO = ''info''"

definition all_severities :: "severity list" where
  "all_severities = [ERROR, WARNING, INFO]"

definition severity_of :: "string \<Rightarrow> severity option" where
  "severity_of s = find (\<lambda>v. severity_value v = s) all_severities"

text \<open>\<open>__lt__\<close>: the position in the list \<open>[INFO, WARNING, ERROR]\<close>.\<close>

fun severity_rank :: "severity \<Rightarrow> nat" where
  "severity_rank INFO = 0"
| "severity_rank WARNING = 1"
| "severity_rank ERROR = 2"

instantiation severity :: linorder
begin

definition less_eq_severity :: "severity \<Rightarrow> severity \<Rightarrow> bool" where
  "less_eq_severity a b = (severity_rank a \<le> severity_rank b)"

definition less_severity :: "severity \<Rightarrow> severity \<Rightarrow> bool" where
  "less_severity a b = (severity_rank a < severity_rank b)"

instance
proof
  fix a b :: severity
  show "a \<le> b \<Longrightarrow> b \<le> a \<Longrightarrow> a = b"
    by (cases a; cases b) (simp_all add: less_eq_severity_def)
qed (auto simp: less_eq_severity_def less_severity_def)

end

section \<open>Locations and findings\<close>

record location =
  lo_file :: string
  lo_start :: int
  lo_end :: int
  lo_col_start :: "int option"
  lo_col_end :: "int option"

text \<open>A missing end line becomes the start line.\<close>

definition make_location :: "string \<Rightarrow> int \<Rightarrow> int option \<Rightarrow> int option \<Rightarrow> int option \<Rightarrow> location" where
  "make_location file start end1 cs ce =
     \<lparr>lo_file = file, lo_start = start, lo_end = (case end1 of None \<Rightarrow> start | Some e \<Rightarrow> e),
      lo_col_start = cs, lo_col_end = ce\<rparr>"

definition location_to_dict :: "location \<Rightarrow> pyval" where
  "location_to_dict l = PDict
     [(''file_path'', PStr (lo_file l)), (''line_start'', PInt (lo_start l)), (''line_end'', PInt (lo_end l)),
      (''column_start'', py_opt_int (lo_col_start l)), (''column_end'', py_opt_int (lo_col_end l))]"

definition location_from_dict :: "pyval \<Rightarrow> location decoded" where
  "location_from_dict v =
     bind (as_dict v) (\<lambda>d. bind (need as_str d ''file_path'') (\<lambda>file. bind (need as_int d ''line_start'') (\<lambda>start.
     bind (optional as_opt_int None d ''line_end'') (\<lambda>end1. bind (optional as_opt_int None d ''column_start'') (\<lambda>cs.
     bind (optional as_opt_int None d ''column_end'') (\<lambda>ce. Inr (make_location file start end1 cs ce)))))))"

record finding =
  fg_rule :: string
  fg_name :: string
  fg_severity :: severity
  fg_location :: location
  fg_message :: string
  fg_evidence :: "location list"
  fg_confidence :: pyfloat
  fg_metadata :: attributes

definition finding_to_dict :: "finding \<Rightarrow> pyval" where
  "finding_to_dict f = PDict
     [(''rule_id'', PStr (fg_rule f)), (''rule_name'', PStr (fg_name f)),
      (''severity'', PStr (severity_value (fg_severity f))), (''location'', location_to_dict (fg_location f)),
      (''message'', PStr (fg_message f)), (''evidence'', PList (map location_to_dict (fg_evidence f))),
      (''confidence'', PFloat (fst (fg_confidence f)) (snd (fg_confidence f))), (''metadata'', PDict (fg_metadata f))]"

definition as_severity :: "pyval \<Rightarrow> severity decoded" where
  "as_severity v = (case v of PStr s \<Rightarrow> (case severity_of s of Some x \<Rightarrow> Inr x
       | None \<Rightarrow> Inl (Raised (ValueError ''is not a valid Severity'')))
     | _ \<Rightarrow> Inl (Raised (ValueError ''is not a valid Severity'')))"

definition finding_from_dict :: "pyval \<Rightarrow> finding decoded" where
  "finding_from_dict v =
     bind (as_dict v) (\<lambda>d. bind (need as_str d ''rule_id'') (\<lambda>rule. bind (need as_str d ''rule_name'') (\<lambda>name.
     bind (need as_severity d ''severity'') (\<lambda>sev. bind (need location_from_dict d ''location'') (\<lambda>loc.
     bind (need as_str d ''message'') (\<lambda>msg.
     bind (optional (\<lambda>v. bind (as_list v) (traverse location_from_dict)) [] d ''evidence'') (\<lambda>ev.
     bind (optional as_float float_one d ''confidence'') (\<lambda>conf. bind (optional as_dict [] d ''metadata'') (\<lambda>meta.
       Inr \<lparr>fg_rule = rule, fg_name = name, fg_severity = sev, fg_location = loc, fg_message = msg,
         fg_evidence = ev, fg_confidence = conf, fg_metadata = meta\<rparr>)))))))))"

section \<open>The rule registry\<close>

text \<open>What the registry reads of a rule.\<close>

record rule_info =
  ru_id :: string
  ru_languages :: "string list option"

record 'r rule_registry =
  rr_rules :: "'r rule_info_scheme list"
  rr_by_id :: "(string, 'r rule_info_scheme) dict"

definition empty_registry :: "'r rule_registry" where
  "empty_registry = \<lparr>rr_rules = [], rr_by_id = []\<rparr>"

definition register :: "'r rule_registry \<Rightarrow> 'r rule_info_scheme \<Rightarrow> 'r rule_registry checked" where
  "register r rule =
     (if dict_has (rr_by_id r) (ru_id rule)
      then Inl (ValueError (''Rule with id '' @ [char_of (39::nat)] @ ru_id rule @ [char_of (39::nat)] @ '' already registered''))
      else Inr \<lparr>rr_rules = rr_rules r @ [rule], rr_by_id = dict_set (ru_id rule) rule (rr_by_id r)\<rparr>)"

definition rules_for_language :: "'r rule_registry \<Rightarrow> string \<Rightarrow> 'r rule_info_scheme list" where
  "rules_for_language r language =
     filter (\<lambda>rule. case ru_languages rule of None \<Rightarrow> True | Some ls \<Rightarrow> language \<in> set ls) (rr_rules r)"

definition get_rule :: "'r rule_registry \<Rightarrow> string \<Rightarrow> 'r rule_info_scheme option" where
  "get_rule r i = dict_get (rr_by_id r) i"

definition list_rule_ids :: "'r rule_registry \<Rightarrow> string list" where
  "list_rule_ids r = map ru_id (rr_rules r)"

section \<open>SARIF\<close>

fun sarif_level :: "severity \<Rightarrow> string" where
  "sarif_level ERROR = ''error''"
| "sarif_level WARNING = ''warning''"
| "sarif_level INFO = ''note''"

fun sarif_rank :: "severity \<Rightarrow> pyfloat" where
  "sarif_rank ERROR = (4, ''4.0'')"
| "sarif_rank WARNING = (2, ''2.0'')"
| "sarif_rank INFO = (1 / 2, ''0.5'')"

text \<open>\<open>str(Path(p).as_posix())\<close> on a POSIX system.\<close>

definition posix_path :: "string \<Rightarrow> string" where
  "posix_path p =
     (let body = join ''/'' (path_parts p);
          anchor = (if starts_with ''//'' p \<and> \<not> starts_with ''///'' p then ''//''
                    else if starts_with ''/'' p then ''/'' else [])
      in if anchor @ body = [] then ''.'' else anchor @ body)"

definition line_region :: "location \<Rightarrow> attributes" where
  "line_region l =
     (''startLine'', PInt (lo_start l)) # (if lo_end l \<noteq> 0 then [(''endLine'', PInt (lo_end l))] else [])"

definition column_item :: "string \<Rightarrow> int option \<Rightarrow> attributes" where
  "column_item key c = (case c of None \<Rightarrow> [] | Some n \<Rightarrow> if n \<noteq> 0 then [(key, PInt n)] else [])"

definition sarif_place :: "location \<Rightarrow> attributes \<Rightarrow> pyval" where
  "sarif_place l region = PDict [(''physicalLocation'', PDict
     [(''artifactLocation'', PDict [(''uri'', PStr (posix_path (lo_file l))), (''uribaseId'', PStr ''%SRCROOT%'')]),
      (''region'', PDict region)])]"

definition finding_to_sarif :: "finding \<Rightarrow> nat \<Rightarrow> attributes" where
  "finding_to_sarif f index =
     [(''ruleId'', PStr (fg_rule f)),
      (''ruleIndex'', PInt (int index)),
      (''level'', PStr (sarif_level (fg_severity f))),
      (''rank'', PFloat (fst (sarif_rank (fg_severity f))) (snd (sarif_rank (fg_severity f)))),
      (''message'', PDict [(''text'', PStr (fg_message f))]),
      (''locations'', PList [sarif_place (fg_location f) (line_region (fg_location f) @
         column_item ''startColumn'' (lo_col_start (fg_location f)) @ column_item ''endColumn'' (lo_col_end (fg_location f)))]),
      (''relatedLocations'', PList (map (\<lambda>l. sarif_place l (line_region l)) (fg_evidence f))),
      (''properties'', PDict (dict_update
         [(''confidence'', PFloat (fst (fg_confidence f)) (snd (fg_confidence f)))] (fg_metadata f)))]"

text \<open>
  \<open>str.title\<close>: a cased character starts a word unless one precedes it. The three letters below 256
  whose upper case lies above are outside the model.
\<close>

definition is_cased :: "char \<Rightarrow> bool" where
  "is_cased c = (let n = code c in (65 \<le> n \<and> n \<le> 90) \<or> (97 \<le> n \<and> n \<le> 122) \<or> n = 170 \<or> n = 181 \<or> n = 186 \<or>
     (192 \<le> n \<and> n \<noteq> 215 \<and> n \<noteq> 247))"

definition upper_char :: "char \<Rightarrow> char" where
  "upper_char c = (let n = code c in
     if (97 \<le> n \<and> n \<le> 122) \<or> (224 \<le> n \<and> n \<le> 254 \<and> n \<noteq> 247) then char_of (n - 32) else c)"

fun title_from :: "bool \<Rightarrow> string \<Rightarrow> string" where
  "title_from cased [] = []"
| "title_from cased (c # s) = (if cased then lower_char c else upper_char c) # title_from (is_cased c) s"

definition sarif_rule :: "string \<Rightarrow> pyval" where
  "sarif_rule i =
     (let description = title_from False (map (\<lambda>c. if c = CHR ''_'' then CHR '' '' else c) i) in
      PDict [(''id'', PStr i), (''shortDescription'', PDict [(''text'', PStr description)]),
             (''fullDescription'', PDict [(''text'', PStr description)])])"

definition sarif_rules :: "string list \<Rightarrow> attributes" where
  "sarif_rules ids = dict_of (\<lambda>i. i) sarif_rule ids"

fun position :: "'a \<Rightarrow> 'a list \<Rightarrow> nat" where
  "position x [] = 0"
| "position x (y # ys) = (if x = y then 0 else Suc (position x ys))"

text \<open>\<open>ord\<close>: the order in which Python lists the set of rule ids.\<close>

definition sarif_results :: "(string list \<Rightarrow> string list) \<Rightarrow> finding list \<Rightarrow> attributes list" where
  "sarif_results ord fs =
     (let ids = ord (map fg_rule fs) in map (\<lambda>f. finding_to_sarif f (position (fg_rule f) ids)) fs)"

definition to_sarif_log ::
  "(string list \<Rightarrow> string list) \<Rightarrow> string \<Rightarrow> string \<Rightarrow> string \<Rightarrow> string \<Rightarrow> finding list \<Rightarrow> pyval" where
  "to_sarif_log ord tool version started ended fs = PDict
     [(''version'', PStr ''2.1.0''),
      (''$schema'', PStr ''https://json.schemastore.org/sarif-2.1.0.json''),
      (''runs'', PList [PDict
        [(''tool'', PDict [(''driver'', PDict
           [(''name'', PStr tool), (''version'', PStr version),
            (''informationUri'', PStr ''https://github.com/xianyu-sheng/SmartBench''),
            (''rules'', PDict (sarif_rules (ord (map fg_rule fs))))])]),
         (''results'', PList (map PDict (sarif_results ord fs))),
         (''invocations'', PList [PDict
           [(''executionSuccessful'', PBool True), (''startTimeUtc'', PStr (started @ ''Z'')),
            (''endTimeUtc'', PStr (ended @ ''Z''))]])]])]"

section \<open>Facts\<close>

lemma severity_of_value [simp]: "severity_of (severity_value s) = Some s"
  by (cases s) (simp_all add: severity_of_def all_severities_def)

lemma location_roundtrip [simp]: "location_from_dict (location_to_dict l) = Inr l"
  by (cases l) (simp add: location_from_dict_def location_to_dict_def decode_simps dict_get_Cons make_location_def
      py_opt_int_def split: option.splits)

lemma traverse_roundtrip: "(\<And>x. f (g x) = Inr x) \<Longrightarrow> traverse f (map g xs) = Inr xs"
  by (induction xs) simp_all

definition registry_ok :: "'r rule_registry \<Rightarrow> bool" where
  "registry_ok r \<longleftrightarrow> distinct (map ru_id (rr_rules r)) \<and>
     (\<forall>i. dict_get (rr_by_id r) i = find (\<lambda>rule. ru_id rule = i) (rr_rules r))"

lemma find_append: "find P (xs @ ys) = (case find P xs of None \<Rightarrow> find P ys | Some x \<Rightarrow> Some x)"
  by (induction xs) auto

lemma register_ok:
  assumes "registry_ok r"
  shows "register r rule = Inr r' \<Longrightarrow> registry_ok r' \<and> rr_rules r' = rr_rules r @ [rule] \<and> ru_id rule \<notin> ru_id ` set (rr_rules r)"
    "register r rule = Inl e \<Longrightarrow> ru_id rule \<in> ru_id ` set (rr_rules r)"
proof -
  have has: "dict_has (rr_by_id r) (ru_id rule) \<longleftrightarrow> ru_id rule \<in> ru_id ` set (rr_rules r)"
  proof -
    have "dict_has (rr_by_id r) (ru_id rule) \<longleftrightarrow> find (\<lambda>x. ru_id x = ru_id rule) (rr_rules r) \<noteq> None"
      using assms by (simp add: registry_ok_def dict_has_iff)
    also have "\<dots> \<longleftrightarrow> ru_id rule \<in> ru_id ` set (rr_rules r)" by (auto simp: find_None_iff intro: rev_image_eqI)
    finally show ?thesis .
  qed
  show "register r rule = Inl e \<Longrightarrow> ru_id rule \<in> ru_id ` set (rr_rules r)"
    using has by (simp add: register_def split: if_splits)
  assume "register r rule = Inr r'"
  with has have r': "r' = \<lparr>rr_rules = rr_rules r @ [rule], rr_by_id = dict_set (ru_id rule) rule (rr_by_id r)\<rparr>"
    "ru_id rule \<notin> ru_id ` set (rr_rules r)" by (simp_all add: register_def split: if_splits)
  have "find (\<lambda>x. ru_id x = ru_id rule) (rr_rules r) = None" unfolding find_None_iff using r'(2) by (metis imageI)
  with assms r' show "registry_ok r' \<and> rr_rules r' = rr_rules r @ [rule] \<and> ru_id rule \<notin> ru_id ` set (rr_rules r)"
    by (simp add: registry_ok_def find_append split: option.splits)
qed

lemma register_all:
  "registry_ok r \<Longrightarrow>
   (case fold_checked register r rules of
      Inr r' \<Rightarrow> registry_ok r' \<and> rr_rules r' = rr_rules r @ rules \<and> distinct (map ru_id (rr_rules r @ rules))
    | Inl e \<Rightarrow> \<not> distinct (map ru_id (rr_rules r @ rules)))"
proof (induction rules arbitrary: r)
  case (Cons rule rules)
  show ?case
  proof (cases "register r rule")
    case (Inl e)
    with register_ok(2)[OF Cons.prems Inl] show ?thesis by auto
  next
    case (Inr r1)
    with register_ok(1)[OF Cons.prems Inr] Cons.IH[of r1] show ?thesis by (simp split: sum.splits)
  qed
qed (simp add: registry_ok_def)

lemma position_nth: "x \<in> set xs \<Longrightarrow> position x xs < length xs \<and> xs ! position x xs = x"
  by (induction xs) auto

lemma dict_of_keys:
  assumes "distinct (d @ xs)"
  shows "foldl (\<lambda>m x. dict_set x (f x) m) (map (\<lambda>x. (x, f x)) d) xs = map (\<lambda>x. (x, f x)) (d @ xs)"
  using assms
proof (induction xs arbitrary: d)
  case (Cons x xs)
  have "dict_set x (f x) (map (\<lambda>x. (x, f x)) d) = map (\<lambda>x. (x, f x)) (d @ [x])"
    using Cons.prems by (induction d) (auto simp: dict_set_def)
  with Cons.IH[of "d @ [x]"] Cons.prems show ?case by simp
qed simp

lemma sarif_rules_keys: "distinct ids \<Longrightarrow> sarif_rules ids = map (\<lambda>i. (i, sarif_rule i)) ids"
  using dict_of_keys[of "[]" ids sarif_rule] by (simp add: sarif_rules_def dict_of_def)

section \<open>Properties\<close>

text \<open>A finding is read back from its dictionary form unchanged, whatever its fields hold.\<close>

theorem finding_roundtrip: "finding_from_dict (finding_to_dict f) = Inr f"
  by (cases f) (simp add: finding_from_dict_def finding_to_dict_def decode_simps dict_get_Cons as_severity_def
      traverse_roundtrip)

text \<open>
  Registering rules in turn succeeds exactly when their ids are distinct; the registry then
  lists them in registration order, finds each by its id, and offers a language exactly the rules
  that name it or name no language.
\<close>

theorem registry_correct:
  "(case fold_checked register empty_registry rules of
      Inl e \<Rightarrow> \<not> distinct (map ru_id rules)
    | Inr r \<Rightarrow> distinct (map ru_id rules) \<and> list_rule_ids r = map ru_id rules \<and>
        (\<forall>i. get_rule r i = find (\<lambda>rule. ru_id rule = i) rules) \<and>
        (\<forall>l. rules_for_language r l =
           filter (\<lambda>rule. ru_languages rule = None \<or> (\<exists>ls. ru_languages rule = Some ls \<and> l \<in> set ls)) rules))"
proof -
  have "registry_ok empty_registry" by (simp add: registry_ok_def empty_registry_def)
  moreover have "(case x of None \<Rightarrow> True | Some ls \<Rightarrow> l \<in> set ls) = (x = None \<or> (\<exists>ls. x = Some ls \<and> l \<in> set ls))"
    for x :: "string list option" and l by (cases x) auto
  ultimately show ?thesis
    using register_all[of empty_registry rules]
    by (auto simp: empty_registry_def registry_ok_def get_rule_def list_rule_ids_def rules_for_language_def split: sum.splits)
qed

text \<open>
  In the SARIF log there is one result per finding, in order, and the rule index of a result
  points to its rule id in the emitted rules, in whatever order Python lists the set of rule ids.
\<close>

theorem sarif_rule_index:
  assumes "\<And>xs. set (ord xs) = set xs" "\<And>xs. distinct (ord xs)" "i < length fs"
  shows "\<exists>k. length (sarif_results ord fs) = length fs \<and>
    dict_get (sarif_results ord fs ! i) ''ruleIndex'' = Some (PInt (int k)) \<and>
    dict_get (sarif_results ord fs ! i) ''ruleId'' = Some (PStr (fg_rule (fs ! i))) \<and>
    k < length (sarif_rules (ord (map fg_rule fs))) \<and>
    fst (sarif_rules (ord (map fg_rule fs)) ! k) = fg_rule (fs ! i)"
proof -
  let ?ids = "ord (map fg_rule fs)" and ?k = "position (fg_rule (fs ! i)) (ord (map fg_rule fs))"
  have "fg_rule (fs ! i) \<in> set ?ids" using assms(1,3) by simp
  from position_nth[OF this] sarif_rules_keys[OF assms(2), of "map fg_rule fs"] assms(3) show ?thesis
    by (intro exI[of _ ?k]) (simp add: sarif_results_def finding_to_sarif_def dict_get_Cons Let_def)
qed

definition sample_finding :: finding where
  "sample_finding = \<lparr>fg_rule = ''null_deref'', fg_name = ''N'', fg_severity = WARNING,
     fg_location = make_location ''./a.py'' 3 None None None, fg_message = ''m'', fg_evidence = [],
     fg_confidence = float_one, fg_metadata = []\<rparr>"

theorem sarif_rule_index_witness:
  "\<exists>k. dict_get (sarif_results remdups [sample_finding] ! 0) ''ruleIndex'' = Some (PInt (int k)) \<and>
     fst (sarif_rules (remdups [''null_deref'']) ! k) = ''null_deref''"
  using sarif_rule_index[of remdups 0 "[sample_finding]"] by (auto simp: sample_finding_def)

end
