(* ===== verification/ConsentQueue.thy ===== *)
theory ConsentQueue
  imports Decode
begin

text \<open>
  \<open>consent/queue.py\<close>: the local queue of consent requests. A queue is the loaded document with its
  list of requests, each a dictionary; reading and writing the file, the clock and \<open>git\<close> are
  arguments. Sending is not part of the queue.
\<close>

record queue =
  q_schema :: attributes
  q_requests :: "attributes list"

definition queue_schema :: string where
  "queue_schema = ''smartbench.consent.queue/v1''"

definition self_repositories :: "string list" where
  "self_repositories = [''xianyu-sheng/smartbench'']"

definition empty_queue :: queue where
  "empty_queue = \<lparr>q_schema = [(''schema_version'', PStr queue_schema)], q_requests = []\<rparr>"

section \<open>Remote URLs\<close>

definition is_repo_char :: "char \<Rightarrow> bool" where
  "is_repo_char c = (is_ident_char c \<or> c = CHR ''.'' \<or> c = CHR ''-'')"

definition github_prefixes :: "string list" where
  "github_prefixes = [''git@github.com:'', ''http://github.com/'', ''https://github.com/'', ''ssh://git@github.com/'']"

text \<open>The second group is lazy: one final slash and then one \<open>.git\<close> are left out of it where that leaves a name.\<close>

definition repository_name :: "string \<Rightarrow> string" where
  "repository_name rest =
     (let t = (if ends_with ''/'' rest then butlast rest else rest)
      in if ends_with ''.git'' t \<and> 4 < length t then take (length t - 4) t else t)"

definition parse_github_repository :: "string \<Rightarrow> string option" where
  "parse_github_repository url =
     (let u = strip url in
      case find (\<lambda>p. starts_with p u) github_prefixes of
        None \<Rightarrow> None
      | Some p \<Rightarrow>
          (let body = drop (length p) u; owner = takeWhile is_repo_char body; after = dropWhile is_repo_char body
           in case after of
                c # rest \<Rightarrow>
                  (let name = repository_name rest in
                   if owner \<noteq> [] \<and> c = CHR ''/'' \<and> name \<noteq> [] \<and> list_all is_repo_char name
                   then Some (owner @ ''/'' @ name) else None)
              | [] \<Rightarrow> None))"

section \<open>Staging\<close>

definition repo_key :: "attributes \<Rightarrow> string" where
  "repo_key e = lower (attr_str [] e ''repository'')"

definition new_request :: "string \<Rightarrow> string \<Rightarrow> string \<Rightarrow> attributes" where
  "new_request repository project stamp =
     [(''repository'', PStr repository), (''project_name'', PStr project), (''trajectory_ids'', PList []),
      (''status'', PStr ''staged''), (''created_at'', PStr stamp), (''updated_at'', PStr stamp),
      (''requested_at'', PNone), (''contact_source'', PNone), (''message_id'', PNone), (''note'', PStr [])]"

definition add_trajectory :: "string \<Rightarrow> attributes \<Rightarrow> attributes decoded" where
  "add_trajectory tid e =
     (if tid = [] then Inr e
      else bind (need as_list e ''trajectory_ids'') (\<lambda>ids.
        Inr (if PStr tid \<in> set ids then e else dict_set ''trajectory_ids'' (PList (ids @ [PStr tid])) e)))"

definition touch :: "string \<Rightarrow> string \<Rightarrow> attributes \<Rightarrow> attributes" where
  "touch stamp project e =
     (let e1 = dict_set ''updated_at'' (PStr stamp) e in
      if project \<noteq> [] \<and> \<not> py_truth (dict_get_or PNone e1 ''project_name'')
      then dict_set ''project_name'' (PStr project) e1 else e1)"

text \<open>The first request a test accepts is replaced; \<open>None\<close> when there is none.\<close>

fun update_first :: "('a \<Rightarrow> bool) \<Rightarrow> ('a \<Rightarrow> 'e + 'a) \<Rightarrow> 'a list \<Rightarrow> 'e + 'a list option" where
  "update_first P f [] = Inr None"
| "update_first P f (x # xs) =
     (if P x then bind (f x) (\<lambda>y. Inr (Some (y # xs)))
      else bind (update_first P f xs) (\<lambda>r. Inr (map_option ((#) x) r)))"

definition stage :: "string \<Rightarrow> string \<Rightarrow> string \<Rightarrow> string \<Rightarrow> queue \<Rightarrow> queue decoded" where
  "stage repository tid project stamp q =
     (let repo = strip repository in
      if count_list repo (CHR ''/'') \<noteq> 1 then Inl (Raised (ValueError ''repository must be owner/repo''))
      else
        (let requests = (if list_ex (\<lambda>e. repo_key e = lower repo) (q_requests q) then q_requests q
               else q_requests q @ [new_request repo project stamp])
         in bind (update_first (\<lambda>e. repo_key e = lower repo)
                (\<lambda>e. bind (add_trajectory tid e) (\<lambda>e1. Inr (touch stamp project e1))) requests)
              (\<lambda>r. Inr (case r of None \<Rightarrow> q | Some es \<Rightarrow> q\<lparr>q_requests := es\<rparr>))))"

definition update_request :: "string \<Rightarrow> attributes \<Rightarrow> string \<Rightarrow> queue \<Rightarrow> queue option" where
  "update_request repository changes stamp q =
     (case update_first (\<lambda>e. repo_key e = lower repository)
        (\<lambda>e. Inr (dict_set ''updated_at'' (PStr stamp) (dict_update e changes)) :: unit + attributes) (q_requests q) of
        Inr (Some es) \<Rightarrow> Some (q\<lparr>q_requests := es\<rparr>)
      | _ \<Rightarrow> None)"

text \<open>A saved trajectory is staged when it has findings and its remote is a third party's.\<close>

definition stage_trajectory ::
  "string option \<Rightarrow> string \<Rightarrow> string \<Rightarrow> bool \<Rightarrow> string \<Rightarrow> queue \<Rightarrow> queue option decoded" where
  "stage_trajectory remote tid project has_findings stamp q =
     (if \<not> has_findings then Inr None
      else (case remote of
              None \<Rightarrow> Inr None
            | Some repository \<Rightarrow>
                (if repository = [] \<or> lower repository \<in> set self_repositories then Inr None
                 else bind (stage repository tid project stamp q) (\<lambda>q'. Inr (Some q')))))"

section \<open>Facts about staging\<close>

definition trajectory_list :: "attributes \<Rightarrow> pyval" where
  "trajectory_list e = dict_get_or PNone e ''trajectory_ids''"

lemma repo_key_set [simp]: "k \<noteq> ''repository'' \<Longrightarrow> repo_key (dict_set k v e) = repo_key e"
  by (simp add: repo_key_def attr_str_def)

lemma repo_key_touch [simp]: "repo_key (touch stamp project e) = repo_key e"
  by (simp add: touch_def Let_def)

lemma trajectory_list_set [simp]:
  "trajectory_list (dict_set k v e) = (if k = ''trajectory_ids'' then v else trajectory_list e)"
  by (simp add: trajectory_list_def)

lemma trajectory_list_touch [simp]: "trajectory_list (touch stamp project e) = trajectory_list e"
  by (simp add: touch_def Let_def)

lemma new_request_sel: "repo_key (new_request repo project stamp) = lower repo"
  "trajectory_list (new_request repo project stamp) = PList []"
  by (simp_all add: repo_key_def new_request_def attr_str_def dict_get_Cons py_str_def trajectory_list_def dict_get_or_get)

text \<open>\<open>T\<close> gives the trajectory ids of a request by its repository.\<close>

definition queue_holds :: "(string \<Rightarrow> string list) \<Rightarrow> attributes list \<Rightarrow> bool" where
  "queue_holds T es \<longleftrightarrow> distinct (map repo_key es) \<and> (\<forall>e \<in> set es. trajectory_list e = PList (map PStr (T (repo_key e))))"

lemma add_trajectory_holds:
  assumes "trajectory_list e = PList (map PStr ids)"
  shows "\<exists>e'. add_trajectory tid e = Inr e' \<and> repo_key e' = repo_key e \<and>
    trajectory_list e' = PList (map PStr (if tid = [] \<or> tid \<in> set ids then ids else ids @ [tid]))"
proof -
  have "dict_get e ''trajectory_ids'' = Some (PList (map PStr ids))"
    using assms by (auto simp: trajectory_list_def dict_get_or_get split: option.splits)
  then have "need as_list e ''trajectory_ids'' = Inr (map PStr ids)" by (simp add: decode_simps)
  with assms show ?thesis by (auto simp: add_trajectory_def)
qed

lemma update_first_holds:
  assumes "queue_holds T es" "k \<in> repo_key ` set es"
    "\<And>e. e \<in> set es \<Longrightarrow> repo_key e = k \<Longrightarrow> \<exists>e'. f e = Inr e' \<and> repo_key e' = k \<and> trajectory_list e' = PList (map PStr ids)"
  shows "\<exists>es'. update_first (\<lambda>e. repo_key e = k) f es = Inr (Some es') \<and> map repo_key es' = map repo_key es \<and>
    queue_holds (T(k := ids)) es'"
  using assms
proof (induction es)
  case (Cons e es)
  show ?case
  proof (cases "repo_key e = k")
    case True
    with Cons.prems(3)[of e] obtain e' where "f e = Inr e'" "repo_key e' = k" "trajectory_list e' = PList (map PStr ids)"
      by auto
    with Cons.prems(1) True show ?thesis by (auto simp: queue_holds_def) (metis imageI)
  next
    case False
    with Cons.prems have "queue_holds T es" "k \<in> repo_key ` set es" by (auto simp: queue_holds_def)
    from Cons.IH[OF this] Cons.prems(3) obtain es' where "update_first (\<lambda>e. repo_key e = k) f es = Inr (Some es')"
      "map repo_key es' = map repo_key es" "queue_holds (T(k := ids)) es'" by (auto simp del: fun_upd_apply)
    moreover from this(2) have "repo_key ` set es' = repo_key ` set es" by (metis list.set_map)
    ultimately show ?thesis using Cons.prems(1) False by (auto simp: queue_holds_def)
  qed
qed simp

lemma stage_holds:
  assumes "queue_holds T (q_requests q)" "stage repository tid project stamp q = Inr q'"
    "\<And>k. k \<notin> repo_key ` set (q_requests q) \<Longrightarrow> T k = []"
  defines "k \<equiv> lower (strip repository)"
  shows "queue_holds (T(k := if tid = [] \<or> tid \<in> set (T k) then T k else T k @ [tid])) (q_requests q') \<and>
    repo_key ` set (q_requests q') = insert k (repo_key ` set (q_requests q)) \<and> q_schema q' = q_schema q"
proof -
  define es where "es = (if list_ex (\<lambda>e. repo_key e = k) (q_requests q) then q_requests q
    else q_requests q @ [new_request (strip repository) project stamp])"
  let ?ids = "if tid = [] \<or> tid \<in> set (T k) then T k else T k @ [tid]"
  let ?f = "\<lambda>e. bind (add_trajectory tid e) (\<lambda>e1. Inr (touch stamp project e1))"
  have ex: "list_ex (\<lambda>e. repo_key e = k) (q_requests q) \<longleftrightarrow> k \<in> repo_key ` set (q_requests q)"
    by (auto simp: list_ex_iff)
  have es: "queue_holds T es \<and> repo_key ` set es = insert k (repo_key ` set (q_requests q))"
  proof (cases "k \<in> repo_key ` set (q_requests q)")
    case True
    with ex assms(1) show ?thesis by (auto simp: es_def)
  next
    case False
    with assms(1) assms(3)[OF False] show ?thesis unfolding es_def ex by (simp add: queue_holds_def new_request_sel k_def)
  qed
  have "\<exists>e'. ?f e = Inr e' \<and> repo_key e' = k \<and> trajectory_list e' = PList (map PStr ?ids)"
    if "e \<in> set es" "repo_key e = k" for e
    using add_trajectory_holds[of e "T k" tid] es that by (auto simp: queue_holds_def)
  note step = this
  have "k \<in> repo_key ` set es" using es by simp
  from es have "queue_holds T es" ..
  from this \<open>k \<in> repo_key ` set es\<close>
  have "\<exists>es'. update_first (\<lambda>e. repo_key e = k) ?f es = Inr (Some es') \<and> map repo_key es' = map repo_key es \<and>
    queue_holds (T(k := ?ids)) es'"
    by (rule update_first_holds) (rule step)
  then obtain es' where
    es': "update_first (\<lambda>e. repo_key e = k) ?f es = Inr (Some es')" "map repo_key es' = map repo_key es"
    "queue_holds (T(k := ?ids)) es'" by (elim exE conjE) (rule that)
  have "q' = q\<lparr>q_requests := es'\<rparr>"
    using assms(2) es'(1) by (simp add: stage_def Let_def es_def k_def split: if_splits)
  moreover have "repo_key ` set es' = repo_key ` set es" using arg_cong[OF es'(2), of set] by simp
  ultimately show ?thesis using es'(3) es by (simp del: fun_upd_apply)
qed

text \<open>A history of staging calls: repository, trajectory id, project name and time.\<close>

type_synonym stage_call = "string \<times> string \<times> string \<times> string"

definition stage_all :: "stage_call list \<Rightarrow> queue \<Rightarrow> queue decoded" where
  "stage_all calls q = fold_checked (\<lambda>q (r, t, p, s). stage r t p s q) q calls"

definition call_key :: "stage_call \<Rightarrow> string" where
  "call_key c = (case c of (r, t, p, s) \<Rightarrow> lower (strip r))"

definition call_id :: "stage_call \<Rightarrow> string" where
  "call_id c = (case c of (r, t, p, s) \<Rightarrow> t)"

definition staged_ids :: "stage_call list \<Rightarrow> string \<Rightarrow> string list" where
  "staged_ids calls k =
     dedup (map call_id (filter (\<lambda>c. call_key c = k \<and> call_id c \<noteq> []) calls))"

lemma dedup_by_snoc:
  "dedup_by key seen (xs @ [x]) = dedup_by key seen xs @ (if key x \<in> key ` set xs \<union> set seen then [] else [x])"
  by (induction key seen xs rule: dedup_by.induct) auto

lemma dedup_snoc: "dedup (xs @ [x]) = (if x \<in> set xs then dedup xs else dedup xs @ [x])"
  by (simp add: dedup_def dedup_by_snoc)

lemma stage_all_snoc: "stage_all (calls @ [(r, t, p, s)]) q = bind (stage_all calls q) (stage r t p s)"
proof -
  have "fold_checked f q (xs @ [x]) = bind (fold_checked f q xs) (\<lambda>q. f q x)"
    for f :: "queue \<Rightarrow> stage_call \<Rightarrow> queue decoded" and q xs x
    by (induction xs arbitrary: q) (auto simp: bind_def split: sum.splits)
  then show ?thesis by (simp add: stage_all_def)
qed

lemma stage_all_holds:
  "stage_all calls empty_queue = Inr q \<Longrightarrow>
   queue_holds (staged_ids calls) (q_requests q) \<and>
   repo_key ` set (q_requests q) = call_key ` set calls"
proof (induction calls arbitrary: q rule: rev_induct)
  case Nil
  then show ?case by (auto simp: stage_all_def empty_queue_def queue_holds_def)
next
  case (snoc call calls)
  obtain r t p s where call: "call = (r, t, p, s)" by (cases call)
  from snoc.prems obtain q0 where q0: "stage_all calls empty_queue = Inr q0" "stage r t p s q0 = Inr q"
    by (auto simp: call stage_all_snoc)
  note IH = snoc.IH[OF q0(1)]
  have none: "staged_ids calls k = []" if "k \<notin> repo_key ` set (q_requests q0)" for k
  proof -
    from that have "k \<notin> call_key ` set calls" unfolding conjunct2[OF IH] .
    then have "filter (\<lambda>c. call_key c = k \<and> call_id c \<noteq> []) calls = []"
      by (auto simp: filter_empty_conv)
    then show ?thesis by (simp add: staged_ids_def dedup_def)
  qed
  let ?k = "lower (strip r)"
  have eq: "staged_ids (calls @ [call]) = (staged_ids calls)(?k := if t = [] \<or> t \<in> set (staged_ids calls ?k)
      then staged_ids calls ?k else staged_ids calls ?k @ [t])"
    by (rule ext) (simp add: staged_ids_def call dedup_snoc call_key_def call_id_def)
  note held = stage_holds[OF conjunct1[OF IH] q0(2) none]
  have "queue_holds (staged_ids (calls @ [call])) (q_requests q)" unfolding eq by (rule conjunct1[OF held])
  with held IH show ?case by (simp add: call call_key_def)
qed

section \<open>Properties\<close>

text \<open>
  After any history of successful staging calls on an empty queue there is exactly one request
  per repository, letter case and surrounding space aside, and it lists exactly the trajectories
  staged for it, each once and in the order of first staging.
\<close>

theorem staged_queue_exact:
  assumes "stage_all calls empty_queue = Inr q"
  shows "distinct (map repo_key (q_requests q)) \<and>
    set (map repo_key (q_requests q)) = set (map call_key calls) \<and>
    (\<forall>e \<in> set (q_requests q). dict_get e ''trajectory_ids'' = Some (PList (map PStr (staged_ids calls (repo_key e)))))"
  using stage_all_holds[OF assms]
  by (auto simp: queue_holds_def trajectory_list_def dict_get_or_get split: option.splits)

theorem staged_queue_exact_witness:
  "\<exists>q. stage_all [('' O/r '', ''t1'', ''p'', ''1''), (''o/R'', ''t2'', [], ''2''), (''o/r'', ''t1'', [], ''3'')] empty_queue = Inr q \<and>
     map repo_key (q_requests q) = [''o/r''] \<and>
     (\<exists>e \<in> set (q_requests q). dict_get e ''trajectory_ids'' = Some (PList [PStr ''t1'', PStr ''t2'']))"
proof -
  let ?calls = "[('' O/r '', ''t1'', ''p'', ''1''), (''o/R'', ''t2'', [], ''2''), (''o/r'', ''t1'', [], ''3'')]"
  have "case stage_all ?calls empty_queue of Inr q \<Rightarrow> map repo_key (q_requests q) = [''o/r''] | Inl _ \<Rightarrow> False" by code_simp
  then obtain q where q: "stage_all ?calls empty_queue = Inr q" "map repo_key (q_requests q) = [''o/r'']"
    by (auto split: sum.splits)
  moreover have "staged_ids ?calls ''o/r'' = [''t1'', ''t2'']" by code_simp
  moreover from q(2) obtain e where "q_requests q = [e]" "repo_key e = ''o/r''" by auto
  ultimately show ?thesis using staged_queue_exact[OF q(1)] by auto
qed

end
