(* ===== verification/Json.thy ===== *)
theory Json
  imports PyFloat
begin

text \<open>
  \<open>json.loads\<close> and \<open>JSONDecoder.raw_decode\<close> of the standard library, as the program uses them on
  model output and on its own files, and the layouts of \<open>json.dumps\<close> other than the sorted one of
  \<open>PyValue\<close>. Values the model has no form for (characters above 255, \<open>NaN\<close>, infinities, integers
  beyond the digit limit of the interpreter) are the result \<open>Beyond\<close>; the recursion limit of the
  interpreter is not modelled.
\<close>

datatype json_error = Malformed | Beyond

type_synonym 'a scan = "json_error + ('a \<times> string)"

section \<open>\<open>json.dumps\<close> without sorted keys\<close>

primrec json_plain :: "pyval \<Rightarrow> string" where
  "json_plain PNone = ''null''"
| "json_plain (PBool b) = (if b then ''true'' else ''false'')"
| "json_plain (PInt i) = str_of_int i"
| "json_plain (PFloat q t) = t"
| "json_plain (PStr s) = json_str s"
| "json_plain (PList xs) = ''['' @ join '', '' (map json_plain xs) @ '']''"
| "json_plain (PTuple xs) = ''['' @ join '', '' (map json_plain xs) @ '']''"
| "json_plain (PDict kvs) =
     ''{'' @ join '', '' (map (\<lambda>(k, t). json_str k @ '': '' @ t) (map (map_prod id json_plain) kvs)) @ ''}''"

section \<open>Text of a float\<close>

function decimal_length :: "int \<Rightarrow> nat" where
  "decimal_length n = (if n \<le> 0 then 0 else Suc (decimal_length (n div 10)))"
  by pat_completeness auto
termination by (relation "measure nat") auto

declare decimal_length.simps [simp del]

definition decimal_exponent :: "rat \<Rightarrow> int" where
  "decimal_exponent a =
     (if 1 \<le> a then int (decimal_length \<lfloor>a\<rfloor>) - 1 else - int (decimal_length (\<lceil>1 / a\<rceil> - 1)))"

text \<open>The decimal of \<open>n\<close> digits nearest to \<open>a\<close> among the two around it that read back as \<open>a\<close>.\<close>

definition decimal_of_digits :: "rat \<Rightarrow> nat \<Rightarrow> (int \<times> int) option" where
  "decimal_of_digits a n =
     (let k = decimal_exponent a - int n + 1; x = a / power_ten k; lo = \<lfloor>x\<rfloor>;
          back = (\<lambda>m. to_double (of_int m * power_ten k) = Finite a)
      in if back lo \<and> (x - of_int lo \<le> of_int (lo + 1) - x \<or> \<not> back (lo + 1)) then Some (lo, k)
         else if back (lo + 1) then Some (lo + 1, k) else None)"

fun shortest_decimal :: "rat \<Rightarrow> nat list \<Rightarrow> (int \<times> int) option" where
  "shortest_decimal a [] = None"
| "shortest_decimal a (n # ns) = (case decimal_of_digits a n of Some d \<Rightarrow> Some d | None \<Rightarrow> shortest_decimal a ns)"

definition exponent_text :: "int \<Rightarrow> string" where
  "exponent_text e =
     (let ds = digits_of (nat \<bar>e\<bar>) in
      CHR ''e'' # (if e < 0 then CHR ''-'' else CHR ''+'') # (if length ds < 2 then CHR ''0'' # ds else ds))"

definition decimal_text :: "int \<Rightarrow> int \<Rightarrow> string" where
  "decimal_text m k =
     (let full = digits_of (nat m); ds = rev (dropWhile (\<lambda>c. c = CHR ''0'') (rev full));
          point = int (length full) + k
      in if - 4 < point \<and> point \<le> 16
         then (if point \<le> 0 then ''0.'' @ replicate (nat (- point)) (CHR ''0'') @ ds
               else if int (length ds) \<le> point then ds @ replicate (nat point - length ds) (CHR ''0'') @ ''.0''
               else take (nat point) ds @ ''.'' @ drop (nat point) ds)
         else take 1 ds @ (if length ds = 1 then [] else ''.'' @ drop 1 ds) @ exponent_text (point - 1))"

definition magnitude_text :: "rat \<Rightarrow> string" where
  "magnitude_text a =
     (if a = 0 then ''0.0''
      else (case shortest_decimal a [1..<18] of Some (m, k) \<Rightarrow> decimal_text m k | None \<Rightarrow> []))"

text \<open>\<open>repr\<close> of a double with a given sign (a zero may carry one).\<close>

definition float_value :: "bool \<Rightarrow> rat \<Rightarrow> pyval" where
  "float_value neg a =
     (if neg then PFloat (- a) (CHR ''-'' # magnitude_text a) else PFloat a (magnitude_text a))"

section \<open>Scanning\<close>

definition json_space :: "char \<Rightarrow> bool" where
  "json_space c = (code c = 32 \<or> code c = 9 \<or> code c = 10 \<or> code c = 13)"

definition skip_ws :: "string \<Rightarrow> string" where
  "skip_ws s = dropWhile json_space s"

definition hex_val :: "char \<Rightarrow> nat option" where
  "hex_val c =
     (let n = code c in
      if 48 \<le> n \<and> n \<le> 57 then Some (n - 48)
      else if 97 \<le> n \<and> n \<le> 102 then Some (n - 87)
      else if 65 \<le> n \<and> n \<le> 70 then Some (n - 55) else None)"

definition hex4 :: "char \<Rightarrow> char \<Rightarrow> char \<Rightarrow> char \<Rightarrow> nat option" where
  "hex4 a b c d =
     (case (hex_val a, hex_val b, hex_val c, hex_val d) of
        (Some i, Some j, Some k, Some l) \<Rightarrow> Some (((i * 16 + j) * 16 + k) * 16 + l)
      | _ \<Rightarrow> None)"

definition simple_escape :: "char \<Rightarrow> char option" where
  "simple_escape c =
     (if code c = 34 \<or> code c = 92 \<or> c = CHR ''/'' then Some c
      else if c = CHR ''b'' then Some (char_of (8::nat))
      else if c = CHR ''f'' then Some (char_of (12::nat))
      else if c = CHR ''n'' then Some (char_of (10::nat))
      else if c = CHR ''r'' then Some (char_of (13::nat))
      else if c = CHR ''t'' then Some (char_of (9::nat)) else None)"

text \<open>The text after an opening quote, up to the closing one; control characters are refused.\<close>

fun scan_string :: "string \<Rightarrow> string \<Rightarrow> string scan" where
  "scan_string acc [] = Inl Malformed"
| "scan_string acc (c # s) =
     (if code c = 34 then Inr (rev acc, s)
      else if code c = 92 then
        (case s of
           [] \<Rightarrow> Inl Malformed
         | e # t \<Rightarrow>
             (case simple_escape e of
                Some d \<Rightarrow> scan_string (d # acc) t
              | None \<Rightarrow>
                  (if e \<noteq> CHR ''u'' then Inl Malformed
                   else (case t of
                           h1 # h2 # h3 # h4 # u \<Rightarrow>
                             (case hex4 h1 h2 h3 h4 of
                                None \<Rightarrow> Inl Malformed
                              | Some n \<Rightarrow> if n < 256 then scan_string (char_of n # acc) u else Inl Beyond)
                         | _ \<Rightarrow> Inl Malformed))))
      else if code c < 32 then Inl Malformed
      else scan_string (c # acc) s)"

definition scan_fraction :: "string \<Rightarrow> string \<times> string" where
  "scan_fraction s =
     (case s of c # t \<Rightarrow> if c = CHR ''.'' \<and> takeWhile is_digit t \<noteq> [] then (takeWhile is_digit t, dropWhile is_digit t)
                         else ([], s)
      | [] \<Rightarrow> ([], s))"

definition exponent_sign :: "string \<Rightarrow> string \<times> string" where
  "exponent_sign s = (case s of c # t \<Rightarrow> if c = CHR ''-'' \<or> c = CHR ''+'' then ([c], t) else ([], s) | [] \<Rightarrow> ([], s))"

definition scan_exponent :: "string \<Rightarrow> string \<times> string" where
  "scan_exponent s =
     (case s of
        c # t \<Rightarrow>
          (let (sign, u) = exponent_sign t; ds = takeWhile is_digit u in
           if (c = CHR ''e'' \<or> c = CHR ''E'') \<and> ds \<noteq> [] then (c # sign @ ds, dropWhile is_digit u) else ([], s))
      | [] \<Rightarrow> ([], s))"

definition scan_whole :: "string \<Rightarrow> (string \<times> string) option" where
  "scan_whole s =
     (case s of
        [] \<Rightarrow> None
      | c # t \<Rightarrow> if c = CHR ''0'' then Some ([c], t)
                 else if is_digit c then Some (takeWhile is_digit s, dropWhile is_digit s) else None)"

definition number_value :: "bool \<Rightarrow> string \<Rightarrow> string \<Rightarrow> string \<Rightarrow> json_error + pyval" where
  "number_value neg whole fr ex =
     (if fr = [] \<and> ex = []
      then (if 4300 < length whole then Inl Beyond
            else Inr (PInt (if neg then - digits_int whole else digits_int whole)))
      else (case map_option (\<lambda>e. of_int (digits_int (whole @ fr)) * power_ten (e - int (length fr))) (exponent_of ex) of
              None \<Rightarrow> Inl Malformed
            | Some a \<Rightarrow> (case to_double a of Finite q \<Rightarrow> Inr (float_value neg q) | _ \<Rightarrow> Inl Beyond)))"

definition scan_number :: "string \<Rightarrow> pyval scan" where
  "scan_number s =
     (let neg = starts_with ''-'' s; t = (if neg then tl s else s) in
      case scan_whole t of
        None \<Rightarrow> Inl Malformed
      | Some (whole, r1) \<Rightarrow>
          (let (fr, r2) = scan_fraction r1; (ex, r3) = scan_exponent r2
           in bind (number_value neg whole fr ex) (\<lambda>v. Inr (v, r3))))"

definition scan_constant :: "string \<Rightarrow> pyval scan option" where
  "scan_constant s =
     (if starts_with ''null'' s then Some (Inr (PNone, drop 4 s))
      else if starts_with ''true'' s then Some (Inr (PBool True, drop 4 s))
      else if starts_with ''false'' s then Some (Inr (PBool False, drop 5 s))
      else if starts_with ''NaN'' s \<or> starts_with ''Infinity'' s \<or> starts_with ''-Infinity'' s then Some (Inl Beyond)
      else None)"

section \<open>Values\<close>

text \<open>The first argument bounds the depth of the calls; twice the length of the text is enough (\<open>json_fuel\<close>).\<close>

fun json_value :: "nat \<Rightarrow> string \<Rightarrow> pyval scan"
  and json_array :: "nat \<Rightarrow> pyval list \<Rightarrow> string \<Rightarrow> pyval list scan"
  and json_object :: "nat \<Rightarrow> attributes \<Rightarrow> string \<Rightarrow> attributes scan" where
  "json_value 0 s = Inl Malformed"
| "json_value (Suc n) s =
     (case s of
        [] \<Rightarrow> Inl Malformed
      | c # t \<Rightarrow>
          (if code c = 34 then bind (scan_string [] t) (\<lambda>(x, r). Inr (PStr x, r))
           else if c = CHR ''{'' then
             (if starts_with ''}'' (skip_ws t) then Inr (PDict [], tl (skip_ws t))
              else bind (json_object n [] (skip_ws t)) (\<lambda>(kvs, r). Inr (PDict kvs, r)))
           else if c = CHR ''['' then
             (if starts_with '']'' (skip_ws t) then Inr (PList [], tl (skip_ws t))
              else bind (json_array n [] (skip_ws t)) (\<lambda>(xs, r). Inr (PList xs, r)))
           else (case scan_constant s of Some r \<Rightarrow> r | None \<Rightarrow> scan_number s)))"
| "json_array 0 acc s = Inl Malformed"
| "json_array (Suc n) acc s =
     bind (json_value n s) (\<lambda>(v, r).
       case skip_ws r of
         [] \<Rightarrow> Inl Malformed
       | c # t \<Rightarrow> if c = CHR '']'' then Inr (acc @ [v], t)
                  else if c = CHR '','' then json_array n (acc @ [v]) (skip_ws t) else Inl Malformed)"
| "json_object 0 acc s = Inl Malformed"
| "json_object (Suc n) acc s =
     (case s of
        [] \<Rightarrow> Inl Malformed
      | c # t \<Rightarrow>
          (if code c \<noteq> 34 then Inl Malformed
           else bind (scan_string [] t) (\<lambda>(k, r).
             if \<not> starts_with '':'' (skip_ws r) then Inl Malformed
             else bind (json_value n (skip_ws (tl (skip_ws r)))) (\<lambda>(v, r2).
               case skip_ws r2 of
                 [] \<Rightarrow> Inl Malformed
               | d # u \<Rightarrow> if d = CHR ''}'' then Inr (dict_set k v acc, u)
                          else if d = CHR '','' then json_object n (dict_set k v acc) (skip_ws u) else Inl Malformed))))"

text \<open>\<open>raw_decode(s, i)\<close> on the text from position \<open>i\<close>, and \<open>json.loads(s)\<close>.\<close>

definition raw_decode :: "string \<Rightarrow> pyval scan" where
  "raw_decode s = json_value (2 * Suc (length s)) s"

definition json_loads :: "string \<Rightarrow> json_error + pyval" where
  "json_loads s = bind (raw_decode (skip_ws s)) (\<lambda>(v, r). if skip_ws r = [] then Inr v else Inl Malformed)"

section \<open>A scan consumes its text\<close>

lemma skip_ws_le: "length (skip_ws s) \<le> length s"
  by (simp add: skip_ws_def length_dropWhile_le)

lemma scan_string_consumes: "scan_string acc s = Inr (x, r) \<Longrightarrow> length r < length s"
  by (induction acc s rule: scan_string.induct) (force split: if_splits option.splits list.splits)+

lemma scan_number_consumes: "scan_number s = Inr (v, r) \<Longrightarrow> length r < length s"
proof -
  assume scan: "scan_number s = Inr (v, r)"
  define t where "t = (if starts_with ''-'' s then tl s else s)"
  have fraction: "length (snd (scan_fraction u)) \<le> length u" for u
    by (cases u) (auto simp: scan_fraction_def intro: le_SucI length_dropWhile_le)
  have sign: "length (snd (exponent_sign u)) \<le> length u" for u
    by (cases u) (auto simp: exponent_sign_def)
  have exponent: "length (snd (scan_exponent u)) \<le> length u" for u
  proof (cases u)
    case (Cons c w)
    with sign[of w] length_dropWhile_le[of is_digit "snd (exponent_sign w)"] show ?thesis
      by (auto simp: scan_exponent_def Let_def split: prod.splits)
  qed (simp add: scan_exponent_def)
  from scan obtain w r1 where w: "scan_whole t = Some (w, r1)" "r = snd (scan_exponent (snd (scan_fraction r1)))"
    by (auto simp: scan_number_def Let_def t_def split: option.splits prod.splits)
  have "length r1 < length t"
  proof (cases t)
    case (Cons c u)
    with w(1) length_dropWhile_le[of is_digit u] show ?thesis
      by (auto simp: scan_whole_def split: if_splits)
  qed (use w(1) in \<open>simp add: scan_whole_def\<close>)
  moreover have "length t \<le> length s" by (simp add: t_def)
  ultimately show ?thesis unfolding w(2) using exponent[of "snd (scan_fraction r1)"] fraction[of r1] by linarith
qed

lemma scan_constant_consumes: "scan_constant s = Some (Inr (v, r)) \<Longrightarrow> length r < length s"
  by (auto simp: scan_constant_def starts_with_iff split: if_splits)

lemma json_consumes:
  "json_value n s = Inr (v, r) \<Longrightarrow> length r < length s"
  "json_array n acc s = Inr (xs, r) \<Longrightarrow> length r < length s"
  "json_object n kvs s = Inr (kws, r) \<Longrightarrow> length r < length s"
proof (induction n arbitrary: s v r acc xs kvs kws)
  case (Suc n)
  {
    case 1
    show ?case
    proof (cases s)
      case (Cons c t)
      have t: "length (skip_ws t) \<le> length t" by (rule skip_ws_le)
      consider (str) "code c = 34" | (obj) "code c \<noteq> 34" "c = CHR ''{''" | (arr) "code c \<noteq> 34" "c = CHR ''[''"
        | (atom) "code c \<noteq> 34" "c \<noteq> CHR ''{''" "c \<noteq> CHR ''[''" by blast
      then show ?thesis
      proof cases
        case str
        with 1 Cons show ?thesis by (auto dest: scan_string_consumes)
      next
        case obj
        with 1 Cons t Suc.IH(3)[of "[]" "skip_ws t"] show ?thesis by (fastforce split: if_splits)
      next
        case arr
        with 1 Cons t Suc.IH(2)[of "[]" "skip_ws t"] show ?thesis by (fastforce split: if_splits)
      next
        case atom
        with 1 Cons show ?thesis by (auto split: option.splits dest: scan_constant_consumes scan_number_consumes)
      qed
    qed (use 1 in simp)
  next
    case 2
    then obtain w q where w: "json_value n s = Inr (w, q)" by auto
    note q = Suc.IH(1)[OF w] skip_ws_le[of q]
    show ?case
    proof (cases "skip_ws q")
      case (Cons c t)
      with 2 w consider "r = t" | "json_array n (acc @ [w]) (skip_ws t) = Inr (xs, r)" by (auto split: if_splits)
      then show ?thesis
      proof cases
        case 1
        with q Cons show ?thesis by simp
      next
        case 2
        from Suc.IH(2)[OF this] q Cons skip_ws_le[of t] show ?thesis by simp
      qed
    qed (use 2 w in simp)
  next
    case 3
    then obtain c t k q where s: "s = c # t" "scan_string [] t = Inr (k, q)" "starts_with '':'' (skip_ws q)"
      by (auto split: list.splits if_splits)
    with 3 obtain w p where w: "json_value n (skip_ws (tl (skip_ws q))) = Inr (w, p)"
      by (auto split: if_splits)
    have "length p < length s"
      using Suc.IH(1)[OF w] scan_string_consumes[OF s(2)] s(1) skip_ws_le[of q] skip_ws_le[of "tl (skip_ws q)"]
      by (simp add: less_le_trans)
    show ?case
    proof (cases "skip_ws p")
      case (Cons d u)
      with 3 s w consider "r = u" | "json_object n (dict_set k w kvs) (skip_ws u) = Inr (kws, r)" by (auto split: if_splits)
      then show ?thesis
      proof cases
        case 1
        with \<open>length p < length s\<close> Cons skip_ws_le[of p] show ?thesis by simp
      next
        case 2
        from Suc.IH(3)[OF this] \<open>length p < length s\<close> Cons skip_ws_le[of u] skip_ws_le[of p] show ?thesis by simp
      qed
    qed (use 3 s w in \<open>auto split: if_splits\<close>)
  }
qed simp_all

text \<open>The bound on the depth never shows: every bound of twice the length or more gives the same result.\<close>

lemma json_fuel:
  "2 * length s < n \<Longrightarrow> 2 * length s < m \<Longrightarrow> json_value n s = json_value m s"
  "2 * length s + 1 < n \<Longrightarrow> 2 * length s + 1 < m \<Longrightarrow> json_array n acc s = json_array m acc s"
  "2 * length s + 1 < n \<Longrightarrow> 2 * length s + 1 < m \<Longrightarrow> json_object n kvs s = json_object m kvs s"
proof (induction n arbitrary: m s acc kvs)
  case (Suc n)
  {
    case 1
    then obtain m' where m: "m = Suc m'" by (cases m) auto
    show ?case
    proof (cases s)
      case (Cons c t)
      with 1 m skip_ws_le[of t] have "2 * length (skip_ws t) + 1 < n" "2 * length (skip_ws t) + 1 < m'" by auto
      from Suc.IH(2)[OF this] Suc.IH(3)[OF this] show ?thesis by (simp add: m Cons)
    qed (simp add: m)
  next
    case 2
    then obtain m' where m: "m = Suc m'" by (cases m) auto
    with 2 have v: "json_value n s = json_value m' s" by (intro Suc.IH(1)) auto
    have step: "json_array n (acc @ [w]) (skip_ws t) = json_array m' (acc @ [w]) (skip_ws t)"
      if a: "json_value m' s = Inr (w, q)" "skip_ws q = c # t" for w q c t
    proof -
      from json_consumes(1)[OF a(1)] skip_ws_le[of q] skip_ws_le[of t] a(2)
      have "length (skip_ws t) + 1 < length s" by simp
      with 2 m show ?thesis by (intro Suc.IH(2)) auto
    qed
    show ?case unfolding m json_array.simps v
      by (cases "json_value m' s") (auto simp: step split: list.splits)
  next
    case 3
    then obtain m' where m: "m = Suc m'" by (cases m) auto
    show ?case
    proof (cases "\<exists>c t k q. s = c # t \<and> scan_string [] t = Inr (k, q) \<and> starts_with '':'' (skip_ws q)")
      case True
      then obtain c t k q where s: "s = c # t" "scan_string [] t = Inr (k, q)" "starts_with '':'' (skip_ws q)" by blast
      let ?p = "skip_ws (tl (skip_ws q))"
      from scan_string_consumes[OF s(2)] skip_ws_le[of q] skip_ws_le[of "tl (skip_ws q)"] s(1)
      have p: "length ?p < length s" by simp
      with 3 m have v: "json_value n ?p = json_value m' ?p" by (intro Suc.IH(1)) auto
      have step: "json_object n kws (skip_ws u) = json_object m' kws (skip_ws u)"
        if a: "json_value m' ?p = Inr (w, p')" "skip_ws p' = d # u" for w p' d u kws
      proof -
        from json_consumes(1)[OF a(1)] skip_ws_le[of p'] skip_ws_le[of u] a(2) p
        have "length (skip_ws u) + 1 < length s" by simp
        with 3 m show ?thesis by (intro Suc.IH(3)) auto
      qed
      show ?thesis unfolding m json_object.simps s list.case bind_simps prod.case v
        by (cases "json_value m' ?p") (auto simp: step split: list.splits)
    next
      case False
      then show ?thesis unfolding m by (cases s) (auto simp: bind_def split: sum.splits)
    qed
  }
qed simp_all

end
