(* ===== verification/JsonRoundtrip.thy ===== *)
theory JsonRoundtrip
  imports Json
begin

text \<open>
  Reading back what \<open>json.dumps\<close> writes: \<open>json_loads (json_dumps v)\<close> is \<open>v\<close> with tuples as lists and
  the keys of every dictionary sorted. The documents of the program rest on it.
\<close>

section \<open>Values with a JSON form\<close>

definition float_ok :: "rat \<Rightarrow> string \<Rightarrow> bool" where
  "float_ok q t \<longleftrightarrow> scan_number t = Inr (PFloat q t, [])"

primrec json_ok :: "pyval \<Rightarrow> bool" where
  "json_ok PNone = True"
| "json_ok (PBool b) = True"
| "json_ok (PInt i) = (length (digits_of (nat \<bar>i\<bar>)) \<le> 4300)"
| "json_ok (PFloat q t) = float_ok q t"
| "json_ok (PStr s) = True"
| "json_ok (PList xs) = list_all (\<lambda>b. b) (map json_ok xs)"
| "json_ok (PTuple xs) = list_all (\<lambda>b. b) (map json_ok xs)"
| "json_ok (PDict kvs) = (distinct (map fst kvs) \<and> list_all snd (map (map_prod id json_ok) kvs))"

primrec json_normal :: "pyval \<Rightarrow> pyval" where
  "json_normal PNone = PNone"
| "json_normal (PBool b) = PBool b"
| "json_normal (PInt i) = PInt i"
| "json_normal (PFloat q t) = PFloat q t"
| "json_normal (PStr s) = PStr s"
| "json_normal (PList xs) = PList (map json_normal xs)"
| "json_normal (PTuple xs) = PList (map json_normal xs)"
| "json_normal (PDict kvs) = PDict (sort_key fst (map (map_prod id json_normal) kvs))"

section \<open>Strings\<close>

lemma code_char_of [simp]: "n < 256 \<Longrightarrow> code (char_of n) = n" for n :: nat
  by (simp add: code_def)

lemma char_of_code [simp]: "char_of (code c) = c"
  by (simp add: code_def)

lemma code_less: "code c < 256"
  by (simp add: code_def)

lemma hex_val_digit: "k < 16 \<Longrightarrow> hex_val (hex_digit k) = Some k"
  by (auto simp: hex_val_def hex_digit_def Let_def)

lemma scan_json_char: "scan_string acc (json_char c @ s) = scan_string (c # acc) s"
proof (cases "code c < 32 \<and> code c \<notin> {8, 9, 10, 12, 13}")
  case True
  then have c: "json_char c = char_of (92::nat) # ''u00'' @ hex2 (code c)" by (simp add: json_char_def Let_def)
  have "hex4 (CHR ''0'') (CHR ''0'') (hex_digit (code c div 16)) (hex_digit (code c mod 16)) = Some (code c)"
  proof -
    have "hex_val (CHR ''0'') = Some 0" by (simp add: hex_val_def code_def)
    moreover from True have "code c div 16 < 16" by linarith
    ultimately show ?thesis by (simp add: hex4_def hex_val_digit)
  qed
  moreover have "simple_escape (CHR ''u'') = None" by (simp add: simple_escape_def code_def)
  ultimately show ?thesis using True by (simp add: c hex2_def)
next
  case False
  have letters: "code (CHR ''b'') = 98" "code (CHR ''f'') = 102" "code (CHR ''n'') = 110" "code (CHR ''r'') = 114"
    "code (CHR ''t'') = 116" by (simp_all add: code_def)
  from False consider "code c = 34 \<or> code c = 92" | "code c = 8" | "code c = 9" | "code c = 10" | "code c = 12" | "code c = 13"
    | "32 \<le> code c" "code c \<noteq> 34" "code c \<noteq> 92" by fastforce
  then show ?thesis
  proof cases
    case 1
    then show ?thesis by (auto simp: json_char_def Let_def simple_escape_def)
  next
    case 7
    then show ?thesis by (simp add: json_char_def Let_def)
  qed (use char_of_code[of c] letters in \<open>simp_all add: json_char_def Let_def simple_escape_def\<close>)
qed

lemma scan_json_chars:
  "scan_string acc (concat (map json_char s) @ char_of (34::nat) # r) = Inr (rev acc @ s, r)"
  by (induction s arbitrary: acc) (simp_all add: scan_json_char)

lemma scan_json_str: "json_str s @ r = char_of (34::nat) # t \<Longrightarrow> scan_string [] t = Inr (s, r)"
  by (auto simp: json_str_def scan_json_chars)

section \<open>Numbers\<close>

text \<open>What may follow a value inside a document.\<close>

definition delim :: "string \<Rightarrow> bool" where
  "delim r \<longleftrightarrow> (case r of [] \<Rightarrow> True | c # t \<Rightarrow> c = CHR '','' \<or> c = CHR '']'' \<or> c = CHR ''}'' \<or> json_space c)"

lemma delim_cases:
  assumes "delim r"
  obtains "r = []" | c t where "r = c # t" "\<not> is_digit c" "c \<noteq> CHR ''.''" "c \<noteq> CHR ''e''" "c \<noteq> CHR ''E''"
    "c \<noteq> CHR ''-''" "c \<noteq> CHR ''+''"
proof (cases r)
  case (Cons c t)
  have "json_space c \<Longrightarrow> \<not> is_digit c \<and> c \<noteq> CHR ''.'' \<and> c \<noteq> CHR ''e'' \<and> c \<noteq> CHR ''E'' \<and> c \<noteq> CHR ''-'' \<and> c \<noteq> CHR ''+''"
    by (auto simp: json_space_def is_digit_def code_def)
  with assms Cons have "\<not> is_digit c \<and> c \<noteq> CHR ''.'' \<and> c \<noteq> CHR ''e'' \<and> c \<noteq> CHR ''E'' \<and> c \<noteq> CHR ''-'' \<and> c \<noteq> CHR ''+''"
    by (auto simp: delim_def is_digit_def code_def)
  with Cons that(2) show ?thesis by blast
qed (use that in simp)

lemma while_delim:
  assumes "delim r"
  shows "takeWhile is_digit (u @ r) = takeWhile is_digit u" "dropWhile is_digit (u @ r) = dropWhile is_digit u @ r"
proof -
  have "takeWhile is_digit r = []" "dropWhile is_digit r = r" using assms by (auto elim!: delim_cases)
  then show "takeWhile is_digit (u @ r) = takeWhile is_digit u" "dropWhile is_digit (u @ r) = dropWhile is_digit u @ r"
    by (induction u) auto
qed

lemma scan_fraction_delim:
  assumes "delim r"
  shows "scan_fraction (u @ r) = (fst (scan_fraction u), snd (scan_fraction u) @ r)"
  using assms by (cases u) (auto simp: scan_fraction_def while_delim elim!: delim_cases)

lemma exponent_sign_delim:
  assumes "delim r"
  shows "exponent_sign (u @ r) = (fst (exponent_sign u), snd (exponent_sign u) @ r)"
  using assms by (cases u) (auto simp: exponent_sign_def elim!: delim_cases)

lemma scan_exponent_delim:
  assumes "delim r"
  shows "scan_exponent (u @ r) = (fst (scan_exponent u), snd (scan_exponent u) @ r)"
proof (cases u)
  case Nil
  with assms show ?thesis by (auto simp: scan_exponent_def Let_def split: prod.splits elim!: delim_cases)
next
  case (Cons c t)
  then show ?thesis
    by (simp add: scan_exponent_def exponent_sign_delim[OF assms] while_delim[OF assms] case_prod_unfold Let_def)
qed

lemma scan_whole_delim:
  assumes "delim r" "u \<noteq> []"
  shows "scan_whole (u @ r) = map_option (\<lambda>(w, t). (w, t @ r)) (scan_whole u)"
  using assms(2) while_delim[OF assms(1)] by (cases u) (auto simp: scan_whole_def)

lemma scan_number_start:
  assumes "scan_number s = Inr x"
  obtains c t where "s = c # t" "is_digit c" | c t where "s = CHR ''-'' # c # t" "is_digit c"
proof -
  have whole: "\<exists>c u. t = c # u \<and> is_digit c" if "scan_whole t = Some p" for t p
    using that by (cases t) (auto simp: scan_whole_def is_digit_def code_def split: if_splits)
  show ?thesis
  proof (cases "starts_with ''-'' s")
    case True
    then obtain t where s: "s = CHR ''-'' # t" by (auto simp: starts_with_iff)
    with assms obtain p where "scan_whole t = Some p"
      by (auto simp: scan_number_def starts_with_def split: option.splits)
    from whole[OF this] that(2) s show ?thesis by blast
  next
    case False
    with assms obtain p where "scan_whole s = Some p" by (auto simp: scan_number_def split: option.splits)
    from whole[OF this] that(1) show ?thesis by blast
  qed
qed

lemma scan_number_delim:
  assumes "scan_number s = Inr (v, t)" "delim r"
  shows "scan_number (s @ r) = Inr (v, t @ r)"
proof -
  from assms(1) have "s \<noteq> []" by (rule scan_number_start) auto
  define u where "u = (if starts_with ''-'' s then tl s else s)"
  from assms(1) have u: "u \<noteq> []" by (rule scan_number_start) (auto simp: starts_with_def u_def is_digit_def code_def)
  have "starts_with ''-'' (s @ r) = starts_with ''-'' s"
    using \<open>s \<noteq> []\<close> by (cases s) (auto simp: starts_with_def)
  moreover from this have "(if starts_with ''-'' (s @ r) then tl (s @ r) else s @ r) = u @ r"
    using \<open>s \<noteq> []\<close> by (simp add: u_def)
  ultimately show ?thesis using assms(1) unfolding scan_number_def Let_def u_def[symmetric]
    by (cases "scan_whole u")
      (auto simp: scan_whole_delim[OF assms(2) u] scan_fraction_delim[OF assms(2)] scan_exponent_delim[OF assms(2)] case_prod_unfold)
qed

lemma digit_char: "d < 10 \<Longrightarrow> is_digit (char_of (48 + d)) \<and> code (char_of (48 + d)) - 48 = d" for d :: nat
  by (simp add: is_digit_def)

lemma digits_int_snoc: "digits_int (s @ [c]) = 10 * digits_int s + int (code c - 48)"
  by (simp add: digits_int_def)

lemma code_zero: "code (CHR ''0'') = 48"
  by (simp add: code_def)

lemma digits_of_facts: "list_all is_digit (digits_of n) \<and> digits_int (digits_of n) = int n \<and> digits_of n \<noteq> [] \<and>
    (0 < n \<longrightarrow> hd (digits_of n) \<noteq> CHR ''0'')"
proof (induction n rule: digits_of.induct)
  case (1 n)
  show ?case
  proof (cases "n < 10")
    case True
    then have "code (char_of (48 + n)) = 48 + n" by simp
    then have "0 < n \<longrightarrow> char_of (48 + n) \<noteq> CHR ''0''" using code_zero by auto
    with True digit_char[of n] show ?thesis by (simp add: digits_of.simps[of n] digits_int_def)
  next
    case False
    then have "0 < n div 10" "10 * int (n div 10) + int (n mod 10) = int n" by (simp_all add: zmod_int zdiv_int)
    with 1[OF False] digit_char[of "n mod 10"] False show ?thesis
      by (simp add: digits_of.simps[of n] digits_int_snoc)
  qed
qed

lemma scan_whole_digits: "scan_whole (digits_of n) = Some (digits_of n, [])"
proof (cases "n = 0")
  case False
  with digits_of_facts[of n] obtain c t where "digits_of n = c # t" "c \<noteq> CHR ''0''" "is_digit c" "list_all is_digit t"
    by (cases "digits_of n") auto
  then show ?thesis by (auto simp: scan_whole_def list_all_iff takeWhile_eq_all_conv dropWhile_eq_Nil_conv)
qed (use char_of_code[of "CHR ''0''"] in \<open>simp add: scan_whole_def digits_of.simps[of 0] code_zero\<close>)

lemma scan_number_int: "json_ok (PInt i) \<Longrightarrow> scan_number (str_of_int i) = Inr (PInt i, [])"
proof -
  assume ok: "json_ok (PInt i)"
  obtain c t where d: "digits_of (nat i) = c # t" "is_digit c"
    using digits_of_facts[of "nat i"] by (cases "digits_of (nat i)") auto
  then have "\<not> starts_with ''-'' (digits_of (nat i))" by (auto simp: starts_with_def is_digit_def code_def)
  moreover have "starts_with ''-'' (CHR ''-'' # digits_of n)" for n by (simp add: starts_with_def)
  moreover have "scan_fraction [] = ([], [])" "scan_exponent [] = ([], [])" by (simp_all add: scan_fraction_def scan_exponent_def)
  ultimately show ?thesis using ok digits_of_facts[of "nat i"] digits_of_facts[of "nat (- i)"]
    by (cases "i < 0") (simp_all add: scan_number_def str_of_int_def Let_def scan_whole_digits number_value_def)
qed

section \<open>Values\<close>

lemma sort_key_map: "sort_key f (map g xs) = map g (sort_key (\<lambda>x. f (g x)) xs)"
proof -
  have ins: "insort_key f (g x) (map g ys) = map g (insort_key (\<lambda>x. f (g x)) x ys)" for x ys
    by (induction ys) simp_all
  show ?thesis by (induction xs) (simp_all add: ins)
qed

lemma foldl_dict_set_append:
  "distinct (map fst (d @ kvs)) \<Longrightarrow> foldl (\<lambda>d (k, v). dict_set k v d) d kvs = d @ kvs"
proof (induction kvs arbitrary: d)
  case (Cons kv kvs)
  obtain k v where kv: "kv = (k, v)" by fastforce
  with Cons.prems have "dict_set k v d = d @ [kv]" by (auto intro: dict_set_new)
  with Cons.IH[of "d @ [kv]"] Cons.prems kv show ?case by simp
qed simp

lemma skip_ws_start: "s \<noteq> [] \<Longrightarrow> \<not> json_space (hd s) \<Longrightarrow> skip_ws s = s"
  by (cases s) (simp_all add: skip_ws_def)

lemma skip_ws_space: "skip_ws (CHR '' '' # s) = skip_ws s"
  by (simp add: skip_ws_def json_space_def code_def)

text \<open>No value starts with space or a closing bracket.\<close>

definition value_start :: "char \<Rightarrow> bool" where
  "value_start c \<longleftrightarrow> \<not> json_space c \<and> c \<noteq> CHR '']'' \<and> c \<noteq> CHR ''}''"

lemma value_start_digit: "is_digit c \<Longrightarrow> value_start c"
  by (auto simp: value_start_def is_digit_def json_space_def code_def)

lemma number_start:
  assumes "scan_number s = Inr x"
  shows "s \<noteq> [] \<and> value_start (hd s)"
  using assms by (rule scan_number_start) (auto simp: value_start_digit, simp add: value_start_def json_space_def code_def)

lemma quote_char: "char_of (34::nat) = CHR 0x22"
  using char_of_code[of "CHR 0x22"] by (simp add: code_def)

lemma dumps_start: "json_ok v \<Longrightarrow> json_dumps v \<noteq> [] \<and> value_start (hd (json_dumps v))"
proof (cases v)
  case (PInt i)
  moreover assume "json_ok v"
  ultimately show ?thesis using number_start[OF scan_number_int[of i]] by simp
next
  case (PFloat q t)
  moreover assume "json_ok v"
  ultimately show ?thesis using number_start[of t] by (simp add: float_ok_def)
qed (simp_all add: value_start_def json_space_def code_def json_str_def json_items_def quote_char)

lemma number_value_text:
  assumes "scan_number s = Inr (v, [])" "delim r" "length s \<le> n"
  shows "json_value n (s @ r) = Inr (v, r)"
proof -
  have digit: "is_digit c \<Longrightarrow> code c \<noteq> 34 \<and> c \<noteq> CHR ''{'' \<and> c \<noteq> CHR ''['' \<and> c \<noteq> CHR ''-'' \<and> c \<noteq> CHR ''n'' \<and> c \<noteq> CHR ''t'' \<and>
      c \<noteq> CHR ''f'' \<and> c \<noteq> CHR ''N'' \<and> c \<noteq> CHR ''I''" for c
    by (auto simp: is_digit_def code_def)
  from number_start[OF assms(1)] assms(3) obtain m where m: "n = Suc m" by (cases n) auto
  from scan_number_delim[OF assms(1,2)] have scan: "scan_number (s @ r) = Inr (v, r)" by simp
  from assms(1) show ?thesis
  proof (rule scan_number_start)
    fix c t assume "s = c # t" "is_digit c"
    with digit[of c] scan show ?thesis by (simp add: m scan_constant_def starts_with_def)
  next
    fix c t assume "s = CHR ''-'' # c # t" "is_digit c"
    with digit[of c] scan show ?thesis by (simp add: m scan_constant_def starts_with_def code_def)
  qed
qed

definition reads :: "pyval \<Rightarrow> bool" where
  "reads v \<longleftrightarrow> (\<forall>n r. length (json_dumps v) \<le> n \<longrightarrow> delim r \<longrightarrow> json_value n (json_dumps v @ r) = Inr (json_normal v, r))"

lemma readsD: "reads v \<Longrightarrow> length (json_dumps v) \<le> n \<Longrightarrow> delim r \<Longrightarrow> json_value n (json_dumps v @ r) = Inr (json_normal v, r)"
  by (simp add: reads_def)

lemma delim_simps [simp]: "delim []" "delim (CHR '','' # t)" "delim (CHR '']'' # t)" "delim (CHR ''}'' # t)"
  by (simp_all add: delim_def)

lemma skip_ws_simps [simp]: "skip_ws (CHR '','' # t) = CHR '','' # t" "skip_ws (CHR '']'' # t) = CHR '']'' # t"
  "skip_ws (CHR ''}'' # t) = CHR ''}'' # t" "skip_ws (CHR '':'' # t) = CHR '':'' # t"
  by (simp_all add: skip_ws_def json_space_def code_def)

lemma read_array:
  assumes "xs \<noteq> []" "\<And>x. x \<in> set xs \<Longrightarrow> reads x \<and> json_ok x" "length (join '', '' (map json_dumps xs)) < n"
  shows "json_array n acc (join '', '' (map json_dumps xs) @ CHR '']'' # r) = Inr (acc @ map json_normal xs, r)"
  using assms
proof (induction xs arbitrary: n acc)
  case (Cons x xs)
  then obtain m where n: "n = Suc m" by (cases n) auto
  show ?case
  proof (cases xs)
    case Nil
    with Cons.prems n have "json_value m (json_dumps x @ CHR '']'' # r) = Inr (json_normal x, CHR '']'' # r)"
      by (intro readsD) auto
    with Nil n show ?thesis by simp
  next
    case (Cons y ys)
    let ?rest = "join '', '' (map json_dumps xs)"
    have tx: "join '', '' (map json_dumps (x # xs)) = json_dumps x @ '', '' @ ?rest" by (simp add: Cons)
    have v: "json_value m (json_dumps x @ CHR '','' # CHR '' '' # ?rest @ CHR '']'' # r) =
        Inr (json_normal x, CHR '','' # CHR '' '' # ?rest @ CHR '']'' # r)"
      using Cons.prems n tx by (intro readsD) auto
    have "?rest \<noteq> [] \<and> value_start (hd ?rest)"
      using dumps_start[of y] Cons.prems(2)[of y] by (cases ys) (auto simp: Cons)
    then have "skip_ws (CHR '' '' # ?rest @ CHR '']'' # r) = ?rest @ CHR '']'' # r"
      by (simp add: skip_ws_space skip_ws_start value_start_def)
    moreover have "json_array m (acc @ [json_normal x]) (?rest @ CHR '']'' # r) = Inr (acc @ json_normal x # map json_normal xs, r)"
      using Cons.IH[of m "acc @ [json_normal x]"] Cons.prems n tx Cons by simp
    ultimately show ?thesis using v unfolding tx n by simp
  qed
qed simp

definition item_text :: "string \<times> pyval \<Rightarrow> string" where
  "item_text kv = json_str (fst kv) @ '': '' @ json_dumps (snd kv)"

lemma item_text_start: "item_text kv \<noteq> [] \<and> value_start (hd (item_text kv)) \<and> code (hd (item_text kv)) = 34"
  by (simp add: item_text_def json_str_def quote_char value_start_def json_space_def code_def)

lemma read_item:
  assumes "reads v" "json_ok v" "length (item_text (k, v)) \<le> n" "delim r"
  obtains t q where "item_text (k, v) @ r = char_of (34::nat) # t" "scan_string [] t = Inr (k, q)"
    "starts_with '':'' (skip_ws q)" "json_value n (skip_ws (tl (skip_ws q))) = Inr (json_normal v, r)"
proof -
  let ?q = "CHR '':'' # CHR '' '' # json_dumps v @ r"
  have "item_text (k, v) @ r = json_str k @ ?q" by (simp add: item_text_def)
  moreover obtain t where t: "json_str k @ ?q = char_of (34::nat) # t" by (simp add: json_str_def)
  moreover from scan_json_str[OF t] have "scan_string [] t = Inr (k, ?q)" .
  moreover have "skip_ws (CHR '' '' # json_dumps v @ r) = json_dumps v @ r"
    using dumps_start[OF assms(2)] by (simp add: skip_ws_space skip_ws_start value_start_def)
  moreover have "json_value n (json_dumps v @ r) = Inr (json_normal v, r)"
    using assms(1,3,4) by (intro readsD) (simp_all add: item_text_def)
  ultimately show ?thesis using that[of t ?q] by (simp add: starts_with_def)
qed

lemma read_object:
  assumes "kvs \<noteq> []" "\<And>k v. (k, v) \<in> set kvs \<Longrightarrow> reads v \<and> json_ok v" "length (join '', '' (map item_text kvs)) < n"
  shows "json_object n acc (join '', '' (map item_text kvs) @ CHR ''}'' # r) =
    Inr (foldl (\<lambda>d (k, v). dict_set k v d) acc (map (map_prod id json_normal) kvs), r)"
  using assms
proof (induction kvs arbitrary: n acc)
  case (Cons kv kvs)
  then obtain m where n: "n = Suc m" by (cases n) auto
  obtain k v where kv: "kv = (k, v)" by fastforce
  have v: "reads v" "json_ok v" using Cons.prems(2)[of k v] by (simp_all add: kv)
  show ?case
  proof (cases kvs)
    case Nil
    have "length (item_text (k, v)) \<le> m" using Cons.prems(3) n kv Nil by simp
    from read_item[OF v this delim_simps(4), of r] obtain t q where
      "item_text (k, v) @ CHR ''}'' # r = char_of (34::nat) # t" "scan_string [] t = Inr (k, q)"
      "starts_with '':'' (skip_ws q)" "json_value m (skip_ws (tl (skip_ws q))) = Inr (json_normal v, CHR ''}'' # r)" by blast
    then show ?thesis by (simp add: n kv Nil)
  next
    case (Cons kv' kvs')
    let ?rest = "join '', '' (map item_text kvs)"
    have tx: "join '', '' (map item_text (kv # kvs)) = item_text kv @ '', '' @ ?rest" by (simp add: Cons)
    have "length (item_text (k, v)) \<le> m" using Cons.prems(3) n kv tx by simp
    from read_item[OF v this delim_simps(2), of "CHR '' '' # ?rest @ CHR ''}'' # r"] obtain t q where
      q: "item_text (k, v) @ CHR '','' # CHR '' '' # ?rest @ CHR ''}'' # r = char_of (34::nat) # t" "scan_string [] t = Inr (k, q)"
      "starts_with '':'' (skip_ws q)"
      "json_value m (skip_ws (tl (skip_ws q))) = Inr (json_normal v, CHR '','' # CHR '' '' # ?rest @ CHR ''}'' # r)" by blast
    have "?rest \<noteq> [] \<and> value_start (hd ?rest)"
      using item_text_start[of kv'] by (cases kvs') (auto simp: Cons)
    then have "skip_ws (CHR '' '' # ?rest @ CHR ''}'' # r) = ?rest @ CHR ''}'' # r"
      by (simp add: skip_ws_space skip_ws_start value_start_def)
    moreover have "json_object m (dict_set k (json_normal v) acc) (?rest @ CHR ''}'' # r) =
        Inr (foldl (\<lambda>d (k, v). dict_set k v d) (dict_set k (json_normal v) acc) (map (map_prod id json_normal) kvs), r)"
      by (rule Cons.IH) (use Cons.prems n tx Cons in auto)
    moreover have "join '', '' (map item_text (kv # kvs)) @ CHR ''}'' # r = char_of (34::nat) # t"
      using q(1) unfolding tx unfolding kv by simp
    ultimately show ?thesis using q(2-4) by (simp add: n kv id_def)
  qed
qed simp

lemma reads_dict:
  assumes "distinct (map fst kvs)" "\<And>k v. (k, v) \<in> set kvs \<Longrightarrow> reads v \<and> json_ok v"
  shows "reads (PDict kvs)"
  unfolding reads_def
proof (intro allI impI)
  fix n r
  let ?s = "sort_key fst kvs"
  assume n: "length (json_dumps (PDict kvs)) \<le> n" "delim r"
  have tx: "json_dumps (PDict kvs) = CHR ''{'' # join '', '' (map item_text ?s) @ ''}''"
    by (simp add: json_items_def sort_key_map item_text_def[abs_def] comp_def case_prod_unfold)
  have norm: "json_normal (PDict kvs) = PDict (map (map_prod id json_normal) ?s)"
    by (simp add: sort_key_map)
  from n(1) obtain m where m: "n = Suc m" unfolding tx by (cases n) auto
  show "json_value n (json_dumps (PDict kvs) @ r) = Inr (json_normal (PDict kvs), r)"
  proof (cases "?s = []")
    case True
    then show ?thesis unfolding tx norm m by (simp add: code_def starts_with_def)
  next
    case False
    let ?rest = "join '', '' (map item_text ?s)"
    from False have start: "?rest \<noteq> [] \<and> value_start (hd ?rest)"
    proof (cases ?s)
      case (Cons kv t)
      with item_text_start[of kv] show ?thesis by (cases t) auto
    qed simp
    then have "skip_ws (?rest @ CHR ''}'' # r) = ?rest @ CHR ''}'' # r"
      by (simp add: skip_ws_start value_start_def)
    moreover from start have "\<not> starts_with ''}'' (?rest @ CHR ''}'' # r)"
      by (cases ?rest) (auto simp: starts_with_def value_start_def)
    moreover have "json_object m [] (?rest @ CHR ''}'' # r) =
        Inr (foldl (\<lambda>d (k, v). dict_set k v d) [] (map (map_prod id json_normal) ?s), r)"
      using False n(1) m tx assms(2) by (intro read_object) auto
    moreover have "foldl (\<lambda>d (k, v). dict_set k v d) [] (map (map_prod id json_normal) ?s) = map (map_prod id json_normal) ?s"
      using foldl_dict_set_append[of "[]" "map (map_prod id json_normal) ?s"] assms(1) by (simp add: comp_def distinct_map)
    ultimately show ?thesis unfolding tx norm m by (simp add: code_def)
  qed
qed

lemma reads_list:
  assumes "\<And>x. x \<in> set xs \<Longrightarrow> reads x \<and> json_ok x"
  shows "reads (PList xs)" "reads (PTuple xs)"
proof -
  have "json_value n (''['' @ join '', '' (map json_dumps xs) @ '']'' @ r) = Inr (PList (map json_normal xs), r)"
    if n: "length (''['' @ join '', '' (map json_dumps xs) @ '']'') \<le> n" for n r
  proof -
    from n obtain m where m: "n = Suc m" by (cases n) auto
    show ?thesis
    proof (cases xs)
      case Nil
      then show ?thesis unfolding m by (simp add: code_def starts_with_def)
    next
      case (Cons y ys)
      let ?rest = "join '', '' (map json_dumps xs)"
      have start: "?rest \<noteq> [] \<and> value_start (hd ?rest)"
        using dumps_start[of y] assms[of y] by (cases ys) (auto simp: Cons)
      then have "skip_ws (?rest @ CHR '']'' # r) = ?rest @ CHR '']'' # r"
        by (simp add: skip_ws_start value_start_def)
      moreover from start have "\<not> starts_with '']'' (?rest @ CHR '']'' # r)"
        by (cases ?rest) (auto simp: starts_with_def value_start_def)
      moreover have "json_array m [] (?rest @ CHR '']'' # r) = Inr ([] @ map json_normal xs, r)"
        using assms n m Cons by (intro read_array) auto
      ultimately show ?thesis unfolding m by (simp add: code_def)
    qed
  qed
  then show "reads (PList xs)" "reads (PTuple xs)" by (simp_all add: reads_def)
qed

lemma json_reads: "json_ok v \<Longrightarrow> reads v"
proof (induction v)
  case PNone
  show ?case unfolding reads_def
  proof (intro allI impI)
    fix n r assume "length (json_dumps PNone) \<le> n"
    then obtain m where "n = Suc m" by (cases n) auto
    then show "json_value n (json_dumps PNone @ r) = Inr (json_normal PNone, r)"
      by (simp add: scan_constant_def starts_with_def code_def)
  qed
next
  case (PBool b)
  show ?case unfolding reads_def
  proof (intro allI impI)
    fix n r assume "length (json_dumps (PBool b)) \<le> n"
    then obtain m where "n = Suc m" by (cases n; cases b) auto
    then show "json_value n (json_dumps (PBool b) @ r) = Inr (json_normal (PBool b), r)"
      by (cases b) (simp_all add: scan_constant_def starts_with_def code_def)
  qed
next
  case (PInt i)
  then show ?case unfolding reads_def using number_value_text[OF scan_number_int] by simp
next
  case (PFloat q t)
  then show ?case unfolding reads_def using number_value_text[of t "PFloat q t"] by (simp add: float_ok_def)
next
  case (PStr s)
  show ?case unfolding reads_def
  proof (intro allI impI)
    fix n r assume "length (json_dumps (PStr s)) \<le> n"
    then obtain m where m: "n = Suc m" by (cases n) (auto simp: json_str_def)
    obtain t where t: "json_str s @ r = char_of (34::nat) # t" by (simp add: json_str_def)
    from scan_json_str[OF t] t m show "json_value n (json_dumps (PStr s) @ r) = Inr (json_normal (PStr s), r)" by simp
  qed
next
  case (PList xs)
  then show ?case by (intro reads_list) (auto simp: list_all_iff)
next
  case (PTuple xs)
  then show ?case by (intro reads_list) (auto simp: list_all_iff)
next
  case (PDict kvs)
  then show ?case by (intro reads_dict) (fastforce simp: list_all_iff)+
qed

text \<open>The whole text of a value is read back, also with space around it.\<close>

lemma json_loads_dumps: "json_ok v \<Longrightarrow> json_loads (json_dumps v) = Inr (json_normal v)"
proof -
  assume ok: "json_ok v"
  have "skip_ws (json_dumps v) = json_dumps v" using dumps_start[OF ok] by (simp add: skip_ws_start value_start_def)
  moreover have "raw_decode (json_dumps v) = Inr (json_normal v, [])"
    using readsD[OF json_reads[OF ok], of "2 * Suc (length (json_dumps v))" "[]"] by (simp add: raw_decode_def)
  ultimately show ?thesis by (simp add: json_loads_def skip_ws_def)
qed

end
