(* ===== verification/Debate.thy ===== *)
theory Debate
  imports JsonRoundtrip Evidence Decode PyRegex ShardMerge
begin

text \<open>
  \<open>engine/debate.py\<close>: the three rounds of proposer, critique and judge, with the gate that keeps
  model output to the facts of an evidence pack, and \<open>parse_json_safe\<close> of \<open>llm/client.py\<close>. The
  language model, the prompt texts, the verifier and the progress callback are the arguments they are
  in the code; the model sees the number of calls made so far, so its answers may differ from call to
  call. The clock is an argument. A verifier returns new values and leaves nothing behind when it fails.
\<close>

section \<open>JSON from model output\<close>

definition newline :: char where
  "newline = char_of (10::nat)"

definition strip_fences :: "string \<Rightarrow> string" where
  "strip_fences cleaned =
     (if starts_with ''```'' cleaned
      then (let t = drop 3 cleaned; u = lstrip (if starts_with ''json'' t then drop 4 t else t)
            in re_sub (seqs [opt (Chars (\<lambda>c. c = newline)), word ''```'', Rep (Chars is_space), At_End]) [] u)
      else cleaned)"

text \<open>The first object that starts at a brace.\<close>

fun first_object :: "string \<Rightarrow> attributes option decoded" where
  "first_object [] = Inr None"
| "first_object (c # s) =
     (if c \<noteq> CHR ''{'' then first_object s
      else (case raw_decode (c # s) of
              Inr (PDict d, r) \<Rightarrow> Inr (Some d)
            | Inl Beyond \<Rightarrow> Inl (Untyped ''json'')
            | _ \<Rightarrow> first_object s))"

definition parse_json_safe :: "string \<Rightarrow> attributes option decoded" where
  "parse_json_safe raw =
     (if raw = [] then Inr None
      else (let cleaned = strip_fences (strip raw) in
            case json_loads cleaned of
              Inr v \<Rightarrow> Inr (case v of PDict d \<Rightarrow> Some d | _ \<Rightarrow> None)
            | Inl Beyond \<Rightarrow> Inl (Untyped ''json'')
            | Inl Malformed \<Rightarrow> first_object cleaned))"

definition parse_json :: "string \<Rightarrow> attributes option decoded" where
  "parse_json raw =
     bind (parse_json_safe raw) (\<lambda>p.
       Inr (case p of None \<Rightarrow> None | Some d \<Rightarrow> if set (map fst d) = {''error''} then None else Some d))"

text \<open>\<open>json.dumps(v, ensure_ascii=False, indent=2)\<close>.\<close>

definition line_indent :: "nat \<Rightarrow> string" where
  "line_indent level = newline # replicate (2 * level) (CHR '' '')"

definition json_block :: "string \<Rightarrow> string \<Rightarrow> nat \<Rightarrow> string list \<Rightarrow> string" where
  "json_block left right level parts =
     (if parts = [] then left @ right
      else left @ line_indent (Suc level) @ join ('','' @ line_indent (Suc level)) parts @ line_indent level @ right)"

primrec json_pretty :: "pyval \<Rightarrow> nat \<Rightarrow> string" where
  "json_pretty PNone = (\<lambda>l. ''null'')"
| "json_pretty (PBool b) = (\<lambda>l. if b then ''true'' else ''false'')"
| "json_pretty (PInt i) = (\<lambda>l. str_of_int i)"
| "json_pretty (PFloat q t) = (\<lambda>l. t)"
| "json_pretty (PStr s) = (\<lambda>l. json_str s)"
| "json_pretty (PList xs) = (\<lambda>l. json_block ''['' '']'' l (map (\<lambda>f. f (Suc l)) (map json_pretty xs)))"
| "json_pretty (PTuple xs) = (\<lambda>l. json_block ''['' '']'' l (map (\<lambda>f. f (Suc l)) (map json_pretty xs)))"
| "json_pretty (PDict kvs) = (\<lambda>l. json_block ''{'' ''}'' l
     (map (\<lambda>(k, f). json_str k @ '': '' @ f (Suc l)) (map (map_prod id json_pretty) kvs)))"

section \<open>The engine\<close>

datatype evidence_policy = POLICY_OPTIONAL | POLICY_REQUIRED | POLICY_EXCLUSIVE

fun evidence_policy_value :: "evidence_policy \<Rightarrow> string" where
  "evidence_policy_value POLICY_OPTIONAL = ''optional''"
| "evidence_policy_value POLICY_REQUIRED = ''required''"
| "evidence_policy_value POLICY_EXCLUSIVE = ''exclusive''"

text \<open>An exception by the name of its class and its text.\<close>

type_synonym failure = "string \<times> string"

text \<open>The prompts by round, the model (calls made, prompt, role), and the verifier.\<close>

record prompt_factory =
  pf_proposer :: "string \<Rightarrow> string \<Rightarrow> string \<Rightarrow> string"
  pf_critique :: "string \<Rightarrow> string \<Rightarrow> string \<Rightarrow> string"
  pf_judge :: "string \<Rightarrow> string \<Rightarrow> string \<Rightarrow> string \<Rightarrow> string"

type_synonym llm = "nat \<Rightarrow> string \<Rightarrow> string \<Rightarrow> failure + string"

record claim_verifier =
  cv_proposals :: "attributes list \<Rightarrow> failure + attributes list"
  cv_summary :: "attributes list \<Rightarrow> failure + string"
  cv_critique :: "attributes \<Rightarrow> attributes list \<Rightarrow> failure + attributes"

type_synonym progress = "(string \<Rightarrow> attributes option \<Rightarrow> string option \<Rightarrow> failure option) option"

record debate_engine =
  de_llm :: llm
  de_factory :: "prompt_factory option"
  de_attempts :: int
  de_verifier :: "claim_verifier option"
  de_policy :: evidence_policy

definition make_debate_engine ::
  "llm \<Rightarrow> prompt_factory option \<Rightarrow> int \<Rightarrow> claim_verifier option \<Rightarrow> evidence_policy \<Rightarrow> debate_engine" where
  "make_debate_engine f factory attempts verifier policy =
     \<lparr>de_llm = f, de_factory = factory, de_attempts = max 1 attempts, de_verifier = verifier, de_policy = policy\<rparr>"

text \<open>What a debate changes as it goes: the calls made, the last error, the log and the characters seen.\<close>

record debate_state =
  ds_calls :: nat
  ds_error :: "string option"
  ds_log :: "attributes list"
  ds_chars :: int

definition format_call_error :: "failure \<Rightarrow> string" where
  "format_call_error e =
     (case e of (name, text1) \<Rightarrow>
        (let message = take 300 (map (\<lambda>c. if c = newline then CHR '' '' else c) text1)
         in if message \<noteq> [] then name @ '': '' @ message else name))"

definition add_log :: "attributes \<Rightarrow> debate_state \<Rightarrow> debate_state" where
  "add_log entry s = s\<lparr>ds_log := ds_log s @ [entry]\<rparr>"

definition add_chars :: "nat \<Rightarrow> debate_state \<Rightarrow> debate_state" where
  "add_chars n s = s\<lparr>ds_chars := ds_chars s + int n\<rparr>"

definition emit_progress ::
  "progress \<Rightarrow> string \<Rightarrow> attributes option \<Rightarrow> string option \<Rightarrow> debate_state \<Rightarrow> debate_state" where
  "emit_progress callback role parsed raw s =
     (case callback of
        None \<Rightarrow> s
      | Some f \<Rightarrow>
          (case f role parsed raw of
             None \<Rightarrow> s
           | Some e \<Rightarrow> add_log [(''role'', PStr ''progress_callback''), (''source_role'', PStr role),
                              (''error'', PStr (format_call_error e))] s))"

section \<open>One role\<close>

text \<open>The loop of attempts: an answer with the required list of objects ends it.\<close>

definition invalid_response :: "string \<Rightarrow> string \<Rightarrow> string" where
  "invalid_response role field =
     ''Invalid '' @ role @ '' response: expected JSON object with a '' @ [char_of (39::nat)] @ field @
       [char_of (39::nat)] @ '' list of objects''"

definition objects_in :: "attributes \<Rightarrow> string \<Rightarrow> attributes list option" where
  "objects_in d field =
     (case dict_get d field of
        Some (PList xs) \<Rightarrow>
          (if list_all (\<lambda>x. case x of PDict _ \<Rightarrow> True | _ \<Rightarrow> False) xs
           then Some (List.map_filter (\<lambda>x. case x of PDict o1 \<Rightarrow> Some o1 | _ \<Rightarrow> None) xs) else None)
      | _ \<Rightarrow> None)"

fun call_attempts ::
  "nat \<Rightarrow> llm \<Rightarrow> string \<Rightarrow> string \<Rightarrow> string \<Rightarrow> string \<Rightarrow> debate_state
   \<Rightarrow> (string \<times> attributes option \<times> debate_state) decoded" where
  "call_attempts 0 f prompt role field last_raw s = Inr (last_raw, None, s)"
| "call_attempts (Suc n) f prompt role field last_raw s =
     (let s1 = s\<lparr>ds_calls := Suc (ds_calls s)\<rparr> in
      case f (ds_calls s) prompt role of
        Inl e \<Rightarrow> call_attempts n f prompt role field last_raw (s1\<lparr>ds_error := Some (format_call_error e)\<rparr>)
      | Inr response \<Rightarrow>
          (if response = []
           then call_attempts n f prompt role field last_raw (s1\<lparr>ds_error := Some ''LLM returned an empty response''\<rparr>)
           else bind (parse_json response) (\<lambda>parsed.
             case parsed of
               Some d \<Rightarrow>
                 (if objects_in d field \<noteq> None then Inr (response, Some d, s1\<lparr>ds_error := None\<rparr>)
                  else call_attempts n f prompt role field response (s1\<lparr>ds_error := Some (invalid_response role field)\<rparr>))
             | None \<Rightarrow>
                 call_attempts n f prompt role field response (s1\<lparr>ds_error := Some (invalid_response role field)\<rparr>))))"

definition safe_json_call ::
  "debate_engine \<Rightarrow> string \<Rightarrow> string \<Rightarrow> string \<Rightarrow> debate_state \<Rightarrow> (string \<times> attributes option \<times> debate_state) decoded" where
  "safe_json_call e prompt role field s =
     call_attempts (nat (de_attempts e)) (de_llm e) prompt role field [] (s\<lparr>ds_error := None\<rparr>)"

text \<open>A role's call with the characters it costs, its log entry and the callback.\<close>

definition run_role ::
  "debate_engine \<Rightarrow> progress \<Rightarrow> string \<Rightarrow> string \<Rightarrow> string \<Rightarrow> debate_state \<Rightarrow> (attributes option \<times> debate_state) decoded" where
  "run_role e callback role field prompt s =
     bind (safe_json_call e prompt role field s) (\<lambda>(raw, parsed, s1).
       let error_item = (case ds_error s1 of Some m \<Rightarrow> if m \<noteq> [] then [(''error'', PStr m)] else [] | None \<Rightarrow> []);
           entry = [(''role'', PStr role), (''input'', PStr (take 500 prompt)), (''output'', PStr (take 500 raw))] @ error_item
       in Inr (parsed, emit_progress callback role parsed (Some raw)
            (add_log entry (add_chars (length prompt + length raw) s1))))"

section \<open>The evidence gate\<close>

definition cited_ids :: "attributes \<Rightarrow> string list" where
  "cited_ids item = List.map_filter (\<lambda>c. case c of PStr i \<Rightarrow> Some i | _ \<Rightarrow> None) (attr_list item ''fact_ids'')"

definition grounded :: "evidence_pack \<Rightarrow> pyval \<Rightarrow> bool" where
  "grounded pack item =
     (case item of
        PDict d \<Rightarrow> cited_ids d \<noteq> [] \<and> set (cited_ids d) \<subseteq> set (map fact_id (ep_facts pack))
      | _ \<Rightarrow> False)"

definition grounded_items :: "pyval \<Rightarrow> evidence_pack \<Rightarrow> string \<Rightarrow> debate_state \<Rightarrow> attributes list \<times> debate_state" where
  "grounded_items items pack stage s =
     (let candidates = (case items of PList xs \<Rightarrow> xs | _ \<Rightarrow> []);
          accepted = List.map_filter (\<lambda>x. case x of PDict d \<Rightarrow> if grounded pack x then Some d else None | _ \<Rightarrow> None) candidates
      in (accepted, add_log
            [(''role'', PStr ''evidence_gate''), (''stage'', PStr stage), (''accepted'', PInt (int (length accepted))),
             (''rejected'', PInt (int (length candidates - length accepted))),
             (''available_fact_ids'', PInt (int (length (dedup (map fact_id (ep_facts pack))))))] s))"

definition gated :: "debate_engine \<Rightarrow> evidence_pack option \<Rightarrow> evidence_pack option" where
  "gated e pack = (if de_policy e = POLICY_OPTIONAL then None else pack)"

section \<open>Contexts\<close>

definition evidence_contract :: string where
  "evidence_contract =
     ''Only entries in `facts` are factual claims retrieved or derived from the versioned semantic graph. '' @
     ''Entries in `hypotheses` are explicitly untrusted interpretations from Agents or heuristic rules; '' @
     ''use them only to choose what to investigate. Every concrete final claim must cite a valid fact ID. '' @
     ''If facts do not establish a claim, mark it as unknown and request more evidence.''"

definition append_evidence_pack :: "string \<Rightarrow> evidence_pack \<Rightarrow> string" where
  "append_evidence_pack context1 pack =
     context1 @ [newline, newline] @ ''[DETERMINISTIC EVIDENCE PACK]'' @ [newline] @ evidence_contract @ [newline] @
     json_pretty (pack_to_dict pack) 0 @ [newline] @ ''[END DETERMINISTIC EVIDENCE PACK]''"

definition evidence_only_context :: "evidence_pack \<Rightarrow> string" where
  "evidence_only_context pack =
     append_evidence_pack (''[EVIDENCE-EXCLUSIVE MODE]'' @ [newline] @
       ''No repository context outside the following pack is available.'') pack"

definition prompt_context :: "debate_engine \<Rightarrow> evidence_pack option \<Rightarrow> string \<Rightarrow> string" where
  "prompt_context e pack context1 =
     (case pack of
        None \<Rightarrow> context1
      | Some p \<Rightarrow> if de_policy e = POLICY_EXCLUSIVE then evidence_only_context p else append_evidence_pack context1 p)"

section \<open>The debate\<close>

definition start_state :: "evidence_pack option \<Rightarrow> debate_state" where
  "start_state pack =
     \<lparr>ds_calls = 0, ds_error = None,
      ds_log = (case pack of
          None \<Rightarrow> []
        | Some p \<Rightarrow> [[(''role'', PStr ''evidence''), (''graph_version'', PStr (ep_graph_version p)),
                      (''fact_count'', PInt (int (length (ep_facts p)))),
                      (''evidence_count'', PInt (int (length (ep_evidence p))))]]),
      ds_chars = 0\<rparr>"

definition proposals_of :: "attributes \<Rightarrow> attributes list" where
  "proposals_of d = (case objects_in d ''proposals'' of Some xs \<Rightarrow> xs | None \<Rightarrow> [])"

definition objects :: "attributes list \<Rightarrow> pyval" where
  "objects ds = PList (map PDict ds)"

definition gate_proposals :: "evidence_pack option \<Rightarrow> attributes \<Rightarrow> debate_state \<Rightarrow> attributes \<times> debate_state" where
  "gate_proposals gate pj s =
     (case gate of
        None \<Rightarrow> (pj, s)
      | Some pack \<Rightarrow>
          (case grounded_items (dict_get_or (PList []) pj ''proposals'') pack ''proposer'' s of
             (kept, s1) \<Rightarrow> (dict_set ''proposals'' (objects kept) pj, s1)))"

definition verifier_error :: "failure \<Rightarrow> debate_state \<Rightarrow> debate_state" where
  "verifier_error e = add_log [(''role'', PStr ''verifier''), (''error'', PStr (format_call_error e))]"

definition verify_proposed ::
  "debate_engine \<Rightarrow> progress \<Rightarrow> attributes \<Rightarrow> debate_state \<Rightarrow> attributes \<times> string \<times> debate_state" where
  "verify_proposed e callback pj s =
     (case de_verifier e of
        None \<Rightarrow> (pj, [], s)
      | Some v \<Rightarrow>
          (if proposals_of pj = [] then (pj, [], s)
           else (case cv_proposals v (proposals_of pj) of
                   Inl x \<Rightarrow> (pj, [], verifier_error x s)
                 | Inr verified \<Rightarrow>
                     (let pj1 = dict_set ''proposals'' (objects verified) pj in
                      case cv_summary v verified of
                        Inl x \<Rightarrow> (pj1, [], verifier_error x s)
                      | Inr summary1 \<Rightarrow>
                          (pj1, summary1,
                           add_chars (length summary1)
                             (emit_progress callback ''verifier''
                               (Some [(''type'', PStr ''proposer_check''), (''proposals'', objects verified), (''summary'', PStr summary1)])
                               None
                               (add_log [(''role'', PStr ''verifier''), (''type'', PStr ''proposer_check''),
                                 (''verification_summary'', PStr (take 500 summary1))] s)))))))"

definition verify_critiqued ::
  "debate_engine \<Rightarrow> attributes option \<Rightarrow> attributes \<Rightarrow> debate_state \<Rightarrow> attributes option \<times> debate_state" where
  "verify_critiqued e critiqued pj s =
     (case (de_verifier e, critiqued) of
        (Some v, Some c) \<Rightarrow>
          (if c = [] then (critiqued, s)
           else (case cv_critique v c (proposals_of pj) of
                   Inl x \<Rightarrow> (critiqued, verifier_error x s)
                 | Inr c1 \<Rightarrow> (Some c1, add_log [(''role'', PStr ''verifier''), (''type'', PStr ''critique_check'')] s)))
      | _ \<Rightarrow> (critiqued, s))"

definition verify_judged :: "debate_engine \<Rightarrow> attributes list \<Rightarrow> debate_state \<Rightarrow> attributes list \<times> debate_state" where
  "verify_judged e items s =
     (case de_verifier e of
        None \<Rightarrow> (items, s)
      | Some v \<Rightarrow>
          (if items = [] then (items, s)
           else (case cv_proposals v items of
                   Inl x \<Rightarrow> (items, add_log [(''role'', PStr ''verifier''), (''type'', PStr ''final_check''),
                                            (''error'', PStr (format_call_error x))] s)
                 | Inr verified \<Rightarrow> (verified, s))))"

text \<open>What the judge accepted, what stays unreviewed and where that comes from.\<close>

definition settle ::
  "debate_engine \<Rightarrow> attributes \<Rightarrow> attributes option \<Rightarrow> attributes option \<Rightarrow> debate_state
   \<Rightarrow> attributes list \<times> attributes list \<times> string \<times> debate_state" where
  "settle e pj critiqued judged s =
     (case judged of
        None \<Rightarrow> ([], proposals_of pj, ''proposer'', s)
      | Some j \<Rightarrow>
          (case verify_judged e (case objects_in j ''final_suggestions'' of Some xs \<Rightarrow> xs | None \<Rightarrow> []) s of
             (items, s1) \<Rightarrow> if critiqued \<noteq> None then (items, [], [], s1) else ([], items, ''judge'', s1)))"

definition gate_final ::
  "evidence_pack option \<Rightarrow> attributes list \<times> attributes list \<times> string \<times> debate_state
   \<Rightarrow> attributes list \<times> attributes list \<times> string \<times> debate_state" where
  "gate_final gate settled =
     (case settled of (final, unreviewed, source, s) \<Rightarrow>
        (case gate of
           None \<Rightarrow> settled
         | Some pack \<Rightarrow>
             (case grounded_items (objects final) pack ''final'' s of
                (kept, s1) \<Rightarrow>
                  (if unreviewed = [] then (kept, [], source, s1)
                   else (case grounded_items (objects unreviewed) pack ''unreviewed'' s1 of
                           (open1, s2) \<Rightarrow> (kept, open1, source, s2))))))"

definition stage_status :: "'a option \<Rightarrow> string" where
  "stage_status x = (if x \<noteq> None then ''complete'' else ''failed'')"

definition conclude ::
  "attributes option \<Rightarrow> attributes option \<Rightarrow> int \<Rightarrow> attributes list \<times> attributes list \<times> string \<times> debate_state \<Rightarrow> debate_result" where
  "conclude critiqued judged elapsed settled =
     (case settled of (final, unreviewed, source, s) \<Rightarrow>
        (let status = (if critiqued \<noteq> None \<and> judged \<noteq> None then ''complete'' else ''partial'')
         in \<lparr>dr_suggestions = final, dr_unreviewed = unreviewed, dr_unreviewed_source = source,
             dr_log = map PDict (ds_log s), dr_consensus = (status = ''complete''), dr_status = status,
             dr_stages = [(''proposer'', ''complete''), (''critique'', stage_status critiqued), (''judge'', stage_status judged)],
             dr_iterations = 3, dr_tokens = ds_chars s div 3, dr_duration = elapsed, dr_report = []\<rparr>))"

definition proposer_failed :: "int \<Rightarrow> debate_state \<Rightarrow> debate_result" where
  "proposer_failed elapsed s =
     \<lparr>dr_suggestions = [], dr_unreviewed = [], dr_unreviewed_source = [], dr_log = map PDict (ds_log s),
      dr_consensus = False, dr_status = ''failed'',
      dr_stages = [(''proposer'', ''failed''), (''critique'', ''not_run''), (''judge'', ''not_run'')],
      dr_iterations = 0, dr_tokens = ds_chars s div 3, dr_duration = elapsed, dr_report = []\<rparr>"

definition json_or_empty :: "attributes option \<Rightarrow> string" where
  "json_or_empty d = (case d of Some (x # xs) \<Rightarrow> json_pretty (PDict (x # xs)) 0 | _ \<Rightarrow> ''{}'')"

text \<open>The rounds after the proposer, with the state they end in.\<close>

definition review_proposals ::
  "debate_engine \<Rightarrow> prompt_factory \<Rightarrow> string \<Rightarrow> progress \<Rightarrow> evidence_pack option \<Rightarrow> int \<Rightarrow> attributes \<Rightarrow> debate_state
   \<Rightarrow> (debate_result \<times> debate_state) decoded" where
  "review_proposals e fac context1 callback gate elapsed pj s =
     (case verify_proposed e callback (fst (gate_proposals gate pj s)) (snd (gate_proposals gate pj s)) of (pj1, summary1, s1) \<Rightarrow>
        bind (run_role e callback ''critique'' ''verdicts'' (pf_critique fac (json_pretty (PDict pj1) 0) context1 summary1) s1) (\<lambda>(c, s2).
          case verify_critiqued e c pj1 s2 of (critiqued, s3) \<Rightarrow>
            bind (run_role e callback ''judge'' ''final_suggestions''
                (pf_judge fac (json_pretty (PDict pj1) 0) (json_or_empty critiqued) context1 summary1) s3) (\<lambda>(judged, s4).
              let settled = gate_final gate (settle e pj1 critiqued judged s4)
              in Inr (conclude critiqued judged elapsed settled, snd (snd (snd settled))))))"

definition debate_run ::
  "debate_engine \<Rightarrow> string \<Rightarrow> string \<Rightarrow> string \<Rightarrow> progress \<Rightarrow> evidence_pack option \<Rightarrow> int
   \<Rightarrow> (debate_result \<times> debate_state) decoded" where
  "debate_run e context1 target strategy callback pack elapsed =
     (case de_factory e of
        None \<Rightarrow> Inl (Decode.Raised (RuntimeError (''DebateEngine requires a PromptFactory. '' @
                  ''Pass one to __init__ or provide a fingerprint.'')))
      | Some fac \<Rightarrow>
          (if pack = None \<and> de_policy e \<noteq> POLICY_OPTIONAL
           then Inl (Decode.Raised (ValueError (''evidence_pack is required by the '' @ evidence_policy_value (de_policy e) @ '' policy'')))
           else
             (let context2 = prompt_context e pack context1 in
              bind (run_role e callback ''proposer'' ''proposals'' (pf_proposer fac context2 target strategy) (start_state pack))
                (\<lambda>(proposed, s).
                  case proposed of
                    None \<Rightarrow> Inr (proposer_failed elapsed s, s)
                  | Some pj \<Rightarrow> review_proposals e fac context2 callback (gated e pack) elapsed pj s))))"

definition debate ::
  "debate_engine \<Rightarrow> string \<Rightarrow> string \<Rightarrow> string \<Rightarrow> progress \<Rightarrow> evidence_pack option \<Rightarrow> int \<Rightarrow> debate_result decoded" where
  "debate e context1 target strategy callback pack elapsed =
     bind (debate_run e context1 target strategy callback pack elapsed) (\<lambda>(r, s). Inr r)"

section \<open>Facts about the rounds\<close>

lemma calls_log [simp]: "ds_calls (add_log x s) = ds_calls s" "ds_calls (add_chars n s) = ds_calls s"
  "ds_calls (emit_progress cb role p raw s) = ds_calls s" "ds_calls (verifier_error y s) = ds_calls s"
  by (simp_all add: add_log_def add_chars_def emit_progress_def verifier_error_def split: option.splits)

lemma call_attempts_calls:
  "call_attempts n f prompt role field raw s = Inr (t, d, s') \<Longrightarrow>
   ds_calls s \<le> ds_calls s' \<and> ds_calls s' \<le> ds_calls s + n \<and> (d = None \<longrightarrow> ds_calls s' = ds_calls s + n) \<and>
   (\<forall>x. d = Some x \<longrightarrow> objects_in x field \<noteq> None)"
proof (induction n arbitrary: raw s)
  case (Suc n)
  show ?case
  proof (cases "f (ds_calls s) prompt role")
    case (Inl x)
    with Suc.prems Suc.IH show ?thesis by (fastforce simp: Let_def)
  next
    case (Inr response)
    show ?thesis
    proof (cases "response = []")
      case True
      with Inr Suc.prems Suc.IH show ?thesis by (fastforce simp: Let_def)
    next
      case False
      with Inr Suc.prems obtain p where "parse_json response = Inr p" by (auto simp: Let_def)
      with False Inr Suc.prems Suc.IH show ?thesis by (fastforce simp: Let_def split: option.splits if_splits)
    qed
  qed
qed simp

lemma run_role_calls:
  assumes "run_role e cb role field prompt s = Inr (d, s')"
  shows "ds_calls s' \<le> ds_calls s + nat (de_attempts e)" "d = Some x \<Longrightarrow> objects_in x field \<noteq> None"
  using assms by (auto simp: run_role_def safe_json_call_def Let_def dest!: call_attempts_calls)

lemma set_map_filter: "set (List.map_filter f xs) = {y. \<exists>x \<in> set xs. f x = Some y}"
  by (induction xs) (auto simp: List.map_filter_simps split: option.splits)

lemma grounded_items_grounded:
  "x \<in> set (fst (grounded_items v pack stage s)) \<Longrightarrow>
   cited_ids x \<noteq> [] \<and> set (cited_ids x) \<subseteq> fact_id ` set (ep_facts pack)"
proof -
  assume "x \<in> set (fst (grounded_items v pack stage s))"
  then obtain y where "(case y of PDict d \<Rightarrow> if grounded pack y then Some d else None | _ \<Rightarrow> None) = Some x"
    by (auto simp: grounded_items_def Let_def set_map_filter)
  then show ?thesis by (cases y) (simp_all add: grounded_def split: if_splits)
qed

lemma grounded_items_calls [simp]: "ds_calls (snd (grounded_items v pack stage s)) = ds_calls s"
  by (simp add: grounded_items_def Let_def)

lemma gate_proposals_calls [simp]: "ds_calls (snd (gate_proposals gate pj s)) = ds_calls s"
  by (simp add: gate_proposals_def case_prod_unfold split: option.splits)

lemma verify_calls [simp]: "ds_calls (snd (snd (verify_proposed e cb pj s))) = ds_calls s"
  "ds_calls (snd (verify_critiqued e c pj s)) = ds_calls s" "ds_calls (snd (verify_judged e items s)) = ds_calls s"
  by (auto simp: verify_proposed_def verify_critiqued_def verify_judged_def Let_def split: option.splits sum.splits)

lemma settle_calls [simp]: "ds_calls (snd (snd (snd (settle e pj c j s)))) = ds_calls s"
proof (cases j)
  case (Some d)
  let ?items = "case objects_in d ''final_suggestions'' of Some xs \<Rightarrow> xs | None \<Rightarrow> []"
  obtain items s1 where "verify_judged e ?items s = (items, s1)" by fastforce
  with verify_calls(3)[of e ?items s] Some show ?thesis by (simp add: settle_def)
qed (simp add: settle_def)

lemma gate_final_calls [simp]: "ds_calls (snd (snd (snd (gate_final gate x)))) = ds_calls (snd (snd (snd x)))"
proof (cases gate)
  case (Some pack)
  obtain final unreviewed source s where x: "x = (final, unreviewed, source, s)" by (cases x)
  obtain kept s1 where k: "grounded_items (objects final) pack ''final'' s = (kept, s1)" by fastforce
  obtain rest s2 where r: "grounded_items (objects unreviewed) pack ''unreviewed'' s1 = (rest, s2)" by fastforce
  from grounded_items_calls[of "objects final" pack "''final''" s] grounded_items_calls[of "objects unreviewed" pack "''unreviewed''" s1]
  show ?thesis by (simp add: gate_final_def Some x k r)
qed (simp add: gate_final_def split: prod.splits)

lemma settle_exclusive:
  "fst (settle e pj c j s) = [] \<or> (c \<noteq> None \<and> j \<noteq> None \<and> fst (snd (settle e pj c j s)) = [])"
  by (auto simp: settle_def split: option.splits prod.splits)

lemma gate_final_subset:
  "fst (gate_final gate x) = [] \<or> fst x \<noteq> []" "fst (snd (gate_final gate x)) = [] \<or> fst (snd x) \<noteq> []"
  by (auto simp: gate_final_def grounded_items_def objects_def Let_def List.map_filter_simps split: option.splits prod.splits)

lemma gate_final_grounded:
  assumes "x \<in> set (fst (gate_final (Some pack) y)) \<union> set (fst (snd (gate_final (Some pack) y)))"
  shows "cited_ids x \<noteq> [] \<and> set (cited_ids x) \<subseteq> fact_id ` set (ep_facts pack)"
proof -
  obtain final unreviewed source s where y: "y = (final, unreviewed, source, s)" by (cases y)
  from assms obtain v stage s' where "x \<in> set (fst (grounded_items v pack stage s'))"
    by (auto simp: gate_final_def y split: prod.splits if_splits) (metis fst_conv)+
  then show ?thesis by (rule grounded_items_grounded)
qed

lemma review_proposalsE:
  assumes "review_proposals e fac ctx cb gate elapsed pj s = Inr (r, s')"
  obtains pj1 c judged s4 where
    "r = conclude c judged elapsed (gate_final gate (settle e pj1 c judged s4))"
    "ds_calls s4 \<le> ds_calls s + 2 * nat (de_attempts e)" "s' = snd (snd (snd (gate_final gate (settle e pj1 c judged s4))))"
proof -
  obtain pj1 summary1 s1 where v: "verify_proposed e cb (fst (gate_proposals gate pj s)) (snd (gate_proposals gate pj s)) = (pj1, summary1, s1)"
    by (metis prod_cases3)
  then have s1: "ds_calls s1 = ds_calls s"
    using verify_calls(1)[of e cb "fst (gate_proposals gate pj s)" "snd (gate_proposals gate pj s)"] by simp
  from assms v obtain c0 s2 where c0:
    "run_role e cb ''critique'' ''verdicts'' (pf_critique fac (json_pretty (PDict pj1) 0) ctx summary1) s1 = Inr (c0, s2)"
    by (auto simp: review_proposals_def)
  obtain c s3 where c: "verify_critiqued e c0 pj1 s2 = (c, s3)" by fastforce
  with verify_calls(2)[of e c0 pj1 s2] have s3: "ds_calls s3 = ds_calls s2" by simp
  from assms v c0 c obtain judged s4 where j:
    "run_role e cb ''judge'' ''final_suggestions'' (pf_judge fac (json_pretty (PDict pj1) 0) (json_or_empty c) ctx summary1) s3 = Inr (judged, s4)"
    by (auto simp: review_proposals_def)
  have "ds_calls s4 \<le> ds_calls s + 2 * nat (de_attempts e)"
    using run_role_calls(1)[OF c0] run_role_calls(1)[OF j] s1 s3 by simp
  then show ?thesis using that assms v c0 c j by (auto simp: review_proposals_def Let_def)
qed

section \<open>A model that cites\<close>

definition noted_fact :: semantic_fact where
  "noted_fact = \<lparr>sf_subject = ''a.py'', sf_predicate = Text ''calls'', sf_object = ''f'', sf_evidence = [],
     sf_confidence = float_one, sf_attributes = []\<rparr>"

definition citing_item :: attributes where
  "citing_item = [(''fact_ids'', PList [PStr (fact_id noted_fact)])]"

definition citing_answer :: attributes where
  "citing_answer = [(''final_suggestions'', objects [citing_item]), (''proposals'', objects [citing_item]), (''verdicts'', PList [])]"

definition citing_engine :: debate_engine where
  "citing_engine = make_debate_engine (\<lambda>n prompt role. Inr (json_dumps (PDict citing_answer)))
     (Some \<lparr>pf_proposer = \<lambda>_ _ _. [], pf_critique = \<lambda>_ _ _. [], pf_judge = \<lambda>_ _ _ _. []\<rparr>) 0 None POLICY_REQUIRED"

lemma strip_braces: "strip (CHR ''{'' # t @ ''}'') = CHR ''{'' # t @ ''}''"
  by (simp add: strip_def strip_by_def is_space_def code_def)

lemma parse_citing: "parse_json (json_dumps (PDict citing_answer)) = Inr (Some citing_answer)"
proof -
  have "sorted (map fst citing_answer)" unfolding citing_answer_def list.map fst_conv by code_simp
  then have "sort_key fst citing_answer = citing_answer" by (rule sort_key_id_if_sorted)
  moreover have "map (map_prod id json_normal) citing_answer = citing_answer"
    by (simp add: citing_answer_def objects_def citing_item_def)
  ultimately have normal: "json_normal (PDict citing_answer) = PDict citing_answer" by simp
  have "json_ok (PDict citing_answer)" by (simp add: citing_answer_def objects_def citing_item_def)
  note read = json_loads_dumps[OF this, unfolded normal]
  obtain t where tx: "json_dumps (PDict citing_answer) = CHR ''{'' # t @ ''}''" by (simp add: json_items_def)
  then have "strip_fences (strip (json_dumps (PDict citing_answer))) = json_dumps (PDict citing_answer)"
    by (simp add: strip_braces strip_fences_def starts_with_def)
  with read tx have "parse_json_safe (json_dumps (PDict citing_answer)) = Inr (Some citing_answer)"
    by (simp add: parse_json_safe_def Let_def)
  then show ?thesis by (simp add: parse_json_def citing_answer_def)
qed

lemma citing_run:
  "case debate_run citing_engine [] [] [] None (Some (pack_from_facts [] [noted_fact] [] [] [])) 0 of
     Inr (r, s) \<Rightarrow> dr_suggestions r = [citing_item] \<and> ds_calls s = 3 | Inl _ \<Rightarrow> False"
proof -
  let ?raw = "json_dumps (PDict citing_answer)" and ?pack = "pack_from_facts [] [noted_fact] [] [] []"
  have raw: "?raw \<noteq> []" by (simp add: json_items_def)
  have fields: "objects_in citing_answer ''proposals'' = Some [citing_item]"
    "objects_in citing_answer ''verdicts'' = Some []" "objects_in citing_answer ''final_suggestions'' = Some [citing_item]"
    "dict_get_or (PList []) citing_answer ''proposals'' = objects [citing_item]"
    by (simp_all add: objects_in_def citing_answer_def dict_get_Cons objects_def List.map_filter_simps dict_get_or_get)
  have call: "\<exists>s'. run_role citing_engine None role field prompt s = Inr (Some citing_answer, s') \<and> ds_calls s' = Suc (ds_calls s)"
    if "objects_in citing_answer field \<noteq> None" for role field prompt s
    using that raw by (simp add: run_role_def safe_json_call_def citing_engine_def make_debate_engine_def Let_def parse_citing
        del: json_dumps.simps)
  have "grounded ?pack (PDict citing_item)"
    by (simp add: grounded_def cited_ids_def citing_item_def attr_list_def dict_get_Cons List.map_filter_simps pack_from_facts_def)
  then have gate: "\<exists>s'. grounded_items (objects [citing_item]) ?pack stage s = ([citing_item], s') \<and> ds_calls s' = ds_calls s" for stage s
    by (simp add: grounded_items_def objects_def List.map_filter_simps Let_def)
  have same: "dict_set ''proposals'' (objects [citing_item]) citing_answer = citing_answer"
    by (simp add: citing_answer_def dict_set_def)
  have none: "de_verifier citing_engine = None" "gated citing_engine (Some ?pack) = Some ?pack" "de_policy citing_engine = POLICY_REQUIRED"
    by (simp_all add: citing_engine_def make_debate_engine_def gated_def)
  obtain fac where fac: "de_factory citing_engine = Some fac" by (simp add: citing_engine_def make_debate_engine_def)
  let ?ctx = "prompt_context citing_engine (Some ?pack) []"
  obtain s1 where s1: "run_role citing_engine None ''proposer'' ''proposals'' (pf_proposer fac ?ctx [] []) (start_state (Some ?pack)) =
      Inr (Some citing_answer, s1)" "ds_calls s1 = Suc (ds_calls (start_state (Some ?pack)))"
    using call[of "''proposals''"] fields by blast
  obtain s2 where s2: "gate_proposals (Some ?pack) citing_answer s1 = (citing_answer, s2)" "ds_calls s2 = ds_calls s1"
    using gate[of "''proposer''" s1] fields same by (auto simp: gate_proposals_def)
  obtain s3 where s3: "run_role citing_engine None ''critique'' ''verdicts'' (pf_critique fac (json_pretty (PDict citing_answer) 0) ?ctx []) s2 =
      Inr (Some citing_answer, s3)" "ds_calls s3 = Suc (ds_calls s2)"
    using call[of "''verdicts''"] fields by blast
  obtain s4 where s4: "run_role citing_engine None ''judge'' ''final_suggestions''
      (pf_judge fac (json_pretty (PDict citing_answer) 0) (json_or_empty (Some citing_answer)) ?ctx []) s3 =
      Inr (Some citing_answer, s4)" "ds_calls s4 = Suc (ds_calls s3)"
    using call[of "''final_suggestions''"] fields by blast
  obtain s5 where s5: "grounded_items (objects [citing_item]) ?pack ''final'' s4 = ([citing_item], s5)" "ds_calls s5 = ds_calls s4"
    using gate by blast
  have "ds_calls (start_state (Some ?pack)) = 0" by (simp add: start_state_def)
  with s1 s2 s3 s4 s5 show ?thesis
    by (simp add: debate_run_def fac none Let_def review_proposals_def verify_proposed_def verify_critiqued_def settle_def
        fields verify_judged_def gate_final_def conclude_def)
qed

section \<open>Properties\<close>

text \<open>
  C34: Under a policy that requires evidence nothing a debate returns is invented: every final and
  every unreviewed suggestion cites at least one fact, and every fact it cites is in the pack.
\<close>

theorem debate_grounded:
  assumes "debate e context1 target strategy cb (Some pack) elapsed = Inr r" "de_policy e \<noteq> POLICY_OPTIONAL"
  shows "\<forall>x \<in> set (dr_suggestions r @ dr_unreviewed r).
    cited_ids x \<noteq> [] \<and> set (cited_ids x) \<subseteq> fact_id ` set (ep_facts pack)"
proof -
  from assms(1) obtain s where run: "debate_run e context1 target strategy cb (Some pack) elapsed = Inr (r, s)"
    by (auto simp: debate_def)
  with assms(2) consider s1 where "r = proposer_failed elapsed s1"
    | fac ctx pj s1 where "review_proposals e fac ctx cb (Some pack) elapsed pj s1 = Inr (r, s)"
    by (auto simp: debate_run_def gated_def Let_def split: option.splits)
  then show ?thesis
  proof cases
    case 2
    from review_proposalsE[OF this] obtain pj1 c judged s4 where
      "r = conclude c judged elapsed (gate_final (Some pack) (settle e pj1 c judged s4))" by metis
    then have "set (dr_suggestions r @ dr_unreviewed r) =
        set (fst (gate_final (Some pack) (settle e pj1 c judged s4))) \<union> set (fst (snd (gate_final (Some pack) (settle e pj1 c judged s4))))"
      by (simp add: conclude_def case_prod_unfold Let_def)
    then show ?thesis using gate_final_grounded by blast
  qed (simp add: proposer_failed_def)
qed

theorem debate_grounded_witness:
  "case debate citing_engine [] [] [] None (Some (pack_from_facts [] [noted_fact] [] [] [])) 0 of
     Inr r \<Rightarrow> dr_suggestions r = [citing_item] \<and> cited_ids citing_item = [fact_id noted_fact] | Inl _ \<Rightarrow> False"
proof -
  from citing_run obtain r s where run:
    "debate_run citing_engine [] [] [] None (Some (pack_from_facts [] [noted_fact] [] [] [])) 0 = Inr (r, s)"
    "dr_suggestions r = [citing_item]" "ds_calls s = 3" by (auto split: sum.splits)
  then have d: "debate citing_engine [] [] [] None (Some (pack_from_facts [] [noted_fact] [] [] [])) 0 = Inr r"
    by (simp add: debate_def)
  from debate_grounded[OF d] run(2) have "cited_ids citing_item \<noteq> []"
    by (simp add: citing_engine_def make_debate_engine_def)
  with run(2) d show ?thesis by (simp add: cited_ids_def citing_item_def attr_list_def dict_get_Cons List.map_filter_simps)
qed

text \<open>
  C35: A debate promotes suggestions only by consensus: it is in consensus exactly when all three
  stages completed, final suggestions exist only then, and never beside unreviewed ones; and it makes
  at most as many model calls as three roles with the configured attempts allow.
\<close>

theorem debate_consensus:
  assumes "debate_run e context1 target strategy cb pack elapsed = Inr (r, s)"
  shows "(dr_consensus r \<longleftrightarrow> dr_stages r = [(''proposer'', ''complete''), (''critique'', ''complete''), (''judge'', ''complete'')]) \<and>
    (dr_consensus r \<longleftrightarrow> dr_status r = ''complete'') \<and>
    (dr_consensus r \<or> dr_suggestions r = []) \<and> (dr_suggestions r = [] \<or> dr_unreviewed r = []) \<and>
    ds_calls s \<le> 3 * nat (de_attempts e)"
proof -
  from assms obtain fac where fac: "de_factory e = Some fac" "\<not> (pack = None \<and> de_policy e \<noteq> POLICY_OPTIONAL)"
    by (auto simp: debate_run_def split: option.splits if_splits)
  let ?ctx = "prompt_context e pack context1"
  from assms fac obtain proposed s1 where p:
    "run_role e cb ''proposer'' ''proposals'' (pf_proposer fac ?ctx target strategy) (start_state pack) = Inr (proposed, s1)"
    by (auto simp: debate_run_def Let_def)
  have s1: "ds_calls s1 \<le> nat (de_attempts e)"
    using run_role_calls(1)[OF p] by (simp add: start_state_def)
  show ?thesis
  proof (cases proposed)
    case None
    with assms fac p have "r = proposer_failed elapsed s1" "s = s1" by (auto simp: debate_run_def Let_def)
    with s1 show ?thesis by (simp add: proposer_failed_def)
  next
    case (Some pj)
    with assms fac p have "review_proposals e fac ?ctx cb (gated e pack) elapsed pj s1 = Inr (r, s)"
      by (auto simp: debate_run_def Let_def)
    from review_proposalsE[OF this] obtain pj1 c judged s4 where
      r: "r = conclude c judged elapsed (gate_final (gated e pack) (settle e pj1 c judged s4))" and
      s4: "ds_calls s4 \<le> ds_calls s1 + 2 * nat (de_attempts e)" and
      s: "s = snd (snd (snd (gate_final (gated e pack) (settle e pj1 c judged s4))))" by metis
    let ?x = "settle e pj1 c judged s4"
    note settle_exclusive[of e pj1 c judged s4] gate_final_subset(1)[of "gated e pack" ?x] gate_final_subset(2)[of "gated e pack" ?x]
    moreover have "ds_calls s \<le> 3 * nat (de_attempts e)" using s s4 s1 by simp
    ultimately show ?thesis unfolding r
      by (auto simp: conclude_def case_prod_unfold Let_def stage_status_def)
  qed
qed

theorem debate_consensus_witness:
  "case debate_run citing_engine [] [] [] None (Some (pack_from_facts [] [noted_fact] [] [] [])) 0 of
     Inr (r, s) \<Rightarrow> dr_consensus r \<and> ds_calls s = 3 | Inl _ \<Rightarrow> False"
proof -
  from citing_run obtain r s where run:
    "debate_run citing_engine [] [] [] None (Some (pack_from_facts [] [noted_fact] [] [] [])) 0 = Inr (r, s)"
    "dr_suggestions r = [citing_item]" "ds_calls s = 3" by (auto split: sum.splits)
  from debate_consensus[OF run(1)] run(2) have "dr_consensus r" by auto
  with run show ?thesis by simp
qed

end
