(* ===== verification/PathSafety.thy ===== *)
theory PathSafety
  imports Provenance "HOL-Library.Sublist"
begin

text \<open>
  \<open>path_safety.py\<close> over a model of a POSIX file tree: a table of absolute paths, as lists of
  components, with regular files (their bytes), directories, symbolic links (their target text) and
  other entries; the root is always a directory. \<open>decode\<close> is \<open>bytes.decode("utf-8", errors="ignore")\<close>.
  Permissions and concurrent changes are not modelled; every \<open>OSError\<close> is \<open>None\<close>.
\<close>

section \<open>The file tree\<close>

datatype entry = Regular string | Directory | Link string | Special

type_synonym path = "string list"
type_synonym file_tree = "(path, entry) dict"

definition lookup :: "file_tree \<Rightarrow> path \<Rightarrow> entry option" where
  "lookup fs p = (if p = [] then Some Directory else dict_get fs p)"

definition is_absolute :: "string \<Rightarrow> bool" where
  "is_absolute s = starts_with ''/'' s"

definition link_paths :: "file_tree \<Rightarrow> path list" where
  "link_paths fs = filter (\<lambda>p. case lookup fs p of Some (Link t) \<Rightarrow> True | _ \<Rightarrow> False) (dict_keys fs)"

lemma link_paths_in: "lookup fs q = Some (Link t) \<Longrightarrow> q \<in> set (link_paths fs)"
  by (auto simp: link_paths_def lookup_def dict_keys_def dict_get_def split: if_splits dest: map_of_SomeD intro: rev_image_eqI)

text \<open>
  Following a path component by component. \<open>active\<close> holds the links being expanded: meeting one of them
  again is a loop. The kernel (\<open>strict\<close>) walks only through directories; \<open>os.path.realpath\<close>, as
  used by \<open>Path.resolve(strict=True)\<close>, takes \<open>..\<close> after a file as the file's directory.
\<close>

function walk :: "bool \<Rightarrow> file_tree \<Rightarrow> path list \<Rightarrow> path \<Rightarrow> string list \<Rightarrow> path option" where
  "walk strict fs active p [] = Some p"
| "walk strict fs active p (c # cs) =
     (if c = [] \<or> c = ''.'' \<or> c = ''..'' then
        (if strict \<and> lookup fs p \<noteq> Some Directory then None
         else walk strict fs active (if c = ''..'' then butlast p else p) cs)
      else (case lookup fs (p @ [c]) of
              None \<Rightarrow> None
            | Some (Link t) \<Rightarrow>
                (if p @ [c] \<in> set active then None
                 else (case walk strict fs ((p @ [c]) # active) (if is_absolute t then [] else p) (split_on (CHR ''/'') t) of
                         None \<Rightarrow> None
                       | Some q \<Rightarrow> walk strict fs active q cs))
            | Some _ \<Rightarrow> walk strict fs active (p @ [c]) cs))"
  by pat_completeness auto

lemma links_left:
  assumes "lookup fs q = Some (Link t)" "q \<notin> set active"
  shows "length (filter (\<lambda>p. p \<notin> set (q # active)) (link_paths fs)) < length (filter (\<lambda>p. p \<notin> set active) (link_paths fs))"
proof -
  let ?rest = "filter (\<lambda>p. p \<notin> set active) (link_paths fs)"
  have "filter (\<lambda>p. p \<notin> set (q # active)) (link_paths fs) = filter (\<lambda>p. p \<noteq> q) ?rest"
    unfolding filter_filter by (rule filter_cong) auto
  moreover have "length (filter (\<lambda>p. p \<noteq> q) ?rest) < length ?rest"
    using link_paths_in[OF assms(1)] assms(2) by (intro length_filter_less[of q]) auto
  ultimately show ?thesis by simp
qed

termination walk
  by (relation "measures [\<lambda>(strict, fs, active, p, cs). length (filter (\<lambda>q. q \<notin> set active) (link_paths fs)),
      \<lambda>(strict, fs, active, p, cs). length cs]") (auto simp del: set_simps intro: links_left)

section \<open>The operations\<close>

text \<open>\<open>Path.is_symlink\<close> and \<open>Path.is_file\<close> of an absolute path; an error is \<open>False\<close>.\<close>

definition is_symlink :: "file_tree \<Rightarrow> path \<Rightarrow> bool" where
  "is_symlink fs cs =
     (if cs = [] \<or> last cs = ''..'' then False
      else (case walk True fs [] [] (butlast cs) of
              None \<Rightarrow> False
            | Some p \<Rightarrow> (case lookup fs (p @ [last cs]) of Some (Link t) \<Rightarrow> True | _ \<Rightarrow> False)))"

definition regular_at :: "file_tree \<Rightarrow> path \<Rightarrow> string option" where
  "regular_at fs cs =
     (case walk True fs [] [] cs of
        None \<Rightarrow> None
      | Some p \<Rightarrow> (case lookup fs p of Some (Regular bytes) \<Rightarrow> Some bytes | _ \<Rightarrow> None))"

text \<open>\<open>root\<close> is \<open>Path(project_root).resolve()\<close>.\<close>

definition inside_file :: "file_tree \<Rightarrow> path \<Rightarrow> path \<Rightarrow> path option" where
  "inside_file fs root candidate =
     (if is_symlink fs candidate then None
      else (case walk False fs [] [] candidate of
              None \<Rightarrow> None
            | Some p \<Rightarrow> if prefix root p \<and> regular_at fs p \<noteq> None then Some p else None))"

definition resolve_project_file :: "file_tree \<Rightarrow> path \<Rightarrow> string \<Rightarrow> path option" where
  "resolve_project_file fs root relative =
     (if is_absolute relative then None else inside_file fs root (root @ path_parts relative))"

definition is_project_file :: "file_tree \<Rightarrow> path \<Rightarrow> string \<Rightarrow> bool" where
  "is_project_file fs root candidate =
     (inside_file fs root (if is_absolute candidate then path_parts candidate else root @ path_parts candidate) \<noteq> None)"

definition read_text_bounded :: "(string \<Rightarrow> string) \<Rightarrow> file_tree \<Rightarrow> path \<Rightarrow> int \<Rightarrow> string option" where
  "read_text_bounded decode fs cs limit =
     (if limit < 1 \<or> is_symlink fs cs then None
      else (case regular_at fs cs of
              None \<Rightarrow> None
            | Some bytes \<Rightarrow> if limit < int (length bytes) then None else Some (decode bytes)))"

definition read_text_prefix :: "(string \<Rightarrow> string) \<Rightarrow> file_tree \<Rightarrow> path \<Rightarrow> int \<Rightarrow> string option" where
  "read_text_prefix decode fs cs limit =
     (if limit < 1 \<or> is_symlink fs cs then None
      else map_option (\<lambda>bytes. decode (take (nat limit) bytes)) (regular_at fs cs))"

section \<open>Canonical paths\<close>

definition canonical :: "file_tree \<Rightarrow> path \<Rightarrow> bool" where
  "canonical fs p \<longleftrightarrow> (\<forall>q t. prefix q p \<longrightarrow> lookup fs q \<noteq> Some (Link t))"

lemma canonical_Nil: "canonical fs []"
  by (simp add: canonical_def lookup_def)

lemma canonical_butlast: "canonical fs p \<Longrightarrow> canonical fs (butlast p)"
  by (meson canonical_def prefix_order.trans prefixeq_butlast)

lemma canonical_snoc: "canonical fs p \<Longrightarrow> (\<And>t. lookup fs (p @ [c]) \<noteq> Some (Link t)) \<Longrightarrow> canonical fs (p @ [c])"
  by (auto simp: canonical_def)

text \<open>What holds of every path the walk passes through holds of its result.\<close>

lemma walk_invariant:
  assumes "walk strict fs active p cs = Some q" "P p" "P []" "\<And>p. P p \<Longrightarrow> P (butlast p)"
    "\<And>p c. P p \<Longrightarrow> c \<noteq> [] \<Longrightarrow> c \<noteq> ''.'' \<Longrightarrow> c \<noteq> ''..'' \<Longrightarrow> \<forall>t. lookup fs (p @ [c]) \<noteq> Some (Link t) \<Longrightarrow> P (p @ [c])"
  shows "P q"
  using assms(1,2,5)
proof (induction strict fs active p cs arbitrary: q rule: walk.induct)
  case (2 strict fs active p c cs)
  show ?case
  proof (cases "c = [] \<or> c = ''.'' \<or> c = ''..''")
    case True
    with 2 show ?thesis by (auto split: if_splits intro: assms(4))
  next
    case False
    with "2.prems" obtain e where e: "lookup fs (p @ [c]) = Some e" by (auto split: option.splits)
    have keep: "\<forall>t. e \<noteq> Link t \<Longrightarrow> P (p @ [c])"
      by (rule "2.prems"(3)[OF "2.prems"(2)]) (use False in \<open>auto simp: e\<close>)
    show ?thesis
    proof (cases e)
      case (Link t)
      with "2.prems" False e obtain r where
        r: "walk strict fs ((p @ [c]) # active) (if is_absolute t then [] else p) (split_on (CHR ''/'') t) = Some r"
          "walk strict fs active r cs = Some q" "p @ [c] \<notin> set active"
        by (auto split: option.splits if_splits)
      have "P r" using "2.IH"(4)[OF False e Link r(3) r(1)] "2.prems"(2,3) assms(3) by simp
      with "2.IH"(5)[OF False e Link r(3) r(1) r(2)] "2.prems"(3) show ?thesis by simp
    qed (use "2.prems" "2.IH" False e keep in auto)
  qed
qed simp

lemma walk_canonical: "walk strict fs active p cs = Some q \<Longrightarrow> canonical fs p \<Longrightarrow> canonical fs q"
  by (rule walk_invariant[where P = "canonical fs"]) (auto intro: canonical_Nil canonical_butlast canonical_snoc)

lemma inside_file_canonical:
  "inside_file fs root candidate = Some p \<Longrightarrow> prefix root p \<and> canonical fs p \<and> regular_at fs p \<noteq> None"
  using walk_canonical[OF _ canonical_Nil] by (auto simp: inside_file_def split: if_splits option.splits)

definition proper :: "path \<Rightarrow> bool" where
  "proper p \<longleftrightarrow> (\<forall>c \<in> set p. c \<noteq> [] \<and> c \<noteq> ''.'' \<and> c \<noteq> ''..'')"

lemma walk_proper: "walk strict fs active p cs = Some q \<Longrightarrow> proper p \<Longrightarrow> proper q"
  by (rule walk_invariant[where P = proper]) (auto simp: proper_def dest: in_set_butlastD)

text \<open>A canonical path is where it says it is.\<close>

lemma walk_canonical_id:
  "walk strict fs active p cs = Some q \<Longrightarrow> proper (p @ cs) \<Longrightarrow> canonical fs (p @ cs) \<Longrightarrow> q = p @ cs"
proof (induction strict fs active p cs arbitrary: q rule: walk.induct)
  case (2 strict fs active p c cs)
  have "\<not> (c = [] \<or> c = ''.'' \<or> c = ''..'')" using "2.prems"(2) by (simp add: proper_def)
  moreover have "lookup fs (p @ [c]) \<noteq> Some (Link t)" for t
    using "2.prems"(3) unfolding canonical_def by (metis append.assoc append_Cons append_Nil prefixI)
  ultimately show ?case using 2 by (auto split: option.splits entry.splits)
qed simp

lemma inside_file_regular:
  assumes "inside_file fs root candidate = Some p"
  shows "prefix root p \<and> canonical fs p \<and> proper p \<and> (\<exists>bytes. lookup fs p = Some (Regular bytes) \<and> regular_at fs p = Some bytes)"
proof -
  from inside_file_canonical[OF assms] have c: "prefix root p" "canonical fs p" "regular_at fs p \<noteq> None" by auto
  from assms have w: "walk False fs [] [] candidate = Some p" by (auto simp: inside_file_def split: if_splits option.splits)
  have "proper p" by (rule walk_proper[OF w]) (simp add: proper_def)
  with c show ?thesis using walk_canonical_id[of True fs "[]" "[]" p]
    by (auto simp: regular_at_def split: option.splits entry.splits)
qed

section \<open>Properties\<close>

text \<open>
  C18: Whatever the path asked for and whatever links the tree holds, a project file that is resolved
  and read is a regular file below the project root, reached without any symbolic link and without
  \<open>..\<close>, of at most the given number of bytes, and what is returned is its whole decoded content.
\<close>

theorem project_read_confined:
  assumes "resolve_project_file fs root relative = Some p" "read_text_bounded decode fs p limit = Some content"
  shows "prefix root p \<and> canonical fs p \<and> ''..'' \<notin> set p \<and>
    (\<exists>bytes. lookup fs p = Some (Regular bytes) \<and> int (length bytes) \<le> limit \<and> content = decode bytes)"
  using assms inside_file_regular[of fs root "root @ path_parts relative" p]
  by (auto simp: resolve_project_file_def read_text_bounded_def proper_def split: if_splits)

text \<open>A project \<open>/p\<close> with a file, a link to it, a link out of the project and a loop.\<close>

definition sample_tree :: file_tree where
  "sample_tree =
     [([''p''], Directory), ([''p'', ''src''], Directory), ([''p'', ''src'', ''a.py''], Regular ''x = 1''),
      ([''p'', ''lib''], Link ''src''), ([''p'', ''out''], Link ''/etc''), ([''p'', ''l1''], Link ''l2''),
      ([''p'', ''l2''], Link ''./l1''), ([''etc''], Directory), ([''etc'', ''key''], Regular ''secret'')]"

theorem project_read_confined_witness:
  "prefix [''p''] [''p'', ''src'', ''a.py''] \<and> canonical sample_tree [''p'', ''src'', ''a.py''] \<and>
   resolve_project_file sample_tree [''p''] ''lib/./../lib/a.py'' = Some [''p'', ''src'', ''a.py''] \<and>
   resolve_project_file sample_tree [''p''] ''out/key'' = None \<and>
   resolve_project_file sample_tree [''p''] ''l1/a.py'' = None"
proof -
  have r: "resolve_project_file sample_tree [''p''] ''lib/./../lib/a.py'' = Some [''p'', ''src'', ''a.py'']" by code_simp
  have "read_text_bounded id sample_tree [''p'', ''src'', ''a.py''] 100 = Some ''x = 1''" by code_simp
  from project_read_confined[OF r this]
  have "prefix [''p''] [''p'', ''src'', ''a.py'']" "canonical sample_tree [''p'', ''src'', ''a.py'']" by blast+
  moreover have "resolve_project_file sample_tree [''p''] ''out/key'' = None" by code_simp
  moreover have "resolve_project_file sample_tree [''p''] ''l1/a.py'' = None" by code_simp
  ultimately show ?thesis using r by blast
qed

end
