(* ===== verification/PatternRules.thy ===== *)
theory PatternRules
  imports Findings PathSafety SemanticIr PyRegex PyFloat
begin

text \<open>
  The line and pattern heuristics of \<open>core/rules/common.py\<close>, \<open>core/rules/quality.py\<close> and
  \<open>core/rules/security.py\<close>, with the source access they share (\<open>core/rules/base.py\<close>). A pattern is a
  list of parts, so that its groups can be read off; the message of a match is a function of the
  texts of the parts. Listing the files of a directory is the argument \<open>listing\<close>.
\<close>

section \<open>Source access\<close>

definition extension_languages :: "(string \<times> string) list" where
  "extension_languages =
     [(''.py'', ''python''), (''.go'', ''go''), (''.java'', ''java''), (''.js'', ''javascript''), (''.mjs'', ''javascript''),
      (''.ts'', ''typescript''), (''.tsx'', ''typescript''), (''.rs'', ''rust'')]"

text \<open>\<open>graph.meta.get("project_path")\<close> as far as it is a text.\<close>

definition rule_project :: "semantic_ir \<Rightarrow> string" where
  "rule_project ir =
     (if ir_project ir \<noteq> [] then ir_project ir else attr_str [] (cg_meta (ir_graph ir)) ''project_path'')"

definition collect_source_files :: "(string \<Rightarrow> string \<Rightarrow> string list) \<Rightarrow> semantic_ir \<Rightarrow> (string \<times> string) list" where
  "collect_source_files listing ir =
     (let files = dedup_by fst [] (map (\<lambda>n. (cn_file n, cn_language n)) (dict_values (cg_nodes (ir_graph ir)))) in
      if files \<noteq> [] then files
      else if rule_project ir = [] then []
      else dedup_by fst [] (concat (map (\<lambda>(ext, language). map (\<lambda>f. (f, language)) (listing (rule_project ir) ext)) extension_languages)))"

text \<open>
  The reading of a source file. \<open>cwd\<close> is the working directory. When the boundary check refuses the
  path, the project path of the graph's metadata is tried with no check.
\<close>

definition absolute :: "path \<Rightarrow> string \<Rightarrow> path" where
  "absolute cwd s = (if is_absolute s then path_parts s else cwd @ path_parts s)"

definition source_limit :: int where
  "source_limit = 2 * 1024 * 1024"

definition checked_file :: "file_tree \<Rightarrow> path \<Rightarrow> string \<Rightarrow> string \<Rightarrow> path option" where
  "checked_file fs cwd project file =
     (if project = [] then None
      else (case walk False fs [] [] (absolute cwd project) of
              None \<Rightarrow> None
            | Some base \<Rightarrow> resolve_project_file fs base file))"

definition read_source :: "(string \<Rightarrow> string) \<Rightarrow> file_tree \<Rightarrow> path \<Rightarrow> semantic_ir \<Rightarrow> string \<Rightarrow> string option" where
  "read_source decode fs cwd ir file =
     (case checked_file fs cwd (ir_project ir) file of
        Some p \<Rightarrow> read_text_bounded decode fs p source_limit
      | None \<Rightarrow>
          (let project = attr_str [] (cg_meta (ir_graph ir)) ''project_path'' in
           if project = [] then None
           else read_text_bounded decode fs
                  (if is_absolute file then path_parts file else absolute cwd project @ path_parts file) source_limit))"

section \<open>Patterns\<close>

fun part_texts :: "string \<Rightarrow> nat \<Rightarrow> nat list \<Rightarrow> string list" where
  "part_texts s i [] = []"
| "part_texts s i (j # js) = slice s i j # part_texts s j js"

definition line_number :: "string \<Rightarrow> nat \<Rightarrow> int" where
  "line_number s i = int (length (filter (\<lambda>c. code c = 10) (take i s))) + 1"

text \<open>The doubles the rules write, exactly, with their text.\<close>

definition float_2 :: pyfloat where "float_2 = (3602879701896397 / 18014398509481984, ''0.2'')"
definition float_4 :: pyfloat where "float_4 = (3602879701896397 / 9007199254740992, ''0.4'')"
definition float_6 :: pyfloat where "float_6 = (5404319552844595 / 9007199254740992, ''0.6'')"
definition float_7 :: pyfloat where "float_7 = (3152519739159347 / 4503599627370496, ''0.7'')"
definition float_75 :: pyfloat where "float_75 = (3 / 4, ''0.75'')"
definition float_8 :: pyfloat where "float_8 = (3602879701896397 / 4503599627370496, ''0.8'')"
definition float_9 :: pyfloat where "float_9 = (8106479329266893 / 9007199254740992, ''0.9'')"

text \<open>\<open>min(a, b)\<close>.\<close>

definition float_min :: "pyfloat \<Rightarrow> pyfloat \<Rightarrow> pyfloat" where
  "float_min a b = (if fst b < fst a then b else a)"

record pattern =
  pa_parts :: "regex list"
  pa_message :: "string list \<Rightarrow> string"
  pa_confidence :: pyfloat

definition source_finding ::
  "string \<Rightarrow> string \<Rightarrow> severity \<Rightarrow> string \<Rightarrow> int \<Rightarrow> string \<Rightarrow> pyfloat \<Rightarrow> finding" where
  "source_finding rule name sev file line message confidence =
     \<lparr>fg_rule = rule, fg_name = name, fg_severity = sev, fg_location = make_location file line (Some line) None None,
      fg_message = message, fg_evidence = [], fg_confidence = confidence, fg_metadata = []\<rparr>"

definition pattern_findings :: "string \<Rightarrow> string \<Rightarrow> severity \<Rightarrow> string \<Rightarrow> string \<Rightarrow> pattern \<Rightarrow> finding list" where
  "pattern_findings rule name sev source file p =
     map (\<lambda>(i, js). source_finding rule name sev file (line_number source i)
            (pa_message p (part_texts source i js)) (pa_confidence p)) (finditer (pa_parts p) source)"

definition any_char :: regex where "any_char = Chars (\<lambda>c. code c \<noteq> 10)"
definition spaces :: regex where "spaces = Rep (Chars is_space)"
definition spaces1 :: regex where "spaces1 = at_least 1 (Chars is_space)"
definition word1 :: regex where "word1 = at_least 1 (Chars is_word)"
definition none_of :: "string \<Rightarrow> regex" where "none_of cs = Chars (\<lambda>c. c \<notin> set cs)"
definition quotes :: regex where "quotes = one_of [CHR 0x22, CHR 0x27]"
definition back_quotes :: regex where "back_quotes = one_of [CHR 0x60, CHR 0x22, CHR 0x27]"

primrec up_to :: "nat \<Rightarrow> regex \<Rightarrow> regex" where
  "up_to 0 r = Empty"
| "up_to (Suc n) r = Alt (Seq r (up_to n r)) Empty"

text \<open>A pattern with a fixed message.\<close>

definition plain :: "string \<Rightarrow> pyfloat \<Rightarrow> regex list \<Rightarrow> pattern" where
  "plain message confidence parts = \<lparr>pa_parts = parts, pa_message = (\<lambda>_. message), pa_confidence = confidence\<rparr>"

type_synonym source_check = "string \<Rightarrow> string \<Rightarrow> string \<Rightarrow> finding list"

text \<open>The common loop of the heuristic rules: every source file that can be read and is not empty.\<close>

definition scan_sources ::
  "(string \<Rightarrow> string \<Rightarrow> string list) \<Rightarrow> (semantic_ir \<Rightarrow> string \<Rightarrow> string option) \<Rightarrow> source_check \<Rightarrow> semantic_ir \<Rightarrow> finding list" where
  "scan_sources listing read check ir =
     concat (map (\<lambda>(file, language). case read ir file of
         None \<Rightarrow> [] | Some source \<Rightarrow> if source = [] then [] else check source file language)
       (collect_source_files listing ir))"

section \<open>\<open>core/rules/common.py\<close>\<close>

definition null_access :: "string \<Rightarrow> string \<Rightarrow> pattern" where
  "null_access name label =
     \<lparr>pa_parts = [word (name @ ''.''), word1], pa_message = (\<lambda>ts. label @ ts ! 1), pa_confidence = float_7\<rparr>"

definition null_patterns :: "string \<Rightarrow> pattern list" where
  "null_patterns language =
     (let c = float_7;
          null = null_access ''null'' ''Potential null attribute access: null.'';
          undefined1 = plain ''Potential undefined attribute access'' c [word ''undefined.'', word1] in
      if language = ''python'' then
        [null_access ''None'' ''Potential None attribute access: None.'',
         plain ''Potential None subscript access'' c [word ''None['' ],
         plain ''Potential None call'' c [word ''None('']]
      else if language = ''go'' then
        [null_access ''nil'' ''Potential nil attribute access: nil.'',
         plain ''Potential nil subscript access'' c [word ''nil[''],
         plain ''Potential nil call'' c [word ''nil('']]
      else if language = ''java'' then [null]
      else if language = ''javascript'' \<or> language = ''typescript'' then [null, undefined1]
      else if language = ''rust'' then
        [plain ''Potential None unwrap'' c [word ''None.unwrap()''], plain ''Potential None propagation'' c [word ''None?'']]
      else [])"

definition null_check :: source_check where
  "null_check source file language =
     concat (map (pattern_findings ''null_dereference'' ''Potential null dereference'' ERROR source file) (null_patterns language))"

text \<open>The first lines of a text, with their ends.\<close>

fun first_lines :: "nat \<Rightarrow> string \<Rightarrow> string" where
  "first_lines 0 s = []"
| "first_lines (Suc n) [] = []"
| "first_lines (Suc n) [c] = [c]"
| "first_lines (Suc n) (c # d # s) =
     (if code c = 13 \<and> code d = 10 then c # d # first_lines n s
      else if is_line_end c then c # first_lines n (d # s) else c # first_lines (Suc n) (d # s))"

definition handle_end :: regex where "handle_end = alts [word '','', line_end]"

definition has_cleanup :: "string \<Rightarrow> string \<Rightarrow> string \<Rightarrow> bool" where
  "has_cleanup lookahead variable language =
     (if language = ''python'' then
        re_search (seqs [Boundary, word variable, word ''.close'', spaces, word ''('']) lookahead \<and> contains_sub ''finally'' lookahead \<or>
        re_search (seqs [line_start, spaces, word ''return'', spaces1, word variable, spaces, handle_end]) lookahead
      else if language = ''go'' then
        re_search (seqs [word ''defer'', spaces1, word variable, word ''.Close'', spaces, word ''('']) lookahead \<or>
        re_search (seqs [line_start, spaces, word ''return'', spaces1, Rep (none_of [char_of (10::nat), CHR '','']), Boundary,
          word variable, spaces, handle_end]) lookahead
      else False)"

text \<open>The parts, the position of the variable among them, and the message.\<close>

definition leak_patterns :: "string \<Rightarrow> (regex list \<times> nat \<times> string) list" where
  "leak_patterns language =
     (if language = ''python'' then
        [([line_start, spaces, not_ahead (seqs [Rep any_char, word ''with'', Rep any_char, word ''open'']), spaces, word1,
           spaces, word ''='', spaces, word ''open(''], 4,
          ''File opened without '' @ [CHR 0x27] @ ''with'' @ [CHR 0x27] @ '' statement: may not be closed'')]
      else if language = ''go'' then
        [([line_start, spaces, not_ahead (seqs [Rep any_char, word ''defer'', Rep any_char, word ''Close'']), spaces, word1,
           word '','', spaces, word1, spaces, opt (word '':''), word ''='', spaces,
           alts [word ''os.Open'', word ''os.OpenFile'', word ''sql.Open'', word ''net.Dial'', word ''net.Listen''], word ''(''], 4,
          ''Resource opened without defer Close(): may leak'')]
      else [])"

definition leak_finding :: "string \<Rightarrow> string \<Rightarrow> string \<Rightarrow> nat \<Rightarrow> string \<Rightarrow> nat \<times> nat list \<Rightarrow> finding list" where
  "leak_finding source file language k message m =
     (case m of (i, js) \<Rightarrow>
        if has_cleanup (first_lines 25 (drop (last js) source)) (part_texts source i js ! k) language then []
        else [source_finding ''resource_leak'' ''Potential resource leak'' WARNING file (line_number source i) message
                float_6])"

definition leak_check :: source_check where
  "leak_check source file language =
     concat (map (\<lambda>(parts, k, message). concat (map (leak_finding source file language k message) (finditer parts source)))
       (leak_patterns language))"

section \<open>\<open>core/rules/quality.py\<close>\<close>

definition comment_open :: regex where
  "comment_open = alts [word ''//'', word ''#'', word ''/*'', word ''<!--'']"

definition comment_text :: "string list \<Rightarrow> string" where
  "comment_text ts = (let message = strip (ts ! 5) in if message \<noteq> [] then ts ! 2 @ '': '' @ message else ts ! 2)"

definition comment_pattern :: "string list \<Rightarrow> pattern" where
  "comment_pattern keywords =
     \<lparr>pa_parts = [comment_open, spaces, alts (map word keywords), opt (word '':''), spaces, Rep any_char],
      pa_message = comment_text, pa_confidence = float_one\<rparr>"

definition todo_check :: source_check where
  "todo_check source file language =
     pattern_findings ''todo_fixme'' ''TODO/FIXME Comment'' WARNING source file
       (comment_pattern [''FIXME'', ''XXX'', ''HACK'', ''BUG'']) @
     pattern_findings ''todo_fixme'' ''TODO/FIXME Comment'' INFO source file (comment_pattern [''TODO''])"

text \<open>The name an import line binds, as the rule reads it.\<close>

definition imported_name :: "string \<Rightarrow> string option" where
  "imported_name line =
     (case parts_at [spaces, word ''from'', spaces1, word1, spaces1, word ''import'', spaces1, word1] line 0 of
        Some js \<Rightarrow> Some (part_texts line 0 js ! 7)
      | None \<Rightarrow>
          (case parts_at [word ''import'', spaces1, word1] line 0 of
             Some js \<Rightarrow> Some (part_texts line 0 js ! 2)
           | None \<Rightarrow> None))"

definition line_imports :: "int \<times> string \<Rightarrow> (string \<times> int) list" where
  "line_imports x =
     (case x of (line_no, line) \<Rightarrow>
        (case imported_name line of
           None \<Rightarrow> []
         | Some name \<Rightarrow> if name \<noteq> [] \<and> \<not> starts_with ''#'' (strip line) then [(name, line_no)] else []))"

definition newline :: char where "newline = char_of (10::nat)"

definition numbered_lines :: "string \<Rightarrow> (int \<times> string) list" where
  "numbered_lines source = map (\<lambda>(k, line). (int k, line)) (zip [1..<Suc (length (split_on newline source))] (split_on newline source))"

definition name_count :: "string \<Rightarrow> string \<Rightarrow> nat" where
  "name_count name source = length (finditer [Boundary, word name, Boundary] source)"

definition dotted_count :: "string \<Rightarrow> string \<Rightarrow> nat" where
  "dotted_count name source = length (finditer [Boundary, word name, word ''.''] source)"

definition unused_import_check :: source_check where
  "unused_import_check source file language =
     (if \<not> ends_with ''.py'' file then []
      else map (\<lambda>(name, line). source_finding ''unused_import'' ''Potentially Unused Import'' INFO file line
                  (''Import '' @ [CHR 0x27] @ name @ [CHR 0x27] @ '' appears to be unused'') float_6)
             (filter (\<lambda>(name, line). 1 < length name \<and> name_count name source \<le> 1 \<and> dotted_count name source = 0)
               (concat (map line_imports (numbered_lines source)))))"

definition broad_exception_patterns :: "string \<Rightarrow> pattern list" where
  "broad_exception_patterns language =
     (let c = float_7 in
      if language = ''python'' then
        [plain (''Bare '' @ [CHR 0x27] @ ''except:'' @ [CHR 0x27] @ '' catches all exceptions'') c
           [word ''except'', spaces, word '':'', spaces, alts [word ''#'', At_End, word ''//'']],
         plain ''Catching too broad exception type'' c
           [word ''except'', spaces1, alts [word ''Exception'', word ''BaseException''], spaces, one_of '':,)'']]
      else if language = ''java'' then
        [plain ''Catching too broad exception type'' c
           [word ''catch'', spaces, word ''('', spaces, alts [word ''Exception'', word ''Throwable''], spaces1, word1, spaces, word '')'']]
      else if language = ''go'' then
        [plain ''Using recover() without type assertion'' c [word ''recover'', spaces, word ''()'']]
      else [])"

definition broad_exception_check :: source_check where
  "broad_exception_check source file language =
     concat (map (pattern_findings ''broad_exception'' ''Overly Broad Exception'' WARNING source file)
       (broad_exception_patterns language))"

definition random_patterns :: "string \<Rightarrow> pattern list" where
  "random_patterns language =
     (let c = float_7 in
      if language = ''python'' then
        [plain ''Using insecure random module - use secrets module for security-sensitive operations'' c
           [alts (map word [''random.random'', ''random.randint'', ''random.randrange'', ''random.choice'', ''random.shuffle'']),
            spaces, word ''('']]
      else if language = ''java'' then
        [plain ''Using insecure Random class - use SecureRandom for security-sensitive operations'' c
           [word ''new'', spaces1, word ''Random'', spaces, word ''('']]
      else if language = ''go'' then
        [plain ''Using insecure math/rand - use crypto/rand for security-sensitive operations'' c
           [word ''math/rand.'', alts (map word [''Intn'', ''Int'', ''Int31'', ''Int63'', ''Float32'', ''Float64'', ''Shuffle'', ''Read''])]]
      else [])"

definition random_check :: source_check where
  "random_check source file language =
     concat (map (pattern_findings ''insecure_random'' ''Insecure Random Number Generator'' WARNING source file)
       (random_patterns language))"

definition script_sql_patterns :: "pattern list" where
  "script_sql_patterns =
     (let c = float_75; call = alts (map word [''query'', ''execute'', ''all'', ''run'']) in
      [plain ''Potential SQL injection with template literal'' c
         [call, spaces, word ''('', spaces, back_quotes, Rep any_char, word ''${'', Rep (none_of ''}''), word ''}''],
       plain ''Potential SQL injection with string concatenation'' c
         [call, spaces, word ''('', spaces, Rep (none_of '')''), spaces, word ''+'']])"

definition sql_patterns :: "string \<Rightarrow> pattern list" where
  "sql_patterns language =
     (let c = float_75; concatenation = ''Potential SQL injection with string concatenation'';
          call = alts (map word [''execute'', ''query'', ''run'']) in
      if language = ''python'' then
        [plain ''Potential SQL injection with formatted string'' c
           [call, spaces, word ''('', spaces, word ''f'', quotes, Rep any_char, alts (map word [''+'', ''%s'', ''%d'', ''format''])],
         plain concatenation c
           [call, spaces, word ''('', spaces, quotes, Rep any_char, word [CHR 0x22], Rep any_char, spaces, word ''+'']]
      else if language = ''javascript'' \<or> language = ''typescript'' then script_sql_patterns
      else if language = ''go'' then
        [plain concatenation c
           [word ''Query'', opt (alts (map word [''Context'', ''Row'', ''RowContext''])), spaces, word ''('', spaces,
            at_least 1 (none_of '',''), word ''+''],
         plain concatenation c
           [word ''Exec'', opt (word ''Context''), spaces, word ''('', spaces, at_least 1 (none_of '',''), word ''+'']]
      else [])"

definition sql_check :: source_check where
  "sql_check source file language =
     concat (map (pattern_findings ''sql_injection'' ''Potential SQL Injection'' ERROR source file) (sql_patterns language))"

section \<open>\<open>core/rules/security.py\<close>\<close>

definition starts_with_any :: "string list \<Rightarrow> string \<Rightarrow> bool" where
  "starts_with_any ps s = list_ex (\<lambda>p. starts_with p s) ps"

definition ends_with_any :: "string list \<Rightarrow> string \<Rightarrow> bool" where
  "ends_with_any ps s = list_ex (\<lambda>p. ends_with p s) ps"

definition mentions_any :: "string list \<Rightarrow> string \<Rightarrow> bool" where
  "mentions_any ps s = list_ex (\<lambda>p. contains_sub p s) ps"

text \<open>The line a match starts in, without the surrounding spaces.\<close>

definition stripped_line :: "string \<Rightarrow> int \<Rightarrow> string" where
  "stripped_line source line =
     (let lines = split_on newline source in if nat line \<le> length lines then strip (lines ! (nat line - 1)) else [])"

definition comment_starts :: "string list" where "comment_starts = [''//'', ''/*'', ''*'', ''#'']"
definition import_starts :: "string list" where "import_starts = [''import '', ''from '', ''require('']"

definition command_patterns :: "string \<Rightarrow> pattern list" where
  "command_patterns language =
     (let template = [spaces, word ''('', spaces, back_quotes, Rep (none_of [CHR 0x60, CHR 0x22, CHR 0x27]), word ''${'',
             at_least 1 (none_of ''}''), word ''}'']; f_string = [spaces, word ''('', spaces, word ''f'', quotes] in
      if language = ''typescript'' then
        [plain ''Potential command injection with template string interpolation'' float_7
           ([word ''child_process.'', alts (map word [''exec'', ''execSync''])] @ template),
         plain ''Potential command injection with spawn and dynamic argument'' float_6
           ([word ''child_process.'', alts (map word [''spawn'', ''spawnSync''])] @ template)]
      else if language = ''python'' then
        [plain ''Potential command injection with f-string'' float_8
           (alts [word ''os.system'', Seq (word ''subprocess.'') (alts (map word [''call'', ''check_output'', ''check_call'', ''run'', ''Popen'']))]
            # f_string),
         plain ''Potential command injection with popen and f-string'' float_7
           (alts (map word [''os.popen'', ''os.popen2'', ''os.popen3'', ''os.popen4'']) # f_string)]
      else [])"

definition command_check :: source_check where
  "command_check source file language =
     filter (\<lambda>f. let line = stripped_line source (lo_start (fg_location f)) in
               \<not> starts_with_any comment_starts line \<and> \<not> starts_with_any import_starts line)
       (concat (map (pattern_findings ''command_injection'' ''Potential Command Injection'' ERROR source file)
         (command_patterns language)))"

definition dangerous_calls :: "string list" where
  "dangerous_calls =
     [''fs.readFile'', ''fs.writeFile'', ''fs.open'', ''fs.readFileSync'', ''fs.writeFileSync'', ''fs.createReadStream'',
      ''fs.createWriteStream'', ''fs.promises'', ''readFile('', ''writeFile('', ''open('', ''open('', ''pathlib.'',
      ''os.open'', ''os.read'', ''os.write'']"

definition parent_step :: "string list" where "parent_step = [''../'', ''..'' @ [CHR 0x5C]]"
definition string_quotes :: "string list" where "string_quotes = [[CHR 0x22], [CHR 0x27], [CHR 0x60]]"

text \<open>The confidence that a line is suspect, if it is.\<close>

definition traversal_confidence :: "string \<Rightarrow> pyfloat option" where
  "traversal_confidence line =
     (let s = strip line; template = contains_sub ''${'' line in
      if \<not> mentions_any parent_step line then None
      else if starts_with_any (comment_starts @ [''<!--'']) s then None
      else if starts_with_any [''import '', ''export '', ''from '', ''require(''] s then None
      else if starts_with_any string_quotes s \<and> ends_with_any string_quotes s \<and> contains_sub ''../'' s then None
      else if \<not> mentions_any dangerous_calls line \<and> \<not> (template \<and> mentions_any parent_step line) then None
      else if template \<and> contains_sub ''../'' line then Some float_7
      else if contains_sub ''..'' line \<and> mentions_any [''req.'', ''request.''] line then Some float_8
      else None)"

definition traversal_check :: source_check where
  "traversal_check source file language =
     concat (map (\<lambda>(k, line). case traversal_confidence line of None \<Rightarrow> []
         | Some c \<Rightarrow> [source_finding ''path_traversal'' ''Potential Path Traversal'' ERROR file k
                        ''Potential path traversal with untrusted input'' c]) (numbered_lines source))"

definition test_path_marks :: "string list" where
  "test_path_marks =
     [''.spec.'', ''.test.'', ''.vitest.'', ''/__tests__/'', ''/test/'', ''/tests/'', ''_spec.'', ''_test.'', ''spec_'', ''test_'']"

definition placeholder_marks :: "string list" where
  "placeholder_marks =
     [''changeme'', ''dummy'', ''example'', ''fake'', ''placeholder'', ''test-'', ''test_'', ''your-'', ''your_'']"

definition key_message :: string where "key_message = ''Potential hardcoded API key or secret''"

definition is_key_char :: "char \<Rightarrow> bool" where
  "is_key_char c = (let n = code c in (48 \<le> n \<and> n \<le> 57) \<or> (65 \<le> n \<and> n \<le> 90) \<or> (97 \<le> n \<and> n \<le> 122))"

definition secret_patterns :: "pattern list" where
  "secret_patterns =
     (let sep = opt (one_of ''_-'') in
      [plain key_message float_7
         [alts [seqs [word_i ''api'', sep, word_i ''key''], seqs [word_i ''secret'', sep, word_i ''key''], word_i ''password'',
            word_i ''passwd'', seqs [word_i ''private'', sep, word_i ''key''], seqs [word_i ''access'', sep, word_i ''token'']],
          spaces, one_of ''=:'', spaces, quotes, at_least 16 (Chars (\<lambda>c. is_key_char c \<or> c = CHR ''_'' \<or> c = CHR ''-'')), quotes],
       plain ''Potential hardcoded GitHub token'' float_8
         [word_i ''gh'', Chars (\<lambda>c. lower_char c \<in> set ''pousr''), word ''_'',
          Seq (times 36 (Chars (\<lambda>c. is_key_char c \<or> c = CHR ''_''))) (up_to 215 (Chars (\<lambda>c. is_key_char c \<or> c = CHR ''_'')))],
       plain ''Potential hardcoded OpenAI API key'' float_9 [word_i ''sk-'', times 48 (Chars is_key_char)],
       plain ''Potential hardcoded private key'' float_9
         [word_i ''-----BEGIN'', spaces1, alts (map word_i [''RSA'', ''DSA'', ''EC'', ''PGP'', ''OPENSSH'']), spaces1,
          alts (map word_i [''PRIVATE'', ''ENCRYPTED'']), spaces1, word_i ''KEY-----'']])"

definition secret_confidence :: "string \<Rightarrow> pattern \<Rightarrow> string \<Rightarrow> pyfloat" where
  "secret_confidence file p matched =
     (if mentions_any placeholder_marks (lower matched) then float_min (pa_confidence p) float_2
      else if mentions_any test_path_marks (lower file) \<and> pa_message p [] = key_message
      then float_min (pa_confidence p) float_4
      else pa_confidence p)"

definition secret_findings :: "string \<Rightarrow> string \<Rightarrow> pattern \<Rightarrow> finding list" where
  "secret_findings source file p =
     concat (map (\<lambda>(i, js).
       let line = line_number source i in
       if starts_with_any comment_starts (stripped_line source line) then []
       else [source_finding ''hardcoded_secret'' ''Potential Hardcoded Secret'' WARNING file line (pa_message p [])
               (secret_confidence file p (slice source i (last js)))])
       (finditer (pa_parts p) source))"

definition secret_check :: source_check where
  "secret_check source file language = concat (map (secret_findings source file) secret_patterns)"

section \<open>What a heuristic finding says\<close>

definition finding_within :: "string \<Rightarrow> string \<Rightarrow> finding \<Rightarrow> bool" where
  "finding_within file source f \<longleftrightarrow> lo_file (fg_location f) = file \<and> lo_end (fg_location f) = lo_start (fg_location f) \<and>
     1 \<le> lo_start (fg_location f) \<and> lo_start (fg_location f) \<le> int (length (split_on newline source))"

lemma finditer_start: "(i, js) \<in> set (finditer rs s) \<Longrightarrow> i \<le> length s"
proof -
  have "(i, js) \<in> set (find_parts rs s k) \<Longrightarrow> i \<le> length s" for k
  proof (induction rs s k rule: find_parts.induct)
    case (1 rs s k)
    from "1.prems" show ?case
      by (subst (asm) find_parts.simps) (auto split: if_splits option.splits dest: "1.IH")
  qed
  then show "(i, js) \<in> set (finditer rs s) \<Longrightarrow> i \<le> length s" by (simp add: finditer_def)
qed

lemma length_split_on: "length (split_on c s) = Suc (length (filter (\<lambda>x. x = c) s))"
  by (induction c s rule: split_on.induct) (auto split: list.splits)

lemma newline_code: "code c = 10 \<longleftrightarrow> c = newline"
proof
  assume "code c = 10"
  then have "char_of (of_char c :: nat) = char_of (10::nat)" by (simp add: code_def)
  then show "c = newline" by (simp add: newline_def)
qed (simp add: newline_def code_def)

lemma line_number_bounds: "1 \<le> line_number s i \<and> line_number s i \<le> int (length (split_on newline s))"
proof -
  have "filter (\<lambda>c. code c = 10) (take i s) = filter (\<lambda>c. c = newline) (take i s)" by (simp add: newline_code)
  moreover have "length (filter P (take i s)) \<le> length (filter P s)" for P
    by (metis append_take_drop_id filter_append le_add1 length_append)
  ultimately show ?thesis by (simp add: line_number_def length_split_on)
qed

lemma within_source_finding [simp]:
  "finding_within file source (source_finding rule name sev file line msg c) \<longleftrightarrow>
     1 \<le> line \<and> line \<le> int (length (split_on newline source))"
  by (simp add: finding_within_def source_finding_def make_location_def)

lemma pattern_findings_within: "f \<in> set (pattern_findings rule name sev source file p) \<Longrightarrow> finding_within file source f"
  using line_number_bounds[of source] by (auto simp: pattern_findings_def)

lemma numbered_lines_bounds: "(k, line) \<in> set (numbered_lines source) \<Longrightarrow> 1 \<le> k \<and> k \<le> int (length (split_on newline source))"
  by (auto simp: numbered_lines_def dest!: set_zip_leftD)

lemma checks_within:
  fixes "file" :: string and source :: string
  defines "inside \<equiv> \<lambda>fs. \<forall>f \<in> set fs. finding_within file source f"
  shows "inside (null_check source file language)" "inside (leak_check source file language)"
    "inside (todo_check source file language)" "inside (unused_import_check source file language)"
    "inside (broad_exception_check source file language)" "inside (random_check source file language)"
    "inside (sql_check source file language)" "inside (command_check source file language)"
    "inside (traversal_check source file language)" "inside (secret_check source file language)"
proof -
  note lines = line_number_bounds[of source]
  show "inside (null_check source file language)" "inside (todo_check source file language)"
    "inside (broad_exception_check source file language)" "inside (random_check source file language)"
    "inside (sql_check source file language)" "inside (command_check source file language)"
    by (auto simp: inside_def null_check_def todo_check_def broad_exception_check_def random_check_def sql_check_def
        command_check_def Let_def dest: pattern_findings_within)
  show "inside (leak_check source file language)"
    using lines by (auto simp: inside_def leak_check_def leak_finding_def split: if_splits)
  show "inside (unused_import_check source file language)"
    by (auto simp: inside_def unused_import_check_def line_imports_def split: if_splits option.splits dest!: numbered_lines_bounds)
  show "inside (traversal_check source file language)"
    by (auto simp: inside_def traversal_check_def split: option.splits dest!: numbered_lines_bounds)
  show "inside (secret_check source file language)"
    using lines by (auto simp: inside_def secret_check_def secret_findings_def Let_def split: if_splits)
qed

definition heuristic_checks :: "source_check list" where
  "heuristic_checks =
     [null_check, leak_check, todo_check, unused_import_check, broad_exception_check, random_check, sql_check,
      command_check, traversal_check, secret_check]"

section \<open>Properties\<close>

text \<open>
  Every finding of a heuristic rule is about the file that was read and names one line of it that
  exists.
\<close>

theorem heuristic_lines_exist:
  assumes "check \<in> set heuristic_checks" "f \<in> set (check source file language)"
  shows "lo_file (fg_location f) = file \<and> lo_end (fg_location f) = lo_start (fg_location f) \<and>
    1 \<le> lo_start (fg_location f) \<and> lo_start (fg_location f) \<le> int (length (split_on newline source))"
proof -
  have "\<forall>f \<in> set (check source file language). finding_within file source f"
    using assms(1) unfolding heuristic_checks_def list.set
    by (elim insertE emptyE; hypsubst) (rule checks_within)+
  with assms(2) show ?thesis by (simp add: finding_within_def)
qed

theorem heuristic_lines_exist_witness:
  "\<exists>f. todo_check (''x = 1'' @ [newline] @ ''# TODO: y'') ''a.py'' ''python'' = [f] \<and>
     1 \<le> lo_start (fg_location f) \<and> lo_start (fg_location f) \<le> 2"
proof -
  let ?src = "''x = 1'' @ [newline] @ ''# TODO: y''"
  have "length (todo_check ?src ''a.py'' ''python'') = 1" by code_simp
  then obtain f where f: "todo_check ?src ''a.py'' ''python'' = [f]" by (auto simp: length_Suc_conv)
  moreover have "length (split_on newline ?src) = 2" by code_simp
  ultimately show ?thesis
    using heuristic_lines_exist[of todo_check f ?src "''a.py''" "''python''"] by (simp add: heuristic_checks_def)
qed

text \<open>
  A bare \<open>except:\<close> is reported when a comment or the end of the file follows it, not when its body
  does: \<open>$\<close> stands for the end of the text, not of the line.
\<close>

theorem bare_except_missed:
  "broad_exception_check (''except:'' @ [newline] @ ''    pass'' @ [newline]) ''a.py'' ''python'' = [] \<and>
   length (broad_exception_check (''except:  # all'' @ [newline] @ ''    pass'' @ [newline]) ''a.py'' ''python'') = 1"
  by code_simp

text \<open>The message of an empty \<open>TODO\<close> comment is the line of code after it.\<close>

theorem todo_takes_next_line:
  "map fg_message (todo_check (''# TODO'' @ [newline] @ ''x = 1'') ''a.py'' ''python'') = [''TODO: x = 1'']"
  by code_simp

text \<open>A use of \<open>math/rand\<close> as Go writes it is never reported.\<close>

theorem go_random_missed: "random_check ''n := rand.Intn(10)'' ''a.go'' ''go'' = []"
  by code_simp

text \<open>
  A path that the boundary check refuses, through a directory link that leads out of the project, is
  read all the same when the metadata of the graph names the project.
\<close>

theorem refused_path_read:
  "resolve_project_file sample_tree [''p''] ''out/key'' = None \<and>
   read_source id sample_tree [] (ir_from_graph (\<lambda>_ _. None) (empty_graph [(''project_path'', PStr ''/p'')]) None None (Some ''/p''))
     ''out/key'' = Some ''secret''"
  by code_simp

end
