(* ===== verification/Rules.thy ===== *)
theory Rules
  imports PatternRules StateSpec RetryLoops
begin

text \<open>
  The rules that the engine runs: the interface of \<open>DiagnosticRule\<close> as a record that extends what the
  registry reads of a rule, the heuristic rules, the bridges of \<open>core/rules/state_machine.py\<close> and
  \<open>core/rules/retry.py\<close> from analysis results to findings, the data-flow rule of \<open>core/rules/flow.py\<close>
  with its analyser as an argument, and \<open>register_builtin_rules\<close>. \<open>Inl\<close> holds the text of an exception.
\<close>

section \<open>The interface\<close>

record rule = rule_info +
  ru_name :: string
  ru_severity :: severity
  ru_llm :: bool
  ru_enabled :: bool
  ru_method :: string
  ru_requirements :: "(cap_ref \<times> level_ref) list"
  ru_roles :: "source_role list option"
  ru_zones :: "repository_zone list option"
  ru_analyze :: "semantic_ir \<Rightarrow> string + finding list"

text \<open>\<open>str(exc)\<close>.\<close>

fun exception_text :: "py_error \<Rightarrow> string" where
  "exception_text (ValueError m) = m"
| "exception_text (TypeError m) = m"
| "exception_text (RuntimeError m) = m"
| "exception_text (OverflowError m) = m"
| "exception_text (KeyError k) = repr_str k"

definition ref_location :: "evidence_ref \<Rightarrow> location" where
  "ref_location r = make_location (er_file r) (er_line_start r) (Some (er_line_end r)) (er_col_start r) (er_col_end r)"

section \<open>Declarative state rules\<close>

definition state_finding :: "state_rule \<Rightarrow> severity \<Rightarrow> state_violation \<Rightarrow> finding" where
  "state_finding d sev v =
     (let first = [op_location (sv_event v), op_location (sv_action v)] in
      \<lparr>fg_rule = sd_id d, fg_name = sd_name d, fg_severity = sev, fg_location = ref_location (op_location (sv_action v)),
       fg_message = sv_message v,
       fg_evidence = map ref_location (violation_evidence (map range_key first) first (sv_path_ops v)),
       fg_confidence = sd_confidence d,
       fg_metadata =
         [(''analysis_kind'', PStr ''state_machine''), (''invariant_id'', PStr (sv_invariant v)), (''scope_id'', PStr (sv_scope v)),
          (''event_operation'', PStr (op_id (sv_event v))), (''action_operation'', PStr (op_id (sv_action v))),
          (''missing'', PStr (sv_missing v)), (''scope'', PStr (state_scope_value (si_scope (sd_invariant d)))),
          (''max_call_depth'', PInt (si_depth (sd_invariant d))),
          (''path_operations'', PList (map (\<lambda>p. PStr (op_id p)) (sv_path_ops v))),
          (''path_arcs'', PList (case sv_path v of None \<Rightarrow> [] | Some p \<Rightarrow> map (\<lambda>k. PStr (icfg_kind_value k)) (ip_arcs p)))]\<rparr>)"

definition declarative_rule :: "state_rule \<Rightarrow> rule" where
  "declarative_rule d =
     (let sev = (case severity_of (sd_severity d) of Some s \<Rightarrow> s | None \<Rightarrow> WARNING) in
      \<lparr>ru_id = sd_id d, ru_languages = (if sd_languages d = [] then None else Some (sd_languages d)),
       ru_name = sd_name d, ru_severity = sev, ru_llm = False, ru_enabled = True, ru_method = ''semantic'',
       ru_requirements = [(CapName ''control_flow'', LevelEnum FULL)], ru_roles = None, ru_zones = None,
       ru_analyze = (\<lambda>ir. case analyze_states ir [sd_invariant d] (sd_languages d) of
           Inl e \<Rightarrow> Inl (exception_text e)
         | Inr r \<Rightarrow> Inr (map (state_finding d sev) (sr_violations r)))\<rparr>)"

section \<open>Retry loops\<close>

definition retry_message :: "retry_violation \<Rightarrow> string \<Rightarrow> string" where
  "retry_message v name =
     ''retry loop calls '' @ name @ '' on '' @ rv_error v @ '' without backoff or exit'' @
     (if is_unbounded_loop (rv_loop v) then '' in an unbounded loop'' else []) @
     ''; under a persistent failure this spins instead of failing''"

definition retry_finding :: "retry_violation \<Rightarrow> finding" where
  "retry_finding v =
     (let name = (if call_text (rv_call v) \<noteq> [] then call_text (rv_call v) else ''operation'') in
      \<lparr>fg_rule = ''retry_without_backoff'', fg_name = ''Retry without backoff'', fg_severity = WARNING,
       fg_location = ref_location (op_location (rv_call v)), fg_message = retry_message v name,
       fg_evidence = map (\<lambda>p. ref_location (op_location p)) [rv_loop v, rv_branch v, rv_back v],
       fg_confidence = float_75,
       fg_metadata =
         [(''analysis_method'', PStr ''semantic''), (''patch_risk'', PStr ''regression_under_persistent_error''),
          (''trigger_operation'', PStr name), (''mitigation'', PStr ''none''), (''reachability'', PStr ''unknown''),
          (''assumption'', PStr ''the retried operation can fail for a persistent reason'')]\<rparr>)"

definition retry_rule :: rule where
  "retry_rule =
     \<lparr>ru_id = ''retry_without_backoff'', ru_languages = None, ru_name = ''Retry without backoff'', ru_severity = WARNING,
      ru_llm = False, ru_enabled = True, ru_method = ''semantic'',
      ru_requirements = [(CapName ''control_flow'', LevelEnum FULL)], ru_roles = Some [PRODUCTION], ru_zones = None,
      ru_analyze = (\<lambda>ir. Inr (map retry_finding (rr_violations (analyze_retries ir []))))\<rparr>"

section \<open>Data flow\<close>

text \<open>What \<open>DataFlowAnalyzer.analyze\<close> leaves: findings, errors and the number of files analysed.\<close>

record flow_outcome =
  fo_findings :: "finding list"
  fo_errors :: "string list"
  fo_files :: nat

definition flow_rule :: "(semantic_ir \<Rightarrow> string + flow_outcome) \<Rightarrow> rule" where
  "flow_rule analyzer =
     \<lparr>ru_id = ''security_data_flow'', ru_languages = Some [''javascript'', ''python'', ''typescript''],
      ru_name = ''Security Data Flow'', ru_severity = ERROR, ru_llm = False, ru_enabled = True, ru_method = ''semantic'',
      ru_requirements = [(CapEnum DATA_FLOW, LevelEnum PARTIAL)], ru_roles = Some [PRODUCTION, UNKNOWN_ROLE],
      ru_zones = Some [FIRST_PARTY, UNKNOWN_ZONE],
      ru_analyze = (\<lambda>ir. bind (analyzer ir) (\<lambda>r.
        if fo_errors r \<noteq> [] \<and> fo_files r = 0
        then Inl (''Data-flow analysis could not process any files: '' @ join ''; '' (take 3 (fo_errors r)))
        else Inr (fo_findings r)))\<rparr>"

section \<open>Heuristic rules\<close>

text \<open>What the heuristic rules read: the listing of a directory and the text of a file.\<close>

record source_access =
  sa_listing :: "string \<Rightarrow> string \<Rightarrow> string list"
  sa_read :: "semantic_ir \<Rightarrow> string \<Rightarrow> string option"

definition heuristic_rule :: "source_access \<Rightarrow> string \<Rightarrow> string \<Rightarrow> severity \<Rightarrow> bool \<Rightarrow> source_check \<Rightarrow> rule" where
  "heuristic_rule sa i name sev enabled check =
     \<lparr>ru_id = i, ru_languages = None, ru_name = name, ru_severity = sev, ru_llm = False, ru_enabled = enabled,
      ru_method = ''heuristic'', ru_requirements = [], ru_roles = None, ru_zones = None,
      ru_analyze = (\<lambda>ir. Inr (scan_sources (sa_listing sa) (sa_read sa) check ir))\<rparr>"

definition null_rule :: "source_access \<Rightarrow> rule" where
  "null_rule sa = heuristic_rule sa ''null_dereference'' ''Potential null dereference'' ERROR True null_check"

definition leak_rule :: "source_access \<Rightarrow> rule" where
  "leak_rule sa = heuristic_rule sa ''resource_leak'' ''Potential resource leak'' WARNING True leak_check"

definition secret_rule :: "source_access \<Rightarrow> rule" where
  "secret_rule sa = heuristic_rule sa ''hardcoded_secret'' ''Potential Hardcoded Secret'' WARNING True secret_check"

definition todo_rule :: "source_access \<Rightarrow> rule" where
  "todo_rule sa = heuristic_rule sa ''todo_fixme'' ''TODO/FIXME Comment'' INFO True todo_check"

definition unused_import_rule :: "source_access \<Rightarrow> rule" where
  "unused_import_rule sa = heuristic_rule sa ''unused_import'' ''Potentially Unused Import'' INFO True unused_import_check"

definition broad_exception_rule :: "source_access \<Rightarrow> rule" where
  "broad_exception_rule sa = heuristic_rule sa ''broad_exception'' ''Overly Broad Exception'' WARNING True broad_exception_check"

definition random_rule :: "source_access \<Rightarrow> rule" where
  "random_rule sa = heuristic_rule sa ''insecure_random'' ''Insecure Random Number Generator'' WARNING True random_check"

definition sql_rule :: "source_access \<Rightarrow> rule" where
  "sql_rule sa = heuristic_rule sa ''sql_injection'' ''Potential SQL Injection'' ERROR False sql_check"

text \<open>Defined, but not registered.\<close>

definition command_rule :: "source_access \<Rightarrow> rule" where
  "command_rule sa = heuristic_rule sa ''command_injection'' ''Potential Command Injection'' ERROR False command_check"

definition traversal_rule :: "source_access \<Rightarrow> rule" where
  "traversal_rule sa = heuristic_rule sa ''path_traversal'' ''Potential Path Traversal'' ERROR False traversal_check"

section \<open>Registration\<close>

definition security_rules :: "source_access \<Rightarrow> rule list" where
  "security_rules sa = [secret_rule sa]"

definition quality_rules :: "source_access \<Rightarrow> rule list" where
  "quality_rules sa = [todo_rule sa, unused_import_rule sa, broad_exception_rule sa, random_rule sa, sql_rule sa]"

type_synonym registry = "unit rule_ext rule_registry"

definition register_builtin ::
  "source_access \<Rightarrow> (semantic_ir \<Rightarrow> string + flow_outcome) \<Rightarrow> registry \<Rightarrow> registry checked" where
  "register_builtin sa analyzer r =
     fold_checked register r
       ([null_rule sa, leak_rule sa] @ security_rules sa @ quality_rules sa @ [flow_rule analyzer, retry_rule])"

section \<open>Facts\<close>

lemmas builtin_rule_defs = null_rule_def leak_rule_def secret_rule_def todo_rule_def unused_import_rule_def
  broad_exception_rule_def random_rule_def sql_rule_def flow_rule_def retry_rule_def heuristic_rule_def

lemma builtin_registered:
  "\<exists>r. register_builtin sa analyzer empty_registry = Inr r \<and> registry_ok r \<and>
     list_rule_ids r = [''null_dereference'', ''resource_leak'', ''hardcoded_secret'', ''todo_fixme'', ''unused_import'',
       ''broad_exception'', ''insecure_random'', ''sql_injection'', ''security_data_flow'', ''retry_without_backoff'']"
proof -
  let ?rules = "[null_rule sa, leak_rule sa] @ security_rules sa @ quality_rules sa @ [flow_rule analyzer, retry_rule]"
  have "registry_ok empty_registry" by (simp add: registry_ok_def empty_registry_def)
  from register_all[OF this, of ?rules] show ?thesis
    by (auto simp: register_builtin_def security_rules_def quality_rules_def builtin_rule_defs empty_registry_def list_rule_ids_def
        split: sum.splits)
qed

end
