(* ===== verification/Retrieval.thy ===== *)
theory Retrieval
  imports GraphStore SemanticIr Json PyFloat
begin

text \<open>
  \<open>graph/evidence.py\<close> and the seed finding and ranking of \<open>graph/retriever.py\<close>: the bounded
  evidence subgraph retrieved for a query. Scores are sums of doubles over a Python set of tokens;
  \<open>ord\<close> is the order in which such a set is walked. Reading a source file through the bounds of the
  repository is the argument \<open>read\<close>. The rendering of source context for prompts is not modelled.
\<close>

section \<open>Tokens\<close>

text \<open>\<open>re.findall("[...]+", s)\<close>.\<close>

function char_runs :: "(char \<Rightarrow> bool) \<Rightarrow> string \<Rightarrow> string list" where
  "char_runs p s =
     (case dropWhile (\<lambda>c. \<not> p c) s of [] \<Rightarrow> [] | c # t \<Rightarrow> (c # takeWhile p t) # char_runs p (dropWhile p t))"
  by pat_completeness auto
termination
proof (relation "measure (\<lambda>(p, s). length s)", goal_cases)
  case (2 p s c t)
  then have "length (c # t) \<le> length s" by (metis length_dropWhile_le)
  with length_dropWhile_le[of p t] show ?case by simp
qed simp

declare char_runs.simps [simp del]

definition is_lower_or_digit :: "char \<Rightarrow> bool" where
  "is_lower_or_digit c = (let n = code c in (97 \<le> n \<and> n \<le> 122) \<or> is_digit c)"

definition is_upper :: "char \<Rightarrow> bool" where
  "is_upper c = (let n = code c in 65 \<le> n \<and> n \<le> 90)"

definition is_alnum :: "char \<Rightarrow> bool" where
  "is_alnum c = (is_lower_or_digit c \<or> is_upper c)"

text \<open>A space between a lower-case letter or digit and an upper-case letter.\<close>

fun camel_split :: "string \<Rightarrow> string" where
  "camel_split (c # d # s) =
     (if is_lower_or_digit c \<and> is_upper d then c # CHR '' '' # camel_split (d # s) else c # camel_split (d # s))"
| "camel_split s = s"

definition identifier_tokens :: "string \<Rightarrow> string list" where
  "identifier_tokens s = dedup (map lower (filter (\<lambda>t. 1 < length t) (char_runs is_alnum (camel_split s))))"

definition query_tokens :: "string \<Rightarrow> string list" where
  "query_tokens query = dedup (map lower (filter (\<lambda>t. 3 \<le> length t) (char_runs is_ident_char query)))"

definition token_hits :: "string list \<Rightarrow> string \<Rightarrow> nat" where
  "token_hits tokens haystack = length (filter (\<lambda>t. contains_sub t haystack) tokens)"

section \<open>Seeds\<close>

definition query_stopwords :: "string list" where
  "query_stopwords =
     [''a'', ''an'', ''and'', ''are'', ''code'', ''does'', ''file'', ''files'', ''find'', ''for'', ''from'', ''how'',
      ''implementation'', ''in'', ''is'', ''it'', ''of'', ''the'', ''to'', ''where'', ''with'', ''work'', ''works'',
      ''defined'', ''generated'', ''based'', ''source'']"

definition token_similarity :: "string \<Rightarrow> string \<Rightarrow> rat" where
  "token_similarity token candidate =
     (let shorter = min (length token) (length candidate) in
      if 5 \<le> shorter \<and> (starts_with (take 5 candidate) token \<or> starts_with (take 5 token) candidate) then 3152519739159347 / 4503599627370496
      else if 4 \<le> shorter \<and> (contains_sub token candidate \<or> contains_sub candidate token) then 1 / 2 else 0)"

fun best_token_match :: "rat \<Rightarrow> string \<Rightarrow> string list \<Rightarrow> rat" where
  "best_token_match best token [] = best"
| "best_token_match best token (c # cs) =
     (if token = c then 1 else best_token_match (max best (token_similarity token c)) token cs)"

definition signature_text :: "code_node \<Rightarrow> string checked" where
  "signature_text n =
     (case dict_get (cn_properties n) ''signature'' of
        None \<Rightarrow> Inr []
      | Some (PStr s) \<Rightarrow> Inr s
      | Some _ \<Rightarrow> Inl (TypeError ''expected string or bytes-like object''))"

definition add_score :: "code_node \<Rightarrow> string \<Rightarrow> rat \<Rightarrow> string \<Rightarrow> rat" where
  "add_score n sig score token =
     (let s1 = rounded (score + rounded (4 * best_token_match 0 token (identifier_tokens (cn_name n))));
          s2 = rounded (s1 + rounded (5 / 2 * best_token_match 0 token (identifier_tokens (cn_file n))))
      in rounded (s2 + best_token_match 0 token (identifier_tokens sig)))"

definition path_stem :: "string \<Rightarrow> string" where
  "path_stem p = (let n = path_name p in if name_suffix n = [] then n else before_last (CHR ''.'') n)"

definition node_score :: "(string list \<Rightarrow> string list) \<Rightarrow> string list \<Rightarrow> code_node \<Rightarrow> rat checked" where
  "node_score ord tokens n =
     bind (signature_text n) (\<lambda>sig.
       let score = foldl (add_score n sig) 0 (ord tokens)
       in Inr (if cn_type n = FILE \<and> lower (path_stem (cn_file n)) \<in> set tokens then rounded (score + 3) else score))"

definition find_seeds :: "(string list \<Rightarrow> string list) \<Rightarrow> code_graph \<Rightarrow> string \<Rightarrow> code_node list checked" where
  "find_seeds ord g query =
     (let wanted = strip (lower query); nodes = dict_values (cg_nodes g);
          exact = filter (\<lambda>n. (cn_type n = FUNCTION_NODE \<or> cn_type n = CLASS) \<and> lower (cn_name n) = wanted) nodes;
          tokens = filter (\<lambda>t. t \<notin> set query_stopwords) (identifier_tokens wanted);
          named = filter (\<lambda>n. cn_type n = FUNCTION_NODE \<or> cn_type n = CLASS \<or> cn_type n = FILE) nodes
      in if exact \<noteq> [] then Inr exact
         else bind (traverse (\<lambda>n. bind (node_score ord tokens n) (\<lambda>s. Inr (s, n))) named) (\<lambda>scored.
           Inr (take 10 (map snd (sort_key (\<lambda>(s, n). (- s, cn_file n, cn_name n)) (filter (\<lambda>(s, n). 0 < s) scored))))))"

section \<open>Ranking\<close>

definition low_priority_parts :: "string list" where
  "low_priority_parts = [''archive'', ''archived'', ''deprecated'', ''legacy'']"

definition touches :: "string \<Rightarrow> code_edge \<Rightarrow> bool" where
  "touches i e = (ce_source e = i \<or> ce_target e = i)"

definition type_priority :: "node_type \<Rightarrow> int" where
  "type_priority t = (if t = FUNCTION_NODE then 0 else if t = CLASS then 1 else if t = FILE then 2 else 3)"

definition rank_key ::
  "code_graph \<Rightarrow> code_node list \<Rightarrow> string \<Rightarrow> code_node \<Rightarrow> int \<times> int \<times> int \<times> int \<times> int \<times> int \<times> string \<times> string" where
  "rank_key sub seeds query n =
     (let ids = map cn_id seeds; i = cn_id n; near1 = filter (touches i) (cg_edges sub);
          positions = dict_of (\<lambda>(k, s). cn_id s) (\<lambda>(k, s). int k) (zip [0..<length seeds] seeds);
          tier = (if i \<in> set ids then 0
                  else if list_ex (\<lambda>e. ce_source e \<in> set ids \<or> ce_target e \<in> set ids) near1 then 1 else 2)
      in (tier,
          if meets (map lower (path_parts (cn_file n))) low_priority_parts then 1 else 0,
          dict_get_or (int (length seeds)) positions i,
          - int (length (filter (\<lambda>t. contains_sub t (lower (cn_name n))) (split_ws (strip (lower query))))),
          - int (length near1), type_priority (cn_type n), cn_file n, cn_name n))"

definition rank_nodes :: "code_graph \<Rightarrow> code_node list \<Rightarrow> string \<Rightarrow> code_node list" where
  "rank_nodes sub seeds query = sort_key (rank_key sub seeds query) (dict_values (cg_nodes sub))"

section \<open>Facts of the subgraph\<close>

fun edge_fact_kind :: "edge_type \<Rightarrow> fact_kind" where
  "edge_fact_kind CONTAINS_REL = DEFINES"
| "edge_fact_kind CALLS_REL = CALLS"
| "edge_fact_kind IMPORTS_REL = IMPORTS"
| "edge_fact_kind INHERITS = CONTROLS"
| "edge_fact_kind IMPLEMENTS = CONTROLS"
| "edge_fact_kind REFERENCES_REL = REFERENCES"
| "edge_fact_kind RETURNS_REL = REFERENCES"
| "edge_fact_kind DECORATES = CONTROLS"
| "edge_fact_kind ANNOTATES = CONTROLS"

type_synonym reader = "string \<Rightarrow> string option"

definition snippet :: "reader \<Rightarrow> string \<Rightarrow> int \<Rightarrow> int \<Rightarrow> string" where
  "snippet read file line_start line_end =
     (case read file of
        None \<Rightarrow> []
      | Some source \<Rightarrow>
          (let lines = splitlines source; start = nat (max 0 (line_start - 1));
               stop = min (int (length lines)) (max (int start + 1) line_end)
           in join [char_of (10::nat)] (drop start (take (nat stop) lines))))"

definition node_ref :: "reader \<Rightarrow> code_node \<Rightarrow> evidence_ref" where
  "node_ref read n =
     make_ref (cn_file n) (max 1 (cn_line_start n))
       (Some (max 1 (if cn_line_end n \<noteq> 0 then cn_line_end n else cn_line_start n))) None None
       (snippet read (cn_file n) (cn_line_start n) (cn_line_end n)) ''code_graph''"

definition node_fact :: "reader \<Rightarrow> code_node \<Rightarrow> semantic_fact" where
  "node_fact read n =
     \<lparr>sf_subject = cn_file n, sf_predicate = Kind DEFINES, sf_object = cn_id n, sf_evidence = [node_ref read n],
      sf_confidence = float_one,
      sf_attributes = [(''name'', PStr (cn_name n)), (''node_type'', PStr (node_type_value (cn_type n))),
                       (''language'', PStr (cn_language n))]\<rparr>"

definition relation_fact :: "reader \<Rightarrow> code_edge \<Rightarrow> code_node \<Rightarrow> code_node \<Rightarrow> semantic_fact" where
  "relation_fact read e source target =
     \<lparr>sf_subject = cn_id source, sf_predicate = Kind (edge_fact_kind (ce_type e)), sf_object = cn_id target,
      sf_evidence = [node_ref read source, node_ref read target], sf_confidence = float_one,
      sf_attributes = [(''edge_type'', PStr (edge_type_value (ce_type e)))]\<rparr>"

definition operation_fact :: "operation \<Rightarrow> semantic_fact" where
  "operation_fact p =
     \<lparr>sf_subject = (if op_scope p \<noteq> [] then op_scope p else er_file (op_location p)),
      sf_predicate = Kind STATE_TRANSITION,
      sf_object = (if op_target p \<noteq> [] then op_target p else if op_value p \<noteq> [] then op_value p else op_kind_value (op_kind p)),
      sf_evidence = [op_location p], sf_confidence = float_one,
      sf_attributes = dict_update
        [(''operation_id'', PStr (op_id p)), (''operation_kind'', PStr (op_kind_value (op_kind p))),
         (''operands'', PList (map PStr (op_operands p)))] (op_attributes p)\<rparr>"

text \<open>Relations between selected nodes, in the order of source, target and type.\<close>

definition relation_facts :: "reader \<Rightarrow> code_graph \<Rightarrow> code_graph \<Rightarrow> string list \<Rightarrow> semantic_fact list" where
  "relation_facts read g sub ids =
     List.map_filter
       (\<lambda>e. if ce_source e \<notin> set ids \<or> ce_target e \<notin> set ids then None
            else (case (dict_get (cg_nodes g) (ce_source e), dict_get (cg_nodes g) (ce_target e)) of
                    (Some source, Some target) \<Rightarrow> Some (relation_fact read e source target)
                  | _ \<Rightarrow> None))
       (sort_key (\<lambda>e. (ce_source e, ce_target e, edge_type_value (ce_type e))) (cg_edges sub))"

section \<open>Seeds by file\<close>

definition file_relevance :: "code_graph \<Rightarrow> string list \<Rightarrow> code_node \<Rightarrow> int \<times> int \<times> int \<times> int \<times> string" where
  "file_relevance g tokens n =
     (- int (token_hits tokens (lower (cn_name n))), type_priority (cn_type n),
      - int (length (dict_get_or [] (cg_out g) (cn_id n)) + length (dict_get_or [] (cg_in g) (cn_id n))),
      cn_line_start n, cn_name n)"

definition named_in :: "string \<Rightarrow> code_node \<Rightarrow> bool" where
  "named_in query n = (cn_file n \<noteq> [] \<and> contains_sub (cn_file n) query)"

definition file_queues :: "code_graph \<Rightarrow> string \<Rightarrow> code_node list list" where
  "file_queues g query =
     (let by_path = foldl (\<lambda>d n. dict_append (cn_file n) n d) [] (filter (named_in query) (dict_values (cg_nodes g)))
      in map (\<lambda>p. sort_key (file_relevance g (query_tokens query)) (dict_get_or [] by_path p)) (sort (dict_keys by_path)))"

text \<open>One pass over the files: the first node left of each, until the limit is reached.\<close>

fun take_round :: "nat \<Rightarrow> 'a list list \<Rightarrow> 'a list \<Rightarrow> 'a list list \<times> 'a list" where
  "take_round limit [] acc = ([], acc)"
| "take_round limit ([] # qs) acc = (case take_round limit qs acc of (qs', acc') \<Rightarrow> ([] # qs', acc'))"
| "take_round limit ((x # q) # qs) acc =
     (if length acc + 1 = limit then (q # qs, acc @ [x])
      else (case take_round limit qs (acc @ [x]) of (qs', acc') \<Rightarrow> (q # qs', acc')))"

lemma take_round_length: "length acc \<le> length (snd (take_round limit qs acc))"
  by (induction limit qs acc rule: take_round.induct) (auto split: prod.splits)

function balance :: "nat \<Rightarrow> 'a list list \<Rightarrow> 'a list \<Rightarrow> 'a list" where
  "balance limit qs acc =
     (if limit \<le> length acc then acc
      else (case take_round limit qs acc of
              (qs', acc') \<Rightarrow> if length acc' = length acc then acc else balance limit qs' acc'))"
  by pat_completeness auto
termination balance
proof (relation "measure (\<lambda>(limit, qs, acc). limit - length acc)", goal_cases)
  case prems: (2 limit qs acc)
  then show ?case using take_round_length[of acc limit qs] by (auto dest: sym)
qed simp

declare balance.simps [simp del]

definition file_seeds :: "code_graph \<Rightarrow> string \<Rightarrow> code_node list" where
  "file_seeds g query = balance 10 (file_queues g query) []"

section \<open>Selection\<close>

fun fill_up :: "nat \<Rightarrow> code_node list \<Rightarrow> code_node list \<Rightarrow> code_node list" where
  "fill_up limit [] selected = selected"
| "fill_up limit (n # ns) selected =
     (if limit \<le> length selected then selected
      else if cn_id n \<in> cn_id ` set selected then fill_up limit ns selected
      else fill_up limit ns (selected @ [n]))"

definition select_nodes :: "code_node list \<Rightarrow> code_node list \<Rightarrow> string \<Rightarrow> nat \<Rightarrow> code_node list" where
  "select_nodes ranked seeds query limit =
     (let paths = sorted_set (map cn_file (filter (named_in query) seeds)) in
      if limit = 0 then []
      else if length paths \<le> 1 then take limit ranked
      else (let quota = max 1 (limit div length paths);
                reserved = concat (map (\<lambda>p. take quota (filter (\<lambda>n. cn_file n = p) ranked)) paths)
            in take limit (fill_up limit ranked reserved)))"

section \<open>Operations and facts\<close>

definition operation_text :: "operation \<Rightarrow> string" where
  "operation_text p =
     lower (join '' '' [op_target p, op_value p, join '' '' (op_operands p), json_plain (PDict (op_attributes p))])"

definition fact_text :: "semantic_fact \<Rightarrow> string" where
  "fact_text f =
     lower (join '' '' [sf_subject f, predicate_value (sf_predicate f), sf_object f, json_plain (PDict (sf_attributes f))])"

definition operation_matches :: "semantic_ir \<Rightarrow> string \<Rightarrow> int \<Rightarrow> operation list" where
  "operation_matches ir query limit =
     (let score = \<lambda>p. token_hits (query_tokens query) (operation_text p) in
      take (nat (max 0 limit))
        (sort_key (\<lambda>p. (- int (score p), er_file (op_location p), er_line_start (op_location p), op_id p))
          (filter (\<lambda>p. score p \<noteq> 0) (ir_operations ir))))"

definition fact_matches :: "semantic_ir \<Rightarrow> string \<Rightarrow> int \<Rightarrow> semantic_fact list" where
  "fact_matches ir query limit =
     (let score = \<lambda>f. token_hits (query_tokens query) (fact_text f) in
      take (nat (max 0 limit))
        (sort_key (\<lambda>f. (- int (score f), fact_id f)) (filter (\<lambda>f. score f \<noteq> 0) (ir_facts ir))))"

text \<open>Facts whose id is already there are not added again.\<close>

fun add_new_facts :: "string list \<Rightarrow> semantic_fact list \<Rightarrow> semantic_fact list" where
  "add_new_facts known [] = []"
| "add_new_facts known (f # fs) =
     (if fact_id f \<in> set known then add_new_facts known fs else f # add_new_facts (fact_id f # known) fs)"

section \<open>Retrieval\<close>

definition graph_version :: "semantic_ir \<Rightarrow> string" where
  "graph_version ir = take 16 (sha256_hex (json_dumps (PDict
     [(''schema_version'', PStr (ir_version ir)), (''graph'', PDict (graph_to_dict (ir_graph ir))),
      (''operations'', PList (map op_to_dict (ir_operations ir))),
      (''operation_edges'', PList (map edge_to_dict (ir_edges ir))),
      (''facts'', PList (map fact_to_dict (ir_facts ir)))])))"

definition query_seeds :: "(string list \<Rightarrow> string list) \<Rightarrow> code_graph \<Rightarrow> string \<Rightarrow> code_node list checked" where
  "query_seeds ord g query = (if file_seeds g query \<noteq> [] then Inr (file_seeds g query) else find_seeds ord g query)"

definition retrieval_trace ::
  "string \<Rightarrow> code_node list \<Rightarrow> operation list \<Rightarrow> semantic_fact list \<Rightarrow> int \<Rightarrow> code_node list \<Rightarrow> string list" where
  "retrieval_trace query seeds ops facts hops selected =
     (let label = join '','' (map cn_id seeds) in
      [''query:'' @ query,
       ''seeds:'' @ (if label \<noteq> [] then label else if ops \<noteq> [] then ''operations-only'' else ''semantic-facts-only''),
       ''expand:'' @ str_of_int (max 0 hops), ''selected:'' @ join '','' (map cn_id selected)] @
      (if ops \<noteq> [] then [''operations:'' @ join '','' (map op_id ops)] else []) @
      (if facts \<noteq> [] then [''semantic_facts:'' @ join '','' (map fact_id facts)] else []))"

definition expanded :: "(string list \<Rightarrow> string list) \<Rightarrow> code_graph \<Rightarrow> code_node list \<Rightarrow> int \<Rightarrow> code_graph" where
  "expanded ord g seeds hops =
     (if seeds = [] then empty_graph []
      else expand ord g (map cn_id seeds) (nat (max 0 hops)) (Some [CALLS_REL, CONTAINS_REL, REFERENCES_REL]) ''both'')"

definition selected_nodes :: "code_graph \<Rightarrow> code_node list \<Rightarrow> string \<Rightarrow> int \<Rightarrow> code_node list" where
  "selected_nodes sub seeds query max_nodes =
     select_nodes (if seeds = [] then [] else rank_nodes sub seeds query) seeds query (nat (max 0 max_nodes))"

definition retrieved_facts ::
  "reader \<Rightarrow> code_graph \<Rightarrow> code_graph \<Rightarrow> code_node list \<Rightarrow> operation list \<Rightarrow> semantic_fact list" where
  "retrieved_facts read g sub selected ops =
     map (node_fact read) selected @ relation_facts read g sub (map cn_id selected) @ map operation_fact ops"

definition retrieve ::
  "(string list \<Rightarrow> string list) \<Rightarrow> reader \<Rightarrow> semantic_ir \<Rightarrow> string \<Rightarrow> int \<Rightarrow> int \<Rightarrow> evidence_pack checked" where
  "retrieve ord read ir query hops max_nodes =
     (let g = ir_graph ir; ops = operation_matches ir query max_nodes; found = fact_matches ir query max_nodes in
      bind (query_seeds ord g query) (\<lambda>seeds.
        if seeds = [] \<and> ops = [] \<and> found = []
        then Inr (pack_from_facts query [] [] [''query:'' @ query, ''seeds:none''] (graph_version ir))
        else
          (let sub = expanded ord g seeds hops; selected = selected_nodes sub seeds query max_nodes;
               facts = retrieved_facts read g sub selected ops
           in Inr (pack_from_facts query (facts @ add_new_facts (map fact_id facts) found) []
                (retrieval_trace query seeds ops found hops selected) (graph_version ir)))))"

text \<open>The text of a pack for a prompt.\<close>

definition render_ref :: "evidence_ref \<Rightarrow> string list" where
  "render_ref r =
     (''  evidence: '' @ er_file r @ '':'' @ str_of_int (er_line_start r) @ ''-'' @ str_of_int (er_line_end r)) #
     (if er_snippet r \<noteq> [] then [''  '' @ strip (er_snippet r)] else [])"

definition render_fact :: "nat \<times> semantic_fact \<Rightarrow> string list" where
  "render_fact x =
     (case x of (k, f) \<Rightarrow>
        (''[fact-'' @ str_of_nat k @ ''] '' @ sf_subject f @ '' --'' @ predicate_value (sf_predicate f) @ ''--> '' @ sf_object f) #
        concat (map render_ref (sf_evidence f)))"

definition render :: "evidence_pack \<Rightarrow> string" where
  "render pack =
     join [char_of (10::nat)]
       ((''<!-- SmartBench EvidencePack graph='' @ ep_graph_version pack @ '' query='' @ repr_str (ep_query pack) @ '' -->'') #
        concat (map render_fact (zip [1..<Suc (length (ep_facts pack))] (ep_facts pack))))"

section \<open>What is selected\<close>

lemma fill_up_set: "set selected \<subseteq> set (fill_up limit ns selected)"
  "set (fill_up limit ns selected) \<subseteq> set selected \<union> set ns"
  by (induction limit ns selected rule: fill_up.induct) auto

lemma select_nodes_bounds:
  "set (select_nodes ranked seeds query limit) \<subseteq> set ranked" "length (select_nodes ranked seeds query limit) \<le> limit"
proof -
  have quota: "set (take q (filter P ranked)) \<subseteq> set ranked" for q P by (auto dest: in_set_takeD)
  have fill: "set (fill_up limit ranked (concat (map (\<lambda>p. take q (filter (\<lambda>n. cn_file n = p) ranked)) ps))) \<subseteq> set ranked" for q ps
    using fill_up_set(2)[of limit ranked] quota by fastforce
  show "set (select_nodes ranked seeds query limit) \<subseteq> set ranked"
    unfolding select_nodes_def Let_def using fill by (auto dest!: in_set_takeD)
  show "length (select_nodes ranked seeds query limit) \<le> limit" by (simp add: select_nodes_def Let_def)
qed

lemma add_new_facts_subset: "set (add_new_facts known fs) \<subseteq> set fs"
  by (induction known fs rule: add_new_facts.induct) auto

lemma add_new_facts_length: "length (add_new_facts known fs) \<le> length fs"
  by (induction known fs rule: add_new_facts.induct) auto

lemma operation_matches_bounds:
  "set (operation_matches ir query limit) \<subseteq> set (ir_operations ir)" "length (operation_matches ir query limit) \<le> nat limit"
  by (auto simp: operation_matches_def Let_def dest!: in_set_takeD)

lemma fact_matches_bounds:
  "set (fact_matches ir query limit) \<subseteq> set (ir_facts ir)" "length (fact_matches ir query limit) \<le> nat limit"
  by (auto simp: fact_matches_def Let_def dest!: in_set_takeD)

text \<open>A relation fact joins two selected nodes of the graph along one of its edges.\<close>

definition joins :: "reader \<Rightarrow> code_graph \<Rightarrow> code_node list \<Rightarrow> semantic_fact \<Rightarrow> bool" where
  "joins read g selected f \<longleftrightarrow> (\<exists>e \<in> set (cg_edges g). \<exists>s \<in> set (dict_values (cg_nodes g)). \<exists>t \<in> set (dict_values (cg_nodes g)).
     f = relation_fact read e s t \<and> cn_id s = ce_source e \<and> cn_id t = ce_target e \<and>
     ce_source e \<in> cn_id ` set selected \<and> ce_target e \<in> cn_id ` set selected)"

lemma expand_distinct: "distinct (map fst (cg_nodes (expand ord g seeds hops types dir)))"
proof -
  define keys :: "code_graph \<Rightarrow> bool" where "keys = (\<lambda>sub. distinct (map fst (cg_nodes sub)))"
  have add: "keys (add_node n sub)" if "keys sub" for n sub using that by (simp add: keys_def add_node_def distinct_dict_set)
  have edge: "keys (xp_graph (foldl (follow_edge far types) x es))" if "keys (xp_graph x)" for far x es
    using that by (induction es arbitrary: x) (auto simp: keys_def follow_edge_def Let_def)
  have visit: "keys (xp_graph (visit_node g types dir x i))" if "keys (xp_graph x)" for x i
    using that unfolding visit_node_def Let_def by (auto intro!: edge split: option.splits intro: add)
  then have visits: "keys (xp_graph (foldl (visit_node g types dir) x ks))" if "keys (xp_graph x)" for x ks
    using that by (induction ks arbitrary: x) auto
  have "keys (xp_graph (expand_hops ord g types dir n frontier x))" if "keys (xp_graph x)" for n frontier x
    using that
  proof (induction n arbitrary: frontier x)
    case (Suc n)
    have "keys (xp_graph (foldl (visit_node g types dir) (x\<lparr>xp_next := []\<rparr>) (ord frontier)))"
      by (rule visits) (simp add: Suc.prems)
    then show ?case by (simp add: Let_def Suc.IH)
  qed simp
  moreover have "keys (foldl (\<lambda>s i. if dict_has (cg_nodes s) i then s
      else (case dict_get (cg_nodes g) i of None \<Rightarrow> s | Some n \<Rightarrow> add_node n s)) sub ks)" if "keys sub" for sub ks
    using that by (induction ks arbitrary: sub) (auto split: option.splits intro: add)
  ultimately have "keys (expand ord g seeds hops types dir)"
    unfolding expand_def add_endpoints_def by (simp add: keys_def empty_graph_def)
  then show ?thesis by (simp add: keys_def)
qed

lemma values_get: "distinct (map fst d) \<Longrightarrow> v \<in> set (dict_values d) \<Longrightarrow> \<exists>k. dict_get d k = Some v"
  by (force simp: dict_values_def dict_get_def)

lemma keyed_get: "keyed_by_id g \<Longrightarrow> dict_get (cg_nodes g) i = Some n \<Longrightarrow> cn_id n = i"
  by (auto simp: keyed_by_id_def dict_get_def dest!: map_of_SomeD)

lemma expand_nodes:
  fixes seeds :: "string list" and types :: "edge_type list option" and dir :: string and hops :: nat
  assumes "adjacency_ok g" "keyed_by_id g" "\<And>xs. set (ord xs) = set xs"
  shows "set (dict_values (cg_nodes (expand ord g seeds hops types dir))) \<subseteq> set (dict_values (cg_nodes g))"
proof
  fix n assume "n \<in> set (dict_values (cg_nodes (expand ord g seeds hops types dir)))"
  from values_get[OF expand_distinct this] obtain i where "dict_get (cg_nodes (expand ord g seeds hops types dir)) i = Some n" by blast
  with expand_contents[OF assms, of seeds hops types dir] have "dict_get (cg_nodes g) i = Some n" by (auto split: if_splits)
  then show "n \<in> set (dict_values (cg_nodes g))" by (rule dict_get_in_values)
qed

lemma relation_facts_join:
  assumes "keyed_by_id g" "set (cg_edges sub) \<subseteq> set (cg_edges g)" "f \<in> set (relation_facts read g sub (map cn_id selected))"
  shows "joins read g selected f"
proof -
  from assms(3) obtain e s t where "e \<in> set (cg_edges sub)" "dict_get (cg_nodes g) (ce_source e) = Some s"
    "dict_get (cg_nodes g) (ce_target e) = Some t" "f = relation_fact read e s t"
    "ce_source e \<in> cn_id ` set selected" "ce_target e \<in> cn_id ` set selected"
    by (force simp: relation_facts_def map_filter_def split: if_splits option.splits)
  with assms(1,2) show ?thesis unfolding joins_def by (blast intro: dict_get_in_values keyed_get)
qed

lemma expanded_inside:
  assumes "adjacency_ok g" "keyed_by_id g" "\<And>xs. set (ord xs) = set xs"
  shows "set (cg_edges (expanded ord g seeds hops)) \<subseteq> set (cg_edges g)"
    "set (dict_values (cg_nodes (expanded ord g seeds hops))) \<subseteq> set (dict_values (cg_nodes g))"
  using expand_contents[OF assms] expand_nodes[OF assms] by (simp_all add: expanded_def empty_graph_def dict_values_def)

lemma selected_bounds:
  "set (selected_nodes sub seeds query max_nodes) \<subseteq> set (dict_values (cg_nodes sub))"
  "length (selected_nodes sub seeds query max_nodes) \<le> nat max_nodes"
proof -
  show "set (selected_nodes sub seeds query max_nodes) \<subseteq> set (dict_values (cg_nodes sub))"
    unfolding selected_nodes_def by (rule subset_trans[OF select_nodes_bounds(1)]) (simp add: rank_nodes_def)
  show "length (selected_nodes sub seeds query max_nodes) \<le> nat max_nodes"
    unfolding selected_nodes_def by (rule order_trans[OF select_nodes_bounds(2)]) simp
qed

lemma retrieve_facts:
  assumes "retrieve ord read ir query hops max_nodes = Inr pack"
  defines "g \<equiv> ir_graph ir"
  defines "facts \<equiv> \<lambda>seeds. retrieved_facts read g (expanded ord g seeds hops)
    (selected_nodes (expanded ord g seeds hops) seeds query max_nodes) (operation_matches ir query max_nodes)"
  shows "ep_facts pack = [] \<or> (\<exists>seeds. ep_facts pack =
    facts seeds @ add_new_facts (map fact_id (facts seeds)) (fact_matches ir query max_nodes))"
  using assms(1) unfolding retrieve_def Let_def facts_def g_def
  by (auto simp only: bind_def pack_from_facts_def evidence_pack.select_convs split: sum.splits if_splits dest!: sum.inject(2)[THEN iffD1])

section \<open>Properties\<close>

text \<open>
  C19: Every fact of a retrieved pack is grounded in the semantic IR: definitions of nodes of the graph
  (at most \<open>max_nodes\<close>), relations that follow an edge of the graph between two of these nodes,
  operations of the IR and facts of the IR (each at most \<open>max_nodes\<close>), in this order. The walk
  order of the frontier sets does not matter.
\<close>

theorem retrieval_grounded:
  assumes "adjacency_ok (ir_graph ir)" "keyed_by_id (ir_graph ir)" "\<And>xs. set (ord xs) = set xs"
    "retrieve ord read ir query hops max_nodes = Inr pack"
  shows "\<exists>selected relations ops found.
    ep_facts pack = map (node_fact read) selected @ relations @ map operation_fact ops @ found \<and>
    set selected \<subseteq> set (dict_values (cg_nodes (ir_graph ir))) \<and> length selected \<le> nat max_nodes \<and>
    (\<forall>f \<in> set relations. joins read (ir_graph ir) selected f) \<and>
    set ops \<subseteq> set (ir_operations ir) \<and> length ops \<le> nat max_nodes \<and>
    set found \<subseteq> set (ir_facts ir) \<and> length found \<le> nat max_nodes"
proof -
  let ?g = "ir_graph ir" and ?ops = "operation_matches ir query max_nodes" and ?found = "fact_matches ir query max_nodes"
  let ?sub = "\<lambda>seeds. expanded ord ?g seeds hops"
  let ?picked = "\<lambda>seeds. selected_nodes (?sub seeds) seeds query max_nodes"
  let ?facts = "\<lambda>seeds. retrieved_facts read ?g (?sub seeds) (?picked seeds) ?ops"
  from retrieve_facts[OF assms(4)] show ?thesis
  proof (elim disjE exE)
    assume "ep_facts pack = []"
    then show ?thesis by (intro exI[of _ "[]"]) auto
  next
    fix seeds assume eq: "ep_facts pack = ?facts seeds @ add_new_facts (map fact_id (?facts seeds)) ?found"
    note sub = expanded_inside[OF assms(1-3), of seeds hops]
    have "set (?picked seeds) \<subseteq> set (dict_values (cg_nodes ?g)) \<and> length (?picked seeds) \<le> nat max_nodes"
      using selected_bounds sub(2) by blast
    moreover have "\<forall>f \<in> set (relation_facts read ?g (?sub seeds) (map cn_id (?picked seeds))). joins read ?g (?picked seeds) f"
      using relation_facts_join[OF assms(2) sub(1)] by blast
    moreover obtain D where "ep_facts pack = ?facts seeds @ D" "set D \<subseteq> set (ir_facts ir)" "length D \<le> nat max_nodes"
      using eq add_new_facts_subset fact_matches_bounds add_new_facts_length order_trans subset_trans by metis
    ultimately show ?thesis
      using operation_matches_bounds
      by (intro exI[of _ "?picked seeds"] exI[of _ "relation_facts read ?g (?sub seeds) (map cn_id (?picked seeds))"]
          exI[of _ ?ops] exI[of _ D]) (simp add: retrieved_facts_def)
  qed
qed

theorem retrieval_grounded_witness:
  "case retrieve rev (\<lambda>_. None) (ir_from_graph (\<lambda>_ _. None) pair_graph None None None) ''f'' 1 3 of
     Inl _ \<Rightarrow> False
   | Inr pack \<Rightarrow> \<exists>selected relations ops found.
       ep_facts pack = map (node_fact (\<lambda>_. None)) selected @ relations @ map operation_fact ops @ found \<and>
       set selected \<subseteq> set (dict_values (cg_nodes pair_graph)) \<and> length selected \<le> 3"
proof -
  define ir where "ir = ir_from_graph (\<lambda>_ _. None) pair_graph None None None"
  have graph: "ir_graph ir = pair_graph" by (simp add: ir_def ir_from_graph_def Let_def)
  have "case query_seeds rev pair_graph ''f'' of Inr seeds \<Rightarrow> True | Inl _ \<Rightarrow> False" by code_simp
  then obtain seeds where "query_seeds rev (ir_graph ir) ''f'' = Inr seeds" by (auto simp: graph split: sum.splits)
  then have "\<exists>pack. retrieve rev (\<lambda>_. None) ir ''f'' 1 3 = Inr pack" by (simp only: retrieve_def Let_def bind_simps) (simp split: if_split)
  then obtain pack where r: "retrieve rev (\<lambda>_. None) ir ''f'' 1 3 = Inr pack" ..
  have "adjacency_ok pair_graph" unfolding pair_graph_def by (intro adjacency_intros)
  with retrieval_grounded[of ir rev "\<lambda>_. None" "''f''" 1 3 pack] pair_graph_keyed r show ?thesis
    unfolding ir_def[symmetric] by (auto simp: graph)
qed

section \<open>Balancing\<close>

text \<open>The nodes at position \<open>k\<close> of the queues, in the order of the queues; the queues read column by column.\<close>

definition column :: "'a list list \<Rightarrow> nat \<Rightarrow> 'a list" where
  "column qs k = map (\<lambda>q. q ! k) (filter (\<lambda>q. k < length q) qs)"

definition interleave :: "'a list list \<Rightarrow> 'a list" where
  "interleave qs = concat (map (column qs) [0..<Max (insert 0 (length ` set qs))])"

lemma column_tails: "column (map tl qs) k = column qs (Suc k)"
  by (induction qs) (auto simp: column_def nth_tl)

lemma interleave_upto:
  assumes "\<forall>q \<in> set qs. length q \<le> m"
  shows "interleave qs = concat (map (column qs) [0..<m])"
proof -
  let ?M = "Max (insert 0 (length ` set qs))"
  have M: "?M \<le> m" using assms by auto
  have "column qs k = []" if "?M \<le> k" for k using that by (auto simp: column_def filter_empty_conv not_less)
  then have "concat (map (column qs) [?M..<m]) = []" by simp
  moreover have "[0..<m] = [0..<?M] @ [?M..<m]" using M upt_add_eq_append[of 0 ?M "m - ?M"] by simp
  ultimately show ?thesis by (simp add: interleave_def del: upt_conv_Nil)
qed

lemma interleave_tails: "interleave qs = column qs 0 @ interleave (map tl qs)"
proof -
  define m where "m = Max (insert 0 (length ` set qs))"
  have m: "\<forall>q \<in> set qs. length q \<le> Suc m" by (auto simp: m_def le_SucI)
  have "interleave qs = concat (map (column qs) [0..<Suc m])" by (rule interleave_upto[OF m])
  also have "\<dots> = column qs 0 @ concat (map (\<lambda>k. column qs (Suc k)) [0..<m])"
    by (simp add: upt_conv_Cons map_Suc_upt[symmetric] comp_def del: upt_Suc)
  also have "concat (map (\<lambda>k. column qs (Suc k)) [0..<m]) = interleave (map tl qs)"
    using interleave_upto[of "map tl qs" m] m unfolding column_tails by fastforce
  finally show ?thesis .
qed

lemma take_round_column:
  assumes "length acc < limit" "take_round limit qs acc = (qs', acc')"
  shows "acc' = take limit (acc @ column qs 0) \<and> (length acc' < limit \<longrightarrow> qs' = map tl qs)"
  using assms
proof (induction limit qs acc arbitrary: qs' acc' rule: take_round.induct)
  case (3 limit x q qs acc)
  show ?case
  proof (cases "length acc + 1 = limit")
    case True
    with 3(3) show ?thesis by (auto simp: column_def)
  next
    case False
    obtain q'' a'' where r: "take_round limit qs (acc @ [x]) = (q'', a'')" by fastforce
    with False 3(1)[OF False _ r] 3(2,3) show ?thesis by (auto simp: column_def)
  qed
qed (auto simp: column_def split: prod.splits)

lemma balance_done: "limit \<le> length acc \<Longrightarrow> balance limit qs acc = acc"
  by (simp add: balance.simps)

lemma balance_interleave: "length acc \<le> limit \<Longrightarrow> balance limit qs acc = take limit (acc @ interleave qs)"
proof (induction limit qs acc rule: balance.induct)
  case (1 limit qs acc)
  show ?case
  proof (cases "limit \<le> length acc")
    case True
    with "1.prems" show ?thesis by (simp add: balance_done)
  next
    case False
    obtain qs' acc' where r: "take_round limit qs acc = (qs', acc')" by fastforce
    from take_round_column[OF _ r] False
    have acc': "acc' = take limit (acc @ column qs 0)" "length acc' < limit \<Longrightarrow> qs' = map tl qs" by auto
    consider "column qs 0 = []" | "limit \<le> length acc + length (column qs 0)" "column qs 0 \<noteq> []"
      | "length acc + length (column qs 0) < limit" "column qs 0 \<noteq> []" by linarith
    then show ?thesis
    proof cases
      case 1
      then have "\<forall>q \<in> set qs. length q \<le> 0" by (auto simp: column_def filter_empty_conv)
      then have "interleave qs = []" using interleave_upto[of qs 0] by simp
      with 1 False acc' r show ?thesis by (simp add: balance.simps[of limit qs acc])
    next
      case 2
      then have "length acc' = limit" "acc' = take limit (acc @ interleave qs)"
        using acc'(1) False by (auto simp: interleave_tails[of qs])
      moreover from calculation(1) have "balance limit qs' acc' = acc'" by (intro balance_done) simp
      ultimately show ?thesis using False r by (simp only: balance.simps[of limit qs acc]) simp
    next
      case 3
      then have "acc' = acc @ column qs 0" "length acc' \<noteq> length acc" using acc'(1) by auto
      moreover have "balance limit qs' acc' = take limit (acc' @ interleave qs')"
        using "1.IH"[OF False r[symmetric]] calculation 3 by simp
      ultimately show ?thesis
        using False r acc'(2) 3 by (simp add: balance.simps[of limit qs acc] interleave_tails[of qs])
    qed
  qed
qed

text \<open>
  The loop that pops one node per named file in turn, until ten nodes are taken or a round adds
  none, computes the first ten nodes of the file queues read column by column: no file gets its next
  node before every other file has got as many.
\<close>

theorem file_seeds_balanced: "file_seeds g query = take 10 (interleave (file_queues g query))"
  by (simp add: file_seeds_def balance_interleave)

end
