(* ===== verification/Engine.thy ===== *)
theory Engine
  imports Rules Linker Retrieval Adjudication
begin

text \<open>
  \<open>core/engine/engine.py\<close>: a diagnostic run from the detected languages over frontends, merging, linking,
  rules, filtering and evidence packs to the statistics and the adjudication. The run threads the result;
  a step that raises leaves the result as it was then, together with the text of the exception. The
  project scanner, the file discovery, the adapters, the state-rule files and the repository's statements
  of intent are arguments (\<open>engine\<close>); the clock is left out.
\<close>

section \<open>Configuration\<close>

record config =
  uc_llm :: bool
  uc_static :: bool
  uc_max_files :: int
  uc_rules :: "string list"
  uc_languages :: "string list"
  uc_min_confidence :: rat
  uc_build_packs :: bool
  uc_max_packs :: int
  uc_hops :: int
  uc_nodes :: int
  uc_state_paths :: "string list"
  uc_adjudicate :: bool

definition check_config :: "config \<Rightarrow> config checked" where
  "check_config c =
     (if \<not> (0 \<le> uc_min_confidence c \<and> uc_min_confidence c \<le> 1)
      then Inl (ValueError ''min_confidence must be between 0.0 and 1.0'')
      else if uc_max_packs c < 0 then Inl (ValueError ''max_evidence_packs must be non-negative'')
      else if uc_hops c < 0 then Inl (ValueError ''evidence_hops must be non-negative'')
      else if uc_nodes c < 0 then Inl (ValueError ''evidence_nodes must be non-negative'')
      else Inr c)"

section \<open>The result\<close>

record result =
  rs_ir :: "semantic_ir option"
  rs_findings :: "finding list"
  rs_stats :: "(string, int) dict"
  rs_errors :: "string list"
  rs_packs :: "(string, evidence_pack) dict"
  rs_status :: "(string, attributes) dict"

definition empty_result :: result where
  "empty_result = \<lparr>rs_ir = None, rs_findings = [], rs_stats = [], rs_errors = [], rs_packs = [], rs_status = []\<rparr>"

definition add_error :: "string \<Rightarrow> result \<Rightarrow> result" where
  "add_error m r = r\<lparr>rs_errors := rs_errors r @ [m]\<rparr>"

text \<open>A step that may raise: the result so far and the text of the exception, or a value.\<close>

type_synonym 'a run = "(result \<times> string) + 'a"

definition raising :: "result \<Rightarrow> 'a checked \<Rightarrow> 'a run" where
  "raising r m = (case m of Inl e \<Rightarrow> Inl (r, exception_text e) | Inr x \<Rightarrow> Inr x)"

section \<open>One rule\<close>

definition detail_to_dict :: "cap_detail \<Rightarrow> pyval" where
  "detail_to_dict d = PDict
     [(''required'', PStr (level_value (cd_required d))), (''actual'', PStr (level_value (cd_actual d))),
      (''status'', PStr (level_value (cd_status d))), (''reason'', PStr (cd_reason d))]"

definition cap_assessment_to_dict :: "cap_assessment \<Rightarrow> pyval" where
  "cap_assessment_to_dict a = PDict
     ([(''status'', PStr (level_value (ca_status a))),
       (''capabilities'', PDict (map (\<lambda>(c, d). (c, detail_to_dict d)) (ca_capabilities a)))] @
      (if ca_reason a \<noteq> [] then [(''reason'', PStr (ca_reason a))] else []))"

definition assessment_to_dict :: "analysis_assessment \<Rightarrow> attributes" where
  "assessment_to_dict a =
     [(''status'', PStr (level_value (as_status a))), (''languages'', PList (map PStr (as_languages a))),
      (''requirements'', PDict (map (\<lambda>(c, l). (c, PStr (level_value l))) (as_requirements a))),
      (''by_language'', PDict (map (\<lambda>(l, x). (l, cap_assessment_to_dict x)) (as_by_language a))),
      (''reason'', PStr (as_reason a))]"

definition rule_targets :: "rule \<Rightarrow> semantic_ir \<Rightarrow> string list" where
  "rule_targets rule ir =
     (case ru_languages rule of
        Some ls \<Rightarrow> sorted_set (filter (\<lambda>l. l \<in> set ls) (ir_languages ir))
      | None \<Rightarrow> ir_languages ir)"

definition rule_status :: "rule \<Rightarrow> analysis_assessment \<Rightarrow> attributes" where
  "rule_status rule a =
     assessment_to_dict a @ [(''analysis_method'', PStr (ru_method rule))] @
     (case ru_roles rule of None \<Rightarrow> []
      | Some rs \<Rightarrow> [(''source_roles'', PList (map PStr (sorted_set (map source_role_value rs))))]) @
     (case ru_zones rule of None \<Rightarrow> []
      | Some zs \<Rightarrow> [(''source_zones'', PList (map PStr (sorted_set (map repository_zone_value zs))))])"

definition missing_capabilities :: "analysis_assessment \<Rightarrow> pyval" where
  "missing_capabilities a = PDict (List.map_filter
     (\<lambda>(l, x). let cs = map fst (filter (\<lambda>(c, d). cd_status d = UNSUPPORTED) (ca_capabilities x)) in
        if cs = [] then None else Some (l, PList (map PStr cs))) (as_by_language a))"

text \<open>\<open>relative\<close>: the path relative to the resolved project, empty when it lies elsewhere.\<close>

definition source_unit_of :: "(string \<Rightarrow> string \<Rightarrow> string) \<Rightarrow> semantic_ir \<Rightarrow> string \<Rightarrow> source_unit option" where
  "source_unit_of relative ir file =
     (case dict_get (ir_units ir) file of
        Some u \<Rightarrow> Some u
      | None \<Rightarrow> if relative file (ir_project ir) \<noteq> [] then dict_get (ir_units ir) (relative file (ir_project ir)) else None)"

definition annotate_finding :: "analysis_assessment \<Rightarrow> string \<Rightarrow> source_unit option \<Rightarrow> finding \<Rightarrow> finding" where
  "annotate_finding a how u f =
     f\<lparr>fg_metadata := dict_setdefault ''analysis_method'' (PStr how)
       (case u of None \<Rightarrow> fg_metadata f
        | Some x \<Rightarrow>
            (let m1 = dict_setdefault ''source_role'' (PStr (source_role_value (su_role x))) (fg_metadata f);
                 m2 = dict_setdefault ''analysis_status'' (PStr (level_value (as_status a))) m1;
                 m3 = (if as_reason a \<noteq> [] then dict_setdefault ''analysis_limitations'' (PStr (as_reason a)) m2 else m2)
             in dict_setdefault ''repository_zone'' (PStr (repository_zone_value (su_zone x))) m3))\<rparr>"

definition out_of_scope :: "rule \<Rightarrow> source_unit option \<Rightarrow> bool" where
  "out_of_scope rule u =
     (case u of None \<Rightarrow> False
      | Some x \<Rightarrow>
          (case ru_roles rule of None \<Rightarrow> False | Some rs \<Rightarrow> su_role x \<notin> set rs) \<or>
          (case ru_zones rule of None \<Rightarrow> False | Some zs \<Rightarrow> su_zone x \<notin> set zs))"

definition accept_findings ::
  "(string \<Rightarrow> string \<Rightarrow> string) \<Rightarrow> rule \<Rightarrow> semantic_ir \<Rightarrow> analysis_assessment \<Rightarrow> finding list \<Rightarrow> finding list" where
  "accept_findings relative rule ir a fs =
     map (\<lambda>f. annotate_finding a (ru_method rule) (source_unit_of relative ir (lo_file (fg_location f))) f)
       (filter (\<lambda>f. \<not> out_of_scope rule (source_unit_of relative ir (lo_file (fg_location f)))) fs)"

definition skipped_message :: "rule \<Rightarrow> analysis_assessment \<Rightarrow> string" where
  "skipped_message rule a =
     ''Rule '' @ ru_id rule @ '' skipped: missing semantic capabilities '' @ py_repr (missing_capabilities a) @
     ''; analysis_status='' @ level_value (as_status a)"

definition execute_rule ::
  "(string \<Rightarrow> string \<Rightarrow> string) \<Rightarrow> semantic_ir \<Rightarrow> result \<Rightarrow> rule \<Rightarrow> result run" where
  "execute_rule relative ir r rule =
     bind (raising r (assess_requirements ir (ru_requirements rule) (Some (rule_targets rule ir)))) (\<lambda>a.
     let status = rule_status rule a; r1 = r\<lparr>rs_status := dict_set (ru_id rule) status (rs_status r)\<rparr> in
       Inr (if as_status a = UNSUPPORTED then add_error (skipped_message rule a) r1
            else (case ru_analyze rule ir of
                    Inl m \<Rightarrow> add_error (''Rule '' @ ru_id rule @ '' failed: '' @ m) r1
                  | Inr fs \<Rightarrow>
                      (let kept = accept_findings relative rule ir a fs; excluded = length fs - length kept in
                       r1\<lparr>rs_findings := rs_findings r1 @ kept,
                          rs_status := (if excluded = 0 then rs_status r1
                            else dict_set (ru_id rule) (dict_set ''excluded_findings'' (PInt (int excluded)) status) (rs_status r1))\<rparr>))))"

section \<open>Which rules run\<close>

definition applicable_rules :: "registry \<Rightarrow> string list \<Rightarrow> config \<Rightarrow> rule list" where
  "applicable_rules reg languages c =
     (if \<not> uc_static c then []
      else (let rules = dedup_by ru_id [] (concat (map (rules_for_language reg) languages)) in
            if uc_rules c = [] then rules else filter (\<lambda>r. ru_id r \<in> set (uc_rules c)) rules))"

fun add_state_rules :: "string list \<Rightarrow> config \<Rightarrow> rule list \<Rightarrow> result \<Rightarrow> state_rule list \<Rightarrow> rule list \<times> result" where
  "add_state_rules languages c rules r [] = (rules, r)"
| "add_state_rules languages c rules r (d # ds) =
     (if uc_rules c \<noteq> [] \<and> sd_id d \<notin> set (uc_rules c) then add_state_rules languages c rules r ds
      else if sd_languages d \<noteq> [] \<and> \<not> meets languages (sd_languages d) then add_state_rules languages c rules r ds
      else if sd_id d \<in> ru_id ` set rules
      then add_state_rules languages c rules (add_error (''State rule '' @ sd_id d @ '' skipped: duplicate rule id'') r) ds
      else add_state_rules languages c (rules @ [declarative_rule d]) r ds)"

text \<open>An \<open>OSError\<close> or \<open>StateRuleConfigError\<close> is reported; any other exception ends the run.\<close>

fun with_state_rules ::
  "(string \<Rightarrow> state_rule list checked) \<Rightarrow> string list \<Rightarrow> config \<Rightarrow> rule list \<Rightarrow> result \<Rightarrow> string list
   \<Rightarrow> (rule list \<times> result) run" where
  "with_state_rules load languages c rules r [] = Inr (rules, r)"
| "with_state_rules load languages c rules r (p # ps) =
     (case load p of
        Inl (ValueError m) \<Rightarrow>
          with_state_rules load languages c rules (add_error (''State-rule load failed for '' @ p @ '': '' @ m) r) ps
      | Inl e \<Rightarrow> Inl (r, exception_text e)
      | Inr ds \<Rightarrow> (case add_state_rules languages c rules r ds of (rules', r') \<Rightarrow>
          with_state_rules load languages c rules' r' ps))"

definition selected_rule :: "config \<Rightarrow> rule \<Rightarrow> bool" where
  "selected_rule c rule =
     (\<not> (ru_llm rule \<and> \<not> uc_llm c) \<and> (ru_enabled rule \<or> (uc_rules c \<noteq> [] \<and> ru_id rule \<in> set (uc_rules c))))"

definition run_rules :: "(string \<Rightarrow> string \<Rightarrow> string) \<Rightarrow> config \<Rightarrow> rule list \<Rightarrow> result \<Rightarrow> result run" where
  "run_rules relative c rules r =
     (case rs_ir r of None \<Rightarrow> Inr r
      | Some ir \<Rightarrow> fold_checked (execute_rule relative ir) r (filter (selected_rule c) rules))"

definition filter_by_confidence :: "rat \<Rightarrow> finding list \<Rightarrow> finding list" where
  "filter_by_confidence m fs = (if m \<le> 0 then fs else filter (\<lambda>f. m \<le> fst (fg_confidence f)) fs)"

section \<open>Merging and linking\<close>

definition collect_frontend_errors :: "result \<Rightarrow> result run" where
  "collect_frontend_errors r =
     (case rs_ir r of None \<Rightarrow> Inr r
      | Some ir \<Rightarrow> fold_checked (\<lambda>r (key, v).
          case v of PDict d \<Rightarrow>
            (if \<not> ends_with ''_frontend'' key then Inr r
             else bind (raising r (py_list_of (dict_get_or (PList []) d ''errors''))) (\<lambda>ms.
               Inr (foldl (\<lambda>r m. let t = ''['' @ key @ ''] '' @ py_str m in if t \<in> set (rs_errors r) then r else add_error t r) r ms)))
          | _ \<Rightarrow> Inr r) r (cg_meta (ir_graph ir)))"

definition link_semantics :: "result \<Rightarrow> result" where
  "link_semantics r =
     (case rs_ir r of None \<Rightarrow> r
      | Some ir \<Rightarrow> (case link_ir ir of
            Inl e \<Rightarrow> add_error (''Semantic linking failed: '' @ exception_text e) r
          | Inr l \<Rightarrow> r\<lparr>rs_ir := Some (apply_link ir l)\<rparr>))"

text \<open>\<open>project\<close> is the resolved path of the project.\<close>

definition merge_irs :: "string \<Rightarrow> semantic_ir list \<Rightarrow> semantic_ir option" where
  "merge_irs project irs =
     (case irs of
        [] \<Rightarrow> None
      | [ir] \<Rightarrow> Some ir
      | ir # rest \<Rightarrow>
          (let m = foldl ir_merge ir rest; g = ir_graph m in
           Some (m\<lparr>ir_project := project,
             ir_graph := g\<lparr>cg_meta := dict_set ''merged_languages'' (PBool True) (dict_set ''project_path'' (PStr project) (cg_meta g))\<rparr>\<rparr>)))"

section \<open>Statistics\<close>

fun py_len :: "pyval \<Rightarrow> int checked" where
  "py_len (PStr s) = Inr (int (length s))"
| "py_len (PList xs) = Inr (int (length xs))"
| "py_len (PTuple xs) = Inr (int (length xs))"
| "py_len (PDict d) = Inr (int (length d))"
| "py_len _ = Inl (TypeError ''object has no len()'')"

definition error_count :: "pyval \<Rightarrow> int checked" where
  "error_count v = (case v of PDict d \<Rightarrow> py_len (dict_get_or (PList []) d ''errors'') | _ \<Rightarrow> Inr 0)"

definition parse_error_count :: "attributes \<Rightarrow> int checked" where
  "parse_error_count meta =
     bind (traverse (\<lambda>(key, v). if ends_with ''_frontend'' key then error_count v else Inr 0) meta) (\<lambda>ns. Inr (sum_list ns))"

definition count_if :: "('a \<Rightarrow> bool) \<Rightarrow> 'a list \<Rightarrow> int" where
  "count_if P xs = int (length (filter P xs))"

definition all_source_roles :: "source_role list" where
  "all_source_roles = [PRODUCTION, TEST, FIXTURE, EXAMPLE, GENERATED, DOCUMENTATION, UNKNOWN_ROLE]"

definition ir_stats :: "semantic_ir \<Rightarrow> (string, int) dict checked" where
  "ir_stats ir =
     (let meta = cg_meta (ir_graph ir); units = dict_values (ir_units ir); edges = ir_edges ir;
          data = filter (\<lambda>e. oe_kind e = DATA_DEPENDENCY) edges;
          flow = \<lambda>v e. dict_get_or PNone (oe_attributes e) ''flow'' = PStr v in
      bind (error_count (dict_get_or (PDict []) meta ''semantic_contract'')) (\<lambda>contract.
      bind (parse_error_count meta) (\<lambda>parse.
      Inr ([(''ir_nodes'', int (length (cg_nodes (ir_graph ir)))), (''ir_edges'', int (length (cg_edges (ir_graph ir)))),
            (''ir_source_units'', int (length (ir_units ir)))] @
           map (\<lambda>role. (''ir_source_units_'' @ source_role_value role, count_if (\<lambda>u. su_role u = role) units)) all_source_roles @
           [(''ir_operations'', int (length (ir_operations ir))), (''ir_operation_edges'', int (length edges)),
            (''ir_facts'', int (length (ir_facts ir))), (''ir_contract_errors'', contract), (''ir_parse_errors'', parse),
            (''ir_call_edges'', count_if (\<lambda>e. oe_kind e = CALLS_EDGE) edges),
            (''ir_synchronization_edges'', count_if (\<lambda>e. oe_kind e = SYNCHRONIZES) edges),
            (''ir_data_dependency_edges'', int (length data)),
            (''ir_argument_edges'', count_if (flow ''argument_to_parameter'') data),
            (''ir_return_edges'', count_if (flow ''return_to_call'') data)]))))"

definition status_count :: "string \<Rightarrow> result \<Rightarrow> int" where
  "status_count s r = count_if (\<lambda>a. dict_get a ''status'' = Some (PStr s)) (dict_values (rs_status r))"

definition excluded_count :: "attributes \<Rightarrow> int" where
  "excluded_count a = (case dict_get a ''excluded_findings'' of Some (PInt n) \<Rightarrow> n | _ \<Rightarrow> 0)"

definition severity_count :: "severity \<Rightarrow> result \<Rightarrow> int" where
  "severity_count s r = count_if (\<lambda>f. fg_severity f = s) (rs_findings r)"

definition compute_stats :: "string list \<Rightarrow> result \<Rightarrow> (string, int) dict checked" where
  "compute_stats languages r =
     bind (case rs_ir r of None \<Rightarrow> Inr [] | Some ir \<Rightarrow> ir_stats ir) (\<lambda>irs. Inr
       ([(''findings_total'', int (length (rs_findings r))), (''findings_error'', severity_count ERROR r),
         (''findings_warning'', severity_count WARNING r), (''findings_info'', severity_count INFO r),
         (''languages_detected'', int (length languages))] @ irs @
        [(''errors'', int (length (rs_errors r))), (''evidence_packs'', int (length (rs_packs r))),
         (''rules_total'', int (length (rs_status r))), (''rules_full'', status_count ''full'' r),
         (''rules_partial'', status_count ''partial'' r), (''rules_unknown'', status_count ''unknown'' r),
         (''rules_unsupported'', status_count ''unsupported'' r),
         (''findings_excluded_source_scope'', sum_list (map excluded_count (dict_values (rs_status r))))]))"

section \<open>Evidence packs\<close>

text \<open>The operations a finding names in its metadata: \<open>str(metadata.get(k, ""))\<close> and the listed ids.\<close>

definition named_operations :: "finding \<Rightarrow> string list" where
  "named_operations f =
     (let m = fg_metadata f; named = \<lambda>k. py_str (dict_get_or (PStr []) m k) in
      filter (\<lambda>i. i \<noteq> [])
        ([named ''event_operation'', named ''action_operation''] @
         (case dict_get_or (PList []) m ''path_operations'' of
            PList vs \<Rightarrow> List.map_filter (\<lambda>v. case v of PStr i \<Rightarrow> Some i | _ \<Rightarrow> None) vs
          | _ \<Rightarrow> [])))"

definition finding_fact :: "semantic_ir \<Rightarrow> finding \<Rightarrow> semantic_fact option" where
  "finding_fact ir f =
     (let m = fg_metadata f;
          ops = sort_key (\<lambda>p. (er_file (op_location p), er_line_start (op_location p), op_id p))
                  (filter (\<lambda>p. op_id p \<in> set (named_operations f)) (ir_operations ir));
          base = [(''rule_id'', PStr (fg_rule f)), (''operation_ids'', PList (map (\<lambda>p. PStr (op_id p)) ops)),
                  (''missing'', dict_get_or (PStr []) m ''missing'')];
          extra = [(''proof_scope'', PStr ''interprocedural''), (''path_arcs'', dict_get_or (PList []) m ''path_arcs''),
                   (''max_call_depth'', dict_get_or (PInt 0) m ''max_call_depth'')]
      in if ops = [] then None
         else Some \<lparr>sf_subject = py_str (dict_get_or (PStr (fg_rule f)) m ''scope_id''),
                sf_predicate = Kind STATE_TRANSITION, sf_object = fg_message f, sf_evidence = map op_location ops,
                sf_confidence = fg_confidence f,
                sf_attributes = base @ (if dict_get m ''scope'' = Some (PStr ''interprocedural'') then extra else [])\<rparr>)"

definition pack_key :: "finding \<Rightarrow> string" where
  "pack_key f =
     ''finding-'' @ take 16 (sha256_hex (fg_rule f @ ''|'' @ lo_file (fg_location f) @ ''|'' @ str_of_int (lo_start (fg_location f)) @
       ''|'' @ str_of_int (lo_end (fg_location f)) @ ''|'' @ fg_message f))"

definition with_finding_fact :: "semantic_ir \<Rightarrow> finding \<Rightarrow> string \<Rightarrow> evidence_pack \<Rightarrow> evidence_pack" where
  "with_finding_fact ir f query pack =
     (case finding_fact ir f of
        None \<Rightarrow> pack
      | Some own \<Rightarrow> pack_from_facts query (own # ep_facts pack) [] (ep_trace pack @ [''finding:'' @ fg_rule f]) (ep_graph_version pack))"

type_synonym retrieval = "string \<Rightarrow> evidence_pack checked"

definition pack_step ::
  "semantic_ir \<Rightarrow> retrieval \<Rightarrow> (string, evidence_pack) dict \<times> string list \<times> finding list \<Rightarrow> finding
   \<Rightarrow> (string, evidence_pack) dict \<times> string list \<times> finding list" where
  "pack_step ir search acc f =
     (case acc of (packs, errors, done1) \<Rightarrow>
        (let file = lo_file (fg_location f); query = file @ '' '' @ fg_message f in
         case search query of
           Inl e \<Rightarrow> (packs, errors @ [''Evidence retrieval failed for '' @ file @ '':'' @ str_of_int (lo_start (fg_location f)) @ '': '' @
                       exception_text e], done1 @ [f])
         | Inr pack \<Rightarrow> (dict_set (pack_key f) (with_finding_fact ir f query pack) packs, errors,
                        done1 @ [f\<lparr>fg_metadata := dict_setdefault ''evidence_pack_id'' (PStr (pack_key f)) (fg_metadata f)\<rparr>])))"

definition build_packs :: "(semantic_ir \<Rightarrow> retrieval) \<Rightarrow> config \<Rightarrow> result \<Rightarrow> result" where
  "build_packs search c r =
     (case rs_ir r of None \<Rightarrow> r
      | Some ir \<Rightarrow>
          (if \<not> uc_build_packs c \<or> uc_max_packs c = 0 then r
           else (let n = nat (uc_max_packs c) in
                 case foldl (pack_step ir (search ir)) ([], [], []) (take n (rs_findings r)) of
                   (packs, errors, fs) \<Rightarrow>
                     r\<lparr>rs_packs := packs, rs_errors := rs_errors r @ errors, rs_findings := fs @ drop n (rs_findings r)\<rparr>)))"

section \<open>Frontends\<close>

record adapter =
  ad_extensions :: "string list"
  ad_parse :: "string list \<Rightarrow> string + semantic_ir"

text \<open>What a run is given: \<open>eg_discover\<close> lists the files with these extensions, at most so many.\<close>

record engine =
  eg_project :: string
  eg_registry :: registry
  eg_adapter :: "string \<Rightarrow> adapter option"
  eg_scan :: "string + (string \<times> string list)"
  eg_discover :: "string list \<Rightarrow> nat \<Rightarrow> string + string list"
  eg_load :: "string \<Rightarrow> state_rule list checked"
  eg_relative :: "string \<Rightarrow> string \<Rightarrow> string"
  eg_search :: "int \<Rightarrow> int \<Rightarrow> semantic_ir \<Rightarrow> retrieval"
  eg_intents :: "string + (intent_pack \<times> memory_store)"

definition detected_languages :: "config \<Rightarrow> string \<times> string list \<Rightarrow> string list" where
  "detected_languages c scan =
     (if uc_languages c \<noteq> [] then uc_languages c
      else filter (\<lambda>l. l \<noteq> ''unknown'') (fst scan # snd scan))"

definition plan_files :: "engine \<Rightarrow> string list \<Rightarrow> config \<Rightarrow> string + (string, string list) dict" where
  "plan_files eg languages c =
     (let plan = dict_of (\<lambda>l. l) (\<lambda>l. []) languages;
          adapters = List.map_filter (\<lambda>l. map_option (Pair l) (eg_adapter eg l)) (dedup languages);
          limit = nat (max 1 (uc_max_files c));
          partition = \<lambda>found d (l, a). dict_set l
            (take limit (filter (\<lambda>f. lower (name_suffix (path_name f)) \<in> set (map lower (ad_extensions a))) found)) d
      in if adapters = [] then Inr plan
         else bind (eg_discover eg (dedup (concat (map (\<lambda>(l, a). map lower (ad_extensions a)) adapters))) (limit * max 1 (length adapters)))
           (\<lambda>found. Inr (foldl (partition found) plan adapters)))"

text \<open>Every language with an adapter; a frontend that raises is reported.\<close>

fun parse_languages ::
  "engine \<Rightarrow> (string, string list) dict \<Rightarrow> semantic_ir list \<times> result \<Rightarrow> string list \<Rightarrow> semantic_ir list \<times> result" where
  "parse_languages eg files acc [] = acc"
| "parse_languages eg files (irs, r) (l # ls) =
     (case eg_adapter eg l of
        None \<Rightarrow> parse_languages eg files (irs, r) ls
      | Some a \<Rightarrow> (case ad_parse a (dict_get_or [] files l) of
            Inl m \<Rightarrow> parse_languages eg files (irs, add_error (''Failed to parse '' @ l @ '': '' @ m) r) ls
          | Inr ir \<Rightarrow> parse_languages eg files (irs @ [ir], r) ls))"

section \<open>The run\<close>

definition view_of :: "finding \<Rightarrow> finding_view" where
  "view_of f = \<lparr>fv_rule = fg_rule f, fv_file = lo_file (fg_location f), fv_line = lo_start (fg_location f), fv_metadata = fg_metadata f\<rparr>"

definition adjudicate_result :: "engine \<Rightarrow> config \<Rightarrow> result \<Rightarrow> result run" where
  "adjudicate_result eg c r =
     (if \<not> uc_adjudicate c \<or> rs_findings r = [] then Inr r
      else (case eg_intents eg of
              Inl m \<Rightarrow> Inl (r, m)
            | Inr (pack, memory) \<Rightarrow>
                (case apply_adjudications pack memory (map view_of (rs_findings r)) of (views, ds) \<Rightarrow>
                   Inr (r\<lparr>rs_findings := map (\<lambda>(f, v). f\<lparr>fg_metadata := fv_metadata v\<rparr>) (zip (rs_findings r) views),
                          rs_stats := foldl (\<lambda>st (l, n). dict_set (''adjudication_'' @ l) (int n) st)
                            (dict_set ''adjudications_total'' (int (length ds)) (rs_stats r)) (adjudication_counts [] ds)\<rparr>))))"

text \<open>What both entry points do once the IR is there: rules, filter, packs, statistics.\<close>

definition run_analysis :: "engine \<Rightarrow> config \<Rightarrow> string list \<Rightarrow> result \<Rightarrow> result run" where
  "run_analysis eg c languages r =
     bind (with_state_rules (eg_load eg) languages c (applicable_rules (eg_registry eg) languages c) r (uc_state_paths c)) (\<lambda>(rules, r).
     bind (run_rules (eg_relative eg) c rules r) (\<lambda>r.
     (let r1 = r\<lparr>rs_findings := filter_by_confidence (uc_min_confidence c) (rs_findings r)\<rparr>;
          r2 = build_packs (eg_search eg (uc_hops c) (uc_nodes c)) c r1
      in bind (raising r2 (compute_stats languages r2)) (\<lambda>st. Inr (r2\<lparr>rs_stats := st\<rparr>)))))"

definition on_text :: "result \<Rightarrow> string + 'a \<Rightarrow> 'a run" where
  "on_text r m = (case m of Inl t \<Rightarrow> Inl (r, t) | Inr x \<Rightarrow> Inr x)"

definition diagnose_steps :: "engine \<Rightarrow> config \<Rightarrow> result run" where
  "diagnose_steps eg c =
     bind (on_text empty_result (eg_scan eg)) (\<lambda>scan.
     (let languages = detected_languages c scan in
      bind (on_text empty_result (plan_files eg languages c)) (\<lambda>files.
      case parse_languages eg files ([], empty_result) languages of (irs, r) \<Rightarrow>
        bind (collect_frontend_errors (r\<lparr>rs_ir := merge_irs (eg_project eg) irs\<rparr>)) (\<lambda>r.
        bind (run_analysis eg c languages (link_semantics r)) (adjudicate_result eg c)))))"

text \<open>The outer \<open>except\<close>: the run keeps what it has and says why it stopped.\<close>

definition finish :: "result run \<Rightarrow> result" where
  "finish x = (case x of Inl (r, m) \<Rightarrow> add_error (''Diagnostic failed: '' @ m) r | Inr r \<Rightarrow> r)"

definition diagnose :: "engine \<Rightarrow> config \<Rightarrow> result" where
  "diagnose eg c = finish (diagnose_steps eg c)"

text \<open>\<open>parsed\<close> is \<open>parse_semantic_file\<close> of the adapter that takes the file, with its language.\<close>

definition diagnose_file :: "engine \<Rightarrow> config \<Rightarrow> string \<Rightarrow> (string \<times> (string + semantic_ir)) option \<Rightarrow> result" where
  "diagnose_file eg c file parsed =
     (case parsed of
        None \<Rightarrow> add_error (''No adapter for file: '' @ file) empty_result
      | Some (language, outcome) \<Rightarrow>
          finish (bind (on_text empty_result outcome) (\<lambda>ir.
            run_analysis eg c [language] (link_semantics (empty_result\<lparr>rs_ir := Some ir\<rparr>)))))"

section \<open>What a step keeps\<close>

definition finding_core :: "finding \<Rightarrow> finding" where
  "finding_core f = f\<lparr>fg_metadata := []\<rparr>"

lemma core_metadata [simp]: "finding_core (f\<lparr>fg_metadata := m\<rparr>) = finding_core f"
  by (simp add: finding_core_def)

lemma core_annotate [simp]: "finding_core (annotate_finding a how u f) = finding_core f"
  by (simp add: annotate_finding_def)

lemma core_fields:
  "finding_core f = finding_core g \<Longrightarrow> fg_rule f = fg_rule g \<and> fg_location f = fg_location g \<and> fg_message f = fg_message g \<and>
     fg_severity f = fg_severity g \<and> fg_confidence f = fg_confidence g \<and> fg_evidence f = fg_evidence g"
  by (cases f; cases g) (simp add: finding_core_def)

text \<open>A finding that a rule's analysis returned, on sources the rule makes claims about.\<close>

definition from_rule :: "(string \<Rightarrow> string \<Rightarrow> string) \<Rightarrow> semantic_ir \<Rightarrow> rule \<Rightarrow> finding \<Rightarrow> bool" where
  "from_rule relative ir rule f \<longleftrightarrow> (\<exists>fs raw a.
     ru_analyze rule ir = Inr fs \<and> raw \<in> set fs \<and> finding_core f = finding_core raw \<and>
     \<not> out_of_scope rule (source_unit_of relative ir (lo_file (fg_location raw))) \<and>
     assess_requirements ir (ru_requirements rule) (Some (rule_targets rule ir)) = Inr a \<and> as_status a \<noteq> UNSUPPORTED)"

lemma from_rule_core: "from_rule relative ir rule f \<Longrightarrow> finding_core g = finding_core f \<Longrightarrow> from_rule relative ir rule g"
  by (simp add: from_rule_def)

text \<open>A rule that ran left a status, and an error when it was skipped or failed.\<close>

definition accounted :: "semantic_ir \<Rightarrow> rule \<Rightarrow> result \<Rightarrow> bool" where
  "accounted ir rule r \<longleftrightarrow> dict_has (rs_status r) (ru_id rule) \<and>
     (\<exists>a. assess_requirements ir (ru_requirements rule) (Some (rule_targets rule ir)) = Inr a \<and>
        (as_status a = UNSUPPORTED \<longrightarrow> skipped_message rule a \<in> set (rs_errors r)) \<and>
        (as_status a \<noteq> UNSUPPORTED \<longrightarrow> (\<forall>m. ru_analyze rule ir = Inl m \<longrightarrow>
           ''Rule '' @ ru_id rule @ '' failed: '' @ m \<in> set (rs_errors r))))"

definition extends :: "result \<Rightarrow> result \<Rightarrow> bool" where
  "extends r r' \<longleftrightarrow> rs_ir r' = rs_ir r \<and> set (rs_errors r) \<subseteq> set (rs_errors r') \<and>
     (\<forall>k. dict_has (rs_status r) k \<longrightarrow> dict_has (rs_status r') k)"

lemma keeps_refl [simp]: "extends r r"
  by (simp add: extends_def)

lemma keeps_trans: "extends r s \<Longrightarrow> extends s t \<Longrightarrow> extends r t"
  by (auto simp: extends_def)

lemma accounted_mono: "accounted ir rule r \<Longrightarrow> extends r r' \<Longrightarrow> accounted ir rule r'"
  by (fastforce simp: accounted_def extends_def)

lemma raising_Inr [simp]: "raising r m = Inr x \<longleftrightarrow> m = Inr x"
  by (simp add: raising_def split: sum.splits)

lemma on_text_Inr [simp]: "on_text r m = Inr x \<longleftrightarrow> m = Inr x"
  by (simp add: on_text_def split: sum.splits)

lemma accept_findings_from:
  assumes "ru_analyze rule ir = Inr fs" "f \<in> set (accept_findings relative rule ir a fs)"
    "assess_requirements ir (ru_requirements rule) (Some (rule_targets rule ir)) = Inr a" "as_status a \<noteq> UNSUPPORTED"
  shows "from_rule relative ir rule f"
  using assms unfolding from_rule_def accept_findings_def by auto

lemma execute_rule_effect:
  assumes "execute_rule relative ir r rule = Inr r'"
  shows "extends r r' \<and> accounted ir rule r' \<and> rs_packs r' = rs_packs r \<and>
    (\<exists>new. rs_findings r' = rs_findings r @ new \<and> (\<forall>f \<in> set new. from_rule relative ir rule f))"
proof -
  from assms obtain a where a: "assess_requirements ir (ru_requirements rule) (Some (rule_targets rule ir)) = Inr a"
    by (auto simp: execute_rule_def)
  show ?thesis
  proof (cases "as_status a = UNSUPPORTED")
    case True
    with assms a show ?thesis
      by (auto simp: execute_rule_def Let_def raising_def extends_def accounted_def add_error_def dict_has_iff)
  next
    case False
    show ?thesis
    proof (cases "ru_analyze rule ir")
      case (Inl m)
      with assms a False show ?thesis
        by (auto simp: execute_rule_def Let_def raising_def extends_def accounted_def add_error_def dict_has_iff)
    next
      case (Inr fs)
      with assms a False have r': "rs_findings r' = rs_findings r @ accept_findings relative rule ir a fs"
        "extends r r'" "rs_packs r' = rs_packs r" "dict_has (rs_status r') (ru_id rule)"
        by (auto simp: execute_rule_def Let_def raising_def extends_def dict_has_iff)
      with a False Inr accept_findings_from[OF Inr _ a False] show ?thesis by (auto simp: accounted_def)
    qed
  qed
qed

lemma run_rules_effect:
  assumes "fold_checked (execute_rule relative ir) r rules = Inr r'"
  shows "extends r r' \<and> rs_packs r' = rs_packs r \<and> (\<forall>rule \<in> set rules. accounted ir rule r') \<and>
    (\<exists>new. rs_findings r' = rs_findings r @ new \<and> (\<forall>f \<in> set new. \<exists>rule \<in> set rules. from_rule relative ir rule f))"
  using assms
proof (induction rules arbitrary: r)
  case (Cons rule rules)
  then obtain r1 where r1: "execute_rule relative ir r rule = Inr r1" "fold_checked (execute_rule relative ir) r1 rules = Inr r'"
    by auto
  from execute_rule_effect[OF r1(1)] obtain new1 where e1: "extends r r1" "accounted ir rule r1" "rs_packs r1 = rs_packs r"
    "rs_findings r1 = rs_findings r @ new1" "\<forall>f \<in> set new1. from_rule relative ir rule f" by blast
  from Cons.IH[OF r1(2)] obtain new2 where e2: "extends r1 r'" "rs_packs r' = rs_packs r1" "\<forall>rule \<in> set rules. accounted ir rule r'"
    "rs_findings r' = rs_findings r1 @ new2" "\<forall>f \<in> set new2. \<exists>rule \<in> set rules. from_rule relative ir rule f" by blast
  have "rs_findings r' = rs_findings r @ (new1 @ new2)" using e1 e2 by simp
  moreover have "\<forall>f \<in> set (new1 @ new2). \<exists>q \<in> set (rule # rules). from_rule relative ir q f" using e1(5) e2(5) by auto
  moreover have "accounted ir rule r'" by (rule accounted_mono[OF e1(2) e2(1)])
  ultimately show ?case using e1 e2 keeps_trans by auto
qed simp

text \<open>Rules grown by declarative rules for definitions in \<open>L\<close>, with their ids kept distinct.\<close>

definition grown :: "state_rule set \<Rightarrow> rule list \<times> result \<Rightarrow> rule list \<times> result \<Rightarrow> bool" where
  "grown L x y \<longleftrightarrow> set (fst x) \<subseteq> set (fst y) \<and> set (fst y) \<subseteq> set (fst x) \<union> declarative_rule ` L \<and>
     (distinct (map ru_id (fst x)) \<longrightarrow> distinct (map ru_id (fst y))) \<and> extends (snd x) (snd y) \<and>
     rs_findings (snd y) = rs_findings (snd x) \<and> rs_packs (snd y) = rs_packs (snd x)"

lemma grown_refl [simp]: "grown L x x"
  by (simp add: grown_def)

lemma grown_trans: "grown L x y \<Longrightarrow> grown M y z \<Longrightarrow> L \<union> M \<subseteq> N \<Longrightarrow> grown N x z"
  unfolding grown_def by (auto intro: keeps_trans) blast+

lemma grown_error: "grown L (rules, r) (rules, add_error m r)"
  by (auto simp: grown_def extends_def add_error_def)

lemma grown_wider: "grown L x y \<Longrightarrow> L \<subseteq> M \<Longrightarrow> grown M x y"
  unfolding grown_def by blast

lemma grown_after_error: "grown L (rules, add_error m r) y \<Longrightarrow> grown L (rules, r) y"
  by (rule grown_trans[OF grown_error[where L = L]]) auto

lemma grown_rule: "ru_id (declarative_rule d) \<notin> ru_id ` set rules \<Longrightarrow> grown {d} (rules, r) (rules @ [declarative_rule d], r)"
  by (auto simp: grown_def)

lemma add_state_rules_grown: "grown (set ds) (rules, r) (add_state_rules languages c rules r ds)"
proof (induction languages c rules r ds rule: add_state_rules.induct)
  case (2 languages c rules r d ds)
  have id: "ru_id (declarative_rule d) = sd_id d" by (simp add: declarative_rule_def Let_def)
  note skip = grown_wider[of "set ds" _ _ "set (d # ds)", OF _ set_subset_Cons]
  show ?case
  proof (cases "(uc_rules c \<noteq> [] \<and> sd_id d \<notin> set (uc_rules c)) \<or> (sd_languages d \<noteq> [] \<and> \<not> meets languages (sd_languages d))")
    case True
    with 2(1,2) skip show ?thesis by auto
  next
    case False
    show ?thesis
    proof (cases "sd_id d \<in> ru_id ` set rules")
      case True
      define m where "m = ''State rule '' @ sd_id d @ '' skipped: duplicate rule id''"
      from 2(3) False True have "grown (set ds) (rules, add_error m r) (add_state_rules languages c rules (add_error m r) ds)"
        by (simp add: m_def)
      from skip[OF grown_after_error[OF this]] show ?thesis
        using False True by (simp only: add_state_rules.simps m_def if_False if_True de_Morgan_disj)
    next
      case new: False
      from new id have "ru_id (declarative_rule d) \<notin> ru_id ` set rules" by simp
      from grown_trans[OF grown_rule[OF this] 2(4)] False new show ?thesis by auto
    qed
  qed
qed simp

definition loaded :: "(string \<Rightarrow> state_rule list checked) \<Rightarrow> string list \<Rightarrow> state_rule set" where
  "loaded load paths = {d. \<exists>p \<in> set paths. \<exists>ds. load p = Inr ds \<and> d \<in> set ds}"

lemma with_state_rules_grown:
  "with_state_rules load languages c rules r paths = Inr x \<Longrightarrow> grown (loaded load paths) (rules, r) x"
proof (induction paths arbitrary: rules r)
  case (Cons p ps)
  have more: "loaded load ps \<subseteq> loaded load (p # ps)" by (auto simp: loaded_def)
  show ?case
  proof (cases "load p")
    case (Inr ds)
    obtain rules1 r1 where s: "add_state_rules languages c rules r ds = (rules1, r1)" by fastforce
    with Cons.prems Inr have run: "with_state_rules load languages c rules1 r1 ps = Inr x" by simp
    have "set ds \<union> loaded load ps \<subseteq> loaded load (p # ps)" using Inr more by (auto simp: loaded_def)
    with add_state_rules_grown[of ds rules r languages c] Cons.IH[OF run] s grown_trans show ?thesis by fastforce
  next
    case (Inl e)
    with Cons.prems obtain m where "with_state_rules load languages c rules (add_error m r) ps = Inr x"
      by (cases e) auto
    from grown_trans[OF grown_error Cons.IH[OF this], of "{}"] more show ?thesis by auto
  qed
qed simp

lemma pack_step_effect:
  assumes "foldl (pack_step ir search) (packs, errors, done1) fs = (packs', errors', done2)"
  shows "map finding_core done2 = map finding_core done1 @ map finding_core fs \<and> length packs' \<le> length packs + length fs"
  using assms
proof (induction fs arbitrary: packs errors done1)
  case (Cons f fs)
  obtain p1 e1 d1 where s: "pack_step ir search (packs, errors, done1) f = (p1, e1, d1)" by (metis prod_cases3)
  have len: "length (dict_set k v d) \<le> Suc (length d)" for k v and d :: "(string, evidence_pack) dict"
    by (induction d) (auto simp: dict_set_def)
  from s len[of "pack_key f" _ packs] have "map finding_core d1 = map finding_core done1 @ [finding_core f]" "length p1 \<le> Suc (length packs)"
    by (auto simp: pack_step_def Let_def split: sum.splits)
  with Cons.IH[of p1 e1 d1] Cons.prems s show ?case by simp
qed simp

lemma build_packs_effect:
  assumes "rs_packs r = []"
  shows "extends r (build_packs search c r) \<and>
    map finding_core (rs_findings (build_packs search c r)) = map finding_core (rs_findings r) \<and>
    length (rs_packs (build_packs search c r)) \<le> nat (uc_max_packs c)"
proof (cases "rs_ir r = None \<or> \<not> uc_build_packs c \<or> uc_max_packs c = 0")
  case True
  with assms show ?thesis by (auto simp: build_packs_def split: option.splits)
next
  case False
  then obtain ir where ir: "rs_ir r = Some ir" by auto
  let ?n = "nat (uc_max_packs c)"
  obtain packs errors fs where s: "foldl (pack_step ir (search ir)) ([], [], []) (take ?n (rs_findings r)) = (packs, errors, fs)"
    by (metis prod_cases3)
  have "map finding_core (take ?n (rs_findings r)) @ map finding_core (drop ?n (rs_findings r)) = map finding_core (rs_findings r)"
    by (metis append_take_drop_id map_append)
  with s pack_step_effect[OF s] False ir show ?thesis
    by (simp add: build_packs_def Let_def extends_def)
qed

lemma adjudicate_effect:
  assumes "adjudicate_result eg c r = Inr r'"
  shows "extends r r' \<and> map finding_core (rs_findings r') = map finding_core (rs_findings r) \<and> rs_packs r' = rs_packs r"
proof -
  have zip: "length gs = length fs \<Longrightarrow> map finding_core (map (\<lambda>(f, v). f\<lparr>fg_metadata := fv_metadata v\<rparr>) (zip fs gs)) = map finding_core fs"
    for fs and gs :: "finding_view list" by (induction fs gs rule: list_induct2') auto
  show ?thesis
    using assms zip by (auto simp: adjudicate_result_def apply_adjudications_def adjudicate_def Let_def extends_def split: if_splits sum.splits)
qed

section \<open>What a run guarantees\<close>

text \<open>The rules of a run: registered ones, and declarative rules for loaded definitions.\<close>

definition run_rule :: "engine \<Rightarrow> config \<Rightarrow> rule \<Rightarrow> bool" where
  "run_rule eg c q \<longleftrightarrow> q \<in> set (rr_rules (eg_registry eg)) \<or> q \<in> declarative_rule ` loaded (eg_load eg) (uc_state_paths c)"

definition analysed :: "engine \<Rightarrow> config \<Rightarrow> string list \<Rightarrow> result \<Rightarrow> bool" where
  "analysed eg c languages r \<longleftrightarrow>
     (\<forall>f \<in> set (rs_findings r). (0 < uc_min_confidence c \<longrightarrow> uc_min_confidence c \<le> fst (fg_confidence f)) \<and>
        (\<exists>ir q. rs_ir r = Some ir \<and> run_rule eg c q \<and> selected_rule c q \<and> from_rule (eg_relative eg) ir q f)) \<and>
     (\<forall>ir q. rs_ir r = Some ir \<longrightarrow> q \<in> set (applicable_rules (eg_registry eg) languages c) \<longrightarrow> selected_rule c q \<longrightarrow> accounted ir q r) \<and>
     length (rs_packs r) \<le> nat (uc_max_packs c)"

lemma applicable_registered: "set (applicable_rules reg languages c) \<subseteq> set (rr_rules reg)"
  by (auto simp: applicable_rules_def Let_def rules_for_language_def dest!: subsetD[OF set_dedup_by_subset] split: if_splits)

lemma set_core:
  assumes "map finding_core fs = map finding_core gs" "f \<in> set fs"
  obtains g where "g \<in> set gs" "finding_core f = finding_core g"
proof -
  have "finding_core f \<in> set (map finding_core gs)" using assms by (metis image_eqI set_map)
  then show ?thesis using that by auto
qed

lemma analysed_core:
  assumes "analysed eg c languages r" "extends r r'" "map finding_core (rs_findings r') = map finding_core (rs_findings r)"
    "length (rs_packs r') \<le> nat (uc_max_packs c)"
  shows "analysed eg c languages r'"
proof -
  have ir: "rs_ir r' = rs_ir r" using assms(2) by (simp add: extends_def)
  have "(0 < uc_min_confidence c \<longrightarrow> uc_min_confidence c \<le> fst (fg_confidence f)) \<and>
        (\<exists>ir q. rs_ir r' = Some ir \<and> run_rule eg c q \<and> selected_rule c q \<and> from_rule (eg_relative eg) ir q f)"
    if f: "f \<in> set (rs_findings r')" for f
  proof -
    from set_core[OF assms(3) f] obtain g where g: "g \<in> set (rs_findings r)" "finding_core f = finding_core g" .
    from g(1) assms(1) obtain ir q where "rs_ir r = Some ir" "run_rule eg c q" "selected_rule c q" "from_rule (eg_relative eg) ir q g"
      "0 < uc_min_confidence c \<longrightarrow> uc_min_confidence c \<le> fst (fg_confidence g)" unfolding analysed_def by blast
    with core_fields[OF g(2)] from_rule_core[OF _ g(2)] show ?thesis unfolding ir by auto
  qed
  moreover have "accounted ir q r'" if "rs_ir r = Some ir" "q \<in> set (applicable_rules (eg_registry eg) languages c)" "selected_rule c q" for ir q
    using assms(1) that accounted_mono[OF _ assms(2)] unfolding analysed_def by blast
  ultimately show ?thesis using assms(4) unfolding analysed_def ir by blast
qed

lemma run_rules_analysed:
  assumes "run_rules relative c rules r = Inr r1" "rs_findings r = []" "rs_packs r = []" "relative = eg_relative eg"
    "set (applicable_rules (eg_registry eg) languages c) \<subseteq> set rules" "\<And>q. q \<in> set rules \<Longrightarrow> run_rule eg c q"
  defines "r2 \<equiv> r1\<lparr>rs_findings := filter_by_confidence (uc_min_confidence c) (rs_findings r1)\<rparr>"
  shows "analysed eg c languages r2 \<and> rs_packs r2 = []"
proof (cases "rs_ir r")
  case None
  with assms show ?thesis by (auto simp: run_rules_def analysed_def filter_by_confidence_def)
next
  case (Some ir)
  with assms(1,4) have run: "fold_checked (execute_rule (eg_relative eg) ir) r (filter (selected_rule c) rules) = Inr r1"
    by (simp add: run_rules_def)
  from run_rules_effect[OF run] assms(2,3) have e: "extends r r1" "rs_packs r1 = []"
    "\<forall>q \<in> set (filter (selected_rule c) rules). accounted ir q r1"
    "\<forall>f \<in> set (rs_findings r1). \<exists>q \<in> set (filter (selected_rule c) rules). from_rule (eg_relative eg) ir q f" by auto
  have ext: "extends r1 r2" by (simp add: extends_def r2_def)
  have ir: "rs_ir r2 = Some ir" using e(1) Some by (simp add: extends_def r2_def)
  have sub: "f \<in> set (rs_findings r2) \<Longrightarrow> f \<in> set (rs_findings r1) \<and> (0 < uc_min_confidence c \<longrightarrow> uc_min_confidence c \<le> fst (fg_confidence f))" for f
    by (auto simp: r2_def filter_by_confidence_def split: if_splits)
  have "accounted ir q r2" if "q \<in> set (applicable_rules (eg_registry eg) languages c)" "selected_rule c q" for q
    using that e(3) assms(5) accounted_mono[OF _ ext] by auto
  moreover have "rs_packs r2 = []" using e(2) by (simp add: r2_def)
  ultimately show ?thesis using sub e(4) assms(6) ir unfolding analysed_def by fastforce
qed

lemma run_analysis_effect:
  assumes "run_analysis eg c languages r = Inr r'" "rs_findings r = []" "rs_packs r = []"
  shows "analysed eg c languages r'"
proof -
  let ?search = "eg_search eg (uc_hops c) (uc_nodes c)"
  let ?filtered = "\<lambda>r. r\<lparr>rs_findings := filter_by_confidence (uc_min_confidence c) (rs_findings r)\<rparr>"
  from assms(1) obtain rules r0 r1 st where steps:
    "with_state_rules (eg_load eg) languages c (applicable_rules (eg_registry eg) languages c) r (uc_state_paths c) = Inr (rules, r0)"
    "run_rules (eg_relative eg) c rules r0 = Inr r1" "r' = build_packs ?search c (?filtered r1)\<lparr>rs_stats := st\<rparr>"
    unfolding run_analysis_def Let_def by (auto split: prod.splits)
  from with_state_rules_grown[OF steps(1)] assms(2,3) have g: "rs_findings r0 = []" "rs_packs r0 = []"
    "set (applicable_rules (eg_registry eg) languages c) \<subseteq> set rules"
    "set rules \<subseteq> set (applicable_rules (eg_registry eg) languages c) \<union> declarative_rule ` loaded (eg_load eg) (uc_state_paths c)"
    by (auto simp: grown_def)
  have "run_rule eg c q" if "q \<in> set rules" for q
    using that g(4) applicable_registered[of "eg_registry eg" languages c] by (auto simp: run_rule_def)
  from run_rules_analysed[OF steps(2) g(1,2) refl g(3) this]
  have a: "analysed eg c languages (?filtered r1)" "rs_packs (?filtered r1) = []" by auto
  from build_packs_effect[OF a(2), of ?search c] have b: "extends (?filtered r1) (build_packs ?search c (?filtered r1))"
    "map finding_core (rs_findings (build_packs ?search c (?filtered r1))) = map finding_core (rs_findings (?filtered r1))"
    "length (rs_packs (build_packs ?search c (?filtered r1))) \<le> nat (uc_max_packs c)" by auto
  have "analysed eg c languages (build_packs ?search c (?filtered r1))" by (rule analysed_core[OF a(1) b])
  moreover have "extends x (x\<lparr>rs_stats := st\<rparr>)" for x by (simp add: extends_def)
  ultimately show ?thesis unfolding steps(3) using b(3) by (auto intro: analysed_core)
qed

lemma collect_errors_effect:
  assumes "collect_frontend_errors r = Inr r'" "rs_findings r = []" "rs_packs r = []"
  shows "rs_findings r' = [] \<and> rs_packs r' = []"
proof (cases "rs_ir r")
  case None
  with assms show ?thesis by (simp add: collect_frontend_errors_def)
next
  case (Some ir)
  have add: "rs_findings (foldl (\<lambda>r m. if t m \<in> set (rs_errors r) then r else add_error (t m) r) r ms) = rs_findings r \<and>
      rs_packs (foldl (\<lambda>r m. if t m \<in> set (rs_errors r) then r else add_error (t m) r) r ms) = rs_packs r" for t :: "pyval \<Rightarrow> string" and r ms
    by (induction ms arbitrary: r) (auto simp: add_error_def)
  show ?thesis
    using assms unfolding collect_frontend_errors_def Some option.case
    by (rule_tac fold_checked_invariant) (auto simp: Let_def add split: pyval.splits if_splits)
qed

lemma parse_languages_effect:
  "parse_languages eg files (irs, r) ls = (irs', r') \<Longrightarrow> rs_findings r' = rs_findings r \<and> rs_packs r' = rs_packs r"
  by (induction ls arbitrary: irs r) (auto simp: add_error_def split: option.splits sum.splits)

lemma link_semantics_effect [simp]:
  "rs_findings (link_semantics r) = rs_findings r" "rs_packs (link_semantics r) = rs_packs r"
  by (auto simp: link_semantics_def add_error_def split: option.splits sum.splits)

lemma diagnose_steps_analysed:
  assumes "diagnose_steps eg c = Inr r"
  obtains scan r0 r1 where "eg_scan eg = Inr scan" "rs_findings r0 = []"
    "run_analysis eg c (detected_languages c scan) r0 = Inr r1" "adjudicate_result eg c r1 = Inr r"
    "analysed eg c (detected_languages c scan) r"
proof -
  from assms obtain scan files where scan: "eg_scan eg = Inr scan" "plan_files eg (detected_languages c scan) c = Inr files"
    unfolding diagnose_steps_def Let_def by auto
  obtain irs ra where parse: "parse_languages eg files ([], empty_result) (detected_languages c scan) = (irs, ra)" by fastforce
  from assms scan parse obtain rb r1 where steps: "eg_scan eg = Inr scan"
    "parse_languages eg files ([], empty_result) (detected_languages c scan) = (irs, ra)"
    "collect_frontend_errors (ra\<lparr>rs_ir := merge_irs (eg_project eg) irs\<rparr>) = Inr rb"
    "run_analysis eg c (detected_languages c scan) (link_semantics rb) = Inr r1" "adjudicate_result eg c r1 = Inr r"
    unfolding diagnose_steps_def Let_def by auto
  from parse_languages_effect[OF steps(2)] collect_errors_effect[OF steps(3)]
  have rb: "rs_findings (link_semantics rb) = []" "rs_packs (link_semantics rb) = []" by (auto simp: empty_result_def)
  have a: "analysed eg c (detected_languages c scan) r1" by (rule run_analysis_effect[OF steps(4) rb])
  have "analysed eg c (detected_languages c scan) r"
    using analysed_core[OF a] adjudicate_effect[OF steps(5)] a by (auto simp: analysed_def)
  with that steps(1,4,5) rb show ?thesis by blast
qed

section \<open>Nothing drops out in silence\<close>



















section \<open>Properties\<close>

text \<open>
  C3: Every finding of a completed diagnostic run was returned by the analysis of a selected rule,
  registered or loaded from a state-rule file, whose capability requirements the IR does not miss; it
  is unchanged but for its metadata, lies in a source the rule makes claims about, and meets the
  confidence threshold. At most the configured number of evidence packs is attached.
\<close>

theorem diagnose_grounded:
  assumes "diagnose_steps eg c = Inr r"
  shows "length (rs_packs r) \<le> nat (uc_max_packs c) \<and>
    (\<forall>f \<in> set (rs_findings r). (0 < uc_min_confidence c \<longrightarrow> uc_min_confidence c \<le> fst (fg_confidence f)) \<and>
       (\<exists>ir q. rs_ir r = Some ir \<and> run_rule eg c q \<and> selected_rule c q \<and> from_rule (eg_relative eg) ir q f))"
proof -
  from diagnose_steps_analysed[OF assms] obtain languages where "analysed eg c languages r" by metis
  then show ?thesis unfolding analysed_def by blast
qed


text \<open>The totals.\<close>

definition totals_ok :: "result \<Rightarrow> bool" where
  "totals_ok r \<longleftrightarrow> dict_get (rs_stats r) ''findings_total'' = Some (int (length (rs_findings r))) \<and>
     dict_get (rs_stats r) ''findings_error'' = Some (severity_count ERROR r) \<and>
     dict_get (rs_stats r) ''findings_warning'' = Some (severity_count WARNING r) \<and>
     dict_get (rs_stats r) ''findings_info'' = Some (severity_count INFO r)"

lemma severity_counts: "severity_count ERROR r + severity_count WARNING r + severity_count INFO r = int (length (rs_findings r))"
proof -
  have "count_if (\<lambda>f. fg_severity f = ERROR) fs + count_if (\<lambda>f. fg_severity f = WARNING) fs + count_if (\<lambda>f. fg_severity f = INFO) fs
      = int (length fs)" for fs :: "finding list"
  proof (induction fs)
    case (Cons f fs)
    then show ?case by (cases "fg_severity f") (auto simp: count_if_def)
  qed (simp add: count_if_def)
  then show ?thesis by (simp add: severity_count_def)
qed

lemma severity_count_core:
  assumes "map finding_core (rs_findings r') = map finding_core (rs_findings r)"
  shows "severity_count s r' = severity_count s r \<and> length (rs_findings r') = length (rs_findings r)"
proof -
  have "fg_severity \<circ> finding_core = fg_severity" by (auto simp: finding_core_def)
  then have "map fg_severity (rs_findings r') = map fg_severity (rs_findings r)"
    using assms by (metis map_map)
  moreover have "count_if (\<lambda>f. fg_severity f = s) fs = int (length (filter ((=) s) (map fg_severity fs)))" for fs
    by (auto simp: count_if_def filter_map comp_def eq_commute)
  ultimately show ?thesis using assms by (metis length_map severity_count_def)
qed

lemma compute_stats_totals: "compute_stats languages r = Inr st \<Longrightarrow> totals_ok (r\<lparr>rs_stats := st\<rparr>)"
  by (auto simp: compute_stats_def totals_ok_def dict_get_Cons severity_count_def)

lemma adjudication_totals:
  assumes "adjudicate_result eg c r = Inr r'" "totals_ok r"
  shows "totals_ok r'"
proof -
  have fold: "dict_get (foldl (\<lambda>st (l, n). dict_set (''adjudication_'' @ l) (int n) st) st counts) (CHR ''f'' # k) = dict_get st (CHR ''f'' # k)"
    for counts st k by (induction counts arbitrary: st) auto
  have keep: "dict_get (rs_stats r') (CHR ''f'' # k) = dict_get (rs_stats r) (CHR ''f'' # k)" for k
    using assms(1) fold by (auto simp: adjudicate_result_def Let_def split: if_splits sum.splits prod.splits)
  from severity_count_core[of r' r] adjudicate_effect[OF assms(1)] assms(2) show ?thesis
    unfolding totals_ok_def by (simp add: keep)
qed

text \<open>
  C5: The statistics of a completed run count its findings: in all, and for each severity exactly those
  of that severity, so that the three add up to the total, also after adjudication has added its own
  counts.
\<close>

theorem diagnose_totals:
  assumes "diagnose_steps eg c = Inr r"
  defines "number \<equiv> (\<lambda>s. int (length (filter (\<lambda>f. fg_severity f = s) (rs_findings r))))"
  shows "dict_get (rs_stats r) ''findings_total'' = Some (int (length (rs_findings r))) \<and>
    dict_get (rs_stats r) ''findings_error'' = Some (number ERROR) \<and>
    dict_get (rs_stats r) ''findings_warning'' = Some (number WARNING) \<and>
    dict_get (rs_stats r) ''findings_info'' = Some (number INFO) \<and>
    number ERROR + number WARNING + number INFO = int (length (rs_findings r))"
proof -
  from diagnose_steps_analysed[OF assms(1)] obtain languages r0 r1 where
    "run_analysis eg c languages r0 = Inr r1" and adj: "adjudicate_result eg c r1 = Inr r" by metis
  then obtain r2 st where "compute_stats languages r2 = Inr st" "r1 = r2\<lparr>rs_stats := st\<rparr>"
    unfolding run_analysis_def Let_def by auto
  with compute_stats_totals have "totals_ok r1" by blast
  with adjudication_totals[OF adj] have "totals_ok r" by blast
  with severity_counts[of r] show ?thesis unfolding totals_ok_def number_def by (simp add: severity_count_def count_if_def)
qed

section \<open>A run\<close>

definition sample_heuristic :: rule where
  "sample_heuristic = heuristic_rule \<lparr>sa_listing = (\<lambda>_ _. [''a.py'']), sa_read = (\<lambda>_ _. Some ''# TODO: x'')\<rparr>
     ''todo_fixme'' ''TODO/FIXME Comment'' INFO True todo_check"

definition failing_rule :: rule where
  "failing_rule = sample_heuristic\<lparr>ru_id := ''broken'', ru_analyze := (\<lambda>_. Inl ''boom'')\<rparr>"

definition sample_config :: config where
  "sample_config = \<lparr>uc_llm = False, uc_static = True, uc_max_files = 500, uc_rules = [], uc_languages = [''python''],
     uc_min_confidence = 1 / 2, uc_build_packs = False, uc_max_packs = 50, uc_hops = 2, uc_nodes = 8, uc_state_paths = [],
     uc_adjudicate = False\<rparr>"

text \<open>A project with one Python file that the frontend could not read.\<close>

definition unread_ir :: semantic_ir where
  "unread_ir = ir_from_graph (\<lambda>_ _. None)
     (empty_graph [(''project_path'', PStr ''/p''), (''python_frontend'', PDict [(''errors'', PList [PStr ''a.py: bad syntax''])])])
     (Some ''python'') None (Some ''/p'')"

definition sample_engine :: engine where
  "sample_engine = \<lparr>eg_project = ''/p'', eg_registry = \<lparr>rr_rules = [sample_heuristic, failing_rule],
       rr_by_id = [(''todo_fixme'', sample_heuristic), (''broken'', failing_rule)]\<rparr>,
     eg_adapter = (\<lambda>l. if l = ''python'' then Some \<lparr>ad_extensions = [''.py''], ad_parse = (\<lambda>_. Inr unread_ir)\<rparr> else None),
     eg_scan = Inr (''python'', []), eg_discover = (\<lambda>_ _. Inr [''a.py'']), eg_load = (\<lambda>_. Inr []), eg_relative = (\<lambda>_ _. []),
     eg_search = (\<lambda>_ _ _ _. Inl (ValueError [])), eg_intents = Inl []\<rparr>"

lemma sample_run:
  "case diagnose_steps sample_engine sample_config of Inl x \<Rightarrow> False
   | Inr r \<Rightarrow> map fg_message (rs_findings r) = [''TODO: x''] \<and> (case rs_ir r of None \<Rightarrow> False | Some ir \<Rightarrow> True) \<and>
       rs_errors r = [''[python_frontend] a.py: bad syntax'', ''Rule broken failed: boom'']"
  by code_simp

lemma sample_result:
  obtains r f ir where "diagnose_steps sample_engine sample_config = Inr r" "rs_findings r = [f]" "fg_message f = ''TODO: x''"
    "rs_ir r = Some ir"
  using sample_run by (auto split: sum.splits option.splits)

text \<open>
  The parse errors that a project run reports are not reported when one file is diagnosed: the step
  that collects them is missing there.
\<close>

theorem file_errors_dropped:
  "rs_errors (diagnose_file sample_engine sample_config ''a.py'' (Some (''python'', Inr unread_ir))) = [''Rule broken failed: boom''] \<and>
   rs_errors (diagnose sample_engine sample_config) = [''[python_frontend] a.py: bad syntax'', ''Rule broken failed: boom'']"
  by code_simp

theorem diagnose_grounded_witness:
  "case diagnose_steps sample_engine sample_config of Inl _ \<Rightarrow> False
   | Inr r \<Rightarrow> \<exists>f ir q. rs_findings r = [f] \<and> fg_message f = ''TODO: x'' \<and> run_rule sample_engine sample_config q \<and>
       from_rule (\<lambda>_ _. []) ir q f \<and> uc_min_confidence sample_config \<le> fst (fg_confidence f)"
proof -
  obtain r f ir where r: "diagnose_steps sample_engine sample_config = Inr r" "rs_findings r = [f]" "fg_message f = ''TODO: x''"
    by (rule sample_result)
  have "0 < uc_min_confidence sample_config" "eg_relative sample_engine = (\<lambda>_ _. [])"
    by (simp_all add: sample_config_def sample_engine_def)
  with diagnose_grounded[OF r(1)] r show ?thesis by fastforce
qed


theorem diagnose_totals_witness:
  "case diagnose_steps sample_engine sample_config of Inl _ \<Rightarrow> False
   | Inr r \<Rightarrow> dict_get (rs_stats r) ''findings_total'' = Some 1 \<and>
       dict_get (rs_stats r) ''findings_info'' = Some (int (length (filter (\<lambda>f. fg_severity f = INFO) (rs_findings r))))"
proof -
  obtain r f ir where r: "diagnose_steps sample_engine sample_config = Inr r" "rs_findings r = [f]"
    by (rule sample_result)
  from diagnose_totals[OF r(1)] r show ?thesis by auto
qed

end
