(* ===== verification/FlowSchema.thy ===== *)
theory FlowSchema
  imports Decode Sha256
begin

text \<open>
  The data of the taint analysis: \<open>flow/schema.py\<close> (the three taint states, source locations, trace
  steps, abstract values and the evidence of a finding, with their dictionary forms), the syntax nodes
  that \<open>flow/ast_traversal.py\<close> reads, and the values that \<open>TaintTracker\<close> of \<open>flow/taint.py\<close> builds.
  A tree-sitter tree is data: the type, the byte range, the points, the field of each child.
\<close>

section \<open>Taint states\<close>

datatype taint_state = TAINTED | NOT_TAINTED | TAINT_UNKNOWN

fun taint_value :: "taint_state \<Rightarrow> string" where
  "taint_value TAINTED = ''tainted''"
| "taint_value NOT_TAINTED = ''not_tainted''"
| "taint_value TAINT_UNKNOWN = ''unknown''"

definition taint_of :: "string \<Rightarrow> taint_state option" where
  "taint_of s = find (\<lambda>t. taint_value t = s) [TAINTED, NOT_TAINTED, TAINT_UNKNOWN]"

definition combine :: "taint_state \<Rightarrow> taint_state \<Rightarrow> taint_state" where
  "combine a b =
     (if a = TAINTED \<or> b = TAINTED then TAINTED
      else if a = TAINT_UNKNOWN \<or> b = TAINT_UNKNOWN then TAINT_UNKNOWN
      else NOT_TAINTED)"

lemma taint_of_value [simp]: "taint_of (taint_value t) = Some t"
  by (cases t) (simp_all add: taint_of_def)

text \<open>\<open>combine\<close> is the join of the order \<open>NOT_TAINTED < UNKNOWN < TAINTED\<close>.\<close>

fun taint_rank :: "taint_state \<Rightarrow> nat" where
  "taint_rank NOT_TAINTED = 0"
| "taint_rank TAINT_UNKNOWN = 1"
| "taint_rank TAINTED = 2"

instantiation taint_state :: "{semilattice_sup, linorder, order_bot}"
begin

definition less_eq_taint_state :: "taint_state \<Rightarrow> taint_state \<Rightarrow> bool" where
  "less_eq_taint_state a b = (taint_rank a \<le> taint_rank b)"

definition less_taint_state :: "taint_state \<Rightarrow> taint_state \<Rightarrow> bool" where
  "less_taint_state a b = (taint_rank a < taint_rank b)"

definition sup_taint_state :: "taint_state \<Rightarrow> taint_state \<Rightarrow> taint_state" where
  "sup_taint_state a b = combine a b"

definition bot_taint_state :: taint_state where
  "bot_taint_state = NOT_TAINTED"

instance
proof
  fix a b c :: taint_state
  show "(a < b) = (a \<le> b \<and> \<not> b \<le> a)"
    by (auto simp: less_taint_state_def less_eq_taint_state_def)
  show "a \<le> a"
    by (simp add: less_eq_taint_state_def)
  show "a \<le> b \<Longrightarrow> b \<le> c \<Longrightarrow> a \<le> c"
    by (simp add: less_eq_taint_state_def)
  show "a \<le> b \<Longrightarrow> b \<le> a \<Longrightarrow> a = b"
    by (cases a; cases b) (simp_all add: less_eq_taint_state_def)
  show "a \<le> b \<or> b \<le> a"
    by (auto simp: less_eq_taint_state_def)
  show "a \<le> sup a b"
    by (cases a; cases b) (simp_all add: less_eq_taint_state_def sup_taint_state_def combine_def)
  show "b \<le> sup a b"
    by (cases a; cases b) (simp_all add: less_eq_taint_state_def sup_taint_state_def combine_def)
  show "b \<le> a \<Longrightarrow> c \<le> a \<Longrightarrow> sup b c \<le> a"
    by (cases a; cases b; cases c) (simp_all add: less_eq_taint_state_def sup_taint_state_def combine_def)
  show "bot \<le> a"
    by (simp add: less_eq_taint_state_def bot_taint_state_def)
qed

end

lemma combine_sup: "combine a b = sup a b"
  by (simp add: sup_taint_state_def)

section \<open>Locations\<close>

record source_location =
  sl_file :: string
  sl_start :: int
  sl_end :: int
  sl_start_row :: int
  sl_start_col :: int
  sl_end_row :: int
  sl_end_col :: int

definition source_location_to_dict :: "source_location \<Rightarrow> pyval" where
  "source_location_to_dict l = PDict
     [(''file_path'', PStr (sl_file l)), (''start_byte'', PInt (sl_start l)), (''end_byte'', PInt (sl_end l)),
      (''start_row'', PInt (sl_start_row l)), (''start_column'', PInt (sl_start_col l)),
      (''end_row'', PInt (sl_end_row l)), (''end_column'', PInt (sl_end_col l))]"

definition source_location_from_dict :: "pyval \<Rightarrow> source_location decoded" where
  "source_location_from_dict v =
     bind (as_dict v) (\<lambda>d. bind (need as_str d ''file_path'') (\<lambda>path. bind (need as_int d ''start_byte'') (\<lambda>sb.
     bind (need as_int d ''end_byte'') (\<lambda>eb. bind (need as_int d ''start_row'') (\<lambda>sr.
     bind (need as_int d ''start_column'') (\<lambda>sc. bind (need as_int d ''end_row'') (\<lambda>er.
     bind (need as_int d ''end_column'') (\<lambda>ec.
       Inr \<lparr>sl_file = path, sl_start = sb, sl_end = eb, sl_start_row = sr, sl_start_col = sc,
         sl_end_row = er, sl_end_col = ec\<rparr>))))))))"

definition location_contains :: "source_location \<Rightarrow> source_location \<Rightarrow> bool" where
  "location_contains a b =
     (sl_file a = sl_file b \<and> sl_start a \<le> sl_start b \<and> sl_end b \<le> sl_end a)"

text \<open>
  \<open>bytes.decode("utf-8", errors="replace")\<close>. The replacement character lies outside the characters of
  the model and is written as a question mark: no node cuts a character in two.
\<close>

fun decode_utf8 :: "nat list \<Rightarrow> string" where
  "decode_utf8 [] = []"
| "decode_utf8 (b # bs) =
     (if b < 128 then char_of b # decode_utf8 bs
      else case bs of
          [] \<Rightarrow> ''?''
        | c # cs \<Rightarrow>
            if (b = 194 \<or> b = 195) \<and> 128 \<le> c \<and> c < 192
            then char_of ((b - 192) * 64 + (c - 128)) # decode_utf8 cs
            else CHR ''?'' # decode_utf8 bs)"

lemma decode_utf8_utf8 [simp]: "decode_utf8 (utf8 s) = s"
proof (induction s)
  case (Cons c s)
  let ?n = "of_char c :: nat"
  show ?case
  proof (cases "?n < 128")
    case True
    then show ?thesis using Cons by (simp add: utf8_def code_def)
  next
    case False
    have "?n < 256" by simp
    then have d: "?n div 64 = 2 \<or> ?n div 64 = 3" using False by linarith
    have "?n mod 64 < 64" "?n div 64 * 64 + ?n mod 64 = ?n" by simp_all
    then have "char_of (?n div 64 * 64 + ?n mod 64) = c" by simp
    then show ?thesis using Cons d False by (auto simp: utf8_def code_def Let_def)
  qed
qed (simp add: utf8_def)

text \<open>\<open>payload[i:j]\<close> for any integers: a negative index counts from the end.\<close>

definition slice_index :: "nat \<Rightarrow> int \<Rightarrow> nat" where
  "slice_index n i = nat (min (int n) (max 0 (if i < 0 then i + int n else i)))"

definition byte_slice :: "nat list \<Rightarrow> int \<Rightarrow> int \<Rightarrow> nat list" where
  "byte_slice bs i j = drop (slice_index (length bs) i) (take (slice_index (length bs) j) bs)"

definition source_snippet :: "source_location \<Rightarrow> string \<Rightarrow> string" where
  "source_snippet l source = decode_utf8 (byte_slice (utf8 source) (sl_start l) (sl_end l))"

section \<open>Trace steps, values and evidence\<close>

record trace_step =
  ts_location :: source_location
  ts_operation :: string
  ts_snippet :: string

definition trace_step_to_dict :: "trace_step \<Rightarrow> pyval" where
  "trace_step_to_dict s = PDict
     [(''location'', source_location_to_dict (ts_location s)), (''operation'', PStr (ts_operation s)),
      (''source_snippet'', PStr (ts_snippet s))]"

definition trace_step_from_dict :: "pyval \<Rightarrow> trace_step decoded" where
  "trace_step_from_dict v =
     bind (as_dict v) (\<lambda>d. bind (need source_location_from_dict d ''location'') (\<lambda>l.
     bind (need as_str d ''operation'') (\<lambda>op. bind (need as_str d ''source_snippet'') (\<lambda>s.
       Inr \<lparr>ts_location = l, ts_operation = op, ts_snippet = s\<rparr>))))"

record abstract_value =
  av_location :: source_location
  av_state :: taint_state
  av_trace :: "trace_step list"
  av_operations :: "string list"
  av_constant :: "string option"

definition opt_str :: "string option \<Rightarrow> pyval" where
  "opt_str s = (case s of None \<Rightarrow> PNone | Some t \<Rightarrow> PStr t)"

definition as_opt_str :: "pyval \<Rightarrow> string option decoded" where
  "as_opt_str v = (case v of PNone \<Rightarrow> Inr None | PStr s \<Rightarrow> Inr (Some s) | _ \<Rightarrow> Inl (Untyped ''str or None''))"

definition as_taint :: "pyval \<Rightarrow> taint_state decoded" where
  "as_taint v = (case v of PStr s \<Rightarrow> (case taint_of s of Some t \<Rightarrow> Inr t
       | None \<Rightarrow> Inl (Raised (ValueError ''is not a valid TaintState'')))
     | _ \<Rightarrow> Inl (Raised (ValueError ''is not a valid TaintState'')))"

text \<open>\<open>tuple(f(x) for x in d.get(k, []))\<close>.\<close>

definition listed :: "(pyval \<Rightarrow> 'a decoded) \<Rightarrow> attributes \<Rightarrow> string \<Rightarrow> 'a list decoded" where
  "listed f d k = optional (\<lambda>v. bind (as_list v) (traverse f)) [] d k"

definition abstract_value_to_dict :: "abstract_value \<Rightarrow> pyval" where
  "abstract_value_to_dict v = PDict
     [(''location'', source_location_to_dict (av_location v)), (''taint_state'', PStr (taint_value (av_state v))),
      (''taint_trace'', PList (map trace_step_to_dict (av_trace v))), (''operations'', PList (map PStr (av_operations v))),
      (''constant_value'', opt_str (av_constant v))]"

definition abstract_value_from_dict :: "pyval \<Rightarrow> abstract_value decoded" where
  "abstract_value_from_dict v =
     bind (as_dict v) (\<lambda>d. bind (need source_location_from_dict d ''location'') (\<lambda>l.
     bind (need as_taint d ''taint_state'') (\<lambda>t. bind (listed trace_step_from_dict d ''taint_trace'') (\<lambda>trace.
     bind (listed as_str d ''operations'') (\<lambda>ops. bind (optional as_opt_str None d ''constant_value'') (\<lambda>c.
       Inr \<lparr>av_location = l, av_state = t, av_trace = trace, av_operations = ops, av_constant = c\<rparr>))))))"

definition with_taint :: "taint_state \<Rightarrow> trace_step option \<Rightarrow> abstract_value \<Rightarrow> abstract_value" where
  "with_taint t s v = v\<lparr>av_state := t, av_trace := av_trace v @ (case s of None \<Rightarrow> [] | Some x \<Rightarrow> [x])\<rparr>"

definition with_operation :: "string \<Rightarrow> abstract_value \<Rightarrow> abstract_value" where
  "with_operation op v = v\<lparr>av_operations := av_operations v @ [op]\<rparr>"

record flow_evidence =
  fe_sink_snippet :: string
  fe_sink :: source_location
  fe_trace :: "trace_step list"
  fe_source_snippet :: string
  fe_source :: source_location
  fe_calls :: "source_location list"

definition flow_evidence_to_dict :: "flow_evidence \<Rightarrow> pyval" where
  "flow_evidence_to_dict e = PDict
     [(''sink_snippet'', PStr (fe_sink_snippet e)), (''sink_location'', source_location_to_dict (fe_sink e)),
      (''taint_trace'', PList (map trace_step_to_dict (fe_trace e))), (''source_snippet'', PStr (fe_source_snippet e)),
      (''source_location'', source_location_to_dict (fe_source e)),
      (''call_chain'', PList (map source_location_to_dict (fe_calls e)))]"

definition flow_evidence_from_dict :: "pyval \<Rightarrow> flow_evidence decoded" where
  "flow_evidence_from_dict v =
     bind (as_dict v) (\<lambda>d. bind (need as_str d ''sink_snippet'') (\<lambda>sk. bind (need source_location_from_dict d ''sink_location'') (\<lambda>sl.
     bind (listed trace_step_from_dict d ''taint_trace'') (\<lambda>trace. bind (need as_str d ''source_snippet'') (\<lambda>so.
     bind (need source_location_from_dict d ''source_location'') (\<lambda>l.
     bind (listed source_location_from_dict d ''call_chain'') (\<lambda>calls.
       Inr \<lparr>fe_sink_snippet = sk, fe_sink = sl, fe_trace = trace, fe_source_snippet = so, fe_source = l,
         fe_calls = calls\<rparr>)))))))"

lemma source_location_roundtrip [simp]: "source_location_from_dict (source_location_to_dict l) = Inr l"
  by (cases l) (simp add: source_location_from_dict_def source_location_to_dict_def decode_simps dict_get_def)

lemma trace_step_roundtrip [simp]: "trace_step_from_dict (trace_step_to_dict s) = Inr s"
  by (cases s) (simp add: trace_step_from_dict_def trace_step_to_dict_def decode_simps dict_get_def)

lemma traverse_inverse:
  assumes "\<And>x. f (g x) = Inr x"
  shows "traverse f (map g xs) = Inr xs"
  by (induction xs) (simp_all add: assms)

lemma traverse_steps [simp]: "traverse trace_step_from_dict (map trace_step_to_dict xs) = Inr xs"
  by (rule traverse_inverse) simp

lemma traverse_locations [simp]: "traverse source_location_from_dict (map source_location_to_dict xs) = Inr xs"
  by (rule traverse_inverse) simp

lemma traverse_strs [simp]: "traverse as_str (map PStr xs) = Inr xs"
  by (rule traverse_inverse) (simp add: as_str_def)

lemma abstract_value_roundtrip: "abstract_value_from_dict (abstract_value_to_dict v) = Inr v"
  by (cases v) (simp add: abstract_value_from_dict_def abstract_value_to_dict_def decode_simps dict_get_def listed_def
      as_taint_def as_opt_str_def opt_str_def as_str_def [abs_def, symmetric] split: option.splits)

lemma flow_evidence_roundtrip: "flow_evidence_from_dict (flow_evidence_to_dict e) = Inr e"
  by (cases e) (simp add: flow_evidence_from_dict_def flow_evidence_to_dict_def decode_simps dict_get_def listed_def)

section \<open>Syntax nodes\<close>

text \<open>The field is the name under which the parent's \<open>child_by_field_name\<close> finds the node.\<close>

datatype syntax_node =
  Node (nd_type: string) (nd_start: nat) (nd_end: nat) (nd_start_point: "nat \<times> nat") (nd_end_point: "nat \<times> nat")
    (nd_named: bool) (nd_field: "string option") (nd_children: "syntax_node list")

definition location_from_node :: "string \<Rightarrow> syntax_node \<Rightarrow> source_location" where
  "location_from_node path n =
     \<lparr>sl_file = path, sl_start = int (nd_start n), sl_end = int (nd_end n),
      sl_start_row = int (fst (nd_start_point n)) + 1, sl_start_col = int (snd (nd_start_point n)),
      sl_end_row = int (fst (nd_end_point n)) + 1, sl_end_col = int (snd (nd_end_point n))\<rparr>"

record ast_context =
  ac_file :: string
  ac_source :: string
  ac_bytes :: "nat list"

definition create_ast_context :: "string \<Rightarrow> string \<Rightarrow> ast_context" where
  "create_ast_context path source = \<lparr>ac_file = path, ac_source = source, ac_bytes = utf8 source\<rparr>"

definition node_text :: "ast_context \<Rightarrow> syntax_node \<Rightarrow> string" where
  "node_text cx n = decode_utf8 (byte_slice (ac_bytes cx) (int (nd_start n)) (int (nd_end n)))"

definition child_by_field :: "string \<Rightarrow> syntax_node \<Rightarrow> syntax_node option" where
  "child_by_field f n = find (\<lambda>c. nd_field c = Some f) (nd_children n)"

definition children_by_type :: "string \<Rightarrow> syntax_node \<Rightarrow> syntax_node list" where
  "children_by_type ty n = filter (\<lambda>c. nd_type c = ty) (nd_children n)"

definition named_children :: "syntax_node \<Rightarrow> syntax_node list" where
  "named_children n = filter nd_named (nd_children n)"

abbreviation place :: "ast_context \<Rightarrow> syntax_node \<Rightarrow> source_location" where
  "place cx n \<equiv> location_from_node (ac_file cx) n"

text \<open>Children are smaller: the recursions over nodes end.\<close>

lemma child_size: "c \<in> set (nd_children n) \<Longrightarrow> size c < size n"
  by (cases n) (auto dest: size_list_estimation' [where f = size, OF _ order_refl])

lemma child_by_field_in: "child_by_field f n = Some c \<Longrightarrow> c \<in> set (nd_children n)"
  by (auto simp: child_by_field_def find_Some_iff)

lemma named_child_in: "c \<in> set (named_children n) \<Longrightarrow> c \<in> set (nd_children n)"
  by (simp add: named_children_def)

lemma child_by_field_size: "child_by_field f n = Some c \<Longrightarrow> size c < size n"
  by (simp add: child_by_field_in child_size)

lemma named_child_size: "c \<in> set (named_children n) \<Longrightarrow> size c < size n"
  by (simp add: named_child_in child_size)

lemmas node_sizes = child_size child_by_field_size named_child_size

text \<open>The nodes of a tree.\<close>

fun subnodes :: "syntax_node \<Rightarrow> syntax_node set" where
  "subnodes (Node ty s e sp ep nm f cs) = insert (Node ty s e sp ep nm f cs) (\<Union> (subnodes ` set cs))"

lemma subnodes_self [simp, intro]: "n \<in> subnodes n"
  by (cases n) simp

lemma subnodes_child: "c \<in> set (nd_children n) \<Longrightarrow> subnodes c \<subseteq> subnodes n"
  by (cases n) auto

lemma subnodes_trans: "m \<in> subnodes n \<Longrightarrow> subnodes m \<subseteq> subnodes n"
proof (induction n arbitrary: m rule: subnodes.induct)
  case (1 ty s e sp ep nm f cs)
  then consider "m = Node ty s e sp ep nm f cs" | c where "c \<in> set cs" "m \<in> subnodes c" by auto
  then show ?case
  proof cases
    case 2
    then have "subnodes m \<subseteq> subnodes c" by (rule 1)
    then show ?thesis using 2(1) by auto
  qed simp
qed

lemma child_in_tree: "n \<in> subnodes t \<Longrightarrow> c \<in> set (nd_children n) \<Longrightarrow> c \<in> subnodes t"
  using subnodes_child subnodes_trans by blast

lemma field_in_tree: "n \<in> subnodes t \<Longrightarrow> child_by_field f n = Some c \<Longrightarrow> c \<in> subnodes t"
  using child_by_field_in child_in_tree by blast

lemma named_in_tree: "n \<in> subnodes t \<Longrightarrow> c \<in> set (named_children n) \<Longrightarrow> c \<in> subnodes t"
  using named_child_in child_in_tree by blast

section \<open>The values of \<open>TaintTracker\<close>\<close>

definition create_value :: "source_location \<Rightarrow> taint_state \<Rightarrow> trace_step list \<Rightarrow> string option \<Rightarrow> abstract_value" where
  "create_value l t trace c =
     \<lparr>av_location = l, av_state = t, av_trace = trace, av_operations = [], av_constant = c\<rparr>"

definition create_tainted_value :: "source_location \<Rightarrow> string \<Rightarrow> string \<Rightarrow> abstract_value" where
  "create_tainted_value l description snippet =
     \<lparr>av_location = l, av_state = TAINTED,
      av_trace = [\<lparr>ts_location = l, ts_operation = description, ts_snippet = snippet\<rparr>],
      av_operations = [], av_constant = None\<rparr>"

definition propagate_taint :: "abstract_value \<Rightarrow> source_location \<Rightarrow> string \<Rightarrow> string \<Rightarrow> abstract_value" where
  "propagate_taint v l operation snippet =
     \<lparr>av_location = l, av_state = av_state v,
      av_trace = av_trace v @ [\<lparr>ts_location = l, ts_operation = operation, ts_snippet = snippet\<rparr>],
      av_operations = av_operations v @ [operation], av_constant = av_constant v\<rparr>"

definition location_key :: "trace_step \<Rightarrow> string \<times> int \<times> int" where
  "location_key s = (sl_file (ts_location s), sl_start (ts_location s), sl_end (ts_location s))"

definition combine_values :: "abstract_value list \<Rightarrow> source_location \<Rightarrow> string \<Rightarrow> string \<Rightarrow> abstract_value" where
  "combine_values vs l operation snippet =
     (if vs = [] then create_value l NOT_TAINTED [] None
      else
        \<lparr>av_location = l, av_state = foldl combine NOT_TAINTED (map av_state vs),
         av_trace = dedup_by location_key [] (concat (map av_trace vs)) @
           [\<lparr>ts_location = l, ts_operation = operation, ts_snippet = snippet\<rparr>],
         av_operations = concat (map av_operations vs) @ [operation], av_constant = None\<rparr>)"

lemmas value_defs = create_value_def create_tainted_value_def propagate_taint_def

lemma foldl_combine_le: "foldl combine s xs \<le> t \<longleftrightarrow> s \<le> t \<and> (\<forall>x\<in>set xs. x \<le> t)"
  by (induction xs arbitrary: s) (auto simp: combine_sup)

lemma foldl_combine_in: "foldl combine s xs = s \<or> foldl combine s xs \<in> set xs"
proof (induction xs arbitrary: s)
  case (Cons x xs)
  have "combine s x = s \<or> combine s x = x" by (cases s; cases x) (simp_all add: combine_def)
  then show ?case using Cons [of "combine s x"] by auto
qed simp

lemma combine_state [simp]: "av_state (combine_values vs l operation snippet) = foldl combine NOT_TAINTED (map av_state vs)"
  by (simp add: combine_values_def create_value_def)

lemma combine_keys:
  "location_key ` set (av_trace (combine_values vs l operation snippet)) \<supseteq>
     (\<Union>v\<in>set vs. location_key ` set (av_trace v))"
  using keys_dedup_by [of location_key "[]" "concat (map av_trace vs)"]
  by (force simp: combine_values_def)

end
