(* ===== verification/Taint.thy ===== *)
theory Taint
  imports FlowSchema Evidence
begin

text \<open>
  \<open>flow/taint_simple.py\<close>: the taint analysis that the data-flow rule runs. One environment per function
  maps names to abstract values; a walk in source order assigns, and inspects the calls that name a
  sink. Evaluation and walk recurse over the syntax nodes.
\<close>

section \<open>Node types\<close>

definition function_types :: "string list" where
  "function_types = [''arrow_function'', ''function'', ''function_declaration'', ''function_definition'',
     ''generator_function'', ''generator_function_declaration'', ''method_definition'']"

definition transparent_methods :: "string list" where
  "transparent_methods = [''concat'', ''filter'', ''flat'', ''flatmap'', ''get'', ''join'', ''map'', ''reduce'', ''replace'',
     ''slice'', ''split'', ''substring'', ''tolowercase'', ''touppercase'', ''trim'']"

definition request_names :: "string list" where
  "request_names = [''ctx'', ''context'', ''req'', ''request'']"

definition call_types :: "string list" where
  "call_types = [''call'', ''call_expression'']"

definition member_types :: "string list" where
  "member_types = [''member_expression'', ''attribute'', ''subscript'']"

definition await_types :: "string list" where
  "await_types = [''await'', ''await_expression'', ''parenthesized_expression'']"

definition text_types :: "string list" where
  "text_types = [''string'', ''template_string'']"

definition composite_types :: "string list" where
  "composite_types = [''array'', ''binary_expression'', ''binary_operator'', ''dictionary'', ''list'', ''object'',
     ''ternary_expression'', ''tuple'']"

definition literal_types :: "string list" where
  "literal_types = [''false'', ''float'', ''integer'', ''none'', ''null'', ''number'', ''true'', ''undefined'']"

definition assignment_types :: "string list" where
  "assignment_types = [''assignment'', ''assignment_expression'', ''augmented_assignment'']"

definition pattern_types :: "string list" where
  "pattern_types = [''array_pattern'', ''object_pattern'', ''parameters'', ''formal_parameters'', ''required_parameter'',
     ''optional_parameter'', ''rest_pattern'', ''default_parameter'']"

definition opt_text :: "ast_context \<Rightarrow> syntax_node option \<Rightarrow> string" where
  "opt_text cx n = (case n of None \<Rightarrow> [] | Some m \<Rightarrow> node_text cx m)"

definition either_field :: "string \<Rightarrow> string \<Rightarrow> syntax_node \<Rightarrow> syntax_node option" where
  "either_field a b n = (case child_by_field a n of Some c \<Rightarrow> Some c | None \<Rightarrow> child_by_field b n)"

definition first_named :: "syntax_node \<Rightarrow> syntax_node option" where
  "first_named n = (case named_children n of [] \<Rightarrow> None | c # _ \<Rightarrow> Some c)"

definition field_or_first :: "string \<Rightarrow> syntax_node \<Rightarrow> syntax_node option" where
  "field_or_first f n = (case child_by_field f n of Some c \<Rightarrow> Some c | None \<Rightarrow> first_named n)"

definition somes :: "'a option list \<Rightarrow> 'a list" where
  "somes xs = List.map_filter (\<lambda>x. x) xs"

lemma either_field_in: "either_field a b n = Some c \<Longrightarrow> c \<in> set (nd_children n)"
  by (auto simp: either_field_def child_by_field_in split: option.splits)

lemma field_or_first_in: "field_or_first f n = Some c \<Longrightarrow> c \<in> set (nd_children n)"
  by (auto simp: field_or_first_def first_named_def child_by_field_in named_children_def
      split: option.splits list.splits dest: filter_eq_ConsD)

lemmas inner_sizes = either_field_in [THEN child_size] field_or_first_in [THEN child_size] node_sizes

section \<open>Sources and sinks\<close>

definition drop_blanks :: "string \<Rightarrow> string" where
  "drop_blanks s = filter (\<lambda>c. c \<noteq> CHR '' '') s"

definition source_prefixes :: "string list" where
  "source_prefixes = [''ctx.body'', ''ctx.params'', ''ctx.query'', ''ctx.request'', ''process.argv'', ''req.body'',
     ''req.params'', ''req.query'', ''request.args'', ''request.body'', ''request.form'', ''request.get'', ''request.params'',
     ''request.post'', ''request.query'', ''sys.argv'']"

definition is_known_source :: "string \<Rightarrow> bool" where
  "is_known_source t =
     (let n = lower (drop_blanks t) in list_ex (\<lambda>p. n = p \<or> starts_with (p @ ''.'') n) source_prefixes)"

definition sql_receivers :: "string list" where
  "sql_receivers = [''client'', ''conn'', ''connection'', ''cursor'', ''database'', ''db'', ''knex'', ''pool'', ''prisma'',
     ''sequelize'', ''sql'', ''sqlite'']"

definition command_sinks :: "string list" where
  "command_sinks = [''child_process.exec'', ''child_process.execsync'', ''child_process.spawn'', ''child_process.spawnsync'',
     ''os.popen'', ''os.system'', ''subprocess.call'', ''subprocess.check_call'', ''subprocess.check_output'',
     ''subprocess.popen'', ''subprocess.run'']"

definition path_sinks :: "string list" where
  "path_sinks = [''fs.createreadstream'', ''fs.createwritestream'', ''fs.open'', ''fs.readfile'', ''fs.readfilesync'',
     ''fs.writefile'', ''fs.writefilesync'', ''open'', ''pathlib.path'']"

definition sink_type :: "string \<Rightarrow> string option" where
  "sink_type t =
     (let n = lower (drop_blanks t);
          method = after_last (CHR ''.'') n;
          receiver = (if CHR ''.'' \<in> set n then before_last (CHR ''.'') n else [])
      in if method \<in> set [''all'', ''execute'', ''executemany'', ''query'', ''raw'', ''run''] \<and>
            list_ex (\<lambda>h. contains_sub h receiver) sql_receivers then Some ''sql_injection''
         else if n \<in> set command_sinks then Some ''command_injection''
         else if n \<in> set path_sinks then Some ''path_traversal''
         else None)"

definition has_parameter_origin :: "abstract_value \<Rightarrow> bool" where
  "has_parameter_origin v = list_ex (\<lambda>s. starts_with ''parameter: '' (ts_operation s)) (av_trace v)"

definition member_name :: "ast_context \<Rightarrow> syntax_node \<Rightarrow> string" where
  "member_name cx n = opt_text cx (either_field ''property'' ''attribute'' n)"

section \<open>Bindings and parameters\<close>

function binding_identifiers :: "syntax_node \<Rightarrow> syntax_node list" where
  "binding_identifiers n =
     (if nd_type n = ''identifier'' then [n]
      else case either_field ''pattern'' ''name'' n of
          Some target \<Rightarrow> binding_identifiers target
        | None \<Rightarrow>
            if nd_type n \<in> set pattern_types
            then concat (map binding_identifiers
                   (filter (\<lambda>c. nd_type c \<notin> {''type_annotation'', ''predefined_type''}) (named_children n)))
            else [])"
  by pat_completeness auto
termination by (relation "measure size") (auto intro: inner_sizes)

declare binding_identifiers.simps [simp del]

type_synonym taint_env = "(string, abstract_value) dict"

definition bind_parameter :: "ast_context \<Rightarrow> taint_env \<Rightarrow> syntax_node \<Rightarrow> taint_env" where
  "bind_parameter cx env i =
     (let name = node_text cx i; l = place cx i in
      if name = [] \<or> dict_has env name then env
      else dict_set name
        (if lower name \<in> set request_names
         then create_tainted_value l (''request parameter: '' @ name) name
         else create_value l TAINT_UNKNOWN
           [\<lparr>ts_location = l, ts_operation = ''parameter: '' @ name, ts_snippet = name\<rparr>] None) env)"

definition parameter_identifiers :: "syntax_node \<Rightarrow> syntax_node list" where
  "parameter_identifiers f =
     (case child_by_field ''parameters'' f of None \<Rightarrow> []
      | Some ps \<Rightarrow> concat (map binding_identifiers (named_children ps)))"

definition parameter_environment :: "ast_context \<Rightarrow> syntax_node \<Rightarrow> taint_env" where
  "parameter_environment cx f = foldl (bind_parameter cx) [] (parameter_identifiers f)"

section \<open>Evaluation\<close>

text \<open>The body of the callback of \<open>.map(callback)\<close>.\<close>

definition callback_body :: "syntax_node \<Rightarrow> syntax_node option" where
  "callback_body n =
     (case child_by_field ''arguments'' n of None \<Rightarrow> None
      | Some arguments \<Rightarrow>
          (case first_named arguments of None \<Rightarrow> None
           | Some callback \<Rightarrow> if nd_type callback \<in> set function_types then child_by_field ''body'' callback else None))"

text \<open>A callback that yields a constant: the constant, placed at the call.\<close>

definition constant_result :: "source_location \<Rightarrow> abstract_value option \<Rightarrow> abstract_value option" where
  "constant_result l v =
     (case v of None \<Rightarrow> None
      | Some w \<Rightarrow> if av_state w = NOT_TAINTED then Some (create_value l NOT_TAINTED [] (av_constant w)) else None)"

text \<open>The receiver of a call of a transparent method, with the name of the method.\<close>

definition transparent_call :: "ast_context \<Rightarrow> syntax_node \<Rightarrow> (string \<times> syntax_node option) option" where
  "transparent_call cx n =
     (case child_by_field ''function'' n of None \<Rightarrow> None
      | Some f \<Rightarrow>
          if nd_type f \<in> {''attribute'', ''member_expression''} \<and> lower (member_name cx f) \<in> set transparent_methods
          then Some (lower (member_name cx f), child_by_field ''object'' f) else None)"

definition substitutions :: "syntax_node \<Rightarrow> syntax_node list" where
  "substitutions n = filter (\<lambda>c. nd_type c \<in> {''interpolation'', ''template_substitution''}) (named_children n)"

definition is_input_call :: "ast_context \<Rightarrow> syntax_node \<Rightarrow> bool" where
  "is_input_call cx n = (lower (opt_text cx (child_by_field ''function'' n)) \<in> {''input'', ''builtins.input''})"

lemma first_named_in: "first_named n = Some c \<Longrightarrow> c \<in> set (nd_children n)"
  by (auto simp: first_named_def named_children_def split: list.splits dest: filter_eq_ConsD)

lemma callback_body_size: "callback_body n = Some b \<Longrightarrow> size b < size n"
  by (auto simp: callback_body_def split: option.splits if_splits
      dest!: child_by_field_size first_named_in [THEN child_size])

lemma transparent_call_size: "transparent_call cx n = Some (m, Some r) \<Longrightarrow> size r < size n"
  by (auto simp: transparent_call_def split: option.splits if_splits dest!: child_by_field_size)

lemma substitution_size: "c \<in> set (substitutions n) \<Longrightarrow> field_or_first ''expression'' c = Some e \<Longrightarrow> size e < size n"
  using field_or_first_in [THEN child_size] named_child_size by (fastforce simp: substitutions_def)

lemmas evaluation_sizes = callback_body_size transparent_call_size substitution_size inner_sizes

function evaluate :: "ast_context \<Rightarrow> taint_env \<Rightarrow> syntax_node \<Rightarrow> abstract_value option" where
  "evaluate cx env n =
     (let ty = nd_type n; l = place cx n; text = node_text cx n; unknown = Some (create_value l TAINT_UNKNOWN [] None) in
      if ty = ''identifier'' then
        (case dict_get env text of None \<Rightarrow> unknown
         | Some v \<Rightarrow> Some (propagate_taint v l (''reference: '' @ text) text))
      else if ty \<in> set member_types then
        (if is_known_source text then Some (create_tainted_value l (''input source: '' @ text) text)
         else case (case either_field ''object'' ''value'' n of None \<Rightarrow> None | Some c \<Rightarrow> evaluate cx env c) of
             None \<Rightarrow> unknown
           | Some v \<Rightarrow> Some (propagate_taint v l ''member access'' text))
      else if ty \<in> set call_types then
        (if is_input_call cx n then Some (create_tainted_value l ''input source: input()'' text)
         else case transparent_call cx n of None \<Rightarrow> unknown
           | Some (method, receiver) \<Rightarrow>
               (case (if method = ''map''
                      then (case callback_body n of None \<Rightarrow> None | Some b \<Rightarrow> constant_result l (evaluate cx [] b)) else None) of
                  Some v \<Rightarrow> Some v
                | None \<Rightarrow>
                    (case (case receiver of None \<Rightarrow> None | Some r \<Rightarrow> evaluate cx env r) of None \<Rightarrow> unknown
                     | Some w \<Rightarrow> Some (propagate_taint w l (''call preserving input: '' @ method) text))))
      else if ty \<in> set await_types then
        (case field_or_first ''argument'' n of None \<Rightarrow> None | Some c \<Rightarrow> evaluate cx env c)
      else if ty \<in> set text_types then
        (if substitutions n = [] then Some (create_value l NOT_TAINTED [] (Some text))
         else Some (combine_values
           (somes (map (\<lambda>c. case field_or_first ''expression'' c of None \<Rightarrow> None | Some e \<Rightarrow> evaluate cx env e) (substitutions n)))
           l ''string interpolation'' text))
      else if ty \<in> set composite_types then
        Some (combine_values (somes (map (evaluate cx env) (named_children n))) l (ty @ '' composition'') text)
      else if ty \<in> set literal_types then Some (create_value l NOT_TAINTED [] (Some text))
      else unknown)"
  by pat_completeness auto
termination
  by (relation "measure (\<lambda>(cx, env, n). size n)") (auto intro: evaluation_sizes)

declare evaluate.simps [simp del]

section \<open>The walk\<close>

record raw_finding =
  rf_type :: string
  rf_location :: source_location
  rf_snippet :: string
  rf_value :: abstract_value
  rf_reason :: string
  rf_confidence :: pyfloat

record walk_state =
  ws_env :: taint_env
  ws_findings :: "raw_finding list"
  ws_seen :: "(string \<times> int \<times> int) list"

definition float_95 :: pyfloat where "float_95 = (4278419646001971 / 4503599627370496, ''0.95'')"
definition float_three_quarters :: pyfloat where "float_three_quarters = (3 / 4, ''0.75'')"

definition assign_binding :: "ast_context \<Rightarrow> syntax_node option \<Rightarrow> syntax_node option \<Rightarrow> string \<Rightarrow> taint_env \<Rightarrow> taint_env" where
  "assign_binding cx target expression operation env =
     (case target of None \<Rightarrow> env | Some t \<Rightarrow> (case expression of None \<Rightarrow> env | Some e \<Rightarrow>
       (case binding_identifiers t of
          [i] \<Rightarrow> (case evaluate cx env e of None \<Rightarrow> env
            | Some v \<Rightarrow>
                (let name = node_text cx i in
                 if name = [] then env
                 else dict_set name (propagate_taint v (place cx t) (operation @ '': '' @ name) (node_text cx e)) env))
        | _ \<Rightarrow> env)))"

definition sink_call :: "ast_context \<Rightarrow> syntax_node \<Rightarrow> (string \<times> syntax_node) option" where
  "sink_call cx n =
     (case child_by_field ''function'' n of None \<Rightarrow> None | Some f \<Rightarrow>
       (case child_by_field ''arguments'' n of None \<Rightarrow> None | Some arguments \<Rightarrow>
         (case sink_type (node_text cx f) of None \<Rightarrow> None | Some ty \<Rightarrow>
           (case first_named arguments of None \<Rightarrow> None | Some a \<Rightarrow> Some (ty, a)))))"

definition sink_verdict :: "abstract_value \<Rightarrow> (string \<times> pyfloat) option" where
  "sink_verdict v =
     (if av_state v = NOT_TAINTED then None
      else if av_state v = TAINTED then Some (''confirmed input source reaches dangerous sink'', float_95)
      else if has_parameter_origin v
        then Some (''function parameter reaches dangerous sink; caller control is unproven'', float_three_quarters)
      else None)"

definition inspect_sink :: "ast_context \<Rightarrow> syntax_node \<Rightarrow> walk_state \<Rightarrow> walk_state" where
  "inspect_sink cx n s =
     (case sink_call cx n of None \<Rightarrow> s | Some (ty, a) \<Rightarrow>
       (case evaluate cx (ws_env s) a of None \<Rightarrow> s | Some v \<Rightarrow>
         (case sink_verdict v of None \<Rightarrow> s | Some (reason, conf) \<Rightarrow>
           (let l = place cx n; key = (ty, sl_start l, sl_end l) in
            if key \<in> set (ws_seen s) then s
            else s\<lparr>ws_seen := ws_seen s @ [key], ws_findings := ws_findings s @
              [\<lparr>rf_type = ty, rf_location = l, rf_snippet = node_text cx n, rf_value = v,
                rf_reason = reason, rf_confidence = conf\<rparr>]\<rparr>))))"

definition visit_statement :: "ast_context \<Rightarrow> syntax_node \<Rightarrow> walk_state \<Rightarrow> walk_state" where
  "visit_statement cx n s =
     (if nd_type n = ''variable_declarator'' then
        s\<lparr>ws_env := assign_binding cx (child_by_field ''name'' n) (child_by_field ''value'' n) ''variable declaration'' (ws_env s)\<rparr>
      else if nd_type n \<in> set assignment_types then
        s\<lparr>ws_env := assign_binding cx (child_by_field ''left'' n) (child_by_field ''right'' n) ''assignment'' (ws_env s)\<rparr>
      else if nd_type n \<in> set call_types then inspect_sink cx n s
      else s)"

text \<open>\<open>inner\<close>: the node is not the root of the scope.\<close>

function walk_scope :: "ast_context \<Rightarrow> bool \<Rightarrow> syntax_node \<Rightarrow> walk_state \<Rightarrow> walk_state" where
  "walk_scope cx inner n s =
     (if inner \<and> nd_type n \<in> set function_types then s
      else foldl (\<lambda>s c. walk_scope cx True c s) (visit_statement cx n s) (named_children n))"
  by pat_completeness auto
termination
  by (relation "measure (\<lambda>(cx, inner, n, s). size n)") (auto intro: node_sizes)

declare walk_scope.simps [simp del]

function collect_functions :: "syntax_node \<Rightarrow> syntax_node list" where
  "collect_functions n =
     (if nd_type n \<in> set function_types then [n] else []) @ concat (map collect_functions (named_children n))"
  by pat_completeness auto
termination by (relation "measure size") (auto intro: node_sizes)

declare collect_functions.simps [simp del]

definition analyze_function :: "ast_context \<Rightarrow> walk_state \<Rightarrow> syntax_node \<Rightarrow> walk_state" where
  "analyze_function cx s f =
     (case child_by_field ''body'' f of None \<Rightarrow> s
      | Some body \<Rightarrow> walk_scope cx False body (s\<lparr>ws_env := parameter_environment cx f\<rparr>))"

definition analyze_and_find_findings :: "ast_context \<Rightarrow> syntax_node \<Rightarrow> raw_finding list" where
  "analyze_and_find_findings cx n =
     ws_findings (foldl (analyze_function cx)
       (walk_scope cx False n \<lparr>ws_env = [], ws_findings = [], ws_seen = []\<rparr>) (collect_functions n))"

end
