(* ===== verification/TaintSound.thy ===== *)
theory TaintSound
  imports Taint
begin

text \<open>
  What the taint analysis guarantees. Every reported value is traced through the syntax tree, and a
  confirmed one passes through a place where input enters; the result is monotone in the taint of the
  environment; no sink is reported twice. The last section shows where the analysis loses taint.
\<close>

section \<open>Where input enters\<close>

definition input_node :: "ast_context \<Rightarrow> syntax_node \<Rightarrow> bool" where
  "input_node cx n =
     (nd_type n \<in> set member_types \<and> is_known_source (node_text cx n) \<or> nd_type n \<in> set call_types \<and> is_input_call cx n)"

definition request_parameter :: "ast_context \<Rightarrow> syntax_node \<Rightarrow> syntax_node \<Rightarrow> bool" where
  "request_parameter cx t n =
     (lower (node_text cx n) \<in> set request_names \<and> (\<exists>f\<in>set (collect_functions t). n \<in> set (parameter_identifiers f)))"

definition node_key :: "ast_context \<Rightarrow> syntax_node \<Rightarrow> string \<times> int \<times> int" where
  "node_key cx n = (ac_file cx, int (nd_start n), int (nd_end n))"

definition input_keys :: "ast_context \<Rightarrow> syntax_node \<Rightarrow> (string \<times> int \<times> int) set" where
  "input_keys cx t = node_key cx ` {n \<in> subnodes t. input_node cx n \<or> request_parameter cx t n}"

definition traced :: "ast_context \<Rightarrow> syntax_node \<Rightarrow> abstract_value \<Rightarrow> bool" where
  "traced cx t v =
     (ts_location ` set (av_trace v) \<subseteq> place cx ` subnodes t \<and>
      (av_state v = TAINTED \<longrightarrow> location_key ` set (av_trace v) \<inter> input_keys cx t \<noteq> {}))"

definition env_traced :: "ast_context \<Rightarrow> syntax_node \<Rightarrow> taint_env \<Rightarrow> bool" where
  "env_traced cx t env = (\<forall>x v. dict_get env x = Some v \<longrightarrow> traced cx t v)"

lemma location_key_node [simp]: "location_key \<lparr>ts_location = place cx n, ts_operation = op, ts_snippet = s\<rparr> = node_key cx n"
  by (simp add: location_key_def location_from_node_def node_key_def)

lemma traced_clean: "t' \<noteq> TAINTED \<Longrightarrow> traced cx t (create_value l t' [] c)"
  by (simp add: traced_def create_value_def)

lemma traced_tainted:
  "n \<in> subnodes t \<Longrightarrow> input_node cx n \<or> request_parameter cx t n \<Longrightarrow>
     traced cx t (create_tainted_value (place cx n) d s)"
  by (auto simp: traced_def create_tainted_value_def input_keys_def)

lemma traced_propagate: "traced cx t v \<Longrightarrow> n \<in> subnodes t \<Longrightarrow> traced cx t (propagate_taint v (place cx n) op s)"
  by (auto simp: traced_def propagate_taint_def)

lemma traced_combine:
  assumes "\<forall>v\<in>set vs. traced cx t v" "n \<in> subnodes t"
  shows "traced cx t (combine_values vs (place cx n) op s)"
proof -
  let ?c = "combine_values vs (place cx n) op s"
  have "set (av_trace ?c) \<subseteq> (\<Union>v\<in>set vs. set (av_trace v)) \<union> {\<lparr>ts_location = place cx n, ts_operation = op, ts_snippet = s\<rparr>}"
    using set_dedup_by_subset [of location_key "[]" "concat (map av_trace vs)"]
    by (auto simp: combine_values_def create_value_def)
  then have places: "ts_location ` set (av_trace ?c) \<subseteq> place cx ` subnodes t"
    using assms by (fastforce simp: traced_def)
  have "location_key ` set (av_trace ?c) \<inter> input_keys cx t \<noteq> {}" if tainted: "av_state ?c = TAINTED"
  proof -
    obtain v where v: "v \<in> set vs" "av_state v = TAINTED"
      using foldl_combine_in [of NOT_TAINTED "map av_state vs"] tainted by auto
    then have "location_key ` set (av_trace v) \<inter> input_keys cx t \<noteq> {}"
      using assms(1) by (auto simp: traced_def)
    then show ?thesis using combine_keys [of vs "place cx n" op s] v(1) by blast
  qed
  then show ?thesis using places by (simp add: traced_def)
qed

lemma set_somes: "v \<in> set (somes xs) \<longleftrightarrow> Some v \<in> set xs"
  by (force simp: somes_def map_filter_def)

lemma transparent_call_in:
  assumes "transparent_call cx n = Some (m, Some r)" "n \<in> subnodes t"
  shows "r \<in> subnodes t"
  using assms by (auto simp: transparent_call_def split: option.splits if_splits dest: field_in_tree)

lemma substitution_in:
  assumes "c \<in> set (substitutions n)" "field_or_first f c = Some e" "n \<in> subnodes t"
  shows "e \<in> subnodes t"
proof -
  have "c \<in> subnodes t" using assms(1,3) named_in_tree by (auto simp: substitutions_def)
  then show ?thesis using assms(2) child_in_tree field_or_first_in by blast
qed

lemma env_traced_Nil [simp]: "env_traced cx t []"
  by (simp add: env_traced_def)

lemma env_traced_get: "env_traced cx t env \<Longrightarrow> dict_get env x = Some v \<Longrightarrow> traced cx t v"
  by (simp add: env_traced_def)

lemma env_traced_set: "env_traced cx t env \<Longrightarrow> traced cx t v \<Longrightarrow> env_traced cx t (dict_set x v env)"
  by (simp add: env_traced_def)

lemma constant_result_traced: "constant_result l v = Some w \<Longrightarrow> traced cx t w"
  by (auto simp: constant_result_def traced_clean split: option.splits if_splits)

lemmas traced_intros = traced_clean traced_tainted traced_propagate traced_combine env_traced_get constant_result_traced

section \<open>Evaluation, one kind of node at a time\<close>

lemmas type_lists = member_types_def call_types_def await_types_def text_types_def composite_types_def literal_types_def

definition inner_value :: "ast_context \<Rightarrow> taint_env \<Rightarrow> syntax_node option \<Rightarrow> abstract_value option" where
  "inner_value cx env n = (case n of None \<Rightarrow> None | Some c \<Rightarrow> evaluate cx env c)"

abbreviation unknown_at :: "ast_context \<Rightarrow> syntax_node \<Rightarrow> abstract_value" where
  "unknown_at cx n \<equiv> create_value (place cx n) TAINT_UNKNOWN [] None"

definition derived :: "ast_context \<Rightarrow> syntax_node \<Rightarrow> string \<Rightarrow> string \<Rightarrow> abstract_value option \<Rightarrow> abstract_value" where
  "derived cx n op s v = (case v of None \<Rightarrow> unknown_at cx n | Some w \<Rightarrow> propagate_taint w (place cx n) op s)"

definition mapped_constant :: "ast_context \<Rightarrow> syntax_node \<Rightarrow> string \<Rightarrow> abstract_value option" where
  "mapped_constant cx n method =
     (if method = ''map'' then constant_result (place cx n) (inner_value cx [] (callback_body n)) else None)"

lemma kinds_apart:
  "''identifier'' \<notin> set member_types" "''identifier'' \<notin> set call_types" "''identifier'' \<notin> set await_types"
  "''identifier'' \<notin> set text_types" "''identifier'' \<notin> set composite_types" "''identifier'' \<notin> set literal_types"
  by (simp_all add: type_lists)

lemma apart_calls: "x \<in> set call_types \<Longrightarrow> x \<notin> set member_types"
  by (auto simp: call_types_def member_types_def)

lemma apart_awaits: "x \<in> set await_types \<Longrightarrow> x \<notin> set member_types \<union> set call_types"
  by (auto simp: call_types_def member_types_def await_types_def)

lemma apart_texts: "x \<in> set text_types \<Longrightarrow> x \<notin> set member_types \<union> set call_types \<union> set await_types"
  by (auto simp: call_types_def member_types_def await_types_def text_types_def)

lemma apart_composites:
  "x \<in> set composite_types \<Longrightarrow> x \<notin> set member_types \<union> set call_types \<union> set await_types \<union> set text_types"
  by (auto simp: call_types_def member_types_def await_types_def text_types_def composite_types_def)

lemma apart_literals:
  "x \<in> set literal_types \<Longrightarrow>
     x \<notin> set member_types \<union> set call_types \<union> set await_types \<union> set text_types \<union> set composite_types"
  by (auto simp: type_lists)

lemmas evaluate_eq = evaluate.simps [unfolded Let_def]

lemma evaluate_identifier:
  "nd_type n = ''identifier'' \<Longrightarrow> evaluate cx env n =
     Some (derived cx n (''reference: '' @ node_text cx n) (node_text cx n) (dict_get env (node_text cx n)))"
  by (subst evaluate_eq) (simp add: derived_def split: option.split)

lemma evaluate_member:
  assumes "nd_type n \<in> set member_types"
  shows "evaluate cx env n =
     Some (if is_known_source (node_text cx n)
           then create_tainted_value (place cx n) (''input source: '' @ node_text cx n) (node_text cx n)
           else derived cx n ''member access'' (node_text cx n) (inner_value cx env (either_field ''object'' ''value'' n)))"
proof -
  have "nd_type n \<noteq> ''identifier''" using assms kinds_apart by metis
  then show ?thesis using assms
    by (subst evaluate_eq) (simp add: derived_def inner_value_def split: option.split)
qed

lemma evaluate_call:
  assumes "nd_type n \<in> set call_types"
  shows "evaluate cx env n =
     Some (if is_input_call cx n then create_tainted_value (place cx n) ''input source: input()'' (node_text cx n)
           else case transparent_call cx n of None \<Rightarrow> unknown_at cx n
             | Some (method, receiver) \<Rightarrow>
                 (case mapped_constant cx n method of Some v \<Rightarrow> v
                  | None \<Rightarrow> derived cx n (''call preserving input: '' @ method) (node_text cx n) (inner_value cx env receiver)))"
proof -
  have "nd_type n \<noteq> ''identifier''" using assms kinds_apart by metis
  then show ?thesis using assms apart_calls [OF assms]
    by (subst evaluate_eq)
       (simp add: derived_def inner_value_def mapped_constant_def constant_result_def split: option.split prod.split)
qed

lemma evaluate_await:
  assumes "nd_type n \<in> set await_types"
  shows "evaluate cx env n = inner_value cx env (field_or_first ''argument'' n)"
proof -
  have "nd_type n \<noteq> ''identifier''" using assms kinds_apart by metis
  then show ?thesis using assms apart_awaits [OF assms]
    by (subst evaluate_eq) (simp add: inner_value_def)
qed

lemma evaluate_text:
  assumes "nd_type n \<in> set text_types"
  shows "evaluate cx env n =
     Some (if substitutions n = [] then create_value (place cx n) NOT_TAINTED [] (Some (node_text cx n))
           else combine_values (somes (map (\<lambda>c. inner_value cx env (field_or_first ''expression'' c)) (substitutions n)))
             (place cx n) ''string interpolation'' (node_text cx n))"
proof -
  have "nd_type n \<noteq> ''identifier''" using assms kinds_apart by metis
  then show ?thesis using assms apart_texts [OF assms]
    by (subst evaluate_eq) (simp add: inner_value_def [abs_def])
qed

lemma evaluate_composite:
  assumes "nd_type n \<in> set composite_types"
  shows "evaluate cx env n =
     Some (combine_values (somes (map (evaluate cx env) (named_children n))) (place cx n)
       (nd_type n @ '' composition'') (node_text cx n))"
proof -
  have "nd_type n \<noteq> ''identifier''" using assms kinds_apart by metis
  then show ?thesis using assms apart_composites [OF assms]
    by (subst evaluate_eq) simp
qed

lemma evaluate_literal:
  assumes "nd_type n \<in> set literal_types"
  shows "evaluate cx env n = Some (create_value (place cx n) NOT_TAINTED [] (Some (node_text cx n)))"
proof -
  have "nd_type n \<noteq> ''identifier''" using assms kinds_apart by metis
  then show ?thesis using assms apart_literals [OF assms]
    by (subst evaluate_eq) simp
qed

lemma evaluate_other:
  "nd_type n \<noteq> ''identifier'' \<Longrightarrow>
     nd_type n \<notin> set (member_types @ call_types @ await_types @ text_types @ composite_types @ literal_types) \<Longrightarrow>
     evaluate cx env n = Some (unknown_at cx n)"
  by (subst evaluate_eq) simp

lemma node_kinds:
  fixes n :: syntax_node
  obtains (name) "nd_type n = ''identifier''" | (member) "nd_type n \<in> set member_types"
  | (call) "nd_type n \<in> set call_types" | (await) "nd_type n \<in> set await_types" | (string) "nd_type n \<in> set text_types"
  | (composite) "nd_type n \<in> set composite_types" | (literal) "nd_type n \<in> set literal_types"
  | (other) "nd_type n \<noteq> ''identifier''"
      "nd_type n \<notin> set (member_types @ call_types @ await_types @ text_types @ composite_types @ literal_types)"
  by fastforce

lemma inner_value_SomeE:
  assumes "inner_value cx env c = Some v"
  obtains m where "c = Some m" "evaluate cx env m = Some v"
  using assms by (auto simp: inner_value_def split: option.splits)

lemma derived_traced: "n \<in> subnodes t \<Longrightarrow> (\<And>w. v = Some w \<Longrightarrow> traced cx t w) \<Longrightarrow> traced cx t (derived cx n op s v)"
  by (auto simp: derived_def intro: traced_intros split: option.split)

lemma evaluate_traced:
  "n \<in> subnodes t \<Longrightarrow> env_traced cx t env \<Longrightarrow> evaluate cx env n = Some v \<Longrightarrow> traced cx t v"
proof (induction n arbitrary: env v rule: measure_induct_rule [where f = size])
  case (less n)
  have inner: "traced cx t w" if "inner_value cx env c = Some w" "\<And>m. c = Some m \<Longrightarrow> size m < size n \<and> m \<in> subnodes t" for c w
    using that less by (auto elim!: inner_value_SomeE)
  note tree = less.prems(1)
  have child: "size m < size n \<and> m \<in> subnodes t" if "m \<in> set (nd_children n)" for m
    using that tree child_in_tree child_size by blast
  show ?case
  proof (cases n rule: node_kinds)
    case name
    then show ?thesis using less.prems by (auto simp: evaluate_identifier intro!: derived_traced intro: env_traced_get)
  next
    case member
    have "traced cx t (derived cx n op s (inner_value cx env (either_field ''object'' ''value'' n)))" for op s
      by (rule derived_traced [OF tree]) (auto dest!: inner either_field_in child)
    then show ?thesis using member less.prems by (auto simp: evaluate_member input_node_def intro: traced_tainted split: if_splits)
  next
    case call
    have "traced cx t (derived cx n op s (inner_value cx env r))" if "transparent_call cx n = Some (m, r)" for op s m r
      by (rule derived_traced [OF tree]) (use that tree in \<open>auto dest!: inner intro: transparent_call_size transparent_call_in\<close>)
    then show ?thesis using call less.prems
      by (auto simp: evaluate_call input_node_def mapped_constant_def intro: traced_tainted traced_clean constant_result_traced
          split: if_splits option.splits)
  next
    case await
    then show ?thesis using less.prems by (auto simp: evaluate_await dest!: inner field_or_first_in child)
  next
    case string
    have "traced cx t w" if "c \<in> set (substitutions n)" "inner_value cx env (field_or_first ''expression'' c) = Some w" for c w
      using inner [OF that(2)] that(1) substitution_size substitution_in tree by blast
    then show ?thesis using string less.prems
      by (auto simp: evaluate_text set_somes intro!: traced_clean traced_combine split: if_splits)
  next
    case composite
    have "traced cx t w" if "c \<in> set (named_children n)" "evaluate cx env c = Some w" for c w
      using that less child named_child_in by blast
    then show ?thesis using composite less.prems by (auto simp: evaluate_composite set_somes intro!: traced_combine)
  next
    case literal
    then show ?thesis using less.prems by (auto simp: evaluate_literal intro: traced_clean)
  next
    case other
    then show ?thesis using less.prems by (auto simp: evaluate_other intro: traced_clean)
  qed
qed

section \<open>Reports are evidenced\<close>

definition report_key :: "raw_finding \<Rightarrow> string \<times> int \<times> int" where
  "report_key r = (rf_type r, sl_start (rf_location r), sl_end (rf_location r))"

definition reported :: "ast_context \<Rightarrow> syntax_node \<Rightarrow> raw_finding \<Rightarrow> bool" where
  "reported cx t r =
     (traced cx t (rf_value r) \<and> sink_verdict (rf_value r) = Some (rf_reason r, rf_confidence r) \<and>
      (\<exists>n\<in>subnodes t. \<exists>a. nd_type n \<in> set call_types \<and> sink_call cx n = Some (rf_type r, a) \<and>
         rf_location r = place cx n \<and> rf_snippet r = node_text cx n))"

definition walk_ok :: "ast_context \<Rightarrow> syntax_node \<Rightarrow> walk_state \<Rightarrow> bool" where
  "walk_ok cx t s =
     (env_traced cx t (ws_env s) \<and> (\<forall>r\<in>set (ws_findings s). reported cx t r) \<and>
      ws_seen s = map report_key (ws_findings s) \<and> distinct (map report_key (ws_findings s)))"

lemma binding_identifiers_in: "i \<in> set (binding_identifiers n) \<Longrightarrow> i \<in> subnodes n"
proof (induction n rule: binding_identifiers.induct)
  case (1 n)
  show ?case
  proof (cases "nd_type n = ''identifier''")
    case True
    then show ?thesis using 1(3) by (simp add: binding_identifiers.simps [of n])
  next
    case False
    show ?thesis
    proof (cases "either_field ''pattern'' ''name'' n")
      case None
      then obtain c where "c \<in> set (named_children n)" "i \<in> subnodes c"
        using 1 False by (auto simp: binding_identifiers.simps [of n] split: if_splits)
      then show ?thesis using subnodes_child named_child_in by blast
    next
      case (Some c)
      then have "i \<in> subnodes c" using 1 False by (simp add: binding_identifiers.simps [of n])
      then show ?thesis using Some subnodes_child either_field_in by blast
    qed
  qed
qed

lemma parameter_identifiers_in: "i \<in> set (parameter_identifiers f) \<Longrightarrow> i \<in> subnodes f"
proof -
  assume "i \<in> set (parameter_identifiers f)"
  then obtain ps p where p: "child_by_field ''parameters'' f = Some ps" "p \<in> set (named_children ps)" "i \<in> set (binding_identifiers p)"
    by (cases "child_by_field ''parameters'' f") (auto simp: parameter_identifiers_def)
  then have "p \<in> subnodes f" using field_in_tree named_in_tree subnodes_self by blast
  then show "i \<in> subnodes f" using p(3) binding_identifiers_in subnodes_trans by blast
qed

lemma collect_functions_in: "f \<in> set (collect_functions n) \<Longrightarrow> f \<in> subnodes n"
proof (induction n rule: collect_functions.induct)
  case (1 n)
  then show ?case using subnodes_child named_child_in
    by (auto simp: collect_functions.simps [of n] split: if_splits) blast+
qed

lemma parameter_environment_traced:
  assumes "f \<in> set (collect_functions t)"
  shows "env_traced cx t (parameter_environment cx f)"
proof -
  have bind: "env_traced cx t (bind_parameter cx env i)"
    if "env_traced cx t env" "i \<in> set (parameter_identifiers f)" for env i
  proof -
    have "i \<in> subnodes t"
      using that(2) parameter_identifiers_in collect_functions_in assms subnodes_trans by blast
    moreover have "request_parameter cx t i" if "lower (node_text cx i) \<in> set request_names"
      using that assms \<open>i \<in> set (parameter_identifiers f)\<close> by (auto simp: request_parameter_def)
    moreover have "traced cx t (create_value (place cx i) TAINT_UNKNOWN
        [\<lparr>ts_location = place cx i, ts_operation = op, ts_snippet = x\<rparr>] None)" for op x
      using \<open>i \<in> subnodes t\<close> by (auto simp: traced_def create_value_def)
    ultimately show ?thesis using that(1)
      by (auto simp: bind_parameter_def Let_def intro!: env_traced_set traced_tainted)
  qed
  then show ?thesis
    unfolding parameter_environment_def by (intro foldl_invariant [where P = "env_traced cx t"]) auto
qed

lemma assign_binding_traced:
  assumes "env_traced cx t env" "\<And>m. target = Some m \<Longrightarrow> m \<in> subnodes t" "\<And>m. value = Some m \<Longrightarrow> m \<in> subnodes t"
  shows "env_traced cx t (assign_binding cx target value op env)"
  using assms
  by (auto simp: assign_binding_def Let_def intro!: env_traced_set traced_propagate dest: evaluate_traced
      split: option.split list.split)

lemma sink_call_in: "sink_call cx n = Some (ty, a) \<Longrightarrow> n \<in> subnodes t \<Longrightarrow> a \<in> subnodes t"
proof -
  assume sink: "sink_call cx n = Some (ty, a)" and n: "n \<in> subnodes t"
  then obtain m where "child_by_field ''arguments'' n = Some m" "first_named m = Some a"
    by (auto simp: sink_call_def split: option.splits)
  then show "a \<in> subnodes t" using n field_in_tree first_named_in child_in_tree by blast
qed

lemma inspect_sink_ok:
  assumes "walk_ok cx t s" "n \<in> subnodes t" "nd_type n \<in> set call_types"
  shows "walk_ok cx t (inspect_sink cx n s)"
proof -
  have "traced cx t v" if "sink_call cx n = Some (ty, a)" "evaluate cx (ws_env s) a = Some v" for ty a v
    using evaluate_traced [OF sink_call_in [OF that(1) assms(2)] _ that(2)] assms(1) by (simp add: walk_ok_def)
  then show ?thesis using assms
    by (auto simp: inspect_sink_def walk_ok_def reported_def report_key_def Let_def split: option.split)
qed

lemma visit_node_ok:
  assumes "walk_ok cx t s" "n \<in> subnodes t"
  shows "walk_ok cx t (visit_statement cx n s)"
proof -
  have "env_traced cx t (assign_binding cx (child_by_field f n) (child_by_field g n) op (ws_env s))" for f g op
    using assms by (auto simp: walk_ok_def intro!: assign_binding_traced dest: field_in_tree)
  then have "walk_ok cx t (s\<lparr>ws_env := assign_binding cx (child_by_field f n) (child_by_field g n) op (ws_env s)\<rparr>)" for f g op
    using assms(1) by (simp add: walk_ok_def)
  then show ?thesis using assms inspect_sink_ok by (simp add: visit_statement_def)
qed

lemma walk_scope_ok: "walk_ok cx t s \<Longrightarrow> n \<in> subnodes t \<Longrightarrow> walk_ok cx t (walk_scope cx inner n s)"
proof (induction n arbitrary: s inner rule: measure_induct_rule [where f = size])
  case (less n)
  have "walk_ok cx t (foldl (\<lambda>s c. walk_scope cx True c s) (visit_statement cx n s) (named_children n))"
    using visit_node_ok [OF less.prems] less.IH named_child_size named_in_tree [OF less.prems(2)]
    by (intro foldl_invariant [where P = "walk_ok cx t"]) auto
  then show ?case using less.prems by (simp add: walk_scope.simps [of cx inner n])
qed

lemma analysis_ok: "walk_ok cx t (foldl (analyze_function cx)
    (walk_scope cx False t \<lparr>ws_env = [], ws_findings = [], ws_seen = []\<rparr>) (collect_functions t))"
proof (rule foldl_invariant [where P = "walk_ok cx t"])
  show "walk_ok cx t (walk_scope cx False t \<lparr>ws_env = [], ws_findings = [], ws_seen = []\<rparr>)"
    by (rule walk_scope_ok) (simp_all add: walk_ok_def)
next
  fix s f assume "walk_ok cx t s" "f \<in> set (collect_functions t)"
  then show "walk_ok cx t (analyze_function cx s f)"
    using parameter_environment_traced [of f t cx] collect_functions_in [of f t]
    by (auto simp: analyze_function_def walk_ok_def dest: field_in_tree intro!: walk_scope_ok [unfolded walk_ok_def]
        split: option.split)
qed

section \<open>The analysis is monotone\<close>

text \<open>The same names, and a taint state at least as high for each.\<close>

abbreviation state_le :: "abstract_value \<Rightarrow> abstract_value \<Rightarrow> bool" where
  "state_le v w \<equiv> av_state v \<le> av_state w"

definition env_le :: "taint_env \<Rightarrow> taint_env \<Rightarrow> bool" where
  "env_le a b = list_all2 (\<lambda>(x, v) (y, w). x = y \<and> state_le v w) a b"

lemma env_le_get: "env_le a b \<Longrightarrow> rel_option state_le (dict_get a x) (dict_get b x)"
  unfolding env_le_def by (induction rule: list_all2_induct) (auto simp: dict_get_Cons)

lemma env_le_set:
  assumes "env_le a b" "state_le v w"
  shows "env_le (dict_set x v a) (dict_set x w b)"
  using assms unfolding env_le_def dict_set_def by (induction rule: list_all2_induct) auto

lemma list_all2_somes: "list_all2 (rel_option r) xs ys \<Longrightarrow> list_all2 r (somes xs) (somes ys)"
  by (induction rule: list_all2_induct) (auto simp: somes_def map_filter_simps elim: option.rel_cases)

lemma foldl_combine_mono:
  assumes "list_all2 state_le vs ws" "s \<le> s'"
  shows "foldl combine s (map av_state vs) \<le> foldl combine s' (map av_state ws)"
  using assms
proof (induction arbitrary: s s' rule: list_all2_induct)
  case (Cons v vs w ws)
  then show ?case by (simp add: combine_sup sup.mono del: sup.bounded_iff)
qed simp

lemma combine_values_mono:
  "list_all2 (rel_option state_le) xs ys \<Longrightarrow>
     state_le (combine_values (somes xs) l op s) (combine_values (somes ys) l op s)"
  by (simp add: foldl_combine_mono list_all2_somes)

lemma derived_mono: "rel_option state_le a b \<Longrightarrow> state_le (derived cx n op s a) (derived cx n op s b)"
  by (auto simp: derived_def propagate_taint_def create_value_def elim: option.rel_cases)

lemma evaluate_mono: "env_le a b \<Longrightarrow> rel_option state_le (evaluate cx a n) (evaluate cx b n)"
proof (induction n rule: measure_induct_rule [where f = size])
  case (less n)
  have inner: "rel_option state_le (inner_value cx a c) (inner_value cx b c)" if "\<And>m. c = Some m \<Longrightarrow> size m < size n" for c
    using that less by (cases c) (auto simp: inner_value_def)
  show ?case
  proof (cases n rule: node_kinds)
    case name
    then show ?thesis by (simp add: evaluate_identifier derived_mono env_le_get less.prems)
  next
    case member
    then show ?thesis by (auto simp: evaluate_member intro!: derived_mono inner dest: either_field_in child_size)
  next
    case call
    then show ?thesis
      by (auto simp: evaluate_call intro!: derived_mono inner transparent_call_size split: option.split)
  next
    case await
    then show ?thesis by (auto simp: evaluate_await intro!: inner dest: field_or_first_in child_size)
  next
    case string
    then show ?thesis
      by (auto simp: evaluate_text list.rel_map simp del: combine_state intro!: combine_values_mono inner list.rel_refl_strong substitution_size)
  next
    case composite
    then show ?thesis
      by (auto simp: evaluate_composite list.rel_map simp del: combine_state intro!: combine_values_mono list.rel_refl_strong less named_child_size)
  qed (simp_all add: evaluate_literal evaluate_other)
qed

lemma assign_binding_mono:
  assumes "env_le a b"
  shows "env_le (assign_binding cx target value op a) (assign_binding cx target value op b)"
proof -
  have "env_le (dict_set x (propagate_taint v l o1 s) a) (dict_set x (propagate_taint w l o1 s) b)" if "state_le v w" for x v w l o1 s
    using that assms by (intro env_le_set) (simp_all add: propagate_taint_def)
  then show ?thesis using assms evaluate_mono [OF assms, of cx "the value"]
    by (auto simp: assign_binding_def Let_def elim: option.rel_cases split: option.splits list.split)
qed

lemma inspect_sink_env [simp]: "ws_env (inspect_sink cx n s) = ws_env s"
  by (simp add: inspect_sink_def Let_def split: option.split prod.split)

lemma visit_node_mono: "env_le (ws_env s) (ws_env s') \<Longrightarrow> env_le (ws_env (visit_statement cx n s)) (ws_env (visit_statement cx n s'))"
  by (simp add: visit_statement_def assign_binding_mono)

lemma walk_scope_mono:
  "env_le (ws_env s) (ws_env s') \<Longrightarrow> env_le (ws_env (walk_scope cx inner n s)) (ws_env (walk_scope cx inner n s'))"
proof (induction n arbitrary: s s' inner rule: measure_induct_rule [where f = size])
  case (less n)
  have "env_le (ws_env (foldl (\<lambda>s c. walk_scope cx True c s) s cs)) (ws_env (foldl (\<lambda>s c. walk_scope cx True c s) s' cs))"
    if "\<forall>c\<in>set cs. size c < size n" "env_le (ws_env s) (ws_env s')" for cs s s'
    using that by (induction cs arbitrary: s s') (simp_all add: less.IH)
  then show ?case
    using less.prems named_child_size visit_node_mono by (simp add: walk_scope.simps [of cx inner n])
qed

section \<open>Sample trees\<close>

text \<open>A function that keeps the result of a query in a variable; in the second source it is the argument's own.\<close>

definition query_tree :: syntax_node where
  "query_tree =
    Node ''module'' 0 27 (0, 0) (0, 27) True None [
      Node ''function_definition'' 0 27 (0, 0) (0, 27) True None [
        Node ''identifier'' 4 5 (0, 4) (0, 5) True (Some ''name'') [],
        Node ''parameters'' 5 8 (0, 5) (0, 8) True (Some ''parameters'') [
          Node ''identifier'' 6 7 (0, 6) (0, 7) True None []],
        Node ''block'' 10 27 (0, 10) (0, 27) True (Some ''body'') [
          Node ''expression_statement'' 10 27 (0, 10) (0, 27) True None [
            Node ''assignment'' 10 27 (0, 10) (0, 27) True None [
              Node ''identifier'' 10 11 (0, 10) (0, 11) True (Some ''left'') [],
              Node ''call'' 14 27 (0, 14) (0, 27) True (Some ''right'') [
                Node ''attribute'' 14 24 (0, 14) (0, 24) True (Some ''function'') [
                  Node ''identifier'' 14 16 (0, 14) (0, 16) True (Some ''object'') [],
                  Node ''identifier'' 17 24 (0, 17) (0, 24) True (Some ''attribute'') []],
                Node ''argument_list'' 24 27 (0, 24) (0, 27) True (Some ''arguments'') [
                  Node ''identifier'' 25 26 (0, 25) (0, 26) True None []]]]]]]]"

definition kept_source :: ast_context where
  "kept_source = create_ast_context ''a.py'' ''def f(q): r = db.execute(q)''"

definition rebound_source :: ast_context where
  "rebound_source = create_ast_context ''a.py'' ''def f(q): q = db.execute(q)''"

text \<open>A query that is extended in place.\<close>

definition extended_source :: ast_context where
  "extended_source = create_ast_context ''a.py'' ''def f(req): q = req.body; q += 1; db.execute(q)''"

definition extended_tree :: syntax_node where
  "extended_tree =
    Node ''module'' 0 47 (0, 0) (0, 47) True None [
      Node ''function_definition'' 0 47 (0, 0) (0, 47) True None [
        Node ''identifier'' 4 5 (0, 4) (0, 5) True (Some ''name'') [],
        Node ''parameters'' 5 10 (0, 5) (0, 10) True (Some ''parameters'') [
          Node ''identifier'' 6 9 (0, 6) (0, 9) True None []],
        Node ''block'' 12 47 (0, 12) (0, 47) True (Some ''body'') [
          Node ''expression_statement'' 12 24 (0, 12) (0, 24) True None [
            Node ''assignment'' 12 24 (0, 12) (0, 24) True None [
              Node ''identifier'' 12 13 (0, 12) (0, 13) True (Some ''left'') [],
              Node ''attribute'' 16 24 (0, 16) (0, 24) True (Some ''right'') [
                Node ''identifier'' 16 19 (0, 16) (0, 19) True (Some ''object'') [],
                Node ''identifier'' 20 24 (0, 20) (0, 24) True (Some ''attribute'') []]]],
          Node ''expression_statement'' 26 32 (0, 26) (0, 32) True None [
            Node ''augmented_assignment'' 26 32 (0, 26) (0, 32) True None [
              Node ''identifier'' 26 27 (0, 26) (0, 27) True (Some ''left'') [],
              Node ''integer'' 31 32 (0, 31) (0, 32) True (Some ''right'') []]],
          Node ''expression_statement'' 34 47 (0, 34) (0, 47) True None [
            Node ''call'' 34 47 (0, 34) (0, 47) True None [
              Node ''attribute'' 34 44 (0, 34) (0, 44) True (Some ''function'') [
                Node ''identifier'' 34 36 (0, 34) (0, 36) True (Some ''object'') [],
                Node ''identifier'' 37 44 (0, 37) (0, 44) True (Some ''attribute'') []],
              Node ''argument_list'' 44 47 (0, 44) (0, 47) True (Some ''arguments'') [
                Node ''identifier'' 45 46 (0, 45) (0, 46) True None []]]]]]]"

text \<open>A query composed of a constant and an input.\<close>

definition composed_source :: ast_context where
  "composed_source = create_ast_context ''a.py'' ''def f(req): a = 1; db.execute(a + req.body)''"

definition composed_tree :: syntax_node where
  "composed_tree =
    Node ''module'' 0 43 (0, 0) (0, 43) True None [
      Node ''function_definition'' 0 43 (0, 0) (0, 43) True None [
        Node ''identifier'' 4 5 (0, 4) (0, 5) True (Some ''name'') [],
        Node ''parameters'' 5 10 (0, 5) (0, 10) True (Some ''parameters'') [
          Node ''identifier'' 6 9 (0, 6) (0, 9) True None []],
        Node ''block'' 12 43 (0, 12) (0, 43) True (Some ''body'') [
          Node ''expression_statement'' 12 17 (0, 12) (0, 17) True None [
            Node ''assignment'' 12 17 (0, 12) (0, 17) True None [
              Node ''identifier'' 12 13 (0, 12) (0, 13) True (Some ''left'') [],
              Node ''integer'' 16 17 (0, 16) (0, 17) True (Some ''right'') []]],
          Node ''expression_statement'' 19 43 (0, 19) (0, 43) True None [
            Node ''call'' 19 43 (0, 19) (0, 43) True None [
              Node ''attribute'' 19 29 (0, 19) (0, 29) True (Some ''function'') [
                Node ''identifier'' 19 21 (0, 19) (0, 21) True (Some ''object'') [],
                Node ''identifier'' 22 29 (0, 22) (0, 29) True (Some ''attribute'') []],
              Node ''argument_list'' 29 43 (0, 29) (0, 43) True (Some ''arguments'') [
                Node ''binary_operator'' 30 42 (0, 30) (0, 42) True None [
                  Node ''identifier'' 30 31 (0, 30) (0, 31) True (Some ''left'') [],
                  Node ''attribute'' 34 42 (0, 34) (0, 42) True (Some ''right'') [
                    Node ''identifier'' 34 37 (0, 34) (0, 37) True (Some ''object'') [],
                    Node ''identifier'' 38 42 (0, 38) (0, 42) True (Some ''attribute'') []]]]]]]]]"

section \<open>Properties\<close>

text \<open>
  C7: Every sink report of the taint analysis is evidenced in the file: it stands at a call of the tree
  whose callee names a sink of the reported kind; every step of its trace stands at a node of the tree;
  and it is either confirmed, at confidence 0.95, when the trace passes through a place where request or
  console input enters, or marked unproven, at 0.75, when the trace starts from a parameter step.
\<close>

theorem taint_reports_evidenced:
  assumes "r \<in> set (analyze_and_find_findings cx t)"
  shows "(\<exists>n\<in>subnodes t. \<exists>f. nd_type n \<in> set call_types \<and> child_by_field ''function'' n = Some f \<and>
       sink_type (node_text cx f) = Some (rf_type r) \<and> rf_location r = place cx n \<and> rf_snippet r = node_text cx n) \<and>
     ts_location ` set (av_trace (rf_value r)) \<subseteq> place cx ` subnodes t \<and>
     (av_state (rf_value r) = TAINTED \<and> rf_confidence r = float_95 \<and>
        location_key ` set (av_trace (rf_value r)) \<inter> input_keys cx t \<noteq> {} \<or>
      av_state (rf_value r) = TAINT_UNKNOWN \<and> rf_confidence r = float_three_quarters \<and> has_parameter_origin (rf_value r))"
proof -
  have "reported cx t r"
    using analysis_ok [of cx t] assms by (simp add: walk_ok_def analyze_and_find_findings_def)
  then obtain n a where n: "traced cx t (rf_value r)" "sink_verdict (rf_value r) = Some (rf_reason r, rf_confidence r)"
    "n \<in> subnodes t" "nd_type n \<in> set call_types" "sink_call cx n = Some (rf_type r, a)"
    "rf_location r = place cx n" "rf_snippet r = node_text cx n"
    by (auto simp: reported_def)
  then obtain f where "child_by_field ''function'' n = Some f" "sink_type (node_text cx f) = Some (rf_type r)"
    by (auto simp: sink_call_def split: option.splits)
  moreover have "av_state (rf_value r) = TAINTED \<or> av_state (rf_value r) = TAINT_UNKNOWN \<and> has_parameter_origin (rf_value r)"
    using n(2) by (cases "av_state (rf_value r)") (auto simp: sink_verdict_def split: if_splits)
  ultimately show ?thesis using n by (auto simp: traced_def sink_verdict_def split: if_splits)
qed

theorem taint_reports_evidenced_witness:
  "case analyze_and_find_findings composed_source composed_tree of
     r # rs \<Rightarrow> rs = [] \<and> location_key ` set (av_trace (rf_value r)) \<inter> input_keys composed_source composed_tree \<noteq> {}
   | [] \<Rightarrow> False"
proof -
  have "case analyze_and_find_findings composed_source composed_tree of
      [r] \<Rightarrow> av_state (rf_value r) = TAINTED | _ \<Rightarrow> False" by code_simp
  then obtain r where "analyze_and_find_findings composed_source composed_tree = [r]" "av_state (rf_value r) = TAINTED"
    by (auto split: list.splits)
  then show ?thesis using taint_reports_evidenced [of r composed_source composed_tree] by auto
qed

text \<open>
  C8: Taint typing is monotone. When every name has at least the same taint state in a second
  environment, every expression evaluates to at least the same state, and the walk over any scope leaves
  an environment with the same names and at least the same states: no extra taint can hide another.
\<close>

theorem taint_monotone:
  assumes "env_le a b"
  shows "rel_option state_le (evaluate cx a n) (evaluate cx b n) \<and>
     env_le (ws_env (walk_scope cx inner n (s\<lparr>ws_env := a\<rparr>))) (ws_env (walk_scope cx inner n (s'\<lparr>ws_env := b\<rparr>)))"
  using evaluate_mono [OF assms] walk_scope_mono [of "s\<lparr>ws_env := a\<rparr>" "s'\<lparr>ws_env := b\<rparr>"] assms by simp

text \<open>A query argument that may be, and one that is, tainted.\<close>

definition sample_env :: "taint_state \<Rightarrow> taint_env" where
  "sample_env t = [(''q'', create_value (place kept_source query_tree) t [] None)]"

theorem taint_monotone_witness:
  "rel_option state_le (evaluate kept_source (sample_env TAINT_UNKNOWN) query_tree)
     (evaluate kept_source (sample_env TAINTED) query_tree) \<and>
   env_le (sample_env TAINT_UNKNOWN) (sample_env TAINTED)"
proof -
  have "env_le (sample_env TAINT_UNKNOWN) (sample_env TAINTED)" by code_simp
  then show ?thesis using taint_monotone by blast
qed

text \<open>
  The walk handles an assignment before the call on its right: where a query is assigned to the
  variable that holds its argument, the argument has already lost its origin when the sink is inspected,
  and the report that the same query gives under another name is lost.
\<close>

theorem rebinding_hides_sink:
  "map rf_type (analyze_and_find_findings kept_source query_tree) = [''sql_injection''] \<and>
   analyze_and_find_findings rebound_source query_tree = []"
  by code_simp

text \<open>
  An augmented assignment replaces the value of its target: request data that is extended in place
  counts as clean, and the sink it reaches is not reported.
\<close>

theorem extension_drops_taint: "analyze_and_find_findings extended_source extended_tree = []"
  by code_simp
end
