(* ===== verification/FlowAnalysis.thy ===== *)
theory FlowAnalysis
  imports TaintSound Rules
begin

text \<open>
  \<open>flow/findings.py\<close> and \<open>flow/analyzer.py\<close>: the reports of the taint analysis as findings with their
  evidence, the analysis of one file and of all files of a semantic IR. The tree-sitter parsers are an
  argument: for a language, the text of an exception, nothing, or a function from the bytes of a file
  to the text of an exception or a syntax tree.
\<close>

section \<open>Findings with evidence\<close>

record flow_finding =
  ff_rule :: string
  ff_name :: string
  ff_severity :: string
  ff_message :: string
  ff_location :: source_location
  ff_evidence :: flow_evidence
  ff_confidence :: pyfloat
  ff_fix :: "string option"
  ff_metadata :: attributes

definition flow_base_location :: "source_location \<Rightarrow> location" where
  "flow_base_location l =
     make_location (sl_file l) (sl_start_row l) (Some (sl_end_row l)) (Some (sl_start_col l)) (Some (sl_end_col l))"

definition to_base_finding :: "flow_finding \<Rightarrow> finding" where
  "to_base_finding f =
     \<lparr>fg_rule = ff_rule f, fg_name = ff_name f,
      fg_severity = (case severity_of (ff_severity f) of Some s \<Rightarrow> s | None \<Rightarrow> ERROR),
      fg_location = flow_base_location (ff_location f), fg_message = ff_message f, fg_evidence = [],
      fg_confidence = ff_confidence f,
      fg_metadata =
        (let m = dict_set ''evidence'' (flow_evidence_to_dict (ff_evidence f)) (ff_metadata f) in
         case ff_fix f of None \<Rightarrow> m | Some t \<Rightarrow> if t = [] then m else dict_set ''fix_suggestion'' (PStr t) m)\<rparr>"

definition flow_finding_to_dict :: "flow_finding \<Rightarrow> pyval" where
  "flow_finding_to_dict f = PDict
     [(''rule_id'', PStr (ff_rule f)), (''rule_name'', PStr (ff_name f)), (''severity'', PStr (ff_severity f)),
      (''message'', PStr (ff_message f)), (''location'', source_location_to_dict (ff_location f)),
      (''evidence'', flow_evidence_to_dict (ff_evidence f)),
      (''confidence'', PFloat (fst (ff_confidence f)) (snd (ff_confidence f))), (''fix_suggestion'', opt_str (ff_fix f)),
      (''metadata'', PDict (ff_metadata f))]"

definition flow_finding_from_dict :: "pyval \<Rightarrow> flow_finding decoded" where
  "flow_finding_from_dict v =
     bind (as_dict v) (\<lambda>d. bind (need as_str d ''rule_id'') (\<lambda>i. bind (need as_str d ''rule_name'') (\<lambda>name.
     bind (need as_str d ''severity'') (\<lambda>sev. bind (need as_str d ''message'') (\<lambda>msg.
     bind (need source_location_from_dict d ''location'') (\<lambda>l. bind (need flow_evidence_from_dict d ''evidence'') (\<lambda>e.
     bind (optional as_float float_95 d ''confidence'') (\<lambda>c. bind (optional as_opt_str None d ''fix_suggestion'') (\<lambda>fix1.
     bind (optional as_dict [] d ''metadata'') (\<lambda>m.
       Inr \<lparr>ff_rule = i, ff_name = name, ff_severity = sev, ff_message = msg, ff_location = l, ff_evidence = e,
         ff_confidence = c, ff_fix = fix1, ff_metadata = m\<rparr>))))))))))"

lemma flow_finding_roundtrip: "flow_finding_from_dict (flow_finding_to_dict f) = Inr f"
  by (cases f) (simp add: flow_finding_from_dict_def flow_finding_to_dict_def decode_simps dict_get_def
      flow_evidence_roundtrip opt_str_def as_opt_str_def split: option.splits)

definition evidence_of :: "source_location \<Rightarrow> string \<Rightarrow> abstract_value \<Rightarrow> flow_evidence" where
  "evidence_of sink snippet v =
     \<lparr>fe_sink_snippet = snippet, fe_sink = sink, fe_trace = av_trace v,
      fe_source_snippet = (case av_trace v of [] \<Rightarrow> [] | s # _ \<Rightarrow> ts_snippet s),
      fe_source = (case av_trace v of [] \<Rightarrow> sink | s # _ \<Rightarrow> ts_location s), fe_calls = []\<rparr>"

abbreviation two_lines :: string where
  "two_lines \<equiv> [CHR 0x0A, CHR 0x0A]"

definition sql_fix_suggestion :: "string \<Rightarrow> string" where
  "sql_fix_suggestion snippet =
     (if contains_sub ''`'' snippet \<and> contains_sub ''${'' snippet
      then ''Use parameterized queries instead of string interpolation:'' @ two_lines @
        ''const placeholders = ids.map(() => '?').join(',');'' @ [CHR 0x0A] @
        ''await db.run(`DELETE FROM table WHERE id IN (${placeholders})`, ids);''
      else if contains_sub ''+'' snippet
      then ''Use parameterized queries instead of string concatenation:'' @ two_lines @
        ''await db.run('SELECT * FROM table WHERE id = ?', [id]);''
      else ''Use parameterized queries instead of dynamic SQL construction.'')"

definition command_fix_suggestion :: string where
  "command_fix_suggestion =
     ''Use the array form of command execution to avoid shell parsing:'' @ two_lines @
     ''// Instead of: child_process.exec(`ls ${dir}`)'' @ [CHR 0x0A] @
     ''// Use: child_process.execFile('ls', [dir])''"

definition path_fix_suggestion :: string where
  "path_fix_suggestion =
     ''Use path.resolve and validate the path is within expected directories:'' @ two_lines @
     ''const safePath = path.resolve(baseDir, userInput);'' @ [CHR 0x0A] @
     ''if (!safePath.startsWith(baseDir)) { throw new Error('Invalid path'); }''"

definition sink_finding :: "string \<Rightarrow> string \<Rightarrow> string \<Rightarrow> (string \<Rightarrow> string) \<Rightarrow> source_location \<Rightarrow> string \<Rightarrow> abstract_value \<Rightarrow> flow_finding" where
  "sink_finding i name msg fix1 sink snippet v =
     \<lparr>ff_rule = i, ff_name = name, ff_severity = ''error'', ff_message = msg, ff_location = sink,
      ff_evidence = evidence_of sink snippet v, ff_confidence = float_95, ff_fix = Some (fix1 snippet), ff_metadata = []\<rparr>"

definition create_sql_injection_finding :: "source_location \<Rightarrow> string \<Rightarrow> abstract_value \<Rightarrow> flow_finding" where
  "create_sql_injection_finding = sink_finding ''sql_injection_flow'' ''SQL Injection (Data Flow)''
     ''Tainted data flows into SQL query without proper sanitization'' sql_fix_suggestion"

definition create_command_injection_finding :: "source_location \<Rightarrow> string \<Rightarrow> abstract_value \<Rightarrow> flow_finding" where
  "create_command_injection_finding = sink_finding ''command_injection_flow'' ''Command Injection (Data Flow)''
     ''Tainted data flows into command execution without proper sanitization'' (\<lambda>_. command_fix_suggestion)"

definition create_path_traversal_finding :: "source_location \<Rightarrow> string \<Rightarrow> abstract_value \<Rightarrow> flow_finding" where
  "create_path_traversal_finding = sink_finding ''path_traversal_flow'' ''Path Traversal (Data Flow)''
     ''Tainted data flows into file path without proper sanitization'' (\<lambda>_. path_fix_suggestion)"

text \<open>\<open>Inl\<close> is the text of the exception for an unknown type.\<close>

definition finding_for :: "raw_finding \<Rightarrow> string + flow_finding" where
  "finding_for r =
     (let l = rf_location r; s = rf_snippet r; v = rf_value r in
      if rf_type r = ''sql_injection'' then Inr (create_sql_injection_finding l s v)
      else if rf_type r = ''command_injection'' then Inr (create_command_injection_finding l s v)
      else if rf_type r = ''path_traversal'' then Inr (create_path_traversal_finding l s v)
      else Inl (''Unknown data-flow finding type: '' @ rf_type r))"

definition graded :: "raw_finding \<Rightarrow> flow_finding \<Rightarrow> flow_finding" where
  "graded r f =
     (let g = f\<lparr>ff_confidence := rf_confidence r,
               ff_metadata := dict_set ''taint_state'' (PStr (taint_value (av_state (rf_value r))))
                 (dict_set ''reason'' (PStr (rf_reason r)) (ff_metadata f))\<rparr> in
      if fst (rf_confidence r) < fst float_9
      then g\<lparr>ff_severity := ''warning'',
             ff_message := ''Dynamic function parameter reaches a dangerous sink; verify whether callers can supply untrusted data''\<rparr>
      else g)"

definition create_finding :: "raw_finding \<Rightarrow> string + flow_finding" where
  "create_finding r = bind (finding_for r) (\<lambda>f. Inr (graded r f))"

section \<open>One file\<close>

type_synonym parse = "nat list \<Rightarrow> string + syntax_node"

record parser_access =
  pa_available :: bool
  pa_parser :: "string \<Rightarrow> string + parse option"

record file_analysis =
  fa_file :: string
  fa_findings :: "flow_finding list"
  fa_source :: string
  fa_success :: bool
  fa_error :: "string option"

definition supported_languages :: "string list" where
  "supported_languages = [''javascript'', ''python'', ''typescript'']"

definition normalize_language :: "string \<Rightarrow> string" where
  "normalize_language language =
     (let n = lower language in
      dict_get_or n [(''js'', ''javascript''), (''jsx'', ''javascript''), (''py'', ''python''), (''ts'', ''typescript''),
        (''tsx'', ''typescript'')] n)"

definition failure :: "string \<Rightarrow> string \<Rightarrow> string \<Rightarrow> file_analysis" where
  "failure path source message =
     \<lparr>fa_file = path, fa_findings = [], fa_source = source, fa_success = False, fa_error = Some message\<rparr>"

definition analyze_tree :: "string \<Rightarrow> string \<Rightarrow> parse \<Rightarrow> string + flow_finding list" where
  "analyze_tree path source parse =
     (let cx = create_ast_context path source in
      bind (parse (ac_bytes cx)) (\<lambda>t. traverse create_finding (analyze_and_find_findings cx t)))"

definition analyze_file :: "parser_access \<Rightarrow> string \<Rightarrow> string \<Rightarrow> string \<Rightarrow> file_analysis" where
  "analyze_file pa path source language =
     (let l = normalize_language language in
      if l \<notin> set supported_languages then failure path source (''Language not supported: '' @ language)
      else if \<not> pa_available pa then failure path source ''Tree-sitter is not available''
      else (case pa_parser pa l of
          Inl e \<Rightarrow> failure path source (''Parser unavailable: '' @ e)
        | Inr None \<Rightarrow> failure path source (''No parser for language: '' @ l)
        | Inr (Some parse) \<Rightarrow>
            (case analyze_tree path source parse of
               Inl e \<Rightarrow> failure path source e
             | Inr fs \<Rightarrow> \<lparr>fa_file = path, fa_findings = fs, fa_source = source, fa_success = True, fa_error = None\<rparr>)))"

section \<open>All files\<close>

definition flow_language :: "string \<Rightarrow> string" where
  "flow_language path =
     (let e = lower (name_suffix (path_name path)) in
      if e \<in> {''.js'', ''.jsx'', ''.mjs'', ''.cjs''} then ''javascript''
      else if e = ''.py'' then ''python''
      else if e \<in> {''.ts'', ''.tsx'', ''.mts'', ''.cts''} then ''typescript''
      else ''unknown'')"

definition flow_files :: "semantic_ir \<Rightarrow> string list" where
  "flow_files ir =
     (if ir_units ir \<noteq> [] then filter (\<lambda>p. flow_language p \<noteq> ''unknown'') (dict_keys (ir_units ir))
      else dedup (filter (\<lambda>p. p \<noteq> [] \<and> flow_language p \<noteq> ''unknown'') (map cn_file (dict_values (cg_nodes (ir_graph ir))))))"

text \<open>\<open>SemanticIR.read_source\<close>.\<close>

definition ir_read_source :: "(string \<Rightarrow> string) \<Rightarrow> file_tree \<Rightarrow> path \<Rightarrow> semantic_ir \<Rightarrow> string \<Rightarrow> string option" where
  "ir_read_source decode fs cwd ir file =
     (case checked_file fs cwd (ir_project ir) file of None \<Rightarrow> None
      | Some p \<Rightarrow> read_text_bounded decode fs p source_limit)"

definition flow_error :: "string \<Rightarrow> flow_outcome \<Rightarrow> flow_outcome" where
  "flow_error e o1 = o1\<lparr>fo_errors := fo_errors o1 @ [e]\<rparr>"

definition analyze_project_file :: "parser_access \<Rightarrow> (string \<Rightarrow> string) \<Rightarrow> file_tree \<Rightarrow> path \<Rightarrow> semantic_ir \<Rightarrow>
    flow_outcome \<Rightarrow> string \<Rightarrow> flow_outcome" where
  "analyze_project_file pa decode fs cwd ir o1 path =
     (case checked_file fs cwd (rule_project ir) path of
        None \<Rightarrow> flow_error (''Skipped unsafe or missing path: '' @ path) o1
      | Some _ \<Rightarrow>
          (case ir_read_source decode fs cwd ir path of
             None \<Rightarrow> flow_error (''Unable to read source: '' @ path) o1
           | Some source \<Rightarrow>
               if flow_language path = ''unknown'' then o1
               else (let r = analyze_file pa path source (flow_language path) in
                 if \<not> fa_success r
                 then flow_error (path @ '': '' @ (case fa_error r of None \<Rightarrow> ''analysis failed''
                   | Some e \<Rightarrow> if e = [] then ''analysis failed'' else e)) o1
                 else o1\<lparr>fo_files := fo_files o1 + 1, fo_findings := fo_findings o1 @ map to_base_finding (fa_findings r)\<rparr>)))"

definition flow_analyze :: "parser_access \<Rightarrow> (string \<Rightarrow> string) \<Rightarrow> file_tree \<Rightarrow> path \<Rightarrow> semantic_ir \<Rightarrow> flow_outcome" where
  "flow_analyze pa decode fs cwd ir =
     (let o1 = \<lparr>fo_findings = [], fo_errors = [], fo_files = 0\<rparr> in
      if rule_project ir = [] then flow_error ''SemanticIR has no project_path metadata'' o1
      else foldl (analyze_project_file pa decode fs cwd ir) o1 (flow_files ir))"

text \<open>The data-flow rule with this analyser.\<close>

definition data_flow_rule :: "parser_access \<Rightarrow> (string \<Rightarrow> string) \<Rightarrow> file_tree \<Rightarrow> path \<Rightarrow> rule" where
  "data_flow_rule pa decode fs cwd = flow_rule (\<lambda>ir. Inr (flow_analyze pa decode fs cwd ir))"

section \<open>Facts\<close>

lemma sink_type_cases: "sink_type t = Some ty \<Longrightarrow> ty \<in> {''sql_injection'', ''command_injection'', ''path_traversal''}"
  by (auto simp: sink_type_def Let_def split: if_splits)

lemma reported_all: "r \<in> set (analyze_and_find_findings cx t) \<Longrightarrow> reported cx t r"
  using analysis_ok [of cx t] by (simp add: walk_ok_def analyze_and_find_findings_def)

lemma reported_type:
  assumes "reported cx t r"
  shows "rf_type r \<in> {''sql_injection'', ''command_injection'', ''path_traversal''}"
proof -
  obtain n a where "sink_call cx n = Some (rf_type r, a)" using assms by (auto simp: reported_def)
  then obtain f where "sink_type (node_text cx f) = Some (rf_type r)" by (auto simp: sink_call_def split: option.splits)
  then show ?thesis by (rule sink_type_cases)
qed

definition grade :: "raw_finding \<Rightarrow> severity" where
  "grade r = (if av_state (rf_value r) = TAINTED then ERROR else WARNING)"

text \<open>A report becomes a finding of the same place, confidence and trace; no report raises an exception.\<close>

lemma create_finding_reported:
  assumes "reported cx t r"
  obtains f where "create_finding r = Inr f" "ff_location f = rf_location r" "ff_confidence f = rf_confidence r"
    "severity_of (ff_severity f) = Some (grade r)" "ff_evidence f = evidence_of (rf_location r) (rf_snippet r) (rf_value r)"
proof -
  obtain g where g: "finding_for r = Inr g" "ff_location g = rf_location r" "ff_severity g = ''error''"
    "ff_evidence g = evidence_of (rf_location r) (rf_snippet r) (rf_value r)"
    using reported_type [OF assms]
    by (auto simp: finding_for_def Let_def create_sql_injection_finding_def create_command_injection_finding_def
        create_path_traversal_finding_def sink_finding_def)
  have "av_state (rf_value r) = TAINTED \<and> rf_confidence r = float_95 \<or>
      av_state (rf_value r) \<noteq> TAINTED \<and> rf_confidence r = float_three_quarters"
    using assms by (auto simp: reported_def sink_verdict_def split: if_splits)
  then have "severity_of (ff_severity (graded r g)) = Some (grade r)"
    using g(3) by (auto simp: graded_def grade_def Let_def float_95_def float_three_quarters_def float_9_def
        severity_of_def all_severities_def)
  then show thesis using g that [of "graded r g"] by (simp add: create_finding_def graded_def Let_def)
qed

lemma traverse_total:
  "(\<And>x. x \<in> set xs \<Longrightarrow> \<exists>y. f x = Inr y) \<Longrightarrow> \<exists>ys. traverse f xs = Inr ys \<and> list_all2 (\<lambda>x y. f x = Inr y) xs ys"
proof (induction xs)
  case (Cons x xs)
  then obtain y ys where "f x = Inr y" "traverse f xs = Inr ys" "list_all2 (\<lambda>x y. f x = Inr y) xs ys" by force
  then show ?case by (intro exI [of _ "y # ys"]) simp
qed simp

lemma analyze_tree_parsed:
  assumes "parse (utf8 source) = Inr t"
  obtains fs where "analyze_tree path source parse = Inr fs"
    "list_all2 (\<lambda>r f. create_finding r = Inr f) (analyze_and_find_findings (create_ast_context path source) t) fs"
proof -
  let ?rs = "analyze_and_find_findings (create_ast_context path source) t"
  have "\<exists>f. create_finding r = Inr f" if "r \<in> set ?rs" for r
    using reported_all [OF that] by (auto elim: create_finding_reported)
  then obtain fs where "traverse create_finding ?rs = Inr fs" "list_all2 (\<lambda>r f. create_finding r = Inr f) ?rs fs"
    using traverse_total by blast
  then show thesis using that assms by (simp add: analyze_tree_def create_ast_context_def)
qed

text \<open>A finding of a file comes from a report on its tree.\<close>

definition from_report :: "ast_context \<Rightarrow> syntax_node \<Rightarrow> finding \<Rightarrow> bool" where
  "from_report cx t f =
     (\<exists>r\<in>set (analyze_and_find_findings cx t). fg_location f = flow_base_location (rf_location r) \<and>
        fg_confidence f = rf_confidence r \<and> fg_severity f = grade r \<and>
        dict_get (fg_metadata f) ''evidence'' =
          Some (flow_evidence_to_dict (evidence_of (rf_location r) (rf_snippet r) (rf_value r))))"

lemma base_from_report:
  assumes "r \<in> set (analyze_and_find_findings cx t)" "create_finding r = Inr f"
  shows "from_report cx t (to_base_finding f)"
proof -
  have "reported cx t r" by (rule reported_all) (rule assms(1))
  then obtain g where "create_finding r = Inr g" "ff_location g = rf_location r" "ff_confidence g = rf_confidence r"
    "severity_of (ff_severity g) = Some (grade r)" "ff_evidence g = evidence_of (rf_location r) (rf_snippet r) (rf_value r)"
    by (rule create_finding_reported)
  then have "fg_location (to_base_finding f) = flow_base_location (rf_location r)"
    "fg_confidence (to_base_finding f) = rf_confidence r" "fg_severity (to_base_finding f) = grade r"
    "dict_get (fg_metadata (to_base_finding f)) ''evidence'' =
       Some (flow_evidence_to_dict (evidence_of (rf_location r) (rf_snippet r) (rf_value r)))"
    using assms(2) by (simp_all add: to_base_finding_def Let_def split: option.split)
  then show ?thesis using assms(1) unfolding from_report_def by blast
qed

lemma file_findings:
  assumes "fa_success (analyze_file pa path source language)" "f \<in> set (fa_findings (analyze_file pa path source language))"
  obtains parse t where "pa_parser pa (normalize_language language) = Inr (Some parse)" "parse (utf8 source) = Inr t"
    "from_report (create_ast_context path source) t (to_base_finding f)"
proof -
  obtain parse fs where p: "pa_parser pa (normalize_language language) = Inr (Some parse)"
    "analyze_tree path source parse = Inr fs" "f \<in> set fs"
    using assms by (auto simp: analyze_file_def failure_def Let_def split: if_splits sum.splits option.splits)
  obtain t where t: "parse (utf8 source) = Inr t"
    using p(2) by (cases "parse (utf8 source)") (auto simp: analyze_tree_def create_ast_context_def)
  obtain gs where "analyze_tree path source parse = Inr gs"
    "list_all2 (\<lambda>r f. create_finding r = Inr f) (analyze_and_find_findings (create_ast_context path source) t) gs"
    by (rule analyze_tree_parsed [of parse source t path, OF t])
  then have "\<exists>r\<in>set (analyze_and_find_findings (create_ast_context path source) t). create_finding r = Inr f"
    using p(2,3) by (auto simp: list_all2_conv_all_nth in_set_conv_nth) (metis nth_mem)
  then show thesis using that [OF p(1) t] base_from_report by blast
qed

definition flow_grounded :: "parser_access \<Rightarrow> (string \<Rightarrow> string) \<Rightarrow> file_tree \<Rightarrow> path \<Rightarrow> semantic_ir \<Rightarrow> finding \<Rightarrow> bool" where
  "flow_grounded pa decode fs cwd ir f =
     (\<exists>path source parse t. path \<in> set (flow_files ir) \<and> checked_file fs cwd (rule_project ir) path \<noteq> None \<and>
        ir_read_source decode fs cwd ir path = Some source \<and> pa_parser pa (flow_language path) = Inr (Some parse) \<and>
        parse (utf8 source) = Inr t \<and> from_report (create_ast_context path source) t f)"

lemma normalize_flow_language [simp]:
  "flow_language path \<noteq> ''unknown'' \<Longrightarrow> normalize_language (flow_language path) = flow_language path"
  by (simp add: flow_language_def Let_def) (simp add: normalize_language_def str_defs dict_get_or_def)

lemma analyze_project_file_effect:
  assumes "path \<in> set (flow_files ir)" "o2 = analyze_project_file pa decode fs cwd ir o1 path"
    "\<forall>f\<in>set (fo_findings o1). flow_grounded pa decode fs cwd ir f"
  shows "fo_files o2 + length (fo_errors o2) = Suc (fo_files o1 + length (fo_errors o1)) \<and>
    (\<forall>f\<in>set (fo_findings o2). flow_grounded pa decode fs cwd ir f)"
proof -
  have known: "flow_language path \<noteq> ''unknown''" using assms(1) by (auto simp: flow_files_def split: if_splits)
  show ?thesis
  proof (cases "checked_file fs cwd (rule_project ir) path = None \<or> ir_read_source decode fs cwd ir path = None")
    case True
    then show ?thesis using assms(2,3) by (auto simp: analyze_project_file_def flow_error_def split: option.splits)
  next
    case False
    then obtain source p where s: "ir_read_source decode fs cwd ir path = Some source" "checked_file fs cwd (rule_project ir) path = Some p"
      by auto
    let ?r = "analyze_file pa path source (flow_language path)"
    have "flow_grounded pa decode fs cwd ir (to_base_finding f)" if ok: "fa_success ?r" "f \<in> set (fa_findings ?r)" for f
    proof -
      obtain parse t where "pa_parser pa (flow_language path) = Inr (Some parse)" "parse (utf8 source) = Inr t"
        "from_report (create_ast_context path source) t (to_base_finding f)"
        using file_findings [OF ok] known by auto
      then show ?thesis using s assms(1) unfolding flow_grounded_def by blast
    qed
    then show ?thesis using s assms(2,3) known
      by (auto simp: analyze_project_file_def flow_error_def Let_def split: if_splits)
  qed
qed

lemma flow_analyze_effect:
  assumes "rule_project ir \<noteq> []"
  shows "fo_files (flow_analyze pa decode fs cwd ir) + length (fo_errors (flow_analyze pa decode fs cwd ir)) = length (flow_files ir) \<and>
    (\<forall>f\<in>set (fo_findings (flow_analyze pa decode fs cwd ir)). flow_grounded pa decode fs cwd ir f)"
proof -
  have "fo_files o2 + length (fo_errors o2) = fo_files o1 + length (fo_errors o1) + length ps \<and>
      (\<forall>f\<in>set (fo_findings o2). flow_grounded pa decode fs cwd ir f)"
    if "set ps \<subseteq> set (flow_files ir)" "o2 = foldl (analyze_project_file pa decode fs cwd ir) o1 ps"
      "\<forall>f\<in>set (fo_findings o1). flow_grounded pa decode fs cwd ir f" for ps o1 o2
    using that
  proof (induction ps arbitrary: o1)
    case (Cons p ps)
    let ?o = "analyze_project_file pa decode fs cwd ir o1 p"
    have "fo_files ?o + length (fo_errors ?o) = Suc (fo_files o1 + length (fo_errors o1)) \<and>
        (\<forall>f\<in>set (fo_findings ?o). flow_grounded pa decode fs cwd ir f)"
      using Cons.prems by (intro analyze_project_file_effect [where path = p]) simp_all
    then show ?case using Cons.prems Cons.IH [of ?o] by simp
  qed simp
  from this [OF order_refl refl, of "\<lparr>fo_findings = [], fo_errors = [], fo_files = 0\<rparr>"] show ?thesis
    using assms by (simp add: flow_analyze_def Let_def)
qed

section \<open>Properties\<close>

text \<open>
  C6: Every finding of the data-flow rule stands in a file of the IR that the boundary check accepts,
  comes from a report of the taint analysis on the tree of the very text that was read, and has the
  location, the confidence and the trace of that report; it is an error exactly when the value is
  confirmed tainted, else a warning. Every file is either analysed or accounted for by one error.
\<close>

theorem data_flow_grounded:
  assumes "rule_project ir \<noteq> []" "ru_analyze (data_flow_rule pa decode fs cwd) ir = Inr findings"
  shows "fo_files (flow_analyze pa decode fs cwd ir) + length (fo_errors (flow_analyze pa decode fs cwd ir)) =
      length (flow_files ir) \<and>
    (\<forall>f\<in>set findings. \<exists>path source parse t r.
       path \<in> set (flow_files ir) \<and> checked_file fs cwd (rule_project ir) path \<noteq> None \<and>
       ir_read_source decode fs cwd ir path = Some source \<and> pa_parser pa (flow_language path) = Inr (Some parse) \<and>
       parse (utf8 source) = Inr t \<and> r \<in> set (analyze_and_find_findings (create_ast_context path source) t) \<and>
       fg_location f = flow_base_location (rf_location r) \<and> fg_confidence f = rf_confidence r \<and>
       fg_severity f = (if av_state (rf_value r) = TAINTED then ERROR else WARNING) \<and>
       dict_get (fg_metadata f) ''evidence'' =
         Some (flow_evidence_to_dict (evidence_of (rf_location r) (rf_snippet r) (rf_value r))))"
proof -
  have "findings = fo_findings (flow_analyze pa decode fs cwd ir)"
    using assms(2) by (simp add: data_flow_rule_def flow_rule_def split: if_splits)
  then show ?thesis
    using flow_analyze_effect [OF assms(1), of pa decode fs cwd]
    unfolding flow_grounded_def from_report_def grade_def by blast
qed

text \<open>
  C9: The data-flow rule raises its exception exactly when the IR names no project, or when it has files
  in a supported language and none of them could be analysed; a partial failure is never an exception.
\<close>

theorem data_flow_raises:
  "(\<exists>e. ru_analyze (data_flow_rule pa decode fs cwd) ir = Inl e) \<longleftrightarrow>
     rule_project ir = [] \<or> flow_files ir \<noteq> [] \<and> fo_files (flow_analyze pa decode fs cwd ir) = 0"
proof (cases "rule_project ir = []")
  case True
  then show ?thesis by (simp add: data_flow_rule_def flow_rule_def flow_analyze_def flow_error_def Let_def)
next
  case False
  then show ?thesis using flow_analyze_effect [OF False, of pa decode fs cwd]
    by (auto simp: data_flow_rule_def flow_rule_def)
qed

text \<open>
  The source that the evidence of a finding names is the first step of the trace, not the input: of
  the query \<open>a + req.body\<close>, where \<open>a\<close> is the constant 1, the reported source is the constant.
\<close>

theorem evidence_names_constant:
  "map (\<lambda>r. (av_state (rf_value r), fe_source_snippet (evidence_of (rf_location r) (rf_snippet r) (rf_value r))))
     (analyze_and_find_findings composed_source composed_tree) = [(TAINTED, ''1'')]"
  by code_simp

text \<open>A project of two files, with a parser for one of the languages.\<close>

definition flow_ir :: semantic_ir where
  "flow_ir = (let u = (\<lambda>f l. \<lparr>su_file = f, su_language = l, su_line_count = 1, su_hash = [], su_role = PRODUCTION,
       su_role_reason = [], su_zone = FIRST_PARTY, su_zone_reason = []\<rparr>) in
     (ir_from_graph (\<lambda>_ _. None) (empty_graph []) None None (Some ''/p''))
       \<lparr>ir_units := [(''a.py'', u ''a.py'' ''python''), (''b.ts'', u ''b.ts'' ''typescript'')]\<rparr>)"

definition flow_tree :: file_tree where
  "flow_tree = [([''p''], Directory), ([''p'', ''a.py''], Regular (ac_source composed_source)), ([''p'', ''b.ts''], Regular [])]"

definition python_parser :: parser_access where
  "python_parser = \<lparr>pa_available = True, pa_parser = (\<lambda>l. Inr (if l = ''python'' then Some (\<lambda>_. Inr composed_tree) else None))\<rparr>"

theorem data_flow_grounded_witness:
  "case ru_analyze (data_flow_rule python_parser id flow_tree []) flow_ir of Inl e \<Rightarrow> False
   | Inr findings \<Rightarrow> map fg_severity findings = [ERROR] \<and>
       fo_files (flow_analyze python_parser id flow_tree [] flow_ir) +
         length (fo_errors (flow_analyze python_parser id flow_tree [] flow_ir)) = 2"
proof -
  let ?o = "flow_analyze python_parser id flow_tree [] flow_ir"
  have "map fg_severity (fo_findings ?o) = [ERROR]" "fo_files ?o = 1" by code_simp+
  then have r: "ru_analyze (data_flow_rule python_parser id flow_tree []) flow_ir = Inr (fo_findings ?o)" "map fg_severity (fo_findings ?o) = [ERROR]"
    by (simp_all add: data_flow_rule_def flow_rule_def)
  have "rule_project flow_ir = ''/p''" "flow_files flow_ir = [''a.py'', ''b.ts'']" by code_simp+
  then show ?thesis using r data_flow_grounded [OF _ r(1)] by simp
qed

end
