(* ===== verification/FlowVisitors.thy ===== *)
theory FlowVisitors
  imports TaintSound
begin

text \<open>
  \<open>flow/scope.py\<close>, the walker of \<open>flow/ast_traversal.py\<close>, the two visitors of \<open>flow/taint.py\<close> and the
  tables of \<open>flow/sources.py\<close> and \<open>flow/sinks.py\<close>. Scopes are shared objects: they live in a store, a
  scope is its index, the stack holds indices with the current scope first. The debug output is left out.
\<close>

section \<open>Scopes\<close>

datatype scope_kind = MODULE_SCOPE | FUNCTION_SCOPE | BLOCK_SCOPE | CLASS_SCOPE

record flow_scope =
  sc_parent :: "nat option"
  sc_variables :: taint_env
  sc_kind :: scope_kind
  sc_location :: "source_location option"
  sc_name :: "string option"

record scopes =
  sm_all :: "flow_scope list"
  sm_stack :: "nat list"

definition no_scopes :: scopes where
  "no_scopes = \<lparr>sm_all = [], sm_stack = []\<rparr>"

text \<open>\<open>Scope.get\<close>: a parent is older than its children, so the search ends.\<close>

function scope_get :: "flow_scope list \<Rightarrow> nat \<Rightarrow> string \<Rightarrow> abstract_value option" where
  "scope_get all i name =
     (case dict_get (sc_variables (all ! i)) name of
        Some v \<Rightarrow> Some v
      | None \<Rightarrow> (case sc_parent (all ! i) of None \<Rightarrow> None | Some p \<Rightarrow> if p < i then scope_get all p name else None))"
  by pat_completeness auto
termination by (relation "measure (\<lambda>(all, i, name). i)") auto

declare scope_get.simps [simp del]

definition scope_set :: "nat \<Rightarrow> string \<Rightarrow> abstract_value \<Rightarrow> scopes \<Rightarrow> scopes" where
  "scope_set i name v m = m\<lparr>sm_all := (sm_all m)[i := (sm_all m ! i)\<lparr>sc_variables := dict_set name v (sc_variables (sm_all m ! i))\<rparr>]\<rparr>"

definition has_local :: "scopes \<Rightarrow> nat \<Rightarrow> string \<Rightarrow> bool" where
  "has_local m i name = dict_has (sc_variables (sm_all m ! i)) name"

definition current_scope :: "scopes \<Rightarrow> nat option" where
  "current_scope m = (case sm_stack m of [] \<Rightarrow> None | i # _ \<Rightarrow> Some i)"

definition enter_scope :: "scope_kind \<Rightarrow> source_location option \<Rightarrow> string option \<Rightarrow> scopes \<Rightarrow> scopes" where
  "enter_scope kind l name m =
     \<lparr>sm_all = sm_all m @ [\<lparr>sc_parent = current_scope m, sc_variables = [], sc_kind = kind, sc_location = l, sc_name = name\<rparr>],
      sm_stack = length (sm_all m) # sm_stack m\<rparr>"

definition leave_scope :: "scopes \<Rightarrow> scopes \<times> nat option" where
  "leave_scope m = (case sm_stack m of [] \<Rightarrow> (m, None) | i # is \<Rightarrow> (m\<lparr>sm_stack := is\<rparr>, Some i))"

definition scope_depth :: "scopes \<Rightarrow> nat" where
  "scope_depth m = length (sm_stack m)"

definition scopes_get :: "scopes \<Rightarrow> string \<Rightarrow> abstract_value option" where
  "scopes_get m name = (case current_scope m of None \<Rightarrow> None | Some i \<Rightarrow> scope_get (sm_all m) i name)"

definition scopes_set :: "string \<Rightarrow> abstract_value \<Rightarrow> scopes \<Rightarrow> scopes" where
  "scopes_set name v m = (case current_scope m of None \<Rightarrow> m | Some i \<Rightarrow> scope_set i name v m)"

definition set_global :: "string \<Rightarrow> abstract_value \<Rightarrow> scopes \<Rightarrow> scopes" where
  "set_global name v m = (if sm_all m = [] then m else scope_set 0 name v m)"

definition scope_at :: "scopes \<Rightarrow> int \<Rightarrow> flow_scope option" where
  "scope_at m i = (if 0 \<le> i \<and> i < int (length (sm_all m)) then Some (sm_all m ! nat i) else None)"

record taint_snapshot =
  sn_scopes :: nat
  sn_variables :: nat
  sn_tainted :: nat
  sn_unknown :: nat
  sn_clean :: nat

definition taint_snapshot :: "scopes \<Rightarrow> taint_snapshot" where
  "taint_snapshot m =
     (let vs = dict_values (foldl (\<lambda>d s. dict_update d (sc_variables s)) [] (sm_all m));
          count = (\<lambda>t. length (filter (\<lambda>v. av_state v = t) vs)) in
      \<lparr>sn_scopes = length (sm_all m), sn_variables = length vs, sn_tainted = count TAINTED, sn_unknown = count TAINT_UNKNOWN,
       sn_clean = length (filter (\<lambda>v. av_state v \<noteq> TAINTED \<and> av_state v \<noteq> TAINT_UNKNOWN) vs)\<rparr>)"

section \<open>The walker\<close>

text \<open>A visitor; the visitors of a walker work on one common state.\<close>

record 's visitor =
  vi_enter :: "syntax_node \<Rightarrow> 's \<Rightarrow> 's"
  vi_visit :: "syntax_node \<Rightarrow> 's \<Rightarrow> 's"
  vi_leave :: "syntax_node \<Rightarrow> 's \<Rightarrow> 's"

function walk_node :: "'s visitor list \<Rightarrow> syntax_node \<Rightarrow> 's \<Rightarrow> 's" where
  "walk_node vis n s =
     (let s1 = foldl (\<lambda>s v. vi_enter v n s) s vis;
          s2 = foldl (\<lambda>s v. vi_visit v n s) s1 vis;
          s3 = foldl (\<lambda>s c. walk_node vis c s) s2 (named_children n)
      in foldl (\<lambda>s v. vi_leave v n s) s3 vis)"
  by pat_completeness auto
termination by (relation "measure (\<lambda>(vis, n, s). size n)") (auto intro: node_sizes)

declare walk_node.simps [simp del]

section \<open>The state of a visitor\<close>

record visit_state =
  vt_scopes :: scopes
  vt_values :: "(nat, abstract_value) dict"
  vt_function :: "string option"

definition set_variable :: "string \<Rightarrow> abstract_value \<Rightarrow> visit_state \<Rightarrow> visit_state" where
  "set_variable name v s = s\<lparr>vt_scopes := scopes_set name v (vt_scopes s)\<rparr>"

definition note_value :: "syntax_node \<Rightarrow> abstract_value \<Rightarrow> visit_state \<Rightarrow> visit_state" where
  "note_value n v s = s\<lparr>vt_values := dict_set (nd_start n) v (vt_values s)\<rparr>"

definition noted :: "syntax_node \<Rightarrow> visit_state \<Rightarrow> abstract_value option" where
  "noted n s = dict_get (vt_values s) (nd_start n)"

definition open_scope :: "scope_kind \<Rightarrow> source_location \<Rightarrow> string option \<Rightarrow> visit_state \<Rightarrow> visit_state" where
  "open_scope kind l name s = s\<lparr>vt_scopes := enter_scope kind (Some l) name (vt_scopes s)\<rparr>"

definition close_scope :: "visit_state \<Rightarrow> visit_state" where
  "close_scope s = s\<lparr>vt_scopes := fst (leave_scope (vt_scopes s))\<rparr>"

text \<open>\<open>visit_identifier\<close> and the visits of literals, the same in both visitors.\<close>

definition visit_identifier :: "ast_context \<Rightarrow> syntax_node \<Rightarrow> visit_state \<Rightarrow> visit_state" where
  "visit_identifier cx n s =
     (let name = node_text cx n in
      if name = [] then s
      else case scopes_get (vt_scopes s) name of None \<Rightarrow> s
        | Some v \<Rightarrow> note_value n (propagate_taint v (place cx n) (''reference: '' @ name) name) s)"

definition visit_literal :: "ast_context \<Rightarrow> syntax_node \<Rightarrow> visit_state \<Rightarrow> visit_state" where
  "visit_literal cx n s = note_value n (create_value (place cx n) NOT_TAINTED [] (Some (node_text cx n))) s"

section \<open>TypeScript\<close>

definition block_types :: "string list" where
  "block_types = [''if_statement'', ''for_statement'', ''while_statement'', ''block'', ''statement_block'']"

definition ts_function_types :: "string list" where
  "ts_function_types = [''function_declaration'', ''arrow_function'', ''method_definition'']"

definition ts_leaving_types :: "string list" where
  "ts_leaving_types = [''function_declaration'', ''arrow_function'', ''if_statement'', ''for_statement'', ''while_statement'',
     ''block'', ''program'']"

definition ts_parameter :: "ast_context \<Rightarrow> visit_state \<Rightarrow> syntax_node \<Rightarrow> visit_state" where
  "ts_parameter cx s p =
     (let name = node_text cx p in
      if nd_type p \<notin> {''required_parameter'', ''identifier''} \<or> name = [] then s
      else set_variable name
        (if name \<in> {''req'', ''request'', ''ctx'', ''context''}
         then create_tainted_value (place cx p) (''parameter: '' @ name) name
         else create_value (place cx p) TAINT_UNKNOWN [] None) s)"

definition ts_enter :: "ast_context \<Rightarrow> syntax_node \<Rightarrow> visit_state \<Rightarrow> visit_state" where
  "ts_enter cx n s =
     (let l = place cx n in
      if nd_type n \<in> set ts_function_types then
        (let name = map_option (node_text cx) (child_by_field ''name'' n);
             label = (case name of None \<Rightarrow> [] | Some t \<Rightarrow> t);
             s1 = (open_scope FUNCTION_SCOPE l (Some (if label = [] then ''function_'' @ str_of_int (sl_start_row l) else label)) s)
                    \<lparr>vt_function := name\<rparr>
         in case child_by_field ''parameters'' n of None \<Rightarrow> s1
            | Some ps \<Rightarrow> foldl (ts_parameter cx) s1 (named_children ps))
      else if nd_type n \<in> set block_types then open_scope BLOCK_SCOPE l None s
      else if nd_type n = ''program'' then open_scope MODULE_SCOPE l (Some ''module'') s
      else s)"

definition ts_leave :: "syntax_node \<Rightarrow> visit_state \<Rightarrow> visit_state" where
  "ts_leave n s = (if nd_type n \<in> set ts_leaving_types then close_scope s else s)"

text \<open>The member accesses that are sources.\<close>

definition ts_source_members :: "(string \<times> string list) list" where
  "ts_source_members =
     [(''req'', [''body'', ''query'', ''params'']), (''request'', [''body'', ''query'', ''params'']),
      (''ctx'', [''request'', ''query'', ''params'', ''body'']), (''context'', [''request'', ''query'', ''params'', ''body''])]"

definition is_source_member :: "(string \<times> string list) list \<Rightarrow> string \<Rightarrow> string \<Rightarrow> bool" where
  "is_source_member ps obj prop = list_ex (\<lambda>(p, ms). obj = p \<and> prop \<in> set ms) ps"

function ts_evaluate :: "ast_context \<Rightarrow> syntax_node \<Rightarrow> visit_state \<Rightarrow> visit_state \<times> abstract_value option"
  and ts_template :: "ast_context \<Rightarrow> syntax_node \<Rightarrow> visit_state \<Rightarrow> visit_state"
  and ts_member :: "ast_context \<Rightarrow> syntax_node \<Rightarrow> visit_state \<Rightarrow> visit_state \<times> abstract_value option" where
  "ts_evaluate cx n s =
     (case noted n s of Some v \<Rightarrow> (s, Some v) | None \<Rightarrow>
       if nd_type n = ''identifier'' then (let s1 = visit_identifier cx n s in (s1, noted n s1))
       else if nd_type n = ''template_string'' then (let s1 = ts_template cx n s in (s1, noted n s1))
       else if nd_type n = ''string'' \<or> nd_type n = ''number'' then (let s1 = visit_literal cx n s in (s1, noted n s1))
       else if nd_type n = ''member_expression'' then ts_member cx n s
       else if nd_type n = ''await_expression'' then
         (case child_by_field ''argument'' n of None \<Rightarrow> (s, None) | Some a \<Rightarrow> ts_evaluate cx a s)
       else if nd_type n = ''parenthesized_expression'' then
         (case first_named n of None \<Rightarrow> (s, None) | Some c \<Rightarrow> ts_evaluate cx c s)
       else if nd_type n = ''binary_expression'' then
         (case (case child_by_field ''left'' n of None \<Rightarrow> (s, None) | Some a \<Rightarrow> ts_evaluate cx a s) of (s1, lv) \<Rightarrow>
           (case (case child_by_field ''right'' n of None \<Rightarrow> (s1, None) | Some b \<Rightarrow> ts_evaluate cx b s1) of (s2, rv) \<Rightarrow>
             (if somes [lv, rv] = [] then (s2, None)
              else (let v = combine_values (somes [lv, rv]) (place cx n) ''binary_expression'' (node_text cx n)
                    in (note_value n v s2, Some v)))))
       else (let v = create_value (place cx n) TAINT_UNKNOWN [] None in (note_value n v s, Some v)))"
| "ts_template cx n s =
     (case foldl (\<lambda>p c.
             if nd_type c \<noteq> ''template_substitution'' then p
             else case child_by_field ''expression'' c of None \<Rightarrow> p
               | Some e \<Rightarrow> (case ts_evaluate cx e (fst p) of (s1, v) \<Rightarrow> (s1, snd p @ somes [v])))
           (s, []) (nd_children n) of
        (s1, vs) \<Rightarrow>
          note_value n
            (if vs \<noteq> [] then combine_values vs (place cx n) ''template_string_interpolation'' (node_text cx n)
             else create_value (place cx n) NOT_TAINTED [] (Some (node_text cx n))) s1)"
| "ts_member cx n s =
     (case child_by_field ''object'' n of None \<Rightarrow> (s, None) | Some obj \<Rightarrow>
       (case child_by_field ''property'' n of None \<Rightarrow> (s, None) | Some prop \<Rightarrow>
         (let path = node_text cx obj @ ''.'' @ node_text cx prop in
          if is_source_member ts_source_members (node_text cx obj) (node_text cx prop) then
            (let v = create_tainted_value (place cx n) (''source: '' @ path) (node_text cx n) in (note_value n v s, Some v))
          else (case ts_evaluate cx obj s of
              (s1, None) \<Rightarrow> (s1, None)
            | (s1, Some w) \<Rightarrow>
                (let v = propagate_taint w (place cx n) (''member_access: '' @ path) (node_text cx n)
                 in (note_value n v s1, Some v))))))"
  by pat_completeness auto
termination
  by (relation "measure (\<lambda>x. case x of Inl (cx, n, s) \<Rightarrow> 2 * size n + 1
        | Inr (Inl (cx, n, s)) \<Rightarrow> 2 * size n | Inr (Inr (cx, n, s)) \<Rightarrow> 2 * size n)")
     (auto dest!: child_size child_by_field_size first_named_in [THEN child_size])

declare ts_evaluate.simps [simp del] ts_template.simps [simp del] ts_member.simps [simp del]

definition ts_declarator :: "ast_context \<Rightarrow> syntax_node \<Rightarrow> visit_state \<Rightarrow> visit_state" where
  "ts_declarator cx n s =
     (case child_by_field ''name'' n of None \<Rightarrow> s | Some m \<Rightarrow>
       (let name = node_text cx m in
        if name = [] then s
        else (case (case child_by_field ''value'' n of None \<Rightarrow> (s, None) | Some e \<Rightarrow> ts_evaluate cx e s) of (s1, v) \<Rightarrow>
          (let w = (case v of None \<Rightarrow> create_value (place cx n) NOT_TAINTED [] None | Some x \<Rightarrow> x)
           in note_value n w (set_variable name w s1)))))"

definition ts_assignment :: "ast_context \<Rightarrow> syntax_node \<Rightarrow> visit_state \<Rightarrow> visit_state" where
  "ts_assignment cx n s =
     (case child_by_field ''left'' n of None \<Rightarrow> s | Some a \<Rightarrow>
       (case child_by_field ''right'' n of None \<Rightarrow> s | Some b \<Rightarrow>
         (case ts_evaluate cx b s of
            (s1, None) \<Rightarrow> s1
          | (s1, Some v) \<Rightarrow>
              (let name = (if nd_type a = ''identifier'' then node_text cx a else []) in
               if name = [] then s1
               else (let w = propagate_taint v (place cx n) (''assignment: '' @ name @ '' = ...'') (node_text cx n)
                     in note_value n w (set_variable name w s1))))))"

definition ts_visit :: "ast_context \<Rightarrow> syntax_node \<Rightarrow> visit_state \<Rightarrow> visit_state" where
  "ts_visit cx n s =
     (if nd_type n = ''lexical_declaration'' then
        foldl (\<lambda>s c. if nd_type c = ''variable_declarator'' then ts_declarator cx c s else s) s (named_children n)
      else if nd_type n = ''variable_declarator'' then ts_declarator cx n s
      else if nd_type n = ''assignment_expression'' then ts_assignment cx n s
      else if nd_type n = ''call_expression'' then note_value n (create_value (place cx n) TAINT_UNKNOWN [] None) s
      else if nd_type n = ''template_string'' then ts_template cx n s
      else if nd_type n = ''identifier'' then visit_identifier cx n s
      else if nd_type n = ''string'' \<or> nd_type n = ''number'' then visit_literal cx n s
      else s)"

definition typescript_visitor :: "ast_context \<Rightarrow> visit_state visitor" where
  "typescript_visitor cx = \<lparr>vi_enter = ts_enter cx, vi_visit = ts_visit cx, vi_leave = ts_leave\<rparr>"

section \<open>Python\<close>

definition py_block_types :: "string list" where
  "py_block_types = [''if_statement'', ''for_statement'', ''while_statement'', ''with_statement'']"

definition py_enter :: "ast_context \<Rightarrow> syntax_node \<Rightarrow> visit_state \<Rightarrow> visit_state" where
  "py_enter cx n s =
     (let l = place cx n in
      if nd_type n = ''function_definition'' then
        open_scope FUNCTION_SCOPE l (map_option (node_text cx) (child_by_field ''name'' n)) s
      else if nd_type n \<in> set py_block_types then open_scope BLOCK_SCOPE l None s
      else if nd_type n = ''module'' then open_scope MODULE_SCOPE l (Some ''module'') s
      else s)"

definition py_leave :: "syntax_node \<Rightarrow> visit_state \<Rightarrow> visit_state" where
  "py_leave n s = (if nd_type n \<in> set ([''function_definition'', ''module''] @ py_block_types) then close_scope s else s)"

definition py_source_members :: "(string \<times> string list) list" where
  "py_source_members =
     (let ms = [''POST'', ''GET'', ''args'', ''form'', ''data'', ''json''] in [(''request'', ms), (''req'', ms)])"

function py_evaluate :: "ast_context \<Rightarrow> syntax_node \<Rightarrow> visit_state \<Rightarrow> visit_state \<times> abstract_value option"
  and py_attribute :: "ast_context \<Rightarrow> syntax_node \<Rightarrow> visit_state \<Rightarrow> visit_state \<times> abstract_value option" where
  "py_evaluate cx n s =
     (let unknown = Some (create_value (place cx n) TAINT_UNKNOWN [] None) in
      case noted n s of Some v \<Rightarrow> (s, Some v) | None \<Rightarrow>
       if nd_type n = ''identifier'' then (let s1 = visit_identifier cx n s in (s1, noted n s1))
       else if nd_type n = ''string'' \<or> nd_type n = ''integer'' then (let s1 = visit_literal cx n s in (s1, noted n s1))
       else if nd_type n = ''attribute'' then py_attribute cx n s
       else if nd_type n = ''binary_operator'' then
         (case (case child_by_field ''left'' n of None \<Rightarrow> (s, None) | Some a \<Rightarrow> py_evaluate cx a s) of (s1, lv) \<Rightarrow>
           (case (case child_by_field ''right'' n of None \<Rightarrow> (s1, None) | Some b \<Rightarrow> py_evaluate cx b s1) of (s2, rv) \<Rightarrow>
             (s2, if somes [lv, rv] = [] then unknown
                  else Some (combine_values (somes [lv, rv]) (place cx n) ''binary_operator'' (node_text cx n)))))
       else (s, unknown))"
| "py_attribute cx n s =
     (case child_by_field ''object'' n of None \<Rightarrow> (s, None) | Some obj \<Rightarrow>
       (case child_by_field ''attribute'' n of None \<Rightarrow> (s, None) | Some prop \<Rightarrow>
         (let path = node_text cx obj @ ''.'' @ node_text cx prop in
          if is_source_member py_source_members (node_text cx obj) (node_text cx prop)
          then (s, Some (create_tainted_value (place cx n) (''source: '' @ path) (node_text cx n)))
          else (case py_evaluate cx obj s of (s1, w) \<Rightarrow>
            (s1, map_option (\<lambda>v. propagate_taint v (place cx n) (''attribute_access: '' @ path) (node_text cx n)) w)))))"
  by pat_completeness auto
termination
  by (relation "measure (\<lambda>x. case x of Inl (cx, n, s) \<Rightarrow> 2 * size n + 1 | Inr (cx, n, s) \<Rightarrow> 2 * size n)")
     (auto dest!: child_by_field_size)

declare py_evaluate.simps [simp del] py_attribute.simps [simp del]

definition py_assignment :: "ast_context \<Rightarrow> syntax_node \<Rightarrow> visit_state \<Rightarrow> visit_state" where
  "py_assignment cx n s =
     (case child_by_field ''left'' n of None \<Rightarrow> s | Some a \<Rightarrow>
       (case child_by_field ''right'' n of None \<Rightarrow> s | Some b \<Rightarrow>
         (case py_evaluate cx b s of
            (s1, None) \<Rightarrow> s1
          | (s1, Some v) \<Rightarrow>
              (let name = node_text cx a in
               if nd_type a \<noteq> ''identifier'' \<or> name = [] then s1
               else (let w = propagate_taint v (place cx n) (''assignment: '' @ name @ '' = ...'') (node_text cx n)
                     in note_value n w (set_variable name w s1))))))"

definition py_visit :: "ast_context \<Rightarrow> syntax_node \<Rightarrow> visit_state \<Rightarrow> visit_state" where
  "py_visit cx n s =
     (if nd_type n = ''assignment'' then py_assignment cx n s
      else if nd_type n = ''identifier'' then visit_identifier cx n s
      else if nd_type n = ''string'' \<or> nd_type n = ''integer'' then visit_literal cx n s
      else s)"

definition python_visitor :: "ast_context \<Rightarrow> visit_state visitor" where
  "python_visitor cx = \<lparr>vi_enter = py_enter cx, vi_visit = py_visit cx, vi_leave = py_leave\<rparr>"

section \<open>The tables of sources and sinks\<close>

record source_definition =
  sd_source :: string
  sd_source_description :: string
  sd_source_language :: string
  sd_pattern :: string

record sink_definition =
  sk_name :: string
  sk_description :: string
  sk_language :: string
  sk_vulnerability :: string
  sk_argument :: nat

definition source_def :: "string \<Rightarrow> string \<Rightarrow> string \<Rightarrow> string \<Rightarrow> source_definition" where
  "source_def name description language pattern =
     \<lparr>sd_source = name, sd_source_description = description, sd_source_language = language, sd_pattern = pattern\<rparr>"

definition sink_def :: "string \<Rightarrow> string \<Rightarrow> string \<Rightarrow> string \<Rightarrow> nat \<Rightarrow> sink_definition" where
  "sink_def name description language vulnerability argument =
     \<lparr>sk_name = name, sk_description = description, sk_language = language, sk_vulnerability = vulnerability, sk_argument = argument\<rparr>"

definition typescript_sources :: "source_definition list" where
  "typescript_sources =
     [source_def ''req.body'' ''Express request body'' ''typescript'' ''member_access'',
      source_def ''req.query'' ''Express request query'' ''typescript'' ''member_access'',
      source_def ''req.params'' ''Express request params'' ''typescript'' ''member_access'',
      source_def ''request.body'' ''Request body'' ''typescript'' ''member_access'',
      source_def ''request.query'' ''Request query'' ''typescript'' ''member_access'',
      source_def ''request.params'' ''Request params'' ''typescript'' ''member_access'',
      source_def ''ctx.request'' ''Koa context request'' ''typescript'' ''member_access'']"

definition python_sources :: "source_definition list" where
  "python_sources =
     [source_def ''request.POST'' ''Django request POST'' ''python'' ''attribute'',
      source_def ''request.GET'' ''Django request GET'' ''python'' ''attribute'',
      source_def ''request.args'' ''Flask request args'' ''python'' ''attribute'',
      source_def ''request.form'' ''Flask request form'' ''python'' ''attribute'']"

definition typescript_sinks :: "sink_definition list" where
  "typescript_sinks =
     [sink_def ''db.query'' ''Database query method'' ''typescript'' ''sql_injection'' 0,
      sink_def ''db.execute'' ''Database execute method'' ''typescript'' ''sql_injection'' 0,
      sink_def ''db.run'' ''Database run method'' ''typescript'' ''sql_injection'' 0,
      sink_def ''db.all'' ''Database all method'' ''typescript'' ''sql_injection'' 0,
      sink_def ''db.get'' ''Database get method'' ''typescript'' ''sql_injection'' 0,
      sink_def ''child_process.exec'' ''Child process exec'' ''typescript'' ''command_injection'' 0,
      sink_def ''child_process.execSync'' ''Child process execSync'' ''typescript'' ''command_injection'' 0,
      sink_def ''child_process.spawn'' ''Child process spawn'' ''typescript'' ''command_injection'' 0,
      sink_def ''child_process.spawnSync'' ''Child process spawnSync'' ''typescript'' ''command_injection'' 0,
      sink_def ''os.system'' ''OS system command'' ''typescript'' ''command_injection'' 0,
      sink_def ''fs.readFile'' ''File system read'' ''typescript'' ''path_traversal'' 0,
      sink_def ''fs.writeFile'' ''File system write'' ''typescript'' ''path_traversal'' 0,
      sink_def ''fs.open'' ''File system open'' ''typescript'' ''path_traversal'' 0]"

definition python_sinks :: "sink_definition list" where
  "python_sinks =
     [sink_def ''db.execute'' ''Database execute'' ''python'' ''sql_injection'' 0,
      sink_def ''cursor.execute'' ''Cursor execute'' ''python'' ''sql_injection'' 0,
      sink_def ''os.system'' ''OS system command'' ''python'' ''command_injection'' 0,
      sink_def ''subprocess.run'' ''Subprocess run'' ''python'' ''command_injection'' 0,
      sink_def ''subprocess.call'' ''Subprocess call'' ''python'' ''command_injection'' 0,
      sink_def ''subprocess.Popen'' ''Subprocess Popen'' ''python'' ''command_injection'' 0,
      sink_def ''open'' ''Builtin open'' ''python'' ''path_traversal'' 0]"

definition typical_input_parameter_names :: "string list" where
  "typical_input_parameter_names = [''req'', ''request'', ''ctx'', ''context'', ''input'', ''user_input'', ''query'', ''params'', ''args'', ''data'', ''body'', ''payload'']"

definition sql_method_names :: "string list" where
  "sql_method_names = [''query'', ''execute'', ''run'', ''all'', ''get'', ''fetch'', ''select'', ''insert'', ''update'', ''delete'']"

definition command_method_names :: "string list" where
  "command_method_names = [''exec'', ''execSync'', ''spawn'', ''spawnSync'', ''system'', ''popen'', ''call'', ''check_output'', ''check_call'']"

definition path_method_names :: "string list" where
  "path_method_names = [''readFile'', ''writeFile'', ''open'', ''readFileSync'', ''writeFileSync'', ''createReadStream'', ''createWriteStream'']"

definition script_languages :: "string list" where
  "script_languages = [''typescript'', ''javascript'', ''ts'', ''js'']"

definition sources_for_language :: "string \<Rightarrow> source_definition list" where
  "sources_for_language language =
     (if lower language \<in> set script_languages then typescript_sources
      else if lower language \<in> {''python'', ''py''} then python_sources else [])"

definition sinks_for_language :: "string \<Rightarrow> sink_definition list" where
  "sinks_for_language language =
     (if lower language \<in> set script_languages then typescript_sinks
      else if lower language \<in> {''python'', ''py''} then python_sinks else [])"

section \<open>What a walk leaves on the stack\<close>

text \<open>The nodes that a walk reaches and that have a property.\<close>

function count_nodes :: "(syntax_node \<Rightarrow> bool) \<Rightarrow> syntax_node \<Rightarrow> nat" where
  "count_nodes p n = (if p n then 1 else 0) + sum_list (map (count_nodes p) (named_children n))"
  by pat_completeness auto
termination by (relation "measure (\<lambda>(p, n). size n)") (auto intro: node_sizes)

declare count_nodes.simps [simp del]

text \<open>
  The contract of a visitor that keeps scopes: entering pushes at most one scope, visiting pushes and
  pops nothing, leaving pops at most one, and only for a kind of node whose entry pushes.
\<close>

locale scoped_visitor =
  fixes vi :: "'s visitor" and stack :: "'s \<Rightarrow> 'i list" and opens closes :: "syntax_node \<Rightarrow> bool"
  assumes enter: "\<exists>pre. length pre = (if opens n then 1 else 0) \<and> stack (vi_enter vi n s) = pre @ stack s"
    and visit: "stack (vi_visit vi n s) = stack s"
    and leave: "stack (vi_leave vi n s) = (if closes n then tl (stack s) else stack s)"
    and closes_opened: "closes n \<Longrightarrow> opens n"
begin

abbreviation left_open :: "syntax_node \<Rightarrow> nat" where
  "left_open \<equiv> count_nodes (\<lambda>n. opens n \<and> \<not> closes n)"

lemma walk_stack: "\<exists>pre. length pre = left_open n \<and> stack (walk_node [vi] n s) = pre @ stack s"
proof (induction n arbitrary: s rule: measure_induct_rule [where f = size])
  case (less n)
  have children: "\<exists>pre. length pre = sum_list (map left_open cs) \<and>
      stack (foldl (\<lambda>s c. walk_node [vi] c s) s cs) = pre @ stack s" if "\<forall>c\<in>set cs. size c < size n" for cs s
    using that
  proof (induction cs arbitrary: s)
    case (Cons c cs)
    obtain p where p: "length p = left_open c" "stack (walk_node [vi] c s) = p @ stack s"
      using Cons.prems less.IH by fastforce
    obtain q where "length q = sum_list (map left_open cs)"
      "stack (foldl (\<lambda>s c. walk_node [vi] c s) (walk_node [vi] c s) cs) = q @ stack (walk_node [vi] c s)"
      using Cons by fastforce
    then show ?case using p by (intro exI [of _ "q @ p"]) simp
  qed simp
  obtain e where e: "length e = (if opens n then 1 else 0)" "stack (vi_enter vi n s) = e @ stack s"
    using enter by blast
  obtain p where p: "length p = sum_list (map left_open (named_children n))"
    "stack (foldl (\<lambda>s c. walk_node [vi] c s) (vi_visit vi n (vi_enter vi n s)) (named_children n)) = p @ e @ stack s"
    using children [of "named_children n"] named_child_size visit e by metis
  have walk: "stack (walk_node [vi] n s) = (if closes n then tl (p @ e @ stack s) else p @ e @ stack s)"
    using p by (simp add: walk_node.simps [of _ n] leave Let_def)
  show ?case
  proof (cases "closes n")
    case True
    then have "length e = 1" using e closes_opened by simp
    then have "p @ e \<noteq> []" by auto
    then have "tl (p @ e @ stack s) = tl (p @ e) @ stack s" by (metis append_assoc tl_append2)
    then show ?thesis using True walk p e closes_opened
      by (intro exI [of _ "tl (p @ e)"]) (simp add: count_nodes.simps [of _ n])
  next
    case False
    then show ?thesis using walk p e
      by (intro exI [of _ "p @ e"]) (simp add: count_nodes.simps [of _ n])
  qed
qed

lemma walk_depth: "length (stack (walk_node [vi] n s)) = length (stack s) + left_open n"
  using walk_stack [of n s] by auto

lemma walk_balanced: "(\<And>n. opens n \<Longrightarrow> closes n) \<Longrightarrow> stack (walk_node [vi] n s) = stack s"
proof -
  assume "\<And>n. opens n \<Longrightarrow> closes n"
  then have none: "(\<lambda>n. opens n \<and> \<not> closes n) = (\<lambda>n. False)" by auto
  have "count_nodes (\<lambda>n. False) n = 0"
  proof (induction n rule: measure_induct_rule [where f = size])
    case (less n)
    then have "map (count_nodes (\<lambda>n. False)) (named_children n) = map (\<lambda>_. 0) (named_children n)"
      by (simp add: named_child_size)
    then show ?case by (simp add: count_nodes.simps [of _ n])
  qed
  then show ?thesis using walk_stack [of n s] none by simp
qed

end

definition visit_stack :: "visit_state \<Rightarrow> nat list" where
  "visit_stack s = sm_stack (vt_scopes s)"

lemma scopes_set_stack [simp]: "sm_stack (scopes_set name v m) = sm_stack m"
  by (simp add: scopes_set_def scope_set_def split: option.split)

lemma visit_stack_simps [simp]:
  "visit_stack (set_variable name v s) = visit_stack s"
  "visit_stack (note_value n v s) = visit_stack s"
  "visit_stack (visit_identifier cx n s) = visit_stack s"
  "visit_stack (visit_literal cx n s) = visit_stack s"
  "visit_stack (s\<lparr>vt_function := f\<rparr>) = visit_stack s"
  "visit_stack (open_scope kind l label s) = length (sm_all (vt_scopes s)) # visit_stack s"
  "visit_stack (close_scope s) = tl (visit_stack s)"
  by (simp_all add: visit_stack_def set_variable_def note_value_def visit_identifier_def visit_literal_def open_scope_def
      close_scope_def enter_scope_def leave_scope_def Let_def split: option.split list.split)

lemma ts_evaluate_stack:
  "visit_stack (fst (ts_evaluate cx n s)) = visit_stack s \<and> visit_stack (ts_template cx n s) = visit_stack s \<and>
   visit_stack (fst (ts_member cx n s)) = visit_stack s"
proof (induction n arbitrary: s rule: measure_induct_rule [where f = size])
  case (less n)
  have inner: "visit_stack s1 = visit_stack s" if "ts_evaluate cx c s = (s1, v)" "size c < size n" for c s s1 v
    using less [OF that(2), of s] that(1) by simp
  have at: "visit_stack (fst (ts_evaluate cx c s)) = visit_stack s" if "child_by_field f n = Some c" for f c s
    using less child_by_field_size [OF that] by blast
  have first: "visit_stack (fst (ts_evaluate cx c s)) = visit_stack s" if "first_named n = Some c" for c s
    using less child_size [OF first_named_in [OF that]] by blast
  note fields = at [of "''object''"] at [of "''left''"] at [of "''right''"] at [of "''argument''"] first
  let ?step = "\<lambda>p c. if nd_type c \<noteq> ''template_substitution'' then p
             else case child_by_field ''expression'' c of None \<Rightarrow> p
               | Some e \<Rightarrow> (case ts_evaluate cx e (fst p) of (s1, v) \<Rightarrow> (s1, snd p @ somes [v]))"
  have steps: "visit_stack (fst (foldl ?step (s, []) (nd_children n))) = visit_stack s" for s
  proof (rule foldl_invariant [where P = "\<lambda>p. visit_stack (fst p) = visit_stack s"])
    fix p :: "visit_state \<times> abstract_value list" and c
    assume c: "c \<in> set (nd_children n)" "visit_stack (fst p) = visit_stack s"
    have "visit_stack s1 = visit_stack (fst p)" if "child_by_field ''expression'' c = Some e" "ts_evaluate cx e (fst p) = (s1, v)" for e s1 v
      using inner [OF that(2)] child_by_field_size [OF that(1)] child_size [OF c(1)] by simp
    then show "visit_stack (fst (?step p c)) = visit_stack s"
      using c(2) by (auto split: option.split prod.split)
  qed simp
  have template: "visit_stack (ts_template cx n s) = visit_stack s" for s
  proof -
    obtain s1 vs where "foldl ?step (s, []) (nd_children n) = (s1, vs)" by fastforce
    then show ?thesis using steps [of s] by (simp add: ts_template.simps [of cx n])
  qed
  have member: "visit_stack (fst (ts_member cx n s)) = visit_stack s" for s
    by (simp add: ts_member.simps [of cx n] Let_def case_prod_beta fields split: option.split)
  have "visit_stack (fst (ts_evaluate cx n s)) = visit_stack s" for s
    by (simp add: ts_evaluate.simps [of cx n] Let_def case_prod_beta fields template member split: option.split)
  then show ?case using template member by blast
qed

lemma py_evaluate_stack:
  "visit_stack (fst (py_evaluate cx n s)) = visit_stack s \<and> visit_stack (fst (py_attribute cx n s)) = visit_stack s"
proof (induction n arbitrary: s rule: measure_induct_rule [where f = size])
  case (less n)
  have at: "visit_stack (fst (py_evaluate cx c s)) = visit_stack s" if "child_by_field f n = Some c" for f c s
    using less child_by_field_size [OF that] by blast
  note fields = at [of "''object''"] at [of "''left''"] at [of "''right''"]
  have attribute: "visit_stack (fst (py_attribute cx n s)) = visit_stack s" for s
    by (simp add: py_attribute.simps [of cx n] Let_def case_prod_beta fields split: option.split)
  have "visit_stack (fst (py_evaluate cx n s)) = visit_stack s" for s
    by (simp add: py_evaluate.simps [of cx n] Let_def case_prod_beta fields attribute split: option.split)
  then show ?case using attribute by blast
qed

lemma ts_stack_simps [simp]:
  "ts_evaluate cx n s = (s1, v) \<Longrightarrow> visit_stack s1 = visit_stack s"
  "visit_stack (ts_template cx n s) = visit_stack s"
  "py_evaluate cx n s = (s1, v) \<Longrightarrow> visit_stack s1 = visit_stack s"
  using ts_evaluate_stack [of cx n s] py_evaluate_stack [of cx n s] by simp_all

lemma ts_visit_stack: "visit_stack (ts_visit cx n s) = visit_stack s"
proof -
  have declarator: "visit_stack (ts_declarator cx n s) = visit_stack s" for n s
    by (auto simp: ts_declarator_def Let_def split: option.split prod.split)
  have "visit_stack (ts_assignment cx n s) = visit_stack s"
    by (auto simp: ts_assignment_def Let_def split: option.split prod.split)
  moreover have "visit_stack (foldl (\<lambda>s c. if nd_type c = ''variable_declarator'' then ts_declarator cx c s else s) s cs) =
      visit_stack s" for cs
    by (induction cs arbitrary: s) (simp_all add: declarator)
  ultimately show ?thesis using declarator by (simp add: ts_visit_def)
qed

lemma py_visit_stack: "visit_stack (py_visit cx n s) = visit_stack s"
  by (auto simp: py_visit_def py_assignment_def Let_def split: option.split prod.split)

lemma ts_parameters_stack: "visit_stack (foldl (ts_parameter cx) s ps) = visit_stack s"
  by (induction ps arbitrary: s) (simp_all add: ts_parameter_def Let_def)

definition ts_opens :: "syntax_node \<Rightarrow> bool" where
  "ts_opens n = (nd_type n \<in> set (''program'' # ts_function_types @ block_types))"

definition py_opens :: "syntax_node \<Rightarrow> bool" where
  "py_opens n = (nd_type n \<in> set ([''function_definition'', ''module''] @ py_block_types))"

interpretation ts: scoped_visitor "typescript_visitor cx" visit_stack ts_opens "\<lambda>n. nd_type n \<in> set ts_leaving_types" for cx
proof (standard, goal_cases)
  case (1 n s)
  show ?case
    by (auto simp: typescript_visitor_def ts_enter_def ts_opens_def ts_parameters_stack Let_def split: option.split)
next
  case (2 n s)
  show ?case by (simp add: typescript_visitor_def ts_visit_stack)
next
  case (3 n s)
  show ?case by (simp add: typescript_visitor_def ts_leave_def)
next
  case (4 n)
  then show ?case by (auto simp: ts_opens_def ts_leaving_types_def ts_function_types_def block_types_def)
qed

interpretation py: scoped_visitor "python_visitor cx" visit_stack py_opens py_opens for cx
proof (standard, goal_cases)
  case (1 n s)
  show ?case by (auto simp: python_visitor_def py_enter_def py_opens_def Let_def)
qed (simp_all add: python_visitor_def py_visit_stack py_leave_def py_opens_def)

section \<open>Properties\<close>

text \<open>
  The Python visitor leaves the stack of scopes as it found it, whatever the tree. The TypeScript
  visitor does not: it opens a scope for a method and for a braced block and never closes it, so a walk
  leaves the stack deeper by exactly the number of such nodes it reaches.
\<close>

theorem visitor_scope_depth:
  "visit_stack (walk_node [python_visitor cx] n s) = visit_stack s \<and>
   length (visit_stack (walk_node [typescript_visitor cx] n s)) =
     length (visit_stack s) + count_nodes (\<lambda>m. nd_type m \<in> {''method_definition'', ''statement_block''}) n"
proof -
  have "(\<lambda>m. ts_opens m \<and> nd_type m \<notin> set ts_leaving_types) = (\<lambda>m. nd_type m \<in> {''method_definition'', ''statement_block''})"
    by (rule ext) (auto simp: ts_opens_def ts_leaving_types_def ts_function_types_def block_types_def)
  then show ?thesis using ts.walk_depth [of cx n s] py.walk_balanced [of cx n s] by simp
qed

text \<open>The table names a sink that the analysis lets pass.\<close>

theorem tabled_sink_missed:
  "''db.get'' \<in> set (map sk_name (sinks_for_language ''typescript'')) \<and> sink_type ''db.get'' = None"
  by code_simp

end
