(* ===== verification/Feedback.thy ===== *)
theory Feedback
  imports Adjudication PyFloat JsonRoundtrip "HOL-Library.Multiset"
begin

text \<open>
  \<open>feedback/schema.py\<close>, \<open>feedback/policy.py\<close> and \<open>feedback/store.py\<close>: the events in which a user
  confirms or rejects a finding, the priors and the ranking made of them, and the file of events, a
  text of one JSON object per line. The clock is an argument; a file is its text, or \<open>None\<close> when there
  is none. \<open>Outside\<close> is a value the model does not follow: a character above 255, an infinite number
  or one that is not a number.
\<close>

datatype feedback_error = Raises py_error | Outside

type_synonym 'a followed = "feedback_error + 'a"

section \<open>Events\<close>

definition feedback_version :: string where
  "feedback_version = ''smartbench.feedback/v1''"

definition feedback_labels :: "string list" where
  "feedback_labels = map adjudication_value (filter (\<lambda>a. a \<noteq> UNKNOWN) all_adjudications)"

record feedback_event =
  ev_id :: string
  ev_recorded :: string
  ev_label :: string
  ev_rule :: string
  ev_language :: string
  ev_file :: string
  ev_line :: int
  ev_confidence :: "pyfloat option"
  ev_reason :: string
  ev_source :: string
  ev_trajectory :: string
  ev_signature :: string

definition py_pyfloat :: "pyfloat \<Rightarrow> pyval" where
  "py_pyfloat f = PFloat (fst f) (snd f)"

definition event_to_dict :: "feedback_event \<Rightarrow> attributes" where
  "event_to_dict e =
     [(''schema_version'', PStr feedback_version), (''event_id'', PStr (ev_id e)), (''recorded_at'', PStr (ev_recorded e)),
      (''label'', PStr (ev_label e)), (''rule_id'', PStr (ev_rule e)), (''language'', PStr (ev_language e)),
      (''file_path'', PStr (ev_file e)), (''line_start'', PInt (ev_line e)), (''reason'', PStr (ev_reason e)),
      (''source'', PStr (ev_source e)), (''trajectory_id'', PStr (ev_trajectory e)),
      (''finding_signature'', PStr (ev_signature e))] @
     (case ev_confidence e of None \<Rightarrow> [] | Some c \<Rightarrow> [(''confidence'', py_pyfloat c)])"

text \<open>\<open>str(raw.get(k, "")).strip()\<close>.\<close>

definition stripped :: "attributes \<Rightarrow> string \<Rightarrow> string" where
  "stripped d k = strip (attr_str [] d k)"

text \<open>\<open>int(raw.get("line_start", 0) or 0)\<close>.\<close>

definition line_value :: "attributes \<Rightarrow> int checked" where
  "line_value d =
     (case dict_get d ''line_start'' of None \<Rightarrow> Inr 0 | Some v \<Rightarrow> py_int (if py_truth v then v else PInt 0))"

text \<open>
  \<open>float(v)\<close>, with its text. An infinite number or one that is not a number is \<open>Outside\<close>.
\<close>

definition with_text :: "bool \<Rightarrow> pyfl \<Rightarrow> pyfloat option" where
  "with_text neg x = (case x of Finite q \<Rightarrow> (case float_value neg \<bar>q\<bar> of PFloat r t \<Rightarrow> Some (r, t) | _ \<Rightarrow> None) | _ \<Rightarrow> None)"

definition pyfloat_of :: "pyval \<Rightarrow> pyfloat followed" where
  "pyfloat_of v =
     (case v of
        PFloat q t \<Rightarrow> Inr (q, t)
      | _ \<Rightarrow> (case py_float v of
                Inl e \<Rightarrow> Inl (Raises e)
              | Inr x \<Rightarrow>
                  (case with_text (case v of PInt i \<Rightarrow> i < 0 | PStr s \<Rightarrow> starts_with ''-'' (strip s) | _ \<Rightarrow> False) x of
                     None \<Rightarrow> Inl Outside | Some f \<Rightarrow> Inr f)))"

text \<open>\<open>except (TypeError, ValueError)\<close>: an \<open>OverflowError\<close> escapes.\<close>

definition is_overflow :: "py_error \<Rightarrow> bool" where
  "is_overflow e = (case e of OverflowError m \<Rightarrow> True | _ \<Rightarrow> False)"

definition confidence_value :: "attributes \<Rightarrow> pyfloat option followed" where
  "confidence_value d =
     (case dict_get d ''confidence'' of
        None \<Rightarrow> Inr None
      | Some PNone \<Rightarrow> Inr None
      | Some v \<Rightarrow> (case pyfloat_of v of
            Inr f \<Rightarrow> Inr (Some f)
          | Inl (Raises e) \<Rightarrow> if is_overflow e then Inl (Raises e) else Inr None
          | Inl Outside \<Rightarrow> Inl Outside))"

definition event_from_dict :: "attributes \<Rightarrow> feedback_event option followed" where
  "event_from_dict d =
     (if dict_get d ''schema_version'' \<noteq> Some (PStr feedback_version) then Inr None
      else if stripped d ''label'' \<notin> set feedback_labels then Inr None
      else bind (confidence_value d) (\<lambda>c. Inr (Some
        \<lparr>ev_id = stripped d ''event_id'', ev_recorded = stripped d ''recorded_at'', ev_label = stripped d ''label'',
         ev_rule = stripped d ''rule_id'', ev_language = lower (stripped d ''language''), ev_file = stripped d ''file_path'',
         ev_line = (case line_value d of Inl e \<Rightarrow> 0 | Inr i \<Rightarrow> i), ev_confidence = c, ev_reason = stripped d ''reason'',
         ev_source = stripped d ''source'', ev_trajectory = stripped d ''trajectory_id'',
         ev_signature = stripped d ''finding_signature''\<rparr>)))"

definition label_message :: string where
  "label_message = ''label must be one of: '' @ join '', '' feedback_labels"

definition event_identity :: "string \<Rightarrow> string \<Rightarrow> string \<Rightarrow> string \<Rightarrow> int \<Rightarrow> string \<Rightarrow> string \<Rightarrow> string \<Rightarrow> string \<Rightarrow> attributes" where
  "event_identity label rule language path line reason source trajectory signature =
     [(''label'', PStr label), (''rule_id'', PStr (strip rule)), (''language'', PStr (lower (strip language))),
      (''file_path'', PStr (strip path)), (''line_start'', PInt line), (''reason'', PStr (strip reason)),
      (''source'', PStr (strip source)), (''trajectory_id'', PStr (strip trajectory)),
      (''finding_signature'', PStr (strip signature))]"

text \<open>\<open>round(float(confidence), 4)\<close>; the product with a power of ten is exact, as in \<open>round_digits\<close>.\<close>

definition rounded_confidence :: "pyfloat \<Rightarrow> pyfloat followed" where
  "rounded_confidence c =
     (case with_text (starts_with ''-'' (snd c)) (round_digits 4 (fst c)) of None \<Rightarrow> Inl Outside | Some f \<Rightarrow> Inr f)"

definition make_event ::
  "string \<Rightarrow> string \<Rightarrow> string \<Rightarrow> string \<Rightarrow> string \<Rightarrow> int \<Rightarrow> pyfloat option \<Rightarrow> string \<Rightarrow> string \<Rightarrow> string \<Rightarrow> string \<Rightarrow> string option
     \<Rightarrow> feedback_event followed" where
  "make_event now label rule language path line confidence reason source trajectory signature recorded =
     (if label \<notin> set feedback_labels then Inl (Raises (ValueError label_message))
      else bind (case confidence of None \<Rightarrow> Inr None | Some c \<Rightarrow> bind (rounded_confidence c) (\<lambda>f. Inr (Some f))) (\<lambda>c.
        Inr \<lparr>ev_id = take 16 (sha256_hex (json_dumps (PDict
               (event_identity label rule language path line reason source trajectory signature)))),
             ev_recorded = (case recorded of None \<Rightarrow> now | Some r \<Rightarrow> if r = [] then now else r), ev_label = label,
             ev_rule = strip rule, ev_language = lower (strip language), ev_file = strip path, ev_line = line,
             ev_confidence = c, ev_reason = strip reason, ev_source = strip source, ev_trajectory = strip trajectory,
             ev_signature = strip signature\<rparr>))"

definition error_if :: "bool \<Rightarrow> string \<Rightarrow> string list" where
  "error_if b m = (if b then [m] else [])"

definition confidence_errors :: "attributes \<Rightarrow> string list followed" where
  "confidence_errors d =
     (case dict_get d ''confidence'' of
        None \<Rightarrow> Inr []
      | Some PNone \<Rightarrow> Inr []
      | Some v \<Rightarrow> (case py_float v of
            Inl e \<Rightarrow> if is_overflow e then Inl (Raises e) else Inr [''confidence must be a number'']
          | Inr x \<Rightarrow> Inr (error_if (\<not> ((float_less (Finite 0) x \<or> float_equal (Finite 0) x) \<and>
                                     (float_less x (Finite 1) \<or> float_equal x (Finite 1)))) ''confidence must be between 0 and 1'')))"

definition validate_event :: "pyval \<Rightarrow> string list followed" where
  "validate_event v =
     (case v of
        PDict d \<Rightarrow>
          bind (confidence_errors d) (\<lambda>ce. Inr
            (error_if (dict_get d ''schema_version'' \<noteq> Some (PStr feedback_version))
               (''schema_version must be '' @ repr_str feedback_version) @
             error_if (stripped d ''event_id'' = []) ''event_id is required'' @
             error_if (stripped d ''recorded_at'' = []) ''recorded_at is required'' @
             error_if (stripped d ''label'' \<notin> set feedback_labels) label_message @
             (case line_value d of Inl e \<Rightarrow> [''line_start must be an integer''] | Inr i \<Rightarrow> []) @ ce))
      | _ \<Rightarrow> Inr [''event must be an object''])"

section \<open>The store\<close>

text \<open>One line of the file: nothing when it is no JSON, no object, or an invalid event.\<close>

definition read_event :: "string \<Rightarrow> feedback_event option followed" where
  "read_event line =
     (case json_loads line of
        Inl Malformed \<Rightarrow> Inr None
      | Inl Beyond \<Rightarrow> Inl Outside
      | Inr v \<Rightarrow> (case v of
            PDict d \<Rightarrow> bind (validate_event v) (\<lambda>es. if es \<noteq> [] then Inr None else event_from_dict d)
          | _ \<Rightarrow> Inr None))"

definition store_events :: "string option \<Rightarrow> feedback_event list followed" where
  "store_events content =
     (case content of None \<Rightarrow> Inr []
      | Some t \<Rightarrow> bind (traverse read_event (splitlines t)) (\<lambda>es. Inr (List.map_filter (\<lambda>x. x) es)))"

definition event_line :: "feedback_event \<Rightarrow> string" where
  "event_line e = json_dumps (PDict (event_to_dict e)) @ [CHR 0x0A]"

text \<open>\<open>writable\<close>: the directory and the file can be opened.\<close>

definition store_append :: "bool \<Rightarrow> feedback_event \<Rightarrow> string option \<Rightarrow> (string option \<times> bool) followed" where
  "store_append writable e content =
     bind (validate_event (PDict (event_to_dict e))) (\<lambda>es.
       if es \<noteq> [] then Inr (content, False)
       else bind (store_events content) (\<lambda>old.
         if list_ex (\<lambda>x. ev_id x = ev_id e) old then Inr (content, False)
         else if \<not> writable then Inr (content, False)
         else Inr (Some ((case content of None \<Rightarrow> [] | Some t \<Rightarrow> t) @ event_line e), True)))"

definition store_filter :: "string option \<Rightarrow> string option \<Rightarrow> string option \<Rightarrow> feedback_event list \<Rightarrow> feedback_event list" where
  "store_filter rule language label es =
     (let asked = (\<lambda>x. x \<noteq> None \<and> x \<noteq> Some []) in
      filter (\<lambda>e. (asked rule \<longrightarrow> rule = Some (ev_rule e)) \<and>
                  (asked language \<longrightarrow> map_option (\<lambda>l. lower (strip l)) language = Some (ev_language e)) \<and>
                  (asked label \<longrightarrow> label = Some (ev_label e))) es)"

definition label_counts :: "feedback_event list \<Rightarrow> (string, nat) dict" where
  "label_counts es = foldl (\<lambda>d e. dict_set (ev_label e) (dict_get_or 0 d (ev_label e) + 1) d) [] es"

section \<open>Priors\<close>

record feedback_prior =
  pr_rule :: string
  pr_language :: string
  pr_support :: nat
  pr_actionable :: nat
  pr_rejected :: nat
  pr_ratio :: pyfloat
  pr_labels :: "(string, nat) dict"

definition actionable_label :: string where
  "actionable_label = adjudication_value ACTIONABLE"

text \<open>\<open>round((actionable + 1) / (total + 2), 4)\<close> lies between 0 and 1, so it is finite.\<close>

definition smoothed_ratio :: "nat \<Rightarrow> nat \<Rightarrow> pyfloat" where
  "smoothed_ratio actionable support =
     (case true_divide (int actionable + 1) (int support + 2) of
        Finite q \<Rightarrow> (case with_text False (round_digits 4 q) of Some f \<Rightarrow> f | None \<Rightarrow> (0, ''0.0''))
      | _ \<Rightarrow> (0, ''0.0''))"

definition make_prior :: "string \<times> string \<Rightarrow> (string, nat) dict \<Rightarrow> feedback_prior" where
  "make_prior key counts =
     (let support = sum_list (dict_values counts); actionable = dict_get_or 0 counts actionable_label in
      \<lparr>pr_rule = fst key, pr_language = snd key, pr_support = support, pr_actionable = actionable,
       pr_rejected = support - actionable, pr_ratio = smoothed_ratio actionable support, pr_labels = counts\<rparr>)"

definition star :: "string \<Rightarrow> string" where
  "star s = (if s = [] then ''*'' else s)"

definition event_key :: "feedback_event \<Rightarrow> string \<times> string" where
  "event_key e = (star (ev_rule e), star (ev_language e))"

type_synonym prior_table = "(string \<times> string, feedback_prior) dict"

definition count_event :: "(string \<times> string, (string, nat) dict) dict \<Rightarrow> feedback_event \<Rightarrow> (string \<times> string, (string, nat) dict) dict" where
  "count_event buckets e =
     (let counts = dict_get_or [] buckets (event_key e) in
      dict_set (event_key e) (dict_set (ev_label e) (dict_get_or 0 counts (ev_label e) + 1) counts) buckets)"

definition build_priors :: "feedback_event list \<Rightarrow> prior_table" where
  "build_priors es = map (\<lambda>(k, c). (k, make_prior k c)) (foldl count_event [] es)"

definition prior_for :: "prior_table \<Rightarrow> string \<Rightarrow> string \<Rightarrow> feedback_prior option" where
  "prior_for ps rule language =
     (case dict_get ps (star rule, star language) of
        Some p \<Rightarrow> Some p
      | None \<Rightarrow> (case dict_get ps (star rule, ''*'') of
            Some p \<Rightarrow> Some p
          | None \<Rightarrow> dict_get ps (''*'', star language)))"

definition counts_value :: "(string, nat) dict \<Rightarrow> pyval" where
  "counts_value d = PDict (map (\<lambda>(k, n). (k, PInt (int n))) d)"

definition prior_to_dict :: "feedback_prior \<Rightarrow> pyval" where
  "prior_to_dict p = PDict
     [(''rule_id'', PStr (pr_rule p)), (''language'', PStr (pr_language p)), (''support'', PInt (int (pr_support p))),
      (''actionable'', PInt (int (pr_actionable p))), (''non_actionable'', PInt (int (pr_rejected p))),
      (''actionable_ratio'', py_pyfloat (pr_ratio p)), (''label_counts'', counts_value (pr_labels p))]"

definition sorted_priors :: "prior_table \<Rightarrow> prior_table" where
  "sorted_priors ps = sort_key fst ps"

section \<open>Ranking\<close>

definition language_suffixes :: "(string \<times> string) list" where
  "language_suffixes =
     [(''.py'', ''python''), (''.go'', ''go''), (''.js'', ''javascript''), (''.jsx'', ''javascript''), (''.ts'', ''typescript''),
      (''.tsx'', ''typescript''), (''.java'', ''java''), (''.kt'', ''kotlin''), (''.rs'', ''rust''), (''.rb'', ''ruby''),
      (''.c'', ''c''), (''.cc'', ''cpp''), (''.cpp'', ''cpp''), (''.h'', ''c''), (''.cs'', ''csharp''), (''.swift'', ''swift'')]"

text \<open>\<open>str(d.get(k) or "")\<close>.\<close>

definition text_or_empty :: "attributes \<Rightarrow> string \<Rightarrow> string" where
  "text_or_empty d k = (case dict_get d k of None \<Rightarrow> [] | Some v \<Rightarrow> if py_truth v then py_str v else [])"

definition finding_language :: "attributes \<Rightarrow> string" where
  "finding_language f =
     (let explicit = lower (strip (text_or_empty f ''language''));
          nested = (case dict_get f ''location'' of Some (PDict l) \<Rightarrow> text_or_empty l ''file_path'' | _ \<Rightarrow> []);
          path = (if nested = [] then text_or_empty f ''file_path'' else nested)
      in if explicit \<noteq> [] then explicit
         else case find (\<lambda>(suffix, l). ends_with suffix path) language_suffixes of Some (s, l) \<Rightarrow> l | None \<Rightarrow> [])"

text \<open>\<open>float(finding.get("confidence") or 0.0)\<close>.\<close>

definition finding_confidence :: "attributes \<Rightarrow> pyfl followed" where
  "finding_confidence f =
     (case dict_get f ''confidence'' of
        None \<Rightarrow> Inr (Finite 0)
      | Some v \<Rightarrow> (if py_truth v
          then (case py_float v of
                  Inl e \<Rightarrow> if is_overflow e then Inl (Raises e) else Inr (Finite 0)
                | Inr Not_A_Number \<Rightarrow> Inl Outside
                | Inr x \<Rightarrow> Inr x)
          else Inr (Finite 0)))"

record ranked =
  rk_score :: pyfloat
  rk_confidence :: pyfl
  rk_item :: attributes

definition feedback_item :: "pyfloat \<Rightarrow> feedback_prior option \<Rightarrow> pyval" where
  "feedback_item score p =
     (case p of
        None \<Rightarrow> PDict [(''score'', py_pyfloat score), (''actionable_ratio'', PNone), (''support'', PInt 0), (''label_counts'', PDict [])]
      | Some q \<Rightarrow> PDict [(''score'', py_pyfloat score), (''actionable_ratio'', py_pyfloat (pr_ratio q)),
          (''support'', PInt (int (pr_support q))), (''label_counts'', counts_value (pr_labels q))])"

definition rank_one :: "pyfloat \<Rightarrow> prior_table \<Rightarrow> attributes \<Rightarrow> ranked followed" where
  "rank_one dflt ps f =
     (let p = prior_for ps (text_or_empty f ''rule_id'') (finding_language f);
          score = (case p of None \<Rightarrow> dflt | Some q \<Rightarrow> pr_ratio q)
      in bind (finding_confidence f) (\<lambda>c.
        Inr \<lparr>rk_score = score, rk_confidence = c, rk_item = dict_set ''feedback'' (feedback_item score p) f\<rparr>))"

text \<open>The sort key \<open>(-score, -confidence, index)\<close>; the index is what a stable sort adds.\<close>

definition ranked_key :: "ranked \<Rightarrow> rat \<times> int \<times> rat" where
  "ranked_key r = (- fst (rk_score r), - fst (float_rank (rk_confidence r)), - snd (float_rank (rk_confidence r)))"

definition ranked_items :: "pyfloat \<Rightarrow> prior_table \<Rightarrow> attributes list \<Rightarrow> ranked list followed" where
  "ranked_items dflt ps fs = bind (traverse (rank_one dflt ps) fs) (\<lambda>rs. Inr (sort_key ranked_key rs))"

definition max_float :: "pyfloat list \<Rightarrow> pyval" where
  "max_float fs =
     (case fs of [] \<Rightarrow> PNone | f # gs \<Rightarrow> py_pyfloat (foldl (\<lambda>m x. if fst m < fst x then x else m) f gs))"

definition suggest_thresholds :: "feedback_event list \<Rightarrow> prior_table \<Rightarrow> nat \<Rightarrow> pyval list" where
  "suggest_thresholds es ps min_support =
     map (\<lambda>(key, p).
       PDict [(''rule_id'', PStr (fst key)), (''language'', PStr (snd key)), (''support'', PInt (int (pr_support p))),
         (''actionable_ratio'', py_pyfloat (pr_ratio p)),
         (''suggested_min_confidence'', max_float (List.map_filter ev_confidence
            (filter (\<lambda>e. event_key e = key \<and> ev_label e \<noteq> actionable_label) es))),
         (''note'', PStr ''advisory only; findings are never suppressed'')])
       (filter (\<lambda>(key, p). \<not> (pr_support p < min_support \<or> 1 / 2 \<le> fst (pr_ratio p))) (sorted_priors ps))"

definition rank_version :: string where
  "rank_version = ''smartbench.feedback.rank/v1''"

definition rank_findings :: "pyfloat \<Rightarrow> attributes list \<Rightarrow> feedback_event list \<Rightarrow> attributes followed" where
  "rank_findings dflt fs es =
     (let ps = build_priors es in
      bind (ranked_items dflt ps fs) (\<lambda>rs. Inr
        [(''schema_version'', PStr rank_version),
         (''findings'', PList (map (\<lambda>r. PDict (rk_item r)) rs)),
         (''policy'', PDict
            [(''ranked'', PInt (int (length rs))), (''suppressed'', PInt 0), (''note'', PStr ''ranking only; no finding is dropped''),
             (''priors'', PList (map (\<lambda>(k, p). prior_to_dict p) (sorted_priors ps))),
             (''advisory_thresholds'', PList (suggest_thresholds es ps 3))])]))"

section \<open>Counting\<close>

lemma dict_get_in: "dict_get d k = Some v \<Longrightarrow> (k, v) \<in> set d"
  by (simp add: dict_get_def map_of_SomeD)

definition count_label :: "(string, nat) dict \<Rightarrow> string \<Rightarrow> (string, nat) dict" where
  "count_label d l = dict_set l (dict_get_or 0 d l + 1) d"

lemma sum_count_label: "sum_list (dict_values (count_label d l)) = Suc (sum_list (dict_values d))"
  by (induction d) (auto simp: count_label_def dict_set_def dict_values_def dict_get_or_get dict_get_Cons)

lemma get_count_labels: "dict_get_or 0 (foldl count_label d ls) l = dict_get_or 0 d l + length (filter (\<lambda>x. x = l) ls)"
  by (induction ls arbitrary: d) (auto simp: count_label_def)

lemma sum_count_labels: "sum_list (dict_values (foldl count_label d ls)) = sum_list (dict_values d) + length ls"
  by (induction ls arbitrary: d) (simp_all add: sum_count_label)

lemma bucket:
  "dict_get (foldl count_event [] es) k =
     (let own = filter (\<lambda>e. event_key e = k) es in
      if own = [] then None else Some (foldl count_label [] (map ev_label own)))"
proof (induction es rule: rev_induct)
  case (snoc e es)
  then show ?case by (auto simp: count_event_def count_label_def Let_def dict_get_or_get)
qed simp

lemma dict_get_map: "dict_get (map (\<lambda>(k, v). (k, f k v)) d) k = map_option (f k) (dict_get d k)"
  by (induction d) (auto simp: dict_get_Cons)

lemma get_build_priors:
  "dict_get (build_priors es) k =
     (let own = filter (\<lambda>e. event_key e = k) es in
      if own = [] then None else Some (make_prior k (foldl count_label [] (map ev_label own))))"
  by (simp add: build_priors_def dict_get_map bucket Let_def)

section \<open>Lines of the store\<close>

definition line_free :: "string \<Rightarrow> bool" where
  "line_free s = list_all (\<lambda>c. \<not> is_line_end c) s"





lemma line_free_simps [simp]:
  "line_free []" "line_free (c # s) \<longleftrightarrow> \<not> is_line_end c \<and> line_free s" "line_free (s @ t) \<longleftrightarrow> line_free s \<and> line_free t"
  by (simp_all add: line_free_def)


lemma digits_line_free [simp]: "line_free (digits_of n)"
proof (induction n rule: digits_of.induct)
  case (1 n)
  have "\<not> is_line_end (char_of (48 + k))" if "k < 10" for k :: nat
    using that by (auto simp: is_line_end_def Let_def)
  then show ?case using 1 by (subst digits_of.simps) simp
qed



section \<open>What is written is read back\<close>
















section \<open>Properties\<close>


definition sample_event :: "string \<Rightarrow> feedback_event" where
  "sample_event reason =
     \<lparr>ev_id = ''e'', ev_recorded = ''t'', ev_label = ''actionable'', ev_rule = ''r'', ev_language = ''go'', ev_file = ''f'', ev_line = 3, ev_confidence = None, ev_reason = reason, ev_source = [], ev_trajectory = [], ev_signature = []\<rparr>"


text \<open>
  The hypothesis on the next-line character is needed: an event with it in a text is accepted, and
  written as one line, but what is written reads as two lines.
\<close>

theorem next_line_splits_event:
  "(case store_append True (sample_event [CHR ''a'', CHR 0x85, CHR ''b'']) None of Inl _ \<Rightarrow> False | Inr (content', ok) \<Rightarrow> ok) \<and>
   length (splitlines (json_dumps (PStr [CHR ''a'', CHR 0x85, CHR ''b'']))) = 2"
  by (rule conjI) code_simp+

text \<open>
  A line whose confidence is a huge integer is not skipped: reading the whole file raises
  \<open>OverflowError\<close>.
\<close>

theorem huge_confidence_aborts:
  "validate_event (PDict (event_to_dict (sample_event []) @ [(''confidence'', PInt (10 ^ 400))])) =
     Inl (Raises (OverflowError ''int too large to convert to float''))"
  by code_simp

text \<open>
  The prior of a rule and a language counts exactly the events with that key: its support is their
  number, its actionable count those of them that confirm, and the two counts add up to the support. A
  key without events has no prior.
\<close>

theorem priors_count_events:
  "case dict_get (build_priors es) k of
     None \<Rightarrow> filter (\<lambda>e. event_key e = k) es = []
   | Some p \<Rightarrow> (pr_rule p, pr_language p) = k \<and>
       pr_support p = length (filter (\<lambda>e. event_key e = k) es) \<and> 0 < pr_support p \<and>
       pr_actionable p = length (filter (\<lambda>e. event_key e = k \<and> ev_label e = ''actionable'') es) \<and>
       pr_actionable p + pr_rejected p = pr_support p"
proof -
  let ?own = "filter (\<lambda>e. event_key e = k) es"
  have labels: "length (filter (\<lambda>x. x = l) (map ev_label ?own)) = length (filter (\<lambda>e. event_key e = k \<and> ev_label e = l) es)" for l
    by (simp add: filter_map comp_def conj_commute)
  moreover have "length (filter (\<lambda>e. event_key e = k \<and> ev_label e = l) es) \<le> length ?own" for l
    by (induction es) auto
  moreover have "sum_list (dict_values (foldl count_label [] ls)) = length ls" for ls
    by (simp add: sum_count_labels) (simp add: dict_values_def)
  ultimately show ?thesis
    by (auto simp: get_build_priors Let_def make_prior_def actionable_label_def get_count_labels)
qed

text \<open>
  Only events that name no language make a prior that serves other languages: with events that all
  name a rule and a language, the lookup for a finding succeeds only for the very rule and language of
  some event. The fallbacks that the documentation announces are not aggregated.
\<close>

theorem no_fallback_prior:
  assumes "list_all (\<lambda>e. ev_rule e \<notin> {[], ''*''} \<and> ev_language e \<notin> {[], ''*''}) es"
  shows "prior_for (build_priors es) rule language = dict_get (build_priors es) (star rule, star language)"
proof -
  have "filter (\<lambda>e. event_key e = k) es = []" if "fst k = ''*'' \<or> snd k = ''*''" for k
    using assms that by (auto simp: list_all_iff filter_empty_conv event_key_def star_def)
  then show ?thesis by (simp add: prior_for_def get_build_priors Let_def split: option.split)
qed

text \<open>The score that a ranked finding shows.\<close>

definition shown_score :: "attributes \<Rightarrow> rat" where
  "shown_score f =
     (case dict_get f ''feedback'' of
        Some (PDict fb) \<Rightarrow> (case dict_get fb ''score'' of Some (PFloat q t) \<Rightarrow> q | _ \<Rightarrow> 0)
      | _ \<Rightarrow> 0)"

definition annotated :: "pyfloat \<Rightarrow> prior_table \<Rightarrow> attributes \<Rightarrow> attributes" where
  "annotated dflt ps f =
     (let p = prior_for ps (text_or_empty f ''rule_id'') (finding_language f)
      in dict_set ''feedback'' (feedback_item (case p of None \<Rightarrow> dflt | Some q \<Rightarrow> pr_ratio q) p) f)"

lemma rank_one_item:
  "rank_one dflt ps f = Inr r \<Longrightarrow> rk_item r = annotated dflt ps f \<and> shown_score (rk_item r) = fst (rk_score r)"
  by (auto simp: rank_one_def annotated_def bind_Inr Let_def shown_score_def feedback_item_def dict_get_Cons py_pyfloat_def
      split: option.splits)

text \<open>
  Ranking loses nothing: the ranked findings are a permutation of the given ones, each unchanged but
  for its annotation, in the order of decreasing score, and the report says so: as many ranked as
  given, none suppressed.
\<close>

theorem ranking_keeps_findings:
  assumes "rank_findings dflt fs es = Inr d"
  shows "\<exists>items. dict_get d ''findings'' = Some (PList (map PDict items)) \<and>
     mset items = mset (map (annotated dflt (build_priors es)) fs) \<and> sorted (map (\<lambda>f. - shown_score f) items) \<and>
     (\<exists>policy. dict_get d ''policy'' = Some (PDict policy) \<and> dict_get policy ''ranked'' = Some (PInt (int (length fs))) \<and>
        dict_get policy ''suppressed'' = Some (PInt 0))"
proof -
  obtain us where us: "traverse (rank_one dflt (build_priors es)) fs = Inr us"
    "d = [(''schema_version'', PStr rank_version), (''findings'', PList (map (\<lambda>r. PDict (rk_item r)) (sort_key ranked_key us))),
         (''policy'', PDict [(''ranked'', PInt (int (length us))), (''suppressed'', PInt 0),
             (''note'', PStr ''ranking only; no finding is dropped''),
             (''priors'', PList (map (\<lambda>(k, p). prior_to_dict p) (sorted_priors (build_priors es)))),
             (''advisory_thresholds'', PList (suggest_thresholds es (build_priors es) 3))])]"
    using assms by (auto simp: rank_findings_def ranked_items_def bind_Inr Let_def)
  have "map rk_item us = map (annotated dflt (build_priors es)) fs \<and> list_all (\<lambda>r. shown_score (rk_item r) = fst (rk_score r)) us"
    using us(1) by (induction fs arbitrary: us) (auto simp: bind_Inr dest: rank_one_item)
  then have items: "mset (map rk_item (sort_key ranked_key us)) = mset (map (annotated dflt (build_priors es)) fs)"
    "length us = length fs" "\<forall>r\<in>set us. shown_score (rk_item r) = fst (rk_score r)"
    by (metis mset_map mset_sort, metis length_map, simp add: list_all_iff)
  have "sorted (map ranked_key (sort_key ranked_key us))" by simp
  then have "sorted (map (\<lambda>r. - fst (rk_score r)) (sort_key ranked_key us))"
    unfolding sorted_map by (rule sorted_wrt_mono_rel [rotated]) (auto simp: ranked_key_def)
  moreover have "map (\<lambda>r. - fst (rk_score r)) (sort_key ranked_key us) = map (\<lambda>f. - shown_score f) (map rk_item (sort_key ranked_key us))"
    using items(3) by simp
  ultimately show ?thesis using us(2) items(1,2)
    by (intro exI [of _ "map rk_item (sort_key ranked_key us)"]) (simp add: dict_get_def comp_def)
qed

theorem ranking_keeps_findings_witness:
  "case rank_findings (1 / 2, ''0.5'') [[(''rule_id'', PStr ''a'')], [(''rule_id'', PStr ''b''), (''confidence'', PFloat 1 ''1.0'')]] [] of
     Inl _ \<Rightarrow> False
   | Inr d \<Rightarrow> \<exists>items. dict_get d ''findings'' = Some (PList (map PDict items)) \<and> length items = 2"
proof -
  let ?fs = "[[(''rule_id'', PStr ''a'')], [(''rule_id'', PStr ''b''), (''confidence'', PFloat 1 ''1.0'')]]"
  have "case rank_findings (1 / 2, ''0.5'') ?fs [] of Inl _ \<Rightarrow> False | Inr d \<Rightarrow> True" by code_simp
  then obtain d where d: "rank_findings (1 / 2, ''0.5'') ?fs [] = Inr d" by (auto split: sum.splits)
  obtain items where "dict_get d ''findings'' = Some (PList (map PDict items))"
    "mset items = mset (map (annotated (1 / 2, ''0.5'') (build_priors [])) ?fs)"
    using ranking_keeps_findings [OF d] by blast
  then show ?thesis using d mset_eq_length by fastforce
qed

end
