(* ===== verification/ProjectReader.thy ===== *)
theory ProjectReader
  imports ResourceLifecycle Debate Rules "HOL-Library.Multiset"
begin

text \<open>
  \<open>engine/project_reader.py\<close>: an agent proposes which calls of the project acquire a resource and
  which deferred methods release it; the proposal is parsed, bound to the facts of a bounded
  inventory, and validated against the program before an analyser may use it. The language model is an
  argument that sees the number of calls made so far; the prose of the two prompts around the texts
  that the code puts into them is an argument. \<open>Unfollowed\<close> is a reply whose JSON the model does not
  follow (a character above 255, a number that is no finite double).
\<close>

section \<open>Hypotheses of the agent\<close>

record candidate =
  cd_id :: string
  cd_operation :: string
  cd_acquire :: string
  cd_index :: nat
  cd_methods :: "string list"
  cd_confidence :: pyfloat
  cd_facts :: "string list"
  cd_mode :: match_mode
  cd_member :: string
  cd_receiver_type :: string
  cd_canonical :: string
  cd_type_ids :: "string list"

record project_model =
  pm_summary :: string
  pm_components :: "string list"
  pm_candidates :: "candidate list"
  pm_uncertainties :: "string list"

definition project_model_fields :: "string list" where
  "project_model_fields = [''architecture_summary'', ''components'', ''resource_candidates'', ''uncertainties'']"

definition candidate_required :: "string list" where
  "candidate_required =
     [''candidate_id'', ''operation_id'', ''acquire_symbol'', ''resource_result_index'', ''cleanup_methods'', ''confidence'']"

definition candidate_optional :: "string list" where
  "candidate_optional =
     [''acquire_match_mode'', ''resource_member_path'', ''receiver_type'', ''canonical_acquire'', ''type_evidence_ids'', ''fact_ids'']"

definition value_error :: "string \<Rightarrow> 'a checked" where
  "value_error m = Inl (ValueError m)"

definition ensure :: "bool \<Rightarrow> string \<Rightarrow> unit checked" where
  "ensure ok m = (if ok then Inr () else value_error m)"

definition bounded_string :: "pyval \<Rightarrow> string \<Rightarrow> nat \<Rightarrow> string checked" where
  "bounded_string v path limit =
     (case v of
        PStr s \<Rightarrow>
          (if strip s = [] then value_error (path @ '' must be a non-empty string'')
           else if limit < length s then value_error (path @ '' exceeds '' @ str_of_nat limit @ '' characters'')
           else Inr (strip s))
      | _ \<Rightarrow> value_error (path @ '' must be a non-empty string''))"

definition optional_bounded_string :: "pyval \<Rightarrow> string \<Rightarrow> nat \<Rightarrow> string checked" where
  "optional_bounded_string v path limit =
     (case v of
        PStr s \<Rightarrow>
          (if limit < length s then value_error (path @ '' exceeds '' @ str_of_nat limit @ '' characters'')
           else Inr (strip s))
      | _ \<Rightarrow> value_error (path @ '' must be a string''))"

definition bounded_tuple :: "pyval \<Rightarrow> string \<Rightarrow> nat \<Rightarrow> nat \<Rightarrow> string list checked" where
  "bounded_tuple v path most len =
     (let bad = value_error (path @ '' must be a list with at most '' @ str_of_nat most @ '' items'') in
      case v of
        PList vs \<Rightarrow> if most < length vs then bad
          else traverse (\<lambda>x. bounded_string x (path @ ''[]'') len) vs
      | _ \<Rightarrow> bad)"

text \<open>\<open>set(value) - allowed\<close> in the order of \<open>sorted\<close>.\<close>

definition unknown_fields :: "attributes \<Rightarrow> string list \<Rightarrow> string list" where
  "unknown_fields d allowed = sorted_set (filter (\<lambda>k. k \<notin> set allowed) (dict_keys d))"

definition missing_fields :: "attributes \<Rightarrow> string list \<Rightarrow> string list" where
  "missing_fields d required = sorted_set (filter (\<lambda>k. k \<notin> set (dict_keys d)) required)"

definition field_errors :: "attributes \<Rightarrow> string list" where
  "field_errors d =
     (let unknown = unknown_fields d (candidate_required @ candidate_optional); missing = missing_fields d candidate_required
      in (if unknown = [] then [] else [''unknown='' @ join '','' unknown]) @
         (if missing = [] then [] else [''missing='' @ join '','' missing]))"

definition parse_index :: "pyval \<Rightarrow> string \<Rightarrow> nat checked" where
  "parse_index v path =
     (case v of
        PInt i \<Rightarrow> if i < 0 then value_error (path @ ''.resource_result_index must be non-negative'') else Inr (nat i)
      | _ \<Rightarrow> value_error (path @ ''.resource_result_index must be non-negative''))"

text \<open>\<open>float(v)\<close> of a huge integer raises \<open>OverflowError\<close>.\<close>

definition candidate_confidence :: "pyval \<Rightarrow> string \<Rightarrow> pyfloat checked" where
  "candidate_confidence v path =
     (let bad = value_error (path @ ''.confidence must be between 0 and 1'') in
      case v of
        PInt i \<Rightarrow>
          (if 2 ^ 1024 - 2 ^ 970 \<le> \<bar>i\<bar> then Inl (OverflowError ''int too large to convert to float'')
           else if i = 0 then Inr (0, ''0.0'') else if i = 1 then Inr float_one else bad)
      | PFloat q t \<Rightarrow> if unit_interval (q, t) then Inr (q, t) else bad
      | _ \<Rightarrow> value_error (path @ ''.confidence must be numeric''))"

definition all_match_modes :: "match_mode list" where
  "all_match_modes = [EXACT, METHOD_SHAPE, TYPED_METHOD]"

definition parse_mode :: "pyval \<Rightarrow> string \<Rightarrow> match_mode checked" where
  "parse_mode v path =
     (let bad = value_error (path @ ''.acquire_match_mode must be exact, method_shape, or typed_method'') in
      case v of
        PStr s \<Rightarrow> (case find (\<lambda>m. match_mode_value m = s) all_match_modes of None \<Rightarrow> bad | Some m \<Rightarrow> Inr m)
      | _ \<Rightarrow> bad)"

definition parse_member :: "pyval \<Rightarrow> string \<Rightarrow> string checked" where
  "parse_member v path =
     (case v of
        PStr s \<Rightarrow>
          (if 200 < length s then value_error (path @ ''.resource_member_path must be a bounded string'')
           else if strip s \<noteq> [] \<and> \<not> is_dotted_path (strip s)
           then value_error (path @ ''.resource_member_path must be a dotted identifier'')
           else Inr (strip s))
      | _ \<Rightarrow> value_error (path @ ''.resource_member_path must be a bounded string''))"

definition parse_candidate :: "pyval \<Rightarrow> nat \<Rightarrow> candidate checked" where
  "parse_candidate value index =
     (let path = ''resource_candidates['' @ str_of_nat index @ '']'' in
      case value of
        PDict d \<Rightarrow>
          (let get = dict_get_or PNone d; opt = \<lambda>v k. dict_get_or v d k in
           bind (ensure (field_errors d = []) (path @ '' has invalid fields ('' @ join ''; '' (field_errors d) @ '')'')) (\<lambda>_.
           bind (parse_index (get ''resource_result_index'') path) (\<lambda>result_index.
           bind (candidate_confidence (get ''confidence'') path) (\<lambda>confidence.
           bind (bounded_tuple (get ''cleanup_methods'') (path @ ''.cleanup_methods'') 10 100) (\<lambda>methods.
           bind (ensure (methods \<noteq> [] \<and> list_all is_identifier methods)
             (path @ ''.cleanup_methods contains an invalid method name'')) (\<lambda>_.
           bind (bounded_tuple (opt (PList []) ''fact_ids'') (path @ ''.fact_ids'') 20 100) (\<lambda>facts.
           bind (parse_mode (opt (PStr ''exact'') ''acquire_match_mode'') path) (\<lambda>mode.
           bind (parse_member (opt (PStr []) ''resource_member_path'') path) (\<lambda>member.
           bind (ensure (mode \<notin> {METHOD_SHAPE, TYPED_METHOD} \<or> member \<noteq> [])
             (path @ ''.generalized match requires resource_member_path'')) (\<lambda>_.
           bind (optional_bounded_string (opt (PStr []) ''receiver_type'') (path @ ''.receiver_type'') 300) (\<lambda>rtype.
           bind (optional_bounded_string (opt (PStr []) ''canonical_acquire'') (path @ ''.canonical_acquire'') 500) (\<lambda>canonical.
           bind (bounded_tuple (opt (PList []) ''type_evidence_ids'') (path @ ''.type_evidence_ids'') 20 100) (\<lambda>types.
           bind (ensure (mode \<noteq> TYPED_METHOD \<or> (rtype \<noteq> [] \<and> canonical \<noteq> []))
             (path @ ''.typed_method requires receiver type hypotheses'')) (\<lambda>_.
           bind (ensure (mode = TYPED_METHOD \<or> (rtype = [] \<and> canonical = [] \<and> types = []))
             (path @ ''.type evidence fields require typed_method'')) (\<lambda>_.
           bind (bounded_string (get ''candidate_id'') (path @ ''.candidate_id'') 100) (\<lambda>cid.
           bind (bounded_string (get ''operation_id'') (path @ ''.operation_id'') 100) (\<lambda>oid.
           bind (bounded_string (get ''acquire_symbol'') (path @ ''.acquire_symbol'') 300) (\<lambda>symbol.
           Inr \<lparr>cd_id = cid, cd_operation = oid, cd_acquire = symbol, cd_index = result_index, cd_methods = methods,
             cd_confidence = confidence, cd_facts = facts, cd_mode = mode, cd_member = member,
             cd_receiver_type = rtype, cd_canonical = canonical, cd_type_ids = types\<rparr>))))))))))))))))))
      | _ \<Rightarrow> value_error (path @ '' must be an object''))"

text \<open>The loop over the raw candidates: \<open>except ValueError\<close> turns a bad one into an uncertainty.\<close>

fun parse_candidates ::
  "nat \<Rightarrow> candidate list \<times> string list \<Rightarrow> pyval list \<Rightarrow> (candidate list \<times> string list) checked" where
  "parse_candidates index acc [] = Inr acc"
| "parse_candidates index (cs, errs) (v # vs) =
     (case parse_candidate v index of
        Inl (ValueError m) \<Rightarrow> parse_candidates (Suc index) (cs, errs @ [''candidate rejected: '' @ m]) vs
      | Inl e \<Rightarrow> Inl e
      | Inr c \<Rightarrow>
          (if cd_id c \<in> set (map cd_id cs)
           then parse_candidates (Suc index) (cs, errs @ [''candidate rejected: duplicate candidate ID '' @ repr_str (cd_id c)]) vs
           else parse_candidates (Suc index) (cs @ [c], errs) vs))"

definition parse_project_model :: "attributes option \<Rightarrow> project_model checked" where
  "parse_project_model value =
     (case value of
        None \<Rightarrow> value_error ''output must be a JSON object''
      | Some d \<Rightarrow>
          (let unknown = unknown_fields d project_model_fields; opt = \<lambda>v k. dict_get_or v d k;
               many = value_error ''resource_candidates must be a list with at most 30 items'' in
           bind (ensure (unknown = []) (''unknown project model fields: '' @ join '', '' unknown)) (\<lambda>_.
           case opt (PList []) ''resource_candidates'' of
             PList vs \<Rightarrow>
               (if 30 < length vs then many
                else bind (parse_candidates 0 ([], []) vs) (\<lambda>(cs, errs).
                     bind (bounded_tuple (opt (PList []) ''uncertainties'') ''uncertainties'' 50 500) (\<lambda>declared.
                     bind (bounded_string (opt (PStr []) ''architecture_summary'') ''architecture_summary'' 2000) (\<lambda>summary.
                     bind (bounded_tuple (opt (PList []) ''components'') ''components'' 50 200) (\<lambda>components.
                     Inr \<lparr>pm_summary = summary, pm_components = components, pm_candidates = cs,
                       pm_uncertainties = declared @ errs\<rparr>)))))
           | _ \<Rightarrow> many)))"

definition py_strs :: "string list \<Rightarrow> pyval" where
  "py_strs ss = PList (map PStr ss)"

definition candidate_to_dict :: "candidate \<Rightarrow> pyval" where
  "candidate_to_dict c = PDict
     [(''candidate_id'', PStr (cd_id c)), (''operation_id'', PStr (cd_operation c)), (''acquire_symbol'', PStr (cd_acquire c)),
      (''resource_result_index'', PInt (int (cd_index c))), (''cleanup_methods'', py_strs (cd_methods c)),
      (''acquire_match_mode'', PStr (match_mode_value (cd_mode c))), (''resource_member_path'', PStr (cd_member c)),
      (''receiver_type'', PStr (cd_receiver_type c)), (''canonical_acquire'', PStr (cd_canonical c)),
      (''type_evidence_ids'', py_strs (cd_type_ids c)),
      (''confidence'', PFloat (fst (cd_confidence c)) (snd (cd_confidence c))), (''fact_ids'', py_strs (cd_facts c))]"

definition project_model_dict :: "project_model \<Rightarrow> pyval" where
  "project_model_dict m = PDict
     [(''architecture_summary'', PStr (pm_summary m)), (''components'', py_strs (pm_components m)),
      (''resource_candidates'', PList (map candidate_to_dict (pm_candidates m))),
      (''uncertainties'', py_strs (pm_uncertainties m))]"

section \<open>The inventory\<close>

definition inventory_evidence_key :: "evidence_ref \<Rightarrow> string \<times> int \<times> int \<times> string" where
  "inventory_evidence_key r = (er_file r, er_line_start r, er_line_end r, er_snippet r)"

definition dedupe_evidence :: "evidence_ref list \<Rightarrow> evidence_ref list" where
  "dedupe_evidence rs = dedup_by inventory_evidence_key [] rs"

definition result_call_fact :: "type_index \<Rightarrow> (string, operation) dict \<Rightarrow> operation \<Rightarrow> semantic_fact" where
  "result_call_fact ix ops p =
     (let received = ti_for_operation ix (op_id p) (Some RECEIVER) in
      \<lparr>sf_subject = op_scope p, sf_predicate = Kind CALLS, sf_object = op_target p,
       sf_evidence = dedupe_evidence (op_location p # concat (map te_evidence received)), sf_confidence = float_one,
       sf_attributes =
         [(''operation_id'', PStr (op_id p)), (''operation_kind'', PStr (op_kind_value (op_kind p))),
          (''inventory_role'', PStr ''result_call''), (''result_targets'', py_strs (result_targets p)),
          (''receiver'', PStr (attr_str [] (op_attributes p) ''receiver'')),
          (''primary_result_call'', PBool (is_primary_result_call p ops)),
          (''receiver_type'', PStr (ti_unique_type ix (op_id p) RECEIVER)),
          (''canonical_receiver_symbols'', py_strs (ti_canonical_symbols ix (op_id p) RECEIVER)),
          (''type_evidence_ids'', py_strs (map te_id received))]\<rparr>)"

definition cleanup_fact :: "operation \<Rightarrow> semantic_fact" where
  "cleanup_fact p =
     \<lparr>sf_subject = op_scope p, sf_predicate = Kind CALLS, sf_object = op_target p,
      sf_evidence = [op_location p], sf_confidence = float_one,
      sf_attributes =
        [(''operation_id'', PStr (op_id p)), (''operation_kind'', PStr (op_kind_value (op_kind p))),
         (''inventory_role'', PStr ''cleanup_registration''), (''receiver'', PStr (attr_str [] (op_attributes p) ''receiver''))]\<rparr>"

definition inventory_fact :: "type_index \<Rightarrow> (string, operation) dict \<Rightarrow> operation \<Rightarrow> semantic_fact option" where
  "inventory_fact ix ops p =
     (if op_kind p = CALL \<and> result_targets p \<noteq> [] then Some (result_call_fact ix ops p)
      else if op_kind p = DEFER then Some (cleanup_fact p) else None)"

definition inventory_facts :: "semantic_ir \<Rightarrow> semantic_fact list" where
  "inventory_facts ir =
     List.map_filter (inventory_fact (make_type_index (ir_types ir)) (ops_by_id (ir_operations ir)))
       (sort_key op_order (ir_operations ir))"

type_synonym group = "semantic_fact list"

definition scope_groups :: "semantic_fact list \<Rightarrow> semantic_fact list list" where
  "scope_groups fs = dict_values (foldl (\<lambda>d f. dict_append (sf_subject f) f d) [] fs)"

text \<open>The bisection order: the midpoints of the ranges, one level after the other.\<close>

function midpoint_rounds :: "'a list \<Rightarrow> (nat \<times> nat) list \<Rightarrow> 'a list" where
  "midpoint_rounds items ranges =
     (if ranges = [] then []
      else (let open_ranges = filter (\<lambda>r. fst r < snd r) ranges in
        map (\<lambda>r. items ! ((fst r + snd r) div 2)) open_ranges @
        midpoint_rounds items
          (concat (map (\<lambda>r. [(fst r, (fst r + snd r) div 2), ((fst r + snd r) div 2 + 1, snd r)]) open_ranges))))"
  by pat_completeness auto

definition range_weight :: "(nat \<times> nat) list \<Rightarrow> nat" where
  "range_weight rs = sum_list (map (\<lambda>r. 2 * (snd r - fst r) + 1) rs)"

lemma range_weight_split:
  "rs \<noteq> [] \<Longrightarrow> range_weight (concat (map (\<lambda>r. [(fst r, (fst r + snd r) div 2), ((fst r + snd r) div 2 + 1, snd r)])
       (filter (\<lambda>r. fst r < snd r) rs))) < range_weight rs"
proof (induction rs)
  case (Cons r rs)
  have "range_weight (concat (map (\<lambda>r. [(fst r, (fst r + snd r) div 2), ((fst r + snd r) div 2 + 1, snd r)])
      (filter (\<lambda>r. fst r < snd r) rs))) \<le> range_weight rs"
    using Cons.IH by (cases "rs = []") auto
  moreover have "2 * ((fst r + snd r) div 2 - fst r) + 1 + (2 * (snd r - ((fst r + snd r) div 2 + 1)) + 1) < 2 * (snd r - fst r) + 1"
    if "fst r < snd r" using that by linarith
  ultimately show ?case by (auto simp: range_weight_def)
qed simp

termination midpoint_rounds
  by (relation "measure (\<lambda>(items, ranges). range_weight ranges)") (rule wf_measure, simp only: in_measure case_prod_conv, rule range_weight_split, assumption)

declare midpoint_rounds.simps [simp del]

definition midpoint_order :: "'a list \<Rightarrow> 'a list" where
  "midpoint_order items = midpoint_rounds items [(0, length items)]"

text \<open>The cols read column by column, until no list has the column.\<close>

function columns_from :: "'a list list \<Rightarrow> nat \<Rightarrow> 'a list" where
  "columns_from cols i =
     (if \<not> list_ex (\<lambda>l. i < length l) cols then []
      else map (\<lambda>l. l ! i) (filter (\<lambda>l. i < length l) cols) @ columns_from cols (Suc i))"
  by pat_completeness auto
termination
proof (relation "measure (\<lambda>(cols, i). sum_list (map (\<lambda>l. length l - i) cols))")
  fix cols :: "'a list list" and i
  assume "\<not> \<not> list_ex (\<lambda>l. i < length l) cols"
  then have "sum_list (map (\<lambda>l. length l - Suc i) cols) < sum_list (map (\<lambda>l. length l - i) cols)"
  proof (induction cols)
    case (Cons l cols)
    moreover have "sum_list (map (\<lambda>l. length l - Suc i) cols) \<le> sum_list (map (\<lambda>l. length l - i) cols)"
      by (rule sum_list_mono) simp
    ultimately show ?case by (cases "i < length l") auto
  qed simp
  then show "((cols, Suc i), cols, i) \<in> measure (\<lambda>(cols, i). sum_list (map (\<lambda>l. length l - i) cols))" by simp
qed simp

declare columns_from.simps [simp del]

definition group_location :: "group \<Rightarrow> evidence_ref" where
  "group_location g = hd (sf_evidence (hd g))"

definition inventory_group_key :: "group \<Rightarrow> string \<times> int \<times> int \<times> string" where
  "inventory_group_key g =
     (er_file (group_location g), er_line_start (group_location g),
      (case er_col_start (group_location g) of None \<Rightarrow> 0 | Some c \<Rightarrow> c), sf_subject (hd g))"

definition spread_inventory_groups :: "group list \<Rightarrow> group list" where
  "spread_inventory_groups gs =
     (let by_file = foldl (\<lambda>d g. dict_append (er_file (group_location g)) g d) [] (sort_key inventory_group_key gs);
          order = midpoint_order (sort (dict_keys by_file))
      in columns_from (map (\<lambda>p. midpoint_order (dict_get_or [] by_file p)) order) 0)"

definition is_cleanup_fact :: "semantic_fact \<Rightarrow> bool" where
  "is_cleanup_fact f = (dict_get (sf_attributes f) ''inventory_role'' = Some (PStr ''cleanup_registration''))"

definition inventory_group_order :: "group list \<Rightarrow> group list" where
  "inventory_group_order gs =
     (let cleanups = filter (list_ex is_cleanup_fact) gs; subjects = map (\<lambda>g. sf_subject (hd g)) cleanups
      in spread_inventory_groups cleanups @
         spread_inventory_groups (filter (\<lambda>g. sf_subject (hd g) \<notin> set subjects) gs))"

definition inventory_pack :: "semantic_fact list \<Rightarrow> string list \<Rightarrow> evidence_pack" where
  "inventory_pack selected trace =
     pack_from_facts ''identify project-scoped resource lifecycle protocols'' selected [] trace
       (take 16 (sha256_hex (join ''|'' (map fact_id selected))))"

definition inventory_trace :: "nat \<Rightarrow> nat \<Rightarrow> nat \<Rightarrow> nat \<Rightarrow> bool \<Rightarrow> string list" where
  "inventory_trace facts_total limit chars selected limited =
     [''project-inventory:'' @ str_of_nat selected] @
     (if limited
      then [''project-inventory-char-limit:'' @ str_of_nat chars, ''project-inventory-truncated:'' @ str_of_nat (facts_total - selected)]
      else []) @
     (if limit < facts_total then [''project-inventory-limit:'' @ str_of_nat limit] else [])"

definition pack_size :: "evidence_pack \<Rightarrow> nat" where
  "pack_size p = length (json_dumps (pack_to_dict p))"

definition take_groups :: "nat \<Rightarrow> group list \<Rightarrow> semantic_fact list" where
  "take_groups limit gs = foldl (\<lambda>acc g. if length acc + length g \<le> limit then acc @ g else acc) [] gs"

definition sizing_trace :: "nat \<Rightarrow> nat \<Rightarrow> nat \<Rightarrow> string list" where
  "sizing_trace facts_total limit chars =
     [''project-inventory:'' @ str_of_nat facts_total, ''project-inventory-char-limit:'' @ str_of_nat chars,
      ''project-inventory-truncated:'' @ str_of_nat facts_total] @
     (if limit < facts_total then [''project-inventory-limit:'' @ str_of_nat limit] else [])"

text \<open>The groups that fit by count and by the estimate; the state is them, their facts' number and the estimate.\<close>

definition add_group ::
  "nat \<Rightarrow> nat \<Rightarrow> nat \<Rightarrow> string list \<Rightarrow> group list \<times> nat \<times> nat \<Rightarrow> group \<Rightarrow> group list \<times> nat \<times> nat" where
  "add_group limit chars empty_size trace st g =
     (case st of (gs, n, used) \<Rightarrow>
        if limit < n + length g then st
        else (let cost = (pack_size (inventory_pack g trace) - empty_size) + 4
              in if used + cost \<le> chars then (gs @ [g], n + length g, used + cost) else st))"

definition limited_pack :: "nat \<Rightarrow> nat \<Rightarrow> nat \<Rightarrow> group list \<Rightarrow> evidence_pack" where
  "limited_pack facts_total limit chars gs =
     inventory_pack (concat gs) (inventory_trace facts_total limit chars (length (concat gs)) True)"

text \<open>The final loop: the last group is dropped while the pack is too long.\<close>

function shrink_groups :: "nat \<Rightarrow> nat \<Rightarrow> nat \<Rightarrow> group list \<Rightarrow> group list" where
  "shrink_groups facts_total limit chars gs =
     (if gs \<noteq> [] \<and> chars < pack_size (limited_pack facts_total limit chars gs)
      then shrink_groups facts_total limit chars (butlast gs) else gs)"
  by pat_completeness auto
termination by (relation "measure (\<lambda>(t, l, c, gs). length gs)") auto

declare shrink_groups.simps [simp del]

definition fact_limit :: "int \<Rightarrow> nat" where
  "fact_limit n = nat (max 1 (min n 1000))"

definition char_limit :: "int \<Rightarrow> nat" where
  "char_limit n = nat (max 1000 (min n 256000))"

definition build_project_inventory :: "semantic_ir \<Rightarrow> int \<Rightarrow> int \<Rightarrow> evidence_pack" where
  "build_project_inventory ir max_facts max_chars =
     (let limit = fact_limit max_facts; chars = char_limit max_chars; fs = inventory_facts ir; facts_total = length fs;
          groups = inventory_group_order (scope_groups fs); counted = take_groups limit groups;
          pack = inventory_pack counted (inventory_trace facts_total limit chars (length counted) False)
      in if pack_size pack \<le> chars then pack
         else (let trace = sizing_trace facts_total limit chars; empty_size = pack_size (inventory_pack [] trace);
                   selected = fst (foldl (add_group limit chars empty_size trace) ([], 0, empty_size) groups)
               in limited_pack facts_total limit chars (shrink_groups facts_total limit chars selected)))"

section \<open>The resolver\<close>

datatype resolution_status = RESOLVED | UNRESOLVED | AMBIGUOUS

fun resolution_status_value :: "resolution_status \<Rightarrow> string" where
  "resolution_status_value RESOLVED = ''resolved''"
| "resolution_status_value UNRESOLVED = ''unresolved''"
| "resolution_status_value AMBIGUOUS = ''ambiguous''"

record resolution =
  rd_id :: string
  rd_status :: resolution_status
  rd_reason :: string
  rd_agent_facts :: "string list"
  rd_facts :: "string list"
  rd_agent_types :: "string list"
  rd_types :: "string list"
  rd_candidate :: "candidate option"
  rd_normalized :: "(string \<times> string) option"

definition resolution_to_dict :: "resolution \<Rightarrow> pyval" where
  "resolution_to_dict r = PDict
     [(''candidate_id'', PStr (rd_id r)), (''status'', PStr (resolution_status_value (rd_status r))),
      (''reason'', PStr (rd_reason r)),
      (''agent_cited_evidence'', PDict [(''fact_ids'', py_strs (rd_agent_facts r)), (''type_evidence_ids'', py_strs (rd_agent_types r))]),
      (''deterministically_resolved_evidence'', PDict [(''fact_ids'', py_strs (rd_facts r)), (''type_evidence_ids'', py_strs (rd_types r))]),
      (''selector_normalizations'', PDict
         (case rd_normalized r of None \<Rightarrow> []
          | Some (a, b) \<Rightarrow> [(''acquire_symbol'', PDict [(''agent_value'', PStr a), (''resolved_value'', PStr b)])]))]"

definition resolution_abstention :: "candidate \<Rightarrow> resolution_status \<Rightarrow> string \<Rightarrow> resolution" where
  "resolution_abstention c status why =
     \<lparr>rd_id = cd_id c, rd_status = status, rd_reason = why, rd_agent_facts = cd_facts c, rd_facts = [],
      rd_agent_types = cd_type_ids c, rd_types = [], rd_candidate = None, rd_normalized = None\<rparr>"

definition none_or_many :: "'a list \<Rightarrow> resolution_status" where
  "none_or_many xs = (if xs = [] then UNRESOLVED else AMBIGUOUS)"

definition is_primary_fact :: "string \<Rightarrow> semantic_fact \<Rightarrow> bool" where
  "is_primary_fact oid f =
     (dict_get (sf_attributes f) ''operation_id'' = Some (PStr oid) \<and>
      dict_get (sf_attributes f) ''primary_result_call'' = Some (PBool True))"

definition is_result_call_fact :: "semantic_fact \<Rightarrow> bool" where
  "is_result_call_fact f = (dict_get (sf_attributes f) ''inventory_role'' = Some (PStr ''result_call''))"

text \<open>The registration a fact stands for: a deferred call on the resource, reachable from the acquisition.\<close>

definition registration ::
  "(string, operation) dict \<Rightarrow> cfg \<Rightarrow> operation \<Rightarrow> string \<Rightarrow> string \<Rightarrow> semantic_fact \<Rightarrow> operation option" where
  "registration ops g p binding member f =
     (if \<not> is_cleanup_fact f then None
      else (case dict_get ops (attr_str [] (sf_attributes f) ''operation_id'') of
              None \<Rightarrow> None
            | Some q \<Rightarrow>
                (if op_kind q = DEFER \<and> op_scope q = op_scope p \<and> reachable_compute g (op_id p) (op_id q) \<and>
                    receiver_member_path q binding = Some member
                 then Some q else None)))"

definition method_matches ::
  "(string, operation) dict \<Rightarrow> cfg \<Rightarrow> semantic_fact list \<Rightarrow> operation \<Rightarrow> string \<Rightarrow> string \<Rightarrow> string \<Rightarrow> semantic_fact list" where
  "method_matches ops g fs p binding member m =
     filter (\<lambda>f. case registration ops g p binding member f of None \<Rightarrow> False | Some q \<Rightarrow> method_name q = m) fs"

text \<open>The loop over the methods: the facts hits, or why it stops.\<close>

fun resolve_methods ::
  "(string, operation) dict \<Rightarrow> cfg \<Rightarrow> semantic_fact list \<Rightarrow> operation \<Rightarrow> string \<Rightarrow> string \<Rightarrow> string list
   \<Rightarrow> (resolution_status \<times> string) + semantic_fact list" where
  "resolve_methods ops g fs p binding member [] = Inr []"
| "resolve_methods ops g fs p binding member (m # ms) =
     (let hits = method_matches ops g fs p binding member m in
      case hits of
        [f] \<Rightarrow> bind (resolve_methods ops g fs p binding member ms) (\<lambda>rest. Inr (f # rest))
      | _ \<Rightarrow> Inl (none_or_many hits,
          ''cleanup method '' @ repr_str m @ '' has '' @ str_of_nat (length hits) @ '' structural matches''))"

definition has_type_proof :: "type_index \<Rightarrow> operation \<Rightarrow> bool" where
  "has_type_proof ix p =
     (ti_unique_type ix (op_id p) RECEIVER \<noteq> [] \<and> length (ti_canonical_symbols ix (op_id p) RECEIVER) = 1 \<and>
      ti_evidence_ids ix (op_id p) (Some RECEIVER) \<noteq> [])"

definition resolved :: "type_index \<Rightarrow> candidate \<Rightarrow> operation \<Rightarrow> semantic_fact list \<Rightarrow> resolution" where
  "resolved ix c p hits =
     (let types = (if cd_mode c = TYPED_METHOD then ti_evidence_ids ix (op_id p) (Some RECEIVER) else []);
          ids = dedup (map fact_id hits); renamed = op_target p \<noteq> cd_acquire c
      in \<lparr>rd_id = cd_id c, rd_status = RESOLVED,
          rd_reason = ''primary result call, reachable cleanup registrations and type evidence were uniquely resolved'' @
            (if renamed then ''; acquire_symbol was normalized from the selected real operation'' else []),
          rd_agent_facts = cd_facts c, rd_facts = ids, rd_agent_types = cd_type_ids c, rd_types = types,
          rd_candidate = Some (c\<lparr>cd_acquire := op_target p, cd_facts := ids, cd_type_ids := types\<rparr>),
          rd_normalized = (if renamed then Some (cd_acquire c, op_target p) else None)\<rparr>)"

definition resolve_candidate ::
  "(string, operation) dict \<Rightarrow> semantic_fact list \<Rightarrow> cfg \<Rightarrow> type_index \<Rightarrow> candidate \<Rightarrow> resolution" where
  "resolve_candidate ops fs g ix c =
     (let stop = resolution_abstention c in
      case dict_get ops (cd_operation c) of
        None \<Rightarrow> stop UNRESOLVED ''operation_id does not identify an existing call''
      | Some p \<Rightarrow>
          (if op_kind p \<noteq> CALL then stop UNRESOLVED ''operation_id does not identify an existing call''
           else if \<not> is_primary_result_call p ops then stop UNRESOLVED ''operation is not a primary result call''
           else if length (result_targets p) \<le> cd_index c then stop UNRESOLVED ''resource result index is unavailable''
           else let binding = result_targets p ! cd_index c in
             if \<not> usable_binding binding then stop UNRESOLVED ''resource result binding is unusable''
             else let primary = filter (\<lambda>f. is_result_call_fact f \<and> is_primary_fact (cd_operation c) f) fs in
               case primary of
                 [f] \<Rightarrow>
                   (case resolve_methods ops g fs p binding (cd_member c) (dedup (cd_methods c)) of
                      Inl (status, why) \<Rightarrow> stop status why
                    | Inr hits \<Rightarrow>
                        (if cd_mode c = TYPED_METHOD \<and> \<not> has_type_proof ix p
                         then stop UNRESOLVED ''typed_method lacks unique deterministic receiver type evidence''
                         else resolved ix c p (f # hits)))
               | _ \<Rightarrow> stop (none_or_many primary)
                   (''expected one primary result-call fact, found '' @ str_of_nat (length primary))))"

definition resolve_model :: "semantic_ir \<Rightarrow> project_model \<Rightarrow> evidence_pack \<Rightarrow> resolution list" where
  "resolve_model ir m inventory =
     map (resolve_candidate (ops_by_id (ir_operations ir)) (ep_facts inventory) (cfg_from_ir ir [])
       (make_type_index (ir_types ir))) (pm_candidates m)"

text \<open>\<open>ProjectModelResolution.model\<close>.\<close>

definition resolved_model :: "project_model \<Rightarrow> resolution list \<Rightarrow> project_model" where
  "resolved_model m rs =
     m\<lparr>pm_candidates := List.map_filter (\<lambda>r. if rd_status r = RESOLVED then rd_candidate r else None) rs,
       pm_uncertainties := pm_uncertainties m @
         map (\<lambda>r. rd_id r @ '': '' @ rd_reason r) (filter (\<lambda>r. rd_status r \<noteq> RESOLVED) rs)\<rparr>"

section \<open>The validator\<close>

datatype mapping_status = SUPPORTED | REJECTED

fun mapping_status_value :: "mapping_status \<Rightarrow> string" where
  "mapping_status_value SUPPORTED = ''supported''"
| "mapping_status_value REJECTED = ''rejected''"

record mapping_decision =
  md_id :: string
  md_status :: mapping_status
  md_reason :: string
  md_protocol :: "resource_protocol option"

definition rejected :: "candidate \<Rightarrow> string \<Rightarrow> mapping_decision" where
  "rejected c why = \<lparr>md_id = cd_id c, md_status = REJECTED, md_reason = why, md_protocol = None\<rparr>"

definition grounded_methods ::
  "(string, operation) dict \<Rightarrow> cfg \<Rightarrow> candidate \<Rightarrow> operation \<Rightarrow> string \<Rightarrow> semantic_fact list \<Rightarrow> string list" where
  "grounded_methods ops g c p binding cited =
     filter (\<lambda>m. m \<in> set (cd_methods c))
       (map method_name (List.map_filter (registration ops g p binding (cd_member c)) cited))"

text \<open>The checks on the type evidence: the message of the first that fails.\<close>

definition type_rejection :: "type_index \<Rightarrow> candidate \<Rightarrow> operation \<Rightarrow> string option" where
  "type_rejection ix c p =
     (let rtype = ti_unique_type ix (op_id p) RECEIVER; symbols = ti_canonical_symbols ix (op_id p) RECEIVER;
          ids = ti_evidence_ids ix (op_id p) (Some RECEIVER)
      in if cd_mode c \<noteq> TYPED_METHOD \<and> (cd_receiver_type c \<noteq> [] \<or> cd_canonical c \<noteq> [] \<or> cd_type_ids c \<noteq> [])
         then Some ''type evidence fields are only valid for typed_method''
         else if cd_mode c = METHOD_SHAPE \<and> rtype \<noteq> [] \<and> length symbols = 1 \<and> ids \<noteq> []
         then Some ''candidate weakens available receiver type evidence; use typed_method''
         else if cd_mode c \<noteq> TYPED_METHOD then None
         else if cd_receiver_type c = [] \<or> cd_canonical c = [] \<or> cd_type_ids c = []
         then Some ''typed_method lacks required type evidence''
         else if \<not> set (cd_type_ids c) \<subseteq> set ids then Some ''typed_method cites missing type evidence''
         else if \<not> type_names_compatible (cd_receiver_type c) rtype
         then Some ''typed_method receiver type is not grounded''
         else if length symbols \<noteq> 1 \<or> hd symbols \<noteq> cd_canonical c
         then Some ''typed_method canonical symbol is not grounded'' else None)"

definition protocol_of :: "candidate \<Rightarrow> protocol_origin \<Rightarrow> resource_protocol" where
  "protocol_of c origin =
     \<lparr>rp_acquire = cd_acquire c, rp_index = int (cd_index c), rp_cleanup = cd_methods c, rp_mode = cd_mode c,
      rp_member = cd_member c, rp_receiver_type = cd_receiver_type c, rp_canonical = cd_canonical c,
      rp_type_ids = cd_type_ids c, rp_origin = origin, rp_confidence = cd_confidence c, rp_fact_ids = cd_facts c\<rparr>"

definition validate_candidate ::
  "(string, operation) dict \<Rightarrow> (string, semantic_fact) dict \<Rightarrow> cfg \<Rightarrow> type_index \<Rightarrow> protocol_origin \<Rightarrow> candidate
   \<Rightarrow> mapping_decision checked" where
  "validate_candidate ops fd g ix origin c =
     (let no = \<lambda>why. Inr (rejected c why); cited = List.map_filter (dict_get fd) (cd_facts c) in
      if cd_facts c = [] \<or> length cited \<noteq> length (cd_facts c) then no ''candidate cites missing inventory facts''
      else case dict_get ops (cd_operation c) of
        None \<Rightarrow> no ''candidate operation is not an existing call''
      | Some p \<Rightarrow>
          (if op_kind p \<noteq> CALL then no ''candidate operation is not an existing call''
           else if op_target p \<noteq> cd_acquire c then no ''candidate symbol does not match the cited call''
           else if \<not> is_primary_result_call p ops then no ''candidate call is not a primary result call''
           else if \<not> list_ex (is_primary_fact (cd_operation c)) cited
           then no ''candidate lacks a cited primary result-call fact''
           else if length (result_targets p) \<le> cd_index c then no ''candidate result index is unavailable''
           else let binding = result_targets p ! cd_index c in
             if \<not> usable_binding binding then no ''candidate result binding is unusable''
             else let missing = filter (\<lambda>m. m \<notin> set (grounded_methods ops g c p binding cited)) (cd_methods c) in
               if missing \<noteq> []
               then no (''candidate cleanup methods lack cited reachable registrations for the result binding: '' @
                 join '', '' (sorted_set missing))
               else case type_rejection ix c p of
                 Some why \<Rightarrow> no why
               | None \<Rightarrow> bind (make_protocol (protocol_of c origin)) (\<lambda>proto.
                   Inr \<lparr>md_id = cd_id c, md_status = SUPPORTED,
                     md_reason = ''symbol, result binding, operation and cited facts are structurally grounded; '' @
                       ''resource meaning remains a project-reader hypothesis'', md_protocol = Some proto\<rparr>)))"

definition validate_model ::
  "semantic_ir \<Rightarrow> project_model \<Rightarrow> evidence_pack \<Rightarrow> protocol_origin \<Rightarrow> mapping_decision list checked" where
  "validate_model ir m inventory origin =
     traverse (validate_candidate (ops_by_id (ir_operations ir)) (dict_of fact_id (\<lambda>f. f) (ep_facts inventory))
       (cfg_from_ir ir []) (make_type_index (ir_types ir)) origin) (pm_candidates m)"

definition validated_protocols :: "mapping_decision list \<Rightarrow> resource_protocol list" where
  "validated_protocols ds =
     List.map_filter (\<lambda>d. if md_status d = SUPPORTED then md_protocol d else None) ds"

section \<open>The agent\<close>

datatype reader_error = Crashed py_error | Unfollowed

type_synonym 'a read = "reader_error + 'a"

record reader_result =
  rr_inventory :: evidence_pack
  rr_model :: "project_model option"
  rr_error :: string

text \<open>
  \<open>ag_call n with_role prompt\<close> is what the \<open>n\<close>-th call returns or raises; the prompts are made of the
  inventory's text, and of the previous model and the feedback.
\<close>

record agent =
  ag_call :: "nat \<Rightarrow> bool \<Rightarrow> string \<Rightarrow> pyval checked"
  ag_prompt :: "string \<Rightarrow> string"
  ag_repair :: "string \<Rightarrow> string \<Rightarrow> string \<Rightarrow> string"
  ag_max_facts :: int
  ag_max_chars :: int

text \<open>A function without a \<open>role\<close> parameter raises \<open>TypeError\<close> and is called again without it.\<close>

definition invoke :: "agent \<Rightarrow> string \<Rightarrow> nat \<Rightarrow> string checked \<times> nat" where
  "invoke ag prompt n =
     (let (v, k) = (case ag_call ag n True prompt of
                      Inl (TypeError m) \<Rightarrow> (ag_call ag (Suc n) False prompt, Suc (Suc n)) | v \<Rightarrow> (v, Suc n))
      in (bind v (\<lambda>v. case v of
            PStr s \<Rightarrow> if strip s = [] then Inl (RuntimeError ''model returned no structured output'') else Inr s
          | _ \<Rightarrow> Inl (RuntimeError ''model returned no structured output'')), k))"

definition read_prompt :: "agent \<Rightarrow> evidence_pack \<Rightarrow> string \<Rightarrow> nat \<Rightarrow> reader_result read \<times> nat" where
  "read_prompt ag inventory prompt n =
     (let failed = \<lambda>e. (case e of
            KeyError m \<Rightarrow> Inl (Crashed e) | OverflowError m \<Rightarrow> Inl (Crashed e)
          | _ \<Rightarrow> Inr \<lparr>rr_inventory = inventory, rr_model = None,
              rr_error = ''project reader output rejected: '' @ exception_text e\<rparr>);
          (raw, k) = invoke ag prompt n
      in (case raw of
            Inl e \<Rightarrow> failed e
          | Inr s \<Rightarrow>
              (case parse_json_safe s of
                 Inl u \<Rightarrow> Inl Unfollowed
               | Inr document \<Rightarrow>
                   (case parse_project_model document of
                      Inl e \<Rightarrow> failed e
                    | Inr m \<Rightarrow> Inr \<lparr>rr_inventory = inventory, rr_model = Some m, rr_error = []\<rparr>)), k))"

definition read_project :: "agent \<Rightarrow> semantic_ir \<Rightarrow> nat \<Rightarrow> reader_result read \<times> nat" where
  "read_project ag ir n =
     (let inventory = build_project_inventory ir (ag_max_facts ag) (ag_max_chars ag)
      in read_prompt ag inventory (ag_prompt ag (json_dumps (pack_to_dict inventory))) n)"

definition decision_feedback :: "mapping_decision list \<Rightarrow> pyval" where
  "decision_feedback ds = PList (map (\<lambda>d. PDict
     [(''candidate_id'', PStr (md_id d)), (''status'', PStr (mapping_status_value (md_status d))),
      (''reason'', PStr (md_reason d))]) ds)"

definition repair_project ::
  "agent \<Rightarrow> evidence_pack \<Rightarrow> project_model \<Rightarrow> mapping_decision list \<Rightarrow> nat \<Rightarrow> reader_result read \<times> nat" where
  "repair_project ag inventory m ds n =
     read_prompt ag inventory
       (ag_repair ag (ag_prompt ag (json_dumps (pack_to_dict inventory))) (json_dumps (project_model_dict m))
         (json_dumps (decision_feedback ds))) n"

end
