(* ===== verification/ReaderInventory.thy ===== *)
theory ReaderInventory
  imports ProjectReader
begin

text \<open>
  The inventory of the project reader: its orders are permutations of the scopes, so that a scope is
  in it as a whole or not at all, and its limits hold.
\<close>

section \<open>Orders\<close>


definition slice :: "'a list \<Rightarrow> nat \<times> nat \<Rightarrow> 'a list" where
  "slice items r = take (snd r - fst r) (drop (fst r) items)"

lemma slice_split:
  assumes "fst r < snd r" "snd r \<le> length items"
  shows "mset (slice items r) =
    {#items ! ((fst r + snd r) div 2)#} + mset (slice items (fst r, (fst r + snd r) div 2)) +
    mset (slice items ((fst r + snd r) div 2 + 1, snd r))"
proof -
  let ?m = "(fst r + snd r) div 2"
  have m: "fst r \<le> ?m" "?m < snd r" using assms(1) by linarith+
  have "slice items r = take (?m - fst r) (drop (fst r) items) @ take (snd r - ?m) (drop ?m items)"
    using m take_add [of "?m - fst r" "snd r - ?m" "drop (fst r) items"] by (simp add: slice_def add.commute)
  moreover have "drop ?m items = items ! ?m # drop (Suc ?m) items"
    using m assms(2) by (simp add: Cons_nth_drop_Suc)
  moreover have "snd r - ?m = Suc (snd r - Suc ?m)" using m(2) by simp
  ultimately show ?thesis by (simp add: slice_def)
qed

lemma midpoint_rounds_mset:
  "(\<forall>r\<in>set ranges. snd r \<le> length items) \<Longrightarrow>
   mset (midpoint_rounds items ranges) = mset (concat (map (slice items) ranges))"
proof (induction items ranges rule: midpoint_rounds.induct)
  case (1 items ranges)
  let ?open = "filter (\<lambda>r. fst r < snd r) ranges"
  let ?next = "concat (map (\<lambda>r. [(fst r, (fst r + snd r) div 2), ((fst r + snd r) div 2 + 1, snd r)]) ?open)"
  have "\<forall>r\<in>set ?next. snd r \<le> length items" using "1.prems" by fastforce
  then have next_mset: "mset (midpoint_rounds items ?next) = mset (concat (map (slice items) ?next))" if "ranges \<noteq> []"
    using "1.IH" [OF that refl] by simp
  have step: "mset (map (\<lambda>r. items ! ((fst r + snd r) div 2)) (filter (\<lambda>r. fst r < snd r) rs)) +
      mset (concat (map (slice items) (concat (map (\<lambda>r. [(fst r, (fst r + snd r) div 2), ((fst r + snd r) div 2 + 1, snd r)])
        (filter (\<lambda>r. fst r < snd r) rs))))) = mset (concat (map (slice items) rs))"
    if "\<forall>r\<in>set rs. snd r \<le> length items" for rs
    using that
  proof (induction rs)
    case (Cons r rs)
    show ?case
    proof (cases "fst r < snd r")
      case True
      then show ?thesis using Cons slice_split [of r items] by (simp add: add_ac)
    next
      case False
      then show ?thesis using Cons by (simp add: slice_def)
    qed
  qed simp
  show ?case
  proof (cases "ranges = []")
    case True
    have "midpoint_rounds items [] = []" by (subst midpoint_rounds.simps) simp
    with True show ?thesis by simp
  next
    case False
    then have "midpoint_rounds items ranges = map (\<lambda>r. items ! ((fst r + snd r) div 2)) ?open @ midpoint_rounds items ?next"
      by (subst midpoint_rounds.simps) (simp add: Let_def)
    then show ?thesis using step [OF "1.prems"] next_mset [OF False] by (simp only: mset_append)
  qed
qed

lemma midpoint_order_mset [simp]: "mset (midpoint_order items) = mset items"
  by (simp add: midpoint_order_def midpoint_rounds_mset slice_def)

lemma set_midpoint_order [simp]: "set (midpoint_order items) = set items"
  by (rule mset_eq_setD) simp

lemma distinct_midpoint_order [simp]: "distinct (midpoint_order items) = distinct items"
  by (rule mset_eq_imp_distinct_iff) simp

lemma mset_concat_append:
  "mset (concat (map (\<lambda>x. f x @ g x) xs)) = mset (concat (map f xs)) + mset (concat (map g xs))"
  by (induction xs) auto

lemma drop_head: "drop i l = (if i < length l then [l ! i] else []) @ drop (Suc i) l"
proof (cases "i < length l")
  case True
  then have "l ! i # drop (Suc i) l = drop i l" by (rule Cons_nth_drop_Suc)
  with True show ?thesis by simp
qed simp

lemma mset_concat_drop:
  "mset (concat (map (drop i) cols)) =
     mset (map (\<lambda>l. l ! i) (filter (\<lambda>l. i < length l) cols)) + mset (concat (map (drop (Suc i)) cols))"
proof -
  have "map (\<lambda>l. l ! i) (filter (\<lambda>l. i < length l) cols) = concat (map (\<lambda>l. if i < length l then [l ! i] else []) cols)"
    by (induction cols) auto
  moreover have "map (drop i) cols = map (\<lambda>l. (if i < length l then [l ! i] else []) @ drop (Suc i) l) cols"
    by (rule map_cong [OF refl], rule drop_head)
  ultimately show ?thesis by (simp only: mset_concat_append)
qed

lemma columns_from_mset: "mset (columns_from cols i) = mset (concat (map (drop i) cols))"
proof (induction cols i rule: columns_from.induct)
  case (1 cols i)
  show ?case
  proof (cases "list_ex (\<lambda>l. i < length l) cols")
    case True
    then show ?thesis using 1 mset_concat_drop [of i cols] by (simp add: columns_from.simps [of cols i])
  next
    case False
    then have "concat (map (drop i) cols) = []" by (auto simp: list_ex_iff)
    then show ?thesis using False by (simp add: columns_from.simps [of cols i])
  qed
qed

lemma mset_of_keys:
  "distinct ks \<Longrightarrow> mset (concat (map (\<lambda>k. filter (\<lambda>x. key x = k) xs) ks)) = mset (filter (\<lambda>x. key x \<in> set ks) xs)"
proof (induction ks)
  case (Cons k ks)
  then have "k \<notin> set ks" by simp
  then have "mset (filter (\<lambda>x. key x \<in> set (k # ks)) xs) =
      mset (filter (\<lambda>x. key x = k) xs) + mset (filter (\<lambda>x. key x \<in> set ks) xs)"
    by (induction xs) auto
  with Cons show ?case by (simp only: list.map concat.simps mset_append distinct.simps simp_thms)
qed simp

lemma mset_by_keys:
  assumes "distinct ks" "\<forall>x\<in>set xs. key x \<in> set ks"
  shows "mset (concat (map (\<lambda>k. filter (\<lambda>x. key x = k) xs) ks)) = mset xs"
proof -
  have "filter (\<lambda>x. key x \<in> set ks) xs = xs" using assms(2) by simp
  with mset_of_keys [OF assms(1), of key xs] show ?thesis by metis
qed

lemma keys_dict_append: "fst ` set (dict_append k v d) = insert k (fst ` set d)"
  using dict_keys_set [of k "dict_get_or [] d k @ [v]" d] by (auto simp: dict_append_def dict_keys_def)

lemma dict_append_fold:
  "dict_get_or [] (foldl (\<lambda>d x. dict_append (key x) x d) [] xs) k = filter (\<lambda>x. key x = k) xs"
  "distinct (map fst (foldl (\<lambda>d x. dict_append (key x) x d) [] xs))"
  "set (map fst (foldl (\<lambda>d x. dict_append (key x) x d) [] xs)) = key ` set xs"
proof -
  show "dict_get_or [] (foldl (\<lambda>d x. dict_append (key x) x d) [] xs) k = filter (\<lambda>x. key x = k) xs"
    using foldl_dict_append [of key "[]" xs k] by simp
  show "distinct (map fst (foldl (\<lambda>d x. dict_append (key x) x d) [] xs))"
    using group_distinct [of "[]" "\<lambda>x. True" key xs] by simp
  have "set (map fst (foldl (\<lambda>d x. dict_append (key x) x d) d0 xs)) = set (map fst d0) \<union> key ` set xs" for d0
    by (induction xs arbitrary: d0) (auto simp: keys_dict_append)
  then show "set (map fst (foldl (\<lambda>d x. dict_append (key x) x d) [] xs)) = key ` set xs" by simp
qed

lemma spread_mset: "mset (spread_inventory_groups gs) = mset gs"
proof -
  let ?gs = "sort_key inventory_group_key gs"
  let ?d = "foldl (\<lambda>d g. dict_append (er_file (group_location g)) g d) [] ?gs"
  let ?ps = "midpoint_order (sort (dict_keys ?d))"
  have "distinct ?ps" "\<forall>g\<in>set ?gs. er_file (group_location g) \<in> set ?ps"
    using dict_append_fold(2,3) [of "\<lambda>g. er_file (group_location g)" ?gs] by (simp_all add: dict_keys_def)
  note files = mset_by_keys [OF this]
  have "mset (concat (map (\<lambda>p. midpoint_order (f p)) ps)) = mset (concat (map f ps))" for f :: "string \<Rightarrow> group list" and ps
    by (induction ps) auto
  then show ?thesis using files
    by (simp add: spread_inventory_groups_def Let_def columns_from_mset dict_append_fold(1) comp_def)
qed

section \<open>Scopes\<close>

lemma scope_groups_distinct: "distinct (map (\<lambda>g. sf_subject (hd g)) (scope_groups fs))"
  and scope_groups_facts: "g \<in> set (scope_groups fs) \<Longrightarrow> g \<noteq> [] \<and> g = filter (\<lambda>f. sf_subject f = sf_subject (hd g)) fs"
  and scope_groups_mset: "mset (concat (scope_groups fs)) = mset fs"
proof -
  let ?d = "foldl (\<lambda>d f. dict_append (sf_subject f) f d) [] fs"
  note d = dict_append_fold [of sf_subject fs]
  have entry: "v = filter (\<lambda>f. sf_subject f = k) fs \<and> v \<noteq> []" if "(k, v) \<in> set ?d" for k v
  proof -
    have "dict_get ?d k = Some v" using that d(2) by (simp add: dict_get_def)
    moreover have "k \<in> sf_subject ` set fs" using that d(3) by force
    ultimately show ?thesis using d(1) [of k] by (auto simp: dict_get_or_get filter_empty_conv)
  qed
  have head: "sf_subject (hd v) = k" if "(k, v) \<in> set ?d" for k v
    using entry [OF that] hd_in_set [of v] by auto
  have "map (\<lambda>g. sf_subject (hd g)) (scope_groups fs) = map fst ?d"
    by (auto simp: scope_groups_def dict_values_def head)
  then show "distinct (map (\<lambda>g. sf_subject (hd g)) (scope_groups fs))" using d(2) by simp
  show "g \<noteq> [] \<and> g = filter (\<lambda>f. sf_subject f = sf_subject (hd g)) fs" if "g \<in> set (scope_groups fs)"
    using that entry head by (force simp: scope_groups_def dict_values_def)
  have "scope_groups fs = map (\<lambda>k. filter (\<lambda>f. sf_subject f = k) fs) (map fst ?d)"
    using entry by (auto simp: scope_groups_def dict_values_def)
  then show "mset (concat (scope_groups fs)) = mset fs"
    using mset_by_keys [of "map fst ?d" fs sf_subject] d(2,3) by (metis image_eqI)
qed

lemma complement_by_key:
  assumes "distinct (map key xs)"
  shows "filter (\<lambda>x. key x \<notin> key ` set (filter P xs)) xs = filter (\<lambda>x. \<not> P x) xs"
proof (rule filter_cong [OF refl])
  fix x
  assume x: "x \<in> set xs"
  have "key x \<in> key ` set (filter P xs) \<longleftrightarrow> P x"
    using assms x by (auto simp: distinct_map dest: inj_onD)
  then show "(key x \<notin> key ` set (filter P xs)) = (\<not> P x)" by simp
qed

lemma group_order_mset: "mset (inventory_group_order (scope_groups fs)) = mset (scope_groups fs)"
proof -
  let ?gs = "scope_groups fs"
  have "filter (\<lambda>g. sf_subject (hd g) \<notin> (\<lambda>g. sf_subject (hd g)) ` set (filter (list_ex is_cleanup_fact) ?gs)) ?gs =
      filter (\<lambda>g. \<not> list_ex is_cleanup_fact g) ?gs"
    by (rule complement_by_key [OF scope_groups_distinct])
  then have "mset (inventory_group_order ?gs) =
      mset (filter (list_ex is_cleanup_fact) ?gs) + mset (filter (\<lambda>g. \<not> list_ex is_cleanup_fact g) ?gs)"
    by (simp only: inventory_group_order_def Let_def mset_append spread_mset list.set_map)
  then show ?thesis by simp
qed

section \<open>Limits\<close>

lemma subset_add_later: "A \<subseteq># B \<Longrightarrow> A \<subseteq># add_mset x B"
  by (metis add_mset_add_single mset_subset_eq_add_left subset_mset.order_trans)

lemma distinct_mset_subset: "mset xs \<subseteq># mset ys \<Longrightarrow> distinct ys \<Longrightarrow> distinct xs"
  by (metis distinct_append ex_mset mset_append mset_eq_imp_distinct_iff subset_mset.le_iff_add)

lemma take_groups_from:
  "length acc \<le> limit \<Longrightarrow> \<exists>sel. mset sel \<subseteq># mset gs \<and>
     foldl (\<lambda>acc g. if length acc + length g \<le> limit then acc @ g else acc) acc gs = acc @ concat sel \<and>
     length (acc @ concat sel) \<le> limit"
proof (induction gs arbitrary: acc)
  case (Cons g gs)
  show ?case
  proof (cases "length acc + length g \<le> limit")
    case True
    then obtain sel where "mset sel \<subseteq># mset gs"
      "foldl (\<lambda>acc g. if length acc + length g \<le> limit then acc @ g else acc) (acc @ g) gs = (acc @ g) @ concat sel"
      "length ((acc @ g) @ concat sel) \<le> limit"
      using Cons.IH [of "acc @ g"] by auto
    with True show ?thesis by (intro exI [of _ "g # sel"]) simp
  next
    case False
    obtain sel where "mset sel \<subseteq># mset gs"
      "foldl (\<lambda>acc g. if length acc + length g \<le> limit then acc @ g else acc) acc gs = acc @ concat sel"
      "length (acc @ concat sel) \<le> limit"
      using Cons.IH [OF Cons.prems] by blast
    with False show ?thesis by (intro exI [of _ sel]) (auto intro: subset_add_later)
  qed
qed simp

lemma add_groups_from:
  "n \<le> limit \<Longrightarrow> \<exists>sel. mset sel \<subseteq># mset gs \<and> n + length (concat sel) \<le> limit \<and>
     fst (foldl (add_group limit chars e trace) (gs0, n, used) gs) = gs0 @ sel"
proof (induction gs arbitrary: gs0 n used)
  case (Cons g gs)
  let ?st = "add_group limit chars e trace (gs0, n, used) g"
  have "?st = (gs0, n, used) \<or> (\<exists>u. ?st = (gs0 @ [g], n + length g, u) \<and> n + length g \<le> limit)"
    by (simp add: add_group_def Let_def)
  then show ?case
  proof
    assume "?st = (gs0, n, used)"
    then show ?thesis using Cons.IH [OF Cons.prems, of gs0 used] by (auto intro: subset_add_later)
  next
    assume "\<exists>u. ?st = (gs0 @ [g], n + length g, u) \<and> n + length g \<le> limit"
    then obtain u where u: "?st = (gs0 @ [g], n + length g, u)" "n + length g \<le> limit" by blast
    obtain sel where "mset sel \<subseteq># mset gs" "n + length g + length (concat sel) \<le> limit"
      "fst (foldl (add_group limit chars e trace) (gs0 @ [g], n + length g, u) gs) = (gs0 @ [g]) @ sel"
      using Cons.IH [OF u(2), of "gs0 @ [g]" u] by blast
    then show ?thesis using u(1) by (intro exI [of _ "g # sel"]) simp
  qed
qed simp

lemma shrink_groups_ok:
  "(\<exists>k. shrink_groups n limit chars gs = take k gs) \<and>
   (shrink_groups n limit chars gs = [] \<or> pack_size (limited_pack n limit chars (shrink_groups n limit chars gs)) \<le> chars)"
proof (induction n limit chars gs rule: shrink_groups.induct)
  case (1 n limit chars gs)
  show ?case
  proof (cases "gs \<noteq> [] \<and> chars < pack_size (limited_pack n limit chars gs)")
    case True
    then have "shrink_groups n limit chars gs = shrink_groups n limit chars (butlast gs)"
      by (simp add: shrink_groups.simps [of n limit chars gs])
    moreover have "\<exists>k. take j (butlast gs) = take k gs" for j
      by (metis butlast_conv_take take_take)
    ultimately show ?thesis using "1.IH" [OF True] by fastforce
  next
    case False
    then have "shrink_groups n limit chars gs = gs" by (subst shrink_groups.simps) (rule if_not_P)
    with False show ?thesis by (auto intro: exI [of _ "length gs"])
  qed
qed

lemma whole_scopes:
  assumes "mset sel \<subseteq># mset (scope_groups fs)"
  shows "\<exists>S. mset (concat sel) = mset (filter (\<lambda>f. sf_subject f \<in> S) fs)"
proof -
  let ?key = "\<lambda>g :: group. sf_subject (hd g)"
  have "mset (map ?key sel) \<subseteq># mset (map ?key (scope_groups fs))"
    using image_mset_subseteq_mono [OF assms] by simp
  then have distinct: "distinct (map ?key sel)"
    using scope_groups_distinct by (rule distinct_mset_subset)
  have "sel = map (\<lambda>g. filter (\<lambda>f. sf_subject f = ?key g) fs) sel"
    using scope_groups_facts mset_subset_eqD [OF assms] by (auto intro!: map_idI [symmetric])
  then have "concat sel = concat (map (\<lambda>k. filter (\<lambda>f. sf_subject f = k) fs) (map ?key sel))"
    by (simp add: comp_def)
  then have "mset (concat sel) = mset (filter (\<lambda>f. sf_subject f \<in> set (map ?key sel)) fs)"
    using mset_of_keys [OF distinct, of sf_subject fs] by metis
  then show ?thesis by blast
qed

lemma inventory_pack_facts [simp]: "ep_facts (inventory_pack fs trace) = fs"
  by (simp add: inventory_pack_def pack_from_facts_def)

text \<open>
  C11: The inventory holds at most as many facts as its limit allows, between one and a thousand; its
  text is within the character limit unless it has no fact at all; and it has every scope as a whole or
  not at all, each fact as often as the program gives it.
\<close>

theorem inventory_bounded:
  "length (ep_facts (build_project_inventory ir max_facts max_chars)) \<le> fact_limit max_facts \<and>
   (pack_size (build_project_inventory ir max_facts max_chars) \<le> char_limit max_chars \<or>
     ep_facts (build_project_inventory ir max_facts max_chars) = []) \<and>
   (\<exists>scopes. mset (ep_facts (build_project_inventory ir max_facts max_chars)) =
      mset (filter (\<lambda>f. sf_subject f \<in> scopes) (inventory_facts ir)))"
proof -
  let ?limit = "fact_limit max_facts" and ?chars = "char_limit max_chars" and ?fs = "inventory_facts ir"
  let ?groups = "inventory_group_order (scope_groups ?fs)"
  let ?counted = "take_groups ?limit ?groups"
  let ?pack = "inventory_pack ?counted (inventory_trace (length ?fs) ?limit ?chars (length ?counted) False)"
  let ?trace = "sizing_trace (length ?fs) ?limit ?chars"
  let ?e = "pack_size (inventory_pack [] ?trace)"
  obtain sel where sel: "mset sel \<subseteq># mset (scope_groups ?fs)" "?counted = concat sel" "length (concat sel) \<le> ?limit"
    using take_groups_from [of "[]" ?limit ?groups] by (auto simp: take_groups_def group_order_mset)
  obtain more where more: "mset more \<subseteq># mset (scope_groups ?fs)" "length (concat more) \<le> ?limit"
    "fst (foldl (add_group ?limit ?chars ?e ?trace) ([], 0, ?e) ?groups) = more"
    using add_groups_from [of 0 ?limit ?groups ?chars ?e ?trace "[]" ?e] by (auto simp: group_order_mset)
  obtain k where k: "shrink_groups (length ?fs) ?limit ?chars more = take k more"
    using shrink_groups_ok by blast
  have "mset (take k more) \<subseteq># mset more" by (metis append_take_drop_id mset_append mset_subset_eq_add_left)
  with more(1) have kept: "mset (take k more) \<subseteq># mset (scope_groups ?fs)" by (rule subset_mset.order_trans [rotated])
  have "length (concat more) = length (concat (take k more)) + length (concat (drop k more))"
    by (metis append_take_drop_id concat_append length_append)
  then have short: "length (concat (take k more)) \<le> ?limit" using more(2) by simp
  have "take k more = [] \<or> pack_size (limited_pack (length ?fs) ?limit ?chars (take k more)) \<le> ?chars"
    using shrink_groups_ok [of "length ?fs" ?limit ?chars more] k by simp
  then show ?thesis
    using sel(2,3) whole_scopes [OF sel(1)] whole_scopes [OF kept] short more(3) k
    by (auto simp: build_project_inventory_def Let_def limited_pack_def)
qed

end
