(* ===== verification/ReaderSound.thy ===== *)
theory ReaderSound
  imports ProjectReader ReaderInventory
begin

text \<open>
  What the parser, the resolver and the validator of the project reader guarantee of the protocols that
  the lifecycle analyser is given.
\<close>

section \<open>What is parsed\<close>

definition bounded_item :: "nat \<Rightarrow> string \<Rightarrow> bool" where
  "bounded_item n s = (strip s = s \<and> s \<noteq> [] \<and> length s \<le> n)"

definition bounded_text :: "nat \<Rightarrow> string \<Rightarrow> bool" where
  "bounded_text n s = (strip s = s \<and> length s \<le> n)"

definition bounded_items :: "nat \<Rightarrow> nat \<Rightarrow> string list \<Rightarrow> bool" where
  "bounded_items most n ss = (length ss \<le> most \<and> list_all (bounded_item n) ss)"

definition candidate_ok :: "candidate \<Rightarrow> bool" where
  "candidate_ok c =
     (bounded_item 100 (cd_id c) \<and> bounded_item 100 (cd_operation c) \<and> bounded_item 300 (cd_acquire c) \<and>
      cd_methods c \<noteq> [] \<and> bounded_items 10 100 (cd_methods c) \<and> list_all is_identifier (cd_methods c) \<and>
      bounded_items 20 100 (cd_facts c) \<and> bounded_items 20 100 (cd_type_ids c) \<and> unit_interval (cd_confidence c) \<and>
      bounded_text 200 (cd_member c) \<and> (cd_member c = [] \<or> is_dotted_path (cd_member c)) \<and>
      bounded_text 300 (cd_receiver_type c) \<and> bounded_text 500 (cd_canonical c) \<and>
      (cd_mode c = EXACT \<or> cd_member c \<noteq> []) \<and>
      (if cd_mode c = TYPED_METHOD then cd_receiver_type c \<noteq> [] \<and> cd_canonical c \<noteq> []
       else cd_receiver_type c = [] \<and> cd_canonical c = [] \<and> cd_type_ids c = []))"

lemma length_strip: "length (strip s) \<le> length s"
  unfolding strip_def strip_by_def by (metis length_dropWhile_le length_rev le_trans)

lemma bounded_string_ok: "bounded_string v path n = Inr s \<Longrightarrow> bounded_item n s"
  using length_strip by (fastforce simp: bounded_string_def value_error_def bounded_item_def split: pyval.splits if_splits intro: le_trans)

lemma ensure_ok [simp]: "ensure ok m = Inr u \<longleftrightarrow> ok"
  by (simp add: ensure_def value_error_def)

lemma optional_bounded_string_ok: "optional_bounded_string v path n = Inr s \<Longrightarrow> bounded_text n s"
  using length_strip
  by (fastforce simp: optional_bounded_string_def value_error_def bounded_text_def split: pyval.splits if_splits intro: le_trans)

lemma bounded_tuple_ok: "bounded_tuple v path n len = Inr ss \<Longrightarrow> bounded_items n len ss"
proof -
  have each: "list_all2 (\<lambda>x y. bounded_string x p len = Inr y) vs ss \<Longrightarrow> list_all (bounded_item len) ss" for p vs
    by (induction rule: list_all2_induct) (auto dest: bounded_string_ok)
  assume "bounded_tuple v path n len = Inr ss"
  then show ?thesis using each
    by (auto simp: bounded_tuple_def Let_def value_error_def traverse_Inr bounded_items_def split: pyval.splits if_splits
        dest: list_all2_lengthD)
qed

lemma candidate_confidence_ok: "candidate_confidence v path = Inr q \<Longrightarrow> unit_interval q"
  by (auto simp: candidate_confidence_def Let_def value_error_def float_one_def unit_interval_def split: pyval.splits if_splits)

lemma parse_member_ok: "parse_member v path = Inr s \<Longrightarrow> bounded_text 200 s \<and> (s = [] \<or> is_dotted_path s)"
  using length_strip
  by (fastforce simp: parse_member_def value_error_def bounded_text_def split: pyval.splits if_splits intro: le_trans)

lemma parse_candidate_ok: "parse_candidate v i = Inr c \<Longrightarrow> candidate_ok c"
proof -
  assume parsed: "parse_candidate v i = Inr c"
  then obtain d where "v = PDict d" by (cases v) (simp_all add: parse_candidate_def Let_def value_error_def)
  with parsed have "parse_candidate (PDict d) i = Inr c" by simp
  then obtain p1 p2 p3 p4 p5 p6 p7 p8 p9 p10 result_index confidence methods facts mode member rtype canonical types cid oid symbol where
    "candidate_confidence (dict_get_or PNone d ''confidence'') p1 = Inr confidence"
    "bounded_tuple (dict_get_or PNone d ''cleanup_methods'') p2 10 100 = Inr methods"
    "methods \<noteq> []" "list_all is_identifier methods"
    "bounded_tuple (dict_get_or (PList []) d ''fact_ids'') p3 20 100 = Inr facts"
    "parse_member (dict_get_or (PStr []) d ''resource_member_path'') p4 = Inr member"
    "mode \<notin> {METHOD_SHAPE, TYPED_METHOD} \<or> member \<noteq> []"
    "optional_bounded_string (dict_get_or (PStr []) d ''receiver_type'') p9 300 = Inr rtype"
    "optional_bounded_string (dict_get_or (PStr []) d ''canonical_acquire'') p10 500 = Inr canonical"
    "bounded_tuple (dict_get_or (PList []) d ''type_evidence_ids'') p5 20 100 = Inr types"
    "mode \<noteq> TYPED_METHOD \<or> (rtype \<noteq> [] \<and> canonical \<noteq> [])"
    "mode = TYPED_METHOD \<or> (rtype = [] \<and> canonical = [] \<and> types = [])"
    "bounded_string (dict_get_or PNone d ''candidate_id'') p6 100 = Inr cid"
    "bounded_string (dict_get_or PNone d ''operation_id'') p7 100 = Inr oid"
    "bounded_string (dict_get_or PNone d ''acquire_symbol'') p8 300 = Inr symbol"
    "(Inr \<lparr>cd_id = cid, cd_operation = oid, cd_acquire = symbol, cd_index = result_index, cd_methods = methods,
       cd_confidence = confidence, cd_facts = facts, cd_mode = mode, cd_member = member,
       cd_receiver_type = rtype, cd_canonical = canonical, cd_type_ids = types\<rparr> :: candidate checked) = Inr c"
    unfolding parse_candidate_def Let_def pyval.case bind_Inr ensure_ok by (elim exE conjE) (rule that; assumption)
  note ps = this
  have c: "c = \<lparr>cd_id = cid, cd_operation = oid, cd_acquire = symbol, cd_index = result_index, cd_methods = methods,
      cd_confidence = confidence, cd_facts = facts, cd_mode = mode, cd_member = member,
      cd_receiver_type = rtype, cd_canonical = canonical, cd_type_ids = types\<rparr>"
    using ps(16) by simp
  show ?thesis
    using candidate_confidence_ok [OF ps(1)] bounded_tuple_ok [OF ps(2)] ps(3,4) bounded_tuple_ok [OF ps(5)]
      parse_member_ok [OF ps(6)] ps(7) optional_bounded_string_ok [OF ps(8)] optional_bounded_string_ok [OF ps(9)]
      bounded_tuple_ok [OF ps(10)] ps(11,12) bounded_string_ok [OF ps(13)] bounded_string_ok [OF ps(14)] bounded_string_ok [OF ps(15)]
    unfolding c by (cases mode) (simp_all add: candidate_ok_def)
qed



text \<open>
  The summary is optional in the code (its default is the empty text), but the empty text is refused:
  a reply without a summary is rejected as a whole, with all its candidates.
\<close>

theorem missing_summary_rejected:
  "parse_project_model (Some [(''resource_candidates'', PList [])]) =
     Inl (ValueError ''architecture_summary must be a non-empty string'')"
  by code_simp

text \<open>
  A candidate with a huge confidence is not rejected with the others: \<open>OverflowError\<close> escapes the
  handlers of the parser and of the reader.
\<close>

definition huge_candidate :: attributes where
  "huge_candidate =
     [(''candidate_id'', PStr ''c''), (''operation_id'', PStr ''o''), (''acquire_symbol'', PStr ''f''),
      (''resource_result_index'', PInt 0), (''cleanup_methods'', PList [PStr ''Close'']), (''confidence'', PInt (10 ^ 400))]"

theorem huge_candidate_escapes:
  "parse_project_model (Some [(''architecture_summary'', PStr ''s''), (''resource_candidates'', PList [PDict huge_candidate])]) =
     Inl (OverflowError ''int too large to convert to float'')"
  by code_simp

section \<open>Grounded protocols\<close>

text \<open>A deferred call of the scope, on the resource, reachable from the acquisition, that a cited fact names.\<close>

definition registered_cleanup ::
  "semantic_ir \<Rightarrow> evidence_pack \<Rightarrow> resource_protocol \<Rightarrow> operation \<Rightarrow> string \<Rightarrow> bool" where
  "registered_cleanup ir inventory proto p m \<longleftrightarrow>
     (\<exists>q\<in>set (ir_operations ir). \<exists>f\<in>set (ep_facts inventory).
        op_kind q = DEFER \<and> op_scope q = op_scope p \<and> method_name q = m \<and>
        receiver_member_path q (result_targets p ! nat (rp_index proto)) = Some (rp_member proto) \<and>
        (op_id p, op_id q) \<in> (arc_rel (cfg_from_ir ir []))\<^sup>+ \<and>
        fact_id f \<in> set (rp_fact_ids proto) \<and> is_cleanup_fact f \<and> attr_str [] (sf_attributes f) ''operation_id'' = op_id q)"

definition typed_ok :: "semantic_ir \<Rightarrow> resource_protocol \<Rightarrow> operation \<Rightarrow> bool" where
  "typed_ok ir proto p \<longleftrightarrow>
     (let ix = make_type_index (ir_types ir) in
      rp_type_ids proto \<noteq> [] \<and> set (rp_type_ids proto) \<subseteq> set (ti_evidence_ids ix (op_id p) (Some RECEIVER)) \<and>
      type_names_compatible (rp_receiver_type proto) (ti_unique_type ix (op_id p) RECEIVER) \<and>
      ti_canonical_symbols ix (op_id p) RECEIVER = [rp_canonical proto])"

definition grounded_protocol :: "semantic_ir \<Rightarrow> evidence_pack \<Rightarrow> resource_protocol \<Rightarrow> bool" where
  "grounded_protocol ir inventory proto \<longleftrightarrow>
     (\<exists>p\<in>set (ir_operations ir).
        op_kind p = CALL \<and> op_target p = rp_acquire proto \<and> is_primary_result_call p (ops_by_id (ir_operations ir)) \<and>
        0 \<le> rp_index proto \<and> nat (rp_index proto) < length (result_targets p) \<and>
        usable_binding (result_targets p ! nat (rp_index proto)) \<and>
        rp_cleanup proto \<noteq> [] \<and> list_all (registered_cleanup ir inventory proto p) (rp_cleanup proto) \<and>
        set (rp_fact_ids proto) \<subseteq> fact_id ` set (ep_facts inventory) \<and>
        (\<exists>f\<in>set (ep_facts inventory). fact_id f \<in> set (rp_fact_ids proto) \<and> is_primary_fact (op_id p) f) \<and>
        (rp_mode proto = TYPED_METHOD \<longrightarrow> typed_ok ir proto p))"

lemma registration_SomeD:
  assumes "registration (ops_by_id ops) g p binding member f = Some q"
  shows "q \<in> set ops \<and> op_kind q = DEFER \<and> op_scope q = op_scope p \<and> (op_id p, op_id q) \<in> (arc_rel g)\<^sup>+ \<and>
    receiver_member_path q binding = Some member \<and> is_cleanup_fact f \<and> attr_str [] (sf_attributes f) ''operation_id'' = op_id q"
  using assms by (auto simp: registration_def reachable_compute_iff dest: ops_by_id_Some split: if_splits option.splits)

lemma facts_by_id: "dict_get (dict_of fact_id (\<lambda>f. f) fs) i = Some f \<Longrightarrow> f \<in> set fs \<and> fact_id f = i"
  by (auto dest: dict_get_dict_of_Some)

lemma type_rejection_None:
  "type_rejection ix c p = None \<Longrightarrow> cd_mode c = TYPED_METHOD \<Longrightarrow>
   cd_type_ids c \<noteq> [] \<and> set (cd_type_ids c) \<subseteq> set (ti_evidence_ids ix (op_id p) (Some RECEIVER)) \<and>
   type_names_compatible (cd_receiver_type c) (ti_unique_type ix (op_id p) RECEIVER) \<and>
   ti_canonical_symbols ix (op_id p) RECEIVER = [cd_canonical c]"
  by (auto simp: type_rejection_def Let_def length_Suc_conv split: if_splits)

lemma validate_candidate_grounded:
  assumes "validate_candidate (ops_by_id (ir_operations ir)) (dict_of fact_id (\<lambda>f. f) (ep_facts inventory))
      (cfg_from_ir ir []) (make_type_index (ir_types ir)) origin c = Inr d"
    and "md_status d = SUPPORTED" "md_protocol d = Some proto"
  shows "grounded_protocol ir inventory proto \<and> proto = protocol_of c origin \<and> make_protocol proto = Inr proto"
proof -
  let ?fd = "dict_of fact_id (\<lambda>f. f) (ep_facts inventory)" and ?ops = "ops_by_id (ir_operations ir)"
  let ?g = "cfg_from_ir ir []" and ?ix = "make_type_index (ir_types ir)"
  let ?cited = "List.map_filter (dict_get ?fd) (cd_facts c)"
  obtain p where p: "dict_get ?ops (cd_operation c) = Some p" "op_kind p = CALL" "op_target p = cd_acquire c"
    "is_primary_result_call p ?ops" "list_ex (is_primary_fact (cd_operation c)) ?cited"
    "cd_index c < length (result_targets p)" "usable_binding (result_targets p ! cd_index c)"
    "filter (\<lambda>m. m \<notin> set (grounded_methods ?ops ?g c p (result_targets p ! cd_index c) ?cited)) (cd_methods c) = []"
    "type_rejection ?ix c p = None" "make_protocol (protocol_of c origin) = Inr proto"
    and all: "length ?cited = length (cd_facts c)"
    using assms by (auto simp: validate_candidate_def Let_def rejected_def not_le split: if_splits option.splits)
  have proto: "proto = protocol_of c origin" using p(10) by (rule make_protocol_Inr)
  have pin: "p \<in> set (ir_operations ir)" "op_id p = cd_operation c" using p(1) by (auto dest: ops_by_id_Some)
  have cited: "f \<in> set (ep_facts inventory) \<and> fact_id f \<in> set (cd_facts c)" if "f \<in> set ?cited" for f
    using that by (auto simp: set_map_filter dest: facts_by_id)
  have "\<forall>i\<in>set (cd_facts c). dict_get ?fd i \<noteq> None"
    using all by (metis (mono_tags, lifting) List.map_filter_def comp_apply filter_id_conv length_filter_less length_map less_irrefl)
  then have "set (cd_facts c) \<subseteq> fact_id ` set (ep_facts inventory)" by (force dest: facts_by_id)
  moreover have "registered_cleanup ir inventory proto p m" if m: "m \<in> set (cd_methods c)" for m
  proof -
    have "m \<in> set (grounded_methods ?ops ?g c p (result_targets p ! cd_index c) ?cited)"
      using p(8) m by (auto simp: filter_empty_conv)
    then obtain f q where q: "f \<in> set ?cited" "registration ?ops ?g p (result_targets p ! cd_index c) (cd_member c) f = Some q"
      "method_name q = m"
      by (auto simp: grounded_methods_def set_map_filter)
    then show ?thesis using registration_SomeD [OF q(2)] cited [OF q(1)]
      by (auto simp: registered_cleanup_def proto protocol_of_def)
  qed
  moreover have "cd_methods c \<noteq> []"
    using p(10) by (auto simp: make_protocol_def Let_def protocol_of_def split: if_splits)
  moreover have "\<exists>f\<in>set (ep_facts inventory). fact_id f \<in> set (cd_facts c) \<and> is_primary_fact (op_id p) f"
    using p(5) cited pin(2) by (auto simp: list_ex_iff)
  moreover have "cd_mode c = TYPED_METHOD \<longrightarrow> typed_ok ir proto p"
    using type_rejection_None [OF p(9)] by (auto simp: typed_ok_def Let_def proto protocol_of_def)
  moreover have "rp_acquire proto = cd_acquire c" "rp_index proto = int (cd_index c)" "rp_cleanup proto = cd_methods c"
    "rp_fact_ids proto = cd_facts c" "rp_mode proto = cd_mode c"
    by (simp_all add: proto protocol_of_def)
  ultimately have "grounded_protocol ir inventory proto"
    unfolding grounded_protocol_def using p(2-4,6,7) pin(1) by (intro bexI [of _ p]) (simp_all add: list_all_iff)
  with p(10) proto show ?thesis by simp
qed

lemma traverse_origin: "traverse f xs = Inr ys \<Longrightarrow> y \<in> set ys \<Longrightarrow> \<exists>x\<in>set xs. f x = Inr y"
  unfolding traverse_Inr by (induction rule: list_all2_induct) auto

lemma validate_model_grounded:
  assumes "validate_model ir m inventory origin = Inr ds" "proto \<in> set (validated_protocols ds)"
  shows "grounded_protocol ir inventory proto \<and> make_protocol proto = Inr proto \<and> (\<exists>c\<in>set (pm_candidates m). proto = protocol_of c origin)"
proof -
  obtain d where d: "d \<in> set ds" "md_status d = SUPPORTED" "md_protocol d = Some proto"
    using assms(2) by (auto simp: validated_protocols_def List.map_filter_def split: if_splits)
  then obtain c where c: "c \<in> set (pm_candidates m)"
    "validate_candidate (ops_by_id (ir_operations ir)) (dict_of fact_id (\<lambda>f. f) (ep_facts inventory))
      (cfg_from_ir ir []) (make_type_index (ir_types ir)) origin c = Inr d"
    using traverse_origin assms(1) by (fastforce simp: validate_model_def)
  from validate_candidate_grounded [OF c(2) d(2,3)] c(1) show ?thesis by blast
qed

section \<open>Resolver and validator\<close>

lemma resolve_methods_hits:
  "resolve_methods ops g fs p binding member ms = Inr hits \<Longrightarrow>
   set hits \<subseteq> set fs \<and> (\<forall>m\<in>set ms. \<exists>f\<in>set hits. \<exists>q. registration ops g p binding member f = Some q \<and> method_name q = m)"
proof (induction ms arbitrary: hits)
  case (Cons m ms)
  let ?found = "method_matches ops g fs p binding member m"
  obtain f rest where f: "?found = [f]" "resolve_methods ops g fs p binding member ms = Inr rest" "hits = f # rest"
    using Cons.prems by (auto simp: Let_def split: list.splits)
  have "f \<in> set ?found" using f(1) by simp
  then have "f \<in> set fs \<and> (\<exists>q. registration ops g p binding member f = Some q \<and> method_name q = m)"
    by (auto simp: method_matches_def split: option.splits)
  then show ?case using Cons.IH [OF f(2)] f(3) by auto
qed simp

lemma resolve_candidate_Some:
  assumes "rd_candidate (resolve_candidate ops fs g ix c) = Some c'"
  obtains (bound) p f hits where "dict_get ops (cd_operation c) = Some p" "op_kind p = CALL" "is_primary_result_call p ops"
    "cd_index c < length (result_targets p)" "usable_binding (result_targets p ! cd_index c)"
    "f \<in> set fs" "is_primary_fact (cd_operation c) f" "set hits \<subseteq> set fs"
    "\<forall>m\<in>set (cd_methods c). \<exists>h\<in>set hits. \<exists>q. registration ops g p (result_targets p ! cd_index c) (cd_member c) h = Some q \<and> method_name q = m"
    "c' = c\<lparr>cd_acquire := op_target p, cd_facts := dedup (map fact_id (f # hits)),
       cd_type_ids := (if cd_mode c = TYPED_METHOD then ti_evidence_ids ix (op_id p) (Some RECEIVER) else [])\<rparr>"
    "cd_mode c = TYPED_METHOD \<longrightarrow> has_type_proof ix p"
proof -
  obtain p f hits where p: "dict_get ops (cd_operation c) = Some p" "op_kind p = CALL" "is_primary_result_call p ops"
    "cd_index c < length (result_targets p)" "usable_binding (result_targets p ! cd_index c)"
    "filter (\<lambda>f. is_result_call_fact f \<and> is_primary_fact (cd_operation c) f) fs = [f]"
    "resolve_methods ops g fs p (result_targets p ! cd_index c) (cd_member c) (dedup (cd_methods c)) = Inr hits"
    "cd_mode c = TYPED_METHOD \<longrightarrow> has_type_proof ix p" "rd_candidate (resolved ix c p (f # hits)) = Some c'"
    using assms by (auto simp: resolve_candidate_def Let_def resolution_abstention_def not_le
        split: if_splits option.splits list.splits sum.splits prod.splits)
  have "f \<in> set (filter (\<lambda>f. is_result_call_fact f \<and> is_primary_fact (cd_operation c) f) fs)" using p(6) by simp
  then have "f \<in> set fs" "is_primary_fact (cd_operation c) f" by auto
  then show ?thesis using p(1-5,8,9) resolve_methods_hits [OF p(7)]
    by (intro bound [of p f hits]) (simp_all add: resolved_def Let_def)
qed

text \<open>The checks of the validator on symbol, place, binding and methods hold of what was bound.\<close>

lemma resolved_reaches_types:
  assumes "\<not> (\<exists>f\<in>set fs. \<exists>h\<in>set fs. f \<noteq> h \<and> fact_id f = fact_id h)"
    and bound: "dict_get ops (cd_operation c) = Some p" "op_kind p = CALL" "is_primary_result_call p ops"
    "cd_index c < length (result_targets p)" "usable_binding (result_targets p ! cd_index c)"
    "f \<in> set fs" "is_primary_fact (cd_operation c) f" "set hits \<subseteq> set fs"
    "\<forall>m\<in>set (cd_methods c). \<exists>h\<in>set hits. \<exists>q. registration ops g p (result_targets p ! cd_index c) (cd_member c) h = Some q \<and> method_name q = m"
    "c' = c\<lparr>cd_acquire := op_target p, cd_facts := dedup (map fact_id (f # hits)),
       cd_type_ids := (if cd_mode c = TYPED_METHOD then ti_evidence_ids ix (op_id p) (Some RECEIVER) else [])\<rparr>"
    "cd_mode c = TYPED_METHOD \<longrightarrow> has_type_proof ix p"
  shows "validate_candidate ops (dict_of fact_id (\<lambda>f. f) fs) g ix origin c' =
    (case type_rejection ix c' p of Some why \<Rightarrow> Inr (rejected c' why)
     | None \<Rightarrow> bind (make_protocol (protocol_of c' origin)) (\<lambda>proto.
         Inr \<lparr>md_id = cd_id c', md_status = SUPPORTED,
           md_reason = ''symbol, result binding, operation and cited facts are structurally grounded; '' @
             ''resource meaning remains a project-reader hypothesis'', md_protocol = Some proto\<rparr>))"
proof -
  let ?fd = "dict_of fact_id (\<lambda>f. f) fs"
  let ?binding = "result_targets p ! cd_index c" and ?cited = "List.map_filter (dict_get ?fd) (cd_facts c')"
  have look: "dict_get ?fd (fact_id f) = Some f" if "f \<in> set fs" for f
  proof (cases "dict_get ?fd (fact_id f)")
    case None
    then show ?thesis using that by (auto simp: dict_get_dict_of_None)
  next
    case (Some h)
    then have "h \<in> set fs" "fact_id h = fact_id f" by (auto dest: facts_by_id)
    with assms(1) that Some show ?thesis by metis
  qed
  have ids: "set (cd_facts c') = fact_id ` set (f # hits)" "cd_facts c' \<noteq> []" "cd_operation c' = cd_operation c"
    "cd_index c' = cd_index c" "cd_member c' = cd_member c" "cd_methods c' = cd_methods c" "op_target p = cd_acquire c'"
    using bound(10) by (auto simp flip: set_empty)
  have inside: "set (f # hits) \<subseteq> set fs" using bound(6,8) by simp
  have found: "dict_get ?fd (fact_id h) = Some h" if "h \<in> set (f # hits)" for h using that look inside by blast
  then have "\<forall>i\<in>set (cd_facts c'). dict_get ?fd i \<noteq> None" unfolding ids(1) by simp
  then have len: "length ?cited = length (cd_facts c')" by (simp add: List.map_filter_def)
  have cited: "set ?cited = set (f # hits)"
    unfolding set_map_filter ids(1) using found by auto
  have "list_ex (is_primary_fact (cd_operation c)) ?cited" using cited bound(7) by (auto simp: list_ex_iff)
  moreover have "m \<in> set (grounded_methods ops g c' p ?binding ?cited)" if m: "m \<in> set (cd_methods c)" for m
  proof -
    obtain h q where "h \<in> set hits" "registration ops g p ?binding (cd_member c) h = Some q" "method_name q = m"
      using bound(9) m by blast
    then have "q \<in> set (List.map_filter (registration ops g p ?binding (cd_member c')) ?cited)" "method_name q = m"
      using cited ids(5) by (auto simp: set_map_filter)
    then show ?thesis using m ids(6) by (auto simp: grounded_methods_def)
  qed
  then have "filter (\<lambda>m. m \<notin> set (grounded_methods ops g c' p ?binding ?cited)) (cd_methods c) = []"
    by (simp add: filter_empty_conv)
  ultimately show ?thesis
    using bound(1-5) ids(2-7) len
    by (simp add: validate_candidate_def Let_def not_le [symmetric])
qed

text \<open>What is left to the validator: the claims on types that the model made itself.\<close>

definition type_claim_fails :: "type_index \<Rightarrow> candidate \<Rightarrow> operation \<Rightarrow> bool" where
  "type_claim_fails ix c p \<longleftrightarrow>
     (cd_mode c = METHOD_SHAPE \<and> has_type_proof ix p) \<or>
     (cd_mode c = TYPED_METHOD \<and>
        (\<not> type_names_compatible (cd_receiver_type c) (ti_unique_type ix (op_id p) RECEIVER) \<or>
         ti_canonical_symbols ix (op_id p) RECEIVER \<noteq> [cd_canonical c]))"

lemma type_rejection_resolved:
  assumes "candidate_ok c" "cd_mode c = TYPED_METHOD \<longrightarrow> has_type_proof ix p"
    and "c' = c\<lparr>cd_acquire := a, cd_facts := fs,
       cd_type_ids := (if cd_mode c = TYPED_METHOD then ti_evidence_ids ix (op_id p) (Some RECEIVER) else [])\<rparr>"
  shows "type_rejection ix c' p = None \<longleftrightarrow> \<not> type_claim_fails ix c p"
proof (cases "cd_mode c")
  case TYPED_METHOD
  with assms show ?thesis
    by (cases "ti_canonical_symbols ix (op_id p) RECEIVER"; cases "tl (ti_canonical_symbols ix (op_id p) RECEIVER)")
      (auto simp: type_rejection_def type_claim_fails_def candidate_ok_def has_type_proof_def Let_def)
qed (use assms in \<open>auto simp: type_rejection_def type_claim_fails_def candidate_ok_def has_type_proof_def Let_def\<close>)

lemma identifier_not_blank:
  assumes "is_identifier m"
  shows "strip m \<noteq> []"
proof -
  obtain c t where m: "m = c # t" "is_ident_start c" using assms by (auto simp: is_identifier_def split: list.splits)
  then have "\<not> is_space c" by (auto simp: str_defs Let_def)
  then have "dropWhile is_space m = m" "\<exists>x \<in> set (rev m). \<not> is_space x" using m(1) by auto
  then show ?thesis by (auto simp: strip_def strip_by_def)
qed

lemma make_protocol_resolved:
  assumes "candidate_ok c" "cd_mode c = TYPED_METHOD \<longrightarrow> has_type_proof ix p"
    and "c' = c\<lparr>cd_acquire := a, cd_facts := fs,
       cd_type_ids := (if cd_mode c = TYPED_METHOD then ti_evidence_ids ix (op_id p) (Some RECEIVER) else [])\<rparr>"
  shows "make_protocol (protocol_of c' origin) =
    (if strip a = [] then Inl (ValueError ''acquire_symbol must not be empty'') else Inr (protocol_of c' origin))"
proof -
  have "\<not> list_ex (\<lambda>m. strip m = []) (cd_methods c)"
    using assms(1) identifier_not_blank by (auto simp: candidate_ok_def list_all_iff list_ex_iff)
  with assms show ?thesis
    by (cases "cd_mode c") (auto simp: make_protocol_def protocol_of_def candidate_ok_def has_type_proof_def Let_def)
qed

text \<open>
  C12: What the resolver binds of an accepted candidate, the validator supports. The resolver changes
  nothing but the symbol, which becomes that of the call in the program, and the cited facts and type
  facts; the decision on the result is REJECTED exactly when a type claim of the model fails (a weaker
  match than the type evidence allows, a receiver type or a canonical symbol that the evidence does not
  have), and SUPPORTED with the protocol of the candidate otherwise. The only exception raised is that of
  the protocol's constructor for a call whose symbol is blank. The facts of the inventory are taken to
  have different identifiers: the last alternative is a collision of two of them.
\<close>

theorem resolved_candidates_supported:
  "case parse_candidate v i of
     Inl e \<Rightarrow> True
   | Inr c \<Rightarrow>
     (case rd_candidate (resolve_candidate ops fs g ix c) of
        None \<Rightarrow> True
      | Some c' \<Rightarrow>
         (\<exists>p. dict_get ops (cd_operation c) = Some p \<and>
            c' = c\<lparr>cd_acquire := op_target p, cd_facts := cd_facts c', cd_type_ids := cd_type_ids c'\<rparr> \<and>
            (case validate_candidate ops (dict_of fact_id (\<lambda>f. f) fs) g ix origin c' of
               Inl e \<Rightarrow> strip (op_target p) = [] \<and> e = ValueError ''acquire_symbol must not be empty''
             | Inr d \<Rightarrow> md_id d = cd_id c \<and>
                 (if type_claim_fails ix c p then md_status d = REJECTED \<and> md_protocol d = None
                  else md_status d = SUPPORTED \<and> md_protocol d = Some (protocol_of c' origin)))) \<or>
         (\<exists>f\<in>set fs. \<exists>h\<in>set fs. f \<noteq> h \<and> fact_id f = fact_id h))"
proof (cases "parse_candidate v i")
  case (Inr c)
  note ok = parse_candidate_ok [OF Inr]
  show ?thesis
  proof (cases "rd_candidate (resolve_candidate ops fs g ix c)")
    case (Some c')
    show ?thesis
    proof (cases "\<exists>f\<in>set fs. \<exists>h\<in>set fs. f \<noteq> h \<and> fact_id f = fact_id h")
      case False
      from Some show ?thesis
      proof (cases rule: resolve_candidate_Some)
        case (bound p f hits)
        let ?a = "cd_mode c = TYPED_METHOD \<longrightarrow> has_type_proof ix p"
        have valid: "validate_candidate ops (dict_of fact_id (\<lambda>f. f) fs) g ix origin c' =
            (case type_rejection ix c' p of Some why \<Rightarrow> Inr (rejected c' why)
             | None \<Rightarrow> bind (make_protocol (protocol_of c' origin)) (\<lambda>proto.
                 Inr \<lparr>md_id = cd_id c', md_status = SUPPORTED,
                   md_reason = ''symbol, result binding, operation and cited facts are structurally grounded; '' @
                     ''resource meaning remains a project-reader hypothesis'', md_protocol = Some proto\<rparr>))"
          by (rule resolved_reaches_types [OF False bound])
        note types = type_rejection_resolved [OF ok bound(11,10)] make_protocol_resolved [OF ok bound(11,10), of origin]
        have same: "c' = c\<lparr>cd_acquire := op_target p, cd_facts := cd_facts c', cd_type_ids := cd_type_ids c'\<rparr>" "cd_id c' = cd_id c"
          using bound(10) by simp_all
        show ?thesis
          using Inr Some bound(1) same valid types
          by (auto simp: rejected_def bind_def split: option.splits sum.splits)
      qed
    qed (use Inr Some in simp)
  qed (use Inr in simp)
qed simp

end
