(* ===== verification/Session.thy ===== *)
theory Session
  imports ReaderSound Engine Retrieval
begin

text \<open>
  \<open>core/session.py\<close>: the session that shares one diagnostic result between the rules, the project
  reader and retrieval. A session is the result of the engine with the stage of the project reader; an
  exception that leaves an operation leaves the session as it was.
\<close>

section \<open>The stage of the project reader\<close>

record reader_stage =
  st_status :: string
  st_reader :: "reader_result option"
  st_resolution :: "resolution list option"
  st_validation :: "mapping_decision list option"
  st_lifecycle :: "lifecycle_result option"
  st_repairs :: nat
  st_repair_error :: string
  st_findings :: "finding list"
  st_facts :: "semantic_fact list"
  st_hypotheses :: "semantic_hypothesis list"

definition new_stage :: "string \<Rightarrow> reader_stage" where
  "new_stage status =
     \<lparr>st_status = status, st_reader = None, st_resolution = None, st_validation = None, st_lifecycle = None,
      st_repairs = 0, st_repair_error = [], st_findings = [], st_facts = [], st_hypotheses = []\<rparr>"

definition stage_limitations :: "string list" where
  "stage_limitations =
     [''ProjectReader output is an untrusted project-scoped hypothesis.'',
      ''Only uniquely resolved and structurally validated protocols are analyzed.'',
      ''The current lifecycle proof covers normalized defer-style cleanup.'']"

definition mapping_to_dict :: "mapping_decision \<Rightarrow> pyval" where
  "mapping_to_dict d = PDict
     [(''candidate_id'', PStr (md_id d)), (''status'', PStr (mapping_status_value (md_status d))), (''reason'', PStr (md_reason d))]"

definition stage_to_dict :: "reader_stage \<Rightarrow> pyval" where
  "stage_to_dict s =
     (let model = (case st_reader s of None \<Rightarrow> None | Some r \<Rightarrow> rr_model r);
          decisions = (case st_validation s of None \<Rightarrow> [] | Some ds \<Rightarrow> ds)
      in PDict
        [(''status'', PStr (st_status s)),
         (''reader_error'', PStr (case st_reader s of None \<Rightarrow> [] | Some r \<Rightarrow> rr_error r)),
         (''repair_attempts'', PInt (int (st_repairs s))), (''repair_error'', PStr (st_repair_error s)),
         (''proposed_candidates'', PInt (case model of None \<Rightarrow> 0 | Some m \<Rightarrow> int (length (pm_candidates m)))),
         (''supported_protocols'', PInt (int (length (validated_protocols decisions)))),
         (''decisions'', PList (map mapping_to_dict decisions)),
         (''resolution_decisions'', PList (map resolution_to_dict (case st_resolution s of None \<Rightarrow> [] | Some rs \<Rightarrow> rs))),
         (''findings'', PList (map finding_to_dict (st_findings s))),
         (''hypotheses'', PList (map hypothesis_to_dict (st_hypotheses s))),
         (''abstentions'', PInt (case st_lifecycle s of None \<Rightarrow> 0 | Some l \<Rightarrow> int (lr_abstentions l))),
         (''unknown_reasons'', py_strs (case st_lifecycle s of None \<Rightarrow> [] | Some l \<Rightarrow> lr_reasons l)),
         (''limitations'', py_strs stage_limitations)])"

record session =
  ss_result :: result
  ss_reader :: reader_stage
  ss_report :: pyval

definition session_pipeline :: "result \<Rightarrow> pyval" where
  "session_pipeline r = PDict
     [(''session'', PStr ''analysis-session/v1''), (''shared_semantic_ir'', PBool (rs_ir r \<noteq> None)),
      (''deterministic_rules'', PBool True), (''agent_review'', PStr ''optional'')]"

definition analyze_session :: "engine \<Rightarrow> config \<Rightarrow> session" where
  "analyze_session eg c =
     \<lparr>ss_result = diagnose eg c, ss_reader = new_stage ''not_run'', ss_report = stage_to_dict (new_stage ''not_run'')\<rparr>"

text \<open>The stage and its report, which are always set together.\<close>

definition set_stage :: "session \<Rightarrow> reader_stage \<Rightarrow> session" where
  "set_stage s st = s\<lparr>ss_reader := st, ss_report := stage_to_dict st\<rparr>"

section \<open>Resolution and validation\<close>

definition unresolved_decision :: "resolution \<Rightarrow> mapping_decision" where
  "unresolved_decision r =
     \<lparr>md_id = rd_id r, md_status = REJECTED,
      md_reason = ''evidence resolution '' @ resolution_status_value (rd_status r) @ '': '' @ rd_reason r, md_protocol = None\<rparr>"

definition resolve_and_validate ::
  "semantic_ir \<Rightarrow> project_model \<Rightarrow> evidence_pack \<Rightarrow> (resolution list \<times> mapping_decision list) checked" where
  "resolve_and_validate ir m inventory =
     (let rs = resolve_model ir m inventory in
      bind (validate_model ir (resolved_model m rs) inventory PROJECT_READER) (\<lambda>ds.
        Inr (rs, ds @ map unresolved_decision (filter (\<lambda>r. rd_status r \<noteq> RESOLVED) rs))))"

definition has_rejections :: "mapping_decision list \<Rightarrow> bool" where
  "has_rejections ds = list_ex (\<lambda>d. md_status d = REJECTED) ds"

section \<open>Findings and hypotheses of the stage\<close>

definition resource_message :: "operation \<Rightarrow> string" where
  "resource_message p =
     ''Resource acquired by '' @ op_target p @ '' is used without a dominating validated cleanup registration''"

definition resource_finding :: "semantic_ir \<Rightarrow> lifecycle_finding \<Rightarrow> finding" where
  "resource_finding ir f =
     (let own = lifecycle_to_fact f; use = op_location (lf_use f);
          marked = dict_update (sf_attributes own)
            [(''analysis_method'', PStr ''semantic''), (''analysis_status'', PStr ''partial''), (''project_reader_grounded'', PBool True)]
      in \<lparr>fg_rule = ''project_resource_lifecycle'', fg_name = ''Project-derived resource lifecycle'', fg_severity = WARNING,
          fg_location = ref_location use, fg_message = resource_message (lf_acquire f),
          fg_evidence = map ref_location (sf_evidence own), fg_confidence = rp_confidence (lf_protocol f),
          fg_metadata = (case dict_get (ir_units ir) (er_file (op_location (lf_acquire f))) of
              None \<Rightarrow> marked
            | Some u \<Rightarrow> dict_set ''repository_zone'' (PStr (repository_zone_value (su_zone u)))
                (dict_set ''source_role'' (PStr (source_role_value (su_role u))) marked))\<rparr>)"

definition candidate_hypothesis :: "mapping_decision list \<Rightarrow> candidate \<Rightarrow> semantic_hypothesis checked" where
  "candidate_hypothesis ds c =
     (let d = dict_get (dict_of md_id (\<lambda>d. d) ds) (cd_id c) in
      make_hypothesis
        \<lparr>sh_kind = ''project_resource_protocol'',
         sh_statement = cd_acquire c @ '' result '' @ str_of_nat (cd_index c) @ '' may require '' @ join '', '' (cd_methods c),
         sh_source = ''project_reader'', sh_confidence = cd_confidence c,
         sh_attributes =
           [(''candidate_id'', PStr (cd_id c)),
            (''validation_status'', PStr (case d of None \<Rightarrow> ''unknown'' | Some x \<Rightarrow> mapping_status_value (md_status x))),
            (''validation_reason'', PStr (case d of None \<Rightarrow> [] | Some x \<Rightarrow> md_reason x)),
            (''operation_id'', PStr (cd_operation c))]\<rparr>)"

definition reader_hypotheses :: "reader_result \<Rightarrow> mapping_decision list \<Rightarrow> semantic_hypothesis list checked" where
  "reader_hypotheses rr ds =
     (case rr_model rr of
        None \<Rightarrow> Inr []
      | Some m \<Rightarrow>
          bind (if strip (pm_summary m) = [] then Inr []
                else bind (make_hypothesis
                    \<lparr>sh_kind = ''project_architecture_summary'', sh_statement = pm_summary m, sh_source = ''project_reader'',
                     sh_confidence = (0, ''0.0''),
                     sh_attributes = [(''components'', py_strs (pm_components m)), (''uncertainties'', py_strs (pm_uncertainties m))]\<rparr>)
                  (\<lambda>h. Inr [h])) (\<lambda>first.
          bind (traverse (candidate_hypothesis ds) (pm_candidates m)) (\<lambda>rest. Inr (first @ rest))))"

section \<open>Running the project reader\<close>

definition crash :: "'a checked \<Rightarrow> 'a read" where
  "crash m = (case m of Inl e \<Rightarrow> Inl (Crashed e) | Inr x \<Rightarrow> Inr x)"

record repair_state =
  rp_reader :: reader_result
  rp_model :: project_model
  rp_resolution :: "resolution list"
  rp_decisions :: "mapping_decision list"
  rp_attempts :: nat
  rp_failure :: string

text \<open>The \<open>while\<close> loop: a repair only when nothing is supported and something was rejected.\<close>

fun repair_loop ::
  "agent \<Rightarrow> semantic_ir \<Rightarrow> nat \<Rightarrow> repair_state \<Rightarrow> nat \<Rightarrow> repair_state read \<times> nat" where
  "repair_loop ag ir 0 s n = (Inr s, n)"
| "repair_loop ag ir (Suc left) s n =
     (if validated_protocols (rp_decisions s) \<noteq> [] \<or> \<not> has_rejections (rp_decisions s) then (Inr s, n)
      else case repair_project ag (rr_inventory (rp_reader s)) (rp_model s) (rp_decisions s) n of
        (Inl e, k) \<Rightarrow> (Inl e, k)
      | (Inr repaired, k) \<Rightarrow>
          (case rr_model repaired of
             None \<Rightarrow> (Inr (s\<lparr>rp_attempts := Suc (rp_attempts s), rp_failure := rr_error repaired\<rparr>), k)
           | Some m \<Rightarrow>
               (let rr = \<lparr>rr_inventory = rr_inventory (rp_reader s), rr_model = Some m, rr_error = []\<rparr> in
                case resolve_and_validate ir m (rr_inventory rr) of
                  Inl e \<Rightarrow> (Inl (Crashed e), k)
                | Inr (rs, ds) \<Rightarrow>
                    repair_loop ag ir left
                      (s\<lparr>rp_reader := rr, rp_model := m, rp_resolution := rs, rp_decisions := ds,
                         rp_attempts := Suc (rp_attempts s)\<rparr>) k)))"

definition finding_key :: "finding \<Rightarrow> string \<times> string \<times> int \<times> string" where
  "finding_key f = (fg_rule f, lo_file (fg_location f), lo_start (fg_location f), fg_message f)"

definition lifecycle_status :: attributes where
  "lifecycle_status =
     [(''status'', PStr ''partial''), (''analysis_method'', PStr ''semantic''),
      (''reason'', PStr (''project-scoped protocol accepted by deterministic evidence gates; '' @
        ''current proof covers normalized defer-style cleanup only''))]"

definition refresh_stats :: "result \<Rightarrow> result" where
  "refresh_stats r = r\<lparr>rs_stats := dict_update (rs_stats r)
     [(''findings_total'', int (length (rs_findings r))), (''findings_error'', severity_count ERROR r),
      (''findings_warning'', severity_count WARNING r), (''findings_info'', severity_count INFO r),
      (''rules_total'', int (length (rs_status r))), (''rules_full'', status_count ''full'' r),
      (''rules_partial'', status_count ''partial'' r), (''rules_unknown'', status_count ''unknown'' r),
      (''rules_unsupported'', status_count ''unsupported'' r)]\<rparr>"

definition merge_reader_findings :: "finding list \<Rightarrow> result \<Rightarrow> result" where
  "merge_reader_findings fs r =
     (if fs = [] then r
      else refresh_stats (r\<lparr>rs_findings := rs_findings r @ dedup_by finding_key (map finding_key (rs_findings r)) fs,
             rs_status := dict_set ''project_resource_lifecycle'' lifecycle_status (rs_status r)\<rparr>))"

definition final_stage :: "semantic_ir \<Rightarrow> repair_state \<Rightarrow> reader_stage checked" where
  "final_stage ir s =
     (let protocols = validated_protocols (rp_decisions s); lifecycle = analyze_resources ir protocols;
          findings = map (resource_finding ir) (lr_findings lifecycle)
      in bind (traverse (\<lambda>f. make_fact (lifecycle_to_fact f)) (lr_findings lifecycle)) (\<lambda>facts.
         bind (reader_hypotheses (rp_reader s) (rp_decisions s)) (\<lambda>hs. Inr
           \<lparr>st_status = (if rp_failure s \<noteq> [] then ''abstained'' else if findings \<noteq> [] then ''findings''
              else if protocols \<noteq> [] then ''supported_no_finding'' else ''abstained''),
            st_reader = Some (rp_reader s), st_resolution = Some (rp_resolution s), st_validation = Some (rp_decisions s),
            st_lifecycle = Some lifecycle, st_repairs = rp_attempts s, st_repair_error = rp_failure s,
            st_findings = findings, st_facts = facts, st_hypotheses = hs\<rparr>)))"

definition run_project_reader :: "agent \<Rightarrow> int \<Rightarrow> session \<Rightarrow> nat \<Rightarrow> session read \<times> nat" where
  "run_project_reader ag max_repairs s n =
     (case rs_ir (ss_result s) of
        None \<Rightarrow> (Inr (set_stage s (new_stage ''unsupported'')), n)
      | Some ir \<Rightarrow>
          (if ir_operations ir = [] then (Inr (set_stage s (new_stage ''unsupported'')), n)
           else case read_project ag ir n of
             (Inl e, k) \<Rightarrow> (Inl e, k)
           | (Inr rr, k) \<Rightarrow>
               (case rr_model rr of
                  None \<Rightarrow> (Inr (set_stage s ((new_stage (if rr_error rr \<noteq> [] then ''unavailable'' else ''abstained''))\<lparr>st_reader := Some rr\<rparr>)), k)
                | Some m \<Rightarrow>
                    (case resolve_and_validate ir m (rr_inventory rr) of
                       Inl e \<Rightarrow> (Inl (Crashed e), k)
                     | Inr (rs, ds) \<Rightarrow>
                         (case repair_loop ag ir (nat (max 0 (min max_repairs 3)))
                             \<lparr>rp_reader = rr, rp_model = m, rp_resolution = rs, rp_decisions = ds, rp_attempts = 0, rp_failure = []\<rparr> k of
                            (Inl e, j) \<Rightarrow> (Inl e, j)
                          | (Inr st, j) \<Rightarrow>
                              (bind (crash (final_stage ir st)) (\<lambda>stage.
                                 Inr ((set_stage s stage)\<lparr>ss_result := merge_reader_findings (st_findings stage) (ss_result s)\<rparr>)), j))))))"

section \<open>Evidence of a session\<close>

definition diagnostic_fact :: "semantic_ir \<Rightarrow> finding \<Rightarrow> semantic_fact option checked" where
  "diagnostic_fact ir f =
     (let l = fg_location f; how = attr_str ''unknown'' (fg_metadata f) ''analysis_method''; u = dict_get (ir_units ir) (lo_file l) in
      if lo_file l = [] \<or> lo_start l < 1 \<or> how \<noteq> ''semantic'' then Inr None
      else bind (make_fact
        \<lparr>sf_subject = fg_rule f, sf_predicate = Kind STATE_TRANSITION, sf_object = fg_message f,
         sf_evidence = [make_ref (lo_file l) (lo_start l) (Some (lo_end l)) (lo_col_start l) (lo_col_end l) []
           (''diagnostic_rule:'' @ fg_rule f)],
         sf_confidence = fg_confidence f,
         sf_attributes =
           [(''kind'', PStr ''deterministic_diagnostic_candidate''), (''rule_id'', PStr (fg_rule f)),
            (''analysis_method'', PStr how), (''analysis_status'', PStr (attr_str ''unknown'' (fg_metadata f) ''analysis_status'')),
            (''source_role'', PStr (case u of None \<Rightarrow> ''unknown'' | Some x \<Rightarrow> source_role_value (su_role x))),
            (''repository_zone'', PStr (case u of None \<Rightarrow> ''unknown'' | Some x \<Rightarrow> repository_zone_value (su_zone x))),
            (''claim_boundary'', PStr ''semantic analyzer output'')]\<rparr>) (\<lambda>x. Inr (Some x)))"

definition diagnostic_hypothesis :: "finding \<Rightarrow> semantic_hypothesis checked" where
  "diagnostic_hypothesis f = make_hypothesis
     \<lparr>sh_kind = ''heuristic_diagnostic_candidate'', sh_statement = fg_message f, sh_source = ''diagnostic_rule:'' @ fg_rule f,
      sh_confidence = fg_confidence f,
      sh_attributes =
        [(''rule_id'', PStr (fg_rule f)), (''file_path'', PStr (lo_file (fg_location f))),
         (''line_start'', PInt (lo_start (fg_location f))),
         (''analysis_status'', dict_get_or (PStr ''unknown'') (fg_metadata f) ''analysis_status''),
         (''claim_boundary'', PStr ''untrusted candidate; must be supported by fact IDs'')]\<rparr>"

text \<open>\<open>ord\<close> and \<open>read\<close> are the arguments of retrieval: an order of sets and the reader of source lines.\<close>

definition session_evidence_pack ::
  "(string list \<Rightarrow> string list) \<Rightarrow> reader \<Rightarrow> session \<Rightarrow> string \<Rightarrow> int \<Rightarrow> int \<Rightarrow> int \<Rightarrow> evidence_pack checked" where
  "session_evidence_pack ord read s query hops max_nodes max_facts =
     (case rs_ir (ss_result s) of
        None \<Rightarrow> Inr \<lparr>ep_query = query, ep_facts = [], ep_hypotheses = [], ep_evidence = [], ep_trace = [''session:no-ir''], ep_graph_version = []\<rparr>
      | Some ir \<Rightarrow>
          bind (retrieve ord read ir query hops max_nodes) (\<lambda>base.
          bind (traverse (diagnostic_fact ir) (rs_findings (ss_result s))) (\<lambda>found.
          bind (traverse diagnostic_hypothesis
              (filter (\<lambda>f. attr_str ''unknown'' (fg_metadata f) ''analysis_method'' \<noteq> ''semantic'') (rs_findings (ss_result s)))) (\<lambda>hyps.
          (let limit = nat (max 0 max_facts); diagnostic = take limit (List.map_filter (\<lambda>x. x) found);
               heuristic = take limit hyps; own = ss_reader s;
               unique = dedup_by fact_id [] (st_facts own @ diagnostic @ ep_facts base);
               hs = st_hypotheses own @ heuristic
           in Inr (pack_from_facts query unique hs
                ([''analysis-session:semantic-ir'', ''deterministic-findings:'' @ str_of_nat (length diagnostic),
                  ''project-reader-facts:'' @ str_of_nat (length (st_facts own)), ''untrusted-hypotheses:'' @ str_of_nat (length hs)] @ ep_trace base)
                (''session-'' @ take 16 (sha256_hex (join ''|'' (ep_graph_version base # map fact_id unique @ map hypothesis_id hs))))))))))"

section \<open>What a run guarantees\<close>

text \<open>A finding at a use of a resource that a call acquires by a grounded protocol.\<close>

definition grounded_finding :: "semantic_ir \<Rightarrow> evidence_pack \<Rightarrow> finding \<Rightarrow> bool" where
  "grounded_finding ir inventory f \<longleftrightarrow>
     (\<exists>lf. f = resource_finding ir lf \<and> grounded_protocol ir inventory (lf_protocol lf) \<and>
        lf_acquire lf \<in> set (ir_operations ir) \<and> op_kind (lf_acquire lf) = CALL \<and>
        matches_acquire (lf_acquire lf) (lf_protocol lf) (make_type_index (ir_types ir)))"

definition decisions_grounded :: "semantic_ir \<Rightarrow> evidence_pack \<Rightarrow> mapping_decision list \<Rightarrow> bool" where
  "decisions_grounded ir inventory ds = list_all (grounded_protocol ir inventory) (validated_protocols ds)"

definition state_grounded :: "semantic_ir \<Rightarrow> evidence_pack \<Rightarrow> repair_state \<Rightarrow> bool" where
  "state_grounded ir inventory s \<longleftrightarrow>
     rr_inventory (rp_reader s) = inventory \<and> decisions_grounded ir inventory (rp_decisions s)"

lemma validated_unresolved [simp]:
  "validated_protocols (ds @ map unresolved_decision rs) = validated_protocols ds"
proof -
  have "validated_protocols (map unresolved_decision rs) = []"
    by (induction rs) (simp_all add: validated_protocols_def unresolved_decision_def List.map_filter_simps)
  then show ?thesis by (simp add: validated_protocols_def List.map_filter_def)
qed

lemma resolve_and_validate_grounded:
  "resolve_and_validate ir m inventory = Inr (rs, ds) \<Longrightarrow> decisions_grounded ir inventory ds"
  by (auto simp: resolve_and_validate_def Let_def decisions_grounded_def list_all_iff dest: validate_model_grounded)

lemma read_prompt_inventory: "fst (read_prompt ag inventory p n) = Inr rr \<Longrightarrow> rr_inventory rr = inventory"
  by (auto simp: read_prompt_def Let_def split: sum.splits prod.splits py_error.splits)

lemma invoke_calls: "snd (invoke ag p n) \<le> n + 2"
  by (auto simp: invoke_def Let_def split: sum.split py_error.split prod.split)

lemma read_prompt_calls: "snd (read_prompt ag inventory p n) \<le> n + 2"
  using invoke_calls [of ag p n] by (auto simp: read_prompt_def Let_def split: prod.split)

lemma repair_loop_ok:
  "state_grounded ir inventory s \<Longrightarrow> repair_loop ag ir left s n = (out, k) \<Longrightarrow>
   k \<le> n + 2 * left \<and>
   (case out of Inl e \<Rightarrow> True | Inr s' \<Rightarrow> state_grounded ir inventory s' \<and> rp_attempts s' \<le> rp_attempts s + left)"
proof (induction ag ir left s n arbitrary: out k rule: repair_loop.induct)
  case (2 ag ir left s n)
  show ?case
  proof (cases "validated_protocols (rp_decisions s) \<noteq> [] \<or> \<not> has_rejections (rp_decisions s)")
    case True
    then show ?thesis using "2.prems" by auto
  next
    case False
    obtain r j where r: "repair_project ag (rr_inventory (rp_reader s)) (rp_model s) (rp_decisions s) n = (r, j)" by fastforce
    have j: "j \<le> n + 2" using read_prompt_calls r by (metis repair_project_def snd_conv)
    show ?thesis
    proof (cases r)
      case (Inl e)
      then show ?thesis using False r j "2.prems"(2) by auto
    next
      case (Inr repaired)
      show ?thesis
      proof (cases "rr_model repaired")
        case None
        then show ?thesis using False r j Inr "2.prems" by (auto simp: state_grounded_def)
      next
        case (Some m)
        let ?rr = "\<lparr>rr_inventory = rr_inventory (rp_reader s), rr_model = Some m, rr_error = []\<rparr>"
        show ?thesis
        proof (cases "resolve_and_validate ir m (rr_inventory ?rr)")
          case (Inl e)
          then show ?thesis using False r j Inr Some "2.prems" by (auto simp: Let_def)
        next
          case (Inr rd)
          obtain rs ds where rd: "rd = (rs, ds)" by fastforce
          let ?s = "s\<lparr>rp_reader := ?rr, rp_model := m, rp_resolution := rs, rp_decisions := ds, rp_attempts := Suc (rp_attempts s)\<rparr>"
          have "state_grounded ir inventory ?s"
            using "2.prems"(1) resolve_and_validate_grounded Inr rd by (auto simp: state_grounded_def)
          moreover have "repair_loop ag ir left ?s j = (out, k)"
            using False r \<open>r = Inr repaired\<close> Some Inr rd "2.prems"(2) by (simp add: Let_def)
          ultimately have "k \<le> j + 2 * left \<and> (case out of Inl e \<Rightarrow> True
              | Inr s' \<Rightarrow> state_grounded ir inventory s' \<and> rp_attempts s' \<le> rp_attempts ?s + left)"
            using "2.IH" False r \<open>r = Inr repaired\<close> Some Inr rd by (metis (no_types, lifting))
          then show ?thesis using j by (auto split: sum.splits)
        qed
      qed
    qed
  qed
qed auto

lemma lifecycle_findings_grounded:
  assumes "list_all (grounded_protocol ir inventory) protocols" "f \<in> set (lr_findings (analyze_resources ir protocols))"
  shows "grounded_finding ir inventory (resource_finding ir f)"
proof -
  let ?g = "cfg_from_ir ir []" and ?ix = "make_type_index (ir_types ir)" and ?ops = "sort_key op_order (ir_operations ir)"
  obtain proto a where a: "proto \<in> set protocols" "a \<in> set (protocol_acquisitions ir ?ix ?ops proto)"
    "evaluate_acquire ?g ?ix ?ops proto a = Unprotected f"
    using assms(2) by (auto simp: analyze_resources_def findings_protocols)
  have "lf_protocol f = proto \<and> lf_acquire f = a"
    using a(3) by (auto simp: evaluate_acquire_def Let_def split: if_splits option.splits)
  then show ?thesis using a(1,2) assms(1)
    by (auto simp: grounded_finding_def protocol_acquisitions_def list_all_iff intro!: exI [of _ f])
qed

lemma final_stage_ok:
  assumes "final_stage ir s = Inr st" "state_grounded ir inventory s"
  shows "st_validation st = Some (rp_decisions s) \<and> decisions_grounded ir inventory (rp_decisions s) \<and>
    st_findings st = map (resource_finding ir) (lr_findings (analyze_resources ir (validated_protocols (rp_decisions s)))) \<and>
    list_all (grounded_finding ir inventory) (st_findings st) \<and> st_repairs st = rp_attempts s"
proof -
  have "decisions_grounded ir inventory (rp_decisions s)" using assms(2) by (simp add: state_grounded_def)
  moreover have "st_findings st = map (resource_finding ir) (lr_findings (analyze_resources ir (validated_protocols (rp_decisions s))))"
    "st_validation st = Some (rp_decisions s)" "st_repairs st = rp_attempts s"
    using assms(1) by (auto simp: final_stage_def Let_def)
  ultimately show ?thesis
    using lifecycle_findings_grounded by (auto simp: list_all_iff decisions_grounded_def)
qed

text \<open>What a session looks like after a run, given the session before it.\<close>

definition run_ok :: "agent \<Rightarrow> session \<Rightarrow> session \<Rightarrow> bool" where
  "run_ok ag s s' \<longleftrightarrow>
     (let st = ss_reader s' in
      ss_report s' = stage_to_dict st \<and> st_repairs st \<le> 3 \<and>
      ss_result s' = merge_reader_findings (st_findings st) (ss_result s) \<and>
      (st_findings st = [] \<or>
       (\<exists>ir ds. rs_ir (ss_result s) = Some ir \<and> st_validation st = Some ds \<and>
          decisions_grounded ir (build_project_inventory ir (ag_max_facts ag) (ag_max_chars ag)) ds \<and>
          list_all (grounded_finding ir (build_project_inventory ir (ag_max_facts ag) (ag_max_chars ag))) (st_findings st))))"

lemma run_ok_empty: "st_findings st = [] \<Longrightarrow> st_repairs st \<le> 3 \<Longrightarrow> run_ok ag s (set_stage s st)"
  by (simp add: run_ok_def Let_def set_stage_def merge_reader_findings_def)

text \<open>The rest of a run, once the first model is validated.\<close>

lemma repairs_and_stage_ok:
  fixes limit :: int
  assumes "rs_ir (ss_result s) = Some ir" "inventory = build_project_inventory ir (ag_max_facts ag) (ag_max_chars ag)"
    and "state_grounded ir inventory st0" "rp_attempts st0 = 0" "left \<le> 3"
    and run: "(case repair_loop ag ir left st0 j of
         (Inl e, i) \<Rightarrow> (Inl e, i)
       | (Inr st, i) \<Rightarrow> (bind (crash (final_stage ir st)) (\<lambda>stage.
           Inr ((set_stage s stage)\<lparr>ss_result := merge_reader_findings (st_findings stage) (ss_result s)\<rparr>)), i)) = (out, k)"
  shows "k \<le> j + 2 * left \<and> (case out of Inl e \<Rightarrow> True | Inr s' \<Rightarrow> run_ok ag s s')"
proof -
  obtain o2 i where loop: "repair_loop ag ir left st0 j = (o2, i)" by fastforce
  note ok = repair_loop_ok [OF assms(3) loop]
  have "run_ok ag s s'" if "o2 = Inr st" "crash (final_stage ir st) = Inr stage"
    "s' = (set_stage s stage)\<lparr>ss_result := merge_reader_findings (st_findings stage) (ss_result s)\<rparr>" for st stage s'
  proof -
    have fin: "final_stage ir st = Inr stage" "state_grounded ir inventory st" "rp_attempts st \<le> 3"
      using that(1,2) ok assms(4,5) by (auto simp: crash_def split: sum.splits)
    have "st_validation stage = Some (rp_decisions st)" "decisions_grounded ir inventory (rp_decisions st)"
      "list_all (grounded_finding ir inventory) (st_findings stage)" "st_repairs stage = rp_attempts st"
      using final_stage_ok [OF fin(1,2)] by blast+
    then show ?thesis
      using fin(3) assms(1) unfolding assms(2) by (simp add: run_ok_def Let_def set_stage_def that(3))
  qed
  then show ?thesis using ok run loop by (auto split: sum.splits)
qed

lemma run_project_reader_ok:
  "run_project_reader ag limit s n = (out, k) \<Longrightarrow>
   k \<le> n + 2 * (1 + nat (max 0 (min limit 3))) \<and> (case out of Inl e \<Rightarrow> True | Inr s' \<Rightarrow> run_ok ag s s')"
proof -
  assume run: "run_project_reader ag limit s n = (out, k)"
  show ?thesis
  proof (cases "\<exists>ir. rs_ir (ss_result s) = Some ir \<and> ir_operations ir \<noteq> []")
    case False
    then show ?thesis using run run_ok_empty [of "new_stage ''unsupported''" ag s]
      by (auto simp: run_project_reader_def new_stage_def split: option.splits if_splits)
  next
    case True
    then obtain ir where ir: "rs_ir (ss_result s) = Some ir" "ir_operations ir \<noteq> []" by blast
    let ?inventory = "build_project_inventory ir (ag_max_facts ag) (ag_max_chars ag)"
    obtain r j where r: "read_project ag ir n = (r, j)" by fastforce
    have j: "j \<le> n + 2" using read_prompt_calls r by (metis read_project_def snd_conv)
    have inv: "rr_inventory rr = ?inventory" if "r = Inr rr" for rr
      using r that read_prompt_inventory [of ag ?inventory _ n rr] by (metis fst_conv read_project_def)
    show ?thesis
    proof (cases "\<exists>rr m rs ds. r = Inr rr \<and> rr_model rr = Some m \<and> resolve_and_validate ir m (rr_inventory rr) = Inr (rs, ds)")
      case False
      have "run_ok ag s (set_stage s ((new_stage status)\<lparr>st_reader := rr\<rparr>))" for status rr
        by (rule run_ok_empty) (simp_all add: new_stage_def)
      with False show ?thesis using run ir r j
        by (auto simp: run_project_reader_def split: sum.splits option.splits)
    next
      case True
      then obtain rr m rs ds where m: "r = Inr rr" "rr_model rr = Some m" "resolve_and_validate ir m (rr_inventory rr) = Inr (rs, ds)"
        by blast
      let ?left = "nat (max 0 (min limit 3))"
      let ?s = "\<lparr>rp_reader = rr, rp_model = m, rp_resolution = rs, rp_decisions = ds, rp_attempts = 0, rp_failure = []\<rparr>"
      have "state_grounded ir ?inventory ?s"
        using resolve_and_validate_grounded m(3) inv [OF m(1)] by (auto simp: state_grounded_def)
      from repairs_and_stage_ok [OF ir(1) refl this, of ?left j out k]
      have "k \<le> j + 2 * ?left \<and> (case out of Inl e \<Rightarrow> True | Inr s' \<Rightarrow> run_ok ag s s')"
        using run ir r m by (simp add: run_project_reader_def)
      then show ?thesis using j by auto
    qed
  qed
qed

text \<open>
  Merging the findings of the reader keeps the findings of the rules in front, adds a finding exactly
  when none with its rule, place and message is there, adds none twice, and leaves statistics that count
  the findings, unless there was nothing to merge.
\<close>

theorem merged_findings:
  "\<exists>new. rs_findings (merge_reader_findings fs r) = rs_findings r @ new \<and> set new \<subseteq> set fs \<and>
     distinct (map finding_key new) \<and> finding_key ` set new = finding_key ` set fs - finding_key ` set (rs_findings r) \<and>
     (new = [] \<or> totals_ok (merge_reader_findings fs r))"
proof (cases "fs = []")
  case True
  then show ?thesis by (simp add: merge_reader_findings_def)
next
  case False
  let ?new = "dedup_by finding_key (map finding_key (rs_findings r)) fs"
  have "rs_findings (merge_reader_findings fs r) = rs_findings r @ ?new"
    using False by (simp add: merge_reader_findings_def refresh_stats_def)
  moreover have "totals_ok (merge_reader_findings fs r)"
    using False by (simp add: merge_reader_findings_def refresh_stats_def totals_ok_def dict_update_def severity_count_def)
  moreover have "finding_key ` set ?new = finding_key ` set fs - finding_key ` set (rs_findings r)"
    using keys_dedup_by [of finding_key "map finding_key (rs_findings r)" fs] by simp
  moreover have "set ?new \<subseteq> set fs" "distinct (map finding_key ?new)"
    by (rule set_dedup_by_subset, rule distinct_dedup_by)
  ultimately show ?thesis by (intro exI [of _ ?new] conjI disjI2)
qed

lemma merged_rest:
  "rs_ir (merge_reader_findings fs r) = rs_ir r \<and> rs_errors (merge_reader_findings fs r) = rs_errors r \<and>
   rs_packs (merge_reader_findings fs r) = rs_packs r"
  by (simp add: merge_reader_findings_def refresh_stats_def)

text \<open>
  C10: Whatever the language model answers, a completed run of the project reader keeps every finding the
  rules had reported, in their order and in front, with the IR, the errors and the evidence packs of the
  result; what it adds are findings of its own stage, one for each rule, place and message that no earlier
  finding has, and the statistics count them. Its stage reports a resource finding only at a call that
  matches a protocol which is grounded in the program and in the inventory the model was shown, and at most
  three repairs are asked for.
\<close>

theorem reader_run_grounded:
  "case fst (run_project_reader ag limit s n) of
     Inl e \<Rightarrow> True
   | Inr s' \<Rightarrow> (let st = ss_reader s'; before = ss_result s; after = ss_result s' in
       (\<exists>new. rs_findings after = rs_findings before @ new \<and> set new \<subseteq> set (st_findings st) \<and>
          distinct (map finding_key new) \<and>
          finding_key ` set new = finding_key ` set (st_findings st) - finding_key ` set (rs_findings before) \<and>
          (new = [] \<or> totals_ok after)) \<and>
       rs_ir after = rs_ir before \<and> rs_errors after = rs_errors before \<and> rs_packs after = rs_packs before \<and>
       ss_report s' = stage_to_dict st \<and> st_repairs st \<le> 3 \<and>
       (st_findings st = [] \<or>
        (\<exists>ir ds. rs_ir before = Some ir \<and> st_validation st = Some ds \<and>
           decisions_grounded ir (build_project_inventory ir (ag_max_facts ag) (ag_max_chars ag)) ds \<and>
           list_all (grounded_finding ir (build_project_inventory ir (ag_max_facts ag) (ag_max_chars ag))) (st_findings st))))"
proof (cases "fst (run_project_reader ag limit s n)")
  case (Inr s')
  then have ok: "run_ok ag s s'"
    using run_project_reader_ok [of ag limit s n "Inr s'" "snd (run_project_reader ag limit s n)"]
    by (metis prod.collapse sum.simps(6))
  then have "ss_result s' = merge_reader_findings (st_findings (ss_reader s')) (ss_result s)"
    by (simp add: run_ok_def Let_def)
  then show ?thesis
    using Inr ok merged_findings [of "st_findings (ss_reader s')" "ss_result s"] merged_rest [of "st_findings (ss_reader s')" "ss_result s"]
    by (simp add: run_ok_def Let_def)
qed simp

text \<open>
  C14: A run of the project reader ends after at most two calls of the model for the first reading and two
  for each of at most three repairs.
\<close>

theorem reader_call_budget:
  "snd (run_project_reader ag limit s n) \<le> n + 2 * (1 + nat (max 0 (min limit 3)))"
  using run_project_reader_ok [of ag limit s n "fst (run_project_reader ag limit s n)" "snd (run_project_reader ag limit s n)"]
  by simp

text \<open>
  The evidence pack of a session holds each fact once, and only facts of the reader's stage, of semantic
  findings and of retrieval, so that heuristic findings enter as hypotheses alone.
\<close>

lemma session_pack_facts:
  assumes "session_evidence_pack ord read s query hops max_nodes max_facts = Inr p" "rs_ir (ss_result s) = Some ir"
  shows "distinct (map fact_id (ep_facts p)) \<and>
    (\<forall>f\<in>set (ep_facts p). f \<in> set (st_facts (ss_reader s)) \<or>
       (\<exists>d\<in>set (rs_findings (ss_result s)). diagnostic_fact ir d = Inr (Some f)) \<or>
       (\<exists>base. retrieve ord read ir query hops max_nodes = Inr base \<and> f \<in> set (ep_facts base)))"
proof -
  obtain base found hyps where b: "retrieve ord read ir query hops max_nodes = Inr base"
    "traverse (diagnostic_fact ir) (rs_findings (ss_result s)) = Inr found"
    and facts: "ep_facts p = dedup_by fact_id []
      (st_facts (ss_reader s) @ take (nat (max 0 max_facts)) (List.map_filter (\<lambda>x. x) found) @ ep_facts base)"
    using assms by (auto simp: session_evidence_pack_def Let_def pack_from_facts_def)
  let ?own = "take (nat (max 0 max_facts)) (List.map_filter (\<lambda>x. x) found)"
  have diagnostic: "\<exists>d\<in>set (rs_findings (ss_result s)). diagnostic_fact ir d = Inr (Some f)" if "f \<in> set ?own" for f
    using in_set_takeD [OF that] traverse_origin [OF b(2)] by (auto simp: set_map_filter)
  have "set (ep_facts p) \<subseteq> set (st_facts (ss_reader s) @ ?own @ ep_facts base)"
    unfolding facts by (rule set_dedup_by_subset)
  then have "f \<in> set (st_facts (ss_reader s)) \<or> f \<in> set ?own \<or> f \<in> set (ep_facts base)" if "f \<in> set (ep_facts p)" for f
    using subsetD [OF _ that] unfolding set_append by blast
  moreover have "distinct (map fact_id (ep_facts p))" unfolding facts by (rule distinct_dedup_by)
  ultimately show ?thesis using diagnostic b(1) by metis
qed

end
