(* ===== verification/Benchmarks.thy ===== *)
theory Benchmarks
  imports StateSpec Session PyFloat
begin

text \<open>
  \<open>benchmarks/runner.py\<close> and \<open>benchmarks/metrics.py\<close>: the manifest of repository snapshots, the runner
  that takes each snapshot through the engine, and the metrics over the runs. \<open>BenchmarkConfigError\<close> is
  a \<open>ValueError\<close> with its text. The bounded reader, \<open>yaml.safe_load\<close>, the resolution of paths, the
  engine of a project and the clock are arguments. A frozen set of rule ids is its sorted list.
\<close>

section \<open>The manifest\<close>

definition benchmark_version :: string where
  "benchmark_version = ''smartbench.benchmarks/v1''"

record benchmark_snapshot =
  bs_label :: string
  bs_path :: string
  bs_min :: int
  bs_max :: "int option"
  bs_expected :: "string list"
  bs_confidence :: pyfloat

record benchmark_case =
  bc_id :: string
  bc_language :: string
  bc_state_rules :: "string list"
  bc_rules :: "string list"
  bc_snapshots :: "benchmark_snapshot list"
  bc_metadata :: "(string, yaml) dict"

type_synonym yaml_map = "(yaml \<times> yaml) list"

definition benchmark_mapping :: "yaml \<Rightarrow> string \<Rightarrow> yaml_map checked" where
  "benchmark_mapping v path = (case v of YMap kvs \<Rightarrow> Inr kvs | _ \<Rightarrow> fail (path @ '' must be a mapping''))"

definition yaml_get :: "yaml \<Rightarrow> yaml_map \<Rightarrow> string \<Rightarrow> yaml" where
  "yaml_get dflt kvs k = (case map_of kvs (YStr k) of None \<Rightarrow> dflt | Some v \<Rightarrow> v)"

text \<open>
  \<open>sorted(set(value) - allowed)\<close> and \<open>', '.join\<close> of it: a key that is no text cannot be compared with
  the others or joined, and raises \<open>TypeError\<close>.
\<close>

definition unknown_keys :: "yaml_map \<Rightarrow> string list \<Rightarrow> yaml list" where
  "unknown_keys kvs allowed = filter (\<lambda>k. \<not> (case k of YStr s \<Rightarrow> s \<in> set allowed | _ \<Rightarrow> False)) (map fst kvs)"

definition reject_unknown_keys :: "yaml_map \<Rightarrow> string list \<Rightarrow> string \<Rightarrow> unit checked" where
  "reject_unknown_keys kvs allowed path =
     (let unknown = unknown_keys kvs allowed;
          texts = List.map_filter (\<lambda>k. case k of YStr s \<Rightarrow> Some s | _ \<Rightarrow> None) unknown
      in if unknown = [] then Inr ()
         else if length texts < length unknown then Inl (TypeError ''expected str instance'')
         else fail (path @ '' contains unknown fields: '' @ join '', '' (sorted_set texts)))"

definition benchmark_text :: "yaml \<Rightarrow> string \<Rightarrow> string checked" where
  "benchmark_text v path =
     (case v of
        YStr s \<Rightarrow> if strip s = [] then fail (path @ '' must be a non-empty string'') else Inr (strip s)
      | _ \<Rightarrow> fail (path @ '' must be a non-empty string''))"

definition benchmark_texts :: "yaml \<Rightarrow> string \<Rightarrow> string list checked" where
  "benchmark_texts v path =
     (let bad = fail (path @ '' must be a string or list of non-empty strings'');
          items = (case v of YStr s \<Rightarrow> Some [YStr s] | YSeq vs \<Rightarrow> Some vs | _ \<Rightarrow> None)
      in case items of
           None \<Rightarrow> bad
         | Some vs \<Rightarrow>
             (if list_all (\<lambda>x. case x of YStr s \<Rightarrow> strip s \<noteq> [] | _ \<Rightarrow> False) vs
              then Inr (List.map_filter (\<lambda>x. case x of YStr s \<Rightarrow> Some (strip s) | _ \<Rightarrow> None) vs)
              else bad))"

definition benchmark_path :: "(string \<Rightarrow> string) \<Rightarrow> yaml \<Rightarrow> string \<Rightarrow> string checked" where
  "benchmark_path resolve v path =
     (case v of
        YStr s \<Rightarrow> if strip s = [] then fail (path @ '' must be a non-empty path'') else Inr (resolve s)
      | _ \<Rightarrow> fail (path @ '' must be a non-empty path''))"

definition benchmark_metadata :: "yaml \<Rightarrow> string \<Rightarrow> (string, yaml) dict checked" where
  "benchmark_metadata v path =
     (case v of
        YNull \<Rightarrow> Inr []
      | YMap kvs \<Rightarrow>
          (if list_all (\<lambda>(k, x). case k of YStr s \<Rightarrow> strip s \<noteq> [] | _ \<Rightarrow> False) kvs
           then Inr (foldl (\<lambda>d (k, x). case k of YStr s \<Rightarrow> dict_set (strip s) x d | _ \<Rightarrow> d) [] kvs)
           else fail (path @ '' keys must be non-empty strings''))
      | _ \<Rightarrow> fail (path @ '' must be a mapping''))"

definition non_empty_items :: "yaml \<Rightarrow> string \<Rightarrow> yaml list checked" where
  "non_empty_items v message = (case v of YSeq vs \<Rightarrow> if vs = [] then fail message else Inr vs | _ \<Rightarrow> fail message)"

definition non_negative_int :: "yaml \<Rightarrow> string \<Rightarrow> int checked" where
  "non_negative_int v path =
     (case v of
        YInt n \<Rightarrow> if n < 0 then fail (path @ '' must be a non-negative integer'') else Inr n
      | _ \<Rightarrow> fail (path @ '' must be a non-negative integer''))"

definition unit_float :: "yaml \<Rightarrow> string \<Rightarrow> pyfloat checked" where
  "unit_float v path =
     (let bad = fail (path @ '' must be between 0 and 1'') in
      case v of
        YInt n \<Rightarrow>
          (if 2 ^ 1024 - 2 ^ 970 \<le> \<bar>n\<bar> then Inl (OverflowError ''int too large to convert to float'')
           else if n = 0 then Inr (0, ''0.0'') else if n = 1 then Inr float_one else bad)
      | YFloat q t \<Rightarrow> if unit_interval (q, t) then Inr (q, t) else bad
      | _ \<Rightarrow> fail (path @ '' must be a number between 0 and 1''))"

definition parse_snapshot :: "(string \<Rightarrow> string) \<Rightarrow> string \<Rightarrow> nat \<times> yaml \<Rightarrow> benchmark_snapshot checked" where
  "parse_snapshot resolve cid item =
     (let path = ''cases['' @ cid @ ''].snapshots['' @ str_of_nat (fst item) @ '']'' in
      bind (benchmark_mapping (snd item) path) (\<lambda>d.
      bind (reject_unknown_keys d
          [''label'', ''path'', ''min_findings'', ''max_findings'', ''expected_rule_ids'', ''min_confidence''] path) (\<lambda>_.
      bind (benchmark_text (yaml_get YNull d ''label'') (path @ ''.label'')) (\<lambda>label.
      bind (benchmark_path resolve (yaml_get YNull d ''path'') (path @ ''.path'')) (\<lambda>project.
      bind (non_negative_int (yaml_get (YInt 0) d ''min_findings'') (path @ ''.min_findings'')) (\<lambda>least.
      bind (if yaml_get YNull d ''max_findings'' = YNull then Inr None
            else bind (non_negative_int (yaml_get YNull d ''max_findings'') (path @ ''.max_findings'')) (\<lambda>n. Inr (Some n))) (\<lambda>most.
      bind (require (case most of None \<Rightarrow> True | Some n \<Rightarrow> least \<le> n) (path @ '': min_findings cannot exceed max_findings'')) (\<lambda>_.
      bind (benchmark_texts (yaml_get (YSeq []) d ''expected_rule_ids'') (path @ ''.expected_rule_ids'')) (\<lambda>expected.
      bind (unit_float (yaml_get (YFloat 0 ''0.0'') d ''min_confidence'') (path @ ''.min_confidence'')) (\<lambda>confidence.
      Inr \<lparr>bs_label = label, bs_path = project, bs_min = least, bs_max = most, bs_expected = sorted_set expected,
        bs_confidence = confidence\<rparr>))))))))))"

definition parse_case :: "(string \<Rightarrow> string) \<Rightarrow> nat \<times> yaml \<Rightarrow> benchmark_case checked" where
  "parse_case resolve item =
     (let path = ''cases['' @ str_of_nat (fst item) @ '']'' in
      bind (benchmark_mapping (snd item) path) (\<lambda>d.
      bind (reject_unknown_keys d [''id'', ''language'', ''state_rules'', ''rules'', ''snapshots'', ''metadata''] path) (\<lambda>_.
      bind (benchmark_text (yaml_get YNull d ''id'') (path @ ''.id'')) (\<lambda>cid.
      bind (benchmark_text (yaml_get YNull d ''language'') (path @ ''.language'')) (\<lambda>language.
      bind (benchmark_texts (yaml_get (YSeq []) d ''state_rules'') (path @ ''.state_rules'')) (\<lambda>paths.
      bind (benchmark_texts (yaml_get (YSeq []) d ''rules'') (path @ ''.rules'')) (\<lambda>rules.
      bind (non_empty_items (yaml_get YNull d ''snapshots'') (path @ ''.snapshots must be a non-empty list'')) (\<lambda>raw.
      bind (traverse (parse_snapshot resolve cid) (enumerate 0 raw)) (\<lambda>snapshots.
      bind (benchmark_metadata (yaml_get (YMap []) d ''metadata'') (path @ ''.metadata'')) (\<lambda>metadata.
      Inr \<lparr>bc_id = cid, bc_language = lower language, bc_state_rules = map resolve paths, bc_rules = rules,
        bc_snapshots = snapshots, bc_metadata = metadata\<rparr>))))))))))"

definition parse_manifest :: "(string \<Rightarrow> string) \<Rightarrow> yaml \<Rightarrow> benchmark_case list checked" where
  "parse_manifest resolve document =
     bind (benchmark_mapping document ''document'') (\<lambda>d.
     bind (reject_unknown_keys d [''version'', ''cases''] ''document'') (\<lambda>_.
     bind (require (yaml_get YNull d ''version'' = YStr benchmark_version)
         (''unsupported benchmark version '' @ yaml_repr (yaml_get YNull d ''version'') @ ''; expected '' @ repr_str benchmark_version)) (\<lambda>_.
     bind (non_empty_items (yaml_get YNull d ''cases'') ''document.cases must be a non-empty list'') (\<lambda>raw.
     bind (traverse (parse_case resolve) (enumerate 0 raw)) (\<lambda>cases.
     bind (require (distinct (map bc_id cases)) ''benchmark case IDs must be unique'') (\<lambda>_. Inr cases))))))"

definition load_benchmark_manifest ::
  "(string \<Rightarrow> string option) \<Rightarrow> (string \<Rightarrow> string + yaml) \<Rightarrow> (string \<Rightarrow> string) \<Rightarrow> string \<Rightarrow> benchmark_case list checked" where
  "load_benchmark_manifest read_text safe_load resolve file =
     (case read_text file of
        None \<Rightarrow> fail (''cannot read benchmark manifest: '' @ file)
      | Some source \<Rightarrow> (case safe_load source of
            Inl m \<Rightarrow> fail (''invalid YAML in '' @ file @ '': '' @ m)
          | Inr doc \<Rightarrow> parse_manifest resolve doc))"

section \<open>The runner\<close>

record snapshot_result =
  sn_case :: string
  sn_label :: string
  sn_path :: string
  sn_findings :: nat
  sn_rules :: "string list"
  sn_metadata :: "(string, yaml) dict"
  sn_errors :: "string list"
  sn_passed :: bool
  sn_duration :: int

definition benchmark_config :: "benchmark_case \<Rightarrow> benchmark_snapshot \<Rightarrow> config" where
  "benchmark_config c sn =
     \<lparr>uc_llm = False, uc_static = (bc_rules c \<noteq> []), uc_max_files = 500, uc_rules = bc_rules c,
      uc_languages = [bc_language c], uc_min_confidence = fst (bs_confidence sn), uc_build_packs = True, uc_max_packs = 50,
      uc_hops = 2, uc_nodes = 8, uc_state_paths = bc_state_rules c, uc_adjudicate = True\<rparr>"

definition snapshot_passed :: "benchmark_snapshot \<Rightarrow> string list \<Rightarrow> string list \<Rightarrow> bool" where
  "snapshot_passed sn hits errors \<longleftrightarrow>
     errors = [] \<and> bs_min sn \<le> int (length hits) \<and>
     (case bs_max sn of None \<Rightarrow> True | Some n \<Rightarrow> int (length hits) \<le> n) \<and>
     (bs_expected sn = [] \<or> set (bs_expected sn) \<subseteq> set hits)"

definition run_snapshot ::
  "(string \<Rightarrow> engine) \<Rightarrow> (string \<Rightarrow> string \<Rightarrow> int) \<Rightarrow> benchmark_case \<times> benchmark_snapshot \<Rightarrow> snapshot_result" where
  "run_snapshot engine_for took cs =
     (case cs of (c, sn) \<Rightarrow>
        (let r = ss_result (analyze_session (engine_for (bs_path sn)) (benchmark_config c sn)); hits = map fg_rule (rs_findings r)
         in \<lparr>sn_case = bc_id c, sn_label = bs_label sn, sn_path = bs_path sn, sn_findings = length hits, sn_rules = hits,
             sn_metadata = bc_metadata c, sn_errors = rs_errors r, sn_passed = snapshot_passed sn hits (rs_errors r),
             sn_duration = took (bc_id c) (bs_label sn)\<rparr>))"

definition case_snapshots :: "benchmark_case list \<Rightarrow> (benchmark_case \<times> benchmark_snapshot) list" where
  "case_snapshots cases = concat (map (\<lambda>c. map (Pair c) (bc_snapshots c)) cases)"

definition run_benchmark ::
  "(string \<Rightarrow> engine) \<Rightarrow> (string \<Rightarrow> string \<Rightarrow> int) \<Rightarrow> benchmark_case list \<Rightarrow> snapshot_result list" where
  "run_benchmark engine_for took cases = map (run_snapshot engine_for took) (case_snapshots cases)"

definition report_passed :: "snapshot_result list \<Rightarrow> bool" where
  "report_passed rs = (rs \<noteq> [] \<and> list_all sn_passed rs)"

definition report_summary :: "snapshot_result list \<Rightarrow> nat \<times> nat \<times> nat" where
  "report_summary rs = (length rs, length (filter sn_passed rs), length (filter (\<lambda>r. \<not> sn_passed r) rs))"

section \<open>Metrics\<close>

record benchmark_run =
  br_case :: benchmark_case
  br_snapshot :: benchmark_snapshot
  br_result :: snapshot_result

text \<open>The two nested loops of \<open>collect_runs\<close> with their index into the results.\<close>

fun pair_runs ::
  "(benchmark_case \<times> benchmark_snapshot) list \<Rightarrow> snapshot_result list \<Rightarrow> benchmark_run list checked" where
  "pair_runs [] [] = Inr []"
| "pair_runs [] (r # rs) = fail ''benchmark report has more snapshots than the manifest''"
| "pair_runs (x # xs) [] = fail ''benchmark report has fewer snapshots than the manifest''"
| "pair_runs ((c, sn) # xs) (r # rs) =
     bind (pair_runs xs rs) (\<lambda>runs. Inr (\<lparr>br_case = c, br_snapshot = sn, br_result = r\<rparr> # runs))"

definition collect_runs :: "benchmark_case list \<Rightarrow> snapshot_result list \<Rightarrow> benchmark_run list checked" where
  "collect_runs cases results = pair_runs (case_snapshots cases) results"

record counts =
  ct_tp :: nat
  ct_fp :: nat
  ct_fn :: nat
  ct_tn :: nat

definition empty_counts :: counts where
  "empty_counts = \<lparr>ct_tp = 0, ct_fp = 0, ct_fn = 0, ct_tn = 0\<rparr>"

definition record_outcome :: "bool \<Rightarrow> bool \<Rightarrow> counts \<Rightarrow> counts" where
  "record_outcome expected actual b =
     (if expected \<and> actual then b\<lparr>ct_tp := Suc (ct_tp b)\<rparr>
      else if expected \<and> \<not> actual then b\<lparr>ct_fn := Suc (ct_fn b)\<rparr>
      else if \<not> expected \<and> actual then b\<lparr>ct_fp := Suc (ct_fp b)\<rparr>
      else b\<lparr>ct_tn := Suc (ct_tn b)\<rparr>)"

text \<open>A \<open>defaultdict\<close> of counters.\<close>

definition record_under :: "string \<Rightarrow> bool \<Rightarrow> bool \<Rightarrow> (string, counts) dict \<Rightarrow> (string, counts) dict" where
  "record_under k expected actual d = dict_set k (record_outcome expected actual (dict_get_or empty_counts d k)) d"

fun yaml_truth :: "yaml \<Rightarrow> bool" where
  "yaml_truth YNull = False"
| "yaml_truth (YBool b) = b"
| "yaml_truth (YInt i) = (i \<noteq> 0)"
| "yaml_truth (YFloat q t) = (q \<noteq> 0)"
| "yaml_truth (YStr s) = (s \<noteq> [])"
| "yaml_truth (YSeq xs) = (xs \<noteq> [])"
| "yaml_truth (YMap kvs) = (kvs \<noteq> [])"

definition yaml_text :: "yaml \<Rightarrow> string" where
  "yaml_text v = (case v of YStr s \<Rightarrow> s | _ \<Rightarrow> yaml_repr v)"

definition case_category :: "benchmark_case \<Rightarrow> string" where
  "case_category c =
     (let get = dict_get_or YNull (bc_metadata c) in
      yaml_text (if yaml_truth (get ''bug_category'') then get ''bug_category''
        else if yaml_truth (get ''category'') then get ''category'' else YStr ''uncategorized''))"

definition target_rules :: "benchmark_run \<Rightarrow> string list" where
  "target_rules r = sorted_set (bc_rules (br_case r) @ bs_expected (br_snapshot r))"

record tables =
  tb_overall :: counts
  tb_rule :: "(string, counts) dict"
  tb_language :: "(string, counts) dict"
  tb_category :: "(string, counts) dict"

definition count_rule :: "benchmark_run \<Rightarrow> tables \<Rightarrow> string \<Rightarrow> tables" where
  "count_rule r t rule =
     (let expected = rule \<in> set (bs_expected (br_snapshot r)); actual = rule \<in> set (sn_rules (br_result r)) in
      \<lparr>tb_overall = record_outcome expected actual (tb_overall t),
       tb_rule = record_under rule expected actual (tb_rule t),
       tb_language = record_under (bc_language (br_case r)) expected actual (tb_language t),
       tb_category = record_under (case_category (br_case r)) expected actual (tb_category t)\<rparr>)"

definition count_run :: "tables \<Rightarrow> benchmark_run \<Rightarrow> tables" where
  "count_run t r = foldl (count_rule r) t (target_rules r)"

definition count_runs :: "benchmark_run list \<Rightarrow> tables" where
  "count_runs runs = foldl count_run \<lparr>tb_overall = empty_counts, tb_rule = [], tb_language = [], tb_category = []\<rparr> runs"

text \<open>\<open>round(a / b, 4)\<close> of counts.\<close>

definition metric_round :: "rat \<Rightarrow> rat" where
  "metric_round q = (case round_digits 4 q of Finite x \<Rightarrow> x | _ \<Rightarrow> 0)"

definition count_ratio :: "nat \<Rightarrow> nat \<Rightarrow> rat option" where
  "count_ratio a b = (if b = 0 then None else Some (metric_round (rounded (of_nat a / of_nat b))))"

definition f1_score :: "rat option \<Rightarrow> rat option \<Rightarrow> rat option" where
  "f1_score precision recall =
     (case (precision, recall) of
        (Some p, Some r) \<Rightarrow>
          (if 0 < rounded (p + r) then Some (metric_round (rounded (rounded (rounded (2 * p) * r) / rounded (p + r)))) else None)
      | _ \<Rightarrow> None)"

record count_summary =
  su_counts :: counts
  su_precision :: "rat option"
  su_recall :: "rat option"
  su_f1 :: "rat option"
  su_false_positives :: "rat option"

definition summarize_counts :: "counts \<Rightarrow> count_summary" where
  "summarize_counts c =
     (let precision = count_ratio (ct_tp c) (ct_tp c + ct_fp c); recall = count_ratio (ct_tp c) (ct_tp c + ct_fn c) in
      \<lparr>su_counts = c, su_precision = precision, su_recall = recall, su_f1 = f1_score precision recall,
       su_false_positives = count_ratio (ct_fp c) (ct_fp c + ct_tn c)\<rparr>)"

definition percentile_rank :: "int \<Rightarrow> nat \<Rightarrow> nat" where
  "percentile_rank p n =
     min (nat (max 0 (\<lceil>rounded (rounded (of_int p / 100) * of_nat n)\<rceil> - 1))) (n - 1)"

definition percentile :: "int list \<Rightarrow> int \<Rightarrow> int option" where
  "percentile ordered p = (if ordered = [] then None else Some (ordered ! percentile_rank p (length ordered)))"

record latency =
  lt_snapshots :: nat
  lt_p50 :: "int option"
  lt_p95 :: "int option"
  lt_max :: "int option"

definition summarize_latency :: "int list \<Rightarrow> latency" where
  "summarize_latency xs =
     (let ordered = sort xs in
      \<lparr>lt_snapshots = length ordered, lt_p50 = percentile ordered 50, lt_p95 = percentile ordered 95,
       lt_max = (if ordered = [] then None else Some (last ordered))\<rparr>)"

definition corpus_summary :: "benchmark_run list \<Rightarrow> nat \<times> nat" where
  "corpus_summary runs = (card (set (map (\<lambda>r. bc_id (br_case r)) runs)), length runs)"

record metrics =
  mt_positive :: "nat \<times> nat"
  mt_negative :: "nat \<times> nat"
  mt_overall :: count_summary
  mt_latency :: latency
  mt_errors :: nat
  mt_rule :: "(string, count_summary) dict"
  mt_language :: "(string, count_summary) dict"
  mt_category :: "(string, count_summary) dict"

definition summarize_table :: "(string, counts) dict \<Rightarrow> (string, count_summary) dict" where
  "summarize_table d = map (\<lambda>(k, c). (k, summarize_counts c)) (sort_key fst d)"

definition compute_metrics :: "benchmark_run list \<Rightarrow> benchmark_run list \<Rightarrow> metrics" where
  "compute_metrics positive negative =
     (let runs = positive @ negative; t = count_runs runs in
      \<lparr>mt_positive = corpus_summary positive, mt_negative = corpus_summary negative,
       mt_overall = summarize_counts (tb_overall t), mt_latency = summarize_latency (map (\<lambda>r. sn_duration (br_result r)) runs),
       mt_errors = length (filter (\<lambda>r. sn_errors (br_result r) \<noteq> []) runs),
       mt_rule = summarize_table (tb_rule t), mt_language = summarize_table (tb_language t),
       mt_category = summarize_table (tb_category t)\<rparr>)"

section \<open>What an accepted manifest guarantees\<close>

definition snapshot_ok :: "benchmark_case \<Rightarrow> benchmark_snapshot \<Rightarrow> bool" where
  "snapshot_ok c sn \<longleftrightarrow>
     bs_label sn \<noteq> [] \<and> 0 \<le> bs_min sn \<and> (case bs_max sn of None \<Rightarrow> True | Some n \<Rightarrow> bs_min sn \<le> n) \<and>
     check_config (benchmark_config c sn) = Inr (benchmark_config c sn)"

definition case_ok :: "benchmark_case \<Rightarrow> bool" where
  "case_ok c \<longleftrightarrow> bc_id c \<noteq> [] \<and> bc_language c \<noteq> [] \<and> bc_snapshots c \<noteq> [] \<and> list_all (snapshot_ok c) (bc_snapshots c)"

lemma non_empty_items_ok [simp]: "non_empty_items v message = Inr vs \<longleftrightarrow> v = YSeq vs \<and> vs \<noteq> []"
  by (auto simp: non_empty_items_def split: yaml.splits)

lemma benchmark_text_ok: "benchmark_text v path = Inr s \<Longrightarrow> s \<noteq> []"
  by (auto simp: benchmark_text_def split: yaml.splits if_splits)

lemma non_negative_int_ok: "non_negative_int v path = Inr n \<Longrightarrow> 0 \<le> n"
  by (auto simp: non_negative_int_def split: yaml.splits if_splits)

lemma unit_float_ok: "unit_float v path = Inr q \<Longrightarrow> unit_interval q"
  by (auto simp: unit_float_def Let_def unit_interval_def float_one_def split: yaml.splits if_splits)

lemma parse_snapshot_ok: "parse_snapshot resolve cid item = Inr sn \<Longrightarrow> snapshot_ok c sn"
  using unit_float_ok
  by (fastforce simp: parse_snapshot_def Let_def snapshot_ok_def check_config_def benchmark_config_def unit_interval_def
      dest: benchmark_text_ok non_negative_int_ok split: if_splits)

lemma traverse_all:
  assumes "traverse f xs = Inr ys" "\<And>x y. f x = Inr y \<Longrightarrow> P y"
  shows "list_all P ys"
  using assms(1) unfolding traverse_Inr by (induction rule: list_all2_induct) (auto intro: assms(2))

lemma traverse_length: "traverse f xs = Inr ys \<Longrightarrow> length ys = length xs"
  unfolding traverse_Inr by (simp add: list_all2_lengthD)

lemma lower_Nil [simp]: "lower s = [] \<longleftrightarrow> s = []"
  by (simp add: lower_def)

lemma parse_case_ok: "parse_case resolve item = Inr c \<Longrightarrow> case_ok c"
proof -
  assume "parse_case resolve item = Inr c"
  then obtain raw path where raw: "raw \<noteq> []" "traverse (parse_snapshot resolve (bc_id c)) (enumerate 0 raw) = Inr (bc_snapshots c)"
    and texts: "bc_id c \<noteq> []" "bc_language c \<noteq> []"
    by (auto simp: parse_case_def Let_def dest!: benchmark_text_ok split: yaml.splits if_splits)
  have "list_all (snapshot_ok c) (bc_snapshots c)"
    using traverse_all [OF raw(2)] parse_snapshot_ok by blast
  moreover have "bc_snapshots c \<noteq> []" using traverse_length [OF raw(2)] raw(1) by auto
  ultimately show ?thesis using texts by (simp add: case_ok_def)
qed

text \<open>
  A manifest that is loaded has at least one case, cases with distinct identifiers and at least one
  snapshot each; and every snapshot has consistent limits and a configuration that the engine accepts.
\<close>

theorem accepted_manifest_runs:
  "case load_benchmark_manifest read_text safe_load resolve file of
     Inl e \<Rightarrow> True
   | Inr cases \<Rightarrow> cases \<noteq> [] \<and> distinct (map bc_id cases) \<and> list_all case_ok cases"
proof (cases "load_benchmark_manifest read_text safe_load resolve file")
  case (Inr cases)
  then obtain raw where "raw \<noteq> []" "traverse (parse_case resolve) (enumerate 0 raw) = Inr cases" "distinct (map bc_id cases)"
    by (auto simp: load_benchmark_manifest_def parse_manifest_def split: option.splits sum.splits yaml.splits if_splits)
  then show ?thesis using Inr traverse_all [of "parse_case resolve"] parse_case_ok traverse_length by fastforce
qed simp

text \<open>
  A key that is no text is not reported as an unknown field: \<open>TypeError\<close> leaves the loader instead of
  \<open>BenchmarkConfigError\<close>.
\<close>

theorem untyped_key_escapes:
  "parse_manifest (\<lambda>p. p) (YMap [(YStr ''version'', YStr benchmark_version), (YInt 1, YNull)]) = Inl (TypeError ''expected str instance'')"
  by code_simp

section \<open>Runs and counts\<close>

lemma pair_runs_ok:
  "pair_runs xs rs = Inr runs \<longleftrightarrow>
     length xs = length rs \<and> map (\<lambda>r. (br_case r, br_snapshot r)) runs = xs \<and> map br_result runs = rs"
proof (induction xs rs arbitrary: runs rule: pair_runs.induct)
  case (4 c sn xs r rs)
  then show ?case by (cases runs) (auto intro!: benchmark_run.equality)
qed auto

text \<open>
  The report of a run always fits the manifest it was run for: each case and snapshot is paired with
  its own result, in order.
\<close>

theorem runs_collected:
  "\<exists>runs. collect_runs cases (run_benchmark engine_for took cases) = Inr runs \<and>
     map (\<lambda>r. (br_case r, br_snapshot r)) runs = case_snapshots cases \<and>
     list_all (\<lambda>r. br_result r = run_snapshot engine_for took (br_case r, br_snapshot r)) runs"
proof -
  let ?runs = "map (\<lambda>x. \<lparr>br_case = fst x, br_snapshot = snd x, br_result = run_snapshot engine_for took x\<rparr>) (case_snapshots cases)"
  have "collect_runs cases (run_benchmark engine_for took cases) = Inr ?runs"
    by (simp add: collect_runs_def pair_runs_ok run_benchmark_def comp_def)
  then show ?thesis by (intro exI [of _ ?runs]) (simp add: comp_def list_all_iff)
qed

text \<open>A report of another length than the manifest is refused.\<close>

lemma collect_runs_length: "collect_runs cases rs = Inr runs \<Longrightarrow> length rs = length (case_snapshots cases)"
  by (simp add: collect_runs_def pair_runs_ok)

definition add_counts :: "counts \<Rightarrow> counts \<Rightarrow> counts" where
  "add_counts a b =
     \<lparr>ct_tp = ct_tp a + ct_tp b, ct_fp = ct_fp a + ct_fp b, ct_fn = ct_fn a + ct_fn b, ct_tn = ct_tn a + ct_tn b\<rparr>"

definition sum_counts :: "(string, counts) dict \<Rightarrow> counts" where
  "sum_counts d = foldr (\<lambda>(k, c). add_counts c) d empty_counts"

lemma add_recorded:
  "add_counts (record_outcome e a x) y = record_outcome e a (add_counts x y)"
  "add_counts x (record_outcome e a y) = record_outcome e a (add_counts x y)"
  by (simp_all add: add_counts_def record_outcome_def)

lemma add_empty [simp]: "add_counts x empty_counts = x" "add_counts empty_counts x = x"
  by (simp_all add: add_counts_def empty_counts_def)

lemma sum_record_under: "sum_counts (record_under k e a d) = record_outcome e a (sum_counts d)"
  by (induction d) (auto simp: sum_counts_def record_under_def dict_set_def dict_get_or_get dict_get_Cons add_recorded)

definition tables_agree :: "tables \<Rightarrow> bool" where
  "tables_agree t \<longleftrightarrow> sum_counts (tb_rule t) = tb_overall t \<and> sum_counts (tb_language t) = tb_overall t \<and>
     sum_counts (tb_category t) = tb_overall t"

lemma count_rule_agree: "tables_agree t \<Longrightarrow> tables_agree (count_rule r t rule)"
  by (simp add: tables_agree_def count_rule_def Let_def sum_record_under)

lemma count_runs_agree: "tables_agree (count_runs runs)"
proof -
  have "tables_agree (foldl (count_rule r) t rules)" if "tables_agree t" for r t rules
    using that by (induction rules arbitrary: t) (auto simp: count_rule_agree)
  then have "tables_agree (foldl count_run t runs)" if "tables_agree t" for t
    using that by (induction runs arbitrary: t) (auto simp: count_run_def)
  then show ?thesis by (simp add: count_runs_def tables_agree_def sum_counts_def)
qed

text \<open>
  What the metrics are to count, stated without the tables: the target rules of a run are the rules of
  its case and those its snapshot expects, taken as a set; \<open>target_count P runs\<close> is the number of target rules
  of all runs that satisfy \<open>P\<close>.
\<close>

definition wanted_rules :: "benchmark_run \<Rightarrow> string set" where
  "wanted_rules r = set (bc_rules (br_case r)) \<union> set (bs_expected (br_snapshot r))"

definition rule_expected :: "benchmark_run \<Rightarrow> string \<Rightarrow> bool" where
  "rule_expected r rule = (rule \<in> set (bs_expected (br_snapshot r)))"

definition rule_reported :: "benchmark_run \<Rightarrow> string \<Rightarrow> bool" where
  "rule_reported r rule = (rule \<in> set (sn_rules (br_result r)))"

definition target_count :: "(benchmark_run \<Rightarrow> string \<Rightarrow> bool) \<Rightarrow> benchmark_run list \<Rightarrow> nat" where
  "target_count P runs = sum_list (map (\<lambda>r. card {rule \<in> wanted_rules r. P r rule}) runs)"

definition counts_of :: "(benchmark_run \<Rightarrow> string \<Rightarrow> bool) \<Rightarrow> benchmark_run list \<Rightarrow> counts" where
  "counts_of P runs =
     \<lparr>ct_tp = target_count (\<lambda>r x. P r x \<and> rule_expected r x \<and> rule_reported r x) runs,
      ct_fp = target_count (\<lambda>r x. P r x \<and> \<not> rule_expected r x \<and> rule_reported r x) runs,
      ct_fn = target_count (\<lambda>r x. P r x \<and> rule_expected r x \<and> \<not> rule_reported r x) runs,
      ct_tn = target_count (\<lambda>r x. P r x \<and> \<not> rule_expected r x \<and> \<not> rule_reported r x) runs\<rparr>"

lemma wanted_length: "length (filter P (target_rules r)) = card {x \<in> wanted_rules r. P x}"
proof -
  have "distinct (filter P (target_rules r))" by (simp add: target_rules_def)
  moreover have "set (filter P (target_rules r)) = {x \<in> wanted_rules r. P x}"
    by (auto simp: target_rules_def wanted_rules_def)
  ultimately show ?thesis by (metis distinct_card)
qed

text \<open>
  A counter of the tables that is advanced by the rules \<open>P\<close> selects, and by no others, ends with the
  counts of \<open>P\<close>.
\<close>

definition advanced_by :: "(tables \<Rightarrow> counts) \<Rightarrow> (benchmark_run \<Rightarrow> string \<Rightarrow> bool) \<Rightarrow> bool" where
  "advanced_by get P \<longleftrightarrow> (\<forall>r t rule. get (count_rule r t rule) =
     (if P r rule then record_outcome (rule_expected r rule) (rule_reported r rule) (get t) else get t))"

definition list_counts :: "(benchmark_run \<Rightarrow> string \<Rightarrow> bool) \<Rightarrow> benchmark_run \<Rightarrow> string list \<Rightarrow> counts" where
  "list_counts P r rules =
     \<lparr>ct_tp = length (filter (\<lambda>x. P r x \<and> rule_expected r x \<and> rule_reported r x) rules),
      ct_fp = length (filter (\<lambda>x. P r x \<and> \<not> rule_expected r x \<and> rule_reported r x) rules),
      ct_fn = length (filter (\<lambda>x. P r x \<and> rule_expected r x \<and> \<not> rule_reported r x) rules),
      ct_tn = length (filter (\<lambda>x. P r x \<and> \<not> rule_expected r x \<and> \<not> rule_reported r x) rules)\<rparr>"

lemma advanced_rules:
  "advanced_by get P \<Longrightarrow> get (foldl (count_rule r) t rules) = add_counts (get t) (list_counts P r rules)"
proof (induction rules arbitrary: t)
  case Nil
  then show ?case by (simp add: list_counts_def add_counts_def)
next
  case (Cons x rules)
  then have step: "get (count_rule r t x) =
      (if P r x then record_outcome (rule_expected r x) (rule_reported r x) (get t) else get t)"
    unfolding advanced_by_def by blast
  show ?case using Cons by (simp add: step list_counts_def add_counts_def record_outcome_def)
qed

lemma add_counts_of: "add_counts (list_counts P r (target_rules r)) (counts_of P runs) = counts_of P (r # runs)"
  by (simp add: add_counts_def list_counts_def counts_of_def target_count_def wanted_length)

lemma advanced_runs:
  assumes "advanced_by get P"
  shows "get (foldl count_run t runs) = add_counts (get t) (counts_of P runs)"
proof (induction runs arbitrary: t)
  case Nil
  then show ?case by (simp add: counts_of_def target_count_def add_counts_def)
next
  case (Cons r runs)
  have assoc: "add_counts (add_counts a b) c = add_counts a (add_counts b c)" for a b c
    by (simp add: add_counts_def)
  have "get (foldl count_run t (r # runs)) = add_counts (get (count_run t r)) (counts_of P runs)"
    by (simp add: Cons.IH)
  also have "\<dots> = add_counts (get t) (counts_of P (r # runs))"
    by (simp add: count_run_def advanced_rules [OF assms] assoc add_counts_of)
  finally show ?case .
qed

lemma tables_advanced:
  "advanced_by tb_overall (\<lambda>r x. True)"
  "advanced_by (\<lambda>t. dict_get_or empty_counts (tb_rule t) k) (\<lambda>r x. x = k)"
  "advanced_by (\<lambda>t. dict_get_or empty_counts (tb_language t) k) (\<lambda>r x. bc_language (br_case r) = k)"
  "advanced_by (\<lambda>t. dict_get_or empty_counts (tb_category t) k) (\<lambda>r x. case_category (br_case r) = k)"
  by (auto simp: advanced_by_def count_rule_def Let_def record_under_def rule_expected_def rule_reported_def)

lemmas counted_runs = tables_advanced [THEN advanced_runs]

text \<open>
  C38: The metrics count every target rule of every run exactly once, a rule the case and the snapshot both
  name included, as a true or false positive or negative by what the snapshot expects and what the run
  reported; the counts of a rule, of a language and of a category are those of its own target rules; and
  the counts by rule, by language and by category each add up to the overall counts.
\<close>

theorem targets_counted_once:
  "tb_overall (count_runs runs) = counts_of (\<lambda>r x. True) runs \<and>
   dict_get_or empty_counts (tb_rule (count_runs runs)) k = counts_of (\<lambda>r x. x = k) runs \<and>
   dict_get_or empty_counts (tb_language (count_runs runs)) k = counts_of (\<lambda>r x. bc_language (br_case r) = k) runs \<and>
   dict_get_or empty_counts (tb_category (count_runs runs)) k = counts_of (\<lambda>r x. case_category (br_case r) = k) runs \<and>
   sum_counts (tb_rule (count_runs runs)) = tb_overall (count_runs runs) \<and>
   sum_counts (tb_language (count_runs runs)) = tb_overall (count_runs runs) \<and>
   sum_counts (tb_category (count_runs runs)) = tb_overall (count_runs runs)"
  using count_runs_agree [of runs] by (simp add: tables_agree_def count_runs_def counted_runs)

text \<open>Percentiles are latencies of runs, at most the largest.\<close>

lemma percentile_in:
  assumes "percentile (sort xs) p = Some v"
  shows "v \<in> set xs \<and> v \<le> last (sort xs)"
proof -
  have ne: "sort xs \<noteq> []" and v: "v = sort xs ! percentile_rank p (length (sort xs))"
    using assms by (auto simp: percentile_def split: if_splits)
  then have rank: "percentile_rank p (length (sort xs)) \<le> length (sort xs) - 1" "0 < length (sort xs)"
    by (auto simp: percentile_rank_def)
  have "sort xs ! percentile_rank p (length (sort xs)) \<in> set (sort xs)"
    by (rule nth_mem) (use rank in linarith)
  then have "v \<in> set xs" using v by simp
  moreover have "v \<le> sort xs ! (length (sort xs) - 1)" unfolding v
    using rank by (intro sorted_nth_mono) auto
  ultimately show ?thesis using ne by (simp add: last_conv_nth)
qed

end
