(* ===== verification/Location.thy ===== *)
theory Location
  imports Retrieval PathSafety PyRegex
begin

text \<open>
  \<open>verifier/location.py\<close> and the result type of \<open>verifier/__init__.py\<close>: whether a claimed file and line
  exist, with the repair of paths that a model got wrong. The file tree and the decoder are those of
  \<open>PathSafety\<close>; the verifier keeps a file index and a small cache of files, its state. The texts for the
  reader are in Chinese, outside the characters of the model: a message is its constructor with the
  values it quotes, and \<open>say\<close> is the wording.
\<close>

section \<open>Results\<close>

datatype verification_status = VERIFIED | PARTIALLY | HALLUCINATED | UNVERIFIABLE

fun verification_value :: "verification_status \<Rightarrow> string" where
  "verification_value VERIFIED = ''verified''"
| "verification_value PARTIALLY = ''partial''"
| "verification_value HALLUCINATED = ''hallucinated''"
| "verification_value UNVERIFIABLE = ''unverifiable''"

datatype message =
    Path_Corrected string string
  | File_Missing string
  | File_Exists string
  | Line_Malformed pyval
  | File_Unreadable
  | Function_Confirmed string int string
  | Function_Absent int string
  | Line_Confirmed string int
  | Line_Out_Of_Range int nat
  | Claim_Kind_Unknown
  | Type_Target_Missing
  | Type_Unknown string
  | Type_Confirmed string string bool string "string option"
  | Type_Refuted string string bool string "string option"
  | Similar_Code string
  | Chain_Confirmed string
  | Chain_Partial nat nat
  | Chain_Refuted "(string \<times> string) list"
  | Name_Found string string int
  | Name_Similar string string int
  | Name_Missing string
  | No_Claims
  | Evidence_Missing string
  | Not_Verifiable string
  | Score_Detail rat nat nat nat
  | Annotation_Malformed
  | Annotation_Missing
  | Add_Claims
  | Score_Malformed
  | Flagged_Heading nat
  | Flagged_Item pyval rat
  | Flagged_Missing pyval
  | Flagged_Deviating pyval
  | Clean_Heading nat
  | Clean_Item pyval rat
  | No_Scores

type_synonym wording = "message \<Rightarrow> string"

record verification_result =
  vr_status :: verification_status
  vr_claim :: string
  vr_claimed_file :: "string option"
  vr_claimed_line :: pyval
  vr_file :: "string option"
  vr_line :: "int option"
  vr_function :: "string option"
  vr_content :: "string option"
  vr_confidence :: rat
  vr_detail :: string

definition make_result :: "verification_status \<Rightarrow> string \<Rightarrow> verification_result" where
  "make_result status claim =
     \<lparr>vr_status = status, vr_claim = claim, vr_claimed_file = None, vr_claimed_line = PNone, vr_file = None,
      vr_line = None, vr_function = None, vr_content = None, vr_confidence = 0, vr_detail = []\<rparr>"

definition opt_value :: "('a \<Rightarrow> pyval) \<Rightarrow> 'a option \<Rightarrow> pyval" where
  "opt_value f v = (case v of None \<Rightarrow> PNone | Some x \<Rightarrow> f x)"

definition result_to_dict :: "verification_result \<Rightarrow> attributes" where
  "result_to_dict r =
     [(''status'', PStr (verification_value (vr_status r))), (''claim'', PStr (vr_claim r)),
      (''claimed_file'', opt_value PStr (vr_claimed_file r)), (''claimed_line'', vr_claimed_line r),
      (''resolved_file'', opt_value PStr (vr_file r)), (''resolved_line'', opt_value PInt (vr_line r)),
      (''actual_function'', opt_value PStr (vr_function r)), (''actual_content'', opt_value PStr (vr_content r)),
      (''confidence'', float_value False (vr_confidence r)), (''detail'', PStr (vr_detail r))]"

section \<open>The project on disk\<close>

record disk =
  dk_files :: file_tree
  dk_root :: path
  dk_decode :: "string \<Rightarrow> string"

definition line_feed :: char where
  "line_feed = char_of (10::nat)"

definition max_source_bytes :: int where
  "max_source_bytes = 2 * 1024 * 1024"

definition project_relative :: "disk \<Rightarrow> path \<Rightarrow> string" where
  "project_relative d p = to_slashes (join ''/'' (drop (length (dk_root d)) p))"

definition disk_lines :: "disk \<Rightarrow> path \<Rightarrow> string list option" where
  "disk_lines d p = map_option (split_on line_feed) (read_text_bounded (dk_decode d) (dk_files d) p max_source_bytes)"

text \<open>\<open>os.walk\<close> from the top, with the names in order and the excluded directories and links left out.\<close>

definition excluded_directories :: "string list" where
  "excluded_directories =
     [''.git'', ''node_modules'', ''__pycache__'', ''target'', ''build'', ''.venv'', ''venv'', ''dist'', ''.smartbench'']"

definition child_names :: "file_tree \<Rightarrow> path \<Rightarrow> string list" where
  "child_names fs p =
     sorted_set (map last (filter (\<lambda>q. q \<noteq> [] \<and> butlast q = p) (dict_keys fs)))"

definition names_directory :: "file_tree \<Rightarrow> path \<Rightarrow> bool" where
  "names_directory fs q =
     (case walk True fs [] [] q of None \<Rightarrow> False | Some r \<Rightarrow> lookup fs r = Some Directory)"

definition walked_directories :: "file_tree \<Rightarrow> path \<Rightarrow> string list" where
  "walked_directories fs p =
     filter (\<lambda>c. names_directory fs (p @ [c]) \<and> c \<notin> set excluded_directories \<and> \<not> is_symlink fs (p @ [c])) (child_names fs p)"

definition walked_names :: "file_tree \<Rightarrow> path \<Rightarrow> string list" where
  "walked_names fs p = filter (\<lambda>c. \<not> names_directory fs (p @ [c])) (child_names fs p)"

function walk_project :: "file_tree \<Rightarrow> path \<Rightarrow> path list" where
  "walk_project fs p =
     map (\<lambda>c. p @ [c]) (walked_names fs p) @ concat (map (\<lambda>c. walk_project fs (p @ [c])) (walked_directories fs p))"
  by pat_completeness auto

lemma walked_below:
  assumes "c \<in> set (walked_directories fs p)"
  shows "length (filter (strict_prefix (p @ [c])) (dict_keys fs)) < length (filter (strict_prefix p) (dict_keys fs))"
proof -
  from assms obtain q where "q \<in> set (dict_keys fs)" "q \<noteq> []" "butlast q = p" "last q = c"
    by (auto simp: walked_directories_def child_names_def)
  then have key: "p @ [c] \<in> set (filter (strict_prefix p) (dict_keys fs))" by (auto simp: strict_prefix_def)
  have "filter (strict_prefix (p @ [c])) (dict_keys fs) =
      filter (strict_prefix (p @ [c])) (filter (strict_prefix p) (dict_keys fs))"
    unfolding filter_filter by (rule filter_cong) (auto simp: strict_prefix_def prefix_def)
  then show ?thesis using length_filter_less [OF key, of "strict_prefix (p @ [c])"] by simp
qed

termination walk_project
  by (relation "measure (\<lambda>(fs, p). length (filter (strict_prefix p) (dict_keys fs)))") (auto simp: walked_below)

declare walk_project.simps [simp del]

definition indexed_files :: "disk \<Rightarrow> path list" where
  "indexed_files d =
     take 20000 (filter (\<lambda>p. inside_file (dk_files d) (dk_root d) p \<noteq> None) (walk_project (dk_files d) (dk_root d)))"

type_synonym file_index = "(string, string list) dict"

definition build_file_index :: "disk \<Rightarrow> file_index" where
  "build_file_index d = foldl (\<lambda>idx p. dict_append (lower (last p)) (project_relative d p) idx) [] (indexed_files d)"

section \<open>The state\<close>

record location_state =
  lc_cache :: "(path, string list option) dict"
  lc_index :: "file_index option"

definition fresh_state :: location_state where
  "fresh_state = \<lparr>lc_cache = [], lc_index = None\<rparr>"

definition max_cached_files :: nat where
  "max_cached_files = 32"

definition cached_lines :: "disk \<Rightarrow> path \<Rightarrow> location_state \<Rightarrow> string list option \<times> location_state" where
  "cached_lines d p st =
     (case dict_get (lc_cache st) p of
        Some ls \<Rightarrow> (ls, st)
      | None \<Rightarrow>
          (let cache = (if max_cached_files \<le> length (lc_cache st) then tl (lc_cache st) else lc_cache st);
               ls = disk_lines d p
           in (ls, st\<lparr>lc_cache := dict_set p ls cache\<rparr>)))"

definition with_index :: "disk \<Rightarrow> location_state \<Rightarrow> file_index \<times> location_state" where
  "with_index d st =
     (case lc_index st of
        Some idx \<Rightarrow> (idx, st)
      | None \<Rightarrow> (let idx = build_file_index d in (idx, st\<lparr>lc_index := Some idx\<rparr>)))"

section \<open>Paths that are nearly right\<close>

text \<open>One row of the table from the row above: \<open>left\<close> is the last cell of the new row.\<close>

fun distance_cells :: "char \<Rightarrow> nat \<Rightarrow> nat list \<Rightarrow> string \<Rightarrow> nat list" where
  "distance_cells ca left (p # q # prev) (cb # bs) =
     (let cell = min (min (q + 1) (left + 1)) (p + (if ca \<noteq> cb then 1 else 0)) in cell # distance_cells ca cell (q # prev) bs)"
| "distance_cells ca left prev bs = []"

definition distance_row :: "string \<Rightarrow> nat list \<Rightarrow> nat \<times> char \<Rightarrow> nat list" where
  "distance_row b prev ic = (case ic of (i, ca) \<Rightarrow> (i + 1) # distance_cells ca (i + 1) prev b)"

definition levenshtein_ordered :: "string \<Rightarrow> string \<Rightarrow> nat" where
  "levenshtein_ordered a b =
     (if b = [] then length a else last (foldl (distance_row b) [0..<Suc (length b)] (enumerate 0 a)))"

definition levenshtein :: "string \<Rightarrow> string \<Rightarrow> nat" where
  "levenshtein a b = (if length a < length b then levenshtein_ordered b a else levenshtein_ordered a b)"

text \<open>\<open>Path(s).parts\<close>.\<close>

definition pure_parts :: "string \<Rightarrow> string list" where
  "pure_parts s =
     (if starts_with ''//'' s \<and> \<not> starts_with ''///'' s then [''//''] else if is_absolute s then [''/''] else []) @ path_parts s"

definition overlap :: "string list \<Rightarrow> string list \<Rightarrow> nat" where
  "overlap xs ys = length (filter (\<lambda>x. x \<in> set (map lower ys)) (remdups (map lower xs)))"

definition ranked_paths :: "string \<Rightarrow> string list \<Rightarrow> (nat \<times> string) list" where
  "ranked_paths claimed paths =
     sort (map (\<lambda>p. (overlap (butlast (pure_parts claimed)) (butlast (pure_parts p)), p)) paths)"

definition stem_score :: "string \<Rightarrow> string \<Rightarrow> rat" where
  "stem_score claimed name =
     (let stem = lower (path_stem name); wanted = lower (path_stem claimed);
          same = (lower (name_suffix (path_name name)) = lower (name_suffix (path_name claimed)))
      in if stem = wanted then (if same then rounded (rounded (8 / 10) + rounded (2 / 10)) else rounded (8 / 10))
         else if contains_sub wanted stem \<or> contains_sub stem wanted
         then (if same then rounded (rounded (5 / 10) + rounded (2 / 10)) else rounded (5 / 10))
         else if levenshtein stem wanted \<le> 3 then rounded (3 / 10) else 0)"

definition path_score :: "string \<Rightarrow> string \<Rightarrow> string \<Rightarrow> rat" where
  "path_score claimed name p =
     rounded (stem_score claimed name + rounded (of_nat (overlap (pure_parts claimed) (pure_parts p)) * rounded (1 / 10)))"

definition near_paths :: "string \<Rightarrow> file_index \<Rightarrow> (string \<times> rat) list" where
  "near_paths claimed idx =
     filter (\<lambda>x. rounded (3 / 10) < snd x)
       (concat (map (\<lambda>(name, paths). map (\<lambda>p. (p, path_score claimed name p)) paths) idx))"

definition resolve_in :: "file_index \<Rightarrow> string \<Rightarrow> string option" where
  "resolve_in idx claimed =
     (let exact = dict_get_or [] idx (lower (path_name claimed)) in
      case exact of
        [p] \<Rightarrow> Some p
      | p # q # rest \<Rightarrow>
          (let ranked = ranked_paths claimed exact in
           if butlast (pure_parts claimed) \<noteq> [] \<and> fst (last (butlast ranked)) < fst (last ranked)
           then Some (snd (last ranked)) else None)
      | [] \<Rightarrow> (case sort_key (\<lambda>x. - snd x) (near_paths claimed idx) of [] \<Rightarrow> None | x # _ \<Rightarrow> Some (fst x)))"

definition fuzzy_resolve :: "disk \<Rightarrow> string \<Rightarrow> location_state \<Rightarrow> string option \<times> location_state" where
  "fuzzy_resolve d claimed st =
     (if strip claimed = [] then (None, st)
      else (case with_index d st of (idx, st1) \<Rightarrow> (resolve_in idx claimed, st1)))"

section \<open>Lines\<close>

definition truncation_marker :: string where
  "truncation_marker = line_feed # ''... [evidence truncated]''"

definition max_evidence_chars :: nat where
  "max_evidence_chars = 12000"

definition truncate_evidence :: "string \<Rightarrow> string" where
  "truncate_evidence s =
     (if length s \<le> max_evidence_chars then s
      else take (max_evidence_chars - length truncation_marker) s @ truncation_marker)"

text \<open>Patterns as lists of parts, with the part that is the captured name.\<close>

definition gap :: regex where
  "gap = Rep (Chars is_space)"

definition wide_gap :: regex where
  "wide_gap = at_least 1 (Chars is_space)"

definition name_part :: regex where
  "name_part = at_least 1 (Chars is_word)"

definition definition_patterns :: "(regex list \<times> nat) list" where
  "definition_patterns =
     [([alts (map word [''def'', ''fn'', ''func'', ''function'']), wide_gap, name_part], 2),
      ([name_part, gap, one_of '':='', gap,
        alts [word ''function'', word ''func'', seqs [word ''async'', wide_gap, word ''function'']]], 0),
      ([alts (map word [''const'', ''let'', ''var'']), wide_gap, name_part, gap, word ''='', gap,
        opt (seqs [word ''async'', gap]), word ''(''], 2),
      ([alts (map word [''public'', ''private'', ''protected'', ''static'']), wide_gap, name_part, wide_gap, name_part,
        gap, word ''(''], 4)]"

definition captured :: "string \<Rightarrow> regex list \<times> nat \<Rightarrow> string option" where
  "captured s pk =
     (case pk of (parts, k) \<Rightarrow>
        (case finditer parts s of
           [] \<Rightarrow> None
         | (i, js) # _ \<Rightarrow> Some (slice s (if k = 0 then i else js ! (k - 1)) (js ! k))))"

definition defined_here :: "string \<Rightarrow> string \<Rightarrow> string option" where
  "defined_here expected source =
     (case filter (\<lambda>n. lower n = lower expected) (List.map_filter (captured (strip source)) definition_patterns) of
        [] \<Rightarrow> None | n # _ \<Rightarrow> Some n)"

definition find_function_at :: "string list \<Rightarrow> nat \<Rightarrow> string \<Rightarrow> string option" where
  "find_function_at lines line expected =
     (case List.map_filter (\<lambda>i. defined_here expected (lines ! i)) (rev [line - 30..<line]) of
        [] \<Rightarrow> None | n # _ \<Rightarrow> Some n)"

definition line_context :: "string list \<Rightarrow> nat \<Rightarrow> string" where
  "line_context lines line = truncate_evidence (join [line_feed] (drop (line - 4) (take (line + 3) lines)))"

definition check_line ::
  "wording \<Rightarrow> verification_result \<Rightarrow> string list \<Rightarrow> int \<Rightarrow> string option \<Rightarrow> verification_result" where
  "check_line say r lines line name =
     (let fuzzy = (vr_status r = PARTIALLY); file = (case vr_file r of None \<Rightarrow> ''None'' | Some f \<Rightarrow> f) in
      if 1 \<le> line \<and> line \<le> int (length lines)
      then (let r1 = r\<lparr>vr_line := Some line, vr_content := Some (line_context lines (nat line))\<rparr> in
            case name of
              Some (c # cs) \<Rightarrow>
                (case find_function_at lines (nat line) (c # cs) of
                   Some found \<Rightarrow>
                     r1\<lparr>vr_function := Some found, vr_status := (if fuzzy then vr_status r else VERIFIED),
                        vr_confidence := (if fuzzy then rounded (75 / 100) else 1),
                        vr_detail := say (Function_Confirmed file line found)\<rparr>
                 | None \<Rightarrow>
                     r1\<lparr>vr_confidence := (if fuzzy then rounded (5 / 10) else rounded (7 / 10)),
                        vr_detail := say (Function_Absent line (c # cs))\<rparr>)
            | _ \<Rightarrow>
                r1\<lparr>vr_status := (if fuzzy then vr_status r else VERIFIED),
                   vr_confidence := (if fuzzy then rounded (6 / 10) else rounded (9 / 10)),
                   vr_detail := say (Line_Confirmed file line)\<rparr>)
      else r\<lparr>vr_confidence := rounded (3 / 10), vr_detail := say (Line_Out_Of_Range line (length lines))\<rparr>)"

definition verify_line ::
  "wording \<Rightarrow> disk \<Rightarrow> verification_result \<Rightarrow> path \<Rightarrow> pyval \<Rightarrow> string option \<Rightarrow> location_state \<Rightarrow>
   verification_result \<times> location_state" where
  "verify_line say d r p line name st =
     (let fuzzy = (vr_status r = PARTIALLY); file = (case vr_file r of None \<Rightarrow> ''None'' | Some f \<Rightarrow> f) in
      case line of
        PNone \<Rightarrow>
          (r\<lparr>vr_status := (if fuzzy then vr_status r else VERIFIED),
             vr_confidence := (if fuzzy then rounded (7 / 10) else rounded (9 / 10)), vr_detail := say (File_Exists file)\<rparr>, st)
      | PInt n \<Rightarrow>
          (case cached_lines d p st of
             (None, st1) \<Rightarrow> (r\<lparr>vr_confidence := 0, vr_detail := say File_Unreadable\<rparr>, st1)
           | (Some lines, st1) \<Rightarrow> (check_line say r lines n name, st1))
      | _ \<Rightarrow> (r\<lparr>vr_confidence := 0, vr_detail := say (Line_Malformed line)\<rparr>, st))"

section \<open>The verifier\<close>

text \<open>
  \<open>isinstance(line, str) and line.strip().isdigit()\<close>, then \<open>int(line.strip())\<close>: the superscripts one to
  three are digits for \<open>isdigit\<close> but not for \<open>int\<close>.
\<close>

definition digit_like :: "char \<Rightarrow> bool" where
  "digit_like c = (is_digit c \<or> code c \<in> {178, 179, 185})"

definition line_claimed :: "pyval \<Rightarrow> pyval checked" where
  "line_claimed v =
     (case v of
        PStr s \<Rightarrow>
          (if strip s \<noteq> [] \<and> list_all digit_like (strip s)
           then (case int_of_str (strip s) of
                   None \<Rightarrow> Inl (ValueError ''invalid literal for int() with base 10'')
                 | Some n \<Rightarrow> Inr (PInt n))
           else Inr v)
      | _ \<Rightarrow> Inr v)"

definition text_or :: "string \<Rightarrow> pyval \<Rightarrow> string" where
  "text_or dflt v = (case v of PStr s \<Rightarrow> s | _ \<Rightarrow> dflt)"

definition claim_result :: "string \<Rightarrow> pyval \<Rightarrow> verification_result" where
  "claim_result file line =
     (make_result UNVERIFIABLE (if py_truth line then file @ '':'' @ py_str line else file))
       \<lparr>vr_claimed_file := Some file, vr_claimed_line := line\<rparr>"

definition verify_path ::
  "wording \<Rightarrow> disk \<Rightarrow> string \<Rightarrow> pyval \<Rightarrow> string option \<Rightarrow> location_state \<Rightarrow> verification_result \<times> location_state" where
  "verify_path say d file line name st =
     (let r = claim_result file line;
          missing = (\<lambda>x. x\<lparr>vr_status := HALLUCINATED, vr_confidence := 0, vr_detail := say (File_Missing file)\<rparr>)
      in case resolve_project_file (dk_files d) (dk_root d) file of
           Some p \<Rightarrow> verify_line say d (r\<lparr>vr_file := Some (project_relative d p)\<rparr>) p line name st
         | None \<Rightarrow>
             (case fuzzy_resolve d file st of
                (None, st1) \<Rightarrow> (missing r, st1)
              | (Some resolved, st1) \<Rightarrow>
                  (if resolved = [] then (missing r, st1)
                   else (let r1 = r\<lparr>vr_file := Some resolved, vr_status := PARTIALLY, vr_detail := say (Path_Corrected file resolved)\<rparr>
                         in case resolve_project_file (dk_files d) (dk_root d) resolved of
                              Some p \<Rightarrow> verify_line say d r1 p line name st1
                            | None \<Rightarrow> (missing r1, st1)))))"

definition verify_location ::
  "wording \<Rightarrow> disk \<Rightarrow> pyval \<Rightarrow> pyval \<Rightarrow> pyval \<Rightarrow> location_state \<Rightarrow> (verification_result \<times> location_state) checked" where
  "verify_location say d file line name st =
     bind (line_claimed line) (\<lambda>n.
     Inr (verify_path say d (text_or [] file) n (case name of PStr s \<Rightarrow> Some s | _ \<Rightarrow> None) st))"

fun verify_multiple ::
  "wording \<Rightarrow> disk \<Rightarrow> attributes list \<Rightarrow> location_state \<Rightarrow> (verification_result list \<times> location_state) checked" where
  "verify_multiple say d [] st = Inr ([], st)"
| "verify_multiple say d (c # cs) st =
     bind (verify_location say d (dict_get_or (PStr []) c ''file_path'') (dict_get_or PNone c ''line'')
         (dict_get_or PNone c ''function_name'') st) (\<lambda>(r, st1).
     bind (verify_multiple say d cs st1) (\<lambda>(rs, st2). Inr (r # rs, st2)))"

end
