(* ===== verification/CrossCheck.thy ===== *)
theory CrossCheck
  imports Location CodeGraph TypeEvid
begin

text \<open>
  \<open>verifier/extractor.py\<close> and \<open>verifier/cross_checker.py\<close>: reading the source at a claimed place, the claims
  of a proposal, their verification against the disk, the code graph and the type evidence, and the score
  of a proposal. The semantic search of the retriever is an argument; \<open>ord\<close> is the order in which Python
  walks a set.
\<close>

section \<open>Evidence from the source\<close>

text \<open>\<open>int(v)\<close>, \<open>TypeError\<close> and \<open>ValueError\<close> being \<open>None\<close>.\<close>

definition int_or_none :: "pyval \<Rightarrow> int option" where
  "int_or_none v =
     (case v of
        PInt n \<Rightarrow> Some n
      | PBool b \<Rightarrow> Some (if b then 1 else 0)
      | PFloat q t \<Rightarrow> Some (if q < 0 then \<lceil>q\<rceil> else \<lfloor>q\<rfloor>)
      | PStr s \<Rightarrow> int_of_str s
      | _ \<Rightarrow> None)"

definition max_context_lines :: int where
  "max_context_lines = 200"

definition extract_lines :: "string list \<Rightarrow> pyval \<Rightarrow> pyval \<Rightarrow> string option" where
  "extract_lines lines line context_lines =
     (case line of
        PNone \<Rightarrow> Some (truncate_evidence (join [line_feed] lines))
      | PBool b \<Rightarrow> None
      | _ \<Rightarrow>
          (case (int_or_none line, int_or_none context_lines) of
             (Some n, Some c0) \<Rightarrow>
               (let c = max 0 (min c0 max_context_lines) in
                if n < 1 \<or> int (length lines) < n then None
                else Some (truncate_evidence (join [line_feed]
                       (drop (nat (max 0 (n - 1 - c))) (take (nat (min (int (length lines)) (n + c))) lines)))))
           | _ \<Rightarrow> None))"

definition extract_at ::
  "disk \<Rightarrow> string \<Rightarrow> pyval \<Rightarrow> pyval \<Rightarrow> location_state \<Rightarrow> string option \<times> location_state" where
  "extract_at d f line context_lines st =
     (case resolve_project_file (dk_files d) (dk_root d) f of
        None \<Rightarrow> (None, st)
      | Some p \<Rightarrow>
          (case cached_lines d p st of
             (None, st1) \<Rightarrow> (None, st1)
           | (Some lines, st1) \<Rightarrow> (extract_lines lines line context_lines, st1)))"

definition encloses :: "string \<Rightarrow> int \<Rightarrow> code_node \<Rightarrow> bool" where
  "encloses f line n \<longleftrightarrow>
     cn_file n = f \<and> (cn_type n = FUNCTION_NODE \<or> cn_type n = CLASS) \<and> cn_line_start n \<le> line \<and>
     line \<le> (if cn_line_end n \<noteq> 0 then cn_line_end n else cn_line_start n + 100)"

definition extract_function_at ::
  "disk \<Rightarrow> code_graph option \<Rightarrow> string \<Rightarrow> int \<Rightarrow> location_state \<Rightarrow> string option \<times> location_state" where
  "extract_function_at d graph f line st =
     (case filter (encloses f line) (case graph of None \<Rightarrow> [] | Some g \<Rightarrow> dict_values (cg_nodes g)) of
        n # _ \<Rightarrow> extract_at d f (PInt (cn_line_start n)) (PInt (max 50 (cn_line_end n - cn_line_start n))) st
      | [] \<Rightarrow> extract_at d f (PInt line) (PInt 60) st)"

definition call_ends :: "(code_edge \<Rightarrow> string) \<Rightarrow> code_graph \<Rightarrow> code_edge list \<Rightarrow> string list" where
  "call_ends end_of g es = filter (dict_has (cg_nodes g)) (map end_of (filter (\<lambda>e. ce_type e = CALLS_REL) es))"

definition nodes_of :: "code_graph \<Rightarrow> string list \<Rightarrow> code_node list" where
  "nodes_of g ids = List.map_filter (dict_get (cg_nodes g)) ids"

definition neighbour_entry :: "string \<Rightarrow> code_node \<Rightarrow> attributes" where
  "neighbour_entry direction n =
     [(''direction'', PStr direction), (''name'', PStr (cn_name n)), (''file'', PStr (cn_file n)), (''line'', PInt (cn_line_start n))]"

definition named_function :: "string \<Rightarrow> code_node \<Rightarrow> bool" where
  "named_function name n = (cn_type n = FUNCTION_NODE \<and> lower (cn_name n) = lower name)"

definition extract_call_neighbours ::
  "(string list \<Rightarrow> string list) \<Rightarrow> code_graph option \<Rightarrow> string \<Rightarrow> string option \<Rightarrow> attributes list" where
  "extract_call_neighbours ord graph name file1 =
     (case graph of
        None \<Rightarrow> []
      | Some g \<Rightarrow>
          concat (map (\<lambda>n.
              map (neighbour_entry ''caller'') (nodes_of g (ord (remdups (call_ends ce_source g (dict_get_or [] (cg_in g) (cn_id n)))))) @
              map (neighbour_entry ''callee'') (nodes_of g (ord (remdups (call_ends ce_target g (dict_get_or [] (cg_out g) (cn_id n)))))))
            (filter (\<lambda>n. named_function name n \<and> (case file1 of Some (c # cs) \<Rightarrow> cn_file n = c # cs | _ \<Rightarrow> True))
              (dict_values (cg_nodes g)))))"

text \<open>Whether some function of the first name calls something of the second.\<close>

definition calls_name :: "code_graph \<Rightarrow> string \<Rightarrow> code_node \<Rightarrow> bool" where
  "calls_name g callee n =
     list_ex (\<lambda>c. lower (cn_name c) = lower callee) (nodes_of g (call_ends ce_target g (dict_get_or [] (cg_out g) (cn_id n))))"

definition edge_exists :: "code_graph \<Rightarrow> string \<times> string \<Rightarrow> bool" where
  "edge_exists g e = (case e of (caller, callee) \<Rightarrow>
     list_ex (calls_name g callee) (filter (named_function caller) (dict_values (cg_nodes g))))"

record chain_check =
  ch_valid :: "(string \<times> string) list"
  ch_missing :: "(string \<times> string) list"
  ch_accuracy :: rat

definition verify_call_chain :: "code_graph option \<Rightarrow> string list \<Rightarrow> chain_check" where
  "verify_call_chain graph chain =
     (case graph of
        None \<Rightarrow> \<lparr>ch_valid = [], ch_missing = [], ch_accuracy = 0\<rparr>
      | Some g \<Rightarrow>
          (if length chain < 2 then \<lparr>ch_valid = [], ch_missing = [], ch_accuracy = 0\<rparr>
           else (let edges = zip chain (tl chain); valid = filter (edge_exists g) edges in
                 \<lparr>ch_valid = valid, ch_missing = filter (\<lambda>e. \<not> edge_exists g e) edges,
                  ch_accuracy = (if edges \<noteq> [] then rounded (of_nat (length valid) / of_nat (length edges)) else 0)\<rparr>)))"

section \<open>Claims in a proposal\<close>

definition line_suffix :: "string \<Rightarrow> string option" where
  "line_suffix t =
     (let digits = takeWhile is_digit t; rest = dropWhile is_digit t in
      if digits = [] then None
      else (case rest of
              [] \<Rightarrow> Some digits
            | c # others \<Rightarrow> if c = CHR ''-'' \<and> others \<noteq> [] \<and> list_all is_digit others then Some digits else None))"

text \<open>\<open>^(.+?):(\d+)(?:-\d+)?$\<close>, at the first colon where it matches.\<close>

definition parse_location :: "string \<Rightarrow> string \<times> int option" where
  "parse_location location =
     (let s = strip location in
      case filter (\<lambda>k. s ! k = CHR '':'' \<and> line_feed \<notin> set (take k s) \<and> line_suffix (drop (Suc k) s) \<noteq> None) [1..<length s] of
        [] \<Rightarrow> (location, None)
      | k # _ \<Rightarrow> (take k s, Some (digits_int (the (line_suffix (drop (Suc k) s))))))"

definition letters_digits :: "char \<Rightarrow> bool" where
  "letters_digits c = (is_ident_char c \<and> c \<noteq> CHR ''_'')"

definition lower_letter :: "char \<Rightarrow> bool" where
  "lower_letter c = (97 \<le> code c \<and> code c \<le> 122)"

definition upper_letter :: "char \<Rightarrow> bool" where
  "upper_letter c = (65 \<le> code c \<and> code c \<le> 90)"

definition stop_words :: "string list" where
  "stop_words =
     [''the'', ''and'', ''for'', ''with'', ''that'', ''this'', ''from'', ''when'', ''then'', ''than'', ''which'', ''would'',
      ''could'', ''should'', ''there'', ''their'', ''about'', ''after'', ''before'']"

definition name_pattern :: "regex list" where
  "name_pattern =
     [Boundary,
      Alt (Seq (Chars upper_letter) (at_least 1 (Chars letters_digits))) (Seq (Chars lower_letter) (at_least 3 (Chars is_ident_char))),
      Boundary]"

definition extract_function_names :: "string \<Rightarrow> string list" where
  "extract_function_names s =
     take 5 (filter (\<lambda>n. lower n \<notin> set stop_words) (map (\<lambda>(i, js). slice s (js ! 0) (js ! 1)) (finditer name_pattern s)))"

definition chain_pattern :: regex where
  "chain_pattern = Seq name_part (at_least 1 (seqs [gap, word ''->'', gap, name_part]))"

definition extract_call_chain :: "string \<Rightarrow> string list" where
  "extract_call_chain s =
     (case finditer [chain_pattern] s of
        [] \<Rightarrow> []
      | (i, js) # _ \<Rightarrow> map strip (split_sub ''->'' (slice s i (js ! 0))))"

definition file_pattern :: regex where
  "file_pattern =
     seqs [at_least 1 (Chars (\<lambda>c. is_word c \<or> c \<in> set ''./-'')), word ''.'', Chars lower_letter, Chars lower_letter,
       opt (Seq (Chars lower_letter) (opt (Chars lower_letter))),
       opt (Seq (word '':'') (at_least 1 (Chars is_digit)))]"

definition extract_file_refs :: "string \<Rightarrow> string list" where
  "extract_file_refs s = map (\<lambda>(i, js). slice s i (js ! 0)) (finditer [file_pattern] s)"

definition dicts_in :: "pyval list \<Rightarrow> attributes list" where
  "dicts_in vs = List.map_filter (\<lambda>v. case v of PDict d \<Rightarrow> Some d | _ \<Rightarrow> None) vs"

definition make_claim :: "string \<Rightarrow> pyval \<Rightarrow> pyval \<Rightarrow> attributes" where
  "make_claim kind target description = [(''type'', PStr kind), (''target'', target), (''description'', description)]"

definition chain_claims :: "pyval \<Rightarrow> attributes list" where
  "chain_claims steps =
     (case steps of
        PList vs \<Rightarrow>
          List.map_filter (\<lambda>v.
            case v of
              PStr s \<Rightarrow>
                (let chain = extract_call_chain s in
                 if chain = [] then None else Some (make_claim ''call_chain'' (PStr (join '' -> '' chain)) (PStr s)))
            | _ \<Rightarrow> None) vs
      | _ \<Rightarrow> [])"

definition extract_claims :: "attributes \<Rightarrow> attributes list" where
  "extract_claims p =
     (case dict_get_or PNone p ''evidence_claims'' of
        PList vs \<Rightarrow> dicts_in vs
      | _ \<Rightarrow>
          (let place = dict_get_or (PStr []) p ''location''; problem = dict_get_or (PStr []) p ''problem'' in
           (if py_truth place then [make_claim ''file_location'' place problem] else []) @
           map (\<lambda>n. make_claim ''code_pattern'' (PStr n) (PStr (text_or [] problem))) (extract_function_names (text_or [] problem)) @
           chain_claims (dict_get_or (PList []) p ''implementation_steps'')))"

section \<open>The checker\<close>

record semantic_match =
  sm_file :: string
  sm_line :: int
  sm_score :: rat

record checker =
  ck_graph :: code_graph
  ck_disk :: disk
  ck_search :: "(pyval \<Rightarrow> semantic_match list) option"
  ck_bindings :: "(string, type_evidence list) dict"

definition make_bindings :: "type_evidence list \<Rightarrow> (string, type_evidence list) dict" where
  "make_bindings es = foldl (\<lambda>d e. if te_binding e \<noteq> [] then dict_append (te_binding e) e d else d) [] es"

definition make_checker ::
  "code_graph \<Rightarrow> disk \<Rightarrow> (pyval \<Rightarrow> semantic_match list) option \<Rightarrow> type_evidence list \<Rightarrow> checker" where
  "make_checker g d search es = \<lparr>ck_graph = g, ck_disk = d, ck_search = search, ck_bindings = make_bindings es\<rparr>"

definition claim_target :: "attributes \<Rightarrow> string" where
  "claim_target c = text_or [] (dict_get_or (PStr []) c ''target'')"

text \<open>The evidence on the symbol itself, or on the longest prefix that has any.\<close>

definition binding_evidence :: "checker \<Rightarrow> string \<Rightarrow> type_evidence list \<times> string" where
  "binding_evidence k target =
     (let direct = dict_get_or [] (ck_bindings k) target; parts = split_on (CHR ''.'') target in
      if direct \<noteq> [] then (direct, target)
      else (case filter (\<lambda>p. dict_get_or [] (ck_bindings k) p \<noteq> [])
                (map (\<lambda>i. join ''.'' (take (length parts - i) parts)) [1..<length parts]) of
              [] \<Rightarrow> ([], target)
            | p # _ \<Rightarrow> (dict_get_or [] (ck_bindings k) p, p)))"

definition preferred_evidence :: "type_evidence list \<Rightarrow> type_evidence list" where
  "preferred_evidence es =
     (let checked = filter (\<lambda>e. te_source e = TYPE_CHECKER) es in if checked \<noteq> [] then checked else es)"

definition has_close :: "type_evidence \<Rightarrow> bool" where
  "has_close e = py_truth (dict_get_or PNone (te_attributes e) ''has_close_method'')"

definition verify_type_claim :: "wording \<Rightarrow> checker \<Rightarrow> attributes \<Rightarrow> verification_result" where
  "verify_type_claim say k c =
     (let target = claim_target c; expects = py_truth (dict_get_or (PBool True) c ''expects_close'') in
      if strip target = [] then (make_result UNVERIFIABLE (py_str (PDict c)))\<lparr>vr_detail := say Type_Target_Missing\<rparr>
      else (case binding_evidence k target of (es, binding) \<Rightarrow>
              (case preferred_evidence es of
                 [] \<Rightarrow> (make_result UNVERIFIABLE target)\<lparr>vr_detail := say (Type_Unknown target)\<rparr>
               | e # _ \<Rightarrow>
                   (let fallback = (if binding \<noteq> target then Some binding else None) in
                    if has_close e = expects
                    then (make_result VERIFIED target)\<lparr>vr_confidence := rounded (9 / 10),
                        vr_detail := say (Type_Confirmed target (te_type_name e) (has_close e) (type_source_value (te_source e)) fallback)\<rparr>
                    else (make_result HALLUCINATED target)\<lparr>
                        vr_detail := say (Type_Refuted target (te_type_name e) (has_close e) (type_source_value (te_source e)) fallback)\<rparr>))))"

definition search_matches :: "checker \<Rightarrow> pyval \<Rightarrow> semantic_match list" where
  "search_matches k q = (case ck_search k of None \<Rightarrow> [] | Some f \<Rightarrow> f q)"

definition verify_location_claim ::
  "wording \<Rightarrow> checker \<Rightarrow> attributes \<Rightarrow> location_state \<Rightarrow> verification_result \<times> location_state" where
  "verify_location_claim say k c st =
     (case parse_location (claim_target c) of (f, line) \<Rightarrow>
        (case verify_path say (ck_disk k) f (opt_value PInt line) None st of (r, st1) \<Rightarrow>
           (let context = dict_get_or (PStr []) c ''description'' in
            if vr_status r = HALLUCINATED \<and> py_truth context
            then (case search_matches k context of
                    [] \<Rightarrow> (r, st1)
                  | m # _ \<Rightarrow> (r\<lparr>vr_detail := vr_detail r @ say (Similar_Code (sm_file m))\<rparr>, st1))
            else (r, st1))))"

definition verify_call_claim :: "wording \<Rightarrow> checker \<Rightarrow> attributes \<Rightarrow> verification_result" where
  "verify_call_claim say k c =
     (let target = claim_target c; ch = verify_call_chain (Some (ck_graph k)) (map strip (split_sub ''->'' target)) in
      if 1 \<le> ch_accuracy ch
      then (make_result VERIFIED target)\<lparr>vr_confidence := 1, vr_detail := say (Chain_Confirmed target)\<rparr>
      else if 1 / 2 \<le> ch_accuracy ch
      then (make_result PARTIALLY target)\<lparr>vr_confidence := ch_accuracy ch,
          vr_detail := say (Chain_Partial (length (ch_valid ch)) (length (ch_valid ch) + length (ch_missing ch)))\<rparr>
      else (make_result HALLUCINATED target)\<lparr>vr_detail := say (Chain_Refuted (ch_missing ch))\<rparr>)"

definition verify_pattern_claim :: "wording \<Rightarrow> checker \<Rightarrow> attributes \<Rightarrow> verification_result" where
  "verify_pattern_claim say k c =
     (let target = claim_target c; description = text_or [] (dict_get_or (PStr []) c ''description'') in
      case find_by_name (ck_graph k) target None of
        n # _ \<Rightarrow>
          (make_result VERIFIED target)\<lparr>vr_file := Some (cn_file n), vr_line := Some (cn_line_start n), vr_function := Some (cn_name n),
            vr_confidence := rounded (9 / 10), vr_detail := say (Name_Found target (cn_file n) (cn_line_start n))\<rparr>
      | [] \<Rightarrow>
          (case search_matches k (PStr (if description \<noteq> [] then description else target)) of
             m # _ \<Rightarrow>
               (make_result PARTIALLY target)\<lparr>vr_file := Some (sm_file m), vr_line := Some (sm_line m), vr_confidence := sm_score m,
                 vr_detail := say (Name_Similar target (sm_file m) (sm_line m))\<rparr>
           | [] \<Rightarrow> (make_result HALLUCINATED target)\<lparr>vr_detail := say (Name_Missing target)\<rparr>))"

definition verify_claim ::
  "wording \<Rightarrow> checker \<Rightarrow> attributes \<Rightarrow> location_state \<Rightarrow> verification_result \<times> location_state" where
  "verify_claim say k c st =
     (let kind = dict_get_or (PStr []) c ''type'' in
      if kind = PStr ''file_location'' then verify_location_claim say k c st
      else if kind = PStr ''call_chain'' then (verify_call_claim say k c, st)
      else if kind = PStr ''code_pattern'' then (verify_pattern_claim say k c, st)
      else if kind = PStr ''resource_type'' then (verify_type_claim say k c, st)
      else ((make_result UNVERIFIABLE (py_str (PDict c)))\<lparr>vr_detail := say Claim_Kind_Unknown\<rparr>, st))"

fun verify_claims ::
  "wording \<Rightarrow> checker \<Rightarrow> attributes list \<Rightarrow> location_state \<Rightarrow> verification_result list \<times> location_state" where
  "verify_claims say k [] st = ([], st)"
| "verify_claims say k (c # cs) st =
     (case verify_claim say k c st of (r, st1) \<Rightarrow>
        (case verify_claims say k cs st1 of (rs, st2) \<Rightarrow> (r # rs, st2)))"

section \<open>The score of a proposal\<close>

record tally =
  ta_weight :: rat
  ta_verified :: "string list"
  ta_refuted :: "string list"
  ta_partial :: "string list"
  ta_flags :: "string list"

definition empty_tally :: tally where
  "empty_tally = \<lparr>ta_weight = 0, ta_verified = [], ta_refuted = [], ta_partial = [], ta_flags = []\<rparr>"

definition place_text :: "string \<Rightarrow> int option \<Rightarrow> string" where
  "place_text f line = (case line of Some n \<Rightarrow> if n \<noteq> 0 then f @ '':'' @ str_of_int n else f | None \<Rightarrow> f)"

definition tally_result :: "wording \<Rightarrow> tally \<Rightarrow> verification_result \<Rightarrow> tally" where
  "tally_result say t r =
     (case vr_status r of
        VERIFIED \<Rightarrow>
          t\<lparr>ta_weight := rounded (ta_weight t + vr_confidence r),
            ta_verified := ta_verified t @ (case vr_file r of Some (x # xs) \<Rightarrow> [place_text (x # xs) (vr_line r)] | _ \<Rightarrow> [])\<rparr>
      | PARTIALLY \<Rightarrow>
          t\<lparr>ta_weight := rounded (ta_weight t + rounded (vr_confidence r * rounded (7 / 10))),
            ta_partial := ta_partial t @
              (case vr_file r of
                 Some (x # xs) \<Rightarrow>
                   [(case vr_claimed_file r of Some (y # ys) \<Rightarrow> y # ys | _ \<Rightarrow> ''?'') @ '' -> '' @ place_text (x # xs) (vr_line r)]
               | _ \<Rightarrow> [])\<rparr>
      | HALLUCINATED \<Rightarrow>
          t\<lparr>ta_refuted := ta_refuted t @ (case vr_claimed_file r of Some (x # xs) \<Rightarrow> [x # xs] | _ \<Rightarrow> []),
            ta_flags := ta_flags t @ [say (Evidence_Missing (vr_detail r))]\<rparr>
      | UNVERIFIABLE \<Rightarrow>
          t\<lparr>ta_weight := rounded (ta_weight t + rounded (3 / 10)), ta_flags := ta_flags t @ [say (Not_Verifiable (vr_detail r))]\<rparr>)"

definition tally_results :: "wording \<Rightarrow> verification_result list \<Rightarrow> tally" where
  "tally_results say rs = foldl (tally_result say) empty_tally rs"

definition proposal_score :: "wording \<Rightarrow> verification_result list \<Rightarrow> rat" where
  "proposal_score say rs = rounded (ta_weight (tally_results say rs) / of_nat (length rs))"

definition verdict_of :: "rat \<Rightarrow> verification_status" where
  "verdict_of score =
     (if rounded (8 / 10) \<le> score then VERIFIED else if rounded (4 / 10) \<le> score then PARTIALLY else HALLUCINATED)"

definition round_two :: "rat \<Rightarrow> rat" where
  "round_two q = (case round_digits 2 q of Finite x \<Rightarrow> x | _ \<Rightarrow> 0)"

definition str_list :: "string list \<Rightarrow> pyval" where
  "str_list xs = PList (map PStr xs)"

definition score_proposal :: "wording \<Rightarrow> verification_result list \<Rightarrow> attributes" where
  "score_proposal say rs =
     (if rs = []
      then [(''verification_score'', float_value False (1 / 2)), (''verdict'', PStr ''unverifiable''), (''flags'', PList []),
            (''verified_locations'', PList []), (''hallucinated_locations'', PList []), (''partial_locations'', PList []),
            (''detail'', PStr (say No_Claims))]
      else (let t = tally_results say rs; score = proposal_score say rs in
            [(''verification_score'', float_value False (round_two score)), (''verdict'', PStr (verification_value (verdict_of score))),
             (''flags'', str_list (ta_flags t)), (''verified_locations'', str_list (ta_verified t)),
             (''hallucinated_locations'', str_list (ta_refuted t)), (''partial_locations'', str_list (ta_partial t)),
             (''detail'', PStr (say (Score_Detail score (length (ta_verified t)) (length (ta_partial t)) (length (ta_refuted t))))),
             (''claim_count'', PInt (int (length rs)))]))"

fun cross_check :: "wording \<Rightarrow> checker \<Rightarrow> pyval list \<Rightarrow> location_state \<Rightarrow> pyval list \<times> location_state" where
  "cross_check say k [] st = ([], st)"
| "cross_check say k (v # vs) st =
     (case v of
        PDict p \<Rightarrow>
          (case verify_claims say k (extract_claims p) st of (rs, st1) \<Rightarrow>
             (case cross_check say k vs st1 of (ws, st2) \<Rightarrow>
                (PDict (dict_set ''__verification'' (PDict (score_proposal say rs)) p) # ws, st2)))
      | _ \<Rightarrow> (case cross_check say k vs st of (ws, st1) \<Rightarrow> (v # ws, st1)))"

section \<open>The critique\<close>

fun check_refs :: "wording \<Rightarrow> disk \<Rightarrow> string list \<Rightarrow> location_state \<Rightarrow> verification_result list \<times> location_state" where
  "check_refs say d [] st = ([], st)"
| "check_refs say d (f # fs) st =
     (case verify_path say d f PNone None st of (r, st1) \<Rightarrow>
        (case check_refs say d fs st1 of (rs, st2) \<Rightarrow> (r # rs, st2)))"

definition checked_concern ::
  "wording \<Rightarrow> disk \<Rightarrow> pyval \<Rightarrow> location_state \<Rightarrow> pyval \<times> location_state" where
  "checked_concern say d v st =
     (case v of
        PStr s \<Rightarrow>
          (case check_refs say d (extract_file_refs s) st of (rs, st1) \<Rightarrow>
             (PDict [(''text'', PStr s), (''file_references'', str_list (extract_file_refs s)),
                     (''location_checks'', PList (map (\<lambda>r. PDict (result_to_dict r)) rs)),
                     (''all_files_exist'', if rs = [] then PNone else PBool (list_all (\<lambda>r. vr_status r \<noteq> HALLUCINATED) rs))], st1))
      | _ \<Rightarrow> (PDict [(''text'', PStr (py_str v))], st))"

fun checked_concerns :: "wording \<Rightarrow> disk \<Rightarrow> pyval list \<Rightarrow> location_state \<Rightarrow> pyval list \<times> location_state" where
  "checked_concerns say d [] st = ([], st)"
| "checked_concerns say d (v # vs) st =
     (case checked_concern say d v st of (w, st1) \<Rightarrow>
        (case checked_concerns say d vs st1 of (ws, st2) \<Rightarrow> (w # ws, st2)))"

fun checked_verdicts :: "wording \<Rightarrow> disk \<Rightarrow> pyval list \<Rightarrow> location_state \<Rightarrow> pyval list \<times> location_state" where
  "checked_verdicts say d [] st = ([], st)"
| "checked_verdicts say d (v # vs) st =
     (case v of
        PDict p \<Rightarrow>
          (case checked_concerns say d (case dict_get_or (PList []) p ''concerns'' of PList cs \<Rightarrow> cs | _ \<Rightarrow> []) st of (cs, st1) \<Rightarrow>
             (case checked_verdicts say d vs st1 of (ws, st2) \<Rightarrow>
                (PDict (dict_set ''__verified_concerns'' (PList cs) p) # ws, st2)))
      | _ \<Rightarrow> (case checked_verdicts say d vs st of (ws, st1) \<Rightarrow> (v # ws, st1)))"

text \<open>The verdicts are the objects of the critique itself, so their new entry shows in it.\<close>

definition check_critique ::
  "wording \<Rightarrow> checker \<Rightarrow> attributes \<Rightarrow> location_state \<Rightarrow> attributes \<times> location_state" where
  "check_critique say k c st =
     (case checked_verdicts say (ck_disk k) (case dict_get_or (PList []) c ''verdicts'' of PList vs \<Rightarrow> vs | _ \<Rightarrow> []) st of (vs, st1) \<Rightarrow>
        (let c1 = (case dict_get c ''verdicts'' of Some (PList _) \<Rightarrow> dict_set ''verdicts'' (PList vs) c | _ \<Rightarrow> c);
             verified = dicts_in vs
         in (dict_set ''__verification''
               (PDict [(''verdicts_checked'', PInt (int (length verified))),
                       (''validated'', PBool (list_all (\<lambda>v. dict_get_or PNone v ''__verified_concerns'' \<noteq> PNone) verified))]) c1, st1)))"

end
