(* ===== verification/Verdicts.thy ===== *)
theory Verdicts
  imports CrossCheck Debate
begin

text \<open>
  \<open>verifier/scorer.py\<close> and \<open>verifier/verifier.py\<close>: the normalisation of the annotations of proposals, the
  summary of doubtful ones, merged scores, the statistics, and the verifier that a debate calls.
\<close>

section \<open>Scores\<close>

definition list_value :: "pyval \<Rightarrow> pyval list" where
  "list_value v = (case v of PList xs \<Rightarrow> xs | _ \<Rightarrow> [])"

definition clamp_unit :: "rat \<Rightarrow> rat" where
  "clamp_unit q = max 0 (min q 1)"

text \<open>\<open>float\<close> may also raise \<open>OverflowError\<close>, which is not caught.\<close>

definition coerce_score :: "pyval \<Rightarrow> (rat \<times> bool) checked" where
  "coerce_score v =
     (case py_float v of
        Inr (Finite q) \<Rightarrow> Inr (clamp_unit q, True)
      | Inr _ \<Rightarrow> Inr (0, False)
      | Inl (OverflowError m) \<Rightarrow> Inl (OverflowError m)
      | Inl _ \<Rightarrow> Inr (0, False))"

definition location_keys :: "string list" where
  "location_keys = [''verified_locations'', ''partial_locations'', ''hallucinated_locations'']"

definition listed_values :: "attributes \<Rightarrow> string \<Rightarrow> pyval list" where
  "listed_values d k = list_value (dict_get_or PNone d k)"

definition float_of_rat :: "rat \<Rightarrow> pyval" where
  "float_of_rat q = float_value False q"

definition compute_breakdown :: "attributes \<Rightarrow> pyval" where
  "compute_breakdown verif =
     (let v = length (listed_values verif ''verified_locations''); p = length (listed_values verif ''partial_locations'');
          h = length (listed_values verif ''hallucinated_locations''); n = v + p + h
      in PDict [(''total_claims'', PInt (int n)), (''verified_count'', PInt (int v)), (''partial_count'', PInt (int p)),
                (''hallucinated_count'', PInt (int h)),
                (''verification_rate'', float_of_rat (rounded (of_nat v / of_nat (max n 1)))),
                (''hallucination_rate'', float_of_rat (rounded (of_nat h / of_nat (max n 1))))])"

definition blank_annotation :: "wording \<Rightarrow> pyval \<Rightarrow> attributes" where
  "blank_annotation say raw =
     [(''verification_score'', float_of_rat 0), (''verdict'', PStr ''unverifiable''),
      (''flags'', PList [PStr (say (if py_truth raw then Annotation_Malformed else Annotation_Missing))]),
      (''detail'', PStr (say Add_Claims)), (''verified_locations'', PList []), (''partial_locations'', PList []),
      (''hallucinated_locations'', PList []), (''breakdown'', compute_breakdown [])]"

definition valid_verdicts :: "string list" where
  "valid_verdicts = [''verified'', ''partial'', ''hallucinated'', ''unverifiable'']"

definition read_verdict :: "attributes \<Rightarrow> string" where
  "read_verdict verif =
     (case dict_get_or (PStr ''unverifiable'') verif ''verdict'' of
        PStr s \<Rightarrow> if s \<in> set valid_verdicts then s else ''unverifiable'' | _ \<Rightarrow> ''unverifiable'')"

definition normalize_annotation :: "wording \<Rightarrow> attributes \<Rightarrow> attributes checked" where
  "normalize_annotation say raw =
     bind (coerce_score (dict_get_or PNone raw ''verification_score'')) (\<lambda>(score, valid).
     (let v1 = dict_set ''verification_score'' (float_of_rat score) raw;
          v2 = dict_set ''verdict'' (PStr (if valid then read_verdict raw else ''unverifiable'')) v1;
          v3 = dict_set ''flags'' (PList (listed_values raw ''flags'' @ (if valid then [] else [PStr (say Score_Malformed)]))) v2;
          v4 = foldl (\<lambda>d key. dict_set key (PList (listed_values d key)) d) v3 location_keys
      in Inr (dict_set ''breakdown'' (compute_breakdown v4) v4)))"

definition score_one :: "wording \<Rightarrow> pyval \<Rightarrow> pyval checked" where
  "score_one say v =
     (case v of
        PDict p \<Rightarrow>
          (case dict_get_or (PDict []) p ''__verification'' of
             PDict (x # xs) \<Rightarrow>
               bind (normalize_annotation say (x # xs)) (\<lambda>verif. Inr (PDict (dict_set ''__verification'' (PDict verif) p)))
           | raw \<Rightarrow> Inr (PDict (dict_set ''__verification'' (PDict (blank_annotation say raw)) p)))
      | _ \<Rightarrow> Inr v)"

definition score_proposals :: "wording \<Rightarrow> pyval list \<Rightarrow> pyval list checked" where
  "score_proposals say vs = traverse (score_one say) vs"

section \<open>Doubtful proposals\<close>

definition annotation_of :: "attributes \<Rightarrow> attributes" where
  "annotation_of p = (case dict_get_or (PDict []) p ''__verification'' of PDict d \<Rightarrow> d | _ \<Rightarrow> [])"

definition score_of :: "attributes \<Rightarrow> rat checked" where
  "score_of p = bind (coerce_score (dict_get_or PNone (annotation_of p) ''verification_score'')) (\<lambda>s. Inr (fst s))"

record flagged_item =
  fi_title :: pyval
  fi_score :: rat
  fi_missing :: "pyval list"
  fi_deviating :: "pyval list"

definition default_flag_threshold :: rat where
  "default_flag_threshold = rounded (3 / 10)"

definition split_flagged ::
  "rat \<Rightarrow> flagged_item list \<times> pyval list \<Rightarrow> pyval \<Rightarrow> (flagged_item list \<times> pyval list) checked" where
  "split_flagged threshold acc v =
     (case v of
        PDict p \<Rightarrow>
          bind (score_of p) (\<lambda>score.
            if score < threshold
            then Inr (fst acc @ [\<lparr>fi_title = dict_get_or (PStr ''?'') p ''title'', fi_score = score,
                   fi_missing = listed_values (annotation_of p) ''hallucinated_locations'',
                   fi_deviating = listed_values (annotation_of p) ''partial_locations''\<rparr>], snd acc)
            else Inr (fst acc, snd acc @ [v]))
      | _ \<Rightarrow> Inr (fst acc, snd acc @ [v]))"

definition flagged_text :: "wording \<Rightarrow> flagged_item \<Rightarrow> string" where
  "flagged_text say f =
     say (Flagged_Item (fi_title f) (fi_score f)) @ concat (map (\<lambda>l. say (Flagged_Missing l)) (fi_missing f)) @
     concat (map (\<lambda>l. say (Flagged_Deviating l)) (fi_deviating f))"

definition clean_text :: "wording \<Rightarrow> pyval \<Rightarrow> string checked" where
  "clean_text say v =
     (case v of
        PDict p \<Rightarrow> bind (score_of p) (\<lambda>score. Inr (say (Clean_Item (dict_get_or (PStr ''?'') p ''title'') score)))
      | _ \<Rightarrow> Inr [])"

definition hallucination_summary :: "wording \<Rightarrow> flagged_item list \<Rightarrow> pyval list \<Rightarrow> string checked" where
  "hallucination_summary say flagged clean =
     bind (traverse (clean_text say) clean) (\<lambda>cs.
     Inr (if flagged = [] \<and> clean = [] then say No_Scores
          else (if flagged = [] then [] else say (Flagged_Heading (length flagged)) @ concat (map (flagged_text say) flagged)) @
               (if clean = [] then [] else say (Clean_Heading (length clean)) @ concat cs)))"

definition flag_hallucinations ::
  "wording \<Rightarrow> pyval \<Rightarrow> pyval list \<Rightarrow> (flagged_item list \<times> pyval list \<times> string) checked" where
  "flag_hallucinations say threshold vs =
     bind (coerce_score threshold) (\<lambda>(t, valid).
     bind (fold_checked (split_flagged (if valid then t else default_flag_threshold)) ([], []) vs) (\<lambda>(flagged, clean).
     bind (hallucination_summary say flagged clean) (\<lambda>summary.
     Inr (flagged, clean, summary))))"

definition build_summary :: "wording \<Rightarrow> pyval list \<Rightarrow> string checked" where
  "build_summary say vs =
     bind (flag_hallucinations say (float_of_rat default_flag_threshold) vs) (\<lambda>(flagged, clean, summary). Inr summary)"

section \<open>Merged scores\<close>

text \<open>Sums, products and quotients of numbers that are not negative, infinity included.\<close>

definition float_add :: "pyfl \<Rightarrow> pyfl \<Rightarrow> pyfl" where
  "float_add x y =
     (case (x, y) of
        (Finite a, Finite b) \<Rightarrow> to_double (a + b)
      | (Not_A_Number, _) \<Rightarrow> Not_A_Number | (_, Not_A_Number) \<Rightarrow> Not_A_Number | _ \<Rightarrow> Infinite False)"

definition float_sum :: "pyfl list \<Rightarrow> pyfl" where
  "float_sum xs = foldl float_add (Finite 0) xs"

definition float_quotient :: "pyfl \<Rightarrow> pyfl \<Rightarrow> pyfl" where
  "float_quotient x y =
     (case (x, y) of
        (Finite a, Finite b) \<Rightarrow> to_double (a / b)
      | (Finite a, Infinite n) \<Rightarrow> Finite 0
      | (Infinite n, Finite b) \<Rightarrow> Infinite False
      | _ \<Rightarrow> Not_A_Number)"

text \<open>\<open>float(v)\<close> under the handler that turns its errors into \<open>ValueError\<close>, and a test.\<close>

definition checked_number :: "string \<Rightarrow> string \<Rightarrow> (rat \<Rightarrow> bool) \<Rightarrow> pyval \<Rightarrow> rat checked" where
  "checked_number malformed refused ok v =
     (case py_float v of
        Inr (Finite q) \<Rightarrow> if ok q then Inr q else Inl (ValueError refused)
      | Inr _ \<Rightarrow> Inl (ValueError refused)
      | Inl (OverflowError m) \<Rightarrow> Inl (OverflowError m)
      | Inl _ \<Rightarrow> Inl (ValueError malformed))"

definition merge_weights :: "nat \<Rightarrow> pyval list option \<Rightarrow> rat list checked" where
  "merge_weights n weights =
     (case weights of
        None \<Rightarrow> Inr (replicate n 1)
      | Some ws \<Rightarrow>
          (if length ws \<noteq> n then Inl (ValueError ''weights must have the same length as scores'')
           else traverse (checked_number ''weights must contain finite numbers'' ''weights must be finite and non-negative''
                  (\<lambda>q. 0 \<le> q)) ws))"

definition merge_scores :: "pyval list \<Rightarrow> pyval list option \<Rightarrow> pyfl checked" where
  "merge_scores scores weights =
     (if scores = [] then Inr (Finite 0)
      else bind (traverse (checked_number ''scores must contain finite numbers'' ''scores must be finite values between 0 and 1''
               (\<lambda>q. 0 \<le> q \<and> q \<le> 1)) scores) (\<lambda>ss.
           bind (merge_weights (length ss) weights) (\<lambda>ws.
           (let w = float_sum (map Finite ws) in
            if w = Finite 0 then Inr (float_quotient (float_sum (map Finite ss)) (Finite (of_nat (length ss))))
            else Inr (float_quotient (float_sum (map2 (\<lambda>s x. to_double (s * x)) ss ws)) w)))))"

section \<open>The verifier\<close>

definition verify_proposals ::
  "wording \<Rightarrow> checker \<Rightarrow> pyval list \<Rightarrow> location_state \<Rightarrow> pyval list checked \<times> location_state" where
  "verify_proposals say k vs st =
     (if vs = [] then (Inr vs, st)
      else (case cross_check say k vs st of (ws, st1) \<Rightarrow> (score_proposals say ws, st1)))"

definition verify_critique ::
  "wording \<Rightarrow> checker \<Rightarrow> attributes \<Rightarrow> location_state \<Rightarrow> attributes \<times> location_state" where
  "verify_critique say k c st = (if c = [] then (c, st) else check_critique say k c st)"

definition verify_single ::
  "wording \<Rightarrow> disk \<Rightarrow> pyval \<Rightarrow> pyval \<Rightarrow> pyval \<Rightarrow> location_state \<Rightarrow> attributes checked" where
  "verify_single say d f line name st = bind (verify_location say d f line name st) (\<lambda>(r, st1). Inr (result_to_dict r))"

text \<open>\<open>max(0.0, min(score, 1.0))\<close> of any float, not a number included.\<close>

definition clamp_float :: "pyfl \<Rightarrow> rat" where
  "clamp_float x = (case x of Finite q \<Rightarrow> clamp_unit q | Infinite n \<Rightarrow> if n then 0 else 1 | Not_A_Number \<Rightarrow> 0)"

definition stat_score :: "attributes \<Rightarrow> rat checked" where
  "stat_score verif =
     (case py_float (dict_get_or (PInt 0) verif ''verification_score'') of
        Inr x \<Rightarrow> Inr (clamp_float x)
      | Inl (OverflowError m) \<Rightarrow> Inl (OverflowError m)
      | Inl _ \<Rightarrow> Inr 0)"

record verification_stats =
  vs_total :: nat
  vs_verified :: nat
  vs_partial :: nat
  vs_hallucinated :: nat
  vs_overall :: rat
  vs_rate :: rat

definition verified_entries :: "pyval list \<Rightarrow> attributes list" where
  "verified_entries vs =
     List.map_filter (\<lambda>v.
       case v of
         PDict p \<Rightarrow> (case dict_get_or (PDict []) p ''__verification'' of PDict d \<Rightarrow> Some d | _ \<Rightarrow> None)
       | _ \<Rightarrow> None) vs"

definition verdict_count :: "string \<Rightarrow> attributes list \<Rightarrow> nat" where
  "verdict_count s ds = length (filter (\<lambda>d. dict_get_or (PStr ''unverifiable'') d ''verdict'' = PStr s) ds)"

definition get_verification_stats :: "pyval list \<Rightarrow> verification_stats checked" where
  "get_verification_stats vs =
     (let ds = verified_entries vs in
      bind (traverse stat_score ds) (\<lambda>scores.
      (let average = rounded (foldl (\<lambda>s x. rounded (s + x)) 0 scores / of_nat (max (length scores) 1));
           h = verdict_count ''hallucinated'' ds
       in Inr \<lparr>vs_total = length vs, vs_verified = verdict_count ''verified'' ds, vs_partial = verdict_count ''partial'' ds,
            vs_hallucinated = h, vs_overall = round_two average,
            vs_rate = round_two (rounded (of_nat h / of_nat (max (length vs) 1)))\<rparr>)))"

text \<open>An exception as the debate sees it, and the verifier it is given.\<close>

definition as_failure :: "py_error \<Rightarrow> failure" where
  "as_failure e =
     (case e of ValueError m \<Rightarrow> (''ValueError'', m) | TypeError m \<Rightarrow> (''TypeError'', m) | RuntimeError m \<Rightarrow> (''RuntimeError'', m)
      | KeyError m \<Rightarrow> (''KeyError'', m) | OverflowError m \<Rightarrow> (''OverflowError'', m))"

definition debate_verifier :: "wording \<Rightarrow> checker \<Rightarrow> claim_verifier" where
  "debate_verifier say k =
     \<lparr>cv_proposals = (\<lambda>ps. case fst (verify_proposals say k (map PDict ps) fresh_state) of
          Inl e \<Rightarrow> Inl (as_failure e) | Inr vs \<Rightarrow> Inr (dicts_in vs)),
      cv_summary = (\<lambda>ps. case build_summary say (map PDict ps) of Inl e \<Rightarrow> Inl (as_failure e) | Inr s \<Rightarrow> Inr s),
      cv_critique = (\<lambda>c ps. Inr (fst (verify_critique say k c fresh_state)))\<rparr>"

end
