(* ===== verification/FloatOrder.thy ===== *)
theory FloatOrder
  imports PyFloat
begin

text \<open>
  Rounding to doubles keeps the order of the numbers and leaves small multiples of a power of two as
  they are, so a bound on exact terms carries over to what the program computes.
\<close>

section \<open>The leading bit\<close>

lemma bit_length_bounds: "0 < n \<Longrightarrow> 2 ^ (bit_length n - 1) \<le> n \<and> n < 2 ^ bit_length n \<and> 0 < bit_length n"
proof (induction n rule: bit_length.induct)
  case (1 n)
  show ?case
  proof (cases "n = 1")
    case True
    then show ?thesis by (simp add: bit_length.simps)
  next
    case False
    with 1 have half: "2 ^ (bit_length (n div 2) - 1) \<le> n div 2" "n div 2 < 2 ^ bit_length (n div 2)" "0 < bit_length (n div 2)"
      by auto
    obtain k where k: "bit_length (n div 2) = Suc k" using half(3) by (cases "bit_length (n div 2)") auto
    have bl: "bit_length n = Suc (Suc k)" using 1(2) k by (simp add: bit_length.simps [of n])
    have "2 * 2 ^ k \<le> n" "n < 2 * (2 * 2 ^ k)" using half(1,2) unfolding k by auto
    then show ?thesis unfolding bl by simp
  qed
qed

lemma power_two_pos [simp]: "0 < power_two e"
  by (simp add: power_two_def)

lemma power_two_int: "power_two (int n) = 2 ^ n"
  by (simp add: power_two_def)

lemma power_two_minus: "power_two (- int n) = 1 / 2 ^ n"
  by (cases n) (auto simp: power_two_def nat_add_distrib)

lemma power_two_Suc: "power_two (e + 1) = 2 * power_two e"
proof (cases "0 \<le> e")
  case True
  then show ?thesis by (simp add: power_two_def nat_add_distrib)
next
  case False
  then obtain k where "- e = int (Suc k)" by (metis Suc_pred int_nat_eq linear minus_zero neg_0_less_iff_less not_le zero_less_nat_eq)
  then have e: "e = - int (Suc k)" "e + 1 = - int k" by simp_all
  show ?thesis unfolding e(2) unfolding e(1) power_two_minus by simp
qed

lemma power_two_le: "e \<le> f \<Longrightarrow> power_two e \<le> power_two f"
proof (induction rule: int_ge_induct)
  case (step i)
  then show ?case using power_two_pos [of i] unfolding power_two_Suc by linarith
qed simp

lemma power_two_add: "0 \<le> d \<Longrightarrow> power_two (e + d) = 2 ^ nat d * power_two e"
proof (induction rule: int_ge_induct)
  case (step i)
  have "power_two (e + (i + 1)) = 2 * power_two (e + i)" using power_two_Suc [of "e + i"] by (simp add: ac_simps)
  with step show ?case by (simp add: nat_add_distrib)
qed simp

lemma leading_exponent_bounds:
  assumes "0 < a"
  shows "power_two (leading_exponent a) \<le> a \<and> a < power_two (leading_exponent a + 1)"
proof (cases "1 \<le> a")
  case True
  let ?b = "bit_length \<lfloor>a\<rfloor>"
  have b: "2 ^ (?b - 1) \<le> \<lfloor>a\<rfloor>" "\<lfloor>a\<rfloor> < 2 ^ ?b" "0 < ?b" using bit_length_bounds [of "\<lfloor>a\<rfloor>"] True by auto
  have "of_int (2 ^ (?b - 1)) \<le> a" using b(1) by (simp add: le_floor_iff)
  moreover have "a < of_int (2 ^ ?b)" using b(2) by (simp add: floor_less_iff)
  moreover have "leading_exponent a = int (?b - 1)" "leading_exponent a + 1 = int ?b"
    using True b(3) by (auto simp: leading_exponent_def)
  ultimately show ?thesis by (simp only: power_two_int of_int_power of_int_numeral simp_thms)
next
  case False
  define m where "m = \<lceil>1 / a\<rceil> - 1"
  let ?b = "bit_length m"
  have inv: "1 < 1 / a" using assms False by simp
  then have "1 < \<lceil>1 / a\<rceil>" by (simp add: less_ceiling_iff)
  then have b: "2 ^ (?b - 1) \<le> m" "m < 2 ^ ?b" "0 < ?b" using bit_length_bounds [of m] by (auto simp: m_def)
  have e: "leading_exponent a = - int ?b" using False by (simp add: leading_exponent_def m_def)
  have "\<lceil>1 / a\<rceil> \<le> 2 ^ ?b" using b(2) by (simp add: m_def)
  then have up: "1 / a \<le> 2 ^ ?b" by (simp add: ceiling_le_iff)
  have "of_int m < 1 / a" unfolding m_def by linarith
  moreover have "(2::rat) ^ (?b - 1) \<le> of_int m" using b(1) by (metis of_int_le_iff of_int_numeral of_int_power)
  ultimately have low: "2 ^ (?b - 1) < 1 / a" by linarith
  have "1 / 2 ^ ?b \<le> a" using up assms by (simp add: field_simps)
  moreover have "a < 1 / 2 ^ (?b - 1)" using low assms by (simp add: field_simps)
  moreover have "- int ?b + 1 = - int (?b - 1)" using b(3) by simp
  ultimately show ?thesis unfolding e by (simp only: power_two_minus simp_thms)
qed

lemma leading_exponent_mono: "0 < a \<Longrightarrow> a \<le> b \<Longrightarrow> leading_exponent a \<le> leading_exponent b"
proof (rule ccontr)
  assume ab: "0 < a" "a \<le> b" and "\<not> leading_exponent a \<le> leading_exponent b"
  then have "power_two (leading_exponent b + 1) \<le> power_two (leading_exponent a)" by (intro power_two_le) simp
  then show False using leading_exponent_bounds [of a] leading_exponent_bounds [of b] ab by linarith
qed

section \<open>Rounding\<close>

definition rounding_unit :: "rat \<Rightarrow> rat" where
  "rounding_unit a = power_two (max (leading_exponent a - 52) (- 1074))"

lemma round_magnitude_unit: "round_magnitude a = of_int (half_even (a / rounding_unit a)) * rounding_unit a"
  by (simp add: round_magnitude_def rounding_unit_def Let_def)

lemma rounding_unit_pos [simp]: "0 < rounding_unit a"
  by (simp add: rounding_unit_def)

text \<open>A multiple of the unit bounds the rounded number when it bounds the number.\<close>

lemma round_le_multiple: "a \<le> of_int i * rounding_unit a \<Longrightarrow> round_magnitude a \<le> of_int i * rounding_unit a"
proof -
  assume "a \<le> of_int i * rounding_unit a"
  then have "a / rounding_unit a \<le> of_int i" by (simp add: pos_divide_le_eq)
  then have "half_even (a / rounding_unit a) \<le> i" using half_even_mono [of _ "of_int i"] by simp
  then show ?thesis by (simp add: round_magnitude_unit)
qed

lemma round_ge_multiple: "of_int i * rounding_unit a \<le> a \<Longrightarrow> of_int i * rounding_unit a \<le> round_magnitude a"
proof -
  assume "of_int i * rounding_unit a \<le> a"
  then have "of_int i \<le> a / rounding_unit a" by (simp add: pos_le_divide_eq)
  then have "i \<le> half_even (a / rounding_unit a)" using half_even_mono [of "of_int i"] by simp
  then show ?thesis by (simp add: round_magnitude_unit)
qed

text \<open>A power of two that is no smaller than the unit is a multiple of it.\<close>

lemma power_two_multiple:
  assumes "max (leading_exponent a - 52) (- 1074) \<le> e"
  obtains i where "power_two e = of_int i * rounding_unit a"
proof -
  let ?u = "max (leading_exponent a - 52) (- 1074)"
  have "power_two (?u + (e - ?u)) = 2 ^ nat (e - ?u) * power_two ?u" using assms by (intro power_two_add) simp
  then have "power_two e = of_int (2 ^ nat (e - ?u)) * rounding_unit a" by (simp add: rounding_unit_def)
  then show thesis by (rule that)
qed

lemma round_magnitude_nonneg: "0 \<le> a \<Longrightarrow> 0 \<le> round_magnitude a"
  using round_ge_multiple [of 0 a] by simp

lemma round_magnitude_mono:
  assumes "0 < a" "a \<le> b"
  shows "round_magnitude a \<le> round_magnitude b"
proof (cases "rounding_unit a = rounding_unit b")
  case True
  have "a / rounding_unit b \<le> b / rounding_unit b" using assms(2) by (simp add: divide_right_mono less_imp_le)
  from half_even_mono [OF this] show ?thesis unfolding round_magnitude_unit True by (simp add: mult_right_mono less_imp_le)
next
  case False
  let ?ea = "leading_exponent a" and ?eb = "leading_exponent b"
  have b0: "0 < b" using assms by simp
  have le: "?ea \<le> ?eb" using assms by (rule leading_exponent_mono)
  with False have lt: "max (?ea - 52) (- 1074) < max (?eb - 52) (- 1074)" "?ea < ?eb"
    unfolding rounding_unit_def by (metis antisym_conv2 diff_right_mono max.mono order_refl, metis order_le_less)
  then have eb: "- 1074 < ?eb - 52" by auto
  obtain i where i: "power_two ?eb = of_int i * rounding_unit a" using power_two_multiple [of a ?eb] lt eb by (auto simp: max_def)
  obtain j where j: "power_two ?eb = of_int j * rounding_unit b" using power_two_multiple [of b ?eb] eb by (auto simp: max_def)
  have "a \<le> power_two ?eb"
    using leading_exponent_bounds [OF assms(1)] power_two_le [of "?ea + 1" ?eb] lt(2) by linarith
  then have "round_magnitude a \<le> power_two ?eb" unfolding i by (rule round_le_multiple)
  also have "power_two ?eb \<le> round_magnitude b"
    using leading_exponent_bounds [OF b0] unfolding j by (intro round_ge_multiple) simp
  finally show ?thesis .
qed

lemma to_double_finite: "0 \<le> q \<Longrightarrow> q < max_double_bound \<Longrightarrow> to_double q = Finite (if q = 0 then 0 else round_magnitude q)"
  by (simp add: to_double_def)

lemma rounded_nonneg: "0 \<le> q \<Longrightarrow> 0 \<le> rounded q"
  using round_magnitude_nonneg [of q] by (simp add: rounded_def to_double_def)

lemma rounded_0 [simp]: "rounded 0 = 0"
  by (simp add: rounded_def to_double_def)

lemma rounded_mono:
  assumes "0 \<le> a" "a \<le> b" "b < max_double_bound"
  shows "rounded a \<le> rounded b"
proof (cases "a = 0")
  case True
  then show ?thesis using rounded_nonneg [of b] assms by simp
next
  case False
  then show ?thesis using assms round_magnitude_mono [of a b] by (simp add: rounded_def to_double_finite)
qed

text \<open>A multiple of its own unit is a double, and so is every rounded number.\<close>

lemma round_magnitude_multiple: "a = of_int i * rounding_unit a \<Longrightarrow> round_magnitude a = a"
  using round_le_multiple [of a i] round_ge_multiple [of i a] by simp

lemma leading_exponent_unique:
  assumes "power_two e \<le> a" "a < power_two (e + 1)"
  shows "leading_exponent a = e"
proof -
  have pos: "0 < a" using assms(1) power_two_pos [of e] by linarith
  have "\<not> leading_exponent a + 1 \<le> e"
    using leading_exponent_bounds [OF pos] power_two_le [of "leading_exponent a + 1" e] assms by linarith
  moreover have "\<not> e + 1 \<le> leading_exponent a"
    using leading_exponent_bounds [OF pos] power_two_le [of "e + 1" "leading_exponent a"] assms by linarith
  ultimately show ?thesis by simp
qed

lemma round_magnitude_idem:
  assumes "0 < a" "- 1022 \<le> leading_exponent a"
  shows "round_magnitude (round_magnitude a) = round_magnitude a"
proof -
  let ?e = "leading_exponent a" and ?b = "round_magnitude a"
  obtain i where i: "power_two ?e = of_int i * rounding_unit a" using power_two_multiple [of a ?e] assms(2) by auto
  obtain j where j: "power_two (?e + 1) = of_int j * rounding_unit a" using power_two_multiple [of a "?e + 1"] assms(2) by auto
  have low: "power_two ?e \<le> ?b" and high: "?b \<le> power_two (?e + 1)"
    using leading_exponent_bounds [OF assms(1)] round_ge_multiple [of i a] round_le_multiple [of a j]
    unfolding i [symmetric] j [symmetric] by auto
  show ?thesis
  proof (cases "?b = power_two (?e + 1)")
    case True
    have "leading_exponent ?b = ?e + 1"
      by (rule leading_exponent_unique) (use True power_two_Suc [of "?e + 1"] power_two_pos [of "?e + 1"] in linarith)+
    then obtain k where "power_two (?e + 1) = of_int k * rounding_unit ?b"
      using power_two_multiple [of ?b "?e + 1"] assms(2) by auto
    then show ?thesis using round_magnitude_multiple [of ?b k] True by simp
  next
    case False
    then have "leading_exponent ?b = ?e" using low high by (intro leading_exponent_unique) auto
    then have "rounding_unit ?b = rounding_unit a" by (simp add: rounding_unit_def)
    then show ?thesis using round_magnitude_multiple [of ?b] round_magnitude_unit [of a] by metis
  qed
qed

text \<open>Quarters below \<open>2 ^ 51\<close> are doubles.\<close>

lemma rounded_quarters:
  assumes "n < 2 ^ 51"
  shows "rounded (of_nat n / 4) = of_nat n / 4"
proof (cases "n = 0")
  case False
  let ?a = "of_nat n / 4 :: rat" let ?e = "leading_exponent ?a"
  have pos: "0 < ?a" using False by simp
  have lt: "?a < power_two 49" using assms by (simp add: power_two_def of_nat_less_numeral_power_cancel_iff)
  have "?e < 49"
    using leading_exponent_bounds [OF pos] lt power_two_le [of 49 ?e] by linarith
  then obtain i where i: "power_two (- 2) = of_int i * rounding_unit ?a"
    using power_two_multiple [of ?a "- 2"] by auto
  then have a: "?a = of_int (int n * i) * rounding_unit ?a" by (simp add: power_two_def field_simps)
  have "round_magnitude ?a = ?a"
    using round_le_multiple [of ?a "int n * i"] round_ge_multiple [of "int n * i" ?a] unfolding a [symmetric] by simp
  moreover have "?a < max_double_bound"
    using lt by (simp add: power_two_def max_double_bound_def)
  ultimately show ?thesis using pos by (simp add: rounded_def to_double_finite)
qed simp

lemma rounded_idem:
  assumes "1 / 1024 \<le> a" "a \<le> 1024"
  shows "rounded (rounded a) = rounded a"
proof -
  have pos: "0 < a" using assms(1) by linarith
  have "power_two (- 10) = 1 / 1024" using power_two_minus [of 10] by simp
  then have "\<not> leading_exponent a + 1 \<le> - 10"
    using leading_exponent_bounds [OF pos] power_two_le [of "leading_exponent a + 1" "- 10"] assms(1) by linarith
  then have idem: "round_magnitude (round_magnitude a) = round_magnitude a"
    using pos by (intro round_magnitude_idem) auto
  have fin: "a < max_double_bound" using assms(2) by (simp add: max_double_bound_def)
  have "rounded a \<le> rounded (of_nat 4096 / 4)"
    using assms pos by (intro rounded_mono) (auto simp: max_double_bound_def)
  then have "rounded a \<le> 1024" using rounded_quarters [of 4096] by simp
  then have "rounded a < max_double_bound" by (simp add: max_double_bound_def)
  moreover have "rounded a = round_magnitude a" using pos fin by (simp add: rounded_def to_double_finite)
  moreover have "0 \<le> rounded a" using pos by (intro rounded_nonneg) simp
  ultimately show ?thesis using idem by (simp add: rounded_def to_double_finite)
qed

text \<open>A running sum of terms of at most \<open>k / 4\<close> stays below the exact bound.\<close>

lemma rounded_sum_bound:
  assumes "0 \<le> s" "s \<le> of_nat m / 4" "0 \<le> x" "x \<le> of_nat k / 4" "m + k < 2 ^ 51"
  shows "0 \<le> rounded (s + x)" "rounded (s + x) \<le> of_nat (m + k) / 4"
proof -
  have "rounded (s + x) \<le> rounded (of_nat (m + k) / 4)"
  proof (rule rounded_mono)
    show "s + x \<le> of_nat (m + k) / 4" using assms by (simp add: field_simps)
    have "of_nat (m + k) < (2::rat) ^ 51" using assms(5) by (metis of_nat_less_numeral_power_cancel_iff)
    then show "of_nat (m + k) / 4 < max_double_bound" by (simp add: max_double_bound_def)
  qed (use assms in auto)
  then show "rounded (s + x) \<le> of_nat (m + k) / 4" using rounded_quarters [OF assms(5)] by simp
  show "0 \<le> rounded (s + x)" using assms by (intro rounded_nonneg) simp
qed

end
