(* ===== verification/LocationSound.thy ===== *)
theory LocationSound
  imports Location FloatOrder
begin

text \<open>
  What the location verifier guarantees: the edit distance is the least number of edits, the cache and the
  index do not show in the results, and a confirmed claim is on disk.
\<close>

section \<open>Edits\<close>

inductive edit_step :: "'a list \<Rightarrow> 'a list \<Rightarrow> bool" where
  insertion: "edit_step (u @ v) (u @ c # v)"
| deletion: "edit_step (u @ c # v) (u @ v)"
| substitution: "edit_step (u @ c # v) (u @ c' # v)"

text \<open>Two texts side by side, with the number of places where they differ.\<close>

inductive aligned :: "nat \<Rightarrow> 'a list \<Rightarrow> 'a list \<Rightarrow> bool" where
  both_end: "aligned 0 [] []"
| keep: "aligned n xs ys \<Longrightarrow> aligned n (c # xs) (c # ys)"
| replace: "aligned n xs ys \<Longrightarrow> aligned (Suc n) (c # xs) (c' # ys)"
| remove: "aligned n xs ys \<Longrightarrow> aligned (Suc n) (c # xs) ys"
| add: "aligned n xs ys \<Longrightarrow> aligned (Suc n) xs (c # ys)"

fun dist :: "'a list \<Rightarrow> 'a list \<Rightarrow> nat" where
  "dist [] ys = length ys"
| "dist (x # xs) [] = Suc (length xs)"
| "dist (x # xs) (y # ys) = min (min (dist xs (y # ys) + 1) (dist (x # xs) ys + 1)) (dist xs ys + (if x \<noteq> y then 1 else 0))"

lemma aligned_all:
  "aligned (length ys) [] ys" "aligned (length xs) xs []"
  by (induction ys, auto intro: aligned.intros) (induction xs, auto intro: aligned.intros)

lemma dist_aligned: "aligned (dist xs ys) xs ys"
proof (induction xs ys rule: dist.induct)
  case (2 x xs)
  show ?case using aligned_all(2) [of "x # xs"] by simp
next
  case (3 x xs y ys)
  then show ?case by (auto simp: min_def intro: aligned.intros)
qed (simp add: aligned_all)

lemma dist_Nil2 [simp]: "dist xs [] = length xs"
  by (cases xs) auto

lemma dist_le: "aligned n xs ys \<Longrightarrow> dist xs ys \<le> n"
proof (induction rule: aligned.induct)
  case (remove n xs ys c)
  then show ?case by (cases ys) auto
next
  case (add n xs ys c)
  then show ?case by (cases xs) auto
qed auto

lemma aligned_append: "aligned m u u' \<Longrightarrow> aligned n v v' \<Longrightarrow> aligned (m + n) (u @ v) (u' @ v')"
  by (induction rule: aligned.induct) (auto intro: aligned.intros)

lemma aligned_split:
  "aligned n xs (u @ v) \<Longrightarrow> \<exists>u' v' k l. xs = u' @ v' \<and> aligned k u' u \<and> aligned l v' v \<and> n = k + l"
proof (induction n xs "u @ v" arbitrary: u rule: aligned.induct)
  case both_end
  then show ?case by (intro exI [of _ "[]"] exI [of _ 0]) (auto intro: aligned.intros)
next
  case (keep n xs ys c)
  show ?case
  proof (cases u)
    case Nil
    with keep(3) aligned.keep [OF keep(1), of c] show ?thesis
      by (intro exI [of _ "[]"] exI [of _ "c # xs"] exI [of _ 0] exI [of _ n]) (auto intro: aligned.intros)
  next
    case (Cons d u1)
    with keep(2) [of u1] keep(3) obtain u' v' k l where "xs = u' @ v'" "aligned k u' u1" "aligned l v' v" "n = k + l" by auto
    with Cons keep(3) show ?thesis
      by (intro exI [of _ "c # u'"] exI [of _ v'] exI [of _ k] exI [of _ l]) (auto intro: aligned.intros)
  qed
next
  case (replace n xs ys c c')
  show ?case
  proof (cases u)
    case Nil
    with replace(3) aligned.replace [OF replace(1), of c c'] show ?thesis
      by (intro exI [of _ "[]"] exI [of _ "c # xs"] exI [of _ 0] exI [of _ "Suc n"]) (auto intro: aligned.intros)
  next
    case (Cons d u1)
    with replace(2) [of u1] replace(3) obtain u' v' k l where "xs = u' @ v'" "aligned k u' u1" "aligned l v' v" "n = k + l" by auto
    with Cons replace(3) show ?thesis
      by (intro exI [of _ "c # u'"] exI [of _ v'] exI [of _ "Suc k"] exI [of _ l]) (auto intro: aligned.intros)
  qed
next
  case (remove n xs c)
  then obtain u' v' k l where "xs = u' @ v'" "aligned k u' u" "aligned l v' v" "n = k + l" by blast
  then show ?case
    by (intro exI [of _ "c # u'"] exI [of _ v'] exI [of _ "Suc k"] exI [of _ l]) (auto intro: aligned.intros)
next
  case (add n xs ys c)
  show ?case
  proof (cases u)
    case Nil
    with add(3) aligned.add [OF add(1), of c] show ?thesis
      by (intro exI [of _ "[]"] exI [of _ xs] exI [of _ 0] exI [of _ "Suc n"]) (auto intro: aligned.intros)
  next
    case (Cons d u1)
    with add(2) [of u1] add(3) obtain u' v' k l where "xs = u' @ v'" "aligned k u' u1" "aligned l v' v" "n = k + l" by auto
    with Cons add(3) show ?thesis
      by (intro exI [of _ u'] exI [of _ v'] exI [of _ "Suc k"] exI [of _ l]) (auto intro: aligned.intros)
  qed
qed

lemma aligned_length: "aligned n xs ys \<Longrightarrow> length xs \<le> length ys + n"
  by (induction rule: aligned.induct) auto

lemma realign:
  assumes "edit_step ys zs" "aligned n xs ys"
  shows "dist xs zs \<le> Suc n"
  using assms
proof (cases rule: edit_step.cases)
  case (insertion u v c)
  with assms(2) obtain u' v' k l where s: "xs = u' @ v'" "aligned k u' u" "aligned l v' v" "n = k + l"
    using aligned_split [of n xs u v] by auto
  have "aligned (k + Suc l) xs zs" using aligned_append [OF s(2) aligned.add [OF s(3), of c]] insertion s(1) by simp
  then show ?thesis using dist_le s(4) by fastforce
next
  case (deletion u c v)
  with assms(2) obtain u' v' k l where s: "xs = u' @ v'" "aligned k u' u" "aligned l v' ([c] @ v)" "n = k + l"
    using aligned_split [of n xs u "c # v"] by auto
  from aligned_split [OF s(3)] obtain w x p q where t: "v' = w @ x" "aligned p w [c]" "aligned q x v" "l = p + q" by blast
  from aligned_append [OF s(2) aligned_append [OF aligned_all(2) t(3)], of w]
  have "dist xs zs \<le> k + (length w + q)" using deletion s(1) t(1) by (intro dist_le) simp
  then show ?thesis using aligned_length [OF t(2)] s t by simp
next
  case (substitution u c v d)
  with assms(2) obtain u' v' k l where s: "xs = u' @ v'" "aligned k u' u" "aligned l v' ([c] @ v)" "n = k + l"
    using aligned_split [of n xs u "c # v"] by auto
  from aligned_split [OF s(3)] obtain w x p q where t: "v' = w @ x" "aligned p w [c]" "aligned q x v" "l = p + q" by blast
  have "\<exists>r. aligned r w [d] \<and> r \<le> Suc p"
  proof (cases w)
    case Nil
    then show ?thesis using aligned_all(1) [of "[d]"] by (intro exI [of _ 1]) auto
  next
    case (Cons e w1)
    then show ?thesis using aligned.replace [OF aligned_all(2), of w1 e d] aligned_length [OF t(2)]
      by (intro exI [of _ "Suc (length w1)"]) auto
  qed
  then obtain r where r: "aligned r w [d]" "r \<le> Suc p" by blast
  from aligned_append [OF s(2) aligned_append [OF r(1) t(3)]]
  have "dist xs zs \<le> k + (r + q)" using substitution s(1) t(1) by (intro dist_le) simp
  then show ?thesis using r(2) s t by simp
qed

lemma steps_dist: "(edit_step ^^ n) xs ys \<Longrightarrow> dist xs ys \<le> n"
proof (induction n arbitrary: ys)
  case 0
  have "aligned 0 ys ys" by (induction ys) (auto intro: aligned.intros)
  with 0 show ?case using dist_le by fastforce
next
  case (Suc n)
  then obtain zs where "(edit_step ^^ n) xs zs" "edit_step zs ys" by auto
  then show ?case using Suc.IH realign [OF _ dist_aligned] by (metis Suc_le_mono le_trans)
qed

lemma edit_step_Cons: "edit_step xs ys \<Longrightarrow> edit_step (c # xs) (c # ys)"
  by (cases rule: edit_step.cases) (auto intro: edit_step.intros [of "c # _", simplified])

lemma edit_steps_Cons: "(edit_step ^^ n) xs ys \<Longrightarrow> (edit_step ^^ n) (c # xs) (c # ys)"
  by (induction n arbitrary: ys) (auto intro: edit_step_Cons)

lemma aligned_steps: "aligned n xs ys \<Longrightarrow> (edit_step ^^ n) xs ys"
proof (induction rule: aligned.induct)
  case (keep n xs ys c)
  then show ?case by (intro edit_steps_Cons)
next
  case (replace n xs ys c c')
  then show ?case using edit_steps_Cons edit_step.substitution [of "[]"] by fastforce
next
  case (remove n xs ys c)
  have "edit_step (c # xs) xs" using edit_step.deletion [of "[]"] by simp
  with remove.IH show ?case by (metis relpowp_Suc_I2)
next
  case (add n xs ys c)
  have "edit_step ys (c # ys)" using edit_step.insertion [of "[]"] by simp
  with add.IH show ?case by auto
qed simp

lemma dist_least: "dist xs ys = (LEAST n. (edit_step ^^ n) xs ys)"
  by (rule Least_equality [symmetric]) (auto intro: aligned_steps dist_aligned steps_dist)

lemma edit_step_rev: "edit_step xs ys \<Longrightarrow> edit_step (rev xs) (rev ys)"
  by (cases rule: edit_step.cases) (auto intro: edit_step.intros)

lemma edit_step_sym: "edit_step xs ys \<Longrightarrow> edit_step ys xs"
  by (cases rule: edit_step.cases) (auto intro: edit_step.intros)

lemma edit_steps_rev: "(edit_step ^^ n) xs ys \<Longrightarrow> (edit_step ^^ n) (rev xs) (rev ys)"
  by (induction n arbitrary: ys) (auto intro: edit_step_rev)

lemma edit_steps_sym: "(edit_step ^^ n) xs ys \<Longrightarrow> (edit_step ^^ n) ys xs"
proof (induction n arbitrary: ys)
  case (Suc n)
  then obtain zs where "(edit_step ^^ n) zs xs" "edit_step ys zs" using edit_step_sym by auto
  then show ?case by (metis relpowp_Suc_I2)
qed simp

lemma dist_rev: "dist (rev xs) (rev ys) = dist xs ys"
  unfolding dist_least using edit_steps_rev [of _ xs ys] edit_steps_rev [of _ "rev xs" "rev ys"] by (metis rev_rev_ident)

lemma dist_sym: "dist xs ys = dist ys xs"
  unfolding dist_least using edit_steps_sym by metis

section \<open>The table of distances\<close>

lemma distance_cells_dist:
  assumes "k \<le> length b"
  shows "distance_cells ca (dist (ca # xs) (rev (take k b))) (map (\<lambda>j. dist xs (rev (take j b))) [k..<Suc (length b)]) (drop k b) =
    map (\<lambda>j. dist (ca # xs) (rev (take j b))) [Suc k..<Suc (length b)]"
  using assms
proof (induction "length b - k" arbitrary: k)
  case 0
  then show ?case by simp
next
  case (Suc m)
  then have k: "k < length b" by simp
  have drop_k: "drop k b = b ! k # drop (Suc k) b" using k by (simp add: Cons_nth_drop_Suc)
  have upts: "[k..<Suc (length b)] = k # Suc k # [Suc (Suc k)..<Suc (length b)]"
    "[Suc k..<Suc (length b)] = Suc k # [Suc (Suc k)..<Suc (length b)]"
    using k by (simp_all add: upt_conv_Cons)
  have IH: "distance_cells ca (dist (ca # xs) (rev (take (Suc k) b)))
      (map (\<lambda>j. dist xs (rev (take j b))) [Suc k..<Suc (length b)]) (drop (Suc k) b) =
    map (\<lambda>j. dist (ca # xs) (rev (take j b))) [Suc (Suc k)..<Suc (length b)]"
    using Suc k by (intro Suc(1)) auto
  have cell: "min (min (dist xs (rev (take (Suc k) b)) + 1) (dist (ca # xs) (rev (take k b)) + 1))
      (dist xs (rev (take k b)) + (if ca \<noteq> b ! k then 1 else 0)) = dist (ca # xs) (rev (take (Suc k) b))"
    using k by (simp add: take_Suc_conv_app_nth)
  show ?case
    using IH unfolding upts(1) drop_k list.map distance_cells.simps Let_def cell unfolding upts(2) list.map by simp
qed

lemma distance_rows_dist:
  "foldl (distance_row b) (map (\<lambda>j. dist (rev a0) (rev (take j b))) [0..<Suc (length b)]) (enumerate (length a0) a) =
     map (\<lambda>j. dist (rev (a0 @ a)) (rev (take j b))) [0..<Suc (length b)]"
proof (induction a arbitrary: a0)
  case (Cons ca a)
  have "[0..<Suc (length b)] = 0 # [Suc 0..<Suc (length b)]" by (simp add: upt_conv_Cons del: upt_Suc)
  then have "distance_row b (map (\<lambda>j. dist (rev a0) (rev (take j b))) [0..<Suc (length b)]) (length a0, ca) =
      map (\<lambda>j. dist (rev (a0 @ [ca])) (rev (take j b))) [0..<Suc (length b)]"
    using distance_cells_dist [of 0 b ca "rev a0"] by (simp add: distance_row_def del: upt_Suc)
  then show ?case using Cons.IH [of "a0 @ [ca]"] by simp
qed simp

lemma levenshtein_ordered_dist: "levenshtein_ordered a b = dist a b"
proof (cases "b = []")
  case False
  have start: "map (\<lambda>j. dist (rev []) (rev (take j b))) [0..<Suc (length b)] = [0..<Suc (length b)]"
    by (rule map_idI) auto
  have "foldl (distance_row b) [0..<Suc (length b)] (enumerate 0 a) = map (\<lambda>j. dist (rev a) (rev (take j b))) [0..<Suc (length b)]"
    using distance_rows_dist [of b "[]" a] unfolding start by simp
  then show ?thesis using False by (simp add: levenshtein_ordered_def dist_rev)
qed (simp add: levenshtein_ordered_def)

text \<open>
  C20: The edit distance that decides whether a file name is a near miss is the least number of insertions,
  deletions and substitutions of single characters that turn one name into the other.
\<close>

theorem levenshtein_least: "levenshtein a b = (LEAST n. (edit_step ^^ n) a b)"
  using dist_least [of a b] dist_sym [of a b] by (simp add: levenshtein_def levenshtein_ordered_dist)

section \<open>Cache and index\<close>

text \<open>What is remembered is what would be read now, and never more than the limit.\<close>

definition coherent :: "disk \<Rightarrow> location_state \<Rightarrow> bool" where
  "coherent d st \<longleftrightarrow>
     list_all (\<lambda>(p, ls). ls = disk_lines d p) (lc_cache st) \<and> length (lc_cache st) \<le> max_cached_files \<and>
     (case lc_index st of None \<Rightarrow> True | Some idx \<Rightarrow> idx = build_file_index d)"

lemma coherent_fresh [simp]: "coherent d fresh_state"
  by (simp add: coherent_def fresh_state_def)

lemma list_all_dict_set:
  "list_all P d \<Longrightarrow> P (k, v) \<Longrightarrow> list_all P (dict_set k v d)"
  by (induction d) (auto simp: dict_set_def)

lemma cached_lines_direct:
  assumes "coherent d st"
  shows "fst (cached_lines d p st) = disk_lines d p \<and> coherent d (snd (cached_lines d p st))"
proof (cases "dict_get (lc_cache st) p")
  case (Some ls)
  then have "(p, ls) \<in> set (lc_cache st)" by (simp add: dict_get_def map_of_SomeD)
  then have "ls = disk_lines d p" using assms by (auto simp: coherent_def list_all_iff)
  then show ?thesis using Some assms by (simp add: cached_lines_def)
next
  case None
  define cache where "cache = (if max_cached_files \<le> length (lc_cache st) then tl (lc_cache st) else lc_cache st)"
  have sub: "set cache \<subseteq> set (lc_cache st)" by (cases "lc_cache st") (auto simp: cache_def)
  moreover have "p \<notin> set (map fst (lc_cache st))" using None by (simp add: dict_get_def map_of_eq_None_iff)
  ultimately have new: "p \<notin> set (map fst cache)" by auto
  have "length cache < max_cached_files"
    using assms by (auto simp: cache_def coherent_def max_cached_files_def)
  then show ?thesis using None assms sub dict_set_new [OF new]
    by (auto simp: cached_lines_def coherent_def Let_def list_all_iff simp flip: cache_def)
qed

lemma with_index_direct:
  "coherent d st \<Longrightarrow> fst (with_index d st) = build_file_index d \<and> coherent d (snd (with_index d st))"
  by (auto simp: with_index_def coherent_def Let_def split: option.splits)

lemma fuzzy_resolve_direct:
  "coherent d st \<Longrightarrow>
   fst (fuzzy_resolve d claimed st) = (if strip claimed = [] then None else resolve_in (build_file_index d) claimed) \<and>
   coherent d (snd (fuzzy_resolve d claimed st))"
  using with_index_direct [of d st] by (auto simp: fuzzy_resolve_def split: prod.splits)

text \<open>The check of a line without the cache.\<close>

definition line_outcome ::
  "wording \<Rightarrow> disk \<Rightarrow> verification_result \<Rightarrow> path \<Rightarrow> pyval \<Rightarrow> string option \<Rightarrow> verification_result" where
  "line_outcome say d r p line name =
     (let fuzzy = (vr_status r = PARTIALLY); found_file = (case vr_file r of None \<Rightarrow> ''None'' | Some f \<Rightarrow> f) in
      case line of
        PNone \<Rightarrow>
          r\<lparr>vr_status := (if fuzzy then vr_status r else VERIFIED),
            vr_confidence := (if fuzzy then rounded (7 / 10) else rounded (9 / 10)), vr_detail := say (File_Exists found_file)\<rparr>
      | PInt n \<Rightarrow>
          (case disk_lines d p of
             None \<Rightarrow> r\<lparr>vr_confidence := 0, vr_detail := say File_Unreadable\<rparr>
           | Some lines \<Rightarrow> check_line say r lines n name)
      | _ \<Rightarrow> r\<lparr>vr_confidence := 0, vr_detail := say (Line_Malformed line)\<rparr>)"

lemma verify_line_direct:
  assumes "coherent d st"
  shows "fst (verify_line say d r p line name st) = line_outcome say d r p line name \<and>
    coherent d (snd (verify_line say d r p line name st))"
proof (cases line)
  case (PInt n)
  show ?thesis
    using cached_lines_direct [OF assms, of p]
    by (auto simp: PInt line_outcome_def verify_line_def Let_def split: prod.splits option.splits)
qed (use assms in \<open>auto simp: line_outcome_def verify_line_def Let_def\<close>)

definition path_outcome ::
  "wording \<Rightarrow> disk \<Rightarrow> string \<Rightarrow> pyval \<Rightarrow> string option \<Rightarrow> verification_result" where
  "path_outcome say d f line name =
     (let r = claim_result f line;
          missing = (\<lambda>x. x\<lparr>vr_status := HALLUCINATED, vr_confidence := 0, vr_detail := say (File_Missing f)\<rparr>)
      in case resolve_project_file (dk_files d) (dk_root d) f of
           Some p \<Rightarrow> line_outcome say d (r\<lparr>vr_file := Some (project_relative d p)\<rparr>) p line name
         | None \<Rightarrow>
             (case if strip f = [] then None else resolve_in (build_file_index d) f of
                None \<Rightarrow> missing r
              | Some q \<Rightarrow>
                  (if q = [] then missing r
                   else (let r1 = r\<lparr>vr_file := Some q, vr_status := PARTIALLY, vr_detail := say (Path_Corrected f q)\<rparr>
                         in case resolve_project_file (dk_files d) (dk_root d) q of
                              Some p \<Rightarrow> line_outcome say d r1 p line name
                            | None \<Rightarrow> missing r1))))"

lemma verify_path_direct:
  assumes "coherent d st"
  shows "fst (verify_path say d f line name st) = path_outcome say d f line name \<and>
    coherent d (snd (verify_path say d f line name st))"
proof -
  obtain q st1 where q: "fuzzy_resolve d f st = (q, st1)" by fastforce
  then have q1: "q = (if strip f = [] then None else resolve_in (build_file_index d) f)" "coherent d st1"
    using fuzzy_resolve_direct [OF assms, of f] by simp_all
  show ?thesis
    using verify_line_direct [OF assms] verify_line_direct [OF q1(2)]
    unfolding verify_path_def path_outcome_def q q1(1) [symmetric] Let_def
    by (auto split: option.splits) (use assms q1(2) in auto)
qed

definition location_outcome :: "wording \<Rightarrow> disk \<Rightarrow> attributes \<Rightarrow> verification_result checked" where
  "location_outcome say d c =
     bind (line_claimed (dict_get_or PNone c ''line'')) (\<lambda>n.
     Inr (path_outcome say d (text_or [] (dict_get_or (PStr []) c ''file_path'')) n
       (case dict_get_or PNone c ''function_name'' of PStr s \<Rightarrow> Some s | _ \<Rightarrow> None)))"

lemma verify_multiple_direct:
  "coherent d st \<Longrightarrow>
   (case verify_multiple say d cs st of
      Inl e \<Rightarrow> traverse (location_outcome say d) cs = Inl e
    | Inr (rs, st') \<Rightarrow> traverse (location_outcome say d) cs = Inr rs \<and> coherent d st')"
proof (induction cs arbitrary: st)
  case (Cons c cs)
  show ?case
  proof (cases "line_claimed (dict_get_or PNone c ''line'')")
    case (Inr n)
    let ?v = "verify_path say d (text_or [] (dict_get_or (PStr []) c ''file_path'')) n
      (case dict_get_or PNone c ''function_name'' of PStr s \<Rightarrow> Some s | _ \<Rightarrow> None) st"
    obtain r st1 where v: "?v = (r, st1)" by fastforce
    with verify_path_direct [OF Cons.prems] have r: "coherent d st1" "location_outcome say d c = Inr r"
      by (metis fst_conv snd_conv, simp add: location_outcome_def Inr) (metis fst_conv)
    show ?thesis using Cons.IH [OF r(1)]
      by (simp add: verify_location_def Inr v r(2) split: sum.splits prod.splits)
  qed (simp add: verify_location_def location_outcome_def)
qed simp

text \<open>
  C21: The file cache and the index never show: whatever was verified before, a sequence of claims has
  the results of a verifier without memory that reads the disk anew for each claim, and the cache stays
  within its limit and holds what is on disk.
\<close>

theorem verifier_memory_transparent:
  "case verify_multiple say d cs fresh_state of
     Inl e \<Rightarrow> traverse (location_outcome say d) cs = Inl e
   | Inr (rs, st) \<Rightarrow> traverse (location_outcome say d) cs = Inr rs \<and> coherent d st"
  by (rule verify_multiple_direct) simp

section \<open>What a result says\<close>

lemma truncate_bounded: "length (truncate_evidence s) \<le> max_evidence_chars"
  by (simp add: truncate_evidence_def max_evidence_chars_def truncation_marker_def)

definition found_function :: "string list \<Rightarrow> int \<Rightarrow> string option \<Rightarrow> verification_result \<Rightarrow> bool" where
  "found_function lines n name r =
     (case name of
        Some (c # cs) \<Rightarrow>
          (\<exists>i g. nat n - 30 \<le> i \<and> i < nat n \<and> defined_here (c # cs) (lines ! i) = Some g \<and> vr_function r = Some g \<and>
             lower g = lower (c # cs))
      | _ \<Rightarrow> True)"

definition line_confirmed ::
  "disk \<Rightarrow> path \<Rightarrow> pyval \<Rightarrow> string option \<Rightarrow> verification_result \<Rightarrow> bool" where
  "line_confirmed d p line name r =
     (case line of
        PNone \<Rightarrow> True
      | PInt n \<Rightarrow>
          (\<exists>lines. disk_lines d p = Some lines \<and> 1 \<le> n \<and> n \<le> int (length lines) \<and>
             vr_content r = Some (line_context lines (nat n)) \<and> length (line_context lines (nat n)) \<le> max_evidence_chars \<and>
             found_function lines n name r)
      | _ \<Rightarrow> False)"

lemma map_filter_first:
  "List.map_filter f xs = y # ys \<Longrightarrow> \<exists>x \<in> set xs. f x = Some y"
  by (induction xs) (auto simp: List.map_filter_simps split: option.splits)

lemma find_function_defined:
  assumes "find_function_at lines line expected = Some g"
  shows "\<exists>i. line - 30 \<le> i \<and> i < line \<and> defined_here expected (lines ! i) = Some g \<and> lower g = lower expected"
proof -
  obtain gs where "List.map_filter (\<lambda>i. defined_here expected (lines ! i)) (rev [line - 30..<line]) = g # gs"
    using assms by (auto simp: find_function_at_def split: list.splits)
  from map_filter_first [OF this] obtain i where i: "line - 30 \<le> i" "i < line" "defined_here expected (lines ! i) = Some g"
    by auto
  moreover have "lower g = lower expected"
    using i(3) by (auto simp: defined_here_def filter_eq_Cons_iff split: list.splits)
  ultimately show ?thesis by blast
qed

lemma line_outcome_keeps: "vr_file (line_outcome say d r p line name) = vr_file r"
  by (auto simp: line_outcome_def check_line_def Let_def split: pyval.splits option.splits list.splits)

lemma line_outcome_partial:
  "vr_status r = PARTIALLY \<Longrightarrow> vr_status (line_outcome say d r p line name) = PARTIALLY"
  by (auto simp: line_outcome_def check_line_def Let_def split: pyval.splits option.splits list.splits)

lemma check_line_confirmed:
  assumes "vr_status r = UNVERIFIABLE" "vr_status (check_line say r lines n name) = VERIFIED"
  shows "1 \<le> n \<and> n \<le> int (length lines) \<and>
    vr_content (check_line say r lines n name) = Some (line_context lines (nat n)) \<and>
    found_function lines n name (check_line say r lines n name)"
proof -
  have range: "1 \<le> n \<and> n \<le> int (length lines)"
    using assms by (auto simp: check_line_def Let_def split: if_splits)
  show ?thesis
  proof (cases "\<exists>c cs. name = Some (c # cs)")
    case True
    then obtain c cs where name: "name = Some (c # cs)" by blast
    then obtain g where g: "find_function_at lines (nat n) (c # cs) = Some g"
      using assms range by (cases "find_function_at lines (nat n) (c # cs)") (auto simp: check_line_def Let_def)
    with find_function_defined [OF g] show ?thesis
      using range assms(1) name by (simp add: check_line_def found_function_def Let_def)
  next
    case False
    then show ?thesis using range assms(1)
      by (auto simp: check_line_def found_function_def Let_def split: option.splits list.splits)
  qed
qed

lemma line_outcome_status:
  assumes "vr_status r = UNVERIFIABLE"
  shows "vr_status (line_outcome say d r p line name) = UNVERIFIABLE \<or>
    (vr_status (line_outcome say d r p line name) = VERIFIED \<and> line_confirmed d p line name (line_outcome say d r p line name))"
proof (cases line)
  case (PInt n)
  show ?thesis
  proof (cases "disk_lines d p")
    case (Some lines)
    have "vr_status (check_line say r lines n name) \<in> {UNVERIFIABLE, VERIFIED}"
      using assms by (auto simp: check_line_def Let_def split: option.splits list.splits)
    then show ?thesis
      using check_line_confirmed [OF assms, of say lines n name] Some PInt truncate_bounded
      by (auto simp: line_outcome_def line_confirmed_def line_context_def)
  qed (use PInt assms in \<open>simp add: line_outcome_def\<close>)
qed (use assms in \<open>auto simp: line_outcome_def line_confirmed_def Let_def\<close>)

text \<open>The index holds the files of the walk.\<close>

lemma index_files:
  "\<Union> (set ` snd ` set (build_file_index d)) \<subseteq> project_relative d ` set (indexed_files d)"
proof -
  have append: "\<Union> (set ` snd ` set (dict_append k v idx)) \<subseteq> insert v (\<Union> (set ` snd ` set idx))"
    for k v and idx :: file_index
  proof -
    have "set (dict_get_or [] idx k) \<subseteq> \<Union> (set ` snd ` set idx)" using dict_get_or_in [of _ idx k] by force
    moreover have "set (dict_set k w idx) \<subseteq> insert (k, w) (set idx)" for w
      by (induction idx) (auto simp: dict_set_def)
    ultimately show ?thesis unfolding dict_append_def by fastforce
  qed
  have "\<Union> (set ` snd ` set (foldl (\<lambda>idx p. dict_append (lower (last p)) (project_relative d p) idx) idx ps))
      \<subseteq> project_relative d ` set ps \<union> \<Union> (set ` snd ` set idx)" for idx ps
  proof (induction ps arbitrary: idx)
    case (Cons p ps)
    show ?case using Cons.IH [of "dict_append (lower (last p)) (project_relative d p) idx"]
      append [of "lower (last p)" "project_relative d p" idx] by auto
  qed simp
  from this [of "[]"] show ?thesis by (simp add: build_file_index_def)
qed

lemma resolve_in_index:
  assumes "resolve_in idx claimed = Some q"
  shows "q \<in> \<Union> (set ` snd ` set idx)"
proof -
  let ?exact = "dict_get_or [] idx (lower (path_name claimed))"
  have exact: "set ?exact \<subseteq> \<Union> (set ` snd ` set idx)"
    using dict_get_or_in [of _ idx "lower (path_name claimed)"] by force
  have near: "x \<in> set (near_paths claimed idx) \<Longrightarrow> fst x \<in> \<Union> (set ` snd ` set idx)" for x
    by (force simp: near_paths_def)
  consider "?exact = []" | p where "?exact = [p]" | p p' ps where "?exact = p # p' # ps" by (metis list.exhaust)
  then show ?thesis
  proof cases
    case 1
    then obtain x xs where x: "sort_key (\<lambda>x. - snd x) (near_paths claimed idx) = x # xs" "q = fst x"
      using assms by (auto simp: resolve_in_def split: list.splits)
    then have "x \<in> set (near_paths claimed idx)" by (metis list.set_intros(1) set_sort)
    then show ?thesis using near x by blast
  next
    case 2
    then show ?thesis using assms exact by (auto simp: resolve_in_def)
  next
    case 3
    let ?ranked = "ranked_paths claimed ?exact"
    have q: "q = snd (last ?ranked)" using assms 3 by (auto simp: resolve_in_def Let_def split: if_splits)
    have set: "snd ` set ?ranked = set ?exact" by (simp add: ranked_paths_def image_image)
    then have "?ranked \<noteq> []" using 3 by auto
    then show ?thesis using q set exact by (metis image_eqI last_in_set subsetD)
  qed
qed

definition located :: "disk \<Rightarrow> string \<Rightarrow> path option" where
  "located d f = resolve_project_file (dk_files d) (dk_root d) f"

text \<open>
  C15: Whatever a model claims, a confirmed claim names a regular file of the project as it stands; a
  confirmed line exists in it, the evidence is the text around that line within its limit, and a confirmed
  function is defined under that name at most thirty lines above. A claim that is partly confirmed names no
  file, and the path put in its place is that of a file the walk of the project found; a refuted claim
  names no file.
\<close>

theorem location_grounded:
  "case verify_location say d claimed line name fresh_state of
     Inl e \<Rightarrow> True
   | Inr (r, st) \<Rightarrow>
       (case vr_status r of
          VERIFIED \<Rightarrow>
            (\<exists>p n. located d (text_or [] claimed) = Some p \<and> vr_file r = Some (project_relative d p) \<and> line_claimed line = Inr n \<and>
               line_confirmed d p n (case name of PStr s \<Rightarrow> Some s | _ \<Rightarrow> None) r)
        | PARTIALLY \<Rightarrow>
            located d (text_or [] claimed) = None \<and>
            (\<exists>p. p \<in> set (indexed_files d) \<and> vr_file r = Some (project_relative d p) \<and> located d (project_relative d p) \<noteq> None)
        | HALLUCINATED \<Rightarrow> located d (text_or [] claimed) = None
        | UNVERIFIABLE \<Rightarrow> located d (text_or [] claimed) \<noteq> None)"
proof (cases "line_claimed line")
  case (Inr n)
  let ?f = "text_or [] claimed" let ?name = "case name of PStr s \<Rightarrow> Some s | _ \<Rightarrow> None"
  obtain r st where v: "verify_path say d ?f n ?name fresh_state = (r, st)" by fastforce
  have r: "r = path_outcome say d ?f n ?name" using verify_path_direct [OF coherent_fresh, of say d ?f n ?name] v by simp
  have start: "vr_status (claim_result ?f n) = UNVERIFIABLE" by (simp add: claim_result_def make_result_def)
  show ?thesis
  proof (cases "located d ?f")
    case (Some p)
    let ?r = "(claim_result ?f n)\<lparr>vr_file := Some (project_relative d p)\<rparr>"
    have r2: "r = line_outcome say d ?r p n ?name" using Some r by (simp add: path_outcome_def located_def Let_def)
    have "vr_file r = Some (project_relative d p)" unfolding r2 line_outcome_keeps by simp
    moreover have "vr_status r = UNVERIFIABLE \<or> (vr_status r = VERIFIED \<and> line_confirmed d p n ?name r)"
      unfolding r2 using start by (intro line_outcome_status) simp
    ultimately show ?thesis using Some v Inr by (auto simp: verify_location_def)
  next
    case None
    show ?thesis
    proof (cases "vr_status r = HALLUCINATED")
      case True
      then show ?thesis using None v Inr by (simp add: verify_location_def)
    next
      case False
      then obtain q p where q: "resolve_in (build_file_index d) ?f = Some q" "located d q = Some p"
        and r2: "r = line_outcome say d ((claim_result ?f n)\<lparr>vr_file := Some q, vr_status := PARTIALLY,
          vr_detail := say (Path_Corrected ?f q)\<rparr>) p n ?name"
        using None r by (auto simp: path_outcome_def located_def Let_def split: option.splits if_splits)
      have "vr_status r = PARTIALLY" "vr_file r = Some q"
        unfolding r2 line_outcome_keeps by (simp_all add: line_outcome_partial)
      moreover obtain p' where "p' \<in> set (indexed_files d)" "q = project_relative d p'"
        using resolve_in_index [OF q(1)] index_files by blast
      ultimately show ?thesis using None q(2) v Inr by (auto simp: verify_location_def)
    qed
  qed
qed (simp add: verify_location_def)

text \<open>A superscript as the line is taken for a number and raises.\<close>

theorem superscript_line_raises:
  "verify_location say d (PStr ''a.py'') (PStr [char_of (178::nat)]) PNone st =
     Inl (ValueError ''invalid literal for int() with base 10'')"
proof -
  have "line_claimed (PStr [char_of (178::nat)]) = Inl (ValueError ''invalid literal for int() with base 10'')" by code_simp
  then show ?thesis by (simp add: verify_location_def)
qed

text \<open>
  The score of a near miss is not above the threshold, so a mistyped name of a file at the top of the
  project is not resolved.
\<close>

theorem typo_not_resolved:
  "resolve_in [(''main.py'', [''main.py''])] ''mian.py'' = None"
proof -
  have parts: "lower (path_stem ''main.py'') = ''main''" "lower (path_stem ''mian.py'') = ''mian''"
    "overlap (pure_parts ''mian.py'') (pure_parts ''main.py'') = 0" "contains_sub ''mian'' ''main'' = False"
    "contains_sub ''main'' ''mian'' = False" "lower (path_name ''mian.py'') = ''mian.py''" by code_simp+
  have "dist ''main'' ''mian'' \<le> 3" by simp
  then have "levenshtein ''main'' ''mian'' \<le> 3" by (simp add: levenshtein_def levenshtein_ordered_dist)
  then have "stem_score ''mian.py'' ''main.py'' = rounded (3 / 10)"
    by (simp add: stem_score_def parts Let_def del: contains_sub.simps)
  moreover have "rounded (rounded (3 / 10)) = rounded (3 / 10)" by (rule rounded_idem) auto
  ultimately have "path_score ''mian.py'' ''main.py'' ''main.py'' = rounded (3 / 10)" by (simp add: path_score_def parts)
  then show ?thesis by (simp add: resolve_in_def near_paths_def parts dict_get_or_def)
qed

end
