(* ===== verification/VerifierSound.thy ===== *)
theory VerifierSound
  imports Verdicts LocationSound
begin

text \<open>
  What the verifier guarantees the debate: it never fails and annotates every proposal, and a proposal it
  calls verified has a claim that the disk, the graph or the type evidence confirms.
\<close>

section \<open>Annotations\<close>

definition annotation_ok :: "attributes \<Rightarrow> bool" where
  "annotation_ok d \<longleftrightarrow>
     (\<exists>q t s. dict_get d ''verification_score'' = Some (PFloat q t) \<and> 0 \<le> q \<and> q \<le> 1 \<and>
        dict_get d ''verdict'' = Some (PStr s) \<and> s \<in> set valid_verdicts) \<and>
     dict_get d ''breakdown'' \<noteq> None"

definition annotated_by :: "attributes \<Rightarrow> attributes \<Rightarrow> bool" where
  "annotated_by p q \<longleftrightarrow> (\<exists>d. q = dict_set ''__verification'' (PDict d) p \<and> annotation_ok d)"

lemma clamp_unit_bounds: "0 \<le> clamp_unit q" "clamp_unit q \<le> 1"
  by (simp_all add: clamp_unit_def)

lemma read_verdict_valid: "read_verdict d \<in> set valid_verdicts"
  by (auto simp: read_verdict_def valid_verdicts_def split: pyval.splits)

lemma dict_get_foldl_other:
  "k \<notin> set ks \<Longrightarrow> dict_get (foldl (\<lambda>d key. dict_set key (f d key) d) d ks) k = dict_get d k"
  by (induction ks arbitrary: d) auto

lemma normalize_float:
  assumes "dict_get raw ''verification_score'' = Some (PFloat q t)"
  shows "\<exists>d. normalize_annotation say raw = Inr d \<and> annotation_ok d"
proof -
  have "coerce_score (dict_get_or PNone raw ''verification_score'') = Inr (clamp_unit q, True)"
    using assms by (simp add: dict_get_or_get coerce_score_def)
  then show ?thesis
    using clamp_unit_bounds [of q] read_verdict_valid [of raw]
    by (auto simp: normalize_annotation_def Let_def annotation_ok_def dict_get_foldl_other location_keys_def float_of_rat_def
        float_value_def)
qed

lemma score_proposal_float: "\<exists>q t. dict_get (score_proposal say rs) ''verification_score'' = Some (PFloat q t)"
  by (cases "rs = []") (auto simp: score_proposal_def Let_def dict_get_def float_value_def intro: exI [of _ "1 / 2"])

lemma dict_set_twice [simp]: "dict_set k v (dict_set k w d) = dict_set k v d"
  by (induction d) (auto simp: dict_set_def)

lemma score_checked:
  "\<exists>d. score_one say (PDict (dict_set ''__verification'' (PDict (score_proposal say rs)) p)) =
     Inr (PDict (dict_set ''__verification'' (PDict d) p)) \<and> normalize_annotation say (score_proposal say rs) = Inr d \<and> annotation_ok d"
proof -
  obtain q t where "dict_get (score_proposal say rs) ''verification_score'' = Some (PFloat q t)"
    using score_proposal_float by blast
  from normalize_float [OF this] obtain d where "normalize_annotation say (score_proposal say rs) = Inr d" "annotation_ok d" by blast
  moreover obtain x xs where "score_proposal say rs = x # xs"
    by (cases "rs = []") (auto simp: score_proposal_def Let_def)
  ultimately show ?thesis by (auto simp: score_one_def)
qed

lemma cross_check_annotates:
  "\<exists>qs. score_proposals say (fst (cross_check say k (map PDict ps) st)) = Inr (map PDict qs) \<and> list_all2 annotated_by ps qs"
proof (induction ps arbitrary: st)
  case (Cons p ps)
  obtain rs st1 where rs: "verify_claims say k (extract_claims p) st = (rs, st1)" by fastforce
  obtain ws st2 where ws: "cross_check say k (map PDict ps) st1 = (ws, st2)" by fastforce
  obtain qs where qs: "score_proposals say ws = Inr (map PDict qs)" "list_all2 annotated_by ps qs" using Cons.IH [of st1] ws by auto
  obtain d where d: "score_one say (PDict (dict_set ''__verification'' (PDict (score_proposal say rs)) p)) =
      Inr (PDict (dict_set ''__verification'' (PDict d) p))" "annotation_ok d" using score_checked by blast
  have "annotated_by p (dict_set ''__verification'' (PDict d) p)" using d(2) by (auto simp: annotated_by_def)
  then show ?case
    by (intro exI [of _ "dict_set ''__verification'' (PDict d) p # qs"])
      (use rs ws qs d in \<open>auto simp: score_proposals_def\<close>)
qed (simp add: score_proposals_def)

lemma dicts_in_dicts [simp]: "dicts_in (map PDict ps) = ps"
  by (induction ps) (simp_all add: dicts_in_def List.map_filter_simps)

lemma score_of_annotated: "annotated_by p q \<Longrightarrow> \<exists>s. score_of q = Inr s \<and> 0 \<le> s \<and> s \<le> 1"
  using clamp_unit_bounds
  by (fastforce simp: annotated_by_def annotation_ok_def score_of_def annotation_of_def dict_get_or_get coerce_score_def)

lemma split_annotated:
  "list_all2 annotated_by ps qs \<Longrightarrow>
   \<exists>acc'. fold_checked (split_flagged t) acc (map PDict qs) = Inr acc' \<and>
     (set (snd acc') \<subseteq> set (snd acc) \<union> set (map PDict qs))"
proof (induction arbitrary: acc rule: list_all2_induct)
  case (Cons p ps q qs)
  obtain s where s: "score_of q = Inr s" using score_of_annotated [OF Cons(1)] by blast
  then obtain acc1 where acc1: "split_flagged t acc (PDict q) = Inr acc1" "set (snd acc1) \<subseteq> insert (PDict q) (set (snd acc))"
    by (cases "s < t") (auto simp: split_flagged_def)
  obtain acc' where acc': "fold_checked (split_flagged t) acc1 (map PDict qs) = Inr acc'"
    "set (snd acc') \<subseteq> set (snd acc1) \<union> set (map PDict qs)" using Cons.IH by blast
  then show ?case using acc1 by auto
qed auto

lemma traverse_returns: "(\<And>x. x \<in> set xs \<Longrightarrow> \<exists>y. f x = Inr y) \<Longrightarrow> \<exists>ys. traverse f xs = Inr ys"
  by (induction xs) (simp, fastforce)

lemma summary_annotated:
  assumes "list_all2 annotated_by ps qs"
  shows "\<exists>s. build_summary say (map PDict qs) = Inr s"
proof -
  obtain t b where t: "coerce_score (float_of_rat default_flag_threshold) = Inr (t, b)"
    by (auto simp: coerce_score_def float_of_rat_def float_value_def)
  obtain acc where acc: "fold_checked (split_flagged (if b then t else default_flag_threshold)) ([], []) (map PDict qs) = Inr acc"
    "set (snd acc) \<subseteq> set (map PDict qs)"
    using split_annotated [OF assms, of "if b then t else default_flag_threshold" "([], [])"] by auto
  have "\<exists>c. clean_text say v = Inr c" if "v \<in> set (snd acc)" for v
  proof -
    obtain q where q: "v = PDict q" "q \<in> set qs" using \<open>v \<in> set (snd acc)\<close> acc(2) by auto
    then obtain p where "annotated_by p q" using assms by (metis in_set_conv_nth list_all2_conv_all_nth)
    then show ?thesis using score_of_annotated q(1) by (fastforce simp: clean_text_def)
  qed
  then have "\<exists>cs. traverse (clean_text say) (snd acc) = Inr cs" by (intro traverse_returns) blast
  then show ?thesis using t acc(1)
    by (cases acc) (auto simp: build_summary_def flag_hallucinations_def hallucination_summary_def)
qed

section \<open>Claims\<close>

text \<open>What it means that a claim is confirmed.\<close>

definition chain_grounded :: "code_graph \<Rightarrow> string list \<Rightarrow> bool" where
  "chain_grounded g chain \<longleftrightarrow> 2 \<le> length chain \<and> list_all (edge_exists g) (zip chain (tl chain))"

definition location_on_disk :: "disk \<Rightarrow> string \<Rightarrow> bool" where
  "location_on_disk d target =
     (case parse_location target of (f, line) \<Rightarrow>
        (case located d f of
           None \<Rightarrow> False
         | Some p \<Rightarrow>
             (case line of
                None \<Rightarrow> True
              | Some n \<Rightarrow> (case disk_lines d p of None \<Rightarrow> False | Some lines \<Rightarrow> 1 \<le> n \<and> n \<le> int (length lines)))))"

definition close_supported :: "checker \<Rightarrow> attributes \<Rightarrow> bool" where
  "close_supported k c =
     (case preferred_evidence (fst (binding_evidence k (claim_target c))) of
        [] \<Rightarrow> False
      | e # _ \<Rightarrow> has_close e = py_truth (dict_get_or (PBool True) c ''expects_close''))"

definition claim_grounded :: "checker \<Rightarrow> attributes \<Rightarrow> bool" where
  "claim_grounded k c =
     (let kind = dict_get_or (PStr []) c ''type'' in
      if kind = PStr ''file_location'' then location_on_disk (ck_disk k) (claim_target c)
      else if kind = PStr ''call_chain'' then chain_grounded (ck_graph k) (map strip (split_sub ''->'' (claim_target c)))
      else if kind = PStr ''code_pattern'' then
        list_ex (\<lambda>n. contains_sub (lower (claim_target c)) (lower (cn_name n))) (dict_values (cg_nodes (ck_graph k)))
      else if kind = PStr ''resource_type'' then close_supported k c
      else False)"

text \<open>A quotient of counts rounds to one only when it is one.\<close>

lemma rounded_below_one:
  assumes "0 \<le> x" "x \<le> 1 - 1 / 2 ^ 53"
  shows "rounded x < 1"
proof -
  let ?b = "1 - 1 / 2 ^ 53 :: rat"
  have e: "leading_exponent ?b = - 1"
    by (rule leading_exponent_unique) (simp_all add: power_two_def)
  have "power_two (- 53) = 1 / 2 ^ 53" using power_two_minus [of 53] by simp
  then have unit: "rounding_unit ?b = 1 / 2 ^ 53" using e by (simp add: rounding_unit_def)
  have "round_magnitude ?b = ?b"
    by (rule round_magnitude_multiple [of _ "2 ^ 53 - 1"]) (unfold unit, simp)
  then have "rounded ?b = ?b" by (simp add: rounded_def to_double_def max_double_bound_def)
  moreover have "rounded x \<le> rounded ?b" using assms by (intro rounded_mono) (auto simp: max_double_bound_def)
  ultimately show ?thesis by simp
qed

lemma quotient_one:
  assumes "a \<le> b" "0 < b" "b \<le> 2 ^ 53" "1 \<le> rounded (of_nat a / of_nat b)"
  shows "a = b"
proof (rule ccontr)
  assume "a \<noteq> b"
  then have "a + 1 \<le> b" using assms(1) by simp
  then have "of_nat a + 1 \<le> (of_nat b :: rat)" by (metis of_nat_1 of_nat_add of_nat_le_iff)
  moreover have "of_nat b \<le> (2 ^ 53 :: rat)" using assms(3) by (metis of_nat_le_numeral_power_cancel_iff)
  moreover have pos: "0 < (of_nat b :: rat)" using assms(2) by simp
  ultimately have "of_nat a / of_nat b \<le> (of_nat b - 1) / (of_nat b :: rat)" "1 / 2 ^ 53 \<le> 1 / (of_nat b :: rat)"
    by (auto intro: divide_right_mono divide_left_mono)
  moreover have "(of_nat b - 1) / (of_nat b :: rat) = 1 - 1 / of_nat b" using pos by (simp add: diff_divide_distrib)
  ultimately have "of_nat a / of_nat b \<le> 1 - 1 / (2 ^ 53 :: rat)" by linarith
  then have "rounded (of_nat a / of_nat b) < 1" by (intro rounded_below_one) auto
  then show False using assms(4) by simp
qed

lemma filter_length_all: "length (filter P xs) = length xs \<Longrightarrow> list_all P xs"
  using length_filter_less [of _ xs P] unfolding list_all_iff by (metis less_irrefl)

lemma chain_accuracy_one:
  assumes "1 \<le> ch_accuracy (verify_call_chain (Some g) chain)" "length chain \<le> 2 ^ 53"
  shows "chain_grounded g chain"
proof -
  let ?edges = "zip chain (tl chain)"
  have len: "2 \<le> length chain" using assms(1) by (auto simp: verify_call_chain_def split: if_splits)
  then have ne: "0 < length ?edges" "length ?edges \<le> 2 ^ 53" using assms(2) by auto
  have "1 \<le> rounded (of_nat (length (filter (edge_exists g) ?edges)) / of_nat (length ?edges))"
    using assms(1) len ne(1) by (auto simp: verify_call_chain_def Let_def split: if_splits)
  from quotient_one [OF length_filter_le ne this] have "length (filter (edge_exists g) ?edges) = length ?edges" by simp
  from filter_length_all [OF this] show ?thesis using len by (simp add: chain_grounded_def)
qed

lemma verify_path_status:
  assumes "coherent d st" "fst (verify_path say d f line name st) = r" "vr_status r = VERIFIED"
  shows "\<exists>p. located d f = Some p \<and> line_confirmed d p line name r"
proof -
  have r: "r = path_outcome say d f line name" using verify_path_direct [OF assms(1)] assms(2) by metis
  have start: "vr_status (claim_result f line) = UNVERIFIABLE" by (simp add: claim_result_def make_result_def)
  show ?thesis
  proof (cases "located d f")
    case (Some p)
    then have "r = line_outcome say d ((claim_result f line)\<lparr>vr_file := Some (project_relative d p)\<rparr>) p line name"
      using r by (simp add: path_outcome_def located_def Let_def)
    then show ?thesis
      using line_outcome_status [of "(claim_result f line)\<lparr>vr_file := Some (project_relative d p)\<rparr>" say d p line name]
        start assms(3) Some by auto
  next
    case None
    then show ?thesis using r assms(3) line_outcome_partial
      by (auto simp: path_outcome_def located_def Let_def split: option.splits if_splits)
  qed
qed

lemma location_claim_status:
  assumes "coherent (ck_disk k) st" "vr_status (fst (verify_location_claim say k c st)) = VERIFIED"
  shows "location_on_disk (ck_disk k) (claim_target c)"
proof -
  obtain f line where fl: "parse_location (claim_target c) = (f, line)" by fastforce
  obtain r st1 where r: "verify_path say (ck_disk k) f (opt_value PInt line) None st = (r, st1)" by fastforce
  have "vr_status r = VERIFIED"
    using assms(2) fl r by (auto simp: verify_location_claim_def Let_def split: if_splits list.splits)
  from verify_path_status [OF assms(1) _ this] r obtain p where
    "located (ck_disk k) f = Some p" "line_confirmed (ck_disk k) p (opt_value PInt line) None r" by (metis fst_conv)
  then show ?thesis
    using fl by (auto simp: location_on_disk_def line_confirmed_def opt_value_def split: option.splits)
qed

definition short_claim :: "attributes \<Rightarrow> bool" where
  "short_claim c \<longleftrightarrow> length (split_sub ''->'' (claim_target c)) \<le> 2 ^ 53"

lemma verify_claim_grounded:
  assumes "coherent (ck_disk k) st" "short_claim c" "vr_status (fst (verify_claim say k c st)) = VERIFIED"
  shows "claim_grounded k c"
proof -
  have chain: "chain_grounded (ck_graph k) (map strip (split_sub ''->'' (claim_target c)))"
    if "vr_status (verify_call_claim say k c) = VERIFIED"
    using that assms(2) by (intro chain_accuracy_one) (auto simp: verify_call_claim_def Let_def make_result_def short_claim_def split: if_splits)
  have pattern: "\<exists>n \<in> set (dict_values (cg_nodes (ck_graph k))). contains_sub (lower (claim_target c)) (lower (cn_name n))"
    if verified: "vr_status (verify_pattern_claim say k c) = VERIFIED"
  proof -
    obtain n ns where "find_by_name (ck_graph k) (claim_target c) None = n # ns"
      using verified by (cases "find_by_name (ck_graph k) (claim_target c) None")
        (auto simp: verify_pattern_claim_def Let_def make_result_def split: list.splits)
    then have "n \<in> set (find_by_name (ck_graph k) (claim_target c) None)" by simp
    then show ?thesis by (auto simp: find_by_name_def)
  qed
  have close: "close_supported k c" if "vr_status (verify_type_claim say k c) = VERIFIED"
    using that by (auto simp: verify_type_claim_def close_supported_def Let_def make_result_def split: if_splits list.splits prod.splits)
  show ?thesis
    using assms(3) chain pattern close location_claim_status [OF assms(1)]
    by (auto simp: verify_claim_def claim_grounded_def Let_def list_ex_iff make_result_def split: if_splits)
qed

section \<open>The verdict on a proposal\<close>

lemma rounded_unit: "0 \<le> x \<Longrightarrow> x \<le> 1 \<Longrightarrow> 0 \<le> rounded x \<and> rounded x \<le> 1"
  using rounded_mono [of x "of_nat 4 / 4"] rounded_quarters [of 4] rounded_nonneg [of x] by (simp add: max_double_bound_def)

lemma rounded_three_quarters: "0 \<le> x \<Longrightarrow> x \<le> 3 / 4 \<Longrightarrow> 0 \<le> rounded x \<and> rounded x \<le> 3 / 4"
  using rounded_mono [of x "of_nat 3 / 4"] rounded_quarters [of 3] rounded_nonneg [of x] by (simp add: max_double_bound_def)

definition unit_confidence :: "verification_result \<Rightarrow> bool" where
  "unit_confidence r \<longleftrightarrow> 0 \<le> vr_confidence r \<and> vr_confidence r \<le> 1"

definition search_in_bounds :: "checker \<Rightarrow> bool" where
  "search_in_bounds k \<longleftrightarrow> (\<forall>q. list_all (\<lambda>m. 0 \<le> sm_score m \<and> sm_score m \<le> 1) (search_matches k q))"

lemma line_outcome_unit: "unit_confidence (line_outcome say d r p line name)"
  using rounded_unit
  by (auto simp: unit_confidence_def line_outcome_def check_line_def Let_def split: pyval.splits option.splits list.splits)

lemma path_outcome_unit: "unit_confidence (path_outcome say d f line name)"
  using line_outcome_unit by (auto simp: path_outcome_def Let_def unit_confidence_def split: option.splits)

lemma location_claim_unit:
  assumes "coherent (ck_disk k) st"
  shows "unit_confidence (fst (verify_location_claim say k c st)) \<and> coherent (ck_disk k) (snd (verify_location_claim say k c st))"
proof -
  obtain f line where fl: "parse_location (claim_target c) = (f, line)" by fastforce
  obtain r st1 where r: "verify_path say (ck_disk k) f (opt_value PInt line) None st = (r, st1)" by fastforce
  with verify_path_direct [OF assms, of say f "opt_value PInt line" None] path_outcome_unit
  have "unit_confidence r" "coherent (ck_disk k) st1" by (metis fst_conv, metis snd_conv)
  then show ?thesis using fl r by (auto simp: verify_location_claim_def Let_def unit_confidence_def split: list.splits)
qed

lemma accuracy_unit: "0 \<le> ch_accuracy (verify_call_chain g chain) \<and> ch_accuracy (verify_call_chain g chain) \<le> 1"
proof -
  have "0 \<le> rounded (of_nat (length (filter P xs)) / of_nat (length xs)) \<and> rounded (of_nat (length (filter P xs)) / of_nat (length xs)) \<le> 1"
    for P and xs :: "(string \<times> string) list"
    by (rule rounded_unit) (auto simp: divide_le_eq_1)
  then show ?thesis by (auto simp: verify_call_chain_def Let_def simp del: length_zip split: option.splits)
qed

lemma verify_claim_unit:
  assumes "coherent (ck_disk k) st" "search_in_bounds k"
  shows "unit_confidence (fst (verify_claim say k c st)) \<and> coherent (ck_disk k) (snd (verify_claim say k c st))"
proof -
  have "unit_confidence (verify_call_claim say k c)"
    using accuracy_unit by (auto simp: unit_confidence_def verify_call_claim_def Let_def make_result_def)
  moreover have "unit_confidence (verify_type_claim say k c)"
    using rounded_unit by (auto simp: unit_confidence_def verify_type_claim_def Let_def make_result_def split: list.splits prod.splits)
  moreover have "unit_confidence (verify_pattern_claim say k c)"
  proof -
    have "search_matches k q = m # ms \<Longrightarrow> 0 \<le> sm_score m \<and> sm_score m \<le> 1" for m ms q
      using assms(2) unfolding search_in_bounds_def by (metis list.set_intros(1) list_all_iff)
    then show ?thesis using rounded_unit
      by (auto simp: unit_confidence_def verify_pattern_claim_def Let_def make_result_def split: list.splits)
  qed
  ultimately show ?thesis using location_claim_unit [OF assms(1)] assms(1)
    by (auto simp: verify_claim_def Let_def unit_confidence_def make_result_def)
qed

lemma verify_claims_each:
  assumes "coherent (ck_disk k) st" "search_in_bounds k" "list_all short_claim cs"
  shows "list_all2 (\<lambda>c r. unit_confidence r \<and> (vr_status r = VERIFIED \<longrightarrow> claim_grounded k c)) cs (fst (verify_claims say k cs st)) \<and>
    coherent (ck_disk k) (snd (verify_claims say k cs st))"
  using assms(1,3)
proof (induction cs arbitrary: st)
  case (Cons c cs)
  obtain r st1 where r: "verify_claim say k c st = (r, st1)" by fastforce
  have one: "unit_confidence r" "coherent (ck_disk k) st1" "vr_status r = VERIFIED \<Longrightarrow> claim_grounded k c"
    using verify_claim_unit [OF Cons.prems(1) assms(2), of say c] verify_claim_grounded [OF Cons.prems(1), of c say] Cons.prems(2) r by auto
  obtain rs st2 where rs: "verify_claims say k cs st1 = (rs, st2)" by fastforce
  show ?case using Cons.IH [OF one(2)] Cons.prems(2) one r rs by simp
qed simp

text \<open>Without a confirmed claim the score stays at three quarters.\<close>

lemma tally_bound:
  assumes "list_all (\<lambda>r. unit_confidence r \<and> vr_status r \<noteq> VERIFIED) rs" "n + length rs \<le> 2 ^ 40"
    "0 \<le> ta_weight t" "ta_weight t \<le> of_nat (3 * n) / 4"
  shows "0 \<le> ta_weight (foldl (tally_result say) t rs) \<and> ta_weight (foldl (tally_result say) t rs) \<le> of_nat (3 * (n + length rs)) / 4"
  using assms
proof (induction rs arbitrary: t n)
  case (Cons r rs)
  have small: "3 * n + 3 < 2 ^ 51" using Cons.prems(2) by simp
  have step: "0 \<le> rounded (ta_weight t + x)" "rounded (ta_weight t + x) \<le> of_nat (3 * Suc n) / 4"
    if "0 \<le> x" "x \<le> 3 / 4" for x
    using rounded_sum_bound [OF Cons.prems(3,4), of x 3] that small by (simp_all add: ac_simps)
  have seven: "0 \<le> rounded (7 / 10)" "rounded (7 / 10) \<le> 3 / 4" using rounded_three_quarters [of "7 / 10"] by auto
  have part: "0 \<le> rounded (vr_confidence r * rounded (7 / 10))" "rounded (vr_confidence r * rounded (7 / 10)) \<le> 3 / 4"
  proof -
    have "0 \<le> vr_confidence r" "vr_confidence r \<le> 1" using Cons.prems(1) by (auto simp: unit_confidence_def)
    then have "0 \<le> vr_confidence r * rounded (7 / 10)" "vr_confidence r * rounded (7 / 10) \<le> 1 * (3 / 4)"
      using seven by (intro mult_nonneg_nonneg mult_mono; simp)+
    then show "0 \<le> rounded (vr_confidence r * rounded (7 / 10))" "rounded (vr_confidence r * rounded (7 / 10)) \<le> 3 / 4"
      using rounded_three_quarters by auto
  qed
  have three: "0 \<le> rounded (3 / 10)" "rounded (3 / 10) \<le> 3 / 4" using rounded_three_quarters [of "3 / 10"] by auto
  have "ta_weight t \<le> of_nat (3 * Suc n) / 4" using Cons.prems(4) by simp
  then have w: "0 \<le> ta_weight (tally_result say t r)" "ta_weight (tally_result say t r) \<le> of_nat (3 * Suc n) / 4"
    using step [OF part] step [OF three] Cons.prems(1,3)
    by (cases "vr_status r"; simp add: tally_result_def)+
  show ?case using Cons.IH [OF _ _ w] Cons.prems(1,2) by simp
qed simp

lemma verified_threshold: "3 / 4 < rounded (8 / 10)"
proof -
  let ?b = "25 / 32 :: rat"
  have e: "leading_exponent ?b = - 1" by (rule leading_exponent_unique) (simp_all add: power_two_def)
  have "power_two (- 53) = 1 / 2 ^ 53" using power_two_minus [of 53] by simp
  then have unit: "rounding_unit ?b = 1 / 2 ^ 53" using e by (simp add: rounding_unit_def)
  have "round_magnitude ?b = ?b" by (rule round_magnitude_multiple [of _ "25 * 2 ^ 48"]) (unfold unit, simp)
  then have "rounded ?b = ?b" by (simp add: rounded_def to_double_def max_double_bound_def)
  moreover have "rounded ?b \<le> rounded (8 / 10)" by (rule rounded_mono) (auto simp: max_double_bound_def)
  ultimately show ?thesis by simp
qed

lemma score_unsupported:
  assumes "list_all (\<lambda>r. unit_confidence r \<and> vr_status r \<noteq> VERIFIED) rs" "length rs \<le> 2 ^ 40"
  shows "dict_get (score_proposal say rs) ''verdict'' \<noteq> Some (PStr ''verified'')"
proof (cases "rs = []")
  case False
  have "0 \<le> ta_weight (tally_results say rs) \<and> ta_weight (tally_results say rs) \<le> of_nat (3 * length rs) / 4"
    using tally_bound [OF assms(1), of 0 empty_tally] assms(2) by (simp add: tally_results_def empty_tally_def)
  then have "0 \<le> ta_weight (tally_results say rs) / of_nat (length rs)" "ta_weight (tally_results say rs) / of_nat (length rs) \<le> 3 / 4"
    using False by (auto simp: pos_divide_le_eq)
  then have "proposal_score say rs \<le> 3 / 4" using rounded_three_quarters by (auto simp: proposal_score_def)
  moreover note verified_threshold
  ultimately have "verdict_of (proposal_score say rs) \<noteq> VERIFIED" by (auto simp: verdict_of_def)
  then show ?thesis using False
    by (cases "verdict_of (proposal_score say rs)") (auto simp: score_proposal_def Let_def dict_get_def)
qed (simp add: score_proposal_def dict_get_def)

definition claims_fit :: "attributes \<Rightarrow> bool" where
  "claims_fit p \<longleftrightarrow> list_all short_claim (extract_claims p) \<and> length (extract_claims p) \<le> 2 ^ 40"

definition stated_verdict :: "attributes \<Rightarrow> pyval" where
  "stated_verdict q = dict_get_or PNone (annotation_of q) ''verdict''"

lemma normalize_verdict:
  assumes "normalize_annotation say raw = Inr d" "dict_get_or PNone d ''verdict'' = PStr ''verified''"
  shows "dict_get raw ''verdict'' = Some (PStr ''verified'')"
proof -
  have "dict_get d ''verdict'' = Some (PStr (read_verdict raw)) \<or> dict_get d ''verdict'' = Some (PStr ''unverifiable'')"
    using assms(1) by (auto simp: normalize_annotation_def Let_def dict_get_foldl_other location_keys_def split: prod.splits)
  then have "read_verdict raw = ''verified''" using assms(2) by (auto simp: dict_get_or_get)
  then show ?thesis
    by (auto simp: read_verdict_def valid_verdicts_def dict_get_or_get split: option.splits pyval.splits if_splits)
qed

lemma cross_check_verdicts:
  assumes "search_in_bounds k"
  shows "coherent (ck_disk k) st \<Longrightarrow> list_all claims_fit ps \<Longrightarrow>
    \<exists>qs. score_proposals say (fst (cross_check say k (map PDict ps) st)) = Inr (map PDict qs) \<and>
      list_all2 (\<lambda>p q. stated_verdict q = PStr ''verified'' \<longrightarrow> list_ex (claim_grounded k) (extract_claims p)) ps qs"
proof (induction ps arbitrary: st)
  case (Cons p ps)
  obtain rs st1 where rs: "verify_claims say k (extract_claims p) st = (rs, st1)" by fastforce
  have each: "list_all2 (\<lambda>c r. unit_confidence r \<and> (vr_status r = VERIFIED \<longrightarrow> claim_grounded k c)) (extract_claims p) rs"
    "coherent (ck_disk k) st1"
    using verify_claims_each [OF Cons.prems(1) assms, of "extract_claims p" say] Cons.prems(2) rs by (auto simp: claims_fit_def)
  obtain ws st2 where ws: "cross_check say k (map PDict ps) st1 = (ws, st2)" by fastforce
  obtain qs where qs: "score_proposals say ws = Inr (map PDict qs)"
    "list_all2 (\<lambda>p q. stated_verdict q = PStr ''verified'' \<longrightarrow> list_ex (claim_grounded k) (extract_claims p)) ps qs"
    using Cons.IH [OF each(2)] Cons.prems(2) ws by auto
  obtain q t where "dict_get (score_proposal say rs) ''verification_score'' = Some (PFloat q t)"
    using score_proposal_float by blast
  from normalize_float [OF this] obtain d where d: "normalize_annotation say (score_proposal say rs) = Inr d" by blast
  obtain x xs where x: "score_proposal say rs = x # xs" by (cases "rs = []") (auto simp: score_proposal_def Let_def)
  let ?q = "dict_set ''__verification'' (PDict d) p"
  have "list_ex (claim_grounded k) (extract_claims p)" if "stated_verdict ?q = PStr ''verified''"
  proof (rule ccontr)
    assume none: "\<not> list_ex (claim_grounded k) (extract_claims p)"
    have "list_all (\<lambda>r. unit_confidence r \<and> vr_status r \<noteq> VERIFIED) rs"
      using each(1) none by (induction rule: list_all2_induct) auto
    moreover have "length rs \<le> 2 ^ 40"
      using each(1) Cons.prems(2) by (simp add: claims_fit_def list_all2_lengthD)
    ultimately show False
      using score_unsupported [of rs say] normalize_verdict [OF d] that by (simp add: stated_verdict_def annotation_of_def)
  qed
  then show ?case
    by (intro exI [of _ "?q # qs"]) (use rs ws qs d x in \<open>simp add: score_proposals_def score_one_def\<close>)
qed (simp add: score_proposals_def)

text \<open>
  C16: A proposal the verifier calls verified makes at least one claim that holds: a file and line that
  exist, a chain of calls whose every step is an edge of the graph, a name the graph has, or a resource
  whose type evidence agrees. Refuted, repaired and undecided claims never add up to that verdict.
\<close>

theorem verified_proposal_grounded:
  assumes "cv_proposals (debate_verifier say k) ps = Inr qs" "search_in_bounds k" "list_all claims_fit ps"
  shows "list_all2 (\<lambda>p q. stated_verdict q = PStr ''verified'' \<longrightarrow> list_ex (claim_grounded k) (extract_claims p)) ps qs"
proof -
  obtain qs' where qs': "score_proposals say (fst (cross_check say k (map PDict ps) fresh_state)) = Inr (map PDict qs')"
    "list_all2 (\<lambda>p q. stated_verdict q = PStr ''verified'' \<longrightarrow> list_ex (claim_grounded k) (extract_claims p)) ps qs'"
    using cross_check_verdicts [OF assms(2) coherent_fresh assms(3)] by blast
  have "fst (verify_proposals say k (map PDict ps) fresh_state) = Inr (map PDict qs')"
    using qs'(1) by (cases ps) (auto simp: verify_proposals_def score_proposals_def split: prod.splits)
  then show ?thesis using assms(1) qs'(2) by (simp add: debate_verifier_def)
qed

definition sample_checker :: checker where
  "sample_checker =
     make_checker
       (add_node \<lparr>cn_id = ''n'', cn_type = FUNCTION_NODE, cn_name = ''save'', cn_file = ''a.py'', cn_line_start = 1,
          cn_line_end = 2, cn_language = ''python'', cn_properties = []\<rparr> (empty_graph []))
       \<lparr>dk_files = [], dk_root = [], dk_decode = (\<lambda>s. s)\<rparr> None []"

definition sample_proposal :: attributes where
  "sample_proposal = [(''evidence_claims'', PList [PDict (make_claim ''code_pattern'' (PStr ''save'') PNone)])]"

lemma sample_claims: "extract_claims sample_proposal = [make_claim ''code_pattern'' (PStr ''save'') PNone]"
  by code_simp

theorem verified_proposal_grounded_witness:
  "\<exists>qs. cv_proposals (debate_verifier (\<lambda>m. []) sample_checker) [sample_proposal] = Inr qs \<and>
     list_all2 (\<lambda>p q. stated_verdict q = PStr ''verified'' \<longrightarrow> list_ex (claim_grounded sample_checker) (extract_claims p))
       [sample_proposal] qs"
proof -
  obtain qs where "score_proposals (\<lambda>m. []) (fst (cross_check (\<lambda>m. []) sample_checker (map PDict [sample_proposal]) fresh_state)) = Inr (map PDict qs)"
    using cross_check_annotates by blast
  then have qs: "cv_proposals (debate_verifier (\<lambda>m. []) sample_checker) [sample_proposal] = Inr qs"
    by (auto simp: debate_verifier_def verify_proposals_def split: prod.splits)
  have bounds: "search_in_bounds sample_checker"
    by (simp add: search_in_bounds_def search_matches_def sample_checker_def make_checker_def)
  have "split_sub ''->'' (claim_target (make_claim ''code_pattern'' (PStr ''save'') PNone)) = [''save'']" by code_simp
  then have fit: "list_all claims_fit [sample_proposal]" by (simp add: claims_fit_def sample_claims short_claim_def)
  show ?thesis using qs verified_proposal_grounded [OF qs bounds fit] by blast
qed

section \<open>Where the verifier is weaker than it says\<close>

text \<open>Every name contains the empty text: a claim about no name at all is confirmed.\<close>

theorem nameless_claim_verified:
  "cg_nodes (ck_graph k) = x # xs \<Longrightarrow> vr_status (verify_pattern_claim say k (make_claim ''code_pattern'' PNone PNone)) = VERIFIED"
proof -
  assume nodes: "cg_nodes (ck_graph k) = x # xs"
  have "contains_sub [] s" for s by (cases s) (auto simp: starts_with_def)
  then have "find_by_name (ck_graph k) [] None = dict_values (cg_nodes (ck_graph k))" by (simp add: find_by_name_def lower_def)
  then show ?thesis using nodes
    by (simp add: verify_pattern_claim_def make_claim_def claim_target_def text_or_def dict_get_or_def dict_values_def make_result_def)
qed

text \<open>The entry that is tested was just made, so a critique is validated whatever it says.\<close>

lemma checked_verdicts_entry:
  "v \<in> set (dicts_in (fst (checked_verdicts say d vs st))) \<Longrightarrow> dict_get_or PNone v ''__verified_concerns'' \<noteq> PNone"
proof (induction vs arbitrary: st)
  case (Cons w vs)
  show ?case
  proof (cases "\<exists>p. w = PDict p")
    case True
    then obtain p where p: "w = PDict p" by blast
    obtain cs st1 where cs: "checked_concerns say d (case dict_get_or (PList []) p ''concerns'' of PList cs \<Rightarrow> cs | _ \<Rightarrow> []) st = (cs, st1)"
      by fastforce
    obtain ws st2 where ws: "checked_verdicts say d vs st1 = (ws, st2)" by fastforce
    show ?thesis using Cons.prems Cons.IH [of st1] p cs ws by (auto simp: dicts_in_def List.map_filter_simps)
  next
    case False
    obtain ws st1 where ws: "checked_verdicts say d vs st = (ws, st1)" by fastforce
    show ?thesis using Cons.prems Cons.IH [of st] False ws
      by (cases w) (auto simp: dicts_in_def List.map_filter_simps)
  qed
qed (simp add: dicts_in_def List.map_filter_simps)

theorem critique_always_validated:
  "\<exists>n. dict_get (fst (check_critique say k c st)) ''__verification'' =
     Some (PDict [(''verdicts_checked'', PInt n), (''validated'', PBool True)])"
proof -
  obtain vs st1 where vs: "checked_verdicts say (ck_disk k) (case dict_get_or (PList []) c ''verdicts'' of PList vs \<Rightarrow> vs | _ \<Rightarrow> []) st = (vs, st1)"
    by fastforce
  have "list_all (\<lambda>v. dict_get_or PNone v ''__verified_concerns'' \<noteq> PNone) (dicts_in vs)"
    unfolding list_all_iff using checked_verdicts_entry vs by (metis fst_conv)
  then show ?thesis using vs by (simp add: check_critique_def Let_def)
qed

text \<open>A proposal that claims nothing is scored one half and listed with those that were verified.\<close>

theorem unclaimed_listed_clean:
  "\<exists>v. fst (cross_check say k [PDict [(''evidence_claims'', PList [])]] st) = [v] \<and>
     split_flagged default_flag_threshold ([], []) v = Inr ([], [v])"
proof -
  have "extract_claims [(''evidence_claims'', PList [])] = []" by code_simp
  moreover have "rounded (3 / 10) \<le> 1 / 2"
    using rounded_mono [of "3 / 10" "of_nat 2 / 4"] rounded_quarters [of 2] by (simp add: max_double_bound_def)
  ultimately show ?thesis
    by (auto simp: score_proposal_def split_flagged_def score_of_def annotation_of_def dict_get_or_get dict_get_def
        dict_set_def coerce_score_def float_value_def clamp_unit_def default_flag_threshold_def)
qed

text \<open>\<open>float\<close> of a huge integer raises \<open>OverflowError\<close>, which the conversion of scores does not catch.\<close>

theorem huge_score_escapes:
  "coerce_score (PInt (2 ^ 1024)) = Inl (OverflowError ''int too large to convert to float'')"
  by (simp add: coerce_score_def to_double_def max_double_bound_def)

text \<open>The statistics count each verdict at most once.\<close>

lemma stats_bounded:
  assumes "get_verification_stats vs = Inr s"
  shows "vs_total s = length vs \<and> vs_verified s + vs_partial s + vs_hallucinated s \<le> length vs"
proof -
  have "verdict_count ''verified'' ds + verdict_count ''partial'' ds + verdict_count ''hallucinated'' ds \<le> length ds" for ds
    by (induction ds) (auto simp: verdict_count_def)
  from this [of "verified_entries vs"]
  have "verdict_count ''verified'' (verified_entries vs) + verdict_count ''partial'' (verified_entries vs) +
      verdict_count ''hallucinated'' (verified_entries vs) \<le> length (verified_entries vs)" .
  also have "\<dots> \<le> length vs"
    by (induction vs) (auto simp: verified_entries_def List.map_filter_simps split: option.splits)
  finally show ?thesis using assms by (auto simp: get_verification_stats_def Let_def)
qed

end
