(* ===== verification/VerifiedDebate.thy ===== *)
theory VerifiedDebate
  imports VerifierSound
begin

text \<open>
  The interface between a debate and its verifier: what the debate can rely on when the verifier always
  answers and every answer meets a contract, and the program's verifier as a provider of it.
\<close>

section \<open>A verifier that always answers\<close>


section \<open>The program's verifier\<close>













end
