(* ===== verification/Spec2Isabelle.thy ===== *)
theory Spec2Isabelle
  imports StateSpec StatePaths ResourceLifecycle RetryLoops LinkerSound CallGraph GraphStore Intent Adjudication
    ShardMerge Findings ConsentQueue Debate Engine FlowAnalysis FlowVisitors Feedback Session ReaderInventory
    Benchmarks VerifiedDebate
begin

text \<open>
  SmartBench inspects repositories. Language frontends lower source files to a semantic intermediate
  representation (\<open>ir/\<close>, all paths below \<open>src/smartbench\<close>) over a structural code graph
  (\<open>graph/\<close>). A linker joins the files, language-neutral analysers (\<open>analysis/\<close>, \<open>flow/\<close>) decide
  temporal and flow questions, rules (\<open>core/rules/\<close>) turn their answers into findings, and the
  engine (\<open>core/engine/engine.py\<close>) runs the rules, collects evidence packs and adjudicates. Findings
  are then reviewed by a debate of language models that is gated by evidence (\<open>engine/debate.py\<close>), in
  shards when the project is large (\<open>sharding/\<close>), and leave the program as SARIF
  (\<open>core/sarif.py\<close>), as trajectories, as requests that await consent (\<open>consent/\<close>) and as feedback
  that ranks later findings (\<open>feedback/\<close>). The development models that pipeline from the
  representation to the outputs.

  Foundations.
  \<^item> \<open>Prelude\<close>: Python dictionaries as association lists in insertion order (\<open>dict_get\<close>,
    \<open>dict_set\<close>, \<open>dict_append\<close>, ...), invariants of folds. \<open>PyString\<close>: the string
    methods the code calls. \<open>PyValue\<close>: dynamic values, their text, exceptions. \<open>PyFloat\<close>: doubles
    as the rationals they denote with the text they print as, rounding half to even.
    \<open>Sha256\<close>: the digest behind identifiers. \<open>Json\<close> and \<open>JsonRoundtrip\<close>: \<open>json.loads\<close> and the
    proof that it inverts \<open>json.dumps\<close>. \<open>Decode\<close>: decoding of bytes. \<open>PyRegex\<close>: a matcher for the
    regular expressions of the code, in the order of Python's backtracking. \<open>Fnmatch\<close>: file patterns.

  The representation.
  \<^item> \<open>Evidence\<close>, \<open>Operations\<close>, \<open>Contracts\<close>, \<open>Capabilities\<close>, \<open>Provenance\<close>,
    \<open>TypeEvid\<close>: the files of the same names under \<open>ir/\<close> and \<open>provenance.py\<close>.
    \<open>CodeGraph\<close> and \<open>GraphStore\<close>: \<open>graph/schema.py\<close> (containers, dictionary form, expansion).
    \<open>SemanticIr\<close>: \<open>ir/schema.py\<close>. \<open>PathSafety\<close>: \<open>path_safety.py\<close> over a file tree with links.
    \<open>Linker\<close>, \<open>LinkerSound\<close>, \<open>CallGraph\<close>: \<open>analysis/interprocedural.py\<close>.

  Analyses.
  \<^item> \<open>Worklist\<close>: a locale for the graph searches of the code. A search is given by its loop, the
    states it queues and the states it stops at; the locale proves once that the loop answers
    reachability, and each search of the code is an interpretation of it.
  \<^item> \<open>ControlFlow\<close> and \<open>Dominators\<close>: \<open>analysis/control_flow.py\<close>. The locale
    \<open>flow_queries\<close> is the contract the analysers rely on (what a reachability or bypass query says
    about paths), interpreted on the graph of the code; \<open>dom_scope\<close> holds the proof that the
    dominator iteration ends in dominance over all paths, interpreted on every graph built.
  \<^item> \<open>Icfg\<close>: \<open>analysis/icfg.py\<close>. \<open>icfg_run\<close> is the step relation of the search with its call stack;
    \<open>realizable\<close> is what its answers are judged by, without a stack: a walk of arcs, written as brackets,
    in which every return answers the innermost call that is open.
  \<^item> \<open>StateMachine\<close>, \<open>StateSpec\<close>, \<open>StatePaths\<close>, \<open>ResourceLifecycle\<close>, \<open>RetryLoops\<close>: the analysers
    of those names (\<open>StateSpec\<close> is \<open>analysis/spec.py\<close>).
  \<^item> \<open>FlowSchema\<close>, \<open>Taint\<close>, \<open>TaintSound\<close>, \<open>FlowAnalysis\<close>, \<open>FlowVisitors\<close>: \<open>flow/\<close>. A syntax tree is a
    value with the fields the analysis reads of the parser's nodes.
  \<^item> \<open>Intent\<close>, \<open>Adjudication\<close>: \<open>analysis/intent.py\<close>, \<open>analysis/adjudication.py\<close>.
    \<open>Retrieval\<close>: \<open>graph/evidence.py\<close>.

  Findings and what becomes of them.
  \<^item> \<open>Findings\<close> (\<open>core/rules/base.py\<close>, \<open>core/sarif.py\<close>), \<open>PatternRules\<close> and \<open>Rules\<close> (the rules),
    \<open>Engine\<close>: the run of a project and of a file. A rule is a record with its analysis as a field,
    so the engine's theorems hold for any rules.
  \<^item> \<open>ProjectReader\<close> (\<open>engine/project_reader.py\<close>: the reply of the model, its validation and the
    resolution against the program), \<open>ReaderSound\<close> and \<open>ReaderInventory\<close> (what an accepted reply and the
    inventory guarantee), \<open>Session\<close>: \<open>core/session.py\<close>, an analysis with the project reader on top.
  \<^item> \<open>Debate\<close>: the rounds, the attempts and the evidence gate. \<open>ShardPlan\<close>, \<open>ShardMerge\<close>: \<open>sharding/\<close>.
    The clock of a sharded review is an argument that is read before each dispatch: after the debates run
    before it with one worker, before any debate is waited for with a pool.
  \<^item> \<open>Location\<close>, \<open>CrossCheck\<close>, \<open>Verdicts\<close>: the verifier of claims (\<open>verifier/location.py\<close>; \<open>extractor.py\<close> and
    \<open>cross_checker.py\<close>; \<open>scorer.py\<close> and \<open>verifier.py\<close>), with \<open>LocationSound\<close> and \<open>VerifierSound\<close> for its
    properties and \<open>FloatOrder\<close> for the order of rounded numbers they rest on. \<open>VerifiedDebate\<close>: the locale
    \<open>answering_verifier\<close> is what a debate relies on, interpreted on the program's verifier.
  \<^item> \<open>Benchmarks\<close>: \<open>benchmarks/\<close>, the manifest, the runner and the metrics.
    \<open>ConsentQueue\<close>: \<open>consent/queue.py\<close>. \<open>Feedback\<close>: \<open>feedback/\<close>.
  \<^item> \<open>Samples\<close>: small programs the concrete instances use.

  Conventions. A class is a record, an enumeration a datatype with a \<open>_value\<close> function for its text,
  a constructor that validates is \<open>make_x\<close> with result \<open>py_error + x\<close>. Python integers are
  \<open>int\<close>; texts are lists of the characters below 256, and where the code produces or meets something
  the model does not follow (a character above 255, an untyped value of a third-party library, an
  infinite float) the result is a value of its own (\<open>Untyped\<close>, \<open>Beyond\<close>, \<open>Outside\<close>), never a made-up
  one. A frozen set or a sorted tuple is the sorted list of its elements; where the code iterates over
  a set in hash order, that order is an argument. Memo tables
  are part of the state: \<open>cfg_reachable\<close> and \<open>cfg_dominators\<close> return the changed graph, and
  the caches are proved transparent; analysers use the computations. Clocks, files, language
  models, parsers, adapters and completion orders are arguments of the definitions that use them.

  Loops. Every search is a total function, its termination proved on the finitely many nodes with
  successors; walks of syntax trees recurse on their size. The dominator iteration is a
  \<open>while_option\<close>, proved to end; the merging of shards is one that is proved not to end
  exactly when \<open>misc\<close> becomes the smallest group while there are too many chunks. The interprocedural search is cut off by the step budget of the code, so it is total by that
  budget; \<open>icfg_search_complete\<close> says how large the budget must be for \<open>None\<close> to mean that no run
  exists. The JSON reader has a fuel of twice the length of its text, which \<open>json_fuel\<close> shows to be enough.

  What the lemmas show. Searches: soundness and completeness against paths. Analysers: silence means
  that guards or cleanups lie on every path; a report means that an offending path exists and names
  operations of the program. Engine and rules: every finding is grounded in a selected rule whose
  requirements hold, no selected rule or file drops out in silence, the statistics add up. Retrieval and
  debate: only facts of the representation are cited, within the limits. Parsers and constructors:
  what an accepted value guarantees. Stores: what is written is read back, under the
  conditions on texts that the theorems name. Merges: keys, order and independence of completion order.
  Metrics: each target rule of a run is counted once. The verifier: a suggestion carries the score of its
  own claims, not what the model wrote. Some theorems record behaviour that differs from
  what the code documents or means (the exit selectors, the leading sleep, the generalised mining, the
  diverging plan, colliding shard ids, the deadline of a pool, the label without a basis, the untrimmed
  memory entry, the split feedback line, and others); they are named in the texts before them.

  Not modelled. The frontends and the graph builder walk the syntax trees of tree-sitter and of
  Python's \<open>ast\<close>, whose shape is third-party behaviour. Project adapters, detection,
  diagnostics and sandboxes probe file systems and run external programs.
  Language-model providers, embeddings and vector stores are services. Prompts, the command line, HTML
  reports and the experiments are input and output.
\<close>

end
